(* ===== verification/Prelude.thy ===== *)
theory Prelude
  imports Main "HOL-Library.Word"
begin

text \<open>
  Shared vocabulary of the development: machine integer types, C strings, the character
  classes of \<^verbatim>\<open>ctype.h\<close>, and the positional notation behind \<^verbatim>\<open>printf\<close> and
  \<^verbatim>\<open>scanf\<close> (printing a number in a base and reading it back). The lemma collection
  \<open>ctext_simps\<close> gathers the rewriting facts about text that every codec proof uses.
\<close>

named_theorems ctext_simps

section \<open>Machine integers\<close>

type_synonym u8 = "8 word"
type_synonym u16 = "16 word"
type_synonym u32 = "32 word"
type_synonym u64 = "64 word"

text \<open>
  A C \<^verbatim>\<open>int\<close> kept as a mathematical integer: \<open>wrap32\<close> is the two's complement value
  that a 32-bit signed computation leaves (the kernel is compiled with wrapping signed
  arithmetic).
\<close>

definition wrap32 :: "int \<Rightarrow> int" where
  "wrap32 x = (x + 2147483648) mod 4294967296 - 2147483648"

lemma wrap32_id: "- 2147483648 \<le> x \<Longrightarrow> x < 2147483648 \<Longrightarrow> wrap32 x = x"
  by (simp add: wrap32_def)

lemma wrap32_range: "- 2147483648 \<le> wrap32 x \<and> wrap32 x < 2147483648"
  by (auto simp: wrap32_def)

lemma unat_of_nat_small: "n < 2 ^ LENGTH('a) \<Longrightarrow> unat (of_nat n :: 'a::len word) = n"
  by (simp add: unat_of_nat take_bit_nat_eq_self)

text \<open>
  Undefined accesses of the source (dereferencing NULL, an index outside its array,
  using freed or uninitialised memory), failed assertions, taking a lock that is held and exceptions that
  nothing catches (\<open>Thrown\<close>) are values:
  an operation that can make one returns \<open>Inl\<close> of the fault.
\<close>

datatype fault = NullDeref | OutOfBounds | AssertFailed | UseAfterFree | Deadlock | Uninitialised | SignedOverflow
  | Thrown

type_synonym 'a checked = "fault + 'a"

text \<open>Going on with a result that is not a fault.\<close>

definition chk_bind :: "'a checked \<Rightarrow> ('a \<Rightarrow> 'b checked) \<Rightarrow> 'b checked" where
  "chk_bind r f = (case r of Inl e \<Rightarrow> Inl e | Inr x \<Rightarrow> f x)"

lemma chk_bind_Inr [simp]: "chk_bind (Inr x) f = f x"
  by (simp add: chk_bind_def)

lemma chk_bind_Inl [simp]: "chk_bind (Inl e) f = Inl e"
  by (simp add: chk_bind_def)

lemma chk_bind_eq_Inr: "chk_bind r f = Inr y \<longleftrightarrow> (\<exists>x. r = Inr x \<and> f x = Inr y)"
  by (cases r) auto

fun the_default :: "'a \<Rightarrow> 'a option \<Rightarrow> 'a" where
  "the_default d None = d"
| "the_default d (Some x) = x"

lemma uint_ge_min32: "- 2147483648 \<le> uint (w :: 'a::len word)"
proof -
  have "(0::int) \<le> uint w" by simp
  then show ?thesis by linarith
qed

section \<open>C strings\<close>

text \<open>
  A C string is modelled by the list of its bytes before the terminating NUL. Reading at
  index \<open>i\<close> gives the byte, or NUL at the end. \<open>buffer + n\<close> of the source is
  \<open>drop n buffer\<close>.
\<close>

abbreviation NUL :: char where "NUL \<equiv> CHR 0x00"

definition char_at :: "string \<Rightarrow> nat \<Rightarrow> char" where
  "char_at s i = (if i < length s then s ! i else NUL)"

definition c_string :: "string \<Rightarrow> bool" where
  "c_string s \<longleftrightarrow> NUL \<notin> set s"

lemma char_at_Nil [simp]: "char_at [] i = NUL"
  by (simp add: char_at_def)

lemma char_at_Cons_0 [simp]: "char_at (c # s) 0 = c"
  by (simp add: char_at_def)

lemma char_at_Cons_Suc [simp]: "char_at (c # s) (Suc i) = char_at s i"
  by (simp add: char_at_def)

lemma char_at_append_left: "i < length s \<Longrightarrow> char_at (s @ t) i = s ! i"
  by (simp add: char_at_def nth_append)

lemma char_at_append_right [simp]: "char_at (s @ t) (length s) = char_at t 0"
  by (cases t) (simp_all add: char_at_def)

lemma char_at_append_right_add [simp]: "char_at (s @ t) (length s + i) = char_at t i"
  by (simp add: char_at_def nth_append)

lemma char_at_drop: "char_at (drop n s) i = char_at s (n + i)"
  by (cases "n \<le> length s") (auto simp: char_at_def)

lemma char_at_beyond: "length s \<le> i \<Longrightarrow> char_at s i = NUL"
  by (simp add: char_at_def)

text \<open>\<^verbatim>\<open>strncmp(a, b, n) == 0\<close> on strings without an embedded NUL.\<close>

definition strncmp_eq :: "string \<Rightarrow> string \<Rightarrow> nat \<Rightarrow> bool" where
  "strncmp_eq a b n \<longleftrightarrow> take n a = take n b"

lemma strncmp_eq_prefix:
  "length lit = n \<Longrightarrow> strncmp_eq buf lit n \<longleftrightarrow> (\<exists>rest. buf = lit @ rest)"
  by (auto simp: strncmp_eq_def intro: exI [of _ "drop n buf"])
    (metis append_take_drop_id)

text \<open>\<^verbatim>\<open>strcmp\<close>: the sign of the comparison of the first differing bytes, as unsigned.\<close>

fun strcmp :: "string \<Rightarrow> string \<Rightarrow> int" where
  "strcmp [] [] = 0"
| "strcmp [] (b # bs) = -1"
| "strcmp (a # as) [] = 1"
| "strcmp (a # as) (b # bs) =
     (if (of_char a :: nat) < of_char b then -1
      else if (of_char b :: nat) < of_char a then 1
      else strcmp as bs)"

section \<open>Character classes\<close>

definition isdigit :: "char \<Rightarrow> bool" where
  "isdigit c \<longleftrightarrow> 48 \<le> (of_char c :: nat) \<and> (of_char c :: nat) \<le> 57"

definition isxdigit :: "char \<Rightarrow> bool" where
  "isxdigit c \<longleftrightarrow> isdigit c
     \<or> (65 \<le> (of_char c :: nat) \<and> (of_char c :: nat) \<le> 70)
     \<or> (97 \<le> (of_char c :: nat) \<and> (of_char c :: nat) \<le> 102)"

definition isprint :: "char \<Rightarrow> bool" where
  "isprint c \<longleftrightarrow> 32 \<le> (of_char c :: nat) \<and> (of_char c :: nat) \<le> 126"

definition isspace :: "char \<Rightarrow> bool" where
  "isspace c \<longleftrightarrow> (of_char c :: nat) = 32 \<or> (9 \<le> (of_char c :: nat) \<and> (of_char c :: nat) \<le> 13)"

definition xdigit_val :: "char \<Rightarrow> nat" where
  "xdigit_val c = (if isdigit c then of_char c - 48
     else if (of_char c :: nat) \<le> 70 then of_char c - 55 else of_char c - 87)"

lemma NUL_classes [simp]:
  "\<not> isdigit NUL" "\<not> isxdigit NUL" "\<not> isprint NUL" "\<not> isspace NUL"
  by (simp_all add: isdigit_def isxdigit_def isprint_def isspace_def)

lemma isdigit_isxdigit: "isdigit c \<Longrightarrow> isxdigit c"
  by (simp add: isxdigit_def)

section \<open>Positional notation\<close>

text \<open>The digit characters of \<^verbatim>\<open>%u\<close>/\<^verbatim>\<open>%x\<close> and \<^verbatim>\<open>%X\<close>.\<close>

definition digit_lower :: "nat \<Rightarrow> char" where
  "digit_lower k = char_of (if k < 10 then 48 + k else 87 + k)"

definition digit_upper :: "nat \<Rightarrow> char" where
  "digit_upper k = char_of (if k < 10 then 48 + k else 55 + k)"

fun print_base :: "nat \<Rightarrow> (nat \<Rightarrow> char) \<Rightarrow> nat \<Rightarrow> string" where
  "print_base b dg n =
     (if n < b \<or> b < 2 then [dg n] else print_base b dg (n div b) @ [dg (n mod b)])"

declare print_base.simps [simp del]

definition read_base :: "nat \<Rightarrow> string \<Rightarrow> nat" where
  "read_base b s = foldl (\<lambda>acc c. acc * b + xdigit_val c) 0 s"

lemma read_base_Nil [simp]: "read_base b [] = 0"
  by (simp add: read_base_def)

lemma read_base_snoc [simp]: "read_base b (s @ [c]) = read_base b s * b + xdigit_val c"
  by (simp add: read_base_def)

lemma of_char_char_of_small: "k < 256 \<Longrightarrow> (of_char (char_of (k::nat)) :: nat) = k"
  by simp

lemma xdigit_val_digit_lower [simp]: "k < 16 \<Longrightarrow> xdigit_val (digit_lower k) = k"
  by (auto simp: xdigit_val_def digit_lower_def isdigit_def)

lemma xdigit_val_digit_upper [simp]: "k < 16 \<Longrightarrow> xdigit_val (digit_upper k) = k"
  by (auto simp: xdigit_val_def digit_upper_def isdigit_def)

lemma isxdigit_digit_lower [simp]: "k < 16 \<Longrightarrow> isxdigit (digit_lower k)"
  by (auto simp: isxdigit_def digit_lower_def isdigit_def)

lemma isxdigit_digit_upper [simp]: "k < 16 \<Longrightarrow> isxdigit (digit_upper k)"
  by (auto simp: isxdigit_def digit_upper_def isdigit_def)

lemma isdigit_digit_lower [simp]: "k < 10 \<Longrightarrow> isdigit (digit_lower k)"
  by (auto simp: isdigit_def digit_lower_def)

lemma print_base_nonempty [simp]: "print_base b dg n \<noteq> []"
  by (subst print_base.simps) simp

lemma read_print_base:
  assumes "2 \<le> b" and "\<And>k. k < b \<Longrightarrow> xdigit_val (dg k) = k"
  shows "read_base b (print_base b dg n) = n"
  using assms
proof (induction b dg n rule: print_base.induct)
  case (1 b dg n)
  show ?case
  proof (cases "n < b")
    case True
    then show ?thesis using "1.prems"
      by (subst print_base.simps) (simp add: read_base_def)
  next
    case False
    then have "read_base b (print_base b dg (n div b)) = n div b"
      using "1" by simp
    with False "1.prems" show ?thesis
      by (subst print_base.simps) (auto simp: mult.commute)
  qed
qed

lemma set_print_base:
  assumes "2 \<le> b" and "\<And>k. k < b \<Longrightarrow> P (dg k)"
  shows "\<forall>c \<in> set (print_base b dg n). P c"
  using assms
proof (induction b dg n rule: print_base.induct)
  case (1 b dg n)
  show ?case
  proof (cases "n < b")
    case True
    then show ?thesis using "1.prems" by (subst print_base.simps) simp
  next
    case False
    with "1" have "\<forall>c \<in> set (print_base b dg (n div b)). P c" by simp
    with False "1.prems" show ?thesis by (subst print_base.simps) auto
  qed
qed

lemma length_print_base:
  assumes "2 \<le> b" and "0 < m" and "n < b ^ m"
  shows "length (print_base b dg n) \<le> m"
  using assms
proof (induction b dg n arbitrary: m rule: print_base.induct)
  case (1 b dg n)
  show ?case
  proof (cases "n < b")
    case True
    then show ?thesis using "1.prems" by (subst print_base.simps) simp
  next
    case False
    with "1.prems" obtain m' where m: "m = Suc m'" "0 < m'"
      by (cases m; cases "m - 1") auto
    with "1.prems" have "n div b < b ^ m'"
      by (simp add: less_mult_imp_div_less mult.commute)
    with False m "1" have "length (print_base b dg (n div b)) \<le> m'" by simp
    with False m show ?thesis by (subst print_base.simps) simp
  qed
qed

section \<open>Decimal text\<close>

text \<open>\<^verbatim>\<open>sprintf("%u")\<close> and \<^verbatim>\<open>sprintf("%d")\<close>.\<close>

definition print_unsigned :: "nat \<Rightarrow> string" where
  "print_unsigned n = print_base 10 digit_lower n"

definition print_signed :: "int \<Rightarrow> string" where
  "print_signed i = (if i < 0 then CHR ''-'' # print_unsigned (nat (- i)) else print_unsigned (nat i))"

lemma read_print_unsigned [ctext_simps]: "read_base 10 (print_unsigned n) = n"
  by (simp add: print_unsigned_def read_print_base)

lemma print_unsigned_digits: "\<forall>c \<in> set (print_unsigned n). isdigit c"
  unfolding print_unsigned_def by (rule set_print_base) simp_all

lemma print_unsigned_nonempty [simp]: "print_unsigned n \<noteq> []"
  by (simp add: print_unsigned_def)

lemma takeWhile_append_stop:
  "\<forall>c \<in> set s. P c \<Longrightarrow> \<not> P (char_at rest 0) \<Longrightarrow> takeWhile P (s @ rest) = s"
  by (cases rest) (simp_all add: takeWhile_append2)

section \<open>Joining and splitting\<close>

fun join_with :: "char \<Rightarrow> string list \<Rightarrow> string" where
  "join_with sep [] = []"
| "join_with sep [s] = s"
| "join_with sep (s # t # ss) = s @ sep # join_with sep (t # ss)"

fun split_on :: "char \<Rightarrow> string \<Rightarrow> string list" where
  "split_on sep [] = [[]]"
| "split_on sep (c # cs) =
     (if c = sep then [] # split_on sep cs
      else (case split_on sep cs of [] \<Rightarrow> [[c]] | w # ws \<Rightarrow> (c # w) # ws))"

lemma split_on_append:
  "sep \<notin> set s \<Longrightarrow> split_on sep (s @ sep # t) = s # split_on sep t"
  by (induction s) auto

lemma split_on_none: "sep \<notin> set s \<Longrightarrow> split_on sep s = [s]"
  by (induction s) auto

lemma split_join_with:
  "ss \<noteq> [] \<Longrightarrow> \<forall>s \<in> set ss. sep \<notin> set s \<Longrightarrow> split_on sep (join_with sep ss) = ss"
  by (induction sep ss rule: join_with.induct) (auto simp: split_on_append split_on_none)

lemma set_join_with:
  "c \<in> set (join_with sep ss) \<Longrightarrow> c = sep \<or> (\<exists>s \<in> set ss. c \<in> set s)"
  by (induction sep ss rule: join_with.induct) auto

lemma length_join_with:
  "ss \<noteq> [] \<Longrightarrow> \<forall>s \<in> set ss. length s \<le> m \<Longrightarrow>
   length (join_with sep ss) \<le> m * length ss + (length ss - 1)"
  by (induction sep ss rule: join_with.induct) auto

end
