(* ===== verification/SaiCodec.thy ===== *)
theory SaiCodec
  imports Prelude
begin

text \<open>
  The primitive serializers of \<^verbatim>\<open>SAI/meta/saiserialize.c\<close>: bool, character data,
  integers of every width, sizes, object ids, MAC addresses and pointers, each with its
  deserializer. A deserializer returns \<open>Some (n, v)\<close> for "\<open>n\<close> characters consumed, value
  \<open>v\<close>" and \<open>None\<close> for \<^verbatim>\<open>SAI_SERIALIZE_ERROR\<close>; a serializer returns the text it leaves
  in the buffer (whose length is the returned count). The locale \<open>codec\<close> is the contract of
  such a pair: what the serializer wrote is read back whatever follows it, as long as the
  following character is one of the accepted terminators. The signed deserializers can overflow:
  their result is \<open>checked\<close> and their contract \<open>checked_codec\<close>.
\<close>

section \<open>The contract of a serializer and its deserializer\<close>

locale codec =
  fixes ser :: "'a \<Rightarrow> string option"
    and deser :: "string \<Rightarrow> (nat \<times> 'a) option"
    and ok :: "'a \<Rightarrow> bool"
    and stop :: "char \<Rightarrow> bool"
  assumes ser_total: "ok x \<Longrightarrow> \<exists>s. ser x = Some s"
    and roundtrip: "ok x \<Longrightarrow> ser x = Some s \<Longrightarrow> stop (char_at rest 0) \<Longrightarrow>
      deser (s @ rest) = Some (length s, x)"
    and stop_NUL: "stop NUL"
begin

lemma deser_ser: "ok x \<Longrightarrow> ser x = Some s \<Longrightarrow> deser s = Some (length s, x)"
  using roundtrip [of x s "[]"] by (simp add: stop_NUL)

lemma ser_inj: "ok x \<Longrightarrow> ok y \<Longrightarrow> ser x = Some s \<Longrightarrow> ser y = Some s \<Longrightarrow> x = y"
  using deser_ser [of x s] deser_ser [of y s] by simp

text \<open>No serialized text extends another one across a terminator.\<close>

lemma ser_prefix_free:
  assumes "ok x" and "ok y" and "ser x = Some s" and "ser y = Some (s @ t)"
    and "stop (char_at t 0)"
  shows "t = []"
proof -
  have "deser (s @ t) = Some (length s, x)"
    using assms by (intro roundtrip)
  moreover have "deser (s @ t) = Some (length (s @ t), y)"
    using assms by (intro deser_ser)
  ultimately show ?thesis by simp
qed

end

text \<open>
  A deserializer that can fail with a fault of the program has the same contract; what it returns
  without a fault is then a codec.
\<close>

definition returned :: "'a option checked \<Rightarrow> 'a option" where
  "returned r = (case r of Inr v \<Rightarrow> v | Inl _ \<Rightarrow> None)"

lemma returned_Inr [simp]: "returned (Inr v) = v"
  by (simp add: returned_def)

locale checked_codec =
  fixes ser :: "'a \<Rightarrow> string option"
    and deser :: "string \<Rightarrow> (nat \<times> 'a) option checked"
    and ok :: "'a \<Rightarrow> bool"
    and stop :: "char \<Rightarrow> bool"
  assumes total: "ok x \<Longrightarrow> \<exists>s. ser x = Some s"
    and roundtrip: "ok x \<Longrightarrow> ser x = Some s \<Longrightarrow> stop (char_at rest 0) \<Longrightarrow>
      deser (s @ rest) = Inr (Some (length s, x))"
    and stops_NUL: "stop NUL"

sublocale checked_codec \<subseteq> plain: codec ser "\<lambda>b. returned (deser b)" ok stop
  by unfold_locales (auto simp: total roundtrip stops_NUL)

section \<open>Terminators\<close>

definition sai_serialize_is_char_allowed :: "char \<Rightarrow> bool" where
  "sai_serialize_is_char_allowed c \<longleftrightarrow>
     c = NUL \<or> c = CHR 0x22 \<or> c = CHR '','' \<or> c = CHR '']'' \<or> c = CHR ''}''"

abbreviation allowed :: "char \<Rightarrow> bool" where
  "allowed \<equiv> sai_serialize_is_char_allowed"

lemma allowed_NUL [simp]: "allowed NUL"
  by (simp add: sai_serialize_is_char_allowed_def)

lemma allowed_not_digit: "allowed c \<Longrightarrow> \<not> isdigit c"
  by (auto simp: sai_serialize_is_char_allowed_def isdigit_def)

lemma allowed_not_xdigit: "allowed c \<Longrightarrow> \<not> isxdigit c"
  by (auto simp: sai_serialize_is_char_allowed_def isxdigit_def isdigit_def)

lemma allowed_not_x: "allowed c \<Longrightarrow> c \<noteq> CHR ''x'' \<and> c \<noteq> CHR ''X''"
  by (auto simp: sai_serialize_is_char_allowed_def)

section \<open>Booleans\<close>

definition sai_serialize_bool :: "bool \<Rightarrow> string" where
  "sai_serialize_bool flag = (if flag then ''true'' else ''false'')"

definition SAI_TRUE_LENGTH :: nat where "SAI_TRUE_LENGTH = 4"
definition SAI_FALSE_LENGTH :: nat where "SAI_FALSE_LENGTH = 5"

definition sai_deserialize_bool :: "string \<Rightarrow> (nat \<times> bool) option" where
  "sai_deserialize_bool buffer =
     (if strncmp_eq buffer ''true'' SAI_TRUE_LENGTH \<and> allowed (char_at buffer SAI_TRUE_LENGTH)
      then Some (SAI_TRUE_LENGTH, True)
      else if strncmp_eq buffer ''false'' SAI_FALSE_LENGTH
        \<and> allowed (char_at buffer SAI_FALSE_LENGTH)
      then Some (SAI_FALSE_LENGTH, False)
      else None)"

interpretation bool_codec:
  codec "\<lambda>b. Some (sai_serialize_bool b)" sai_deserialize_bool "\<lambda>_. True" allowed
proof unfold_locales
  fix x :: bool and s rest
  assume "Some (sai_serialize_bool x) = Some s" and "allowed (char_at rest 0)"
  then show "sai_deserialize_bool (s @ rest) = Some (length s, x)"
    by (cases x) (auto simp: sai_serialize_bool_def sai_deserialize_bool_def strncmp_eq_def
        SAI_TRUE_LENGTH_def SAI_FALSE_LENGTH_def numeral_eq_Suc)
qed simp_all

section \<open>Character data\<close>

definition SAI_CHARDATA_LENGTH :: nat where "SAI_CHARDATA_LENGTH = 32"

definition plain_char :: "char \<Rightarrow> bool" where
  "plain_char c \<longleftrightarrow> isprint c \<and> c \<noteq> CHR 0x5C \<and> c \<noteq> CHR 0x22"

fun serialize_chardata_loop :: "char list \<Rightarrow> string option" where
  "serialize_chardata_loop [] = Some []"
| "serialize_chardata_loop (c # cs) =
     (if c = NUL then Some []
      else if plain_char c then map_option (Cons c) (serialize_chardata_loop cs)
      else None)"

definition sai_serialize_chardata :: "char list \<Rightarrow> string option" where
  "sai_serialize_chardata data = serialize_chardata_loop (take SAI_CHARDATA_LENGTH data)"

fun deserialize_chardata_loop :: "nat \<Rightarrow> string \<Rightarrow> string option" where
  "deserialize_chardata_loop 0 buffer = Some []"
| "deserialize_chardata_loop (Suc room) buffer =
     (let c = char_at buffer 0 in
      if plain_char c then map_option (Cons c) (deserialize_chardata_loop room (drop 1 buffer))
      else if c = NUL then Some []
      else if c = CHR 0x22 then Some []
      else None)"

definition sai_deserialize_chardata :: "string \<Rightarrow> (nat \<times> char list) option" where
  "sai_deserialize_chardata buffer =
     (case deserialize_chardata_loop SAI_CHARDATA_LENGTH buffer of
        None \<Rightarrow> None
      | Some d \<Rightarrow>
          if allowed (char_at buffer (length d))
          then Some (length d, d @ replicate (SAI_CHARDATA_LENGTH - length d) NUL)
          else None)"

text \<open>
  A 32-byte array in the form the deserializer produces: plain characters, then zeros only.
\<close>

definition chardata_ok :: "char list \<Rightarrow> bool" where
  "chardata_ok data \<longleftrightarrow> length data = SAI_CHARDATA_LENGTH
     \<and> (\<forall>c \<in> set (takeWhile (\<lambda>c. c \<noteq> NUL) data). plain_char c)
     \<and> (\<forall>c \<in> set (dropWhile (\<lambda>c. c \<noteq> NUL) data). c = NUL)"

definition chardata_stop :: "char \<Rightarrow> bool" where
  "chardata_stop c \<longleftrightarrow> c = NUL \<or> c = CHR 0x22"

lemma serialize_chardata_loop_plain:
  "\<forall>c \<in> set (takeWhile (\<lambda>c. c \<noteq> NUL) xs). plain_char c \<Longrightarrow>
   serialize_chardata_loop xs = Some (takeWhile (\<lambda>c. c \<noteq> NUL) xs)"
  by (induction xs) auto

lemma deserialize_chardata_loop_plain:
  "\<forall>c \<in> set d. plain_char c \<Longrightarrow> length d \<le> room \<Longrightarrow> chardata_stop (char_at rest 0) \<Longrightarrow>
   deserialize_chardata_loop room (d @ rest) = Some d"
proof (induction d arbitrary: room)
  case Nil
  then show ?case
    by (cases room) (auto simp: chardata_stop_def plain_char_def)
next
  case (Cons c d)
  then show ?case by (cases room) (auto simp: Let_def)
qed

lemma takeWhile_replicate_tail:
  "\<forall>c \<in> set (dropWhile P xs). c = z \<Longrightarrow>
   takeWhile P xs @ replicate (length xs - length (takeWhile P xs)) z = xs"
  by (induction xs) (auto simp: replicate_length_same)

lemma chardata_okD:
  assumes "chardata_ok x"
  shows "length x = SAI_CHARDATA_LENGTH"
    and "\<forall>c \<in> set (takeWhile (\<lambda>c. c \<noteq> NUL) x). plain_char c"
    and "\<forall>c \<in> set (dropWhile (\<lambda>c. c \<noteq> NUL) x). c = NUL"
  using assms unfolding chardata_ok_def by blast+

lemma sai_serialize_chardata_ok:
  "chardata_ok x \<Longrightarrow> sai_serialize_chardata x = Some (takeWhile (\<lambda>c. c \<noteq> NUL) x)"
  by (simp only: sai_serialize_chardata_def chardata_okD(1) take_all order_refl
      serialize_chardata_loop_plain [OF chardata_okD(2)])

interpretation chardata_codec:
  codec sai_serialize_chardata sai_deserialize_chardata chardata_ok chardata_stop
proof unfold_locales
  fix x
  assume "chardata_ok x"
  then show "\<exists>s. sai_serialize_chardata x = Some s"
    using sai_serialize_chardata_ok by blast
next
  fix x s rest
  assume ok: "chardata_ok x" and s: "sai_serialize_chardata x = Some s"
    and stop: "chardata_stop (char_at rest 0)"
  have seq: "s = takeWhile (\<lambda>c. c \<noteq> NUL) x"
    using s sai_serialize_chardata_ok [OF ok] by simp
  have len: "length s \<le> SAI_CHARDATA_LENGTH"
    using chardata_okD(1) [OF ok] length_takeWhile_le [of "\<lambda>c. c \<noteq> NUL" x]
    unfolding seq by simp
  have "deserialize_chardata_loop SAI_CHARDATA_LENGTH (s @ rest) = Some s"
    using chardata_okD(2) [OF ok] len stop
    unfolding seq by (intro deserialize_chardata_loop_plain)
  moreover have "s @ replicate (SAI_CHARDATA_LENGTH - length s) NUL = x"
    using takeWhile_replicate_tail [OF chardata_okD(3) [OF ok]] chardata_okD(1) [OF ok]
    unfolding seq by simp
  moreover have "allowed (char_at rest 0)"
    using stop by (auto simp: chardata_stop_def sai_serialize_is_char_allowed_def)
  ultimately show "sai_deserialize_chardata (s @ rest) = Some (length s, x)"
    by (simp add: sai_deserialize_chardata_def)
qed (simp add: chardata_stop_def)

end
