(* ===== verification/SaiNumbers.thy ===== *)
theory SaiNumbers
  imports SaiCodec
begin

text \<open>
  The integer serializers of \<^verbatim>\<open>saiserialize.c\<close>. Every width goes through
  \<open>sai_deserialize_uint64\<close>, whose digit loop is modelled with its overflow test; its result
  is characterised exactly (\<open>deserialize_uint64_exact\<close>), and the narrower widths, the signed
  ones and \<^verbatim>\<open>sai_size_t\<close> follow from that equation.
\<close>

section \<open>The digit loop\<close>

text \<open>
  \<open>umax\<close> is \<^verbatim>\<open>ULONG_MAX\<close>: the source tests the overflow against the platform's
  \<^verbatim>\<open>unsigned long\<close>, which is 64 bits wide on the amd64 and arm64 images and 32 bits on armhf.
\<close>

function deserialize_digits :: "u64 \<Rightarrow> string \<Rightarrow> nat \<Rightarrow> u64 \<Rightarrow> nat \<times> u64" where
  "deserialize_digits umax buffer idx result =
     (if isdigit (char_at buffer idx) then
        (let c = of_char (char_at buffer idx) - 48 :: nat in
         if umax div 10 < result \<or> (result = umax div 10 \<and> unat (umax mod 10) < c)
         then (0, result)
         else deserialize_digits umax buffer (Suc idx) (result * 10 + of_nat c))
      else (idx, result))"
  by pat_completeness auto
termination
proof (relation "measure (\<lambda>(umax, buffer, idx, result). length buffer - idx)", goal_cases)
  case 1
  show ?case by simp
next
  case (2 umax buffer idx result c)
  then have "idx < length buffer"
    using char_at_beyond [of buffer idx] by (force simp: not_le [symmetric])
  then show ?case by simp
qed

declare deserialize_digits.simps [simp del]

definition deserialize_uint64_on :: "u64 \<Rightarrow> string \<Rightarrow> (nat \<times> u64) option" where
  "deserialize_uint64_on umax buffer =
     (let (idx, result) = deserialize_digits umax buffer 0 0 in
      if 0 < idx \<and> allowed (char_at buffer idx) then Some (idx, result) else None)"

definition ULONG_MAX :: u64 where "ULONG_MAX = 18446744073709551615"

definition sai_deserialize_uint64 :: "string \<Rightarrow> (nat \<times> u64) option" where
  "sai_deserialize_uint64 buffer = deserialize_uint64_on ULONG_MAX buffer"

lemma foldl_read_mono:
  "a \<le> foldl (\<lambda>acc c. acc * b + xdigit_val c) (a :: nat) s" if "1 \<le> b"
proof (induction s arbitrary: a)
  case Nil
  then show ?case by simp
next
  case (Cons c s)
  have "a \<le> a * b + xdigit_val c" using that by (cases b) simp_all
  also have "\<dots> \<le> foldl (\<lambda>acc c. acc * b + xdigit_val c) (a * b + xdigit_val c) s"
    by (rule Cons.IH)
  finally show ?case by simp
qed

lemma read_base_append_mono: "1 \<le> b \<Longrightarrow> read_base b s \<le> read_base b (s @ t)"
  by (simp add: read_base_def foldl_read_mono)

text \<open>The overflow test of the loop is exact.\<close>

lemma overflow_test_nat:
  fixes m r c :: nat
  assumes "c \<le> 9"
  shows "(m div 10 < r \<or> (r = m div 10 \<and> m mod 10 < c)) \<longleftrightarrow> m < r * 10 + c"
proof -
  define q t where "q = m div 10" and "t = m mod 10"
  have "m = 10 * q + t" and "t < 10"
    by (simp_all add: q_def t_def)
  with assms show ?thesis
    unfolding q_def [symmetric] t_def [symmetric] by arith
qed

lemma overflow_test:
  fixes umax result :: u64
  assumes "c \<le> 9"
  shows "(umax div 10 < result \<or> (result = umax div 10 \<and> unat (umax mod 10) < c)) \<longleftrightarrow>
    unat umax < unat result * 10 + c"
  by (simp add: overflow_test_nat [OF assms, symmetric] word_less_nat_alt word_unat_eq_iff
      unat_div unat_mod)

lemma digits_step:
  fixes umax result :: u64
  assumes "unat result * 10 + c \<le> unat umax"
  shows "unat (result * 10 + of_nat c) = unat result * 10 + c"
proof -
  have small: "unat result * 10 + c < 2 ^ 64"
    using assms unsigned_less [of umax, where ?'a = nat] by simp
  have "of_nat (unat result * 10 + c) = (result * 10 + of_nat c :: u64)"
    by simp
  moreover have "unat (of_nat (unat result * 10 + c) :: u64) = unat result * 10 + c"
    using small by (intro unat_of_nat_small) simp
  ultimately show ?thesis by simp
qed

lemma deserialize_digits_spec:
  assumes "idx \<le> length buffer" and "\<forall>c \<in> set (take idx buffer). isdigit c"
    and "unat result = read_base 10 (take idx buffer)" and "unat result \<le> unat umax"
  shows "deserialize_digits umax buffer idx result =
    (let ds = takeWhile isdigit buffer in
     if read_base 10 ds \<le> unat umax then (length ds, of_nat (read_base 10 ds))
     else (0, snd (deserialize_digits umax buffer idx result)))"
  using assms
proof (induction umax buffer idx result rule: deserialize_digits.induct)
  case (1 umax buffer idx result)
  let ?ds = "takeWhile isdigit buffer"
  have split: "?ds = take idx buffer @ takeWhile isdigit (drop idx buffer)"
    using "1.prems"(2) by (metis append_take_drop_id takeWhile_append2)
  show ?case
  proof (cases "isdigit (char_at buffer idx)")
    case False
    then have "takeWhile isdigit (drop idx buffer) = []"
      using "1.prems"(1) by (cases "drop idx buffer") (auto simp: char_at_def drop_eq_Nil nth_via_drop split: if_splits)
    then have ds: "?ds = take idx buffer" using split by simp
    then have "of_nat (read_base 10 ?ds) = result"
      using arg_cong [OF "1.prems"(3), of "of_nat :: nat \<Rightarrow> u64"] by simp
    then show ?thesis using False ds "1.prems"
      by (simp add: deserialize_digits.simps [of umax buffer idx] Let_def)
  next
    case True
    define c where "c = (of_char (char_at buffer idx) - 48 :: nat)"
    have idx: "idx < length buffer"
      using True char_at_beyond [of buffer idx] by (force simp: not_le [symmetric])
    have c9: "c \<le> 9" and xv: "xdigit_val (char_at buffer idx) = c"
      using True by (auto simp: c_def isdigit_def xdigit_val_def)
    have tk: "take (Suc idx) buffer = take idx buffer @ [char_at buffer idx]"
      using idx by (simp add: take_Suc_conv_app_nth char_at_def)
    have rd: "read_base 10 (take (Suc idx) buffer) = unat result * 10 + c"
      using "1.prems"(3) by (simp add: tk xv)
    have all: "\<forall>c \<in> set (take (Suc idx) buffer). isdigit c"
      using "1.prems"(2) True by (simp add: tk)
    show ?thesis
    proof (cases "unat umax < unat result * 10 + c")
      case ov: True
      have "?ds = take (Suc idx) buffer @ takeWhile isdigit (drop (Suc idx) buffer)"
        using all by (metis append_take_drop_id takeWhile_append2)
      then have "unat result * 10 + c \<le> read_base 10 ?ds"
        using read_base_append_mono [of 10 "take (Suc idx) buffer"] by (simp add: rd)
      with ov have "\<not> read_base 10 ?ds \<le> unat umax" by simp
      moreover have "fst (deserialize_digits umax buffer idx result) = 0"
        unfolding deserialize_digits.simps [of umax buffer idx result] Let_def
          c_def [symmetric] overflow_test [OF c9]
        using True ov by simp
      ultimately show ?thesis by (simp add: Let_def prod_eq_iff)
    next
      case False
      have step: "deserialize_digits umax buffer idx result =
          deserialize_digits umax buffer (Suc idx) (result * 10 + of_nat c)"
        unfolding deserialize_digits.simps [of umax buffer idx result] Let_def
          c_def [symmetric] overflow_test [OF c9]
        using True False by simp
      have un: "unat (result * 10 + of_nat c) = unat result * 10 + c"
        using digits_step [of result c umax] False by simp
      show ?thesis unfolding step
        using True False idx all rd un overflow_test [OF c9, of umax result]
        by (intro "1.IH" [OF _ c_def]) (simp_all add: c_def)
    qed
  qed
qed

text \<open>
  What the 64-bit deserializer accepts: a non-empty run of decimal digits whose value fits,
  followed by a terminator; leading zeros are accepted.
\<close>

lemma deserialize_uint64_on_exact:
  "deserialize_uint64_on umax buffer =
    (let ds = takeWhile isdigit buffer in
     if ds \<noteq> [] \<and> read_base 10 ds \<le> unat umax \<and> allowed (char_at buffer (length ds))
     then Some (length ds, of_nat (read_base 10 ds)) else None)"
proof -
  define ds where "ds = takeWhile isdigit buffer"
  obtain i r where d: "deserialize_digits umax buffer 0 0 = (i, r)"
    by (cases "deserialize_digits umax buffer 0 0")
  have "(i, r) = (if read_base 10 ds \<le> unat umax then (length ds, of_nat (read_base 10 ds)) else (0, r))"
    using deserialize_digits_spec [of 0 buffer 0 umax]
    unfolding d Let_def ds_def [symmetric] by (simp split: if_splits)
  then show ?thesis
    by (auto simp: deserialize_uint64_on_def d Let_def ds_def [symmetric] split: if_splits)
qed

lemma deserialize_uint64_exact:
  "sai_deserialize_uint64 buffer =
    (let ds = takeWhile isdigit buffer in
     if ds \<noteq> [] \<and> read_base 10 ds < 2 ^ 64 \<and> allowed (char_at buffer (length ds))
     then Some (length ds, of_nat (read_base 10 ds)) else None)"
proof -
  have "n \<le> unat ULONG_MAX \<longleftrightarrow> n < 2 ^ 64" for n
    by (auto simp: ULONG_MAX_def)
  then show ?thesis
    by (simp only: sai_deserialize_uint64_def deserialize_uint64_on_exact)
qed

lemma deserialize_uint64_print [ctext_simps]:
  assumes "n < 2 ^ 64" and "allowed (char_at rest 0)"
  shows "sai_deserialize_uint64 (print_unsigned n @ rest) =
    Some (length (print_unsigned n), of_nat n)"
proof -
  have "takeWhile isdigit (print_unsigned n @ rest) = print_unsigned n"
    by (intro takeWhile_append_stop print_unsigned_digits allowed_not_digit assms)
  then show ?thesis
    using assms by (simp add: deserialize_uint64_exact read_print_unsigned)
qed

section \<open>Unsigned widths\<close>

text \<open>
  The 8, 16 and 32-bit deserializers and the one for \<^verbatim>\<open>sai_size_t\<close> parse 64 bits and
  compare with the maximum of their type.
\<close>

definition narrow_unsigned :: "u64 \<Rightarrow> string \<Rightarrow> (nat \<times> 'a::len word) option" where
  "narrow_unsigned type_max buffer =
     (case sai_deserialize_uint64 buffer of
        None \<Rightarrow> None
      | Some (res, v) \<Rightarrow> if 0 < res \<and> v \<le> type_max then Some (res, ucast v) else None)"

definition sai_serialize_uint8 :: "u8 \<Rightarrow> string" where
  "sai_serialize_uint8 v = print_unsigned (unat v)"

definition sai_deserialize_uint8 :: "string \<Rightarrow> (nat \<times> u8) option" where
  "sai_deserialize_uint8 buffer = narrow_unsigned 255 buffer"

definition sai_serialize_uint16 :: "u16 \<Rightarrow> string" where
  "sai_serialize_uint16 v = print_unsigned (unat v)"

definition sai_deserialize_uint16 :: "string \<Rightarrow> (nat \<times> u16) option" where
  "sai_deserialize_uint16 buffer = narrow_unsigned 65535 buffer"

definition sai_serialize_uint32 :: "u32 \<Rightarrow> string" where
  "sai_serialize_uint32 v = print_unsigned (unat v)"

definition sai_deserialize_uint32 :: "string \<Rightarrow> (nat \<times> u32) option" where
  "sai_deserialize_uint32 buffer = narrow_unsigned 4294967295 buffer"

definition sai_serialize_uint64 :: "u64 \<Rightarrow> string" where
  "sai_serialize_uint64 v = print_unsigned (unat v)"

definition sai_serialize_size :: "u64 \<Rightarrow> string" where
  "sai_serialize_size v = print_unsigned (unat v)"

definition sai_deserialize_size :: "string \<Rightarrow> (nat \<times> u64) option" where
  "sai_deserialize_size buffer =
     (case sai_deserialize_uint64 buffer of
        None \<Rightarrow> None
      | Some (res, v) \<Rightarrow> if 0 < res then Some (res, v) else None)"

lemma narrow_unsigned_print:
  fixes w :: "'a::len word"
  assumes "LENGTH('a) \<le> 64" and "unat type_max = 2 ^ LENGTH('a) - 1"
    and "allowed (char_at rest 0)"
  shows "narrow_unsigned type_max (print_unsigned (unat w) @ rest) =
    Some (length (print_unsigned (unat w)), w)"
proof -
  have w: "unat w < 2 ^ LENGTH('a)" by (rule unsigned_less)
  also have "(2 :: nat) ^ LENGTH('a) \<le> 2 ^ 64"
    using assms(1) by (rule power_increasing) simp
  finally have w64: "unat w < 2 ^ 64" .
  then have u: "unat (of_nat (unat w) :: u64) = unat w"
    by (intro unat_of_nat_small) simp
  have "unat w \<le> unat type_max" using w assms(2) by linarith
  then have "(of_nat (unat w) :: u64) \<le> type_max"
    using u by (simp add: word_le_nat_alt del: of_nat_unat)
  moreover have "ucast (of_nat (unat w) :: u64) = w"
    using u by (metis of_nat_unat ucast_id unsigned_of_nat word_unat_eq_iff)
  ultimately show ?thesis
    using assms(3) w64
    by (simp add: narrow_unsigned_def deserialize_uint64_print del: of_nat_unat)
qed

interpretation uint8_codec:
  codec "\<lambda>v. Some (sai_serialize_uint8 v)" sai_deserialize_uint8 "\<lambda>_. True" allowed
  by unfold_locales
    (auto simp: sai_serialize_uint8_def sai_deserialize_uint8_def narrow_unsigned_print)

interpretation uint16_codec:
  codec "\<lambda>v. Some (sai_serialize_uint16 v)" sai_deserialize_uint16 "\<lambda>_. True" allowed
  by unfold_locales
    (auto simp: sai_serialize_uint16_def sai_deserialize_uint16_def narrow_unsigned_print)

interpretation uint32_codec:
  codec "\<lambda>v. Some (sai_serialize_uint32 v)" sai_deserialize_uint32 "\<lambda>_. True" allowed
  by unfold_locales
    (auto simp: sai_serialize_uint32_def sai_deserialize_uint32_def narrow_unsigned_print)

lemma unat_u64_bound: "unat (v :: u64) < 18446744073709551616"
  using unsigned_less [of v, where ?'a = nat] by simp

interpretation uint64_codec:
  codec "\<lambda>v. Some (sai_serialize_uint64 v)" sai_deserialize_uint64 "\<lambda>_. True" allowed
  by unfold_locales
    (auto simp: sai_serialize_uint64_def deserialize_uint64_print unat_u64_bound)

interpretation size_codec:
  codec "\<lambda>v. Some (sai_serialize_size v)" sai_deserialize_size "\<lambda>_. True" allowed
  by unfold_locales
    (auto simp: sai_serialize_size_def sai_deserialize_size_def deserialize_uint64_print
      unat_u64_bound)

section \<open>Signed widths\<close>

text \<open>
  Signed integers are words read with \<open>sint\<close>. The 64-bit deserializer accepts a leading minus
  sign. The digits may then be \<^verbatim>\<open>-LONG_MIN\<close>: the conversion to \<^verbatim>\<open>int64_t\<close> gives \<^verbatim>\<open>INT64_MIN\<close>, and its
  negation overflows, which is the fault \<open>SignedOverflow\<close>. The limits are those of a 64-bit
  \<^verbatim>\<open>long\<close>. \<^verbatim>\<open>CHAR_MIN\<close> and \<^verbatim>\<open>CHAR_MAX\<close> in the 8-bit deserializer depend on the target
  (\<open>char_signed\<close>): plain \<^verbatim>\<open>char\<close> is signed on amd64 and unsigned on the ARM images.
\<close>

definition negate_int64 :: "u64 \<Rightarrow> u64 checked" where
  "negate_int64 result = (if sint result = - 9223372036854775808 then Inl SignedOverflow else Inr (- result))"

definition sai_serialize_int64 :: "u64 \<Rightarrow> string" where
  "sai_serialize_int64 v = print_signed (sint v)"

definition sai_deserialize_int64 :: "string \<Rightarrow> (nat \<times> u64) option checked" where
  "sai_deserialize_int64 buffer =
     (let negative = (char_at buffer 0 = CHR ''-'');
          buffer = (if negative then drop 1 buffer else buffer) in
      case sai_deserialize_uint64 buffer of
        None \<Rightarrow> Inr None
      | Some (res, result) \<Rightarrow>
          if 0 < res then
            (if negative then
               (if result \<le> 9223372036854775808
                then chk_bind (negate_int64 result) (\<lambda>s64. Inr (Some (res + 1, s64)))
                else Inr None)
             else if result \<le> 9223372036854775807 then Inr (Some (res, result)) else Inr None)
          else Inr None)"

definition narrow_signed :: "int \<Rightarrow> int \<Rightarrow> string \<Rightarrow> (nat \<times> 'a::len word) option checked" where
  "narrow_signed type_min type_max buffer =
     chk_bind (sai_deserialize_int64 buffer) (\<lambda>r. Inr
       (case r of
          None \<Rightarrow> None
        | Some (res, s64) \<Rightarrow>
            if 0 < res \<and> type_min \<le> sint s64 \<and> sint s64 \<le> type_max
            then Some (res, word_of_int (sint s64)) else None))"

definition sai_serialize_int8 :: "u8 \<Rightarrow> string" where
  "sai_serialize_int8 v = print_signed (sint v)"

definition CHAR_MIN :: "bool \<Rightarrow> int" where "CHAR_MIN char_signed = (if char_signed then - 128 else 0)"
definition CHAR_MAX :: "bool \<Rightarrow> int" where "CHAR_MAX char_signed = (if char_signed then 127 else 255)"

definition sai_deserialize_int8 :: "bool \<Rightarrow> string \<Rightarrow> (nat \<times> u8) option checked" where
  "sai_deserialize_int8 char_signed buffer =
     narrow_signed (CHAR_MIN char_signed) (CHAR_MAX char_signed) buffer"

definition sai_serialize_int16 :: "u16 \<Rightarrow> string" where
  "sai_serialize_int16 v = print_signed (sint v)"

definition sai_deserialize_int16 :: "string \<Rightarrow> (nat \<times> u16) option checked" where
  "sai_deserialize_int16 buffer = narrow_signed (- 32768) 32767 buffer"

definition sai_serialize_int32 :: "u32 \<Rightarrow> string" where
  "sai_serialize_int32 v = print_signed (sint v)"

definition sai_deserialize_int32 :: "string \<Rightarrow> (nat \<times> u32) option checked" where
  "sai_deserialize_int32 buffer = narrow_signed (- 2147483648) 2147483647 buffer"

lemma print_unsigned_not_minus [simp]: "char_at (print_unsigned n @ rest) 0 \<noteq> CHR ''-''"
proof -
  obtain d ds where "print_unsigned n = d # ds"
    using print_unsigned_nonempty [of n] by (cases "print_unsigned n") blast+
  moreover from this have "isdigit d" using print_unsigned_digits [of n] by simp
  ultimately show ?thesis by (auto simp: isdigit_def)
qed

lemma sint_small:
  assumes "- (2 ^ 63) \<le> i" and "i < 2 ^ 63"
  shows "sint (word_of_int i :: u64) = i"
  using assms unfolding sint_sbintrunc' by (intro signed_take_bit_int_eq_self) simp_all

lemma negate_int64_small:
  assumes "0 < i" and "i < 2 ^ 63"
  shows "negate_int64 (word_of_int i) = Inr (word_of_int (- i))"
  using assms sint_small [of i] by (simp add: negate_int64_def)

lemma deserialize_int64_print [ctext_simps]:
  assumes "- (2 ^ 63) < i" and "i < 2 ^ 63" and stop: "allowed (char_at rest 0)"
  shows "sai_deserialize_int64 (print_signed i @ rest) =
    Inr (Some (length (print_signed i), word_of_int i))"
proof (cases "i < 0")
  case True
  let ?n = "nat (- i)"
  have n: "?n < 9223372036854775808" using assms(1) by simp
  then have "(of_nat ?n :: u64) \<le> 9223372036854775808"
    by (simp add: word_le_nat_alt unat_of_nat_small)
  moreover have "(of_nat ?n :: u64) = word_of_int (- i)"
    using True by simp
  moreover have "negate_int64 (word_of_int (- i)) = Inr (word_of_int i)"
    using True assms(1) negate_int64_small [of "- i"] by simp
  ultimately show ?thesis
    using True n stop
    by (simp add: print_signed_def sai_deserialize_int64_def deserialize_uint64_print)
next
  case False
  let ?n = "nat i"
  have n: "?n < 9223372036854775808" using assms(2) False by simp
  then have "(of_nat ?n :: u64) \<le> 9223372036854775807"
    by (simp add: word_le_nat_alt unat_of_nat_small)
  moreover have "(of_nat ?n :: u64) = word_of_int i"
    using False by simp
  ultimately show ?thesis
    using False n stop
    by (simp add: print_signed_def sai_deserialize_int64_def deserialize_uint64_print)
qed

text \<open>The least value is written as its digits and overflows when it is read.\<close>

lemma deserialize_int64_least:
  assumes "allowed (char_at rest 0)"
  shows "sai_deserialize_int64 (print_signed (- (2 ^ 63)) @ rest) = Inl SignedOverflow"
  using assms deserialize_uint64_print [of 9223372036854775808 rest]
  by (simp add: print_signed_def sai_deserialize_int64_def negate_int64_def)

lemma narrow_signed_small:
  fixes w :: "'a::len word"
  assumes "LENGTH('a) < 64" and "allowed (char_at rest 0)"
  shows "narrow_signed type_min type_max (print_signed (sint w) @ rest) =
    Inr (if type_min \<le> sint w \<and> sint w \<le> type_max
         then Some (length (print_signed (sint w)), w) else None)"
proof -
  have "(2 :: int) ^ (LENGTH('a) - 1) < 2 ^ 63"
    using assms(1) by (intro power_strict_increasing) auto
  then have r: "- (2 ^ 63) < sint w" "sint w < 2 ^ 63"
    using sint_ge [of w] sint_lt [of w] by linarith+
  then have s: "sint (word_of_int (sint w) :: u64) = sint w"
    by (intro sint_small) simp_all
  show ?thesis
    using s assms(2) deserialize_int64_print [OF r assms(2)]
    by (auto simp: narrow_signed_def print_signed_def)
qed

lemma deserialize_int8_print:
  assumes "allowed (char_at rest 0)"
  shows "sai_deserialize_int8 char_signed (sai_serialize_int8 v @ rest) =
    Inr (if char_signed \<or> 0 \<le> sint v then Some (length (sai_serialize_int8 v), v) else None)"
  using sint_ge [of v] sint_lt [of v] narrow_signed_small [OF _ assms, where w = v]
  by (auto simp: sai_deserialize_int8_def sai_serialize_int8_def CHAR_MIN_def CHAR_MAX_def)

interpretation int8_codec:
  checked_codec "\<lambda>v. Some (sai_serialize_int8 v)" "sai_deserialize_int8 char_signed"
    "\<lambda>v. char_signed \<or> 0 \<le> sint v" allowed for char_signed
  by unfold_locales (auto simp: deserialize_int8_print)

interpretation int16_codec:
  checked_codec "\<lambda>v. Some (sai_serialize_int16 v)" sai_deserialize_int16 "\<lambda>_. True" allowed
proof unfold_locales
  fix x :: u16 and s rest
  assume "Some (sai_serialize_int16 x) = Some s" and "allowed (char_at rest 0)"
  then show "sai_deserialize_int16 (s @ rest) = Inr (Some (length s, x))"
    using sint_ge [of x] sint_lt [of x] narrow_signed_small [of rest "- 32768" 32767 x]
    by (auto simp: sai_serialize_int16_def sai_deserialize_int16_def)
qed simp_all

interpretation int32_codec:
  checked_codec "\<lambda>v. Some (sai_serialize_int32 v)" sai_deserialize_int32 "\<lambda>_. True" allowed
proof unfold_locales
  fix x :: u32 and s rest
  assume "Some (sai_serialize_int32 x) = Some s" and "allowed (char_at rest 0)"
  then show "sai_deserialize_int32 (s @ rest) = Inr (Some (length s, x))"
    using sint_ge [of x] sint_lt [of x] narrow_signed_small [of rest "- 2147483648" 2147483647 x]
    by (auto simp: sai_serialize_int32_def sai_deserialize_int32_def)
qed simp_all

interpretation int64_codec:
  checked_codec "\<lambda>v. Some (sai_serialize_int64 v)" sai_deserialize_int64
    "\<lambda>v. sint v \<noteq> - (2 ^ 63)" allowed
proof unfold_locales
  fix x :: u64 and s rest
  assume "sint x \<noteq> - (2 ^ 63)" and "Some (sai_serialize_int64 x) = Some s"
    and "allowed (char_at rest 0)"
  then show "sai_deserialize_int64 (s @ rest) = Inr (Some (length s, x))"
    using sint_ge [of x] sint_lt [of x] deserialize_int64_print [of "sint x" rest]
    by (auto simp: sai_serialize_int64_def)
qed simp_all

end
