(* ===== verification/SaiMask.thy ===== *)
theory SaiMask
  imports SaiNumbers
begin

text \<open>
  Network masks of \<^verbatim>\<open>saiserialize.c\<close>: the prefix length of an IPv4 or IPv6 mask and back.
  Masks are kept in network byte order; \<open>bswap\<close> models \<^verbatim>\<open>__builtin_bswap32/64\<close> as the
  reversal of the bytes, and loads and stores are those of the little-endian hosts the images are
  built for (amd64, arm64, armhf). Serializing succeeds exactly on the masks without holes.
\<close>

section \<open>Bytes of a word\<close>

definition le_bytes :: "nat \<Rightarrow> 'a::len word \<Rightarrow> u8 list" where
  "le_bytes n w = map (\<lambda>i. ucast (drop_bit (8 * i) w)) [0..<n]"

fun le_word :: "u8 list \<Rightarrow> 'a::len word" where
  "le_word [] = 0"
| "le_word (b # bs) = or (ucast b) (push_bit 8 (le_word bs))"

definition bswap :: "nat \<Rightarrow> 'a::len word \<Rightarrow> 'a word" where
  "bswap n w = le_word (rev (le_bytes n w))"

lemma length_le_bytes [simp]: "length (le_bytes n w) = n"
  by (simp add: le_bytes_def)

lemma bit_u8_bound: "bit (b :: u8) i \<Longrightarrow> i < 8"
  using bit_imp_le_length [of b i] by simp

lemma bit_le_word:
  "bit (le_word bs :: 'a::len word) i \<longleftrightarrow>
    i < LENGTH('a) \<and> i < 8 * length bs \<and> bit (bs ! (i div 8)) (i mod 8)"
proof (induction bs arbitrary: i)
  case Nil
  then show ?case by simp
next
  case (Cons b bs)
  show ?case
  proof (cases "i < 8")
    case True
    then show ?thesis by (auto simp: bit_simps)
  next
    case False
    then obtain j where j: "i = j + 8" by (metis add.commute le_Suc_ex not_le)
    then have "\<not> bit b i" using bit_u8_bound [of b i] by auto
    moreover have "(j + 8) div 8 = Suc (j div 8)" "(j + 8) mod 8 = j mod 8"
      by simp_all
    ultimately show ?thesis using Cons.IH [of j] by (auto simp: bit_simps j)
  qed
qed

lemma le_bytes_le_word:
  assumes "length bs = n" and "8 * n \<le> LENGTH('a::len)"
  shows "le_bytes n (le_word bs :: 'a word) = bs"
proof (rule nth_equalityI)
  show "length (le_bytes n (le_word bs :: 'a word)) = length bs"
    using assms by simp
next
  fix i
  assume "i < length (le_bytes n (le_word bs :: 'a word))"
  then have i: "i < n" by simp
  show "le_bytes n (le_word bs :: 'a word) ! i = bs ! i"
  proof (rule bit_word_eqI)
    fix k
    assume "k < LENGTH(8)"
    then have k: "k < 8" by simp
    have "8 * i + k < 8 * n" using i k by linarith
    moreover have "(8 * i + k) div 8 = i" "(8 * i + k) mod 8 = k"
      using k by simp_all
    ultimately show "bit (le_bytes n (le_word bs :: 'a word) ! i) k = bit (bs ! i) k"
      using i k assms by (simp add: le_bytes_def bit_simps bit_le_word)
  qed
qed

lemma le_word_le_bytes:
  assumes "LENGTH('a::len) = 8 * n"
  shows "le_word (le_bytes n (w :: 'a word)) = w"
proof (rule bit_word_eqI)
  fix k
  assume k: "k < LENGTH('a)"
  then have "k div 8 < n" using assms by (simp add: less_mult_imp_div_less mult.commute)
  moreover have "8 * (k div 8) + k mod 8 = k" by simp
  ultimately show "bit (le_word (le_bytes n w) :: 'a word) k = bit w k"
    using k assms by (simp add: bit_le_word le_bytes_def bit_simps)
qed

lemma bswap_bswap:
  assumes "LENGTH('a::len) = 8 * n"
  shows "bswap n (bswap n (w :: 'a word)) = w"
proof -
  have "le_bytes n (bswap n w) = rev (le_bytes n w)"
    unfolding bswap_def using assms by (intro le_bytes_le_word) simp_all
  then have "bswap n (bswap n w) = le_word (rev (rev (le_bytes n w)))"
    by (simp only: bswap_def)
  then show ?thesis by (simp add: le_word_le_bytes [OF assms])
qed

lemma bswap32_bswap32 [simp]: "bswap 4 (bswap 4 (w :: u32)) = w"
  by (rule bswap_bswap) simp

lemma bswap64_bswap64 [simp]: "bswap 8 (bswap 8 (w :: u64)) = w"
  by (rule bswap_bswap) simp

section \<open>The mask loop\<close>

text \<open>
  \<^verbatim>\<open>for (; (tmp != mask) && tmp; tmp <<= 1, n--);\<close> ends because enough shifts make every word
  zero.
\<close>

lemma shift_out: "\<exists>k. push_bit k (w :: 'a::len word) = 0"
  by (rule exI [of _ "LENGTH('a)"]) (simp add: push_bit_of_1 bit_eq_iff bit_simps)

lemma least_shift_decreases:
  fixes w :: "'a::len word"
  assumes "w \<noteq> 0"
  shows "(LEAST k. push_bit k (push_bit 1 w) = 0) < (LEAST k. push_bit k w = 0)"
proof -
  define m where "m = (LEAST k. push_bit k w = 0)"
  have z: "push_bit m w = 0"
    unfolding m_def using shift_out [of w] by (rule LeastI_ex)
  with assms obtain j where j: "m = Suc j" by (cases m) auto
  have "push_bit j (push_bit 1 w) = 0"
    using z by (simp add: j push_bit_push_bit)
  then have "(LEAST k. push_bit k (push_bit 1 w) = 0) \<le> j" by (rule Least_le)
  then show ?thesis by (simp add: m_def [symmetric] j)
qed

function mask_loop :: "'a::len word \<Rightarrow> 'a word \<Rightarrow> u32 \<Rightarrow> 'a word \<times> u32" where
  "mask_loop msk tmp n =
     (if tmp \<noteq> msk \<and> tmp \<noteq> 0 then mask_loop msk (push_bit 1 tmp) (n - 1) else (tmp, n))"
  by pat_completeness auto
termination
proof (relation "measure (\<lambda>(msk, tmp, n). LEAST k. push_bit k tmp = 0)", goal_cases)
  case 1
  show ?case by simp
next
  case (2 msk tmp n)
  then show ?case using least_shift_decreases [of tmp] by simp
qed

declare mask_loop.simps [simp del]

text \<open>\<open>ones k\<close> is the word with its \<open>k\<close> most significant bits set.\<close>

definition ones :: "nat \<Rightarrow> 'a::len word" where
  "ones k = push_bit (LENGTH('a) - k) (- 1)"

lemma bit_ones: "bit (ones k :: 'a::len word) i \<longleftrightarrow> i < LENGTH('a) \<and> LENGTH('a) - k \<le> i"
  by (auto simp: ones_def bit_simps)

lemma ones_0 [simp]: "ones 0 = 0"
  by (rule bit_word_eqI) (simp add: bit_ones)

lemma ones_full [simp]: "ones LENGTH('a) = (- 1 :: 'a::len word)"
  by (simp add: ones_def)

lemma push_ones: "k < LENGTH('a) \<Longrightarrow> push_bit 1 (ones (Suc k)) = (ones k :: 'a::len word)"
  unfolding ones_def push_bit_push_bit by (simp add: Suc_diff_Suc)

lemma ones_inj:
  assumes "ones j = (ones k :: 'a::len word)" and "j \<le> LENGTH('a)" and "k \<le> LENGTH('a)"
  shows "j = k"
proof (rule ccontr)
  assume "j \<noteq> k"
  moreover have "\<not> j < k" if "ones j = (ones k :: 'a word)" "k \<le> LENGTH('a)" for j k
  proof
    assume "j < k"
    then have "bit (ones k :: 'a word) (LENGTH('a) - k)"
      and "\<not> bit (ones j :: 'a word) (LENGTH('a) - k)"
      using that(2) by (auto simp: bit_ones)
    then show False using that(1) by simp
  qed
  ultimately show False using assms by (metis linorder_neqE_nat)
qed

lemma ones_eq_0: "k \<le> LENGTH('a) \<Longrightarrow> (ones k :: 'a::len word) = 0 \<longleftrightarrow> k = 0"
  using ones_inj [of k 0, where 'a = 'a] by auto

text \<open>
  Started at the \<open>k\<close> leading ones, the loop finds a mask of at most \<open>k\<close> leading ones and its
  length, and otherwise stops at zero.
\<close>

lemma mask_loop_ones:
  "k \<le> LENGTH('a) \<Longrightarrow>
   mask_loop msk (ones k :: 'a::len word) (of_nat k) =
     (if \<exists>j \<le> k. msk = ones j then (msk, of_nat (THE j. j \<le> k \<and> msk = ones j)) else (0, 0))"
proof (induction k)
  case 0
  have "(THE j. j \<le> 0 \<and> (0 :: 'a word) = ones j) = 0"
    by (intro the_equality) simp_all
  then show ?case by (cases "msk = 0") (simp_all add: mask_loop.simps [of msk 0] mask_loop.simps [of 0 0])
next
  case (Suc k)
  show ?case
  proof (cases "msk = ones (Suc k)")
    case True
    have the: "(THE j. j \<le> Suc k \<and> msk = (ones j :: 'a word)) = Suc k"
      using True Suc.prems by (intro the_equality) (auto dest: ones_inj)
    have ex: "\<exists>j \<le> Suc k. msk = ones j" using True by blast
    have "mask_loop msk (ones (Suc k)) (of_nat (Suc k)) = (msk, of_nat (Suc k))"
      by (subst mask_loop.simps) (simp add: True)
    then show ?thesis by (simp only: if_P [OF ex] the)
  next
    case False
    have nz: "(ones (Suc k) :: 'a word) \<noteq> 0" using Suc.prems by (simp add: ones_eq_0)
    have eq: "j \<le> Suc k \<and> msk = (ones j :: 'a word) \<longleftrightarrow> j \<le> k \<and> msk = ones j" for j
      using False le_Suc_eq by auto
    have "mask_loop msk (ones (Suc k) :: 'a word) (of_nat (Suc k)) =
        mask_loop msk (ones k) (of_nat k)"
      using False nz Suc.prems push_ones [of k, where 'a = 'a]
      by (simp add: mask_loop.simps [of msk "ones (Suc k)"])
    also have "\<dots> = (if \<exists>j \<le> k. msk = ones j
        then (msk, of_nat (THE j. j \<le> k \<and> msk = ones j)) else (0, 0))"
      using Suc.prems by (intro Suc.IH) simp
    finally show ?thesis by (simp only: eq)
  qed
qed

lemma mask_loop_find:
  assumes "j \<le> LENGTH('a::len)"
  shows "mask_loop (ones j) (- 1 :: 'a word) (of_nat LENGTH('a)) = (ones j, of_nat j)"
proof -
  have "(THE i. i \<le> LENGTH('a) \<and> (ones j :: 'a word) = ones i) = j"
    using assms by (intro the_equality) (auto dest: ones_inj)
  then show ?thesis
    using mask_loop_ones [of "LENGTH('a)" "ones j :: 'a word"] assms by auto
qed

lemma mask_loop_hole:
  assumes "\<forall>j \<le> LENGTH('a::len). msk \<noteq> ones j"
  shows "mask_loop msk (- 1 :: 'a word) (of_nat LENGTH('a)) = (0, 0)" and "msk \<noteq> 0"
proof -
  show "mask_loop msk (- 1 :: 'a word) (of_nat LENGTH('a)) = (0, 0)"
    using mask_loop_ones [of "LENGTH('a)" msk] assms by auto
  show "msk \<noteq> 0" using assms ones_0 by fastforce
qed

lemma all_ones: "(0xFFFFFFFF :: u32) = - 1" "(0xFFFFFFFFFFFFFFFF :: u64) = - 1"
  by simp_all

section \<open>IPv4 masks\<close>

definition sai_serialize_ip4_mask :: "u32 \<Rightarrow> string option" where
  "sai_serialize_ip4_mask msk =
     (let msk = bswap 4 msk;
          (tmp, n) = mask_loop msk 0xFFFFFFFF 32 in
      if tmp = msk then Some (sai_serialize_uint32 n) else None)"

definition sai_deserialize_ip4_mask :: "string \<Rightarrow> (nat \<times> u32) option" where
  "sai_deserialize_ip4_mask buffer =
     (case sai_deserialize_uint32 buffer of
        None \<Rightarrow> None
      | Some (res, v) \<Rightarrow>
          if 32 < v then None
          else
            (let v = (if v = 0 then v
                      else if v = 32 then 0xFFFFFFFF
                      else push_bit (unat (32 - v)) 0xFFFFFFFF)
             in Some (res, bswap 4 v)))"

text \<open>The IPv4 mask of prefix length \<open>k\<close>, in network order.\<close>

definition ip4_mask_of :: "nat \<Rightarrow> u32" where
  "ip4_mask_of k = bswap 4 (ones k)"

definition ip4_mask_ok :: "u32 \<Rightarrow> bool" where
  "ip4_mask_ok msk \<longleftrightarrow> (\<exists>k \<le> 32. msk = ip4_mask_of k)"

lemma serialize_ip4_mask_of:
  "k \<le> 32 \<Longrightarrow> sai_serialize_ip4_mask (ip4_mask_of k) = Some (print_unsigned k)"
  using mask_loop_find [where 'a = 32, of k]
  by (simp add: sai_serialize_ip4_mask_def ip4_mask_of_def sai_serialize_uint32_def
      unat_of_nat_small all_ones Let_def)

lemma serialize_ip4_mask_holes:
  assumes "\<not> ip4_mask_ok msk"
  shows "sai_serialize_ip4_mask msk = None"
proof -
  have "bswap 4 msk \<noteq> ones k" if "k \<le> 32" for k
    using assms that bswap32_bswap32 [of msk] by (force simp: ip4_mask_ok_def ip4_mask_of_def)
  then show ?thesis
    using mask_loop_hole [where 'a = 32, of "bswap 4 msk"]
    by (auto simp: sai_serialize_ip4_mask_def all_ones Let_def)
qed

lemma mask_value_ones:
  assumes "v \<le> 32"
  shows "(if v = 0 then v else if v = 32 then 0xFFFFFFFF
    else push_bit (unat (32 - v)) 0xFFFFFFFF) = (ones (unat v) :: u32)"
proof -
  have "unat (32 - v) = 32 - unat v" using assms by (simp add: unat_sub)
  moreover have "ones 32 = (- 1 :: u32)" using ones_full [where 'a = 32] by simp
  ultimately show ?thesis
    by (cases "v = 0") (simp, auto simp: all_ones ones_def [of "unat v"])
qed

lemma deserialize_ip4_mask_of:
  assumes "k \<le> 32" and "allowed (char_at rest 0)"
  shows "sai_deserialize_ip4_mask (print_unsigned k @ rest) =
    Some (length (print_unsigned k), ip4_mask_of k)"
proof -
  let ?v = "of_nat k :: u32"
  have uk: "unat ?v = k" using assms(1) by (intro unat_of_nat_small) simp
  have d: "sai_deserialize_uint32 (print_unsigned k @ rest) =
      Some (length (print_unsigned k), ?v)"
    using uint32_codec.roundtrip [of ?v "print_unsigned k" rest] assms(2) uk
    by (simp add: sai_serialize_uint32_def)
  have "?v \<le> 32" using uk assms(1) by (simp add: word_le_nat_alt)
  then show ?thesis
    using d mask_value_ones [of ?v] uk
    by (simp add: sai_deserialize_ip4_mask_def Let_def ip4_mask_of_def)
qed

lemma deserialize_ip4_mask_range:
  "sai_deserialize_ip4_mask buffer = Some (n, msk) \<Longrightarrow> ip4_mask_ok msk"
proof -
  assume "sai_deserialize_ip4_mask buffer = Some (n, msk)"
  then obtain v :: u32 where v: "\<not> 32 < v"
    and m: "msk = bswap 4 (if v = 0 then v else if v = 32 then 0xFFFFFFFF
      else push_bit (unat (32 - v)) 0xFFFFFFFF)"
    by (auto simp: sai_deserialize_ip4_mask_def Let_def split: option.splits if_splits)
  have "msk = ip4_mask_of (unat v)"
    unfolding m ip4_mask_of_def using v mask_value_ones [of v] by simp
  moreover have "unat v \<le> 32" using v by (simp add: word_less_nat_alt)
  ultimately show ?thesis by (auto simp: ip4_mask_ok_def)
qed

interpretation ip4_mask_codec:
  codec sai_serialize_ip4_mask sai_deserialize_ip4_mask ip4_mask_ok allowed
  by unfold_locales
    (auto simp: ip4_mask_ok_def serialize_ip4_mask_of deserialize_ip4_mask_of)

section \<open>IPv6 masks\<close>

text \<open>
  A mask is its 16 bytes. The two halves are loaded little-endian and byte-swapped; the upper
  half must be full before the lower one may hold ones.
\<close>

definition sai_serialize_ip6_mask :: "u8 list \<Rightarrow> string option" where
  "sai_serialize_ip6_mask msk =
     (let high = bswap 8 (le_word (take 8 msk)) :: u64;
          low = bswap 8 (le_word (take 8 (drop 8 msk))) :: u64;
          tmp = 0xFFFFFFFFFFFFFFFF in
      if high = tmp then
        (let (tmp, n) = mask_loop low tmp 64 in
         if tmp = low then Some (sai_serialize_uint32 (64 + n)) else None)
      else if low = 0 then
        (let (tmp, n) = mask_loop high tmp 64 in
         if tmp = high then Some (sai_serialize_uint32 n) else None)
      else None)"

definition sai_deserialize_ip6_mask :: "string \<Rightarrow> (nat \<times> u8 list) option" where
  "sai_deserialize_ip6_mask buffer =
     (case sai_deserialize_uint64 buffer of
        None \<Rightarrow> None
      | Some (res, v) \<Rightarrow>
          if 128 < v then None
          else
            (let high = 0xFFFFFFFFFFFFFFFF :: u64;
                 low = 0xFFFFFFFFFFFFFFFF :: u64;
                 (high, low) =
                   (if v = 128 then (high, low)
                    else if v = 64 then (high, 0)
                    else if v = 0 then (0, 0)
                    else if 64 < v then (high, push_bit (unat (128 - v)) low)
                    else (push_bit (unat (64 - v)) high, 0))
             in Some (res, le_bytes 8 (bswap 8 high) @ le_bytes 8 (bswap 8 low))))"

text \<open>The IPv6 mask of prefix length \<open>k\<close>: 64-bit halves with \<open>k\<close> leading ones in all.\<close>

definition ip6_mask_of :: "nat \<Rightarrow> u8 list" where
  "ip6_mask_of k =
     le_bytes 8 (bswap 8 (ones (min k 64) :: u64)) @ le_bytes 8 (bswap 8 (ones (k - 64) :: u64))"

definition ip6_mask_ok :: "u8 list \<Rightarrow> bool" where
  "ip6_mask_ok msk \<longleftrightarrow> (\<exists>k \<le> 128. msk = ip6_mask_of k)"

lemma le_word_le_bytes_64 [simp]: "le_word (le_bytes 8 (w :: u64)) = w"
  by (rule le_word_le_bytes) simp

lemma ones64_full [simp]: "(ones 64 :: u64) = - 1"
  using ones_full [where 'a = 64] by simp

lemma ones64_inj: "j \<le> 64 \<Longrightarrow> k \<le> 64 \<Longrightarrow> (ones j :: u64) = ones k \<longleftrightarrow> j = k"
  using ones_inj [of j k, where 'a = 64] by auto

lemma serialize_ip6_mask_of:
  assumes "k \<le> 128"
  shows "sai_serialize_ip6_mask (ip6_mask_of k) = Some (print_unsigned k)"
proof (cases "64 \<le> k")
  case True
  have "mask_loop (ones (k - 64)) (- 1 :: u64) 64 = (ones (k - 64), of_nat (k - 64))"
    using mask_loop_find [where 'a = 64, of "k - 64"] assms by simp
  moreover have "unat (64 + of_nat (k - 64) :: u32) = k"
    using True assms unat_of_nat_small [where 'a = 32, of k] by (simp add: of_nat_diff)
  ultimately show ?thesis using True
    by (simp add: sai_serialize_ip6_mask_def ip6_mask_of_def Let_def all_ones
        sai_serialize_uint32_def del: of_nat_diff)
next
  case False
  have "mask_loop (ones k) (- 1 :: u64) 64 = (ones k, of_nat k)"
    using mask_loop_find [where 'a = 64, of k] False by simp
  moreover have "(ones k :: u64) \<noteq> - 1"
    using ones64_inj [of k 64] False by simp
  ultimately show ?thesis using False
    by (simp add: sai_serialize_ip6_mask_def ip6_mask_of_def Let_def all_ones
        sai_serialize_uint32_def unat_of_nat_small)
qed

lemma mask_value_ones64:
  fixes v :: u64
  assumes "v \<le> 128"
  shows "(if v = 128 then (- 1, - 1) else if v = 64 then (- 1, 0) else if v = 0 then (0, 0)
    else if 64 < v then (- 1, push_bit (unat (128 - v)) (- 1))
    else (push_bit (unat (64 - v)) (- 1), 0)) =
    (ones (min (unat v) 64) :: u64, ones (unat v - 64) :: u64)"
proof -
  have a: "unat v \<le> 128" using assms by (simp add: word_le_nat_alt)
  have b: "unat (128 - v) = 128 - unat v" using assms by (simp add: unat_sub)
  consider "v = 128" | "v = 64" | "v = 0" | "64 < v" "v \<noteq> 128" | "v < 64" "v \<noteq> 0"
    by fastforce
  then show ?thesis
  proof cases
    case 4
    then have "64 < unat v" "unat v < 128"
      using a by (auto simp: word_less_nat_alt word_unat_eq_iff)
    moreover have "v \<noteq> 0" "v \<noteq> 64" using 4 by auto
    ultimately show ?thesis using 4 b by (simp add: ones_def [of "unat v - 64"])
  next
    case 5
    then have "unat v < 64" by (simp add: word_less_nat_alt)
    moreover have "unat (64 - v) = 64 - unat v" using 5 by (simp add: unat_sub)
    moreover have "\<not> 64 < v" "v \<noteq> 64" "v \<noteq> 128" using 5 by auto
    ultimately show ?thesis using 5 by (simp add: ones_def [of "unat v"])
  qed simp_all
qed

lemma deserialize_ip6_mask_cases:
  "sai_deserialize_ip6_mask buffer =
    (case sai_deserialize_uint64 buffer of
       None \<Rightarrow> None
     | Some (res, v) \<Rightarrow> if 128 < v then None else Some (res, ip6_mask_of (unat v)))"
  using mask_value_ones64
  by (simp add: sai_deserialize_ip6_mask_def Let_def all_ones ip6_mask_of_def
      split: option.splits)

lemma deserialize_ip6_mask_of:
  assumes "k \<le> 128" and "allowed (char_at rest 0)"
  shows "sai_deserialize_ip6_mask (print_unsigned k @ rest) =
    Some (length (print_unsigned k), ip6_mask_of k)"
proof -
  have "unat (of_nat k :: u64) = k" using assms(1) by (intro unat_of_nat_small) simp
  moreover from this have "\<not> 128 < (of_nat k :: u64)"
    using assms(1) by (simp add: word_less_nat_alt)
  ultimately show ?thesis
    using assms deserialize_uint64_print [of k rest] by (simp add: deserialize_ip6_mask_cases)
qed

lemma deserialize_ip6_mask_range:
  "sai_deserialize_ip6_mask buffer = Some (n, msk) \<Longrightarrow> ip6_mask_ok msk"
  by (auto simp: deserialize_ip6_mask_cases ip6_mask_ok_def word_less_nat_alt not_less
      split: option.splits if_splits)

interpretation ip6_mask_codec:
  codec sai_serialize_ip6_mask sai_deserialize_ip6_mask ip6_mask_ok allowed
  by unfold_locales
    (auto simp: ip6_mask_ok_def serialize_ip6_mask_of deserialize_ip6_mask_of)

text \<open>The halves determine the mask.\<close>

lemma le_bytes_bswap_load:
  assumes "length bs = 8"
  shows "le_bytes 8 (bswap 8 (bswap 8 (le_word bs :: u64))) = bs"
  using le_bytes_le_word [of bs 8, where 'a = 64] assms by simp

lemma serialize_ip6_mask_holes:
  assumes "length msk = 16" and "\<not> ip6_mask_ok msk"
  shows "sai_serialize_ip6_mask msk = None"
proof -
  define high where "high = (bswap 8 (le_word (take 8 msk)) :: u64)"
  define low where "low = (bswap 8 (le_word (take 8 (drop 8 msk))) :: u64)"
  have "msk = take 8 msk @ take 8 (drop 8 msk)"
    using assms(1) by (metis append_take_drop_id length_drop numeral_Bit0 diff_add_inverse take_all order_refl)
  then have msk: "msk = le_bytes 8 (bswap 8 high) @ le_bytes 8 (bswap 8 low)"
    using assms(1) unfolding high_def low_def by (simp add: le_bytes_bswap_load del: bswap64_bswap64)
  have no: "\<not> (high = ones (min k 64) \<and> low = ones (k - 64))" if "k \<le> 128" for k
    using assms(2) that msk by (auto simp: ip6_mask_ok_def ip6_mask_of_def)
  show ?thesis
  proof (cases "high = - 1")
    case True
    have "\<forall>j \<le> LENGTH(64). low \<noteq> ones j"
    proof (intro allI impI)
      fix j assume "j \<le> LENGTH(64)"
      then show "low \<noteq> ones j" using no [of "64 + j"] True by simp
    qed
    then show ?thesis
      using True mask_loop_hole [where 'a = 64, of low]
      by (simp add: sai_serialize_ip6_mask_def Let_def all_ones
          high_def [symmetric] low_def [symmetric])
  next
    case False
    have "\<forall>j \<le> LENGTH(64). high \<noteq> ones j" if "low = 0"
    proof (intro allI impI)
      fix j assume "j \<le> LENGTH(64)"
      then show "high \<noteq> ones j" using no [of j] that by (simp add: min_def)
    qed
    then show ?thesis
      using False mask_loop_hole [where 'a = 64, of high]
      by (auto simp: sai_serialize_ip6_mask_def Let_def all_ones
          high_def [symmetric] low_def [symmetric])
  qed
qed

end
