(* ===== verification/SaiIp.thy ===== *)
theory SaiIp
  imports SaiMask
begin

text \<open>
  IP addresses and prefixes of \<^verbatim>\<open>saiserialize.c\<close>. The conversions \<^verbatim>\<open>inet_ntop\<close> and
  \<^verbatim>\<open>inet_pton\<close> belong to the C library, so the definitions take them as a parameter
  (\<open>inet_lib\<close>); the predicate \<open>inet_lib_ok\<close> states what POSIX documents of them. A prefix is an
  address, a slash and a mask length; the deserializer tries IPv4 first and falls back to IPv6.
\<close>

section \<open>The C library's address conversions\<close>

record inet_lib =
  inet_ntop4 :: "u32 \<Rightarrow> string option"
  inet_pton4 :: "string \<Rightarrow> u32 option"
  inet_ntop6 :: "u8 list \<Rightarrow> string option"
  inet_pton6 :: "string \<Rightarrow> u8 list option"

definition INET6_ADDRSTRLEN :: nat where "INET6_ADDRSTRLEN = 46"

definition ip_char :: "char \<Rightarrow> bool" where
  "ip_char c \<longleftrightarrow> isxdigit c \<or> c = CHR '':'' \<or> c = CHR ''.''"

text \<open>Text that fits the address buffer and holds only hexadecimal digits, colons and dots.\<close>

definition address_text :: "string \<Rightarrow> bool" where
  "address_text s \<longleftrightarrow> s \<noteq> [] \<and> length s < INET6_ADDRSTRLEN \<and> (\<forall>c \<in> set s. ip_char c)"

definition inet_lib_ok :: "inet_lib \<Rightarrow> bool" where
  "inet_lib_ok lib \<longleftrightarrow>
     (\<forall>ip. \<exists>s. inet_ntop4 lib ip = Some s \<and> address_text s \<and> inet_pton4 lib s = Some ip)
   \<and> (\<forall>ip. length ip = 16 \<longrightarrow>
        (\<exists>s. inet_ntop6 lib ip = Some s \<and> address_text s \<and> inet_pton6 lib s = Some ip
           \<and> inet_pton4 lib s = None))"

section \<open>Addresses\<close>

datatype sai_ip_address = IpV4 u32 | IpV6 "u8 list" | IpFamily int

definition sai_deserialize_ip :: "(string \<Rightarrow> 'a option) \<Rightarrow> string \<Rightarrow> (nat \<times> 'a) option" where
  "sai_deserialize_ip inet_pton buffer =
     (let local = takeWhile ip_char (take INET6_ADDRSTRLEN buffer);
          idx = length local in
      case inet_pton local of
        None \<Rightarrow> None
      | Some ip \<Rightarrow>
          if allowed (char_at buffer idx) \<or> char_at buffer idx = CHR ''/''
          then Some (idx, ip) else None)"

definition sai_serialize_ip4 :: "inet_lib \<Rightarrow> u32 \<Rightarrow> string option" where
  "sai_serialize_ip4 lib ip4 = inet_ntop4 lib ip4"

definition sai_deserialize_ip4 :: "inet_lib \<Rightarrow> string \<Rightarrow> (nat \<times> u32) option" where
  "sai_deserialize_ip4 lib buffer = sai_deserialize_ip (inet_pton4 lib) buffer"

definition sai_serialize_ip6 :: "inet_lib \<Rightarrow> u8 list \<Rightarrow> string option" where
  "sai_serialize_ip6 lib ip6 = inet_ntop6 lib ip6"

definition sai_deserialize_ip6 :: "inet_lib \<Rightarrow> string \<Rightarrow> (nat \<times> u8 list) option" where
  "sai_deserialize_ip6 lib buffer = sai_deserialize_ip (inet_pton6 lib) buffer"

definition sai_serialize_ip_address :: "inet_lib \<Rightarrow> sai_ip_address \<Rightarrow> string option" where
  "sai_serialize_ip_address lib ip_address =
     (case ip_address of
        IpV4 ip4 \<Rightarrow> sai_serialize_ip4 lib ip4
      | IpV6 ip6 \<Rightarrow> sai_serialize_ip6 lib ip6
      | IpFamily f \<Rightarrow> None)"

definition sai_deserialize_ip_address ::
  "inet_lib \<Rightarrow> string \<Rightarrow> (nat \<times> sai_ip_address) option" where
  "sai_deserialize_ip_address lib buffer =
     (let v6 = (case sai_deserialize_ip (inet_pton6 lib) buffer of
                  Some (res, ip6) \<Rightarrow> if 0 < res then Some (res, IpV6 ip6) else None
                | None \<Rightarrow> None) in
      case sai_deserialize_ip (inet_pton4 lib) buffer of
        Some (res, ip4) \<Rightarrow> if 0 < res then Some (res, IpV4 ip4) else v6
      | None \<Rightarrow> v6)"

section \<open>Prefixes\<close>

datatype sai_ip_prefix = PrefixV4 u32 u32 | PrefixV6 "u8 list" "u8 list" | PrefixFamily int

definition sai_serialize_ip_prefix :: "inet_lib \<Rightarrow> sai_ip_prefix \<Rightarrow> string option" where
  "sai_serialize_ip_prefix lib ip_prefix =
     (let parts = (case ip_prefix of
          PrefixV4 addr msk \<Rightarrow> Some (sai_serialize_ip4 lib addr, sai_serialize_ip4_mask msk)
        | PrefixV6 addr msk \<Rightarrow> Some (sai_serialize_ip6 lib addr, sai_serialize_ip6_mask msk)
        | PrefixFamily f \<Rightarrow> None) in
      case parts of
        Some (Some addr, Some msk) \<Rightarrow> Some (addr @ ''/'' @ msk)
      | _ \<Rightarrow> None)"

text \<open>
  After an address of either family was recognised, the family is settled: a missing slash or a
  bad mask is an error, not a reason to try the other family.
\<close>

definition prefix_mask ::
  "(string \<Rightarrow> (nat \<times> 'm) option) \<Rightarrow> ('m \<Rightarrow> sai_ip_prefix) \<Rightarrow> string \<Rightarrow> nat
     \<Rightarrow> (nat \<times> sai_ip_prefix) option" where
  "prefix_mask deserialize_mask prefix buffer res =
     (if char_at buffer res \<noteq> CHR ''/'' then None
      else
        (case deserialize_mask (drop (res + 1) buffer) of
           Some (n, msk) \<Rightarrow> if 0 < n then Some (res + 1 + n, prefix msk) else None
         | None \<Rightarrow> None))"

definition sai_deserialize_ip_prefix ::
  "inet_lib \<Rightarrow> string \<Rightarrow> (nat \<times> sai_ip_prefix) option" where
  "sai_deserialize_ip_prefix lib buffer =
     (let v6 = (case sai_deserialize_ip (inet_pton6 lib) buffer of
                  Some (res, ip6) \<Rightarrow>
                    if 0 < res then prefix_mask sai_deserialize_ip6_mask (PrefixV6 ip6) buffer res
                    else None
                | None \<Rightarrow> None) in
      case sai_deserialize_ip (inet_pton4 lib) buffer of
        Some (res, ip4) \<Rightarrow>
          if 0 < res then prefix_mask sai_deserialize_ip4_mask (PrefixV4 ip4) buffer res
          else v6
      | None \<Rightarrow> v6)"

section \<open>Round trips\<close>

definition ip_stop :: "char \<Rightarrow> bool" where
  "ip_stop c \<longleftrightarrow> allowed c \<or> c = CHR ''/''"

lemma ip_stop_not_ip_char: "ip_stop c \<Longrightarrow> \<not> ip_char c"
  by (auto simp: ip_stop_def ip_char_def sai_serialize_is_char_allowed_def isxdigit_def
      isdigit_def)

lemma deserialize_ip_text:
  assumes "address_text s" and "ip_stop (char_at rest 0)"
  shows "sai_deserialize_ip pton (s @ rest) =
    (case pton s of None \<Rightarrow> None | Some ip \<Rightarrow> Some (length s, ip))"
proof -
  let ?r = "take (INET6_ADDRSTRLEN - length s) rest"
  have "take INET6_ADDRSTRLEN (s @ rest) = s @ ?r"
    using assms(1) by (simp add: address_text_def)
  moreover have "\<not> ip_char (char_at ?r 0)"
    using ip_stop_not_ip_char [OF assms(2)] assms(1)
    by (cases rest; cases "INET6_ADDRSTRLEN - length s") (auto simp: address_text_def)
  ultimately have "takeWhile ip_char (take INET6_ADDRSTRLEN (s @ rest)) = s"
    using assms(1) takeWhile_append_stop [of s ip_char ?r] by (simp add: address_text_def)
  then show ?thesis
    using assms(2) by (simp add: sai_deserialize_ip_def Let_def ip_stop_def split: option.splits)
qed

lemma address_text_nonempty: "address_text s \<Longrightarrow> s \<noteq> []"
  by (simp add: address_text_def)

lemma inet_lib_ok4:
  assumes "inet_lib_ok lib" and "inet_ntop4 lib ip = Some s"
  shows "address_text s" and "inet_pton4 lib s = Some ip"
  using assms unfolding inet_lib_ok_def by (metis option.inject)+

lemma inet_lib_ok6:
  assumes "inet_lib_ok lib" and "length ip = 16" and "inet_ntop6 lib ip = Some s"
  shows "address_text s" and "inet_pton6 lib s = Some ip" and "inet_pton4 lib s = None"
  using assms unfolding inet_lib_ok_def by (metis option.inject)+

definition ip_address_ok :: "sai_ip_address \<Rightarrow> bool" where
  "ip_address_ok a = (case a of IpV4 ip \<Rightarrow> True | IpV6 ip \<Rightarrow> length ip = 16 | IpFamily f \<Rightarrow> False)"

lemma ip_address_codec:
  assumes lib: "inet_lib_ok lib"
  shows "codec (sai_serialize_ip_address lib) (sai_deserialize_ip_address lib)
    ip_address_ok ip_stop"
proof unfold_locales
  fix x
  assume "ip_address_ok x"
  then show "\<exists>s. sai_serialize_ip_address lib x = Some s"
    using lib by (cases x)
      (auto simp: ip_address_ok_def sai_serialize_ip_address_def sai_serialize_ip4_def
        sai_serialize_ip6_def inet_lib_ok_def)
next
  fix x s rest
  assume ok: "ip_address_ok x" and s: "sai_serialize_ip_address lib x = Some s"
    and stop: "ip_stop (char_at rest 0)"
  show "sai_deserialize_ip_address lib (s @ rest) = Some (length s, x)"
  proof (cases x)
    case (IpV4 ip)
    then have "inet_ntop4 lib ip = Some s"
      using s by (simp add: sai_serialize_ip_address_def sai_serialize_ip4_def)
    note tx = inet_lib_ok4 [OF lib this]
    show ?thesis
      using tx IpV4 deserialize_ip_text [OF tx(1) stop, of "inet_pton4 lib"]
        address_text_nonempty [OF tx(1)]
      by (simp add: sai_deserialize_ip_address_def Let_def)
  next
    case (IpV6 ip)
    then have "length ip = 16" and "inet_ntop6 lib ip = Some s"
      using ok s by (simp_all add: ip_address_ok_def sai_serialize_ip_address_def
          sai_serialize_ip6_def)
    note tx = inet_lib_ok6 [OF lib this]
    show ?thesis
      using tx IpV6 deserialize_ip_text [OF tx(1) stop, of "inet_pton4 lib"]
        deserialize_ip_text [OF tx(1) stop, of "inet_pton6 lib"] address_text_nonempty [OF tx(1)]
      by (simp add: sai_deserialize_ip_address_def Let_def)
  next
    case (IpFamily f)
    then show ?thesis using ok by (simp add: ip_address_ok_def)
  qed
qed (simp add: ip_stop_def)

definition ip_prefix_ok :: "sai_ip_prefix \<Rightarrow> bool" where
  "ip_prefix_ok p = (case p of
     PrefixV4 ip msk \<Rightarrow> ip4_mask_ok msk
   | PrefixV6 ip msk \<Rightarrow> length ip = 16 \<and> ip6_mask_ok msk
   | PrefixFamily f \<Rightarrow> False)"

lemma prefix_mask_text:
  assumes "deserialize_mask (m @ rest) = Some (length m, msk)" and "m \<noteq> []"
  shows "prefix_mask deserialize_mask prefix (a @ ''/'' @ m @ rest) (length a) =
    Some (length (a @ ''/'' @ m), prefix msk)"
proof -
  have "char_at (a @ ''/'' @ m @ rest) (length a) = CHR ''/''"
    and "drop (length a + 1) (a @ ''/'' @ m @ rest) = m @ rest"
    by simp_all
  then show ?thesis
    using assms by (simp add: prefix_mask_def)
qed

lemma mask_text_nonempty:
  "sai_serialize_ip4_mask msk4 = Some m \<Longrightarrow> ip4_mask_ok msk4 \<Longrightarrow> m \<noteq> []"
  "sai_serialize_ip6_mask msk6 = Some m \<Longrightarrow> ip6_mask_ok msk6 \<Longrightarrow> m \<noteq> []"
  by (auto simp: ip4_mask_ok_def ip6_mask_ok_def serialize_ip4_mask_of serialize_ip6_mask_of)

lemma ip_prefix_codec:
  assumes lib: "inet_lib_ok lib"
  shows "codec (sai_serialize_ip_prefix lib) (sai_deserialize_ip_prefix lib)
    ip_prefix_ok allowed"
proof unfold_locales
  fix x
  assume ok: "ip_prefix_ok x"
  show "\<exists>s. sai_serialize_ip_prefix lib x = Some s"
  proof (cases x)
    case (PrefixV4 ip msk)
    moreover obtain a where "inet_ntop4 lib ip = Some a"
      using lib unfolding inet_lib_ok_def by blast
    moreover obtain m where "sai_serialize_ip4_mask msk = Some m"
      using ok PrefixV4 ip4_mask_codec.ser_total [of msk] by (auto simp: ip_prefix_ok_def)
    ultimately show ?thesis
      by (simp add: sai_serialize_ip_prefix_def sai_serialize_ip4_def)
  next
    case (PrefixV6 ip msk)
    moreover obtain a where "inet_ntop6 lib ip = Some a"
      using lib ok PrefixV6 unfolding inet_lib_ok_def by (auto simp: ip_prefix_ok_def)
    moreover obtain m where "sai_serialize_ip6_mask msk = Some m"
      using ok PrefixV6 ip6_mask_codec.ser_total [of msk] by (auto simp: ip_prefix_ok_def)
    ultimately show ?thesis
      by (simp add: sai_serialize_ip_prefix_def sai_serialize_ip6_def)
  next
    case (PrefixFamily f)
    then show ?thesis using ok by (simp add: ip_prefix_ok_def)
  qed
next
  fix x s rest
  assume ok: "ip_prefix_ok x" and s: "sai_serialize_ip_prefix lib x = Some s"
    and stop: "allowed (char_at rest 0)"
  have slash: "ip_stop (char_at (''/'' @ t) 0)" for t
    by (simp add: ip_stop_def)
  show "sai_deserialize_ip_prefix lib (s @ rest) = Some (length s, x)"
  proof (cases x)
    case (PrefixV4 ip msk)
    then obtain a m where a: "inet_ntop4 lib ip = Some a"
      and m: "sai_serialize_ip4_mask msk = Some m" and seq: "s = a @ ''/'' @ m"
      using s by (auto simp: sai_serialize_ip_prefix_def sai_serialize_ip4_def
          split: option.splits)
    have msk: "ip4_mask_ok msk" using ok PrefixV4 by (simp add: ip_prefix_ok_def)
    note tx = inet_lib_ok4 [OF lib a]
    show ?thesis
      using deserialize_ip_text [OF tx(1) slash, of "inet_pton4 lib" "m @ rest"]
        deserialize_ip_text [OF tx(1) slash, of "inet_pton6 lib" "m @ rest"] tx(2)
        address_text_nonempty [OF tx(1)] PrefixV4
        prefix_mask_text [of sai_deserialize_ip4_mask m rest msk "PrefixV4 ip" a,
          OF ip4_mask_codec.roundtrip [OF msk m stop] mask_text_nonempty(1) [OF m msk]]
      unfolding seq by (simp add: sai_deserialize_ip_prefix_def Let_def)
  next
    case (PrefixV6 ip msk)
    then obtain a m where a: "inet_ntop6 lib ip = Some a"
      and m: "sai_serialize_ip6_mask msk = Some m" and seq: "s = a @ ''/'' @ m"
      using s by (auto simp: sai_serialize_ip_prefix_def sai_serialize_ip6_def
          split: option.splits)
    have msk: "ip6_mask_ok msk" and len: "length ip = 16"
      using ok PrefixV6 by (simp_all add: ip_prefix_ok_def)
    note tx = inet_lib_ok6 [OF lib len a]
    show ?thesis
      using deserialize_ip_text [OF tx(1) slash, of "inet_pton4 lib" "m @ rest"]
        deserialize_ip_text [OF tx(1) slash, of "inet_pton6 lib" "m @ rest"] tx(2,3)
        address_text_nonempty [OF tx(1)] PrefixV6
        prefix_mask_text [of sai_deserialize_ip6_mask m rest msk "PrefixV6 ip" a,
          OF ip6_mask_codec.roundtrip [OF msk m stop] mask_text_nonempty(2) [OF m msk]]
      unfolding seq by (simp add: sai_deserialize_ip_prefix_def Let_def)
  next
    case (PrefixFamily f)
    then show ?thesis using ok by (simp add: ip_prefix_ok_def)
  qed
qed simp

end
