(* ===== verification/SaiScan.thy ===== *)
theory SaiScan
  imports SaiNumbers
begin

text \<open>
  The serializers of \<^verbatim>\<open>saiserialize.c\<close> that read with \<^verbatim>\<open>sscanf\<close>: object ids, MAC
  addresses and pointers. \<open>scan_x\<close> is the \<^verbatim>\<open>%x\<close> conversion of the C standard with a field
  width: leading white space is skipped and not counted, then an optional sign and an optional
  \<^verbatim>\<open>0x\<close> count towards the width like the digits do.
\<close>

section \<open>The hexadecimal conversion of scanf\<close>

definition scan_x :: "nat \<Rightarrow> string \<Rightarrow> (nat \<times> int) option" where
  "scan_x width s =
     (let ws = length (takeWhile isspace s);
          t = drop ws s;
          sg = (if 0 < width \<and> (char_at t 0 = CHR ''-'' \<or> char_at t 0 = CHR ''+'') then 1 else 0);
          u = drop sg t;
          w = width - sg;
          pf = (if 2 \<le> w \<and> char_at u 0 = CHR ''0''
                  \<and> (char_at u 1 = CHR ''x'' \<or> char_at u 1 = CHR ''X'') then 2 else 0);
          ds = takeWhile isxdigit (take (w - pf) (drop pf u));
          v = int (read_base 16 ds)
      in if ds = [] then None
         else Some (ws + sg + pf + length ds, if sg = 1 \<and> char_at t 0 = CHR ''-'' then - v else v))"

lemma isxdigit_head_facts:
  assumes "isxdigit c"
  shows "\<not> isspace c" and "c \<noteq> CHR ''-''" and "c \<noteq> CHR ''+''" and "c \<noteq> CHR ''x''"
    and "c \<noteq> CHR ''X''" and "c \<noteq> CHR '':''" and "c \<noteq> CHR ''(''"
  using assms by (auto simp: isxdigit_def isdigit_def isspace_def)

text \<open>
  On a run of hexadecimal digits that fits the width and is followed by a character that is
  no digit and no \<^verbatim>\<open>x\<close>, the conversion reads exactly the run. (Exactly as many digits as the
  width also stop the conversion, whatever follows.)
\<close>

lemma scan_x_digits:
  assumes "\<forall>c \<in> set ds. isxdigit c" and "ds \<noteq> []" and "length ds \<le> width"
    and "length ds = width \<or> \<not> isxdigit (char_at rest 0)"
    and "char_at rest 0 \<noteq> CHR ''x''" and "char_at rest 0 \<noteq> CHR ''X''"
  shows "scan_x width (ds @ rest) = Some (length ds, int (read_base 16 ds))"
proof -
  obtain d es where ds: "ds = d # es" using assms(2) by (cases ds) auto
  have d: "isxdigit d" using assms(1) ds by simp
  have ws: "takeWhile isspace (ds @ rest) = []"
    using isxdigit_head_facts(1) [OF d] by (simp add: ds)
  have second: "char_at (ds @ rest) 1 \<noteq> CHR ''x'' \<and> char_at (ds @ rest) 1 \<noteq> CHR ''X''"
  proof (cases es)
    case Nil
    then show ?thesis using assms(5,6) by (simp add: ds)
  next
    case (Cons e fs)
    then have "isxdigit e" using assms(1) ds by simp
    then show ?thesis using isxdigit_head_facts [of e] by (simp add: ds Cons)
  qed
  have first: "char_at (ds @ rest) 0 \<noteq> CHR ''-''" "char_at (ds @ rest) 0 \<noteq> CHR ''+''"
    using isxdigit_head_facts [OF d] by (simp_all add: ds)
  have tk: "takeWhile isxdigit (take width (ds @ rest)) = ds"
  proof (cases "length ds = width")
    case True
    then show ?thesis using assms(1) by (simp add: takeWhile_eq_all_conv)
  next
    case False
    have "\<not> isxdigit (char_at (take (width - length ds) rest) 0)"
      using False assms(4) by (cases rest) (auto simp: take_Cons' char_at_def)
    moreover have "take width (ds @ rest) = ds @ take (width - length ds) rest"
      using assms(3) by simp
    ultimately show ?thesis using takeWhile_append_stop [OF assms(1)] by simp
  qed
  show ?thesis
    unfolding scan_x_def Let_def ws using first second tk assms(2) by simp
qed

section \<open>Object ids\<close>

definition sai_serialize_object_id :: "u64 \<Rightarrow> string" where
  "sai_serialize_object_id oid = ''oid:0x'' @ print_base 16 digit_lower (unat oid)"

definition sai_deserialize_object_id :: "string \<Rightarrow> (nat \<times> u64) option" where
  "sai_deserialize_object_id buffer =
     (if strncmp_eq buffer ''oid:0x'' 6 then
        (case scan_x 16 (drop 6 buffer) of
           None \<Rightarrow> None
         | Some (n, v) \<Rightarrow>
             if allowed (char_at buffer (6 + n)) then Some (6 + n, word_of_int v) else None)
      else None)"

lemma print_hex_digits: "\<forall>c \<in> set (print_base 16 digit_lower n). isxdigit c"
  by (rule set_print_base) simp_all

lemma scan_print_hex:
  assumes "n < 16 ^ w" and "0 < w" and "allowed (char_at rest 0)"
  shows "scan_x w (print_base 16 digit_lower n @ rest) =
    Some (length (print_base 16 digit_lower n), int n)"
  using assms allowed_not_x [OF assms(3)] allowed_not_xdigit [OF assms(3)]
  by (subst scan_x_digits) (simp_all add: print_hex_digits length_print_base read_print_base)

interpretation object_id_codec:
  codec "\<lambda>v. Some (sai_serialize_object_id v)" sai_deserialize_object_id "\<lambda>_. True" allowed
proof unfold_locales
  fix x :: u64 and s rest
  assume s: "Some (sai_serialize_object_id x) = Some s" and stop: "allowed (char_at rest 0)"
  let ?h = "print_base 16 digit_lower (unat x)"
  have scan: "scan_x 16 (?h @ rest) = Some (length ?h, int (unat x))"
    using stop unat_u64_bound [of x] by (intro scan_print_hex) simp_all
  have "s @ rest = ''oid:0x'' @ ?h @ rest"
    using s by (simp add: sai_serialize_object_id_def)
  moreover have "length s = 6 + length ?h"
    using s by (auto simp: sai_serialize_object_id_def)
  ultimately show "sai_deserialize_object_id (s @ rest) = Some (length s, x)"
    using scan stop
    by (simp add: sai_deserialize_object_id_def strncmp_eq_def char_at_drop [symmetric]
        numeral_eq_Suc)
qed simp_all

section \<open>MAC addresses\<close>

definition print_hex_byte :: "u8 \<Rightarrow> string" where
  "print_hex_byte b = [digit_upper (unat b div 16), digit_upper (unat b mod 16)]"

definition sai_serialize_mac :: "u8 list \<Rightarrow> string" where
  "sai_serialize_mac mac = join_with (CHR '':'') (map print_hex_byte (take 6 mac))"

text \<open>\<^verbatim>\<open>sscanf(buffer, "%2X:%2X:...:%2X%n", ...)\<close>: \<open>k\<close> fields with a colon between them.\<close>

fun scan_colon_fields :: "nat \<Rightarrow> string \<Rightarrow> (nat \<times> int list) option" where
  "scan_colon_fields 0 s = Some (0, [])"
| "scan_colon_fields (Suc k) s =
     (case scan_x 2 s of
        None \<Rightarrow> None
      | Some (n, v) \<Rightarrow>
          if k = 0 then Some (n, [v])
          else if char_at s n = CHR '':'' then
            (case scan_colon_fields k (drop (Suc n) s) of
               None \<Rightarrow> None
             | Some (m, vs) \<Rightarrow> Some (n + 1 + m, v # vs))
          else None)"

definition SAI_MAC_ADDRESS_LENGTH :: nat where "SAI_MAC_ADDRESS_LENGTH = 17"

definition sai_deserialize_mac :: "string \<Rightarrow> (nat \<times> u8 list) option" where
  "sai_deserialize_mac buffer =
     (case scan_colon_fields 6 buffer of
        None \<Rightarrow> None
      | Some (read, arr) \<Rightarrow>
          if read = SAI_MAC_ADDRESS_LENGTH \<and> allowed (char_at buffer read)
          then Some (SAI_MAC_ADDRESS_LENGTH, map word_of_int arr)
          else None)"

lemma scan_hex_byte:
  "char_at rest 0 \<noteq> CHR ''x'' \<Longrightarrow> char_at rest 0 \<noteq> CHR ''X'' \<Longrightarrow>
   scan_x 2 (print_hex_byte b @ rest) = Some (2, uint b)"
proof -
  assume rest: "char_at rest 0 \<noteq> CHR ''x''" "char_at rest 0 \<noteq> CHR ''X''"
  have "unat b < 256" using unsigned_less [of b, where ?'a = nat] by simp
  then have d: "unat b div 16 < 16" "unat b mod 16 < 16" by simp_all
  then have "scan_x 2 (print_hex_byte b @ rest) =
      Some (length (print_hex_byte b), int (read_base 16 (print_hex_byte b)))"
    using rest by (intro scan_x_digits) (simp_all add: print_hex_byte_def)
  moreover have "int (read_base 16 (print_hex_byte b)) = uint b"
    using d by (simp add: print_hex_byte_def read_base_def)
  ultimately show ?thesis by (simp add: print_hex_byte_def)
qed

lemma scan_join_colon:
  assumes "bs \<noteq> []" and "allowed (char_at rest 0)"
  shows "scan_colon_fields (length bs) (join_with (CHR '':'') (map print_hex_byte bs) @ rest) =
    Some (length (join_with (CHR '':'') (map print_hex_byte bs)), map uint bs)"
  using assms(1)
proof (induction bs)
  case Nil
  then show ?case by simp
next
  case (Cons b bs)
  show ?case
  proof (cases bs)
    case Nil
    then show ?thesis
      using allowed_not_x [OF assms(2)] scan_hex_byte [of rest b]
      by (simp add: print_hex_byte_def)
  next
    case (Cons c cs)
    define tl where "tl = join_with (CHR '':'') (map print_hex_byte bs)"
    define X where "X = print_hex_byte b @ CHR '':'' # tl @ rest"
    have eq: "join_with (CHR '':'') (map print_hex_byte (b # bs)) = print_hex_byte b @ CHR '':'' # tl"
      by (simp add: Cons tl_def)
    have dr: "drop (Suc 2) X = tl @ rest" and at: "char_at X 2 = CHR '':''"
      by (simp_all add: X_def print_hex_byte_def numeral_2_eq_2)
    have "bs \<noteq> []" by (simp add: Cons)
    then have tail: "scan_colon_fields (length bs) (tl @ rest) = Some (length tl, map uint bs)"
      unfolding tl_def by (rule Cons.IH)
    have head: "scan_x 2 X = Some (2, uint b)"
      unfolding X_def by (rule scan_hex_byte) simp_all
    have "scan_colon_fields (Suc (length bs)) X = Some (2 + 1 + length tl, uint b # map uint bs)"
      unfolding scan_colon_fields.simps head option.case prod.case at dr tail
      using \<open>bs \<noteq> []\<close> by simp
    moreover have "join_with (CHR '':'') (map print_hex_byte (b # bs)) @ rest = X"
      by (simp only: eq X_def append_assoc append_Cons)
    moreover have "length (join_with (CHR '':'') (map print_hex_byte (b # bs))) = 2 + 1 + length tl"
      unfolding eq by (simp add: print_hex_byte_def)
    ultimately show ?thesis
      by (simp only: length_Cons list.map)
  qed
qed

lemma length_join_colon_bytes:
  "bs \<noteq> [] \<Longrightarrow> length (join_with (CHR '':'') (map print_hex_byte bs)) = 3 * length bs - 1"
proof (induction bs)
  case Nil
  then show ?case by simp
next
  case (Cons b bs)
  then show ?case by (cases bs) (simp_all add: print_hex_byte_def)
qed

interpretation mac_codec:
  codec "\<lambda>m. Some (sai_serialize_mac m)" sai_deserialize_mac "\<lambda>m. length m = 6" allowed
proof unfold_locales
  fix x :: "u8 list" and s rest
  assume len: "length x = 6" and s: "Some (sai_serialize_mac x) = Some s"
    and stop: "allowed (char_at rest 0)"
  have sx: "s = join_with (CHR '':'') (map print_hex_byte x)" and ne: "x \<noteq> []"
    using s len by (auto simp: sai_serialize_mac_def)
  have l17: "length s = SAI_MAC_ADDRESS_LENGTH"
    using length_join_colon_bytes [OF ne] len by (simp add: sx SAI_MAC_ADDRESS_LENGTH_def)
  have "scan_colon_fields 6 (s @ rest) = Some (length s, map uint x)"
    using scan_join_colon [OF ne stop] len sx by simp
  then show "sai_deserialize_mac (s @ rest) = Some (length s, x)"
    using stop by (simp add: sai_deserialize_mac_def l17 [symmetric] o_def)
qed simp_all

section \<open>Lenient inputs\<close>

text \<open>
  The conversions accept more than the serializers write: \<^verbatim>\<open>%x\<close> takes a sign, and white
  space before a field is not counted in its width.
\<close>

lemma deserialize_object_id_signed:
  "sai_deserialize_object_id ''oid:0x-1'' = Some (8, 0xFFFFFFFFFFFFFFFF)"
  by (simp add: sai_deserialize_object_id_def strncmp_eq_def scan_x_def isspace_def isxdigit_def
      isdigit_def Let_def read_base_def xdigit_val_def char_at_def)

section \<open>Pointers\<close>

text \<open>
  \<^verbatim>\<open>%p\<close> is implementation defined; this is the C library of the images (glibc), which prints
  the null pointer as \<^verbatim>\<open>(nil)\<close> and any other one as \<^verbatim>\<open>0x\<close> and hexadecimal digits, and reads
  both forms back.
\<close>

definition print_pointer :: "u64 \<Rightarrow> string" where
  "print_pointer p = (if p = 0 then ''(nil)'' else ''0x'' @ print_base 16 digit_lower (unat p))"

definition scan_p :: "string \<Rightarrow> (nat \<times> int) option" where
  "scan_p s =
     (let ws = length (takeWhile isspace s) in
      if strncmp_eq (drop ws s) ''(nil)'' 5 then Some (ws + 5, 0) else scan_x (length s) s)"

definition sai_serialize_pointer :: "u64 \<Rightarrow> string" where
  "sai_serialize_pointer p = ''ptr:'' @ print_pointer p"

definition sai_deserialize_pointer :: "string \<Rightarrow> (nat \<times> u64) option" where
  "sai_deserialize_pointer buffer =
     (if strncmp_eq buffer ''ptr:'' 4 then
        (case scan_p (drop 4 buffer) of
           None \<Rightarrow> None
         | Some (n, v) \<Rightarrow>
             if allowed (char_at buffer (4 + n)) then Some (4 + n, word_of_int v) else None)
      else None)"

lemma scan_x_prefixed:
  assumes "\<forall>c \<in> set ds. isxdigit c" and "ds \<noteq> []" and "length ds + 2 \<le> width"
    and "\<not> isxdigit (char_at rest 0)"
  shows "scan_x width (''0x'' @ ds @ rest) = Some (2 + length ds, int (read_base 16 ds))"
proof -
  have ws: "takeWhile isspace (''0x'' @ ds @ rest) = []"
    by (simp add: isspace_def)
  have "\<not> isxdigit (char_at (take (width - 2 - length ds) rest) 0)"
    using assms(4) by (cases rest; cases "width - 2 - length ds") auto
  moreover have "take (width - 2) (ds @ rest) = ds @ take (width - 2 - length ds) rest"
    using assms(3) by simp
  ultimately have "takeWhile isxdigit (take (width - 2) (ds @ rest)) = ds"
    using takeWhile_append_stop [OF assms(1)] by simp
  then show ?thesis
    unfolding scan_x_def Let_def ws using assms(2,3) by simp
qed

lemma scan_print_pointer:
  assumes "allowed (char_at rest 0)"
  shows "scan_p (print_pointer p @ rest) = Some (length (print_pointer p), uint p)"
proof (cases "p = 0")
  case True
  then show ?thesis
    by (simp add: print_pointer_def scan_p_def isspace_def strncmp_eq_def)
next
  case False
  let ?h = "print_base 16 digit_lower (unat p)"
  have "scan_x (length (''0x'' @ ?h @ rest)) (''0x'' @ ?h @ rest) =
      Some (2 + length ?h, int (read_base 16 ?h))"
    using allowed_not_xdigit [OF assms] by (intro scan_x_prefixed print_hex_digits) simp_all
  moreover have "read_base 16 ?h = unat p"
    by (rule read_print_base) simp_all
  ultimately show ?thesis using False
    by (simp add: print_pointer_def scan_p_def isspace_def strncmp_eq_def)
qed

interpretation pointer_codec:
  codec "\<lambda>p. Some (sai_serialize_pointer p)" sai_deserialize_pointer "\<lambda>_. True" allowed
proof unfold_locales
  fix x :: u64 and s rest
  assume s: "Some (sai_serialize_pointer x) = Some s" and stop: "allowed (char_at rest 0)"
  have eq: "s = ''ptr:'' @ print_pointer x"
    using s by (simp add: sai_serialize_pointer_def)
  have dr: "drop 4 (''ptr:'' @ t) = t" and tk: "strncmp_eq (''ptr:'' @ t) ''ptr:'' 4" for t
    by (simp_all add: strncmp_eq_def)
  have at: "char_at (''ptr:'' @ print_pointer x @ rest) (4 + length (print_pointer x)) =
      char_at rest 0"
    by (simp add: char_at_def nth_append)
  show "sai_deserialize_pointer (s @ rest) = Some (length s, x)"
    unfolding sai_deserialize_pointer_def eq append_assoc dr scan_print_pointer [OF stop]
      option.case prod.case at
    using tk stop by simp
qed simp_all

end
