(* ===== verification/InetText.thy ===== *)
theory InetText
  imports SaiIp SaiScan
begin

text \<open>
  A concrete pair of address conversions, so that the contract \<open>inet_lib_ok\<close> on the C library is
  seen to be satisfiable: dotted decimal for IPv4, and IPv6 written as its eight groups without
  the \<^verbatim>\<open>::\<close> abbreviation. Only the witnesses of the address properties use it.
\<close>

definition text_ntop4 :: "u32 \<Rightarrow> string" where
  "text_ntop4 ip = join_with (CHR ''.'') (map (\<lambda>b. print_unsigned (unat b)) (le_bytes 4 ip))"

definition byte_field :: "string \<Rightarrow> bool" where
  "byte_field f \<longleftrightarrow> f \<noteq> [] \<and> list_all isdigit f \<and> length f \<le> 3 \<and> read_base 10 f \<le> 255"

definition text_pton4 :: "string \<Rightarrow> u32 option" where
  "text_pton4 s =
     (let fs = split_on (CHR ''.'') s in
      if length fs = 4 \<and> list_all byte_field fs
      then Some (le_word (map (\<lambda>f. of_nat (read_base 10 f)) fs)) else None)"

fun byte_pairs :: "u8 list \<Rightarrow> nat list" where
  "byte_pairs (a # b # bs) = (unat a * 256 + unat b) # byte_pairs bs"
| "byte_pairs bs = []"

definition pair_bytes :: "nat \<Rightarrow> u8 list" where
  "pair_bytes g = [of_nat (g div 256), of_nat (g mod 256)]"

definition text_ntop6 :: "u8 list \<Rightarrow> string" where
  "text_ntop6 ip = join_with (CHR '':'') (map (print_base 16 digit_lower) (byte_pairs ip))"

definition group_field :: "string \<Rightarrow> bool" where
  "group_field f \<longleftrightarrow> f \<noteq> [] \<and> list_all isxdigit f \<and> length f \<le> 4"

definition text_pton6 :: "string \<Rightarrow> u8 list option" where
  "text_pton6 s =
     (let fs = split_on (CHR '':'') s in
      if length fs = 8 \<and> list_all group_field fs
      then Some (concat (map (\<lambda>f. pair_bytes (read_base 16 f)) fs)) else None)"

definition text_inet :: inet_lib where
  "text_inet = \<lparr>inet_ntop4 = \<lambda>ip. Some (text_ntop4 ip), inet_pton4 = text_pton4,
     inet_ntop6 = \<lambda>ip. Some (text_ntop6 ip), inet_pton6 = text_pton6\<rparr>"

lemma unat_u8_bound: "unat (b :: u8) < 256"
  using unsigned_less [of b, where ?'a = nat] by simp

lemma byte_field_print: "byte_field (print_unsigned (unat (b :: u8)))"
proof -
  have "length (print_unsigned (unat b)) \<le> 3"
    unfolding print_unsigned_def
    using unat_u8_bound [of b] by (intro length_print_base) simp_all
  then show ?thesis
    using unat_u8_bound [of b] print_unsigned_digits [of "unat b"]
    by (simp add: byte_field_def read_print_unsigned list_all_iff)
qed

lemma field_chars:
  "c \<in> set (print_unsigned n) \<Longrightarrow> ip_char c \<and> c \<noteq> CHR ''.''"
  using print_unsigned_digits [of n] by (auto simp: ip_char_def isxdigit_def isdigit_def)

lemma group_chars:
  "c \<in> set (print_base 16 digit_lower n) \<Longrightarrow> ip_char c \<and> c \<noteq> CHR '':'' \<and> c \<noteq> CHR ''.''"
  using print_hex_digits [of n] by (auto simp: ip_char_def isxdigit_def isdigit_def)

lemma text_inet_4:
  "address_text (text_ntop4 ip) \<and> text_pton4 (text_ntop4 ip) = Some ip"
proof -
  let ?ss = "map (\<lambda>b. print_unsigned (unat b)) (le_bytes 4 ip)"
  have ne: "?ss \<noteq> []" using length_le_bytes [of 4 ip] by fastforce
  have split: "split_on (CHR ''.'') (text_ntop4 ip) = ?ss"
    unfolding text_ntop4_def using ne field_chars by (intro split_join_with) auto
  have fields: "list_all byte_field ?ss" by (simp add: list_all_iff byte_field_print)
  have "map (\<lambda>f. of_nat (read_base 10 f)) ?ss = le_bytes 4 ip"
    by (simp add: o_def read_print_unsigned)
  then have "text_pton4 (text_ntop4 ip) = Some ip"
    using split fields le_word_le_bytes [of 4 ip] by (simp add: text_pton4_def Let_def)
  moreover have "length (text_ntop4 ip) \<le> 3 * length ?ss + (length ?ss - 1)"
    unfolding text_ntop4_def
    using ne fields by (intro length_join_with) (auto simp: list_all_iff byte_field_def)
  moreover have "text_ntop4 ip \<noteq> []" 
  proof
    assume "text_ntop4 ip = []"
    then have "length ?ss = length [[] :: string]" using split by (metis split_on.simps(1))
    then show False by simp
  qed
  moreover have "\<forall>c \<in> set (text_ntop4 ip). ip_char c"
    unfolding text_ntop4_def by (auto dest!: set_join_with field_chars simp: ip_char_def)
  ultimately show ?thesis by (simp add: address_text_def INET6_ADDRSTRLEN_def)
qed

lemma concat_byte_pairs: "even (length bs) \<Longrightarrow> concat (map pair_bytes (byte_pairs bs)) = bs"
  by (induction bs rule: byte_pairs.induct)
    (auto simp: pair_bytes_def unat_u8_bound)

lemma length_byte_pairs: "even (length bs) \<Longrightarrow> length (byte_pairs bs) = length bs div 2"
  by (induction bs rule: byte_pairs.induct) auto

lemma byte_pairs_bound: "g \<in> set (byte_pairs bs) \<Longrightarrow> g < 16 ^ 4"
proof (induction bs rule: byte_pairs.induct)
  case (1 a b bs)
  then show ?case using unat_u8_bound [of a] unat_u8_bound [of b] by auto
qed auto

lemma text_inet_6:
  assumes "length ip = 16"
  shows "address_text (text_ntop6 ip) \<and> text_pton6 (text_ntop6 ip) = Some ip
    \<and> text_pton4 (text_ntop6 ip) = None"
proof -
  let ?gs = "byte_pairs ip"
  let ?ss = "map (print_base 16 digit_lower) ?gs"
  have len: "length ?ss = 8" using assms by (simp add: length_byte_pairs)
  then have ne: "?ss \<noteq> []" by fastforce
  have split: "split_on (CHR '':'') (text_ntop6 ip) = ?ss"
    unfolding text_ntop6_def using ne group_chars by (intro split_join_with) auto
  have short: "length (print_base 16 digit_lower g) \<le> 4" if "g \<in> set ?gs" for g
    using byte_pairs_bound [OF that] by (intro length_print_base) simp_all
  have fields: "list_all group_field ?ss"
    using short print_hex_digits by (auto simp: list_all_iff group_field_def)
  have "map (\<lambda>f. pair_bytes (read_base 16 f)) ?ss = map pair_bytes ?gs"
    by (simp add: o_def read_print_base)
  then have "concat (map (\<lambda>f. pair_bytes (read_base 16 f)) ?ss) = ip"
    using concat_byte_pairs [of ip] assms by (simp del: map_map)
  then have "text_pton6 (text_ntop6 ip) = Some ip"
    using fields len unfolding text_pton6_def Let_def split by (simp del: map_map)
  moreover have "length (text_ntop6 ip) \<le> 4 * length ?ss + (length ?ss - 1)"
    unfolding text_ntop6_def using ne short by (intro length_join_with) auto
  moreover have "text_ntop6 ip \<noteq> []" using split len by (cases "text_ntop6 ip") auto
  moreover have chars: "ip_char c \<and> c \<noteq> CHR ''.''" if "c \<in> set (text_ntop6 ip)" for c
    using that unfolding text_ntop6_def
    by (auto dest!: set_join_with group_chars simp: ip_char_def)
  moreover have "split_on (CHR ''.'') (text_ntop6 ip) = [text_ntop6 ip]"
    using chars by (intro split_on_none) blast
  ultimately show ?thesis
    using len by (simp add: address_text_def INET6_ADDRSTRLEN_def text_pton4_def)
qed

lemma text_inet_ok: "inet_lib_ok text_inet"
  using text_inet_4 text_inet_6 by (simp add: inet_lib_ok_def text_inet_def)

end
