(* ===== verification/SaiEnum.thy ===== *)
theory SaiEnum
  imports SaiScan
begin

text \<open>
  Enumerations, attribute ids and attributes of \<^verbatim>\<open>saiserialize.c\<close>. The metadata of an
  enumeration is the list of its (value, name) pairs (the parallel arrays \<^verbatim>\<open>values\<close> and
  \<^verbatim>\<open>valuesnames\<close> up to \<^verbatim>\<open>valuescount\<close>). Serializing writes the first name of the value, or
  the number when there is none; the theorem \<open>enum_codec\<close> gives the round trip for every
  well-formed metadata. \<^verbatim>\<open>sai_serialize_enum_list\<close> is modelled with its output pointer, because
  it forgets to advance it.
\<close>

record sai_enum_metadata =
  enum_name :: string
  enum_entries :: "(u32 \<times> string) list"
  enum_containsflags :: bool

fun find_value_name :: "(u32 \<times> string) list \<Rightarrow> u32 \<Rightarrow> string option" where
  "find_value_name [] value = None"
| "find_value_name ((v, n) # es) value = (if v = value then Some n else find_value_name es value)"

definition sai_serialize_enum :: "sai_enum_metadata option \<Rightarrow> u32 \<Rightarrow> string" where
  "sai_serialize_enum meta value =
     (case meta of
        None \<Rightarrow> sai_serialize_int32 value
      | Some m \<Rightarrow>
          (case find_value_name (enum_entries m) value of
             Some name \<Rightarrow> name
           | None \<Rightarrow> sai_serialize_int32 value))"

fun match_value_name :: "string \<Rightarrow> (u32 \<times> string) list \<Rightarrow> (nat \<times> u32) option" where
  "match_value_name buffer [] = None"
| "match_value_name buffer ((v, n) # es) =
     (let len = length n in
      if strncmp_eq n buffer len \<and> allowed (char_at buffer len)
      then Some (len, v) else match_value_name buffer es)"

definition sai_deserialize_enum ::
  "string \<Rightarrow> sai_enum_metadata option \<Rightarrow> (nat \<times> u32) option checked" where
  "sai_deserialize_enum buffer meta =
     (case meta of
        None \<Rightarrow> sai_deserialize_int32 buffer
      | Some m \<Rightarrow>
          (case match_value_name buffer (enum_entries m) of
             Some r \<Rightarrow> Inr (Some r)
           | None \<Rightarrow> sai_deserialize_int32 buffer))"

text \<open>
  Well-formed names: distinct, free of terminators, and not starting like a number (they are C
  identifiers).
\<close>

definition enum_names_ok :: "(u32 \<times> string) list \<Rightarrow> bool" where
  "enum_names_ok es \<longleftrightarrow> distinct (map snd es)
     \<and> (\<forall>(v, n) \<in> set es. n \<noteq> [] \<and> (\<forall>c \<in> set n. \<not> allowed c)
          \<and> \<not> isdigit (hd n) \<and> hd n \<noteq> CHR ''-'')"

lemma find_value_name_Some:
  "find_value_name es x = Some n \<Longrightarrow> (x, n) \<in> set es"
  by (induction es x rule: find_value_name.induct) (auto split: if_splits)

text \<open>
  A terminator-free text followed by a terminator is matched by a terminator-free name only if
  they are equal.
\<close>

lemma name_match_eq:
  assumes "strncmp_eq n (t @ rest) (length n)" and "allowed (char_at (t @ rest) (length n))"
    and "\<forall>c \<in> set n. \<not> allowed c" and "\<forall>c \<in> set t. \<not> allowed c"
    and "allowed (char_at rest 0)"
  shows "n = t"
proof -
  have pre: "n = take (length n) (t @ rest)"
    using assms(1) by (simp add: strncmp_eq_def)
  have "length t \<le> length n"
  proof (rule ccontr)
    assume "\<not> length t \<le> length n"
    then have "char_at (t @ rest) (length n) \<in> set t"
      by (simp add: char_at_append_left)
    then show False using assms(2,4) by blast
  qed
  moreover have "length n \<le> length t"
  proof (rule ccontr)
    assume long: "\<not> length n \<le> length t"
    then have "length n \<le> length (t @ rest)"
      using pre by (metis length_take min.absorb_iff2 min.commute)
    with long have "n ! length t = char_at rest 0" and "length t < length n"
      using pre by (cases rest; metis append_Nil2 le_refl char_at_Cons_0 nth_append_length nth_take not_le)+
    then show False using assms(3,5) nth_mem by metis
  qed
  ultimately show ?thesis using pre by simp
qed

lemma match_value_name_eq:
  assumes "enum_names_ok es" and "\<forall>c \<in> set t. \<not> allowed c" and "allowed (char_at rest 0)"
  shows "match_value_name (t @ rest) es =
    (case map_of (map (\<lambda>(v, n). (n, v)) es) t of None \<Rightarrow> None | Some v \<Rightarrow> Some (length t, v))"
  using assms(1)
proof (induction es)
  case Nil
  then show ?case by simp
next
  case (Cons e es)
  obtain v n where e: "e = (v, n)" by (cases e)
  have ok: "enum_names_ok es" and n: "\<forall>c \<in> set n. \<not> allowed c"
    using Cons.prems by (auto simp: enum_names_ok_def e)
  show ?case
  proof (cases "n = t")
    case True
    then show ?thesis using assms(3) by (simp add: e strncmp_eq_def)
  next
    case False
    then have "\<not> (strncmp_eq n (t @ rest) (length n) \<and> allowed (char_at (t @ rest) (length n)))"
      using name_match_eq [OF _ _ n assms(2,3)] by blast
    then show ?thesis using False Cons.IH [OF ok] by (auto simp: e Let_def)
  qed
qed

lemma print_signed_chars: "\<forall>c \<in> set (print_signed i). \<not> allowed c"
  using print_unsigned_digits allowed_not_digit
  by (auto simp: print_signed_def sai_serialize_is_char_allowed_def)

lemma print_signed_head: "isdigit (hd (print_signed i)) \<or> hd (print_signed i) = CHR ''-''"
  using print_unsigned_digits [of "nat i"] by (auto simp: print_signed_def)

lemma enum_codec:
  assumes ok: "enum_names_ok (enum_entries m)"
  shows "checked_codec (\<lambda>v. Some (sai_serialize_enum (Some m) v)) (\<lambda>b. sai_deserialize_enum b (Some m))
    (\<lambda>_. True) allowed"
proof unfold_locales
  fix x :: u32 and s rest
  assume s: "Some (sai_serialize_enum (Some m) x) = Some s" and stop: "allowed (char_at rest 0)"
  let ?inv = "map (\<lambda>(v, n). (n, v)) (enum_entries m)"
  have inv: "distinct (map fst ?inv)"
    using ok by (simp add: enum_names_ok_def o_def split_def)
  have swap: "(x, n) \<in> set (enum_entries m) \<Longrightarrow> (n, x) \<in> set ?inv" for n
    by force
  show "sai_deserialize_enum (s @ rest) (Some m) = Inr (Some (length s, x))"
  proof (cases "find_value_name (enum_entries m) x")
    case (Some n)
    then have mem: "(x, n) \<in> set (enum_entries m)" by (rule find_value_name_Some)
    then have "map_of ?inv n = Some x" using inv swap by (intro map_of_is_SomeI) simp_all
    moreover have "s = n" using s Some by (simp add: sai_serialize_enum_def)
    moreover have "\<forall>c \<in> set n. \<not> allowed c" using ok mem by (auto simp: enum_names_ok_def)
    ultimately show ?thesis
      using match_value_name_eq [OF ok _ stop, of n] by (simp add: sai_deserialize_enum_def)
  next
    case None
    then have s': "s = sai_serialize_int32 x" using s by (simp add: sai_serialize_enum_def)
    have "s \<notin> fst ` set ?inv"
      using ok print_signed_head [of "sint x"]
      by (auto simp: s' sai_serialize_int32_def enum_names_ok_def)
    then have "map_of ?inv s = None" by (simp add: map_of_eq_None_iff)
    then have "match_value_name (s @ rest) (enum_entries m) = None"
      using match_value_name_eq [OF ok _ stop, of s] print_signed_chars
      by (simp add: s' sai_serialize_int32_def)
    then show ?thesis
      using int32_codec.roundtrip [of x s rest] stop s' by (simp add: sai_deserialize_enum_def)
  qed
qed simp_all

interpretation enum_number_codec:
  checked_codec "\<lambda>v. Some (sai_serialize_enum None v)" "\<lambda>b. sai_deserialize_enum b None" "\<lambda>_. True" allowed
  by unfold_locales
    (auto simp: sai_serialize_enum_def sai_deserialize_enum_def intro: int32_codec.roundtrip)

section \<open>Enumeration lists\<close>

text \<open>
  The output pointer of the list serializer: the text before the pointer, and the string that
  starts at the pointer. \<^verbatim>\<open>buf += sprintf(buf, ...)\<close> is \<open>out_put\<close>; a call that writes at the
  pointer without advancing it is \<open>out_poke\<close>. What was poked is overwritten by the next write
  (the bytes that remain of it lie behind the next NUL).
\<close>

record out_buf =
  out_done :: string
  out_here :: string

definition out_start :: out_buf where
  "out_start = \<lparr>out_done = [], out_here = []\<rparr>"

definition out_put :: "string \<Rightarrow> out_buf \<Rightarrow> out_buf" where
  "out_put s b = b\<lparr>out_done := out_done b @ s, out_here := []\<rparr>"

definition out_poke :: "string \<Rightarrow> out_buf \<Rightarrow> out_buf" where
  "out_poke s b = b\<lparr>out_here := s\<rparr>"

definition out_text :: "out_buf \<Rightarrow> string" where
  "out_text b = out_done b @ out_here b"

fun enum_list_loop ::
  "sai_enum_metadata option \<Rightarrow> nat \<Rightarrow> u32 list \<Rightarrow> out_buf \<Rightarrow> out_buf" where
  "enum_list_loop meta idx [] buf = buf"
| "enum_list_loop meta idx (v # vs) buf =
     (let buf = (if idx \<noteq> 0 then out_put '','' buf else buf);
          buf = out_put [CHR 0x22] buf;
          buf = out_poke (sai_serialize_enum meta v) buf;
          buf = out_put [CHR 0x22] buf
      in enum_list_loop meta (Suc idx) vs buf)"

text \<open>
  A list is \<open>None\<close> when its pointer is NULL. \<open>ser_s32_list\<close> stands for
  \<^verbatim>\<open>sai_serialize_s32_list\<close>, which the build generates.
\<close>

definition sai_serialize_enum_list ::
  "(u32 list option \<Rightarrow> string option) \<Rightarrow> sai_enum_metadata option \<Rightarrow> u32 list option
     \<Rightarrow> string option" where
  "sai_serialize_enum_list ser_s32_list meta list =
     (if meta = None then ser_s32_list list
      else
        (let buf = out_put ''{'' out_start;
             buf = out_put (CHR 0x22 # ''count'' @ [CHR 0x22, CHR '':'']) buf;
             buf = (case list of
                      None \<Rightarrow> out_put ''null'' buf
                    | Some vs \<Rightarrow>
                        if vs = [] then out_put ''null'' buf
                        else out_put '']'' (enum_list_loop meta 0 vs (out_put ''['' buf)));
             buf = out_put ''}'' buf
         in Some (out_text buf)))"

definition sai_deserialize_enum_list ::
  "string \<Rightarrow> sai_enum_metadata option \<Rightarrow> (nat \<times> u32 list option) option" where
  "sai_deserialize_enum_list buffer meta = None"

lemma enum_list_loop_text:
  "out_here b = [] \<Longrightarrow>
   out_done (enum_list_loop meta idx vs b) =
     out_done b @ (if idx \<noteq> 0 \<and> vs \<noteq> [] then '','' else [])
       @ join_with (CHR '','') (replicate (length vs) [CHR 0x22, CHR 0x22])
   \<and> out_here (enum_list_loop meta idx vs b) = []"
proof (induction vs arbitrary: idx b)
  case Nil
  then show ?case by simp
next
  case (Cons v vs)
  let ?b = "out_put [CHR 0x22] (out_poke (sai_serialize_enum meta v)
      (out_put [CHR 0x22] (if idx \<noteq> 0 then out_put '','' b else b)))"
  have "out_here ?b = []" by (simp add: out_put_def)
  note IH = Cons.IH [OF this, of "Suc idx"]
  have "enum_list_loop meta idx (v # vs) b = enum_list_loop meta (Suc idx) vs ?b"
    by (simp add: Let_def)
  then show ?case
    using IH by (cases vs) (auto simp: out_put_def out_poke_def)
qed

text \<open>
  The names never reach the output: the text depends on the number of values only.
\<close>

lemma enum_list_text:
  assumes "vs \<noteq> []"
  shows "sai_serialize_enum_list g (Some m) (Some vs) =
    Some (''{'' @ CHR 0x22 # ''count'' @ [CHR 0x22, CHR '':''] @ ''[''
      @ join_with (CHR '','') (replicate (length vs) [CHR 0x22, CHR 0x22]) @ '']}'')"
  using assms enum_list_loop_text [of "out_put ''['' (out_put (CHR 0x22 # ''count'' @ [CHR 0x22, CHR '':''])
      (out_put ''{'' out_start))" "Some m" 0 vs]
  by (simp add: sai_serialize_enum_list_def Let_def out_put_def out_text_def out_start_def)

section \<open>Attributes\<close>

text \<open>
  The attribute metadata fields the serializers read; \<open>ser_value\<close> stands for the generated
  \<^verbatim>\<open>sai_serialize_attribute_value\<close>.
\<close>

definition sai_serialize_attr_id :: "string \<Rightarrow> string" where
  "sai_serialize_attr_id attridname = attridname"

definition sai_deserialize_attr_id :: "string \<Rightarrow> (nat \<times> u32) option" where
  "sai_deserialize_attr_id buffer = None"

definition sai_serialize_attribute :: "('v \<Rightarrow> string option) \<Rightarrow> string \<Rightarrow> 'v \<Rightarrow> string option" where
  "sai_serialize_attribute ser_value attridname value =
     (let buf = ''{'' @ CHR 0x22 # ''id'' @ [CHR 0x22, CHR '':''] @ [CHR 0x22]
            @ sai_serialize_attr_id attridname @ [CHR 0x22, CHR '','']
            @ CHR 0x22 # ''value'' @ [CHR 0x22, CHR '':''] in
      case ser_value value of
        None \<Rightarrow> None
      | Some s \<Rightarrow> Some (buf @ s @ ''}''))"

definition sai_deserialize_attribute :: "string \<Rightarrow> (nat \<times> u32) option" where
  "sai_deserialize_attribute buffer = None"

end
