(* ===== verification/SaiProperties.thy ===== *)
theory SaiProperties
  imports InetText SaiEnum
begin

text \<open>
  The properties of the serializers of \<^verbatim>\<open>saiserialize.c\<close>, with their witnesses: exact
  acceptance of the number parser, round trips of every primitive behind any terminator, the masks
  that have a length, addresses and prefixes over any conformant C library, and three behaviours
  that are not what the code means to do.
\<close>

section \<open>Numbers\<close>

text \<open>C18. \<open>sai_deserialize_uint64\<close> accepts exactly the texts that start with a non-empty run of
  decimal digits whose value fits 64 bits and which is followed by a terminator; it returns the
  length of the run and its value (no overflow, no silent truncation).\<close>

theorem uint64_parse_exact:
  "sai_deserialize_uint64 buffer = Some (n, v) \<longleftrightarrow>
     (\<exists>ds rest. buffer = ds @ rest \<and> n = length ds \<and> ds \<noteq> [] \<and> list_all isdigit ds
        \<and> allowed (char_at rest 0) \<and> read_base 10 ds = unat v)"
proof
  let ?ds = "takeWhile isdigit buffer" and ?rest = "dropWhile isdigit buffer"
  assume "sai_deserialize_uint64 buffer = Some (n, v)"
  then have r: "?ds \<noteq> []" "read_base 10 ?ds < 2 ^ 64" "allowed (char_at buffer (length ?ds))"
    "n = length ?ds" "v = of_nat (read_base 10 ?ds)"
    by (auto simp: deserialize_uint64_exact Let_def split: if_splits)
  have "char_at (?ds @ ?rest) (length ?ds) = char_at ?rest 0" by (rule char_at_append_right)
  then have "allowed (char_at ?rest 0)" using r(3) by simp
  moreover have "read_base 10 ?ds = unat v" using r(2,5) by (simp add: unat_of_nat_small)
  moreover have "list_all isdigit ?ds" by (auto simp: list_all_iff dest: set_takeWhileD)
  ultimately show "\<exists>ds rest. buffer = ds @ rest \<and> n = length ds \<and> ds \<noteq> [] \<and> list_all isdigit ds
        \<and> allowed (char_at rest 0) \<and> read_base 10 ds = unat v"
    using r(1,4) by (intro exI [of _ ?ds] exI [of _ ?rest]) simp
next
  assume "\<exists>ds rest. buffer = ds @ rest \<and> n = length ds \<and> ds \<noteq> [] \<and> list_all isdigit ds
        \<and> allowed (char_at rest 0) \<and> read_base 10 ds = unat v"
  then obtain ds rest where b: "buffer = ds @ rest" "n = length ds" "ds \<noteq> []" "list_all isdigit ds"
    "allowed (char_at rest 0)" "read_base 10 ds = unat v" by blast
  have "takeWhile isdigit buffer = ds"
    unfolding b(1) using b(4) allowed_not_digit [OF b(5)]
    by (intro takeWhile_append_stop) (simp_all add: list_all_iff)
  then show "sai_deserialize_uint64 buffer = Some (n, v)"
    using b unat_u64_bound [of v] by (simp add: deserialize_uint64_exact)
qed

text \<open>C19. What every integer serializer writes is read back by its deserializer, whatever text follows a
  terminator: every value of 8, 16, 32 and 64 bits unsigned, of 16 and 32 bits signed, and sizes;
  the signed 64-bit values except the least one, whose digits overflow when they are negated; and the
  signed 8-bit values where plain \<^verbatim>\<open>char\<close> is signed, while where it is unsigned (on the ARM images) the
  negative ones are refused.\<close>

theorem integer_round_trips:
  assumes "allowed (char_at rest 0)"
  shows "sai_deserialize_uint8 (sai_serialize_uint8 a @ rest) = Some (length (sai_serialize_uint8 a), a)
    \<and> sai_deserialize_uint16 (sai_serialize_uint16 b @ rest) = Some (length (sai_serialize_uint16 b), b)
    \<and> sai_deserialize_uint32 (sai_serialize_uint32 c @ rest) = Some (length (sai_serialize_uint32 c), c)
    \<and> sai_deserialize_uint64 (sai_serialize_uint64 d @ rest) = Some (length (sai_serialize_uint64 d), d)
    \<and> sai_deserialize_int8 char_signed (sai_serialize_int8 e @ rest)
        = Inr (if char_signed \<or> 0 \<le> sint e then Some (length (sai_serialize_int8 e), e) else None)
    \<and> sai_deserialize_int16 (sai_serialize_int16 f @ rest)
        = Inr (Some (length (sai_serialize_int16 f), f))
    \<and> sai_deserialize_int32 (sai_serialize_int32 g @ rest)
        = Inr (Some (length (sai_serialize_int32 g), g))
    \<and> sai_deserialize_int64 (sai_serialize_int64 h @ rest)
        = (if sint h = - (2 ^ 63) then Inl SignedOverflow
           else Inr (Some (length (sai_serialize_int64 h), h)))
    \<and> sai_deserialize_size (sai_serialize_size i @ rest) = Some (length (sai_serialize_size i), i)"
  using assms deserialize_int64_least [OF assms]
  by (simp add: uint8_codec.roundtrip uint16_codec.roundtrip uint32_codec.roundtrip
      uint64_codec.roundtrip deserialize_int8_print int16_codec.roundtrip int32_codec.roundtrip
      int64_codec.roundtrip size_codec.roundtrip sai_serialize_int64_def [of h])

theorem integer_round_trips_witness:
  "sai_deserialize_int8 True (sai_serialize_int8 (- 128) @ '','') =
     Inr (Some (length (sai_serialize_int8 (- 128)), - 128))
   \<and> sai_deserialize_int64 (sai_serialize_int64 9223372036854775808 @ '','') = Inl SignedOverflow"
proof -
  have "allowed (char_at '','' 0)" by (simp add: sai_serialize_is_char_allowed_def)
  from integer_round_trips [OF this, of 0 0 0 0 True "- 128" 0 0 9223372036854775808 0]
  show ?thesis by simp
qed

section \<open>Other primitives\<close>

text \<open>Booleans, MAC addresses of six bytes, object ids and pointers are read back as they were
  written, whatever text follows a terminator.\<close>

theorem scalar_round_trips:
  assumes "allowed (char_at rest 0)" and "length m = 6"
  shows "sai_deserialize_bool (sai_serialize_bool b @ rest) = Some (length (sai_serialize_bool b), b)
    \<and> sai_deserialize_mac (sai_serialize_mac m @ rest) = Some (length (sai_serialize_mac m), m)
    \<and> sai_deserialize_object_id (sai_serialize_object_id oid @ rest)
        = Some (length (sai_serialize_object_id oid), oid)
    \<and> sai_deserialize_pointer (sai_serialize_pointer p @ rest)
        = Some (length (sai_serialize_pointer p), p)"
  using assms by (simp add: bool_codec.roundtrip mac_codec.roundtrip object_id_codec.roundtrip
      pointer_codec.roundtrip)

theorem scalar_round_trips_witness:
  "sai_deserialize_mac (sai_serialize_mac [0, 17, 34, 51, 68, 255] @ ''}'') =
     Some (length (sai_serialize_mac [0, 17, 34, 51, 68, 255]), [0, 17, 34, 51, 68, 255])"
proof -
  have "allowed (char_at ''}'' 0)" by (simp add: sai_serialize_is_char_allowed_def)
  from scalar_round_trips [OF this, of "[0, 17, 34, 51, 68, 255]" True 0 0] show ?thesis by simp
qed

text \<open>A 32-byte character array of printable characters (without quote and backslash) padded
  with zeros is written as its characters and read back in front of a quote or the end of text.\<close>

theorem chardata_round_trip:
  assumes "chardata_ok data" and "chardata_stop (char_at rest 0)"
  shows "\<exists>s. sai_serialize_chardata data = Some s
    \<and> sai_deserialize_chardata (s @ rest) = Some (length s, data)"
  using chardata_codec.ser_total [OF assms(1)] chardata_codec.roundtrip [OF assms(1) _ assms(2)]
  by blast

theorem chardata_round_trip_witness:
  "\<exists>s. sai_serialize_chardata (''Ethernet0'' @ replicate 23 NUL) = Some s
    \<and> sai_deserialize_chardata (s @ [CHR 0x22]) = Some (length s, ''Ethernet0'' @ replicate 23 NUL)"
proof -
  have "chardata_ok (''Ethernet0'' @ replicate 23 NUL)" by code_simp
  moreover have "chardata_stop (char_at [CHR 0x22] 0)" by code_simp
  ultimately show ?thesis by (rule chardata_round_trip)
qed

text \<open>For metadata whose names are distinct identifiers, an enumeration value is read back from
  its text, whether it was written by name or, having no name, as a number.\<close>

theorem enum_round_trip:
  assumes "enum_names_ok (enum_entries m)" and "allowed (char_at rest 0)"
  shows "sai_deserialize_enum (sai_serialize_enum (Some m) v @ rest) (Some m)
    = Inr (Some (length (sai_serialize_enum (Some m) v), v))"
  using checked_codec.roundtrip [OF enum_codec [OF assms(1)] _ refl assms(2)] by simp

theorem enum_round_trip_witness:
  "sai_deserialize_enum
     (sai_serialize_enum (Some \<lparr>enum_name = ''mode'',
        enum_entries = [(0, ''MODE_A''), (1, ''MODE_AB'')], enum_containsflags = False\<rparr>) 1 @ ''}'')
     (Some \<lparr>enum_name = ''mode'',
        enum_entries = [(0, ''MODE_A''), (1, ''MODE_AB'')], enum_containsflags = False\<rparr>)
   = Inr (Some (7, 1))"
proof -
  let ?m = "\<lparr>enum_name = ''mode'', enum_entries = [(0, ''MODE_A''), (1, ''MODE_AB'')],
    enum_containsflags = False\<rparr>"
  have "enum_names_ok (enum_entries ?m)"
    by (simp add: enum_names_ok_def sai_serialize_is_char_allowed_def isdigit_def)
  moreover have "allowed (char_at ''}'' 0)" by (simp add: sai_serialize_is_char_allowed_def)
  ultimately have "sai_deserialize_enum (sai_serialize_enum (Some ?m) 1 @ ''}'') (Some ?m)
    = Inr (Some (length (sai_serialize_enum (Some ?m) 1), 1))"
    by (rule enum_round_trip)
  then show ?thesis by (simp add: sai_serialize_enum_def)
qed

section \<open>Addresses\<close>

text \<open>An IPv4 or IPv6 mask is written exactly when it has no holes (it is the mask of some
  length); the text is the length in decimal, and it is read back to the mask in front of any
  terminator.\<close>

theorem mask_lengths:
  assumes "length m6 = 16" and "allowed (char_at rest 0)"
  shows "(sai_serialize_ip4_mask m4 = Some s4 \<longleftrightarrow>
      (\<exists>k. k < 33 \<and> m4 = ip4_mask_of k \<and> s4 = print_unsigned k))
    \<and> (sai_serialize_ip6_mask m6 = Some s6 \<longleftrightarrow>
      (\<exists>k. k < 129 \<and> m6 = ip6_mask_of k \<and> s6 = print_unsigned k))
    \<and> (sai_serialize_ip4_mask m4 = Some s4 \<longrightarrow>
      sai_deserialize_ip4_mask (s4 @ rest) = Some (length s4, m4))
    \<and> (sai_serialize_ip6_mask m6 = Some s6 \<longrightarrow>
      sai_deserialize_ip6_mask (s6 @ rest) = Some (length s6, m6))"
proof -
  have "sai_serialize_ip4_mask m4 = Some s4 \<longleftrightarrow>
      (\<exists>k. k < 33 \<and> m4 = ip4_mask_of k \<and> s4 = print_unsigned k)"
    using serialize_ip4_mask_of serialize_ip4_mask_holes [of m4]
    by (force simp: ip4_mask_ok_def less_Suc_eq_le)
  moreover have "sai_serialize_ip6_mask m6 = Some s6 \<longleftrightarrow>
      (\<exists>k. k < 129 \<and> m6 = ip6_mask_of k \<and> s6 = print_unsigned k)"
    using serialize_ip6_mask_of serialize_ip6_mask_holes [of m6] assms(1)
    by (force simp: ip6_mask_ok_def less_Suc_eq_le)
  moreover have "ip4_mask_ok m4" if "sai_serialize_ip4_mask m4 = Some s4"
    using that serialize_ip4_mask_holes [of m4] by force
  moreover have "ip6_mask_ok m6" if "sai_serialize_ip6_mask m6 = Some s6"
    using that serialize_ip6_mask_holes [of m6] assms(1) by force
  ultimately show ?thesis
    using ip4_mask_codec.roundtrip [OF _ _ assms(2), of m4 s4]
      ip6_mask_codec.roundtrip [OF _ _ assms(2), of m6 s6] by blast
qed

theorem mask_lengths_witness:
  "sai_serialize_ip4_mask (ip4_mask_of 24) = Some ''24''
   \<and> sai_deserialize_ip4_mask ''24,'' = Some (2, ip4_mask_of 24)
   \<and> sai_serialize_ip4_mask 0x00FF00FF = None"
proof -
  have six: "length (replicate 16 (0 :: u8)) = 16" and stop: "allowed (char_at '','' 0)"
    by (simp_all add: sai_serialize_is_char_allowed_def)
  have text24: "print_unsigned 24 = ''24''" by code_simp
  note spec = mask_lengths [OF six stop]
  have ser: "sai_serialize_ip4_mask (ip4_mask_of 24) = Some ''24''"
    using spec [of "ip4_mask_of 24" "''24''" "[]"] text24 by force
  moreover have "sai_deserialize_ip4_mask ''24,'' = Some (2, ip4_mask_of 24)"
    using spec [of "ip4_mask_of 24" "''24''" "[]"] ser by simp
  moreover have "sai_serialize_ip4_mask 0x00FF00FF = None" by code_simp
  ultimately show ?thesis by blast
qed

text \<open>Over any C library whose \<^verbatim>\<open>inet_ntop\<close> and \<^verbatim>\<open>inet_pton\<close> are inverse and write only
  hexadecimal digits, colons and dots, an address of either family is read back from its text, in
  front of a terminator or a slash.\<close>

theorem ip_address_round_trip:
  assumes "inet_lib_ok lib" and "ip_address_ok a" and "ip_stop (char_at rest 0)"
  shows "\<exists>s. sai_serialize_ip_address lib a = Some s
    \<and> sai_deserialize_ip_address lib (s @ rest) = Some (length s, a)"
  using codec.ser_total [OF ip_address_codec [OF assms(1)] assms(2)]
    codec.roundtrip [OF ip_address_codec [OF assms(1)] assms(2) _ assms(3)] by blast

theorem ip_address_round_trip_witness:
  "\<exists>s. sai_serialize_ip_address text_inet (IpV4 0x0100A8C0) = Some s
    \<and> sai_deserialize_ip_address text_inet (s @ ''}'') = Some (length s, IpV4 0x0100A8C0)"
proof -
  have "ip_address_ok (IpV4 0x0100A8C0)" by (simp add: ip_address_ok_def)
  moreover have "ip_stop (char_at ''}'' 0)"
    by (simp add: ip_stop_def sai_serialize_is_char_allowed_def)
  ultimately show ?thesis by (rule ip_address_round_trip [OF text_inet_ok])
qed

text \<open>C36. Over any such C library, a prefix (an address of either family with a mask without holes)
  is read back from its text in front of any terminator: family, address and mask.\<close>

theorem ip_prefix_round_trip:
  assumes "inet_lib_ok lib" and "ip_prefix_ok p" and "allowed (char_at rest 0)"
  shows "\<exists>s. sai_serialize_ip_prefix lib p = Some s
    \<and> sai_deserialize_ip_prefix lib (s @ rest) = Some (length s, p)"
  using codec.ser_total [OF ip_prefix_codec [OF assms(1)] assms(2)]
    codec.roundtrip [OF ip_prefix_codec [OF assms(1)] assms(2) _ assms(3)] by blast

theorem ip_prefix_round_trip_witness:
  "\<exists>s. sai_serialize_ip_prefix text_inet (PrefixV6 (replicate 16 1) (ip6_mask_of 64)) = Some s
    \<and> sai_deserialize_ip_prefix text_inet (s @ '','')
        = Some (length s, PrefixV6 (replicate 16 1) (ip6_mask_of 64))"
proof -
  have "ip_prefix_ok (PrefixV6 (replicate 16 1) (ip6_mask_of 64))"
    by (auto simp: ip_prefix_ok_def ip6_mask_ok_def intro: exI [of _ 64])
  moreover have "allowed (char_at '','' 0)" by (simp add: sai_serialize_is_char_allowed_def)
  ultimately show ?thesis by (rule ip_prefix_round_trip [OF text_inet_ok])
qed

section \<open>Behaviours that are not meant\<close>

text \<open>With metadata, \<^verbatim>\<open>sai_serialize_enum_list\<close> never advances behind a name: two lists of the
  same length have the same text, whatever their values.\<close>

theorem enum_list_forgets_values:
  assumes "length vs = length ws"
  shows "sai_serialize_enum_list g (Some m) (Some vs) = sai_serialize_enum_list g (Some m) (Some ws)"
  using assms enum_list_text [of vs g m] enum_list_text [of ws g m]
  by (cases "ws = []"; cases "vs = []") simp_all

theorem enum_list_forgets_values_witness:
  "sai_serialize_enum_list (\<lambda>_. None) (Some \<lparr>enum_name = ''mode'',
       enum_entries = [(0, ''A''), (1, ''B'')], enum_containsflags = False\<rparr>) (Some [0, 1])
   = sai_serialize_enum_list (\<lambda>_. None) (Some \<lparr>enum_name = ''mode'',
       enum_entries = [(0, ''A''), (1, ''B'')], enum_containsflags = False\<rparr>) (Some [1, 0])"
  by (rule enum_list_forgets_values) simp

text \<open>The object id parser hands the digits to \<^verbatim>\<open>sscanf("%x")\<close>, which takes a sign: the text
  of an id that no serializer writes is accepted, as the two's complement of its digits.\<close>

theorem object_id_accepts_sign:
  "sai_deserialize_object_id ''oid:0x-1'' = Some (8, 0xFFFFFFFFFFFFFFFF)"
  by (rule deserialize_object_id_signed)

text \<open>Where \<^verbatim>\<open>unsigned long\<close> has 32 bits (armhf images), \<open>ULONG_MAX\<close> makes the parser of 64-bit
  numbers refuse every value from \<open>2 ^ 32\<close> on, although the type holds it.\<close>

theorem uint64_parse_32bit_platform:
  assumes "2 ^ 32 \<le> unat v"
  shows "deserialize_uint64_on 0xFFFFFFFF (sai_serialize_uint64 v) = None"
proof -
  have digits: "takeWhile isdigit (print_unsigned (unat v)) = print_unsigned (unat v)"
    using print_unsigned_digits by (simp add: takeWhile_eq_all_conv)
  show ?thesis
    unfolding deserialize_uint64_on_exact sai_serialize_uint64_def Let_def digits
    using assms by (simp add: read_print_unsigned)
qed

theorem uint64_parse_32bit_platform_witness:
  "deserialize_uint64_on 0xFFFFFFFF (sai_serialize_uint64 4294967296) = None"
  by (rule uint64_parse_32bit_platform) simp

end
