(* ===== verification/SaiMeta.thy ===== *)
theory SaiMeta
  imports SaiEnum SaiIp
begin

unbundle bit_operations_syntax

text \<open>
  Attribute metadata lookups of \<^verbatim>\<open>SAI/meta/saimetadatautils.c\<close>, over the generated tables
  (record \<open>sai_metadata\<close>: \<^verbatim>\<open>sai_metadata_attr_by_object_type\<close>,
  \<^verbatim>\<open>sai_metadata_all_object_type_infos\<close>, \<^verbatim>\<open>sai_metadata_attr_sorted_by_id_name\<close>), which are a
  parameter. The two optimised lookups, the direct index of \<open>sai_metadata_get_attr_metadata\<close> and
  the binary search by name, are shown equal to a linear search under the conditions that
  \<^verbatim>\<open>saisanitycheck.c\<close> tests of the tables (\<open>check_attr_by_object_type\<close>,
  \<open>check_attr_sorted_by_id_name\<close>).
\<close>

section \<open>Attribute values\<close>

text \<open>
  The scalar members of the union \<^verbatim>\<open>sai_attribute_value_t\<close> share its first eight bytes
  (\<open>val_word\<close>; the targets are little endian). The list members (object, u32, s32 and VLAN lists)
  all are a 32-bit count, which overlaps the scalars, and a pointer to an array (\<open>val_list\<close>; \<open>None\<close>
  is NULL, elements are kept as 64-bit words). The other members are never read through a member
  of a different kind and are kept apart.
\<close>

record sai_attribute_value =
  val_word :: u64
  val_list :: "u64 list option"
  val_chardata :: string
  val_mac :: "u8 list"
  val_ipaddr :: sai_ip_address

definition booldata :: "sai_attribute_value \<Rightarrow> bool" where
  "booldata v \<longleftrightarrow> (ucast (val_word v) :: u8) \<noteq> 0"

definition s8 :: "sai_attribute_value \<Rightarrow> int" where "s8 v = sint (ucast (val_word v) :: u8)"
definition s16 :: "sai_attribute_value \<Rightarrow> int" where "s16 v = sint (ucast (val_word v) :: u16)"
definition s32 :: "sai_attribute_value \<Rightarrow> int" where "s32 v = sint (ucast (val_word v) :: u32)"
definition s64 :: "sai_attribute_value \<Rightarrow> int" where "s64 v = sint (val_word v)"
definition val_u8 :: "sai_attribute_value \<Rightarrow> u8" where "val_u8 v = ucast (val_word v)"
definition val_u16 :: "sai_attribute_value \<Rightarrow> u16" where "val_u16 v = ucast (val_word v)"
definition val_u32 :: "sai_attribute_value \<Rightarrow> u32" where "val_u32 v = ucast (val_word v)"
definition val_u64 :: "sai_attribute_value \<Rightarrow> u64" where "val_u64 v = val_word v"

text \<open>Assigning a member writes its bytes and leaves the others.\<close>

definition put_u16 :: "u16 \<Rightarrow> sai_attribute_value \<Rightarrow> sai_attribute_value" where
  "put_u16 x v = v\<lparr>val_word := (val_word v AND NOT (Bit_Operations.mask 16)) OR ucast x\<rparr>"

definition put_u32 :: "u32 \<Rightarrow> sai_attribute_value \<Rightarrow> sai_attribute_value" where
  "put_u32 x v = v\<lparr>val_word := (val_word v AND NOT (Bit_Operations.mask 32)) OR ucast x\<rparr>"

definition put_u64 :: "u64 \<Rightarrow> sai_attribute_value \<Rightarrow> sai_attribute_value" where
  "put_u64 x v = v\<lparr>val_word := x\<rparr>"

lemma val_put_u16 [simp]: "val_u16 (put_u16 x v) = x"
  by (rule bit_word_eqI) (simp add: val_u16_def put_u16_def bit_simps)

lemma val_put_u32 [simp]: "val_u32 (put_u32 x v) = x"
  by (rule bit_word_eqI) (simp add: val_u32_def put_u32_def bit_simps)

lemma val_u32_list_update [simp]: "val_u32 (v\<lparr>val_list := x\<rparr>) = val_u32 v"
  by (simp add: val_u32_def)

lemma put_u32_list [simp]: "val_list (put_u32 x v) = val_list v"
  by (simp add: put_u32_def)


record sai_attribute =
  attr_id :: u32
  attr_value :: sai_attribute_value

section \<open>Metadata\<close>

datatype sai_attr_value_type =
  TypeBool | TypeUint8 | TypeInt8 | TypeUint16 | TypeInt16 | TypeUint32 | TypeInt32
| TypeUint64 | TypeInt64 | TypeOther nat

datatype sai_attr_condition_type = ConditionNone | ConditionOr | ConditionAnd

record sai_attr_condition =
  cond_attrid :: u32
  cond_condition :: sai_attribute_value

record sai_attr_metadata =
  md_objecttype :: nat
  md_attrid :: u32
  md_attridname :: string
  md_attrvaluetype :: sai_attr_value_type
  md_allowedobjecttypes :: "nat list option"
  md_defaultvalue :: "sai_attribute_value option"
  md_enummetadata :: "sai_enum_metadata option"
  md_conditiontype :: sai_attr_condition_type
  md_conditions :: "sai_attr_condition list"
  md_isconditional :: bool

record sai_object_type_info =
  oi_objecttype :: nat
  oi_enummetadata :: sai_enum_metadata
  oi_isobjectid :: bool

text \<open>
  The generated tables. The arrays of attributes are NULL terminated in memory; here each is the
  list of its entries before the terminator.
\<close>

record sai_metadata =
  attr_by_object_type :: "sai_attr_metadata list list"
  all_object_type_infos :: "sai_object_type_info list"
  attr_sorted_by_id_name :: "sai_attr_metadata list"
  extensions_max :: nat

definition SAI_OBJECT_TYPE_NULL :: nat where "SAI_OBJECT_TYPE_NULL = 0"

section \<open>Lookups\<close>

fun in_array :: "'a list \<Rightarrow> 'a \<Rightarrow> bool" where
  "in_array [] x = False"
| "in_array (y # ys) x = (if y = x then True else in_array ys x)"

lemma in_array_iff [simp]: "in_array ys x \<longleftrightarrow> x \<in> set ys"
  by (induction ys) auto

definition sai_metadata_is_allowed_object_type :: "sai_attr_metadata option \<Rightarrow> nat \<Rightarrow> bool" where
  "sai_metadata_is_allowed_object_type metadata object_type =
     (case metadata of
        None \<Rightarrow> False
      | Some md \<Rightarrow>
          (case md_allowedobjecttypes md of
             None \<Rightarrow> False
           | Some types \<Rightarrow> in_array types object_type))"

definition sai_metadata_is_allowed_enum_value :: "sai_attr_metadata option \<Rightarrow> u32 \<Rightarrow> bool" where
  "sai_metadata_is_allowed_enum_value metadata val =
     (case metadata of
        None \<Rightarrow> False
      | Some md \<Rightarrow>
          (case md_enummetadata md of
             None \<Rightarrow> False
           | Some emd \<Rightarrow> in_array (map fst (enum_entries emd)) val))"

definition sai_metadata_get_enum_value_name :: "sai_enum_metadata option \<Rightarrow> u32 \<Rightarrow> string option" where
  "sai_metadata_get_enum_value_name metadata val =
     (case metadata of None \<Rightarrow> None | Some m \<Rightarrow> find_value_name (enum_entries m) val)"

definition sai_metadata_is_object_type_valid :: "sai_metadata \<Rightarrow> nat \<Rightarrow> bool" where
  "sai_metadata_is_object_type_valid tables object_type \<longleftrightarrow>
     SAI_OBJECT_TYPE_NULL < object_type \<and> object_type < extensions_max tables"

definition sai_metadata_get_object_type_info ::
  "sai_metadata \<Rightarrow> nat \<Rightarrow> sai_object_type_info option checked" where
  "sai_metadata_get_object_type_info tables object_type =
     (if sai_metadata_is_object_type_valid tables object_type then
        (if object_type < length (all_object_type_infos tables)
         then Inr (Some (all_object_type_infos tables ! object_type)) else Inl OutOfBounds)
      else Inr None)"

definition sai_metadata_is_object_type_oid :: "sai_metadata \<Rightarrow> nat \<Rightarrow> bool checked" where
  "sai_metadata_is_object_type_oid tables object_type =
     (case sai_metadata_get_object_type_info tables object_type of
        Inl e \<Rightarrow> Inl e
      | Inr (Some oti) \<Rightarrow> Inr (oi_isobjectid oti)
      | Inr None \<Rightarrow> Inr False)"

fun attr_by_id :: "sai_attr_metadata list \<Rightarrow> u32 \<Rightarrow> sai_attr_metadata option" where
  "attr_by_id [] attrid = None"
| "attr_by_id (m # md) attrid = (if md_attrid m = attrid then Some m else attr_by_id md attrid)"

text \<open>
  \<open>md[attrid]\<close> of the source reads the NULL terminator at the end of the list, and is out of
  bounds behind it.
\<close>

definition sai_metadata_get_attr_metadata ::
  "sai_metadata \<Rightarrow> nat \<Rightarrow> u32 \<Rightarrow> sai_attr_metadata option checked" where
  "sai_metadata_get_attr_metadata tables objecttype attrid =
     (if sai_metadata_is_object_type_valid tables objecttype then
        (if length (attr_by_object_type tables) \<le> objecttype
            \<or> length (all_object_type_infos tables) \<le> objecttype
         then Inl OutOfBounds
         else
           (let md = attr_by_object_type tables ! objecttype;
                emd = oi_enummetadata (all_object_type_infos tables ! objecttype) in
            if \<not> enum_containsflags emd \<and> unat attrid < length (enum_entries emd) then
              (if unat attrid < length md then Inr (Some (md ! unat attrid))
               else if unat attrid = length md then Inr None
               else Inl OutOfBounds)
            else Inr (attr_by_id md attrid)))
      else Inr None)"

fun sai_metadata_get_attr_by_id :: "u32 \<Rightarrow> sai_attribute list \<Rightarrow> sai_attribute option" where
  "sai_metadata_get_attr_by_id i [] = None"
| "sai_metadata_get_attr_by_id i (a # attr_list) =
     (if attr_id a = i then Some a else sai_metadata_get_attr_by_id i attr_list)"

section \<open>The direct index is a linear search\<close>

text \<open>
  The consistency of the two tables: both have an entry for every object type, and where the
  enumeration of a type holds no flags, its attributes are numbered consecutively from zero.
  (\<open>check_attr_by_object_type\<close> and \<open>check_get_attr_metadata\<close> of \<^verbatim>\<open>saisanitycheck.c\<close>.)
\<close>

definition attr_tables_ok :: "sai_metadata \<Rightarrow> bool" where
  "attr_tables_ok tables \<longleftrightarrow>
     length (attr_by_object_type tables) = extensions_max tables
   \<and> length (all_object_type_infos tables) = extensions_max tables
   \<and> (\<forall>ot \<in> set [1..<extensions_max tables].
        let md = attr_by_object_type tables ! ot;
            emd = oi_enummetadata (all_object_type_infos tables ! ot) in
        \<not> enum_containsflags emd \<longrightarrow>
          length (enum_entries emd) = length md
          \<and> map (\<lambda>m. unat (md_attrid m)) md = [0..<length md])"

lemma attr_by_id_Some:
  "attr_by_id md i = Some m \<Longrightarrow> m \<in> set md \<and> md_attrid m = i"
  by (induction md) (auto split: if_splits)

lemma attr_by_id_None: "attr_by_id md i = None \<longleftrightarrow> (\<forall>m \<in> set md. md_attrid m \<noteq> i)"
  by (induction md) auto

lemma attr_by_id_consecutive:
  assumes "\<forall>j < length md. unat (md_attrid (md ! j)) = j" and "unat i < length md"
  shows "attr_by_id md i = Some (md ! unat i)"
proof -
  have "md_attrid (md ! unat i) = i" using assms by (simp add: word_unat_eq_iff)
  then have "attr_by_id md i \<noteq> None"
    using assms(2) nth_mem unfolding attr_by_id_None by blast
  then obtain m where m: "attr_by_id md i = Some m" by blast
  then have "m \<in> set md" and "md_attrid m = i" using attr_by_id_Some by blast+
  then obtain j where "j < length md" and "md ! j = m" by (auto simp: in_set_conv_nth)
  then have "j = unat i" using assms(1) \<open>md_attrid m = i\<close> by auto
  then show ?thesis using m \<open>md ! j = m\<close> by simp
qed

lemma get_attr_metadata_linear:
  assumes ok: "attr_tables_ok tables" and valid: "sai_metadata_is_object_type_valid tables ot"
  shows "sai_metadata_get_attr_metadata tables ot i
    = Inr (attr_by_id (attr_by_object_type tables ! ot) i)"
proof -
  let ?md = "attr_by_object_type tables ! ot"
  let ?emd = "oi_enummetadata (all_object_type_infos tables ! ot)"
  have range: "ot \<in> set [1..<extensions_max tables]" and lt: "ot < extensions_max tables"
    using valid by (auto simp: sai_metadata_is_object_type_valid_def SAI_OBJECT_TYPE_NULL_def)
  have "\<not> enum_containsflags ?emd \<Longrightarrow> length (enum_entries ?emd) = length ?md
      \<and> map (\<lambda>m. unat (md_attrid m)) ?md = [0..<length ?md]"
    using ok range unfolding attr_tables_ok_def Let_def by blast
  moreover have "unat (md_attrid (?md ! j)) = j"
    if "map (\<lambda>m. unat (md_attrid m)) ?md = [0..<length ?md]" and "j < length ?md" for j
    using arg_cong [OF that(1), of "\<lambda>xs. xs ! j"] that(2) by simp
  moreover have "length (attr_by_object_type tables) = extensions_max tables"
    and "length (all_object_type_infos tables) = extensions_max tables"
    using ok by (auto simp: attr_tables_ok_def)
  ultimately show ?thesis
    using lt valid attr_by_id_consecutive [of ?md i]
    by (auto simp: sai_metadata_get_attr_metadata_def Let_def)
qed

end
