(* ===== verification/SaiMetaSearch.thy ===== *)
theory SaiMetaSearch
  imports SaiMeta
begin

text \<open>
  The binary search by attribute name and the conditional attributes of
  \<^verbatim>\<open>saimetadatautils.c\<close>, and the sortedness test of \<^verbatim>\<open>saisanitycheck.c\<close> that the search relies
  on. The search compares with \<^verbatim>\<open>strcmp\<close>, whose order is shown total here.
\<close>

section \<open>The order of strcmp\<close>

lemma strcmp_eq_0 [simp]: "strcmp a b = 0 \<longleftrightarrow> a = b"
  by (induction a b rule: strcmp.induct) (auto dest: order_antisym simp: not_less)

lemma strcmp_refl [simp]: "strcmp a a = 0"
  by (simp only: strcmp_eq_0)

lemma strcmp_swap: "strcmp b a = - strcmp a b"
  by (induction a b rule: strcmp.induct) auto

lemma strcmp_pos_iff: "0 < strcmp a b \<longleftrightarrow> strcmp b a < 0"
  using strcmp_swap [of b a] by simp

lemma strcmp_trans: "strcmp a b < 0 \<Longrightarrow> strcmp b c < 0 \<Longrightarrow> strcmp a c < 0"
proof (induction a b arbitrary: c rule: strcmp.induct)
  case (2 b bs)
  then show ?case by (cases c) auto
next
  case (4 x xs y ys)
  then obtain z zs where c: "c = z # zs" by (cases c) auto
  consider "(of_char x :: nat) < of_char y" | "(of_char y :: nat) < of_char x"
    | "(of_char x :: nat) = of_char y" by linarith
  then show ?case
    using 4 unfolding c by cases (simp_all del: of_char_eq_iff split: if_splits)
qed auto

section \<open>Binary search\<close>

function attr_name_search ::
  "sai_attr_metadata list \<Rightarrow> string \<Rightarrow> int \<Rightarrow> int \<Rightarrow> sai_attr_metadata option" where
  "attr_name_search table attr_id_name first final =
     (if first \<le> final then
        (let middle = (first + final) div 2;
             res = strcmp attr_id_name (md_attridname (table ! nat middle)) in
         if 0 < res then attr_name_search table attr_id_name (middle + 1) final
         else if res < 0 then attr_name_search table attr_id_name first (middle - 1)
         else Some (table ! nat middle))
      else None)"
  by pat_completeness auto
termination
  by (relation "measure (\<lambda>(table, name, first, final). nat (final - first + 1))") auto

declare attr_name_search.simps [simp del]

definition sai_metadata_get_attr_metadata_by_attr_id_name ::
  "sai_metadata \<Rightarrow> string option \<Rightarrow> sai_attr_metadata option" where
  "sai_metadata_get_attr_metadata_by_attr_id_name tables attr_id_name =
     (case attr_id_name of
        None \<Rightarrow> None
      | Some name \<Rightarrow>
          attr_name_search (attr_sorted_by_id_name tables) name 0
            (int (length (attr_sorted_by_id_name tables)) - 1))"

text \<open>The loop of \<^verbatim>\<open>check_attr_sorted_by_id_name\<close>: strictly ascending names, all with the prefix.\<close>

fun check_sorted_loop :: "string \<Rightarrow> sai_attr_metadata list \<Rightarrow> bool" where
  "check_sorted_loop before [] = True"
| "check_sorted_loop before (am # table) =
     (let name = md_attridname am in
      if 0 \<le> strcmp before name then False
      else if \<not> strncmp_eq name ''SAI_'' 4 then False
      else check_sorted_loop name table)"

definition search_finds :: "sai_metadata \<Rightarrow> sai_attr_metadata \<Rightarrow> bool" where
  "search_finds tables am =
     (case sai_metadata_get_attr_metadata_by_attr_id_name tables (Some (md_attridname am)) of
        None \<Rightarrow> False
      | Some found \<Rightarrow> md_attridname found = md_attridname am)"

definition check_attr_sorted_by_id_name :: "sai_metadata \<Rightarrow> bool" where
  "check_attr_sorted_by_id_name tables \<longleftrightarrow>
     800 < length (attr_sorted_by_id_name tables)
   \<and> check_sorted_loop ''AAA'' (attr_sorted_by_id_name tables)
   \<and> list_all (search_finds tables) (attr_sorted_by_id_name tables)
   \<and> list_all (\<lambda>probe. sai_metadata_get_attr_metadata_by_attr_id_name tables probe = None)
       [None, Some ''AAA'', Some ''SAI_B'', Some ''SAI_P'', Some ''SAI_W'', Some ''ZZZ'']"

lemma check_sorted_loop_before:
  "check_sorted_loop before table \<Longrightarrow> m \<in> set table \<Longrightarrow> strcmp before (md_attridname m) < 0"
proof (induction before table rule: check_sorted_loop.induct)
  case (2 before am table)
  then show ?case
    using strcmp_trans [of before "md_attridname am" "md_attridname m"]
    by (auto simp: Let_def not_le split: if_splits)
qed simp

definition names_sorted :: "sai_attr_metadata list \<Rightarrow> bool" where
  "names_sorted table \<longleftrightarrow>
     sorted_wrt (\<lambda>a b. strcmp (md_attridname a) (md_attridname b) < 0) table"

lemma check_sorted_loop_sorted: "check_sorted_loop before table \<Longrightarrow> names_sorted table"
proof (induction before table rule: check_sorted_loop.induct)
  case (2 before am table)
  then show ?case
    using check_sorted_loop_before [of "md_attridname am" table]
    by (auto simp: Let_def names_sorted_def split: if_splits)
qed (simp add: names_sorted_def)

lemma names_sortedD:
  "names_sorted table \<Longrightarrow> i < j \<Longrightarrow> j < length table \<Longrightarrow>
   strcmp (md_attridname (table ! i)) (md_attridname (table ! j)) < 0"
  by (simp add: names_sorted_def sorted_wrt_iff_nth_less)

fun attr_by_name :: "sai_attr_metadata list \<Rightarrow> string \<Rightarrow> sai_attr_metadata option" where
  "attr_by_name [] name = None"
| "attr_by_name (m # table) name = (if md_attridname m = name then Some m else attr_by_name table name)"

lemma attr_by_name_None: "attr_by_name table name = None \<longleftrightarrow> (\<forall>m \<in> set table. md_attridname m \<noteq> name)"
  by (induction table) auto

lemma attr_by_name_nth:
  "names_sorted table \<Longrightarrow> i < length table \<Longrightarrow>
   attr_by_name table (md_attridname (table ! i)) = Some (table ! i)"
proof (induction table arbitrary: i)
  case (Cons m table)
  show ?case
  proof (cases i)
    case (Suc j)
    then have "strcmp (md_attridname m) (md_attridname (table ! j)) < 0"
      using Cons.prems by (simp add: names_sorted_def)
    then have "md_attridname m \<noteq> md_attridname (table ! j)" by auto
    then show ?thesis using Cons Suc by (simp add: names_sorted_def)
  qed simp
qed simp

lemma attr_name_search_linear:
  assumes sorted: "names_sorted table"
    and "0 \<le> first" and "final < int (length table)"
    and "\<forall>i < nat first. strcmp (md_attridname (table ! i)) name < 0"
    and "\<forall>i. final < int i \<and> i < length table \<longrightarrow> strcmp name (md_attridname (table ! i)) < 0"
  shows "attr_name_search table name first final = attr_by_name table name"
  using assms
proof (induction table name first final rule: attr_name_search.induct)
  case (1 table name first final)
  show ?case
  proof (cases "first \<le> final")
    case True
    define middle where "middle = (first + final) div 2"
    have m: "first \<le> middle" "middle \<le> final" using True by (auto simp: middle_def)
    note sorted = "1.prems"(1)
    have lt: "nat middle < length table" using m "1.prems"(2,3) by simp
    let ?n = "md_attridname (table ! nat middle)"
    have unfold: "attr_name_search table name first final =
        (if 0 < strcmp name ?n then attr_name_search table name (middle + 1) final
         else if strcmp name ?n < 0 then attr_name_search table name first (middle - 1)
         else Some (table ! nat middle))"
      using True by (subst attr_name_search.simps) (simp add: Let_def middle_def)
    consider (right) "0 < strcmp name ?n" | (left) "strcmp name ?n < 0" | (hit) "name = ?n"
      using strcmp_eq_0 [of name ?n] by linarith
    then show ?thesis
    proof cases
      case right
      have "strcmp (md_attridname (table ! i)) name < 0" if "i < nat (middle + 1)" for i
        using that right names_sortedD [OF sorted _ lt, of i] strcmp_pos_iff [of name ?n]
          strcmp_trans [of "md_attridname (table ! i)" ?n name] m(1) "1.prems"(2)
        by (cases "i = nat middle") simp_all
      then show ?thesis
        using "1.IH"(1) [OF True middle_def refl] right unfold m "1.prems" by simp
    next
      case left
      then have step: "attr_name_search table name first final =
          attr_name_search table name first (middle - 1)"
        using unfold by simp
      have "strcmp name (md_attridname (table ! i)) < 0"
        if "middle - 1 < int i" and "i < length table" for i
        using that left names_sortedD [OF sorted, of "nat middle" i]
          strcmp_trans [of name ?n "md_attridname (table ! i)"] m(1) "1.prems"(2)
        by (cases "i = nat middle") simp_all
      then show ?thesis
        using "1.IH"(2) [OF True middle_def refl] left m "1.prems" unfolding step by simp
    next
      case hit
      then show ?thesis using unfold attr_by_name_nth [OF sorted lt] by simp
    qed
  next
    case False
    have "md_attridname (table ! i) \<noteq> name" if "i < length table" for i
    proof
      assume eq: "md_attridname (table ! i) = name"
      show False
      proof (cases "i < nat first")
        case True
        then show ?thesis using "1.prems"(4) eq by auto
      next
        case False
        then have "final < int i" using \<open>\<not> first \<le> final\<close> by linarith
        then have "strcmp name (md_attridname (table ! i)) < 0" using "1.prems"(5) that by blast
        then show ?thesis using eq by simp
      qed
    qed
    then have "attr_by_name table name = None"
      unfolding attr_by_name_None by (metis in_set_conv_nth)
    with False show ?thesis by (subst attr_name_search.simps) simp
  qed
qed

lemma search_by_name_linear:
  "names_sorted (attr_sorted_by_id_name tables) \<Longrightarrow>
   sai_metadata_get_attr_metadata_by_attr_id_name tables (Some name)
     = attr_by_name (attr_sorted_by_id_name tables) name"
  by (simp add: sai_metadata_get_attr_metadata_by_attr_id_name_def attr_name_search_linear)

section \<open>Conditional attributes\<close>

text \<open>
  \<open>None\<close> is the unsupported value type, on which the source logs an error and returns false.
\<close>

definition condition_equal ::
  "sai_attr_value_type \<Rightarrow> sai_attribute_value \<Rightarrow> sai_attribute_value \<Rightarrow> bool option" where
  "condition_equal vt condition cvalue =
     (case vt of
        TypeBool \<Rightarrow> Some (booldata condition = booldata cvalue)
      | TypeInt8 \<Rightarrow> Some (s8 condition = s8 cvalue)
      | TypeInt16 \<Rightarrow> Some (s16 condition = s16 cvalue)
      | TypeInt32 \<Rightarrow> Some (s32 condition = s32 cvalue)
      | TypeInt64 \<Rightarrow> Some (s64 condition = s64 cvalue)
      | TypeUint8 \<Rightarrow> Some (val_u8 condition = val_u8 cvalue)
      | TypeUint16 \<Rightarrow> Some (val_u16 condition = val_u16 cvalue)
      | TypeUint32 \<Rightarrow> Some (val_u32 condition = val_u32 cvalue)
      | TypeUint64 \<Rightarrow> Some (val_u64 condition = val_u64 cvalue)
      | TypeOther t \<Rightarrow> None)"

text \<open>
  The value a condition looks at: the attribute the caller passed, or the default value of its
  metadata (whose pointer \<open>cmd\<close> the source does not test).
\<close>

definition condition_value ::
  "sai_attr_metadata option \<Rightarrow> sai_attribute option \<Rightarrow> sai_attribute_value option checked" where
  "condition_value cmd cattr =
     (case cattr of
        None \<Rightarrow> (case cmd of None \<Rightarrow> Inl NullDeref | Some c \<Rightarrow> Inr (md_defaultvalue c))
      | Some a \<Rightarrow> Inr (Some (attr_value a)))"

fun condition_loop ::
  "sai_metadata \<Rightarrow> sai_attr_metadata \<Rightarrow> sai_attribute list \<Rightarrow> sai_attr_condition list \<Rightarrow> bool
     \<Rightarrow> bool checked" where
  "condition_loop tables metadata attr_list [] met = Inr met"
| "condition_loop tables metadata attr_list (condition # conditions) met =
     (case sai_metadata_get_attr_metadata tables (md_objecttype metadata) (cond_attrid condition) of
        Inl e \<Rightarrow> Inl e
      | Inr cmd \<Rightarrow>
          (case condition_value cmd
                  (sai_metadata_get_attr_by_id (cond_attrid condition) attr_list) of
             Inl e \<Rightarrow> Inl e
           | Inr None \<Rightarrow>
               if md_conditiontype metadata = ConditionAnd then Inr False
               else condition_loop tables metadata attr_list conditions met
           | Inr (Some cvalue) \<Rightarrow>
               (case cmd of
                  None \<Rightarrow> Inl NullDeref
                | Some c \<Rightarrow>
                    (case condition_equal (md_attrvaluetype c) (cond_condition condition) cvalue of
                       None \<Rightarrow> Inr False
                     | Some current \<Rightarrow>
                         condition_loop tables metadata attr_list conditions
                           (if md_conditiontype metadata = ConditionAnd then met \<and> current
                            else met \<or> current)))))"

definition sai_metadata_is_condition_met ::
  "sai_metadata \<Rightarrow> sai_attr_metadata option \<Rightarrow> sai_attribute list option \<Rightarrow> bool checked" where
  "sai_metadata_is_condition_met tables metadata attr_list =
     (case (metadata, attr_list) of
        (Some md, Some attrs) \<Rightarrow>
          if \<not> md_isconditional md then Inr False
          else condition_loop tables md attrs (md_conditions md)
                 (md_conditiontype md = ConditionAnd)
      | _ \<Rightarrow> Inr False)"

text \<open>
  What the loop computes: \<open>condition_holds\<close> is the meaning of one condition, over the linear
  lookup of the metadata.
\<close>

definition condition_holds ::
  "sai_metadata \<Rightarrow> nat \<Rightarrow> sai_attribute list \<Rightarrow> sai_attr_condition \<Rightarrow> bool" where
  "condition_holds tables ot attrs condition =
     (case attr_by_id (attr_by_object_type tables ! ot) (cond_attrid condition) of
        None \<Rightarrow> False
      | Some c \<Rightarrow>
          (case (case sai_metadata_get_attr_by_id (cond_attrid condition) attrs of
                   None \<Rightarrow> md_defaultvalue c | Some a \<Rightarrow> Some (attr_value a)) of
             None \<Rightarrow> False
           | Some cvalue \<Rightarrow>
               condition_equal (md_attrvaluetype c) (cond_condition condition) cvalue = Some True))"

text \<open>
  The condition names an attribute of the object type whose value type is a supported scalar
  (\<^verbatim>\<open>check_attr_conditions\<close> of \<^verbatim>\<open>saisanitycheck.c\<close>).
\<close>

definition supported_type :: "sai_attr_value_type \<Rightarrow> bool" where
  "supported_type vt = (case vt of TypeOther t \<Rightarrow> False | _ \<Rightarrow> True)"

definition condition_known :: "sai_metadata \<Rightarrow> nat \<Rightarrow> sai_attr_condition \<Rightarrow> bool" where
  "condition_known tables ot condition =
     (case attr_by_id (attr_by_object_type tables ! ot) (cond_attrid condition) of
        None \<Rightarrow> False
      | Some c \<Rightarrow> supported_type (md_attrvaluetype c))"

lemma condition_equal_supported:
  "supported_type vt \<Longrightarrow> \<exists>b. condition_equal vt x y = Some b"
  by (cases vt) (simp_all add: supported_type_def condition_equal_def)

lemma condition_loop_spec:
  assumes "attr_tables_ok tables"
    and "sai_metadata_is_object_type_valid tables (md_objecttype md)"
    and "list_all (condition_known tables (md_objecttype md)) cs"
  shows "condition_loop tables md attrs cs met = Inr
    (if md_conditiontype md = ConditionAnd
     then met \<and> list_all (condition_holds tables (md_objecttype md) attrs) cs
     else met \<or> list_ex (condition_holds tables (md_objecttype md) attrs) cs)"
  using assms(3)
proof (induction cs arbitrary: met)
  case Nil
  then show ?case by simp
next
  case (Cons c cs)
  note lookup = get_attr_metadata_linear [OF assms(1,2), of "cond_attrid c"]
  obtain cmd where cmd: "attr_by_id (attr_by_object_type tables ! md_objecttype md) (cond_attrid c)
      = Some cmd" and sup: "supported_type (md_attrvaluetype cmd)"
    using Cons.prems by (auto simp: condition_known_def split: option.splits)
  define v where "v = (case sai_metadata_get_attr_by_id (cond_attrid c) attrs of
                   None \<Rightarrow> md_defaultvalue cmd | Some a \<Rightarrow> Some (attr_value a))"
  have val: "condition_value (Some cmd) (sai_metadata_get_attr_by_id (cond_attrid c) attrs) = Inr v"
    by (simp add: condition_value_def v_def split: option.splits)
  have holds: "condition_holds tables (md_objecttype md) attrs c =
      (case v of None \<Rightarrow> False | Some cvalue \<Rightarrow>
         condition_equal (md_attrvaluetype cmd) (cond_condition c) cvalue = Some True)"
    unfolding condition_holds_def cmd v_def by simp
  show ?case
  proof (cases v)
    case None
    then show ?thesis using Cons lookup cmd val holds by simp
  next
    case (Some cvalue)
    obtain b where "condition_equal (md_attrvaluetype cmd) (cond_condition c) cvalue = Some b"
      using condition_equal_supported [OF sup] by blast
    then show ?thesis using Some Cons lookup cmd val holds by simp
  qed
qed

section \<open>Properties\<close>

text \<open>Tables of two object types for the witnesses.\<close>

definition sample_attr :: "nat \<Rightarrow> u32 \<Rightarrow> string \<Rightarrow> sai_attr_metadata" where
  "sample_attr ot i name = \<lparr>md_objecttype = ot, md_attrid = i, md_attridname = name,
     md_attrvaluetype = TypeUint32, md_allowedobjecttypes = None, md_defaultvalue = None,
     md_enummetadata = None, md_conditiontype = ConditionAnd, md_conditions = [],
     md_isconditional = False\<rparr>"

definition sample_value :: "u64 \<Rightarrow> sai_attribute_value" where
  "sample_value w = \<lparr>val_word = w, val_list = None, val_chardata = [], val_mac = [],
     val_ipaddr = IpFamily 0\<rparr>"

definition sample_tables :: sai_metadata where
  "sample_tables =
     \<lparr>attr_by_object_type = [[], [sample_attr 1 0 ''SAI_A'', sample_attr 1 1 ''SAI_B'']],
      all_object_type_infos =
        [\<lparr>oi_objecttype = 0, oi_enummetadata = \<lparr>enum_name = [], enum_entries = [],
            enum_containsflags = False\<rparr>, oi_isobjectid = False\<rparr>,
         \<lparr>oi_objecttype = 1, oi_enummetadata = \<lparr>enum_name = ''a'',
            enum_entries = [(0, ''SAI_A''), (1, ''SAI_B'')], enum_containsflags = False\<rparr>,
            oi_isobjectid = True\<rparr>],
      attr_sorted_by_id_name = [sample_attr 1 0 ''SAI_A'', sample_attr 1 1 ''SAI_B''],
      extensions_max = 2\<rparr>"

lemma sample_tables_ok: "attr_tables_ok sample_tables"
  by code_simp

lemma sample_valid: "sai_metadata_is_object_type_valid sample_tables 1"
  by code_simp

text \<open>C16. For consistent tables, looking an attribute up by a direct index when the enumeration of
  the object type has no flags gives what a search of the attributes of the type gives, for every
  attribute id; no lookup reads out of bounds.\<close>

theorem attr_lookup_is_search:
  assumes "attr_tables_ok tables" and "sai_metadata_is_object_type_valid tables ot"
  shows "sai_metadata_get_attr_metadata tables ot attrid
    = Inr (find (\<lambda>m. md_attrid m = attrid) (attr_by_object_type tables ! ot))"
proof -
  have "attr_by_id md attrid = find (\<lambda>m. md_attrid m = attrid) md" for md
    by (induction md) auto
  then show ?thesis using get_attr_metadata_linear [OF assms] by simp
qed

theorem attr_lookup_is_search_witness:
  "sai_metadata_get_attr_metadata sample_tables 1 1 = Inr (Some (sample_attr 1 1 ''SAI_B''))
   \<and> sai_metadata_get_attr_metadata sample_tables 1 7 = Inr None"
  unfolding attr_lookup_is_search [OF sample_tables_ok sample_valid]
  by (simp add: sample_tables_def sample_attr_def)

text \<open>C17. When the table of names passes the loop of \<^verbatim>\<open>check_attr_sorted_by_id_name\<close>, the binary
  search finds an entry exactly when one has the given name, and then it is that entry; the search
  of every name of the table succeeds, and names outside the table are not found.\<close>

theorem name_search_exact:
  assumes "check_sorted_loop ''AAA'' (attr_sorted_by_id_name tables)"
  shows "sai_metadata_get_attr_metadata_by_attr_id_name tables (Some name) = Some m \<longleftrightarrow>
    m \<in> set (attr_sorted_by_id_name tables) \<and> md_attridname m = name"
proof -
  let ?t = "attr_sorted_by_id_name tables"
  have sorted: "names_sorted ?t" using check_sorted_loop_sorted [OF assms] .
  have "attr_by_name ?t name = Some m" if "m \<in> set ?t" "md_attridname m = name"
    using attr_by_name_nth [OF sorted] that by (auto simp: in_set_conv_nth)
  moreover have "attr_by_name t name = Some m \<Longrightarrow> m \<in> set t \<and> md_attridname m = name" for t
    by (induction t) (auto split: if_splits)
  ultimately show ?thesis using search_by_name_linear [OF sorted] by auto
qed

theorem name_search_exact_witness:
  "sai_metadata_get_attr_metadata_by_attr_id_name sample_tables (Some ''SAI_B'')
     = Some (sample_attr 1 1 ''SAI_B'')"
proof -
  have "check_sorted_loop ''AAA'' (attr_sorted_by_id_name sample_tables)" by code_simp
  from name_search_exact [OF this, of "''SAI_B''" "sample_attr 1 1 ''SAI_B''"] show ?thesis
    by (simp add: sample_tables_def) (simp add: sample_attr_def)
qed

text \<open>C15. For consistent tables and conditions on known attributes of a supported type, a
  conditional attribute is met exactly when all (AND) or some (otherwise) of its conditions hold:
  the attribute the caller passed, or else its default value, equals the value of the condition.\<close>

theorem condition_met_meaning:
  assumes "attr_tables_ok tables"
    and "sai_metadata_is_object_type_valid tables (md_objecttype md)"
    and "list_all (condition_known tables (md_objecttype md)) (md_conditions md)"
    and "md_isconditional md"
  shows "sai_metadata_is_condition_met tables (Some md) (Some attrs) = Inr
    (if md_conditiontype md = ConditionAnd
     then list_all (condition_holds tables (md_objecttype md) attrs) (md_conditions md)
     else list_ex (condition_holds tables (md_objecttype md) attrs) (md_conditions md))"
  using condition_loop_spec [OF assms(1-3)] assms(4)
  by (simp add: sai_metadata_is_condition_met_def)

theorem condition_met_meaning_witness:
  "sai_metadata_is_condition_met sample_tables
     (Some ((sample_attr 1 0 ''SAI_A'')\<lparr>md_isconditional := True,
        md_conditions := [\<lparr>cond_attrid = 1, cond_condition = sample_value 5\<rparr>]\<rparr>))
     (Some [\<lparr>attr_id = 1, attr_value = sample_value 5\<rparr>]) = Inr True"
proof -
  let ?md = "(sample_attr 1 0 ''SAI_A'')\<lparr>md_isconditional := True,
        md_conditions := [\<lparr>cond_attrid = 1, cond_condition = sample_value 5\<rparr>]\<rparr>"
  let ?attrs = "[\<lparr>attr_id = 1, attr_value = sample_value 5\<rparr>]"
  have "sai_metadata_is_object_type_valid sample_tables (md_objecttype ?md)" by code_simp
  moreover have "list_all (condition_known sample_tables (md_objecttype ?md)) (md_conditions ?md)"
    by code_simp
  moreover have "md_isconditional ?md" by simp
  ultimately have "sai_metadata_is_condition_met sample_tables (Some ?md) (Some ?attrs) = Inr
    (if md_conditiontype ?md = ConditionAnd
     then list_all (condition_holds sample_tables (md_objecttype ?md) ?attrs) (md_conditions ?md)
     else list_ex (condition_holds sample_tables (md_objecttype ?md) ?attrs) (md_conditions ?md))"
    by (rule condition_met_meaning [OF sample_tables_ok])
  moreover have "list_all (condition_holds sample_tables (md_objecttype ?md) ?attrs) (md_conditions ?md)"
    by code_simp
  moreover have "md_conditiontype ?md = ConditionAnd" by (simp add: sample_attr_def)
  ultimately show ?thesis by simp
qed

end
