(* ===== verification/StubObject.thy ===== *)
theory StubObject
  imports SaiMeta
begin

text \<open>
  Status codes (\<^verbatim>\<open>inc/saistatus.h\<close>), object ids and list values of the stub implementation of SAI
  (\<^verbatim>\<open>stub/src/stub_sai_utils.c\<close>). A status is the integer the code returns (\<^verbatim>\<open>SAI_STATUS_CODE\<close>
  negates it on Linux); an operation with out parameters returns either an error status (\<open>Inl\<close>) or
  the values it leaves there on success (\<open>Inr\<close>). Out parameters are addresses of locals at every
  call, so the tests of them against NULL have no counterpart.
\<close>

unbundle bit_operations_syntax

section \<open>Status codes\<close>

type_synonym sai_status = int

definition SAI_STATUS_SUCCESS :: sai_status where "SAI_STATUS_SUCCESS = 0"
definition SAI_STATUS_FAILURE :: sai_status where "SAI_STATUS_FAILURE = - 1"
definition SAI_STATUS_NO_MEMORY :: sai_status where "SAI_STATUS_NO_MEMORY = - 3"
definition SAI_STATUS_INVALID_PARAMETER :: sai_status where "SAI_STATUS_INVALID_PARAMETER = - 5"
definition SAI_STATUS_ITEM_ALREADY_EXISTS :: sai_status where "SAI_STATUS_ITEM_ALREADY_EXISTS = - 6"
definition SAI_STATUS_ITEM_NOT_FOUND :: sai_status where "SAI_STATUS_ITEM_NOT_FOUND = - 7"
definition SAI_STATUS_BUFFER_OVERFLOW :: sai_status where "SAI_STATUS_BUFFER_OVERFLOW = - 8"
definition SAI_STATUS_INVALID_VLAN_ID :: sai_status where "SAI_STATUS_INVALID_VLAN_ID = - 11"
definition SAI_STATUS_TABLE_FULL :: sai_status where "SAI_STATUS_TABLE_FULL = - 13"
definition SAI_STATUS_MANDATORY_ATTRIBUTE_MISSING :: sai_status where
  "SAI_STATUS_MANDATORY_ATTRIBUTE_MISSING = - 14"
definition SAI_STATUS_NOT_IMPLEMENTED :: sai_status where "SAI_STATUS_NOT_IMPLEMENTED = - 15"
definition SAI_STATUS_INVALID_ATTRIBUTE_0 :: sai_status where
  "SAI_STATUS_INVALID_ATTRIBUTE_0 = - 65536"
definition SAI_STATUS_INVALID_ATTR_VALUE_0 :: sai_status where
  "SAI_STATUS_INVALID_ATTR_VALUE_0 = - 131072"
definition SAI_STATUS_ATTR_NOT_IMPLEMENTED_0 :: sai_status where
  "SAI_STATUS_ATTR_NOT_IMPLEMENTED_0 = - 196608"
definition SAI_STATUS_ATTR_NOT_IMPLEMENTED_MAX :: sai_status where
  "SAI_STATUS_ATTR_NOT_IMPLEMENTED_MAX = - 262143"
definition SAI_STATUS_UNKNOWN_ATTRIBUTE_0 :: sai_status where
  "SAI_STATUS_UNKNOWN_ATTRIBUTE_0 = - 262144"
definition SAI_STATUS_UNKNOWN_ATTRIBUTE_MAX :: sai_status where
  "SAI_STATUS_UNKNOWN_ATTRIBUTE_MAX = - 327679"
definition SAI_STATUS_ATTR_NOT_SUPPORTED_0 :: sai_status where
  "SAI_STATUS_ATTR_NOT_SUPPORTED_0 = - 327680"

lemmas status_defs =
  SAI_STATUS_SUCCESS_def SAI_STATUS_FAILURE_def SAI_STATUS_NO_MEMORY_def
  SAI_STATUS_INVALID_PARAMETER_def SAI_STATUS_ITEM_ALREADY_EXISTS_def
  SAI_STATUS_ITEM_NOT_FOUND_def SAI_STATUS_BUFFER_OVERFLOW_def SAI_STATUS_INVALID_VLAN_ID_def
  SAI_STATUS_TABLE_FULL_def SAI_STATUS_MANDATORY_ATTRIBUTE_MISSING_def
  SAI_STATUS_NOT_IMPLEMENTED_def SAI_STATUS_INVALID_ATTRIBUTE_0_def
  SAI_STATUS_INVALID_ATTR_VALUE_0_def SAI_STATUS_ATTR_NOT_IMPLEMENTED_0_def
  SAI_STATUS_ATTR_NOT_IMPLEMENTED_MAX_def SAI_STATUS_UNKNOWN_ATTRIBUTE_0_def
  SAI_STATUS_UNKNOWN_ATTRIBUTE_MAX_def SAI_STATUS_ATTR_NOT_SUPPORTED_0_def

section \<open>Object ids\<close>

text \<open>
  \<^verbatim>\<open>stub_object_id_t\<close> overlays the 64-bit object id: the type in the lowest byte, three reserved
  bytes, the data in the upper half.
\<close>

definition SAI_OBJECT_TYPE_MAX :: nat where "SAI_OBJECT_TYPE_MAX = 87"
definition SAI_OBJECT_TYPE_NEXT_HOP :: nat where "SAI_OBJECT_TYPE_NEXT_HOP = 4"
definition SAI_OBJECT_TYPE_NEXT_HOP_GROUP :: nat where "SAI_OBJECT_TYPE_NEXT_HOP_GROUP = 5"

definition oid_object_type :: "u64 \<Rightarrow> u8" where
  "oid_object_type oid = ucast oid"

definition oid_data :: "u64 \<Rightarrow> u32" where
  "oid_data oid = ucast (drop_bit 32 oid)"

definition stub_object_to_type :: "u64 \<Rightarrow> nat \<Rightarrow> sai_status + u32" where
  "stub_object_to_type object_id type =
     (if type \<noteq> unat (oid_object_type object_id) then Inl SAI_STATUS_INVALID_PARAMETER
      else Inr (oid_data object_id))"

definition stub_create_object :: "nat \<Rightarrow> u32 \<Rightarrow> sai_status + u64" where
  "stub_create_object type data =
     (if SAI_OBJECT_TYPE_MAX \<le> type then Inl SAI_STATUS_INVALID_PARAMETER
      else Inr (push_bit 32 (ucast data) OR ucast (of_nat type :: u8)))"

lemma oid_data_pack [simp]: "oid_data (push_bit 32 (ucast d) OR ucast (t :: u8)) = d"
  by (rule bit_word_eqI) (auto simp: oid_data_def bit_simps dest: bit_imp_le_length)

lemma oid_object_type_pack [simp]:
  "oid_object_type (push_bit 32 (ucast (d :: u32)) OR ucast t) = t"
  by (rule bit_word_eqI) (simp add: oid_object_type_def bit_simps)

text \<open>An object id reads back with the type it was made with, and with no other.\<close>

lemma object_to_type_create:
  assumes "stub_create_object type data = Inr oid"
  shows "stub_object_to_type oid type' =
    (if type' = type then Inr data else Inl SAI_STATUS_INVALID_PARAMETER)"
  using assms
  by (auto simp: stub_create_object_def stub_object_to_type_def SAI_OBJECT_TYPE_MAX_def
      unat_of_nat_small split: if_splits)

lemma create_object_ok: "type < SAI_OBJECT_TYPE_MAX \<Longrightarrow> \<exists>oid. stub_create_object type data = Inr oid"
  by (simp add: stub_create_object_def)

section \<open>Filling a list value\<close>

text \<open>
  The count is set to the number of elements there are even when they do not fit, so that the
  caller can come again with a larger array. \<^verbatim>\<open>memcpy\<close> faults when the array is shorter than
  the count the caller claimed.
\<close>

definition stub_fill_genericlist ::
  "nat \<Rightarrow> u64 list option \<Rightarrow> u32 \<Rightarrow> sai_attribute_value
     \<Rightarrow> (sai_status \<times> sai_attribute_value) checked" where
  "stub_fill_genericlist element_size data count objlist =
     (if data = None then Inr (SAI_STATUS_INVALID_PARAMETER, objlist)
      else if element_size = 0 then Inr (SAI_STATUS_INVALID_PARAMETER, objlist)
      else if val_u32 objlist < count then
        Inr (SAI_STATUS_BUFFER_OVERFLOW, put_u32 count objlist)
      else
        (let objlist = put_u32 count objlist; n = unat count in
         if n = 0 then Inr (SAI_STATUS_SUCCESS, objlist)
         else
           (case val_list objlist of
              None \<Rightarrow> Inl NullDeref
            | Some array \<Rightarrow>
                if length array < n \<or> length (the data) < n then Inl OutOfBounds
                else Inr (SAI_STATUS_SUCCESS,
                       objlist\<lparr>val_list := Some (take n (the data) @ drop n array)\<rparr>))))"

definition stub_fill_objlist ::
  "u64 list option \<Rightarrow> u32 \<Rightarrow> sai_attribute_value \<Rightarrow> (sai_status \<times> sai_attribute_value) checked" where
  "stub_fill_objlist data count lst = stub_fill_genericlist 8 data count lst"

definition stub_fill_u32list ::
  "u64 list option \<Rightarrow> u32 \<Rightarrow> sai_attribute_value \<Rightarrow> (sai_status \<times> sai_attribute_value) checked" where
  "stub_fill_u32list data count lst = stub_fill_genericlist 4 data count lst"

definition stub_fill_s32list ::
  "u64 list option \<Rightarrow> u32 \<Rightarrow> sai_attribute_value \<Rightarrow> (sai_status \<times> sai_attribute_value) checked" where
  "stub_fill_s32list data count lst = stub_fill_genericlist 4 data count lst"

definition stub_fill_vlanlist ::
  "u64 list option \<Rightarrow> u32 \<Rightarrow> sai_attribute_value \<Rightarrow> (sai_status \<times> sai_attribute_value) checked" where
  "stub_fill_vlanlist data count lst = stub_fill_genericlist 2 data count lst"

text \<open>The array behind a list value has room for the count the caller gives.\<close>

definition list_room :: "sai_attribute_value \<Rightarrow> bool" where
  "list_room v = (case val_list v of
     None \<Rightarrow> val_u32 v = 0 | Some array \<Rightarrow> unat (val_u32 v) \<le> length array)"

definition list_elements :: "sai_attribute_value \<Rightarrow> u64 list" where
  "list_elements v = (case val_list v of
     None \<Rightarrow> [] | Some array \<Rightarrow> take (unat (val_u32 v)) array)"

lemma fill_genericlist_spec:
  assumes "0 < es" and "unat count \<le> length data" and "list_room v"
  shows "\<exists>v'. stub_fill_genericlist es (Some data) count v =
      Inr (if val_u32 v < count then SAI_STATUS_BUFFER_OVERFLOW else SAI_STATUS_SUCCESS, v')
    \<and> val_u32 v' = count
    \<and> (val_u32 v < count \<longrightarrow> val_list v' = val_list v)
    \<and> (\<not> val_u32 v < count \<longrightarrow> list_elements v' = take (unat count) data)"
proof (cases "val_u32 v < count \<or> unat count = 0")
  case True
  then show ?thesis
    using assms(1,2)
    by (auto simp: stub_fill_genericlist_def Let_def list_elements_def split: option.splits)
next
  case False
  then have le: "unat count \<le> unat (val_u32 v)" and pos: "0 < unat count"
    by (auto simp: not_less word_le_nat_alt)
  obtain array where array: "val_list v = Some array"
  proof (cases "val_list v")
    case None
    then show ?thesis using assms(3) le pos by (simp add: list_room_def)
  qed
  then have "unat count \<le> length array" using assms(3) le by (simp add: list_room_def)
  then show ?thesis
    using False assms(1,2) array
    by (auto simp: stub_fill_genericlist_def Let_def list_elements_def)
qed

end
