(* ===== verification/StubAttrib.thy ===== *)
theory StubAttrib
  imports StubObject
begin

text \<open>
  The attribute framework of the stub (\<^verbatim>\<open>stub_sai_utils.c\<close>): every API function hands its
  attribute list to \<open>check_attribs_metadata\<close> together with the two parallel tables that describe the
  attributes of the object, and sets and gets are dispatched to the functions of the vendor table.
  The theory characterises the checker (success exactly on well-formed lists, the first offending
  attribute otherwise) and shows that the asserts of the dispatchers never fire after it.
\<close>

section \<open>Tables\<close>

datatype sai_operation = OpCreate | OpRemove | OpSet | OpGet | OpMax

datatype sai_attribute_value_type =
  ValUndetermined | ValBool | ValChardata | ValU8 | ValS8 | ValU16 | ValS16 | ValU32 | ValS32
| ValU64 | ValS64 | ValMac | ValIpv4 | ValIpv6 | ValIpaddr | ValOid | ValObjlist | ValU32list
| ValS32list | ValVlanlist | ValAclfield | ValAclaction | ValPortbreakout

record sai_attribute_entry =
  ae_id :: u32
  mandatory_on_create :: bool
  valid_for_create :: bool
  valid_for_set :: bool
  valid_for_get :: bool
  attrib_name :: string
  ae_type :: sai_attribute_value_type

text \<open>
  Getters and setters act on the state \<open>'s\<close> of the object's database for a key \<open>'k\<close>; their
  \<^verbatim>\<open>arg\<close> is part of the function. The tables of the source end with an entry whose id is
  \<^verbatim>\<open>END_FUNCTIONALITY_ATTRIBS_ID\<close>; here they are the entries before it.
\<close>

record ('k, 's) sai_vendor_attribute_entry =
  ve_id :: u32
  is_implemented :: "sai_operation \<Rightarrow> bool"
  is_supported :: "sai_operation \<Rightarrow> bool"
  ve_getter :: "('k \<Rightarrow> sai_attribute_value \<Rightarrow> nat \<Rightarrow> 's \<Rightarrow> (sai_status \<times> sai_attribute_value) checked) option"
  ve_setter :: "('k \<Rightarrow> sai_attribute_value \<Rightarrow> 's \<Rightarrow> (sai_status \<times> 's) checked) option"

text \<open>The flag arrays of the tables, in the order create, remove, set, get.\<close>

definition oper_flags :: "bool \<Rightarrow> bool \<Rightarrow> bool \<Rightarrow> bool \<Rightarrow> sai_operation \<Rightarrow> bool" where
  "oper_flags c r s g oper = (case oper of
     OpCreate \<Rightarrow> c | OpRemove \<Rightarrow> r | OpSet \<Rightarrow> s | OpGet \<Rightarrow> g | OpMax \<Rightarrow> False)"

section \<open>Finding an attribute\<close>

fun find_index :: "u32 \<Rightarrow> sai_attribute_entry list \<Rightarrow> nat \<Rightarrow> nat option" where
  "find_index i [] curr_index = None"
| "find_index i (f # fs) curr_index =
     (if i = ae_id f then Some curr_index else find_index i fs (Suc curr_index))"

definition find_functionality_attrib_index ::
  "u32 \<Rightarrow> sai_attribute_entry list option \<Rightarrow> sai_status + nat" where
  "find_functionality_attrib_index i functionality_attr =
     (case functionality_attr of
        None \<Rightarrow> Inl SAI_STATUS_INVALID_PARAMETER
      | Some fs \<Rightarrow>
          (case find_index i fs 0 of
             Some index \<Rightarrow> Inr index
           | None \<Rightarrow> Inl SAI_STATUS_ITEM_NOT_FOUND))"

text \<open>An attribute array of the caller: \<open>attr_count\<close> elements, or NULL.\<close>

definition attr_array :: "nat \<Rightarrow> sai_attribute list option \<Rightarrow> sai_attribute list" where
  "attr_array attr_count attr_list = take attr_count (the_default [] attr_list)"

fun find_attrib_loop :: "sai_attribute list \<Rightarrow> u32 \<Rightarrow> nat \<Rightarrow> (sai_attribute_value \<times> nat) option" where
  "find_attrib_loop [] attrib_id ii = None"
| "find_attrib_loop (a # attrs) attrib_id ii =
     (if attr_id a = attrib_id then Some (attr_value a, ii)
      else find_attrib_loop attrs attrib_id (Suc ii))"

definition find_attrib_in_list ::
  "nat \<Rightarrow> sai_attribute list option \<Rightarrow> u32 \<Rightarrow> sai_status + (sai_attribute_value \<times> nat)" where
  "find_attrib_in_list attr_count attr_list attrib_id =
     (if attr_count \<noteq> 0 \<and> attr_list = None then Inl SAI_STATUS_INVALID_PARAMETER
      else
        (case find_attrib_loop (attr_array attr_count attr_list) attrib_id 0 of
           Some r \<Rightarrow> Inr r
         | None \<Rightarrow> Inl SAI_STATUS_ITEM_NOT_FOUND))"

section \<open>Checking an attribute list\<close>

fun check_attrib_tables ::
  "sai_attribute_entry list \<Rightarrow> ('k, 's) sai_vendor_attribute_entry list \<Rightarrow> bool" where
  "check_attrib_tables [] vs = True"
| "check_attrib_tables (f # fs) [] = False"
| "check_attrib_tables (f # fs) (v # vs) = (if ae_id f \<noteq> ve_id v then False else check_attrib_tables fs vs)"

definition list_type :: "sai_attribute_value_type \<Rightarrow> bool" where
  "list_type t \<longleftrightarrow> t = ValObjlist \<or> t = ValU32list \<or> t = ValS32list \<or> t = ValVlanlist"

definition check_attrib ::
  "sai_attribute_entry list \<Rightarrow> ('k, 's) sai_vendor_attribute_entry list \<Rightarrow> sai_operation
     \<Rightarrow> sai_attribute \<Rightarrow> bool list \<Rightarrow> sai_status + nat" where
  "check_attrib fs vs oper a attr_present =
     (case find_functionality_attrib_index (attr_id a) (Some fs) of
        Inl e \<Rightarrow> Inl SAI_STATUS_UNKNOWN_ATTRIBUTE_0
      | Inr index \<Rightarrow>
          let f = fs ! index; v = vs ! index in
          if oper = OpCreate \<and> \<not> valid_for_create f then Inl SAI_STATUS_INVALID_ATTRIBUTE_0
          else if oper = OpSet \<and> \<not> valid_for_set f then Inl SAI_STATUS_INVALID_ATTRIBUTE_0
          else if oper = OpGet \<and> \<not> valid_for_get f then Inl SAI_STATUS_INVALID_ATTRIBUTE_0
          else if \<not> is_supported v oper then Inl SAI_STATUS_ATTR_NOT_SUPPORTED_0
          else if \<not> is_implemented v oper then Inl SAI_STATUS_ATTR_NOT_IMPLEMENTED_0
          else if attr_present ! index then Inl SAI_STATUS_INVALID_ATTRIBUTE_0
          else if list_type (ae_type f) \<and> val_list (attr_value a) = None
          then Inl SAI_STATUS_INVALID_ATTR_VALUE_0
          else Inr index)"

fun check_attrib_loop ::
  "sai_attribute_entry list \<Rightarrow> ('k, 's) sai_vendor_attribute_entry list \<Rightarrow> sai_operation
     \<Rightarrow> nat \<Rightarrow> sai_attribute list \<Rightarrow> bool list \<Rightarrow> sai_status + bool list" where
  "check_attrib_loop fs vs oper ii [] attr_present = Inr attr_present"
| "check_attrib_loop fs vs oper ii (a # attrs) attr_present =
     (case check_attrib fs vs oper a attr_present of
        Inl base \<Rightarrow> Inl (base + int ii)
      | Inr index \<Rightarrow> check_attrib_loop fs vs oper (Suc ii) attrs (attr_present[index := True]))"

fun mandatory_missing :: "sai_attribute_entry list \<Rightarrow> bool list \<Rightarrow> bool" where
  "mandatory_missing (f # fs) (p # ps) =
     (if mandatory_on_create f \<and> \<not> p then True else mandatory_missing fs ps)"
| "mandatory_missing fs ps = False"

definition check_attribs_metadata ::
  "bool \<Rightarrow> nat \<Rightarrow> sai_attribute list option \<Rightarrow> sai_attribute_entry list option
     \<Rightarrow> ('k, 's) sai_vendor_attribute_entry list option \<Rightarrow> sai_operation \<Rightarrow> sai_status" where
  "check_attribs_metadata calloc_ok attr_count attr_list functionality_attr
       functionality_vendor_attr oper =
     (if attr_count \<noteq> 0 \<and> attr_list = None then SAI_STATUS_INVALID_PARAMETER
      else case (functionality_attr, functionality_vendor_attr) of
        (Some fs, Some vs) \<Rightarrow>
          if oper = OpMax then SAI_STATUS_INVALID_PARAMETER
          else if oper = OpRemove then SAI_STATUS_NOT_IMPLEMENTED
          else if oper = OpSet \<and> attr_count \<noteq> 1 then SAI_STATUS_INVALID_PARAMETER
          else if \<not> check_attrib_tables fs vs then SAI_STATUS_FAILURE
          else if \<not> calloc_ok then SAI_STATUS_NO_MEMORY
          else
            (case check_attrib_loop fs vs oper 0 (attr_array attr_count attr_list)
                (replicate (length fs) False) of
               Inl err \<Rightarrow> err
             | Inr attr_present \<Rightarrow>
                 if oper = OpCreate \<and> mandatory_missing fs attr_present
                 then SAI_STATUS_MANDATORY_ATTRIBUTE_MISSING
                 else SAI_STATUS_SUCCESS)
      | _ \<Rightarrow> SAI_STATUS_INVALID_PARAMETER)"

section \<open>Dispatching sets and gets\<close>

text \<open>
  \<^verbatim>\<open>assert(SAI_STATUS_SUCCESS == find_functionality_attrib_index(...))\<close> is \<open>AssertFailed\<close> when the
  attribute is unknown.
\<close>

definition set_dispatch_attrib_handler ::
  "sai_attribute option \<Rightarrow> sai_attribute_entry list option
     \<Rightarrow> ('k, 's) sai_vendor_attribute_entry list option \<Rightarrow> 'k \<Rightarrow> 's
     \<Rightarrow> (sai_status \<times> 's) checked" where
  "set_dispatch_attrib_handler attr functionality_attr functionality_vendor_attr key db =
     (case (attr, functionality_attr, functionality_vendor_attr) of
        (Some a, Some fs, Some vs) \<Rightarrow>
          (case find_functionality_attrib_index (attr_id a) (Some fs) of
             Inl e \<Rightarrow> Inl AssertFailed
           | Inr index \<Rightarrow>
               (case ve_setter (vs ! index) of
                  None \<Rightarrow> Inr (SAI_STATUS_ATTR_NOT_IMPLEMENTED_0, db)
                | Some setter \<Rightarrow> setter key (attr_value a) db))
      | _ \<Rightarrow> Inr (SAI_STATUS_INVALID_PARAMETER, db))"

text \<open>
  The loop over the requested attributes: on an error the values read so far stay in the list.
\<close>

fun get_dispatch_loop ::
  "sai_attribute_entry list \<Rightarrow> ('k, 's) sai_vendor_attribute_entry list \<Rightarrow> 'k \<Rightarrow> 's \<Rightarrow> nat
     \<Rightarrow> sai_attribute list \<Rightarrow> (sai_status \<times> sai_attribute list) checked" where
  "get_dispatch_loop fs vs key db ii [] = Inr (SAI_STATUS_SUCCESS, [])"
| "get_dispatch_loop fs vs key db ii (a # attrs) =
     (case find_functionality_attrib_index (attr_id a) (Some fs) of
        Inl e \<Rightarrow> Inl AssertFailed
      | Inr index \<Rightarrow>
          (case ve_getter (vs ! index) of
             None \<Rightarrow> Inr (SAI_STATUS_ATTR_NOT_IMPLEMENTED_0 + int ii, a # attrs)
           | Some getter \<Rightarrow>
               (case getter key (attr_value a) ii db of
                  Inl e \<Rightarrow> Inl e
                | Inr (status, val) \<Rightarrow>
                    if status \<noteq> SAI_STATUS_SUCCESS
                    then Inr (status, a\<lparr>attr_value := val\<rparr> # attrs)
                    else
                      (case get_dispatch_loop fs vs key db (Suc ii) attrs of
                         Inl e \<Rightarrow> Inl e
                       | Inr (status, attrs') \<Rightarrow> Inr (status, a\<lparr>attr_value := val\<rparr> # attrs')))))"

definition get_dispatch_attribs_handler ::
  "nat \<Rightarrow> sai_attribute list option \<Rightarrow> sai_attribute_entry list option
     \<Rightarrow> ('k, 's) sai_vendor_attribute_entry list option \<Rightarrow> 'k \<Rightarrow> 's
     \<Rightarrow> (sai_status \<times> sai_attribute list) checked" where
  "get_dispatch_attribs_handler attr_count attr_list functionality_attr
       functionality_vendor_attr key db =
     (if attr_count \<noteq> 0 \<and> attr_list = None then Inr (SAI_STATUS_INVALID_PARAMETER, [])
      else case (functionality_attr, functionality_vendor_attr) of
        (Some fs, Some vs) \<Rightarrow>
          get_dispatch_loop fs vs key db 0 (attr_array attr_count attr_list)
      | _ \<Rightarrow> Inr (SAI_STATUS_INVALID_PARAMETER, attr_array attr_count attr_list))"

definition sai_set_attribute ::
  "bool \<Rightarrow> 'k \<Rightarrow> sai_attribute_entry list option
     \<Rightarrow> ('k, 's) sai_vendor_attribute_entry list option \<Rightarrow> sai_attribute option \<Rightarrow> 's
     \<Rightarrow> (sai_status \<times> 's) checked" where
  "sai_set_attribute calloc_ok key functionality_attr functionality_vendor_attr attr db =
     (let status = check_attribs_metadata calloc_ok 1 (map_option (\<lambda>a. [a]) attr)
            functionality_attr functionality_vendor_attr OpSet in
      if status \<noteq> SAI_STATUS_SUCCESS then Inr (status, db)
      else set_dispatch_attrib_handler attr functionality_attr functionality_vendor_attr key db)"

definition sai_get_attributes ::
  "bool \<Rightarrow> 'k \<Rightarrow> sai_attribute_entry list option
     \<Rightarrow> ('k, 's) sai_vendor_attribute_entry list option \<Rightarrow> nat \<Rightarrow> sai_attribute list option \<Rightarrow> 's
     \<Rightarrow> (sai_status \<times> sai_attribute list) checked" where
  "sai_get_attributes calloc_ok key functionality_attr functionality_vendor_attr attr_count
       attr_list db =
     (let status = check_attribs_metadata calloc_ok attr_count attr_list functionality_attr
            functionality_vendor_attr OpGet in
      if status \<noteq> SAI_STATUS_SUCCESS then Inr (status, attr_array attr_count attr_list)
      else get_dispatch_attribs_handler attr_count attr_list functionality_attr
             functionality_vendor_attr key db)"

section \<open>What the checker accepts\<close>

lemma find_index_bounds:
  "find_index i fs k = Some j \<Longrightarrow> k \<le> j \<and> j < k + length fs \<and> ae_id (fs ! (j - k)) = i"
proof (induction fs arbitrary: k)
  case (Cons f fs)
  show ?case
  proof (cases "i = ae_id f")
    case False
    then have "find_index i fs (Suc k) = Some j" using Cons.prems by simp
    from Cons.IH [OF this] show ?thesis by (auto simp: nth_Cons' Suc_le_eq)
  qed (use Cons.prems in simp)
qed simp

lemma find_index_0: "find_index i fs 0 = Some j \<Longrightarrow> j < length fs \<and> ae_id (fs ! j) = i"
  using find_index_bounds [of i fs 0 j] by simp

lemma find_index_exists: "i \<in> ae_id ` set fs \<Longrightarrow> \<exists>j. find_index i fs k = Some j"
  by (induction fs arbitrary: k) auto

lemma find_index_distinct:
  assumes "distinct (map ae_id fs)" and "j < length fs"
  shows "find_index (ae_id (fs ! j)) fs 0 = Some j"
proof -
  have "ae_id (fs ! j) \<in> ae_id ` set fs" using assms(2) by simp
  then obtain j' where j': "find_index (ae_id (fs ! j)) fs 0 = Some j'"
    using find_index_exists by blast
  then have "j' < length fs" and "ae_id (fs ! j') = ae_id (fs ! j)"
    using find_index_0 by blast+
  then have "j' = j" using assms by (simp add: distinct_conv_nth) metis
  then show ?thesis using j' by simp
qed

definition valid_for :: "sai_operation \<Rightarrow> sai_attribute_entry \<Rightarrow> bool" where
  "valid_for oper f = (case oper of
     OpCreate \<Rightarrow> valid_for_create f | OpSet \<Rightarrow> valid_for_set f | OpGet \<Rightarrow> valid_for_get f | _ \<Rightarrow> True)"

text \<open>An attribute the operation may carry, whatever else is in the list.\<close>

definition attr_permitted ::
  "sai_attribute_entry list \<Rightarrow> ('k, 's) sai_vendor_attribute_entry list \<Rightarrow> sai_operation
     \<Rightarrow> sai_attribute \<Rightarrow> bool" where
  "attr_permitted fs vs oper a =
     (case find_index (attr_id a) fs 0 of
        None \<Rightarrow> False
      | Some j \<Rightarrow> valid_for oper (fs ! j) \<and> is_supported (vs ! j) oper \<and> is_implemented (vs ! j) oper
          \<and> (list_type (ae_type (fs ! j)) \<longrightarrow> val_list (attr_value a) \<noteq> None))"

lemma check_attrib_ok:
  "check_attrib fs vs oper a present = Inr j \<longleftrightarrow>
     attr_permitted fs vs oper a \<and> find_index (attr_id a) fs 0 = Some j \<and> \<not> present ! j"
  by (auto simp: check_attrib_def find_functionality_attrib_index_def attr_permitted_def
      valid_for_def Let_def split: option.splits sai_operation.splits if_splits)

lemma check_attrib_error:
  "check_attrib fs vs oper a present = Inl e \<Longrightarrow> e \<le> SAI_STATUS_INVALID_ATTRIBUTE_0"
  by (auto simp: check_attrib_def Let_def status_defs split: sum.splits if_splits)

definition attrs_permitted ::
  "sai_attribute_entry list \<Rightarrow> ('k, 's) sai_vendor_attribute_entry list \<Rightarrow> sai_operation
     \<Rightarrow> sai_attribute list \<Rightarrow> bool" where
  "attrs_permitted fs vs oper attrs \<longleftrightarrow>
     (\<forall>a \<in> set attrs. attr_permitted fs vs oper a) \<and> distinct (map attr_id attrs)"

definition attrs_fresh :: "sai_attribute_entry list \<Rightarrow> bool list \<Rightarrow> sai_attribute list \<Rightarrow> bool" where
  "attrs_fresh fs present attrs \<longleftrightarrow>
     (\<forall>a \<in> set attrs. \<forall>j. find_index (attr_id a) fs 0 = Some j \<longrightarrow> \<not> present ! j)"

definition attrs_mark ::
  "sai_attribute_entry list \<Rightarrow> bool list \<Rightarrow> sai_attribute list \<Rightarrow> bool list" where
  "attrs_mark fs present attrs =
     map (\<lambda>j. present ! j \<or> (\<exists>a \<in> set attrs. find_index (attr_id a) fs 0 = Some j)) [0..<length fs]"

lemma find_index_same:
  "find_index i fs 0 = Some j \<Longrightarrow> find_index i' fs 0 = Some j \<Longrightarrow> i' = i"
  using find_index_0 by blast

lemma attrs_fresh_Cons:
  assumes "find_index (attr_id a) fs 0 = Some j" and "j < length present"
  shows "attrs_fresh fs (present[j := True]) attrs \<longleftrightarrow>
    attrs_fresh fs present attrs \<and> (\<forall>b \<in> set attrs. find_index (attr_id b) fs 0 \<noteq> Some j)"
proof -
  have "present[j := True] ! j' \<longleftrightarrow> present ! j' \<or> j' = j" for j'
    using assms(2) by (cases "j' = j") auto
  then show ?thesis unfolding attrs_fresh_def by auto
qed

lemma attrs_mark_Cons:
  assumes "find_index (attr_id a) fs 0 = Some j" and "length present = length fs"
  shows "attrs_mark fs (present[j := True]) attrs = attrs_mark fs present (a # attrs)"
  unfolding attrs_mark_def
proof (rule map_cong [OF refl])
  fix j'
  assume "j' \<in> set [0..<length fs]"
  then show "(present[j := True] ! j' \<or> (\<exists>b \<in> set attrs. find_index (attr_id b) fs 0 = Some j'))
    \<longleftrightarrow> (present ! j' \<or> (\<exists>b \<in> set (a # attrs). find_index (attr_id b) fs 0 = Some j'))"
    using assms by (cases "j' = j") auto
qed

lemma check_attrib_loop_ok:
  assumes "length present = length fs"
  shows "check_attrib_loop fs vs oper ii attrs present = Inr present' \<longleftrightarrow>
    attrs_permitted fs vs oper attrs \<and> attrs_fresh fs present attrs
    \<and> present' = attrs_mark fs present attrs"
  using assms
proof (induction attrs arbitrary: ii present)
  case Nil
  then show ?case
    using map_nth [of present] by (auto simp: attrs_permitted_def attrs_fresh_def attrs_mark_def)
next
  case (Cons a attrs)
  show ?case
  proof (cases "check_attrib fs vs oper a present")
    case (Inl e)
    have "\<not> (attr_permitted fs vs oper a \<and> attrs_fresh fs present (a # attrs))"
    proof
      assume ok: "attr_permitted fs vs oper a \<and> attrs_fresh fs present (a # attrs)"
      then obtain j where j: "find_index (attr_id a) fs 0 = Some j"
        by (auto simp: attr_permitted_def split: option.splits)
      then have "check_attrib fs vs oper a present = Inr j"
        using ok unfolding check_attrib_ok attrs_fresh_def by simp
      then show False using Inl by simp
    qed
    then show ?thesis using Inl by (auto simp: attrs_permitted_def)
  next
    case (Inr j)
    then have a: "attr_permitted fs vs oper a" "find_index (attr_id a) fs 0 = Some j" "\<not> present ! j"
      by (simp_all add: check_attrib_ok)
    then have j: "j < length present" using find_index_0 Cons.prems by fastforce
    have same: "find_index (attr_id b) fs 0 = Some j \<longleftrightarrow> attr_id b = attr_id a" for b
      using a(2) find_index_same [OF a(2), of "attr_id b"] by metis
    have "(\<forall>b \<in> set attrs. find_index (attr_id b) fs 0 \<noteq> Some j)
        \<longleftrightarrow> attr_id a \<notin> attr_id ` set attrs"
      unfolding same by (simp add: image_iff) metis
    moreover have "attrs_fresh fs present (a # attrs) \<longleftrightarrow> attrs_fresh fs present attrs"
      using a(2,3) by (simp add: attrs_fresh_def)
    ultimately show ?thesis
      using a(1) Inr Cons.IH [of "present[j := True]" "Suc ii"] Cons.prems
      unfolding attrs_fresh_Cons [OF a(2) j] attrs_mark_Cons [OF a(2) Cons.prems]
      by (auto simp: attrs_permitted_def)
  qed
qed

lemma check_attrib_loop_error:
  "check_attrib_loop fs vs oper ii attrs present = Inl e \<Longrightarrow>
   e < SAI_STATUS_INVALID_ATTRIBUTE_0 + int (ii + length attrs)"
proof (induction attrs arbitrary: ii present)
  case (Cons a attrs)
  then show ?case
    using check_attrib_error [of fs vs oper a present] by (force split: sum.splits)
qed simp

lemma mandatory_missing_iff:
  "length ps = length fs \<Longrightarrow>
   mandatory_missing fs ps \<longleftrightarrow> (\<exists>j < length fs. mandatory_on_create (fs ! j) \<and> \<not> ps ! j)"
proof (induction fs ps rule: mandatory_missing.induct)
  case (1 f fs p ps)
  then show ?case by (cases "mandatory_on_create f \<and> \<not> p") (auto simp: Ex_less_Suc2)
qed auto

lemma check_attribs_metadata_ok:
  assumes len: "attr_count \<le> 65536" and list: "attr_list \<noteq> None"
    and ids: "distinct (map ae_id fs)"
  shows "check_attribs_metadata True attr_count attr_list (Some fs) (Some vs) oper
      = SAI_STATUS_SUCCESS \<longleftrightarrow>
    oper \<in> {OpCreate, OpSet, OpGet} \<and> (oper = OpSet \<longrightarrow> attr_count = 1)
    \<and> check_attrib_tables fs vs
    \<and> attrs_permitted fs vs oper (attr_array attr_count attr_list)
    \<and> (oper = OpCreate \<longrightarrow> (\<forall>f \<in> set fs. mandatory_on_create f \<longrightarrow>
         ae_id f \<in> attr_id ` set (attr_array attr_count attr_list)))"
proof -
  let ?attrs = "attr_array attr_count attr_list"
  let ?loop = "check_attrib_loop fs vs oper 0 ?attrs (replicate (length fs) False)"
  have fresh: "attrs_fresh fs (replicate (length fs) False) ?attrs"
    unfolding attrs_fresh_def using find_index_0 by fastforce
  have err: "e \<noteq> SAI_STATUS_SUCCESS" if "?loop = Inl e" for e
    using check_attrib_loop_error [OF that] len
    by (auto simp: attr_array_def status_defs)
  have mark: "attrs_mark fs (replicate (length fs) False) ?attrs ! j \<longleftrightarrow>
      ae_id (fs ! j) \<in> attr_id ` set ?attrs" if "j < length fs" for j
  proof -
    have same: "find_index (attr_id a) fs 0 = Some j \<longleftrightarrow> attr_id a = ae_id (fs ! j)" for a
      using find_index_distinct [OF ids that] find_index_0 by metis
    show ?thesis using that by (simp add: attrs_mark_def same image_iff) metis
  qed
  have miss: "mandatory_missing fs (attrs_mark fs (replicate (length fs) False) ?attrs) \<longleftrightarrow>
      \<not> (\<forall>f \<in> set fs. mandatory_on_create f \<longrightarrow> ae_id f \<in> attr_id ` set ?attrs)"
  proof -
    have "mandatory_missing fs (attrs_mark fs (replicate (length fs) False) ?attrs) \<longleftrightarrow>
        (\<exists>j < length fs. mandatory_on_create (fs ! j) \<and> ae_id (fs ! j) \<notin> attr_id ` set ?attrs)"
      using mark by (subst mandatory_missing_iff) (simp_all add: attrs_mark_def cong: conj_cong)
    then show ?thesis by (metis in_set_conv_nth)
  qed
  have loop: "?loop = Inr p \<longleftrightarrow> attrs_permitted fs vs oper ?attrs
      \<and> p = attrs_mark fs (replicate (length fs) False) ?attrs" for p
    using check_attrib_loop_ok [of "replicate (length fs) False" fs vs oper 0 ?attrs p] fresh
    by simp
  show ?thesis
  proof (cases ?loop)
    case (Inl e)
    then show ?thesis
      using err loop list by (auto simp: check_attribs_metadata_def status_defs)
  next
    case (Inr p)
    then have "attrs_permitted fs vs oper ?attrs"
      and "p = attrs_mark fs (replicate (length fs) False) ?attrs"
      using loop by blast+
    then show ?thesis
      using Inr miss list
      by (cases oper) (auto simp: check_attribs_metadata_def status_defs)
  qed
qed

section \<open>The asserts of the dispatchers\<close>

text \<open>
  The functions of a vendor table return on every value that meets \<open>P\<close> for the entry they belong to;
  \<open>getters_total\<close> and \<open>setters_total\<close> are the tables whose functions return on every value.
\<close>

definition getter_total ::
  "(sai_attribute_entry \<Rightarrow> sai_attribute_value \<Rightarrow> bool) \<Rightarrow> sai_attribute_entry
     \<Rightarrow> ('k, 's) sai_vendor_attribute_entry \<Rightarrow> bool" where
  "getter_total P f v \<longleftrightarrow> (\<forall>getter. ve_getter v = Some getter \<longrightarrow>
     (\<forall>k val i db. P f val \<longrightarrow> (\<exists>r. getter k val i db = Inr r)))"

definition setter_total ::
  "(sai_attribute_entry \<Rightarrow> sai_attribute_value \<Rightarrow> bool) \<Rightarrow> sai_attribute_entry
     \<Rightarrow> ('k, 's) sai_vendor_attribute_entry \<Rightarrow> bool" where
  "setter_total P f v \<longleftrightarrow> (\<forall>setter. ve_setter v = Some setter \<longrightarrow>
     (\<forall>k val db. P f val \<longrightarrow> (\<exists>r. setter k val db = Inr r)))"

definition attr_meets ::
  "(sai_attribute_entry \<Rightarrow> sai_attribute_value \<Rightarrow> bool) \<Rightarrow> sai_attribute_entry list \<Rightarrow> sai_attribute \<Rightarrow> bool" where
  "attr_meets P fs a \<longleftrightarrow> (\<forall>j. find_index (attr_id a) fs 0 = Some j \<longrightarrow> P (fs ! j) (attr_value a))"

definition getters_total :: "('k, 's) sai_vendor_attribute_entry list \<Rightarrow> bool" where
  "getters_total vs \<longleftrightarrow> (\<forall>v \<in> set vs. \<forall>getter. ve_getter v = Some getter \<longrightarrow>
     (\<forall>k val i db. \<exists>r. getter k val i db = Inr r))"

definition setters_total :: "('k, 's) sai_vendor_attribute_entry list \<Rightarrow> bool" where
  "setters_total vs \<longleftrightarrow> (\<forall>v \<in> set vs. \<forall>setter. ve_setter v = Some setter \<longrightarrow>
     (\<forall>k val db. \<exists>r. setter k val db = Inr r))"

lemma getters_total_zip:
  "getters_total vs \<Longrightarrow> list_all (\<lambda>(f, v). getter_total (\<lambda>_ _. True) f v) (zip fs vs)"
  by (auto simp: list_all_iff getters_total_def getter_total_def dest: set_zip_rightD)

lemma setters_total_zip:
  "setters_total vs \<Longrightarrow> list_all (\<lambda>(f, v). setter_total (\<lambda>_ _. True) f v) (zip fs vs)"
  by (auto simp: list_all_iff setters_total_def setter_total_def dest: set_zip_rightD)

lemma attr_meets_True [simp]: "attr_meets (\<lambda>_ _. True) fs a"
  by (simp add: attr_meets_def)

lemma zip_entry: "list_all (\<lambda>(f, v). Q f v) (zip fs vs) \<Longrightarrow> j < length fs \<Longrightarrow> j < length vs \<Longrightarrow> Q (fs ! j) (vs ! j)"
  by (auto simp: list_all_length)

lemma check_attrib_tables_length:
  "check_attrib_tables fs vs \<Longrightarrow> length fs \<le> length vs"
  by (induction fs vs rule: check_attrib_tables.induct) (auto split: if_splits)

lemma check_success_permitted:
  assumes "check_attribs_metadata ok n attrs (Some fs) (Some vs) oper = SAI_STATUS_SUCCESS"
    and "n \<le> 65536"
  shows "attrs_permitted fs vs oper (attr_array n attrs) \<and> length fs \<le> length vs"
proof -
  let ?loop = "check_attrib_loop fs vs oper 0 (attr_array n attrs) (replicate (length fs) False)"
  have "e \<noteq> SAI_STATUS_SUCCESS" if "?loop = Inl e" for e
    using check_attrib_loop_error [OF that] assms(2) by (auto simp: attr_array_def status_defs)
  then obtain p where "?loop = Inr p" and "check_attrib_tables fs vs"
    using assms(1)
    by (cases ?loop) (auto simp: check_attribs_metadata_def status_defs split: if_splits)
  then show ?thesis
    using check_attrib_loop_ok [of "replicate (length fs) False" fs vs oper 0 "attr_array n attrs" p]
      check_attrib_tables_length by auto
qed

lemma permitted_index:
  assumes "attr_permitted fs vs oper a"
  shows "\<exists>j. find_functionality_attrib_index (attr_id a) (Some fs) = Inr j \<and> find_index (attr_id a) fs 0 = Some j
    \<and> j < length fs"
  using assms find_index_0
  by (auto simp: attr_permitted_def find_functionality_attrib_index_def split: option.splits)

lemma get_dispatch_loop_total:
  assumes "list_all (\<lambda>(f, v). getter_total P f v) (zip fs vs)" and "length fs \<le> length vs"
  shows "\<forall>a \<in> set attrs. attr_permitted fs vs oper a \<and> attr_meets P fs a \<Longrightarrow>
    \<exists>r. get_dispatch_loop fs vs key db ii attrs = Inr r"
proof (induction attrs arbitrary: ii)
  case (Cons a attrs)
  then obtain j where j: "find_functionality_attrib_index (attr_id a) (Some fs) = Inr j"
    "find_index (attr_id a) fs 0 = Some j" and lt: "j < length fs"
    using permitted_index [of fs vs oper a] by auto
  obtain r where r: "get_dispatch_loop fs vs key db (Suc ii) attrs = Inr r"
    using Cons.IH [of "Suc ii"] Cons.prems by (meson list.set_intros(2))
  show ?case
  proof (cases "ve_getter (vs ! j)")
    case None
    then show ?thesis using j by simp
  next
    case (Some getter)
    moreover have "P (fs ! j) (attr_value a)" using Cons.prems j(2) by (simp add: attr_meets_def)
    ultimately obtain g where "getter key (attr_value a) ii db = Inr g"
      using zip_entry [OF assms(1) lt] lt assms(2) unfolding getter_total_def by (meson order_less_le_trans)
    then show ?thesis using j r Some by (cases g; cases r) simp
  qed
qed simp

lemma sai_get_attributes_total_when:
  assumes "list_all (\<lambda>(f, v). getter_total P f v) (zip fs vs)" and "n \<le> 65536"
    and "\<forall>a \<in> set (attr_array n attrs). attr_meets P fs a"
  shows "\<exists>r. sai_get_attributes ok key (Some fs) (Some vs) n attrs db = Inr r"
  using check_success_permitted [of ok n attrs fs vs OpGet] assms(2,3)
    get_dispatch_loop_total [OF assms(1), of "attr_array n attrs" OpGet key db 0]
  by (auto simp: sai_get_attributes_def get_dispatch_attribs_handler_def Let_def
      attrs_permitted_def)

lemma sai_get_attributes_total:
  assumes "getters_total vs" and "n \<le> 65536"
  shows "\<exists>r. sai_get_attributes ok key (Some fs) (Some vs) n attrs db = Inr r"
  by (rule sai_get_attributes_total_when [OF getters_total_zip [OF assms(1)] assms(2)]) simp

lemma sai_set_attribute_total_when:
  assumes "list_all (\<lambda>(f, v). setter_total P f v) (zip fs vs)" and "\<And>a. attr = Some a \<Longrightarrow> attr_meets P fs a"
  shows "\<exists>r. sai_set_attribute ok key (Some fs) (Some vs) attr db = Inr r"
proof (cases "check_attribs_metadata ok 1 (map_option (\<lambda>a. [a]) attr) (Some fs) (Some vs) OpSet
    = SAI_STATUS_SUCCESS")
  case True
  then have perm: "attrs_permitted fs vs OpSet (attr_array 1 (map_option (\<lambda>a. [a]) attr))"
    and len: "length fs \<le> length vs"
    using check_success_permitted [OF True] by auto
  show ?thesis
  proof (cases attr)
    case None
    then show ?thesis using True by (simp add: sai_set_attribute_def set_dispatch_attrib_handler_def)
  next
    case (Some a)
    then obtain j where j: "find_functionality_attrib_index (attr_id a) (Some fs) = Inr j"
      "find_index (attr_id a) fs 0 = Some j" and lt: "j < length fs"
      using perm permitted_index [of fs vs OpSet a]
      by (auto simp: attrs_permitted_def attr_array_def)
    have "P (fs ! j) (attr_value a)" using assms(2) Some j(2) by (simp add: attr_meets_def)
    then have "\<exists>r. setter key (attr_value a) db = Inr r" if "ve_setter (vs ! j) = Some setter" for setter
      using zip_entry [OF assms(1) lt] lt len that unfolding setter_total_def
      by (meson order_less_le_trans)
    then show ?thesis
      using True j Some
      by (auto simp: sai_set_attribute_def set_dispatch_attrib_handler_def split: option.splits)
  qed
qed (simp add: sai_set_attribute_def)

lemma sai_set_attribute_total:
  assumes "setters_total vs"
  shows "\<exists>r. sai_set_attribute ok key (Some fs) (Some vs) attr db = Inr r"
  by (rule sai_set_attribute_total_when [OF setters_total_zip [OF assms]]) simp

end
