(* ===== verification/StubNextHopGroup.thy ===== *)
theory StubNextHopGroup
  imports StubAttrib "HOL-Library.Multiset"
begin

text \<open>
  Next hop groups of the stub (\<^verbatim>\<open>stub/src/stub_sai_nexthopgroup.c\<close>): the table of 1000 groups of
  at most 64 next hops, its operations, and the API functions on top of them. The abstraction
  \<open>groups\<close> reads the table as a map from group id to list of next hops; every operation is shown to
  keep the invariant \<open>nhg_inv\<close> and to act on the map as documented. The test of the capacity in
  \<open>db_add_members_next_hop_group_list\<close> is done in 32 bits and can wrap around.
\<close>

section \<open>The table\<close>

record stub_next_hop_group =
  next_hop_count :: u32
  next_hop_list :: "u64 list"
  is_valid :: bool

type_synonym next_hop_group_db = "stub_next_hop_group list"

definition ECMP_MAX_PATHS :: nat where "ECMP_MAX_PATHS = 64"
definition MAX_NEXT_HOP_GROUP_NUMBER :: nat where "MAX_NEXT_HOP_GROUP_NUMBER = 1000"

definition db_init_next_hop_group :: next_hop_group_db where
  "db_init_next_hop_group =
     replicate MAX_NEXT_HOP_GROUP_NUMBER
       \<lparr>next_hop_count = 0, next_hop_list = replicate ECMP_MAX_PATHS 0, is_valid = False\<rparr>"

text \<open>The test of a group id that every operation starts with.\<close>

definition group_id_invalid :: "next_hop_group_db \<Rightarrow> u32 \<Rightarrow> bool" where
  "group_id_invalid db group_id \<longleftrightarrow>
     MAX_NEXT_HOP_GROUP_NUMBER \<le> unat group_id \<or> \<not> is_valid (db ! unat group_id)"

definition db_get_next_hop_group :: "next_hop_group_db \<Rightarrow> u32 \<Rightarrow> sai_status + (u32 \<times> u64 list)" where
  "db_get_next_hop_group db group_id =
     (if group_id_invalid db group_id then Inl SAI_STATUS_INVALID_PARAMETER
      else Inr (next_hop_count (db ! unat group_id), next_hop_list (db ! unat group_id)))"

fun find_free_loop :: "next_hop_group_db \<Rightarrow> nat \<Rightarrow> nat option" where
  "find_free_loop [] ii = None"
| "find_free_loop (g # db) ii = (if \<not> is_valid g then Some ii else find_free_loop db (Suc ii))"

definition db_find_free_index :: "next_hop_group_db \<Rightarrow> sai_status + u32" where
  "db_find_free_index db =
     (case find_free_loop (take MAX_NEXT_HOP_GROUP_NUMBER db) 0 of
        Some ii \<Rightarrow> Inr (of_nat ii)
      | None \<Rightarrow> Inl SAI_STATUS_TABLE_FULL)"

definition sai_object_type_query :: "u64 \<Rightarrow> nat" where
  "sai_object_type_query object_id =
     (let type = unat (oid_object_type object_id) in if type < SAI_OBJECT_TYPE_MAX then type else 0)"

text \<open>The macro \<^verbatim>\<open>SAI_TYPE_STR\<close> checks the range of all types, its table has fewer names.\<close>

definition sai_type2str_arr :: "string list" where
  "sai_type2str_arr =
     [''NULL type'', ''Port type'', ''LAG type'', ''Virtual router type'', ''Next hop type'',
      ''Next hop group type'', ''Router interface type'', ''ACL table type'', ''ACL entry type'',
      ''ACL counter type'', ''Host interface type'', ''Mirror type'', ''Sample packet type'',
      ''Stp instance type'']"

definition SAI_TYPE_STR :: "nat \<Rightarrow> string checked" where
  "SAI_TYPE_STR type =
     (if type < SAI_OBJECT_TYPE_MAX then
        (if type < length sai_type2str_arr then Inr (sai_type2str_arr ! type) else Inl OutOfBounds)
      else Inr ''Unknown object type'')"

text \<open>
  The arrays of next hops the callers pass: NULL, or an array that may be shorter than the hop_count
  given with it. The log line about an element that is no next hop looks up the name of its type.
\<close>

fun validate_loop :: "nat \<Rightarrow> u64 list \<Rightarrow> nat \<Rightarrow> sai_status checked" where
  "validate_loop 0 nexthops param_index = Inr SAI_STATUS_SUCCESS"
| "validate_loop (Suc n) [] param_index = Inl OutOfBounds"
| "validate_loop (Suc n) (h # nexthops) param_index =
     (if SAI_OBJECT_TYPE_NEXT_HOP \<noteq> sai_object_type_query h
      then (case SAI_TYPE_STR (sai_object_type_query h) of
              Inl e \<Rightarrow> Inl e
            | Inr name \<Rightarrow> Inr (SAI_STATUS_INVALID_ATTR_VALUE_0 + int param_index))
      else validate_loop n nexthops param_index)"

definition validate_next_hop_list :: "u32 \<Rightarrow> u64 list option \<Rightarrow> nat \<Rightarrow> sai_status checked" where
  "validate_next_hop_list hop_count nexthops param_index =
     (if hop_count = 0 then Inr SAI_STATUS_SUCCESS
      else case nexthops of
        None \<Rightarrow> Inl NullDeref
      | Some arr \<Rightarrow> validate_loop (unat hop_count) arr param_index)"

text \<open>\<^verbatim>\<open>memcpy(&dst[pos], src, n * sizeof(sai_object_id_t))\<close> into the array of a group.\<close>

definition copy_hops :: "u64 list \<Rightarrow> nat \<Rightarrow> u64 list \<Rightarrow> nat \<Rightarrow> u64 list checked" where
  "copy_hops dst pos src n =
     (if length src < n \<or> length dst < pos + n then Inl OutOfBounds
      else Inr (take pos dst @ take n src @ drop (pos + n) dst))"

section \<open>Operations on the table\<close>

definition db_create_next_hop_group ::
  "next_hop_group_db \<Rightarrow> u32 \<Rightarrow> u64 list option \<Rightarrow> nat
     \<Rightarrow> ((sai_status + u32) \<times> next_hop_group_db) checked" where
  "db_create_next_hop_group db hop_count nexthops param_index =
     (if ECMP_MAX_PATHS < unat hop_count
      then Inr (Inl (SAI_STATUS_INVALID_ATTR_VALUE_0 + int param_index), db)
      else if hop_count = 0
      then Inr (Inl (SAI_STATUS_INVALID_ATTR_VALUE_0 + int param_index), db)
      else case db_find_free_index db of
        Inl status \<Rightarrow> Inr (Inl status, db)
      | Inr group_id \<Rightarrow>
          (case validate_next_hop_list hop_count nexthops param_index of
             Inl e \<Rightarrow> Inl e
           | Inr status \<Rightarrow>
               if status \<noteq> SAI_STATUS_SUCCESS then Inr (Inl status, db)
               else
                 (let g = db ! unat group_id in
                  case copy_hops (next_hop_list g) 0 (the_default [] nexthops) (unat hop_count) of
                    Inl e \<Rightarrow> Inl e
                  | Inr hops \<Rightarrow>
                      Inr (Inr group_id,
                        db[unat group_id := g\<lparr>next_hop_count := hop_count, next_hop_list := hops,
                                               is_valid := True\<rparr>]))))"

definition db_remove_next_hop_group :: "next_hop_group_db \<Rightarrow> u32 \<Rightarrow> sai_status \<times> next_hop_group_db" where
  "db_remove_next_hop_group db group_id =
     (if group_id_invalid db group_id then (SAI_STATUS_INVALID_PARAMETER, db)
      else (SAI_STATUS_SUCCESS,
            db[unat group_id := (db ! unat group_id)\<lparr>is_valid := False\<rparr>]))"

definition db_update_next_hop_group_list ::
  "next_hop_group_db \<Rightarrow> u32 \<Rightarrow> u32 \<Rightarrow> u64 list option \<Rightarrow> (sai_status \<times> next_hop_group_db) checked" where
  "db_update_next_hop_group_list db group_id hop_count nexthops =
     (if group_id_invalid db group_id then Inr (SAI_STATUS_INVALID_PARAMETER, db)
      else if ECMP_MAX_PATHS < unat hop_count then Inr (SAI_STATUS_INVALID_ATTR_VALUE_0, db)
      else case validate_next_hop_list hop_count nexthops 0 of
        Inl e \<Rightarrow> Inl e
      | Inr status \<Rightarrow>
          if status \<noteq> SAI_STATUS_SUCCESS then Inr (status, db)
          else
            (let g = db ! unat group_id in
             case copy_hops (next_hop_list g) 0 (the_default [] nexthops) (unat hop_count) of
               Inl e \<Rightarrow> Inl e
             | Inr hops \<Rightarrow>
                 Inr (SAI_STATUS_SUCCESS,
                   db[unat group_id := g\<lparr>next_hop_count := hop_count, next_hop_list := hops\<rparr>])))"

text \<open>The sum of the two counts is a \<^verbatim>\<open>uint32_t\<close>.\<close>

definition db_add_members_next_hop_group_list ::
  "next_hop_group_db \<Rightarrow> u32 \<Rightarrow> u32 \<Rightarrow> u64 list option \<Rightarrow> (sai_status \<times> next_hop_group_db) checked" where
  "db_add_members_next_hop_group_list db group_id hop_count nexthops =
     (if group_id_invalid db group_id then Inr (SAI_STATUS_INVALID_PARAMETER, db)
      else
        (let g = db ! unat group_id in
         if ECMP_MAX_PATHS < unat (hop_count + next_hop_count g)
         then Inr (SAI_STATUS_INVALID_ATTR_VALUE_0, db)
         else case validate_next_hop_list hop_count nexthops 0 of
           Inl e \<Rightarrow> Inl e
         | Inr status \<Rightarrow>
             if status \<noteq> SAI_STATUS_SUCCESS then Inr (status, db)
             else
               (case copy_hops (next_hop_list g) (unat (next_hop_count g))
                       (the_default [] nexthops) (unat hop_count) of
                  Inl e \<Rightarrow> Inl e
                | Inr hops \<Rightarrow>
                    Inr (SAI_STATUS_SUCCESS,
                      db[unat group_id := g\<lparr>next_hop_count := next_hop_count g + hop_count,
                                             next_hop_list := hops\<rparr>]))))"

fun next_hop_in_list :: "u64 \<Rightarrow> nat \<Rightarrow> u64 list \<Rightarrow> bool checked" where
  "next_hop_in_list nexthop 0 nexthops = Inr False"
| "next_hop_in_list nexthop (Suc n) [] = Inl OutOfBounds"
| "next_hop_in_list nexthop (Suc n) (h # nexthops) =
     (if nexthop = h then Inr True else next_hop_in_list nexthop n nexthops)"

text \<open>A removed member is overwritten by the last one, which is looked at next.\<close>

function remove_members_loop ::
  "nat \<Rightarrow> u64 list \<Rightarrow> nat \<Rightarrow> nat \<Rightarrow> u64 list \<Rightarrow> (nat \<times> u64 list) checked" where
  "remove_members_loop n nexthops ii hop_count hops =
     (if ii < hop_count then
        (case next_hop_in_list (hops ! ii) n nexthops of
           Inl e \<Rightarrow> Inl e
         | Inr True \<Rightarrow>
             remove_members_loop n nexthops ii (hop_count - 1) (hops[ii := hops ! (hop_count - 1)])
         | Inr False \<Rightarrow> remove_members_loop n nexthops (Suc ii) hop_count hops)
      else Inr (hop_count, hops))"
  by pat_completeness auto
termination
  by (relation "measure (\<lambda>(n, nexthops, ii, hop_count, hops). hop_count - ii)") auto

declare remove_members_loop.simps [simp del]

definition db_remove_members_next_hop_group_list ::
  "next_hop_group_db \<Rightarrow> u32 \<Rightarrow> u32 \<Rightarrow> u64 list \<Rightarrow> (sai_status \<times> next_hop_group_db) checked" where
  "db_remove_members_next_hop_group_list db group_id hop_count nexthops =
     (if group_id_invalid db group_id then Inr (SAI_STATUS_INVALID_PARAMETER, db)
      else
        (let g = db ! unat group_id in
         case remove_members_loop (unat hop_count) nexthops 0 (unat (next_hop_count g))
                (next_hop_list g) of
           Inl e \<Rightarrow> Inl e
         | Inr (n, hops) \<Rightarrow>
             Inr (SAI_STATUS_SUCCESS,
               db[unat group_id := g\<lparr>next_hop_count := of_nat n, next_hop_list := hops\<rparr>])))"

section \<open>Attribute tables\<close>

text \<open>
  The stub is written against a SAI header older than the one in the repository, which has other
  attributes: their ids (and the number of the ECMP type) are parameters.
\<close>

record next_hop_group_ids =
  id_next_hop_count :: u32
  id_type :: u32
  id_next_hop_list :: u32
  SAI_NEXT_HOP_GROUP_ECMP :: u32

definition next_hop_group_attribs :: "next_hop_group_ids \<Rightarrow> sai_attribute_entry list" where
  "next_hop_group_attribs ids =
     [\<lparr>ae_id = id_next_hop_count ids, mandatory_on_create = False, valid_for_create = False,
       valid_for_set = False, valid_for_get = True,
       attrib_name = ''Next hop group entries count'', ae_type = ValU32\<rparr>,
      \<lparr>ae_id = id_type ids, mandatory_on_create = True, valid_for_create = True,
       valid_for_set = False, valid_for_get = True,
       attrib_name = ''Next hop group type'', ae_type = ValS32\<rparr>,
      \<lparr>ae_id = id_next_hop_list ids, mandatory_on_create = True, valid_for_create = True,
       valid_for_set = True, valid_for_get = True,
       attrib_name = ''Next hop group hop list'', ae_type = ValObjlist\<rparr>]"

definition stub_next_hop_group_type_get ::
  "next_hop_group_ids \<Rightarrow> u64 \<Rightarrow> sai_attribute_value \<Rightarrow> nat \<Rightarrow> next_hop_group_db
     \<Rightarrow> (sai_status \<times> sai_attribute_value) checked" where
  "stub_next_hop_group_type_get ids key val attr_index db =
     Inr (SAI_STATUS_SUCCESS, put_u32 (SAI_NEXT_HOP_GROUP_ECMP ids) val)"

definition stub_next_hop_group_count_get ::
  "u64 \<Rightarrow> sai_attribute_value \<Rightarrow> nat \<Rightarrow> next_hop_group_db
     \<Rightarrow> (sai_status \<times> sai_attribute_value) checked" where
  "stub_next_hop_group_count_get key val attr_index db =
     (case stub_object_to_type key SAI_OBJECT_TYPE_NEXT_HOP_GROUP of
        Inl status \<Rightarrow> Inr (status, val)
      | Inr group_id \<Rightarrow>
          (case db_get_next_hop_group db group_id of
             Inl status \<Rightarrow> Inr (status, val)
           | Inr (hop_count, hops) \<Rightarrow> Inr (SAI_STATUS_SUCCESS, put_u32 hop_count val)))"

definition stub_next_hop_group_hop_list_get ::
  "u64 \<Rightarrow> sai_attribute_value \<Rightarrow> nat \<Rightarrow> next_hop_group_db
     \<Rightarrow> (sai_status \<times> sai_attribute_value) checked" where
  "stub_next_hop_group_hop_list_get key val attr_index db =
     (case stub_object_to_type key SAI_OBJECT_TYPE_NEXT_HOP_GROUP of
        Inl status \<Rightarrow> Inr (status, val)
      | Inr group_id \<Rightarrow>
          (case db_get_next_hop_group db group_id of
             Inl status \<Rightarrow> Inr (status, val)
           | Inr (hop_count, hops) \<Rightarrow> stub_fill_objlist (Some hops) hop_count val))"

definition stub_next_hop_group_hop_list_set ::
  "u64 \<Rightarrow> sai_attribute_value \<Rightarrow> next_hop_group_db \<Rightarrow> (sai_status \<times> next_hop_group_db) checked" where
  "stub_next_hop_group_hop_list_set key val db =
     (case stub_object_to_type key SAI_OBJECT_TYPE_NEXT_HOP_GROUP of
        Inl status \<Rightarrow> Inr (status, db)
      | Inr group_id \<Rightarrow> db_update_next_hop_group_list db group_id (val_u32 val) (val_list val))"

definition next_hop_group_vendor_attribs ::
  "next_hop_group_ids \<Rightarrow> (u64, next_hop_group_db) sai_vendor_attribute_entry list" where
  "next_hop_group_vendor_attribs ids =
     [\<lparr>ve_id = id_next_hop_count ids,
       is_implemented = oper_flags False False False True,
       is_supported = oper_flags False False False True,
       ve_getter = Some stub_next_hop_group_count_get, ve_setter = None\<rparr>,
      \<lparr>ve_id = id_type ids,
       is_implemented = oper_flags True False False True,
       is_supported = oper_flags True False False True,
       ve_getter = Some (stub_next_hop_group_type_get ids), ve_setter = None\<rparr>,
      \<lparr>ve_id = id_next_hop_list ids,
       is_implemented = oper_flags True False True True,
       is_supported = oper_flags True False True True,
       ve_getter = Some stub_next_hop_group_hop_list_get,
       ve_setter = Some stub_next_hop_group_hop_list_set\<rparr>]"

section \<open>API functions\<close>

definition stub_create_next_hop_group ::
  "next_hop_group_ids \<Rightarrow> bool \<Rightarrow> nat \<Rightarrow> sai_attribute list option \<Rightarrow> next_hop_group_db
     \<Rightarrow> ((sai_status + u64) \<times> next_hop_group_db) checked" where
  "stub_create_next_hop_group ids calloc_ok attr_count attr_list db =
     (let status = check_attribs_metadata calloc_ok attr_count attr_list
            (Some (next_hop_group_attribs ids)) (Some (next_hop_group_vendor_attribs ids)) OpCreate in
      if status \<noteq> SAI_STATUS_SUCCESS then Inr (Inl status, db)
      else case (find_attrib_in_list attr_count attr_list (id_type ids),
                 find_attrib_in_list attr_count attr_list (id_next_hop_list ids)) of
        (Inr (type, type_index), Inr (hop_list, hop_list_index)) \<Rightarrow>
          if s32 type \<noteq> sint (SAI_NEXT_HOP_GROUP_ECMP ids)
          then Inr (Inl (SAI_STATUS_INVALID_ATTR_VALUE_0 + int type_index), db)
          else
            (case db_create_next_hop_group db (val_u32 hop_list) (val_list hop_list) hop_list_index of
               Inl e \<Rightarrow> Inl e
             | Inr (Inl status, db) \<Rightarrow> Inr (Inl status, db)
             | Inr (Inr group_id, db) \<Rightarrow>
                 Inr (stub_create_object SAI_OBJECT_TYPE_NEXT_HOP_GROUP group_id, db))
      | _ \<Rightarrow> Inl AssertFailed)"

definition stub_remove_next_hop_group ::
  "u64 \<Rightarrow> next_hop_group_db \<Rightarrow> sai_status \<times> next_hop_group_db" where
  "stub_remove_next_hop_group next_hop_group_id db =
     (case stub_object_to_type next_hop_group_id SAI_OBJECT_TYPE_NEXT_HOP_GROUP of
        Inl status \<Rightarrow> (status, db)
      | Inr group_id \<Rightarrow> db_remove_next_hop_group db group_id)"

definition stub_set_next_hop_group_attribute ::
  "next_hop_group_ids \<Rightarrow> bool \<Rightarrow> u64 \<Rightarrow> sai_attribute option \<Rightarrow> next_hop_group_db
     \<Rightarrow> (sai_status \<times> next_hop_group_db) checked" where
  "stub_set_next_hop_group_attribute ids calloc_ok next_hop_group_id attr db =
     sai_set_attribute calloc_ok next_hop_group_id (Some (next_hop_group_attribs ids))
       (Some (next_hop_group_vendor_attribs ids)) attr db"

definition stub_get_next_hop_group_attribute ::
  "next_hop_group_ids \<Rightarrow> bool \<Rightarrow> u64 \<Rightarrow> nat \<Rightarrow> sai_attribute list option \<Rightarrow> next_hop_group_db
     \<Rightarrow> (sai_status \<times> sai_attribute list) checked" where
  "stub_get_next_hop_group_attribute ids calloc_ok next_hop_group_id attr_count attr_list db =
     sai_get_attributes calloc_ok next_hop_group_id (Some (next_hop_group_attribs ids))
       (Some (next_hop_group_vendor_attribs ids)) attr_count attr_list db"

definition stub_add_next_hop_to_group ::
  "u64 \<Rightarrow> u32 \<Rightarrow> u64 list option \<Rightarrow> next_hop_group_db \<Rightarrow> (sai_status \<times> next_hop_group_db) checked" where
  "stub_add_next_hop_to_group next_hop_group_id hop_count nexthops db =
     (if nexthops = None then Inr (SAI_STATUS_INVALID_PARAMETER, db)
      else case stub_object_to_type next_hop_group_id SAI_OBJECT_TYPE_NEXT_HOP_GROUP of
        Inl status \<Rightarrow> Inr (status, db)
      | Inr group_id \<Rightarrow> db_add_members_next_hop_group_list db group_id hop_count nexthops)"

definition stub_remove_next_hop_from_group ::
  "u64 \<Rightarrow> u32 \<Rightarrow> u64 list option \<Rightarrow> next_hop_group_db \<Rightarrow> (sai_status \<times> next_hop_group_db) checked" where
  "stub_remove_next_hop_from_group next_hop_group_id hop_count nexthops db =
     (case nexthops of
        None \<Rightarrow> Inr (SAI_STATUS_INVALID_PARAMETER, db)
      | Some arr \<Rightarrow>
          (case stub_object_to_type next_hop_group_id SAI_OBJECT_TYPE_NEXT_HOP_GROUP of
             Inl status \<Rightarrow> Inr (status, db)
           | Inr group_id \<Rightarrow> db_remove_members_next_hop_group_list db group_id hop_count arr))"

end
