(* ===== verification/NextHopGroupFacts.thy ===== *)
theory NextHopGroupFacts
  imports StubNextHopGroup
begin

text \<open>
  The next hop group table as a map from group ids to lists of next hops (\<open>groups\<close>), the invariant
  of the table, and for every operation the map it leaves: creation takes the least free id,
  removal forgets the group, an update replaces its hops, adding appends, and removing members
  leaves exactly the hops that are not in the given list (in some order, with multiplicity).
\<close>

section \<open>Abstraction and invariant\<close>

definition group_hops :: "stub_next_hop_group \<Rightarrow> u64 list" where
  "group_hops g = take (unat (next_hop_count g)) (next_hop_list g)"

definition groups :: "next_hop_group_db \<Rightarrow> nat \<Rightarrow> u64 list option" where
  "groups db i = (if i < length db \<and> is_valid (db ! i) then Some (group_hops (db ! i)) else None)"

definition is_next_hop :: "u64 \<Rightarrow> bool" where
  "is_next_hop h \<longleftrightarrow> sai_object_type_query h = SAI_OBJECT_TYPE_NEXT_HOP"

definition group_ok :: "stub_next_hop_group \<Rightarrow> bool" where
  "group_ok g \<longleftrightarrow> length (next_hop_list g) = ECMP_MAX_PATHS
     \<and> unat (next_hop_count g) \<le> ECMP_MAX_PATHS
     \<and> (is_valid g \<longrightarrow> list_all is_next_hop (group_hops g))"

definition nhg_inv :: "next_hop_group_db \<Rightarrow> bool" where
  "nhg_inv db \<longleftrightarrow> length db = MAX_NEXT_HOP_GROUP_NUMBER \<and> list_all group_ok db"

text \<open>
  The argument of a call: a count and an array that holds at least that many elements, object ids
  whose types have a name.
\<close>

definition named_type :: "u64 \<Rightarrow> bool" where
  "named_type h \<longleftrightarrow> sai_object_type_query h < 14"

definition array_holds :: "u32 \<Rightarrow> u64 list option \<Rightarrow> bool" where
  "array_holds n arr = (case arr of None \<Rightarrow> n = 0
     | Some xs \<Rightarrow> unat n \<le> length xs \<and> list_all named_type (take (unat n) xs))"

lemma next_hop_named: "is_next_hop h \<Longrightarrow> named_type h"
  by (simp add: is_next_hop_def named_type_def SAI_OBJECT_TYPE_NEXT_HOP_def)

lemma named_type_str: "named_type h \<Longrightarrow> \<exists>name. SAI_TYPE_STR (sai_object_type_query h) = Inr name"
  by (simp add: named_type_def SAI_TYPE_STR_def sai_type2str_arr_def)

definition array_elements :: "u32 \<Rightarrow> u64 list option \<Rightarrow> u64 list" where
  "array_elements n arr = take (unat n) (the_default [] arr)"

lemma length_array_elements [simp]: "array_holds n arr \<Longrightarrow> length (array_elements n arr) = unat n"
  by (auto simp: array_holds_def array_elements_def split: option.splits)

lemma init_inv: "nhg_inv db_init_next_hop_group"
  by (simp add: nhg_inv_def db_init_next_hop_group_def group_ok_def ECMP_MAX_PATHS_def list_all_iff)

lemma init_groups: "groups db_init_next_hop_group i = None"
  by (simp add: groups_def db_init_next_hop_group_def)

lemma group_id_invalid_iff:
  "nhg_inv db \<Longrightarrow> group_id_invalid db i \<longleftrightarrow> groups db (unat i) = None"
  by (auto simp: group_id_invalid_def groups_def nhg_inv_def not_le)

lemma groups_update:
  "i < length db \<Longrightarrow> groups (db[i := g]) =
    (groups db)(i := if is_valid g then Some (group_hops g) else None)"
  by (auto simp: groups_def fun_eq_iff nth_list_update)

lemma nhg_inv_update: "nhg_inv db \<Longrightarrow> group_ok g \<Longrightarrow> nhg_inv (db[i := g])"
  by (auto simp: nhg_inv_def list_all_iff dest: set_update_subset_insert [THEN subsetD])

lemma nhg_inv_nth: "nhg_inv db \<Longrightarrow> i < MAX_NEXT_HOP_GROUP_NUMBER \<Longrightarrow> group_ok (db ! i)"
  by (simp add: nhg_inv_def list_all_length)

lemma groups_Some:
  "nhg_inv db \<Longrightarrow> groups db i = Some hops \<Longrightarrow> i < MAX_NEXT_HOP_GROUP_NUMBER \<and> is_valid (db ! i)
    \<and> hops = group_hops (db ! i) \<and> group_ok (db ! i) \<and> length hops = unat (next_hop_count (db ! i))"
  by (auto simp: groups_def nhg_inv_def list_all_length group_ok_def group_hops_def split: if_splits)

section \<open>Reading\<close>

lemma db_get_spec:
  assumes "nhg_inv db"
  shows "db_get_next_hop_group db i =
    (case groups db (unat i) of
       None \<Rightarrow> Inl SAI_STATUS_INVALID_PARAMETER
     | Some hops \<Rightarrow> Inr (of_nat (length hops), next_hop_list (db ! unat i)))"
proof (cases "groups db (unat i)")
  case None
  then show ?thesis using assms by (simp add: db_get_next_hop_group_def group_id_invalid_iff)
next
  case (Some hops)
  then have "length hops = unat (next_hop_count (db ! unat i))"
    using groups_Some [OF assms] by blast
  then show ?thesis
    using Some assms by (simp add: db_get_next_hop_group_def group_id_invalid_iff)
qed

lemma find_free_loop_Some:
  "find_free_loop db k = Some j \<Longrightarrow>
   k \<le> j \<and> j - k < length db \<and> \<not> is_valid (db ! (j - k)) \<and> (\<forall>i < j - k. is_valid (db ! i))"
proof (induction db arbitrary: k)
  case (Cons g db)
  show ?case
  proof (cases "is_valid g")
    case True
    then have "find_free_loop db (Suc k) = Some j" using Cons.prems by simp
    note IH = Cons.IH [OF this]
    then have "Suc k \<le> j" and "j - k = Suc (j - Suc k)" by auto
    then show ?thesis using IH True by (auto simp: nth_Cons split: nat.splits)
  qed (use Cons.prems in simp)
qed simp

lemma find_free_loop_None: "find_free_loop db k = None \<Longrightarrow> \<forall>g \<in> set db. is_valid g"
  by (induction db arbitrary: k) (auto split: if_splits)

lemma find_free_spec:
  assumes "nhg_inv db"
  shows "case db_find_free_index db of
    Inl status \<Rightarrow> status = SAI_STATUS_TABLE_FULL
      \<and> (\<forall>i < MAX_NEXT_HOP_GROUP_NUMBER. groups db i \<noteq> None)
  | Inr j \<Rightarrow> unat j < MAX_NEXT_HOP_GROUP_NUMBER \<and> groups db (unat j) = None
      \<and> (\<forall>i < unat j. groups db i \<noteq> None)"
proof (cases "find_free_loop db 0")
  case None
  then show ?thesis
    using assms find_free_loop_None [OF None]
    by (simp add: db_find_free_index_def nhg_inv_def groups_def)
next
  case (Some j)
  then have j: "j < length db" "\<not> is_valid (db ! j)" "\<forall>i < j. is_valid (db ! i)"
    using find_free_loop_Some [OF Some] by simp_all
  then have "unat (of_nat j :: u32) = j"
    using assms by (intro unat_of_nat_small) (simp add: nhg_inv_def MAX_NEXT_HOP_GROUP_NUMBER_def)
  then show ?thesis
    using Some assms j by (simp add: db_find_free_index_def nhg_inv_def groups_def)
qed

section \<open>Validating and copying\<close>

lemma validate_loop_spec:
  "n \<le> length arr \<Longrightarrow> list_all named_type (take n arr) \<Longrightarrow> validate_loop n arr p = Inr
    (if list_all is_next_hop (take n arr) then SAI_STATUS_SUCCESS
     else SAI_STATUS_INVALID_ATTR_VALUE_0 + int p)"
  by (induction n arr p rule: validate_loop.induct)
    (auto simp: is_next_hop_def dest: named_type_str)

lemma validate_spec:
  "array_holds n arr \<Longrightarrow> validate_next_hop_list n arr p = Inr
    (if list_all is_next_hop (array_elements n arr) then SAI_STATUS_SUCCESS
     else SAI_STATUS_INVALID_ATTR_VALUE_0 + int p)"
  by (cases arr)
    (auto simp: validate_next_hop_list_def array_holds_def array_elements_def validate_loop_spec)

lemma copy_hops_spec:
  assumes "array_holds n arr" and "pos + unat n \<le> length dst"
  shows "\<exists>hops. copy_hops dst pos (the_default [] arr) (unat n) = Inr hops
    \<and> length hops = length dst \<and> take (pos + unat n) hops = take pos dst @ array_elements n arr"
  using assms
  by (cases arr) (auto simp: copy_hops_def array_holds_def array_elements_def)

section \<open>Operations\<close>

lemma fresh_group_ok:
  assumes "length hops = ECMP_MAX_PATHS" and "unat n \<le> ECMP_MAX_PATHS"
    and "list_all is_next_hop (take (unat n) hops)"
  shows "group_ok (g\<lparr>next_hop_count := n, next_hop_list := hops, is_valid := v\<rparr>)"
  using assms by (simp add: group_ok_def group_hops_def)

lemma db_create_spec:
  assumes inv: "nhg_inv db" and arr: "array_holds n arr" and p: "p < 131072"
  defines "hops \<equiv> array_elements n arr"
  shows "\<exists>r db'. db_create_next_hop_group db n arr p = Inr (r, db') \<and> nhg_inv db'
    \<and> (case r of
         Inl status \<Rightarrow> db' = db
           \<and> status = (if ECMP_MAX_PATHS < length hops \<or> hops = []
                then SAI_STATUS_INVALID_ATTR_VALUE_0 + int p
                else if \<forall>i < MAX_NEXT_HOP_GROUP_NUMBER. groups db i \<noteq> None
                then SAI_STATUS_TABLE_FULL
                else SAI_STATUS_INVALID_ATTR_VALUE_0 + int p)
           \<and> (ECMP_MAX_PATHS < length hops \<or> hops = []
              \<or> (\<forall>i < MAX_NEXT_HOP_GROUP_NUMBER. groups db i \<noteq> None)
              \<or> \<not> list_all is_next_hop hops)
       | Inr j \<Rightarrow> groups db' = (groups db)(unat j \<mapsto> hops)
           \<and> groups db (unat j) = None \<and> (\<forall>i < unat j. groups db i \<noteq> None)
           \<and> unat j < MAX_NEXT_HOP_GROUP_NUMBER
           \<and> hops \<noteq> [] \<and> length hops \<le> ECMP_MAX_PATHS \<and> list_all is_next_hop hops)"
proof -
  have len: "length hops = unat n" using arr by (simp add: hops_def)
  then have nil: "hops = [] \<longleftrightarrow> n = 0" by (metis length_0_conv unat_eq_0)
  show ?thesis
  proof (cases "ECMP_MAX_PATHS < length hops \<or> hops = []")
    case True
    then show ?thesis
      using inv len nil by (auto simp: db_create_next_hop_group_def)
  next
    case False
    then have guard: "unat n \<le> ECMP_MAX_PATHS" "n \<noteq> 0" using len nil by auto
    show ?thesis
    proof (cases "db_find_free_index db")
      case (Inl status)
      then show ?thesis
        using find_free_spec [OF inv] guard False inv
        by (simp add: db_create_next_hop_group_def)
    next
      case (Inr j)
      then have j: "unat j < MAX_NEXT_HOP_GROUP_NUMBER" "groups db (unat j) = None"
          "\<forall>i < unat j. groups db i \<noteq> None"
        using find_free_spec [OF inv] by simp_all
      then have notfull: "\<not> (\<forall>i < MAX_NEXT_HOP_GROUP_NUMBER. groups db i \<noteq> None)" by blast
      have ok: "group_ok (db ! unat j)" using nhg_inv_nth [OF inv j(1)] .
      then obtain h where h: "copy_hops (next_hop_list (db ! unat j)) 0 (the_default [] arr) (unat n)
            = Inr h" "length h = ECMP_MAX_PATHS" "take (unat n) h = hops"
        using copy_hops_spec [OF arr, of 0 "next_hop_list (db ! unat j)"] guard
        by (auto simp: group_ok_def hops_def)
      show ?thesis
      proof (cases "list_all is_next_hop hops")
        case True
        let ?g = "(db ! unat j)\<lparr>next_hop_count := n, next_hop_list := h, is_valid := True\<rparr>"
        have "group_ok ?g" using h guard True by (intro fresh_group_ok) simp_all
        then have "nhg_inv (db[unat j := ?g])" by (rule nhg_inv_update [OF inv])
        moreover have "groups (db[unat j := ?g]) = (groups db)(unat j \<mapsto> hops)"
          using j inv h by (subst groups_update) (simp_all add: nhg_inv_def group_hops_def)
        moreover have "db_create_next_hop_group db n arr p = Inr (Inr j, db[unat j := ?g])"
          using Inr guard validate_spec [OF arr, of p] True h
          by (simp add: db_create_next_hop_group_def Let_def hops_def status_defs)
        ultimately show ?thesis using j False True by simp
      next
        case notall: False
        have "SAI_STATUS_INVALID_ATTR_VALUE_0 + int p \<noteq> SAI_STATUS_SUCCESS"
          using p by (simp add: status_defs)
        then have "db_create_next_hop_group db n arr p
            = Inr (Inl (SAI_STATUS_INVALID_ATTR_VALUE_0 + int p), db)"
          using Inr guard validate_spec [OF arr, of p] notall
          by (simp add: db_create_next_hop_group_def Let_def hops_def)
        then show ?thesis using notfull False notall inv by auto
      qed
    qed
  qed
qed

definition created ::
  "next_hop_group_db \<Rightarrow> next_hop_group_db \<Rightarrow> u64 list \<Rightarrow> sai_status + u32 \<Rightarrow> bool" where
  "created db db' hops r = (case r of
     Inl status \<Rightarrow> db' = db \<and> status \<noteq> SAI_STATUS_SUCCESS
   | Inr j \<Rightarrow> groups db' = (groups db)(unat j \<mapsto> hops) \<and> groups db (unat j) = None \<and> hops \<noteq> [])"

lemma db_create_created:
  assumes "nhg_inv db" and "array_holds n arr" and "p < 131072"
  shows "\<exists>r db'. db_create_next_hop_group db n arr p = Inr (r, db') \<and> nhg_inv db'
    \<and> created db db' (array_elements n arr) r"
proof -
  obtain r db' where r: "db_create_next_hop_group db n arr p = Inr (r, db')"
    using db_create_spec [OF assms] by blast
  note spec = db_create_spec [OF assms, unfolded r]
  then have "nhg_inv db'" by auto
  moreover have "created db db' (array_elements n arr) r"
    using spec assms(3)
    by (cases r) (auto simp: created_def status_defs split: if_splits)
  ultimately show ?thesis using r by blast
qed

lemma db_remove_spec:
  assumes inv: "nhg_inv db"
  shows "db_remove_next_hop_group db i = (status, db') \<Longrightarrow> nhg_inv db'
    \<and> (if groups db (unat i) = None then status = SAI_STATUS_INVALID_PARAMETER \<and> db' = db
       else status = SAI_STATUS_SUCCESS \<and> groups db' = (groups db)(unat i := None))"
proof (cases "groups db (unat i)")
  case None
  then show "db_remove_next_hop_group db i = (status, db') \<Longrightarrow> ?thesis"
    using inv by (simp add: db_remove_next_hop_group_def group_id_invalid_iff)
next
  case (Some hops)
  note g = groups_Some [OF inv Some]
  have "group_ok ((db ! unat i)\<lparr>is_valid := False\<rparr>)" using g by (simp add: group_ok_def)
  moreover have "unat i < length db" using g inv by (simp add: nhg_inv_def)
  ultimately show "db_remove_next_hop_group db i = (status, db') \<Longrightarrow> ?thesis"
    using Some inv
    by (auto simp: db_remove_next_hop_group_def group_id_invalid_iff groups_update nhg_inv_update)
qed

text \<open>Replacing the hops of a group through \<^verbatim>\<open>db_update_next_hop_group_list\<close>: a dead id is
  refused, more than 64 hops or a hop of another object type are refused without a change, and
  otherwise the map of groups changes at that id only, to the given hops.\<close>

lemma db_update_spec:
  assumes inv: "nhg_inv db" and arr: "array_holds n arr"
  defines "hops \<equiv> array_elements n arr"
  shows "\<exists>status db'. db_update_next_hop_group_list db i n arr = Inr (status, db') \<and> nhg_inv db'
    \<and> (if groups db (unat i) = None then status = SAI_STATUS_INVALID_PARAMETER \<and> db' = db
       else if length hops \<le> ECMP_MAX_PATHS \<and> list_all is_next_hop hops
       then status = SAI_STATUS_SUCCESS \<and> groups db' = (groups db)(unat i \<mapsto> hops)
       else status = SAI_STATUS_INVALID_ATTR_VALUE_0 \<and> db' = db)"
proof (cases "groups db (unat i)")
  case None
  then show ?thesis using inv by (simp add: db_update_next_hop_group_list_def group_id_invalid_iff)
next
  case (Some old)
  note g = groups_Some [OF inv Some]
  have valid: "\<not> group_id_invalid db i" using Some inv by (simp add: group_id_invalid_iff)
  have len: "length hops = unat n" using arr by (simp add: hops_def)
  show ?thesis
  proof (cases "length hops \<le> ECMP_MAX_PATHS \<and> list_all is_next_hop hops")
    case True
    obtain h where h: "copy_hops (next_hop_list (db ! unat i)) 0 (the_default [] arr) (unat n)
          = Inr h" "length h = ECMP_MAX_PATHS" "take (unat n) h = hops"
      using copy_hops_spec [OF arr, of 0 "next_hop_list (db ! unat i)"] g True len
      by (auto simp: group_ok_def hops_def)
    let ?g = "(db ! unat i)\<lparr>next_hop_count := n, next_hop_list := h\<rparr>"
    have "group_ok ?g"
      using h True len by (simp add: group_ok_def group_hops_def)
    moreover have "unat i < length db" using g inv by (simp add: nhg_inv_def)
    moreover have "db_update_next_hop_group_list db i n arr
        = Inr (SAI_STATUS_SUCCESS, db[unat i := ?g])"
      using valid validate_spec [OF arr, of 0] True h len
      by (simp add: db_update_next_hop_group_list_def Let_def hops_def status_defs)
    ultimately show ?thesis
      using Some True g h(3) inv
      by (auto simp: groups_update nhg_inv_update group_hops_def)
  next
    case False
    then have "db_update_next_hop_group_list db i n arr = Inr (SAI_STATUS_INVALID_ATTR_VALUE_0, db)"
      using valid validate_spec [OF arr, of 0] len
      by (auto simp: db_update_next_hop_group_list_def Let_def hops_def status_defs)
    then show ?thesis using Some False inv by auto
  qed
qed

text \<open>Adding next hops to a group, for counts far enough below \<open>2 ^ 32\<close> for the sum not to wrap:
  a dead id is refused, exceeding 64 hops or a hop of another type is refused without a change, and
  otherwise the given hops are appended to those of the group and no other group changes.\<close>

lemma db_add_spec:
  assumes inv: "nhg_inv db" and arr: "array_holds n arr" and small: "unat n < 2 ^ 32 - ECMP_MAX_PATHS"
  defines "hops \<equiv> array_elements n arr"
  shows "\<exists>status db'. db_add_members_next_hop_group_list db i n arr = Inr (status, db') \<and> nhg_inv db'
    \<and> (case groups db (unat i) of
         None \<Rightarrow> status = SAI_STATUS_INVALID_PARAMETER \<and> db' = db
       | Some old \<Rightarrow>
           if length old + length hops \<le> ECMP_MAX_PATHS \<and> list_all is_next_hop hops
           then status = SAI_STATUS_SUCCESS \<and> groups db' = (groups db)(unat i \<mapsto> old @ hops)
           else status = SAI_STATUS_INVALID_ATTR_VALUE_0 \<and> db' = db)"
proof (cases "groups db (unat i)")
  case None
  then show ?thesis
    using inv by (simp add: db_add_members_next_hop_group_list_def group_id_invalid_iff)
next
  case (Some old)
  note g = groups_Some [OF inv Some]
  let ?c = "next_hop_count (db ! unat i)"
  have valid: "\<not> group_id_invalid db i" using Some inv by (simp add: group_id_invalid_iff)
  have len: "length hops = unat n" using arr by (simp add: hops_def)
  have c: "length old = unat ?c" "unat ?c \<le> ECMP_MAX_PATHS" using g by (auto simp: group_ok_def)
  have sum: "unat (n + ?c) = unat n + unat ?c"
    using small c(2) by (simp add: unat_word_ariths ECMP_MAX_PATHS_def)
  show ?thesis
  proof (cases "length old + length hops \<le> ECMP_MAX_PATHS \<and> list_all is_next_hop hops")
    case True
    obtain h where h: "copy_hops (next_hop_list (db ! unat i)) (unat ?c) (the_default [] arr) (unat n)
          = Inr h" "length h = ECMP_MAX_PATHS" "take (unat ?c + unat n) h = old @ hops"
      using copy_hops_spec [OF arr, of "unat ?c" "next_hop_list (db ! unat i)"] g True len c
      by (auto simp: group_ok_def hops_def group_hops_def)
    let ?g = "(db ! unat i)\<lparr>next_hop_count := ?c + n, next_hop_list := h\<rparr>"
    have cn: "unat (?c + n) = unat ?c + unat n" using sum by (simp add: add.commute)
    have "list_all is_next_hop old" using g by (simp add: group_ok_def)
    then have "group_ok ?g"
      using h True len c by (simp add: group_ok_def group_hops_def cn)
    moreover have "unat i < length db" using g inv by (simp add: nhg_inv_def)
    moreover have "db_add_members_next_hop_group_list db i n arr
        = Inr (SAI_STATUS_SUCCESS, db[unat i := ?g])"
      using valid validate_spec [OF arr, of 0] True h len c sum
      by (simp add: db_add_members_next_hop_group_list_def Let_def hops_def status_defs)
    ultimately show ?thesis
      using Some True g h(3) inv
      by (auto simp: groups_update nhg_inv_update group_hops_def cn)
  next
    case False
    then have "db_add_members_next_hop_group_list db i n arr
        = Inr (SAI_STATUS_INVALID_ATTR_VALUE_0, db)"
      using valid validate_spec [OF arr, of 0] len sum c
      by (auto simp: db_add_members_next_hop_group_list_def Let_def hops_def status_defs)
    then show ?thesis using Some False inv by auto
  qed
qed

section \<open>Removing members\<close>

lemma next_hop_in_list_spec:
  "n \<le> length arr \<Longrightarrow> next_hop_in_list h n arr = Inr (h \<in> set (take n arr))"
  by (induction h n arr rule: next_hop_in_list.induct) auto

lemma swap_delete_mset:
  assumes "ii < k" and "k \<le> length hops"
  shows "mset (drop ii (take k hops)) =
    add_mset (hops ! ii) (mset (drop ii (take (k - 1) (hops[ii := hops ! (k - 1)]))))"
proof -
  obtain k' where k: "k = Suc k'" using assms(1) by (cases k) auto
  have full: "take k hops = take k' hops @ [hops ! k']"
    using assms(2) k by (simp add: take_Suc_conv_app_nth)
  show ?thesis
  proof (cases "ii = k'")
    case True
    then show ?thesis using assms(2) k full by simp
  next
    case False
    then have lt: "ii < k'" using assms(1) k by simp
    have "drop ii (take k' hops) = hops ! ii # drop (Suc ii) (take k' hops)"
      using lt assms(2) k by (simp add: Cons_nth_drop_Suc [symmetric])
    moreover have "drop ii (take k' (hops[ii := x])) = x # drop (Suc ii) (take k' hops)" for x
      using lt assms(2) k
      by (simp add: take_update_swap drop_update_swap Cons_nth_drop_Suc [symmetric])
    ultimately show ?thesis using full lt k assms(2) by simp
  qed
qed

lemma remove_members_loop_spec:
  assumes "n \<le> length arr" and "ii \<le> k" and "k \<le> length hops"
  shows "\<exists>k' hops'. remove_members_loop n arr ii k hops = Inr (k', hops')
    \<and> k' \<le> k \<and> length hops' = length hops
    \<and> mset (take k' hops') = mset (take ii hops)
        + filter_mset (\<lambda>h. h \<notin> set (take n arr)) (mset (drop ii (take k hops)))"
  using assms
proof (induction n arr ii k hops rule: remove_members_loop.induct)
  case (1 n arr ii k hops)
  show ?case
  proof (cases "ii < k")
    case False
    then show ?thesis using "1.prems" by (subst remove_members_loop.simps) simp
  next
    case True
    note mem = next_hop_in_list_spec [OF "1.prems"(1), of "hops ! ii"]
    show ?thesis
    proof (cases "hops ! ii \<in> set (take n arr)")
      case del: True
      let ?hops = "hops[ii := hops ! (k - 1)]"
      have "remove_members_loop n arr ii k hops = remove_members_loop n arr ii (k - 1) ?hops"
        using True mem del by (subst remove_members_loop.simps) simp
      moreover have "take ii ?hops = take ii hops" by simp
      moreover note swap_delete_mset [OF True "1.prems"(3)]
      moreover have "n \<le> length arr" "ii \<le> k - 1" "k - 1 \<le> length ?hops"
        using "1.prems" True by simp_all
      note IH = "1.IH"(1) [OF True mem _ this]
      ultimately show ?thesis using IH del by (auto simp: del)
    next
      case keep: False
      have "remove_members_loop n arr ii k hops = remove_members_loop n arr (Suc ii) k hops"
        using True mem keep by (subst remove_members_loop.simps) simp
      moreover have "drop ii (take k hops) = hops ! ii # drop (Suc ii) (take k hops)"
        using True "1.prems"(3) by (simp add: Cons_nth_drop_Suc [symmetric])
      moreover have "take (Suc ii) hops = take ii hops @ [hops ! ii]"
        using True "1.prems"(3) by (simp add: take_Suc_conv_app_nth)
      moreover have "n \<le> length arr" "Suc ii \<le> k" "k \<le> length hops"
        using "1.prems" True by simp_all
      note IH = "1.IH"(2) [OF True mem _ this]
      ultimately show ?thesis using IH keep by (auto simp: keep)
    qed
  qed
qed

text \<open>Removing next hops from a live group always succeeds and leaves, in some order and with
  their multiplicities, exactly the hops that are not in the given array; other groups, and the
  invariant of the table, are kept. A dead id is refused.\<close>

lemma db_remove_members_spec:
  assumes inv: "nhg_inv db" and arr: "unat n \<le> length arr"
  shows "\<exists>status db'. db_remove_members_next_hop_group_list db i n arr = Inr (status, db')
    \<and> nhg_inv db'
    \<and> (case groups db (unat i) of
         None \<Rightarrow> status = SAI_STATUS_INVALID_PARAMETER \<and> db' = db
       | Some old \<Rightarrow> status = SAI_STATUS_SUCCESS
           \<and> (\<exists>hops. groups db' = (groups db)(unat i \<mapsto> hops)
                \<and> mset hops = filter_mset (\<lambda>h. h \<notin> set (take (unat n) arr)) (mset old)))"
proof (cases "groups db (unat i)")
  case None
  then show ?thesis
    using inv by (simp add: db_remove_members_next_hop_group_list_def group_id_invalid_iff)
next
  case (Some old)
  note g = groups_Some [OF inv Some]
  let ?g = "db ! unat i"
  have valid: "\<not> group_id_invalid db i" using Some inv by (simp add: group_id_invalid_iff)
  have bounds: "unat (next_hop_count ?g) \<le> length (next_hop_list ?g)" and
      len: "length (next_hop_list ?g) = ECMP_MAX_PATHS"
    using g by (auto simp: group_ok_def)
  obtain k h where loop: "remove_members_loop (unat n) arr 0 (unat (next_hop_count ?g))
        (next_hop_list ?g) = Inr (k, h)"
    and k: "k \<le> ECMP_MAX_PATHS" "length h = ECMP_MAX_PATHS"
    and m: "mset (take k h) = filter_mset (\<lambda>h. h \<notin> set (take (unat n) arr)) (mset old)"
    using remove_members_loop_spec [OF arr, of 0 "unat (next_hop_count ?g)" "next_hop_list ?g"]
      bounds len g by (auto simp: group_hops_def)
  have kw: "unat (of_nat k :: u32) = k"
    using k by (intro unat_of_nat_small) (simp add: ECMP_MAX_PATHS_def)
  let ?g' = "?g\<lparr>next_hop_count := of_nat k, next_hop_list := h\<rparr>"
  have "set_mset (mset (take k h)) \<subseteq> set old" unfolding m by auto
  then have "list_all is_next_hop (take k h)"
    using g by (auto simp: group_ok_def list_all_iff)
  then have "group_ok ?g'" using k by (simp add: group_ok_def group_hops_def kw)
  moreover have "unat i < length db" using g inv by (simp add: nhg_inv_def)
  moreover have "db_remove_members_next_hop_group_list db i n arr
      = Inr (SAI_STATUS_SUCCESS, db[unat i := ?g'])"
    using valid loop by (simp add: db_remove_members_next_hop_group_list_def Let_def)
  ultimately show ?thesis
    using Some g inv m by (auto simp: groups_update nhg_inv_update group_hops_def kw)
qed

section \<open>The API\<close>

definition nhg_ids_ok :: "next_hop_group_ids \<Rightarrow> bool" where
  "nhg_ids_ok ids \<longleftrightarrow> distinct [id_next_hop_count ids, id_type ids, id_next_hop_list ids]"

lemma find_attrib_loop_found:
  "i \<in> attr_id ` set attrs \<Longrightarrow>
   \<exists>a k. find_attrib_loop attrs i ii = Some (attr_value a, ii + k) \<and> k < length attrs
     \<and> a \<in> set attrs \<and> attr_id a = i"
proof (induction attrs arbitrary: ii)
  case (Cons a attrs)
  show ?case
  proof (cases "attr_id a = i")
    case True
    then show ?thesis by (auto intro!: exI [of _ a] exI [of _ 0])
  next
    case False
    then obtain b k where "find_attrib_loop attrs i (Suc ii) = Some (attr_value b, Suc ii + k)"
      and "k < length attrs" "b \<in> set attrs" "attr_id b = i"
      using Cons.IH [of "Suc ii"] Cons.prems by auto
    then show ?thesis using False by (auto intro!: exI [of _ b] exI [of _ "Suc k"])
  qed
qed simp

definition lists_have_room :: "next_hop_group_ids \<Rightarrow> sai_attribute list \<Rightarrow> bool" where
  "lists_have_room ids attrs \<longleftrightarrow>
     list_all (\<lambda>a. attr_id a = id_next_hop_list ids \<longrightarrow>
       array_holds (val_u32 (attr_value a)) (val_list (attr_value a))) attrs"

text \<open>The next hops of an attribute list.\<close>

definition hop_list_attr :: "next_hop_group_ids \<Rightarrow> sai_attribute list \<Rightarrow> u64 list \<Rightarrow> bool" where
  "hop_list_attr ids attrs hops \<longleftrightarrow>
     (\<exists>a \<in> set attrs. attr_id a = id_next_hop_list ids
        \<and> hops = array_elements (val_u32 (attr_value a)) (val_list (attr_value a)))"

lemma create_check_attrs:
  assumes "nhg_ids_ok ids" and "length attrs \<le> 65536"
    and "check_attribs_metadata True (length attrs) (Some attrs)
      (Some (next_hop_group_attribs ids)) (Some (next_hop_group_vendor_attribs ids)) OpCreate
      = SAI_STATUS_SUCCESS"
  shows "id_type ids \<in> attr_id ` set attrs" and "id_next_hop_list ids \<in> attr_id ` set attrs"
proof -
  have "distinct (map ae_id (next_hop_group_attribs ids))"
    using assms(1) by (simp add: next_hop_group_attribs_def nhg_ids_ok_def)
  note ok = iffD1 [OF check_attribs_metadata_ok [OF assms(2) _ this] assms(3)]
  have "\<forall>f \<in> set (next_hop_group_attribs ids). mandatory_on_create f \<longrightarrow> ae_id f \<in> attr_id ` set attrs"
    using ok by (simp add: attr_array_def)
  then show "id_type ids \<in> attr_id ` set attrs" and "id_next_hop_list ids \<in> attr_id ` set attrs"
    by (simp_all add: next_hop_group_attribs_def)
qed

text \<open>Creating a next hop group through the API, for any attribute list whose hop list
  has as many elements as its count says, with types that have a name: the call never faults, keeps the table invariant, changes nothing when it
  fails, and on success returns an object id that decodes to a group id that was free before and now
  maps to exactly the next hops of the list attribute.\<close>

lemma create_next_hop_group_api:
  assumes inv: "nhg_inv db" and ids: "nhg_ids_ok ids"
    and len: "length attrs \<le> 65536" and room: "lists_have_room ids attrs"
  shows "\<exists>r db'. stub_create_next_hop_group ids True (length attrs) (Some attrs) db = Inr (r, db')
    \<and> nhg_inv db'
    \<and> (case r of
         Inl status \<Rightarrow> status \<noteq> SAI_STATUS_SUCCESS \<and> db' = db
       | Inr oid \<Rightarrow> \<exists>i hops. stub_object_to_type oid SAI_OBJECT_TYPE_NEXT_HOP_GROUP = Inr i
           \<and> groups db (unat i) = None \<and> groups db' = (groups db)(unat i \<mapsto> hops)
           \<and> hop_list_attr ids attrs hops \<and> hops \<noteq> [])"
proof -
  let ?status = "check_attribs_metadata True (length attrs) (Some attrs)
      (Some (next_hop_group_attribs ids)) (Some (next_hop_group_vendor_attribs ids)) OpCreate"
  show ?thesis
  proof (cases "?status = SAI_STATUS_SUCCESS")
    case False
    then show ?thesis using inv by (simp add: stub_create_next_hop_group_def)
  next
    case True
    note present = create_check_attrs [OF ids len True]
    obtain t :: sai_attribute and tk where t: "find_attrib_loop attrs (id_type ids) 0 = Some (attr_value t, 0 + tk)"
      and tk: "tk < length attrs"
      using find_attrib_loop_found [OF present(1), of 0] by blast
    obtain h :: sai_attribute and hk where h: "find_attrib_loop attrs (id_next_hop_list ids) 0
          = Some (attr_value h, 0 + hk)"
      and hk: "hk < length attrs" "h \<in> set attrs" "attr_id h = id_next_hop_list ids"
      using find_attrib_loop_found [OF present(2), of 0] by blast
    have find: "find_attrib_in_list (length attrs) (Some attrs) (id_type ids) = Inr (attr_value t, tk)"
      "find_attrib_in_list (length attrs) (Some attrs) (id_next_hop_list ids) = Inr (attr_value h, hk)"
      using t h by (simp_all add: find_attrib_in_list_def attr_array_def)
    show ?thesis
    proof (cases "s32 (attr_value t) = sint (SAI_NEXT_HOP_GROUP_ECMP ids)")
      case False
      then show ?thesis
        using True find inv tk len by (simp add: stub_create_next_hop_group_def status_defs)
    next
      case ecmp: True
      let ?n = "val_u32 (attr_value h)" and ?arr = "val_list (attr_value h)"
      have "array_holds ?n ?arr" using room hk by (auto simp: lists_have_room_def list_all_iff)
      then obtain r db' where r: "db_create_next_hop_group db ?n ?arr hk = Inr (r, db')" "nhg_inv db'"
        and cases: "created db db' (array_elements ?n ?arr) r"
        using db_create_created [OF inv, of ?n ?arr hk] hk(1) len by auto
      have step: "stub_create_next_hop_group ids True (length attrs) (Some attrs) db =
          (case r of Inl status \<Rightarrow> Inr (Inl status, db')
           | Inr j \<Rightarrow> Inr (stub_create_object SAI_OBJECT_TYPE_NEXT_HOP_GROUP j, db'))"
        using True find ecmp r(1) by (simp add: stub_create_next_hop_group_def split: sum.splits)
      show ?thesis
      proof (cases r)
        case (Inl status)
        then show ?thesis using step cases [unfolded created_def] r(2) by simp
      next
        case (Inr j)
        obtain oid where oid: "stub_create_object SAI_OBJECT_TYPE_NEXT_HOP_GROUP j = Inr oid"
          using create_object_ok [of SAI_OBJECT_TYPE_NEXT_HOP_GROUP j]
          by (auto simp: SAI_OBJECT_TYPE_NEXT_HOP_GROUP_def SAI_OBJECT_TYPE_MAX_def)
        then show ?thesis
          using Inr step cases [unfolded created_def] r(2) hk object_to_type_create [OF oid]
          by (auto simp: hop_list_attr_def)
      qed
    qed
  qed
qed

text \<open>Reading the hop list of a group through its getter: an id that is not a live group is
  refused; otherwise the caller gets exactly the next hops of the group when its array is large
  enough, and the number of hops with \<^verbatim>\<open>SAI_STATUS_BUFFER_OVERFLOW\<close> when it is not.\<close>

theorem hop_list_get_reads_group:
  assumes inv: "nhg_inv db" and room: "list_room val"
    and oid: "stub_object_to_type oid SAI_OBJECT_TYPE_NEXT_HOP_GROUP = Inr i"
  shows "case groups db (unat i) of
      None \<Rightarrow> stub_next_hop_group_hop_list_get oid val k db = Inr (SAI_STATUS_INVALID_PARAMETER, val)
    | Some hops \<Rightarrow> \<exists>val'. val_u32 val' = of_nat (length hops)
        \<and> (if unat (val_u32 val) < length hops
           then stub_next_hop_group_hop_list_get oid val k db
                = Inr (SAI_STATUS_BUFFER_OVERFLOW, val') \<and> val_list val' = val_list val
           else stub_next_hop_group_hop_list_get oid val k db
                = Inr (SAI_STATUS_SUCCESS, val') \<and> list_elements val' = hops)"
proof (cases "groups db (unat i)")
  case None
  then show ?thesis
    using oid db_get_spec [OF inv, of i] by (simp add: stub_next_hop_group_hop_list_get_def)
next
  case (Some hops)
  note g = groups_Some [OF inv Some]
  let ?n = "next_hop_count (db ! unat i)" and ?l = "next_hop_list (db ! unat i)"
  have n: "?n = of_nat (length hops)" and bound: "unat ?n \<le> length ?l" and "hops = take (unat ?n) ?l"
    using g by (auto simp: group_ok_def group_hops_def)
  moreover have "val_u32 val < ?n \<longleftrightarrow> unat (val_u32 val) < length hops"
    unfolding word_less_nat_alt using g by metis
  moreover obtain val' where "stub_fill_genericlist 8 (Some ?l) ?n val =
      Inr (if val_u32 val < ?n then SAI_STATUS_BUFFER_OVERFLOW else SAI_STATUS_SUCCESS, val')"
    and "val_u32 val' = ?n" and "val_u32 val < ?n \<longrightarrow> val_list val' = val_list val"
    and "\<not> val_u32 val < ?n \<longrightarrow> list_elements val' = take (unat ?n) ?l"
    using fill_genericlist_spec [of 8 ?n ?l val] bound room by auto
  moreover have "stub_next_hop_group_hop_list_get oid val k db = stub_fill_genericlist 8 (Some ?l) ?n val"
    using oid db_get_spec [OF inv, of i] Some n
    by (simp add: stub_next_hop_group_hop_list_get_def stub_fill_objlist_def)
  ultimately show ?thesis using Some by (auto intro!: exI [of _ val'])
qed

text \<open>The capacity test of \<^verbatim>\<open>db_add_members_next_hop_group_list\<close> adds two \<^verbatim>\<open>uint32_t\<close>: when the
  given count is \<open>2 ^ 32\<close> minus the current one, the sum is zero, the test passes, and copying the
  (valid) next hops writes past the end of the group's array.\<close>

theorem add_members_wraps_around:
  assumes inv: "nhg_inv db" and old: "groups db (unat i) = Some old" "old \<noteq> []"
    and hops: "length arr = 2 ^ 32 - length old" "list_all is_next_hop arr"
  shows "db_add_members_next_hop_group_list db i (of_nat (length arr)) (Some arr) = Inl OutOfBounds"
proof -
  note g = groups_Some [OF inv old(1)]
  let ?c = "next_hop_count (db ! unat i)"
  have c: "length old = unat ?c" "unat ?c \<le> ECMP_MAX_PATHS" "0 < length old"
    "length (next_hop_list (db ! unat i)) = ECMP_MAX_PATHS"
    using g old(2) by (auto simp: group_ok_def)
  have n: "unat (of_nat (length arr) :: u32) = length arr"
    using c hops(1) by (intro unat_of_nat_small) simp
  have valid: "\<not> group_id_invalid db i" using old inv by (simp add: group_id_invalid_iff)
  have "list_all named_type arr"
    using hops(2) next_hop_named by (auto simp: list_all_iff)
  then have holds: "array_holds (of_nat (length arr)) (Some arr)" by (simp add: array_holds_def n)
  have "unat (of_nat (length arr) + ?c) = 0"
    using c hops(1) n by (simp add: unat_word_ariths ECMP_MAX_PATHS_def)
  moreover have "validate_next_hop_list (of_nat (length arr)) (Some arr) 0 = Inr SAI_STATUS_SUCCESS"
    using validate_spec [OF holds, of 0] hops(2) by (simp add: array_elements_def n)
  moreover have "ECMP_MAX_PATHS < unat ?c + length arr"
    using c hops(1) by (simp add: ECMP_MAX_PATHS_def)
  ultimately show ?thesis
    using valid c(4) n
    by (simp add: db_add_members_next_hop_group_list_def Let_def copy_hops_def)
qed

end
