(* ===== verification/Machine.thy ===== *)
theory Machine
  imports Prelude
begin

text \<open>
  A component as a machine that answers calls: states reached from the start by well-formed calls,
  and the contract (locale \<open>machine\<close>) that one call keeps the invariant of the state, returns without
  a fault, and is a step of an abstract specification. From the contract follow, for every sequence of
  calls: no fault, the invariant, and every invariant of the specification.
\<close>

inductive reachable ::
    "('s \<Rightarrow> bool) \<Rightarrow> ('c \<Rightarrow> 's \<Rightarrow> bool) \<Rightarrow> ('c \<Rightarrow> 's \<Rightarrow> ('r \<times> 's) checked) \<Rightarrow> 's \<Rightarrow> bool"
  for start ok exec
where
  reachable_start: "start s \<Longrightarrow> reachable start ok exec s"
| reachable_call: "reachable start ok exec s \<Longrightarrow> ok c s \<Longrightarrow> exec c s = Inr (r, s') \<Longrightarrow>
    reachable start ok exec s'"

inductive_cases reachableE: "reachable start ok exec s"

text \<open>The part of the contract that a component keeps which may fault: the calls that return keep the invariant.\<close>

locale keeping =
  fixes start :: "'s \<Rightarrow> bool"
    and ok :: "'c \<Rightarrow> 's \<Rightarrow> bool"
    and exec :: "'c \<Rightarrow> 's \<Rightarrow> ('r \<times> 's) checked"
    and inv :: "'s \<Rightarrow> bool"
  assumes start_keeps: "start s \<Longrightarrow> inv s"
    and exec_keeps: "inv s \<Longrightarrow> ok c s \<Longrightarrow> exec c s = Inr (r, s') \<Longrightarrow> inv s'"
begin

lemma reachable_inv: "reachable start ok exec s \<Longrightarrow> inv s"
  by (induction rule: reachable.induct) (use start_keeps exec_keeps in blast)+

end

locale machine =
  fixes start :: "'s \<Rightarrow> bool"
    and ok :: "'c \<Rightarrow> 's \<Rightarrow> bool"
    and exec :: "'c \<Rightarrow> 's \<Rightarrow> ('r \<times> 's) checked"
    and inv :: "'s \<Rightarrow> bool"
    and view :: "'s \<Rightarrow> 'a"
    and spec :: "'c \<Rightarrow> 'a \<Rightarrow> 'r \<Rightarrow> 'a \<Rightarrow> bool"
  assumes start_inv: "start s \<Longrightarrow> inv s"
    and exec_refines: "inv s \<Longrightarrow> ok c s \<Longrightarrow>
      \<exists>r s'. exec c s = Inr (r, s') \<and> inv s' \<and> spec c (view s) r (view s')"
begin

lemma exec_result:
  assumes "inv s" and "ok c s" and "exec c s = Inr (r, s')"
  shows "inv s' \<and> spec c (view s) r (view s')"
  using exec_refines [OF assms(1,2)] assms(3) by auto

end

sublocale machine \<subseteq> keeping start ok exec inv
  by unfold_locales (use start_inv exec_result in blast)+

context machine
begin

lemma reachable_refines:
  assumes "reachable start ok exec s" and "ok c s"
  shows "\<exists>r s'. exec c s = Inr (r, s') \<and> reachable start ok exec s' \<and> spec c (view s) r (view s')"
  using exec_refines [OF reachable_inv [OF assms(1)] assms(2)] reachable_call [OF assms] by blast

text \<open>What every step of the specification keeps holds in every reachable state.\<close>

lemma reachable_view:
  assumes "\<And>s. start s \<Longrightarrow> P (view s)" and "\<And>c a r a'. spec c a r a' \<Longrightarrow> P a \<Longrightarrow> P a'"
  shows "reachable start ok exec s \<Longrightarrow> P (view s)"
proof (induction rule: reachable.induct)
  case (reachable_call s c r s')
  then show ?case using exec_result [OF reachable_inv] assms(2) by blast
qed (rule assms(1))

end

end
