(* ===== verification/NextHopMachine.thy ===== *)
theory NextHopMachine
  imports NextHopGroupFacts Machine
begin

text \<open>
  The next hop group API as a machine: its calls, what each of them does to the map of groups as a
  specification with the exact condition of success, and the refinement of the specification by the
  code. \<open>calloc_ok\<close> is the outcome of the allocation inside \<open>check_attribs_metadata\<close>.
\<close>

section \<open>Calls\<close>

datatype nhg_call =
    CreateGroup bool "sai_attribute list"
  | RemoveGroup u64
  | SetGroup bool u64 "sai_attribute option"
  | AddHops u64 u32 "u64 list option"
  | RemoveHops u64 u32 "u64 list option"

datatype nhg_result = Created u64 | Done | Refused sai_status

definition result_of :: "sai_status \<Rightarrow> nhg_result" where
  "result_of status = (if status = SAI_STATUS_SUCCESS then Done else Refused status)"

definition with_result ::
  "(sai_status \<times> next_hop_group_db) checked \<Rightarrow> (nhg_result \<times> next_hop_group_db) checked" where
  "with_result r = (case r of Inl e \<Rightarrow> Inl e | Inr (status, db) \<Rightarrow> Inr (result_of status, db))"

fun nhg_exec ::
  "next_hop_group_ids \<Rightarrow> nhg_call \<Rightarrow> next_hop_group_db \<Rightarrow> (nhg_result \<times> next_hop_group_db) checked" where
  "nhg_exec ids (CreateGroup calloc_ok attrs) db =
     (case stub_create_next_hop_group ids calloc_ok (length attrs) (Some attrs) db of
        Inl e \<Rightarrow> Inl e
      | Inr (Inl status, db) \<Rightarrow> Inr (Refused status, db)
      | Inr (Inr oid, db) \<Rightarrow> Inr (Created oid, db))"
| "nhg_exec ids (RemoveGroup oid) db = with_result (Inr (stub_remove_next_hop_group oid db))"
| "nhg_exec ids (SetGroup calloc_ok oid attr) db =
     with_result (stub_set_next_hop_group_attribute ids calloc_ok oid attr db)"
| "nhg_exec ids (AddHops oid n arr) db = with_result (stub_add_next_hop_to_group oid n arr db)"
| "nhg_exec ids (RemoveHops oid n arr) db = with_result (stub_remove_next_hop_from_group oid n arr db)"

text \<open>
  What a caller has to see to: arrays as long as their counts say, of objects whose types have a
  name, at most 65536 attributes, and fewer than \<^verbatim>\<open>2^32 - 64\<close> hops to add.
\<close>

fun nhg_call_ok :: "next_hop_group_ids \<Rightarrow> nhg_call \<Rightarrow> next_hop_group_db \<Rightarrow> bool" where
  "nhg_call_ok ids (CreateGroup calloc_ok attrs) db \<longleftrightarrow>
     length attrs \<le> 65536 \<and> lists_have_room ids attrs"
| "nhg_call_ok ids (RemoveGroup oid) db \<longleftrightarrow> True"
| "nhg_call_ok ids (SetGroup calloc_ok oid attr) db \<longleftrightarrow> (case attr of None \<Rightarrow> True
     | Some a \<Rightarrow> lists_have_room ids [a])"
| "nhg_call_ok ids (AddHops oid n arr) db \<longleftrightarrow>
     array_holds n arr \<and> unat n < 2 ^ 32 - ECMP_MAX_PATHS"
| "nhg_call_ok ids (RemoveHops oid n arr) db \<longleftrightarrow> unat n \<le> length (the_default [] arr) \<or> arr = None"

section \<open>Specification\<close>

type_synonym nhg_map = "nat \<Rightarrow> u64 list option"

definition group_of :: "u64 \<Rightarrow> nhg_map \<Rightarrow> nat option" where
  "group_of oid m = (case stub_object_to_type oid SAI_OBJECT_TYPE_NEXT_HOP_GROUP of
     Inl status \<Rightarrow> None
   | Inr i \<Rightarrow> if m (unat i) = None then None else Some (unat i))"

definition hops_valid :: "u64 list \<Rightarrow> bool" where
  "hops_valid hops \<longleftrightarrow> length hops \<le> ECMP_MAX_PATHS \<and> list_all is_next_hop hops"

definition attr_hops :: "sai_attribute \<Rightarrow> u64 list" where
  "attr_hops a = array_elements (val_u32 (attr_value a)) (val_list (attr_value a))"

definition hop_list_given :: "next_hop_group_ids \<Rightarrow> sai_attribute \<Rightarrow> bool" where
  "hop_list_given ids a \<longleftrightarrow> attr_id a = id_next_hop_list ids \<and> val_list (attr_value a) \<noteq> None"

text \<open>A list of exactly the two creation attributes, in any order.\<close>

definition create_list :: "next_hop_group_ids \<Rightarrow> sai_attribute list \<Rightarrow> sai_attribute \<Rightarrow> sai_attribute \<Rightarrow> bool" where
  "create_list ids attrs t h \<longleftrightarrow> (attrs = [t, h] \<or> attrs = [h, t])
     \<and> attr_id t = id_type ids \<and> hop_list_given ids h"

definition create_request :: "next_hop_group_ids \<Rightarrow> sai_attribute list \<Rightarrow> u64 list \<Rightarrow> bool" where
  "create_request ids attrs hops \<longleftrightarrow>
     (\<exists>t h. create_list ids attrs t h \<and> s32 (attr_value t) = sint (SAI_NEXT_HOP_GROUP_ECMP ids)
        \<and> hops = attr_hops h \<and> hops \<noteq> [] \<and> hops_valid hops)"

fun nhg_enabled :: "next_hop_group_ids \<Rightarrow> nhg_call \<Rightarrow> nhg_map \<Rightarrow> bool" where
  "nhg_enabled ids (CreateGroup calloc_ok attrs) m \<longleftrightarrow>
     calloc_ok \<and> (\<exists>hops. create_request ids attrs hops) \<and> (\<exists>i < MAX_NEXT_HOP_GROUP_NUMBER. m i = None)"
| "nhg_enabled ids (RemoveGroup oid) m \<longleftrightarrow> group_of oid m \<noteq> None"
| "nhg_enabled ids (SetGroup calloc_ok oid attr) m \<longleftrightarrow>
     calloc_ok \<and> group_of oid m \<noteq> None
     \<and> (case attr of None \<Rightarrow> False | Some a \<Rightarrow> hop_list_given ids a \<and> hops_valid (attr_hops a))"
| "nhg_enabled ids (AddHops oid n arr) m \<longleftrightarrow> arr \<noteq> None \<and> list_all is_next_hop (array_elements n arr)
     \<and> (case group_of oid m of None \<Rightarrow> False
        | Some i \<Rightarrow> length (the (m i)) + unat n \<le> ECMP_MAX_PATHS)"
| "nhg_enabled ids (RemoveHops oid n arr) m \<longleftrightarrow> arr \<noteq> None \<and> group_of oid m \<noteq> None"

text \<open>A call that is refused changes nothing, and it is refused only when it is not enabled.\<close>

inductive nhg_spec :: "next_hop_group_ids \<Rightarrow> nhg_call \<Rightarrow> nhg_map \<Rightarrow> nhg_result \<Rightarrow> nhg_map \<Rightarrow> bool"
  for ids
where
  spec_refused: "\<not> nhg_enabled ids c m \<Longrightarrow> status \<noteq> SAI_STATUS_SUCCESS \<Longrightarrow>
    nhg_spec ids c m (Refused status) m"
| spec_create: "create_request ids attrs hops \<Longrightarrow> i < MAX_NEXT_HOP_GROUP_NUMBER \<Longrightarrow> m i = None \<Longrightarrow>
    (\<And>j. j < i \<Longrightarrow> m j \<noteq> None) \<Longrightarrow> m' = m(i \<mapsto> hops) \<Longrightarrow> group_of oid m' = Some i \<Longrightarrow>
    nhg_spec ids (CreateGroup True attrs) m (Created oid) m'"
| spec_remove: "group_of oid m = Some i \<Longrightarrow> nhg_spec ids (RemoveGroup oid) m Done (m(i := None))"
| spec_set: "group_of oid m = Some i \<Longrightarrow> hop_list_given ids a \<Longrightarrow> hops_valid (attr_hops a) \<Longrightarrow>
    nhg_spec ids (SetGroup True oid (Some a)) m Done (m(i \<mapsto> attr_hops a))"
| spec_add: "group_of oid m = Some i \<Longrightarrow> m i = Some old \<Longrightarrow> hops = array_elements n (Some arr) \<Longrightarrow>
    length old + length hops \<le> ECMP_MAX_PATHS \<Longrightarrow> list_all is_next_hop hops \<Longrightarrow>
    nhg_spec ids (AddHops oid n (Some arr)) m Done (m(i \<mapsto> old @ hops))"
| spec_remove_hops: "group_of oid m = Some i \<Longrightarrow> m i = Some old \<Longrightarrow>
    mset hops = filter_mset (\<lambda>h. h \<notin> set (take (unat n) arr)) (mset old) \<Longrightarrow>
    nhg_spec ids (RemoveHops oid n (Some arr)) m Done (m(i \<mapsto> hops))"

section \<open>Single calls\<close>

lemma nhg_tables_distinct: "nhg_ids_ok ids \<Longrightarrow> distinct (map ae_id (next_hop_group_attribs ids))"
  by (simp add: next_hop_group_attribs_def nhg_ids_ok_def)

lemma nhg_tables_agree:
  "check_attrib_tables (next_hop_group_attribs ids) (next_hop_group_vendor_attribs ids)"
  by (simp add: next_hop_group_attribs_def next_hop_group_vendor_attribs_def)

lemma nhg_permitted_create:
  "nhg_ids_ok ids \<Longrightarrow>
   attr_permitted (next_hop_group_attribs ids) (next_hop_group_vendor_attribs ids) OpCreate a
     \<longleftrightarrow> attr_id a = id_type ids \<or> hop_list_given ids a"
  by (auto simp: attr_permitted_def next_hop_group_attribs_def next_hop_group_vendor_attribs_def
      nhg_ids_ok_def valid_for_def oper_flags_def list_type_def hop_list_given_def)

lemma nhg_permitted_set:
  "nhg_ids_ok ids \<Longrightarrow>
   attr_permitted (next_hop_group_attribs ids) (next_hop_group_vendor_attribs ids) OpSet a
     \<longleftrightarrow> hop_list_given ids a"
  by (auto simp: attr_permitted_def next_hop_group_attribs_def next_hop_group_vendor_attribs_def
      nhg_ids_ok_def valid_for_def oper_flags_def list_type_def hop_list_given_def)

lemma distinct_two: "distinct xs \<Longrightarrow> set xs = {x, y} \<Longrightarrow> x \<noteq> y \<Longrightarrow> xs = [x, y] \<or> xs = [y, x]"
proof -
  assume d: "distinct xs" and s: "set xs = {x, y}" and n: "x \<noteq> y"
  then have "length xs = 2" using distinct_card [OF d] by simp
  then obtain a b where "xs = [a, b]" by (auto simp: numeral_2_eq_2 length_Suc_conv)
  then show ?thesis using s n by auto
qed

lemma create_list_exists:
  assumes ids: "nhg_ids_ok ids"
    and attrs: "\<forall>a \<in> set attrs. attr_id a = id_type ids \<or> hop_list_given ids a"
    and d: "distinct (map attr_id attrs)"
    and present: "id_type ids \<in> attr_id ` set attrs" "id_next_hop_list ids \<in> attr_id ` set attrs"
  shows "\<exists>t h. create_list ids attrs t h"
proof -
  obtain t h :: sai_attribute where th: "t \<in> set attrs" "h \<in> set attrs" "attr_id t = id_type ids" "attr_id h = id_next_hop_list ids"
    using present by (metis imageE)
  have ne: "id_type ids \<noteq> id_next_hop_list ids" using ids by (simp add: nhg_ids_ok_def)
  have inj: "inj_on attr_id (set attrs)" using d by (simp add: distinct_map)
  have "a = t \<or> a = h" if "a \<in> set attrs" for a
    using that attrs th inj_onD [OF inj] by (metis hop_list_given_def)
  then have set: "set attrs = {t, h}" using th by auto
  have "distinct attrs" using d by (simp add: distinct_map)
  moreover have "t \<noteq> h" using th ne by auto
  ultimately have "attrs = [t, h] \<or> attrs = [h, t]" using distinct_two [OF _ set] by blast
  moreover have "hop_list_given ids h" using attrs th ne by auto
  ultimately show ?thesis using th unfolding create_list_def by blast
qed

lemma create_list_checked:
  assumes ids: "nhg_ids_ok ids" and len: "length attrs \<le> 65536"
  shows "check_attribs_metadata calloc_ok (length attrs) (Some attrs)
      (Some (next_hop_group_attribs ids)) (Some (next_hop_group_vendor_attribs ids)) OpCreate
      = SAI_STATUS_SUCCESS \<longleftrightarrow> calloc_ok \<and> (\<exists>t h. create_list ids attrs t h)"
proof (cases calloc_ok)
  case True
  have ne: "id_type ids \<noteq> id_next_hop_list ids" using ids by (simp add: nhg_ids_ok_def)
  have "attrs_permitted (next_hop_group_attribs ids) (next_hop_group_vendor_attribs ids) OpCreate attrs
      \<and> id_type ids \<in> attr_id ` set attrs \<and> id_next_hop_list ids \<in> attr_id ` set attrs
      \<longleftrightarrow> (\<exists>t h. create_list ids attrs t h)" (is "?l \<longleftrightarrow> ?r")
  proof
    assume ?l
    then show ?r unfolding attrs_permitted_def nhg_permitted_create [OF ids]
      using create_list_exists [OF ids] by blast
  next
    assume ?r
    then show ?l using ne
      by (auto simp: create_list_def attrs_permitted_def nhg_permitted_create [OF ids]
          hop_list_given_def)
  qed
  moreover have "(\<forall>f \<in> set (next_hop_group_attribs ids). mandatory_on_create f \<longrightarrow> ae_id f \<in> attr_id ` set attrs)
      \<longleftrightarrow> id_type ids \<in> attr_id ` set attrs \<and> id_next_hop_list ids \<in> attr_id ` set attrs"
    by (simp add: next_hop_group_attribs_def)
  ultimately show ?thesis
    using True check_attribs_metadata_ok [OF len _ nhg_tables_distinct [OF ids], of "Some attrs"
        "next_hop_group_vendor_attribs ids" OpCreate] nhg_tables_agree [of ids]
    by (simp add: attr_array_def)
next
  case False
  then show ?thesis by (simp add: check_attribs_metadata_def status_defs)
qed

lemma create_list_unique:
  "nhg_ids_ok ids \<Longrightarrow> create_list ids attrs t h \<Longrightarrow> create_list ids attrs t' h' \<Longrightarrow> t' = t \<and> h' = h"
  by (auto simp: create_list_def hop_list_given_def nhg_ids_ok_def)

lemma create_list_find:
  assumes "nhg_ids_ok ids" and "create_list ids attrs t h"
  shows "\<exists>tk hk. tk < 2 \<and> hk < 2
    \<and> find_attrib_in_list (length attrs) (Some attrs) (id_type ids) = Inr (attr_value t, tk)
    \<and> find_attrib_in_list (length attrs) (Some attrs) (id_next_hop_list ids) = Inr (attr_value h, hk)"
  using assms
  by (auto simp: create_list_def hop_list_given_def nhg_ids_ok_def find_attrib_in_list_def attr_array_def)

lemma group_of_created:
  assumes "stub_create_object SAI_OBJECT_TYPE_NEXT_HOP_GROUP j = Inr oid" and "m (unat j) \<noteq> None"
  shows "group_of oid m = Some (unat j)"
  using object_to_type_create [OF assms(1)] assms(2) by (simp add: group_of_def)

lemma create_group_object: "\<exists>oid. stub_create_object SAI_OBJECT_TYPE_NEXT_HOP_GROUP j = Inr oid"
  by (rule create_object_ok) (simp add: SAI_OBJECT_TYPE_NEXT_HOP_GROUP_def SAI_OBJECT_TYPE_MAX_def)

lemma exec_create:
  assumes inv: "nhg_inv db" and ids: "nhg_ids_ok ids"
    and ok: "nhg_call_ok ids (CreateGroup calloc_ok attrs) db"
  shows "\<exists>r db'. nhg_exec ids (CreateGroup calloc_ok attrs) db = Inr (r, db') \<and> nhg_inv db'
    \<and> nhg_spec ids (CreateGroup calloc_ok attrs) (groups db) r (groups db')"
proof -
  have len: "length attrs \<le> 65536" and room: "lists_have_room ids attrs" using ok by simp_all
  let ?status = "check_attribs_metadata calloc_ok (length attrs) (Some attrs)
      (Some (next_hop_group_attribs ids)) (Some (next_hop_group_vendor_attribs ids)) OpCreate"
  show ?thesis
  proof (cases "?status = SAI_STATUS_SUCCESS")
    case False
    then have "\<not> nhg_enabled ids (CreateGroup calloc_ok attrs) (groups db)"
      unfolding create_list_checked [OF ids len] by (auto simp: create_request_def)
    from spec_refused [OF this False] show ?thesis
      using False inv by (simp add: stub_create_next_hop_group_def Let_def)
  next
    case True
    then obtain t h where calloc_ok and th: "create_list ids attrs t h"
      unfolding create_list_checked [OF ids len] by blast
    from create_list_find [OF ids th] obtain tk hk where k: "tk < 2" "hk < 2"
      and find: "find_attrib_in_list (length attrs) (Some attrs) (id_type ids) = Inr (attr_value t, tk)"
        "find_attrib_in_list (length attrs) (Some attrs) (id_next_hop_list ids) = Inr (attr_value h, hk)"
      by blast
    have request: "create_request ids attrs hops \<longleftrightarrow>
        s32 (attr_value t) = sint (SAI_NEXT_HOP_GROUP_ECMP ids) \<and> hops = attr_hops h \<and> hops \<noteq> []
        \<and> hops_valid hops" for hops
      unfolding create_request_def using create_list_unique [OF ids th] th by blast
    show ?thesis
    proof (cases "s32 (attr_value t) = sint (SAI_NEXT_HOP_GROUP_ECMP ids)")
      case False
      then have "\<not> nhg_enabled ids (CreateGroup calloc_ok attrs) (groups db)" by (simp add: request)
      moreover have "SAI_STATUS_INVALID_ATTR_VALUE_0 + int tk \<noteq> SAI_STATUS_SUCCESS"
        using k by (simp add: status_defs)
      ultimately have "nhg_spec ids (CreateGroup calloc_ok attrs) (groups db)
          (Refused (SAI_STATUS_INVALID_ATTR_VALUE_0 + int tk)) (groups db)" by (rule spec_refused)
      then show ?thesis using True find False inv by (simp add: stub_create_next_hop_group_def)
    next
      case ecmp: True
      let ?n = "val_u32 (attr_value h)" and ?arr = "val_list (attr_value h)"
      have arr: "array_holds ?n ?arr"
        using room th by (auto simp: lists_have_room_def create_list_def hop_list_given_def)
      have hk: "hk < 131072" using k by simp
      obtain r db' where r: "db_create_next_hop_group db ?n ?arr hk = Inr (r, db')"
        using db_create_spec [OF inv arr hk] by blast
      note spec = db_create_spec [OF inv arr hk, unfolded r]
      have step: "nhg_exec ids (CreateGroup calloc_ok attrs) db =
          (case r of Inl status \<Rightarrow> Inr (Refused status, db')
           | Inr j \<Rightarrow> (case stub_create_object SAI_OBJECT_TYPE_NEXT_HOP_GROUP j of
               Inl status \<Rightarrow> Inr (Refused status, db') | Inr oid \<Rightarrow> Inr (Created oid, db')))"
        using True find ecmp r(1) by (simp add: stub_create_next_hop_group_def split: sum.splits)
      show ?thesis
      proof (cases r)
        case (Inl status)
        then have "\<not> nhg_enabled ids (CreateGroup calloc_ok attrs) (groups db)"
          and "status \<noteq> SAI_STATUS_SUCCESS" and "db' = db"
          using spec hk by (auto simp: request attr_hops_def hops_valid_def status_defs)
        then show ?thesis using Inl step inv spec_refused by auto
      next
        case (Inr j)
        obtain oid where oid: "stub_create_object SAI_OBJECT_TYPE_NEXT_HOP_GROUP j = Inr oid"
          using create_group_object by blast
        have new: "groups db' = (groups db)(unat j \<mapsto> attr_hops h)" and inv': "nhg_inv db'"
          and free: "groups db (unat j) = None" "unat j < MAX_NEXT_HOP_GROUP_NUMBER"
            "\<And>i. i < unat j \<Longrightarrow> groups db i \<noteq> None"
          and req: "create_request ids attrs (attr_hops h)"
          using spec Inr ecmp unfolding request by (auto simp: attr_hops_def hops_valid_def)
        have "nhg_spec ids (CreateGroup True attrs) (groups db) (Created oid) (groups db')"
          using spec_create [OF req free(2,1,3) new] group_of_created [OF oid] new by simp
        then show ?thesis using Inr oid step inv' \<open>calloc_ok\<close> by simp
      qed
    qed
  qed
qed

lemma group_of_cases:
  obtains (dead) status where "stub_object_to_type oid SAI_OBJECT_TYPE_NEXT_HOP_GROUP = Inl status"
      and "status = SAI_STATUS_INVALID_PARAMETER" and "group_of oid m = None"
  | (id) i where "stub_object_to_type oid SAI_OBJECT_TYPE_NEXT_HOP_GROUP = Inr i"
      and "group_of oid m = (if m (unat i) = None then None else Some (unat i))"
proof (cases "stub_object_to_type oid SAI_OBJECT_TYPE_NEXT_HOP_GROUP")
  case (Inl status)
  moreover have "status = SAI_STATUS_INVALID_PARAMETER"
    using Inl by (auto simp: stub_object_to_type_def split: if_splits)
  ultimately show thesis by (intro dead) (auto simp: group_of_def)
next
  case (Inr i)
  then show thesis by (intro id) (auto simp: group_of_def)
qed

lemmas refused_statuses = SAI_STATUS_INVALID_PARAMETER_def SAI_STATUS_SUCCESS_def
  SAI_STATUS_INVALID_ATTR_VALUE_0_def

lemma spec_invalid_parameter:
  "\<not> nhg_enabled ids c m \<Longrightarrow> nhg_spec ids c m (result_of SAI_STATUS_INVALID_PARAMETER) m"
  using spec_refused by (simp add: result_of_def refused_statuses)

lemma spec_invalid_value:
  "\<not> nhg_enabled ids c m \<Longrightarrow> nhg_spec ids c m (result_of SAI_STATUS_INVALID_ATTR_VALUE_0) m"
  using spec_refused by (simp add: result_of_def refused_statuses)

lemma exec_remove:
  assumes inv: "nhg_inv db"
  shows "\<exists>r db'. nhg_exec ids (RemoveGroup oid) db = Inr (r, db') \<and> nhg_inv db'
    \<and> nhg_spec ids (RemoveGroup oid) (groups db) r (groups db')"
proof (cases rule: group_of_cases [of oid "groups db"])
  case (dead status)
  then show ?thesis
    using inv spec_invalid_parameter [of ids "RemoveGroup oid" "groups db"]
    by (simp add: with_result_def stub_remove_next_hop_group_def)
next
  case (id i)
  obtain status db' where r: "db_remove_next_hop_group db i = (status, db')" by force
  note spec = db_remove_spec [OF inv r]
  have step: "nhg_exec ids (RemoveGroup oid) db = Inr (result_of status, db')"
    using id(1) r by (simp add: with_result_def stub_remove_next_hop_group_def)
  show ?thesis
  proof (cases "groups db (unat i)")
    case None
    then show ?thesis
      using spec step id(2) inv spec_invalid_parameter [of ids "RemoveGroup oid" "groups db"] by simp
  next
    case (Some hops)
    then show ?thesis
      using spec step id(2) spec_remove [of oid "groups db" "unat i" ids]
      by (simp add: result_of_def)
  qed
qed

lemma exec_add:
  assumes inv: "nhg_inv db" and ok: "nhg_call_ok ids (AddHops oid n arr) db"
  shows "\<exists>r db'. nhg_exec ids (AddHops oid n arr) db = Inr (r, db') \<and> nhg_inv db'
    \<and> nhg_spec ids (AddHops oid n arr) (groups db) r (groups db')"
proof (cases arr)
  case None
  then show ?thesis
    using inv spec_invalid_parameter [of ids "AddHops oid n arr" "groups db"]
    by (simp add: with_result_def stub_add_next_hop_to_group_def)
next
  case arr: (Some a)
  show ?thesis
  proof (cases rule: group_of_cases [of oid "groups db"])
    case (dead status)
    then show ?thesis
      using inv arr spec_invalid_parameter [of ids "AddHops oid n arr" "groups db"]
      by (simp add: with_result_def stub_add_next_hop_to_group_def)
  next
    case (id i)
    have holds: "array_holds n arr" and small: "unat n < 2 ^ 32 - ECMP_MAX_PATHS" using ok by simp_all
    obtain status db' where r: "db_add_members_next_hop_group_list db i n arr = Inr (status, db')"
      using db_add_spec [OF inv holds small] by blast
    note spec = db_add_spec [OF inv holds small, of i, unfolded r]
    have step: "nhg_exec ids (AddHops oid n arr) db = Inr (result_of status, db')"
      using id(1) r arr by (simp add: with_result_def stub_add_next_hop_to_group_def)
    show ?thesis
    proof (cases "group_of oid (groups db) = None \<or> \<not> nhg_enabled ids (AddHops oid n arr) (groups db)")
      case True
      then have "\<not> nhg_enabled ids (AddHops oid n arr) (groups db)" by auto
      moreover have "db' = db \<and> (status = SAI_STATUS_INVALID_PARAMETER
          \<or> status = SAI_STATUS_INVALID_ATTR_VALUE_0)"
        using spec True id(2) arr length_array_elements [OF holds] by (auto split: if_splits)
      ultimately show ?thesis
        using step inv spec_invalid_parameter spec_invalid_value by blast
    next
      case False
      then obtain old where old: "groups db (unat i) = Some old" using id(2) by (auto split: if_splits)
      have enabled: "length old + length (array_elements n arr) \<le> ECMP_MAX_PATHS"
        "list_all is_next_hop (array_elements n arr)"
        using False old id(2) length_array_elements [OF holds] by auto
      then have "groups db' = (groups db)(unat i \<mapsto> old @ array_elements n arr)" "nhg_inv db'"
        and "status = SAI_STATUS_SUCCESS"
        using spec old by auto
      then show ?thesis
        using step arr enabled old id(2) spec_add [of oid "groups db" "unat i" old _ n a ids]
        by (simp add: result_of_def)
    qed
  qed
qed

lemma exec_remove_hops:
  assumes inv: "nhg_inv db" and ok: "nhg_call_ok ids (RemoveHops oid n arr) db"
  shows "\<exists>r db'. nhg_exec ids (RemoveHops oid n arr) db = Inr (r, db') \<and> nhg_inv db'
    \<and> nhg_spec ids (RemoveHops oid n arr) (groups db) r (groups db')"
proof (cases arr)
  case None
  then show ?thesis
    using inv spec_invalid_parameter [of ids "RemoveHops oid n arr" "groups db"]
    by (simp add: with_result_def stub_remove_next_hop_from_group_def)
next
  case arr: (Some a)
  show ?thesis
  proof (cases rule: group_of_cases [of oid "groups db"])
    case (dead status)
    then show ?thesis
      using inv arr spec_invalid_parameter [of ids "RemoveHops oid n arr" "groups db"]
      by (simp add: with_result_def stub_remove_next_hop_from_group_def)
  next
    case (id i)
    have len: "unat n \<le> length a" using ok arr by simp
    obtain status db' where r: "db_remove_members_next_hop_group_list db i n a = Inr (status, db')"
      using db_remove_members_spec [OF inv len] by blast
    note spec = db_remove_members_spec [OF inv len, of i, unfolded r]
    have step: "nhg_exec ids (RemoveHops oid n arr) db = Inr (result_of status, db')"
      using id(1) r arr by (simp add: with_result_def stub_remove_next_hop_from_group_def)
    show ?thesis
    proof (cases "groups db (unat i)")
      case None
      then show ?thesis
        using spec step id(2) inv spec_invalid_parameter [of ids "RemoveHops oid n arr" "groups db"]
        by simp
    next
      case (Some old)
      then obtain hops where "groups db' = (groups db)(unat i \<mapsto> hops)"
        and "mset hops = filter_mset (\<lambda>h. h \<notin> set (take (unat n) a)) (mset old)"
        and "status = SAI_STATUS_SUCCESS" "nhg_inv db'"
        using spec by auto
      then show ?thesis
        using Some step arr id(2) spec_remove_hops [of oid "groups db" "unat i" old hops n a ids]
        by (simp add: result_of_def)
    qed
  qed
qed

lemma set_checked:
  assumes ids: "nhg_ids_ok ids"
  shows "check_attribs_metadata calloc_ok 1 (map_option (\<lambda>a. [a]) attr)
      (Some (next_hop_group_attribs ids)) (Some (next_hop_group_vendor_attribs ids)) OpSet
      = SAI_STATUS_SUCCESS \<longleftrightarrow> calloc_ok \<and> (\<exists>a. attr = Some a \<and> hop_list_given ids a)"
proof (cases "calloc_ok \<and> attr \<noteq> None")
  case True
  then obtain a where a: "attr = Some a" by blast
  have "attrs_permitted (next_hop_group_attribs ids) (next_hop_group_vendor_attribs ids) OpSet [a]
      \<longleftrightarrow> hop_list_given ids a"
    by (simp add: attrs_permitted_def nhg_permitted_set [OF ids])
  then show ?thesis
    using True a check_attribs_metadata_ok [of 1 "Some [a]" "next_hop_group_attribs ids"
        "next_hop_group_vendor_attribs ids" OpSet] nhg_tables_distinct [OF ids] nhg_tables_agree [of ids]
    by (simp add: attr_array_def)
next
  case False
  then show ?thesis by (auto simp: check_attribs_metadata_def status_defs)
qed

lemma set_dispatched:
  assumes "nhg_ids_ok ids" and "hop_list_given ids a"
  shows "set_dispatch_attrib_handler (Some a) (Some (next_hop_group_attribs ids))
      (Some (next_hop_group_vendor_attribs ids)) oid db
    = stub_next_hop_group_hop_list_set oid (attr_value a) db"
  using assms
  by (auto simp: set_dispatch_attrib_handler_def hop_list_given_def nhg_ids_ok_def
      find_functionality_attrib_index_def next_hop_group_attribs_def next_hop_group_vendor_attribs_def)

lemma exec_set:
  assumes inv: "nhg_inv db" and ids: "nhg_ids_ok ids"
    and ok: "nhg_call_ok ids (SetGroup calloc_ok oid attr) db"
  shows "\<exists>r db'. nhg_exec ids (SetGroup calloc_ok oid attr) db = Inr (r, db') \<and> nhg_inv db'
    \<and> nhg_spec ids (SetGroup calloc_ok oid attr) (groups db) r (groups db')"
proof -
  let ?status = "check_attribs_metadata calloc_ok 1 (map_option (\<lambda>a. [a]) attr)
      (Some (next_hop_group_attribs ids)) (Some (next_hop_group_vendor_attribs ids)) OpSet"
  show ?thesis
  proof (cases "?status = SAI_STATUS_SUCCESS")
    case False
    then have "\<not> nhg_enabled ids (SetGroup calloc_ok oid attr) (groups db)"
      unfolding set_checked [OF ids] by (auto split: option.splits)
    from spec_refused [OF this False] show ?thesis
      using False inv
      by (simp add: with_result_def result_of_def stub_set_next_hop_group_attribute_def
          sai_set_attribute_def)
  next
    case True
    then obtain a where a: "attr = Some a" "hop_list_given ids a" and calloc_ok
      unfolding set_checked [OF ids] by blast
    let ?n = "val_u32 (attr_value a)" and ?arr = "val_list (attr_value a)"
    have arr: "array_holds ?n ?arr"
      using ok a by (simp add: lists_have_room_def hop_list_given_def)
    have step: "nhg_exec ids (SetGroup calloc_ok oid attr) db =
        with_result (stub_next_hop_group_hop_list_set oid (attr_value a) db)"
      using True a set_dispatched [OF ids a(2)]
      by (simp add: stub_set_next_hop_group_attribute_def sai_set_attribute_def)
    show ?thesis
    proof (cases rule: group_of_cases [of oid "groups db"])
      case (dead status)
      then show ?thesis
        using inv step spec_invalid_parameter [of ids "SetGroup calloc_ok oid attr" "groups db"]
        by (simp add: with_result_def stub_next_hop_group_hop_list_set_def)
    next
      case (id i)
      obtain status db' where r: "db_update_next_hop_group_list db i ?n ?arr = Inr (status, db')"
        using db_update_spec [OF inv arr] by blast
      note spec = db_update_spec [OF inv arr, of i, unfolded r]
      have step: "nhg_exec ids (SetGroup calloc_ok oid attr) db = Inr (result_of status, db')"
        using id(1) r step by (simp add: with_result_def stub_next_hop_group_hop_list_set_def)
      show ?thesis
      proof (cases "nhg_enabled ids (SetGroup calloc_ok oid attr) (groups db)")
        case False
        then have "db' = db \<and> (status = SAI_STATUS_INVALID_PARAMETER
            \<or> status = SAI_STATUS_INVALID_ATTR_VALUE_0)"
          using spec id(2) a \<open>calloc_ok\<close> by (auto simp: hops_valid_def attr_hops_def split: if_splits)
        then show ?thesis
          using step inv False spec_invalid_parameter spec_invalid_value by blast
      next
        case enabled: True
        then have "groups db' = (groups db)(unat i \<mapsto> attr_hops a)" "nhg_inv db'"
          and "status = SAI_STATUS_SUCCESS"
          using spec a id(2) by (auto simp: hops_valid_def attr_hops_def split: if_splits)
        then show ?thesis
          using step a enabled id(2) spec_set [of oid "groups db" "unat i" ids a]
          by (auto simp: result_of_def split: if_splits)
      qed
    qed
  qed
qed

section \<open>The machine\<close>

definition nhg_start :: "next_hop_group_ids \<Rightarrow> next_hop_group_db \<Rightarrow> bool" where
  "nhg_start ids db \<longleftrightarrow> nhg_ids_ok ids \<and> db = db_init_next_hop_group"

definition nhg_machine_inv :: "next_hop_group_ids \<Rightarrow> next_hop_group_db \<Rightarrow> bool" where
  "nhg_machine_inv ids db \<longleftrightarrow> nhg_ids_ok ids \<and> nhg_inv db"

abbreviation nhg_reachable :: "next_hop_group_ids \<Rightarrow> next_hop_group_db \<Rightarrow> bool" where
  "nhg_reachable ids \<equiv> reachable (nhg_start ids) (nhg_call_ok ids) (nhg_exec ids)"

interpretation nhg: machine "nhg_start ids" "nhg_call_ok ids" "nhg_exec ids" "nhg_machine_inv ids"
  groups "nhg_spec ids" for ids
proof
  show "nhg_start ids db \<Longrightarrow> nhg_machine_inv ids db" for db
    by (simp add: nhg_start_def nhg_machine_inv_def init_inv)
  show "\<exists>r db'. nhg_exec ids c db = Inr (r, db') \<and> nhg_machine_inv ids db'
      \<and> nhg_spec ids c (groups db) r (groups db')"
    if "nhg_machine_inv ids db" and "nhg_call_ok ids c db" for db c
    using that exec_create exec_remove exec_set exec_add exec_remove_hops
    unfolding nhg_machine_inv_def by (cases c) metis+
qed

definition groups_valid :: "nhg_map \<Rightarrow> bool" where
  "groups_valid m \<longleftrightarrow> (\<forall>i hops. m i = Some hops \<longrightarrow> i < MAX_NEXT_HOP_GROUP_NUMBER \<and> hops_valid hops)"

lemma hops_valid_filter:
  assumes "hops_valid old" and "mset hops = filter_mset P (mset old)"
  shows "hops_valid hops"
proof -
  have sub: "mset hops \<subseteq># mset old" using assms(2) by simp
  have "length hops \<le> length old" using size_mset_mono [OF sub] by simp
  moreover have "set hops \<subseteq> set old" using set_mset_mono [OF sub] by simp
  ultimately show ?thesis using assms(1) by (auto simp: hops_valid_def list_all_iff)
qed

lemma groups_valid_some: "groups_valid m \<Longrightarrow> m i = Some hops \<Longrightarrow> i < MAX_NEXT_HOP_GROUP_NUMBER \<and> hops_valid hops"
  by (simp add: groups_valid_def)

lemma groups_valid_upd:
  "groups_valid m \<Longrightarrow> i < MAX_NEXT_HOP_GROUP_NUMBER \<Longrightarrow> hops_valid hops \<Longrightarrow> groups_valid (m(i \<mapsto> hops))"
  by (simp add: groups_valid_def)

lemma group_of_live: "group_of oid m = Some i \<Longrightarrow> \<exists>hops. m i = Some hops"
  by (auto simp: group_of_def split: sum.splits if_splits)

lemma spec_groups_valid: "nhg_spec ids c m r m' \<Longrightarrow> groups_valid m \<Longrightarrow> groups_valid m'"
proof (induction rule: nhg_spec.induct)
  case (spec_create attrs hops i m m' oid)
  then have "hops_valid hops" by (auto simp: create_request_def)
  then show ?case using spec_create groups_valid_upd by metis
next
  case (spec_set oid m i a)
  then show ?case using groups_valid_upd groups_valid_some group_of_live by metis
next
  case (spec_add oid m i old hops n arr)
  then have "hops_valid (old @ hops)" using groups_valid_some by (auto simp: hops_valid_def)
  then show ?case using spec_add groups_valid_upd groups_valid_some by metis
next
  case (spec_remove_hops oid m i old hops n arr)
  then show ?case using groups_valid_upd groups_valid_some hops_valid_filter by metis
qed (auto simp: groups_valid_def)

lemma reachable_groups_valid: "nhg_reachable ids db \<Longrightarrow> groups_valid (groups db)"
proof (rule nhg.reachable_view [of ids groups_valid])
  show "nhg_start ids db \<Longrightarrow> groups_valid (groups db)" for db
    by (simp add: nhg_start_def init_groups groups_valid_def)
  show "nhg_spec ids c m r m' \<Longrightarrow> groups_valid m \<Longrightarrow> groups_valid m'" for c m r m'
    by (rule spec_groups_valid)
qed

lemma room_left:
  assumes "card (dom (groups db)) < MAX_NEXT_HOP_GROUP_NUMBER"
  shows "\<exists>i < MAX_NEXT_HOP_GROUP_NUMBER. groups db i = None"
proof (rule ccontr)
  assume "\<not> ?thesis"
  then have "{..<MAX_NEXT_HOP_GROUP_NUMBER} \<subseteq> dom (groups db)" by auto
  moreover have "finite (dom (groups db))"
    by (rule finite_subset [of _ "{..<length db}"]) (auto simp: groups_def split: if_splits)
  ultimately have "card {..<MAX_NEXT_HOP_GROUP_NUMBER} \<le> card (dom (groups db))" by (intro card_mono)
  then show False using assms by simp
qed

lemma create_served:
  assumes reach: "nhg_reachable ids db" and few: "card (dom (groups db)) < MAX_NEXT_HOP_GROUP_NUMBER"
    and ok: "nhg_call_ok ids (CreateGroup True attrs) db" and req: "create_request ids attrs hops"
  shows "\<exists>oid db' i. nhg_exec ids (CreateGroup True attrs) db = Inr (Created oid, db')
    \<and> group_of oid (groups db') = Some i \<and> groups db i = None
    \<and> groups db' = (groups db)(i \<mapsto> hops)"
proof -
  obtain r db' where r: "nhg_exec ids (CreateGroup True attrs) db = Inr (r, db')"
    and spec: "nhg_spec ids (CreateGroup True attrs) (groups db) r (groups db')"
    using nhg.reachable_refines [OF reach ok] by blast
  have ids: "nhg_ids_ok ids" using nhg.reachable_inv [OF reach] by (simp add: nhg_machine_inv_def)
  have unique: "hops' = hops" if "create_request ids attrs hops'" for hops'
    using that req create_list_unique [OF ids] unfolding create_request_def by metis
  have enabled: "nhg_enabled ids (CreateGroup True attrs) (groups db)"
    using room_left [OF few] req by auto
  from spec show ?thesis
  proof (cases rule: nhg_spec.cases)
    case (spec_create hops' i oid)
    then show ?thesis using unique r by metis
  qed (use enabled in auto)
qed

section \<open>Properties\<close>


text \<open>C33. In every reachable state of the next hop group table each live group has an id below 1000
  and at most 64 members, all of them next hop objects.\<close>

theorem next_hop_groups_invariant:
  assumes "nhg_reachable ids db" and "groups db i = Some hops"
  shows "i < MAX_NEXT_HOP_GROUP_NUMBER \<and> length hops \<le> ECMP_MAX_PATHS \<and> list_all is_next_hop hops"
  using groups_valid_some [OF reachable_groups_valid [OF assms(1)] assms(2)] by (simp add: hops_valid_def)

text \<open>While fewer than 1000 groups are live, a creation request with the type ECMP and 1 to 64
  next hops is served in every reachable state: the returned object id names a group that did not
  exist, and now has those hops; the others are as before.\<close>

theorem next_hop_create_served:
  assumes reach: "nhg_reachable ids db" and few: "card (dom (groups db)) < MAX_NEXT_HOP_GROUP_NUMBER"
    and ok: "nhg_call_ok ids (CreateGroup True attrs) db" and req: "create_request ids attrs hops"
  shows "\<exists>oid db' i. nhg_exec ids (CreateGroup True attrs) db = Inr (Created oid, db')
    \<and> group_of oid (groups db') = Some i \<and> groups db i = None
    \<and> groups db' = (groups db)(i \<mapsto> hops)"
  by (rule create_served [OF assms])

end
