(* ===== verification/StubVlan.thy ===== *)
theory StubVlan
  imports StubAttrib
begin

text \<open>
  VLANs of the stub (\<^verbatim>\<open>stub/src/stub_sai_vlan.c\<close>): a heap array of VLANs that is reallocated at
  every creation and removal, each with a heap array of its ports. Whether an allocation succeeds
  is an argument. The theory shows that, while allocations succeed, the array is a map from VLAN
  ids to port lists with distinct ids in range; a failed reallocation loses the array but keeps the
  count, and the next call dereferences NULL.
\<close>

record sai_vlan_port =
  port_id :: u64
  tagging_mode :: nat

record vlan =
  vid :: u16
  number_of_ports :: int
  port_list :: "sai_vlan_port list option"

record vlan_db =
  number_of_vlans :: int
  vlans :: "vlan list option"

definition PORT_NUMBER :: nat where "PORT_NUMBER = 32"
definition SAI_OBJECT_TYPE_PORT :: nat where "SAI_OBJECT_TYPE_PORT = 1"

text \<open>
  \<^verbatim>\<open>realloc(p, n)\<close>: keeps the first elements, frees the block when \<open>n\<close> is zero, and fails when the
  allocator does (always for a size that was negative before its conversion). New elements have the
  value \<open>z\<close> until they are written; every caller writes them before it reads them.
\<close>

definition c_realloc :: "bool \<Rightarrow> 'a \<Rightarrow> 'a list option \<Rightarrow> int \<Rightarrow> 'a list option" where
  "c_realloc ok z p n =
     (if n = 0 then (if p = None \<and> ok then Some [] else None)
      else if ok \<and> 0 < n
      then (let xs = the_default [] p in Some (take (nat n) xs @ replicate (nat n - length xs) z))
      else None)"

definition vlan_id_range_ok :: "u16 \<Rightarrow> bool" where
  "vlan_id_range_ok i \<longleftrightarrow> 1 \<le> unat i \<and> unat i \<le> 4095"

section \<open>Lookup\<close>

fun find_vlan_loop :: "nat \<Rightarrow> vlan list \<Rightarrow> u16 \<Rightarrow> nat \<Rightarrow> nat option checked" where
  "find_vlan_loop 0 arr i k = Inr None"
| "find_vlan_loop (Suc n) [] i k = Inl OutOfBounds"
| "find_vlan_loop (Suc n) (v # arr) i k =
     (if vid v = i then Inr (Some k) else find_vlan_loop n arr i (Suc k))"

definition find_vlan :: "vlan_db \<Rightarrow> u16 \<Rightarrow> nat option checked" where
  "find_vlan db i =
     (if number_of_vlans db \<le> 0 then Inr None
      else case vlans db of
        None \<Rightarrow> Inl NullDeref
      | Some arr \<Rightarrow> find_vlan_loop (nat (number_of_vlans db)) arr i 0)"

section \<open>Operations\<close>

definition zero_vlan :: vlan where
  "zero_vlan = \<lparr>vid = 0, number_of_ports = 0, port_list = None\<rparr>"

definition default_ports :: "nat \<Rightarrow> sai_vlan_port list" where
  "default_ports untagged =
     map (\<lambda>ii. \<lparr>port_id = (case stub_create_object SAI_OBJECT_TYPE_PORT (of_nat ii) of
                            Inr oid \<Rightarrow> oid | Inl status \<Rightarrow> 0),
               tagging_mode = untagged\<rparr>) [0..<PORT_NUMBER]"

text \<open>
  The allocation of the array is asserted, that of the ports is not: they are written through NULL
  when it fails. The value of \<^verbatim>\<open>SAI_VLAN_PORT_UNTAGGED\<close>, which the headers of the repository no
  longer define, is an argument.
\<close>

definition db_init_vlan :: "nat \<Rightarrow> bool \<Rightarrow> bool \<Rightarrow> vlan_db checked" where
  "db_init_vlan untagged malloc_vlans malloc_ports =
     (if \<not> malloc_vlans then Inl AssertFailed
      else if \<not> malloc_ports then Inl NullDeref
      else Inr \<lparr>number_of_vlans = 1,
                vlans = Some [\<lparr>vid = 1, number_of_ports = int PORT_NUMBER,
                               port_list = Some (default_ports untagged)\<rparr>]\<rparr>)"

definition stub_remove_all_vlans :: "vlan_db \<Rightarrow> sai_status \<times> vlan_db" where
  "stub_remove_all_vlans db = (SAI_STATUS_SUCCESS, db)"

definition stub_create_vlan :: "bool \<Rightarrow> u16 \<Rightarrow> vlan_db \<Rightarrow> (sai_status \<times> vlan_db) checked" where
  "stub_create_vlan realloc_ok i db =
     (if \<not> vlan_id_range_ok i then Inr (SAI_STATUS_INVALID_VLAN_ID, db)
      else case find_vlan db i of
        Inl e \<Rightarrow> Inl e
      | Inr (Some k) \<Rightarrow> Inr (SAI_STATUS_INVALID_VLAN_ID, db)
      | Inr None \<Rightarrow>
          (let n = number_of_vlans db + 1;
               arr = c_realloc realloc_ok zero_vlan (vlans db) n in
           case arr of
             None \<Rightarrow> Inr (SAI_STATUS_NO_MEMORY, \<lparr>number_of_vlans = n, vlans = None\<rparr>)
           | Some xs \<Rightarrow>
               Inr (SAI_STATUS_SUCCESS,
                 \<lparr>number_of_vlans = n,
                  vlans = Some (xs[nat n - 1 := \<lparr>vid = i, number_of_ports = 0, port_list = None\<rparr>])\<rparr>)))"

text \<open>
  The deletion loops move every element after index \<open>k\<close> among the first \<open>n\<close> one down.
\<close>

definition shift_down :: "'a list \<Rightarrow> nat \<Rightarrow> nat \<Rightarrow> 'a list" where
  "shift_down xs k n = take k xs @ drop (Suc k) (take n xs) @ drop (n - 1) xs"

definition stub_remove_vlan :: "bool \<Rightarrow> u16 \<Rightarrow> vlan_db \<Rightarrow> (sai_status \<times> vlan_db) checked" where
  "stub_remove_vlan realloc_ok i db =
     (case find_vlan db i of
        Inl e \<Rightarrow> Inl e
      | Inr None \<Rightarrow> Inr (SAI_STATUS_INVALID_VLAN_ID, db)
      | Inr (Some k) \<Rightarrow>
          (let shifted = shift_down (the_default [] (vlans db)) k (nat (number_of_vlans db));
               n = number_of_vlans db - 1;
               arr = c_realloc realloc_ok zero_vlan (Some shifted) n in
           if arr = None \<and> 0 < n
           then Inr (SAI_STATUS_NO_MEMORY, \<lparr>number_of_vlans = n, vlans = arr\<rparr>)
           else Inr (SAI_STATUS_SUCCESS, \<lparr>number_of_vlans = n, vlans = arr\<rparr>)))"

definition update_vlan :: "nat \<Rightarrow> vlan \<Rightarrow> vlan_db \<Rightarrow> vlan_db" where
  "update_vlan k v db = db\<lparr>vlans := map_option (\<lambda>arr. arr[k := v]) (vlans db)\<rparr>"

definition vlan_at :: "vlan_db \<Rightarrow> nat \<Rightarrow> vlan" where
  "vlan_at db k = the_default [] (vlans db) ! k"

definition zero_port :: sai_vlan_port where
  "zero_port = \<lparr>port_id = 0, tagging_mode = 0\<rparr>"

text \<open>
  \<^verbatim>\<open>new_size\<close> is an \<^verbatim>\<open>int\<close>, computed from an unsigned sum.
\<close>

definition stub_add_ports_to_vlan ::
  "bool \<Rightarrow> u16 \<Rightarrow> u32 \<Rightarrow> sai_vlan_port list option \<Rightarrow> vlan_db \<Rightarrow> (sai_status \<times> vlan_db) checked" where
  "stub_add_ports_to_vlan realloc_ok i port_count ports db =
     (case find_vlan db i of
        Inl e \<Rightarrow> Inl e
      | Inr None \<Rightarrow> Inr (SAI_STATUS_INVALID_VLAN_ID, db)
      | Inr (Some k) \<Rightarrow>
          (let v = vlan_at db k;
               old_size = number_of_ports v;
               new_size = wrap32 (old_size + uint port_count);
               arr = c_realloc realloc_ok zero_port (port_list v) new_size in
           case arr of
             None \<Rightarrow> Inr (SAI_STATUS_NO_MEMORY, update_vlan k (v\<lparr>port_list := None\<rparr>) db)
           | Some xs \<Rightarrow>
               (if port_count = 0 then
                  Inr (SAI_STATUS_SUCCESS,
                    update_vlan k (v\<lparr>port_list := arr, number_of_ports := new_size\<rparr>) db)
                else case ports of
                  None \<Rightarrow> Inl NullDeref
                | Some src \<Rightarrow>
                    (let n = unat port_count in
                     if length src < n \<or> length xs < nat old_size + n then Inl OutOfBounds
                     else
                       Inr (SAI_STATUS_SUCCESS,
                         update_vlan k
                           (v\<lparr>port_list := Some (take (nat old_size) xs @ take n src
                                                    @ drop (nat old_size + n) xs),
                              number_of_ports := new_size\<rparr>) db)))))"

fun find_port_loop :: "nat \<Rightarrow> sai_vlan_port list \<Rightarrow> u64 \<Rightarrow> nat \<Rightarrow> nat option checked" where
  "find_port_loop 0 ports p k = Inr None"
| "find_port_loop (Suc n) [] p k = Inl OutOfBounds"
| "find_port_loop (Suc n) (x # ports) p k =
     (if p = port_id x then Inr (Some k) else find_port_loop n ports p (Suc k))"

text \<open>The result tells whether the port was a member.\<close>

definition remove_a_port_from_vlan ::
  "bool \<Rightarrow> vlan \<Rightarrow> sai_vlan_port \<Rightarrow> (bool \<times> vlan) checked" where
  "remove_a_port_from_vlan realloc_ok v port =
     (if number_of_ports v \<le> 0 then Inr (False, v)
      else case port_list v of
        None \<Rightarrow> Inl NullDeref
      | Some ports \<Rightarrow>
          (case find_port_loop (nat (number_of_ports v)) ports (port_id port) 0 of
             Inl e \<Rightarrow> Inl e
           | Inr None \<Rightarrow> Inr (False, v)
           | Inr (Some k) \<Rightarrow>
               (let shifted = shift_down ports k (nat (number_of_ports v));
                    n = number_of_ports v - 1 in
                Inr (True, v\<lparr>number_of_ports := n,
                             port_list := c_realloc realloc_ok zero_port (Some shifted) n\<rparr>))))"

text \<open>The \<open>n\<close>-th reallocation of a call succeeds when \<open>alloc n\<close> says so.\<close>

fun remove_ports_loop ::
  "(nat \<Rightarrow> bool) \<Rightarrow> nat \<Rightarrow> nat \<Rightarrow> sai_vlan_port list \<Rightarrow> vlan \<Rightarrow> vlan checked" where
  "remove_ports_loop alloc i 0 ports v = Inr v"
| "remove_ports_loop alloc i (Suc n) [] v = Inl OutOfBounds"
| "remove_ports_loop alloc i (Suc n) (p # ports) v =
     (case remove_a_port_from_vlan (alloc i) v p of
        Inl e \<Rightarrow> Inl e
      | Inr (deleted, v) \<Rightarrow> remove_ports_loop alloc (Suc i) n ports v)"

text \<open>The loop counts up to \<^verbatim>\<open>(int)port_count\<close>.\<close>

definition stub_remove_ports_from_vlan ::
  "(nat \<Rightarrow> bool) \<Rightarrow> u16 \<Rightarrow> u32 \<Rightarrow> sai_vlan_port list option \<Rightarrow> vlan_db
     \<Rightarrow> (sai_status \<times> vlan_db) checked" where
  "stub_remove_ports_from_vlan alloc i port_count ports db =
     (case find_vlan db i of
        Inl e \<Rightarrow> Inl e
      | Inr None \<Rightarrow> Inr (SAI_STATUS_INVALID_VLAN_ID, db)
      | Inr (Some k) \<Rightarrow>
          (let n = nat (sint port_count) in
           if n = 0 then Inr (SAI_STATUS_SUCCESS, db)
           else case ports of
             None \<Rightarrow> Inl NullDeref
           | Some src \<Rightarrow>
               (case remove_ports_loop alloc 0 n src (vlan_at db k) of
                  Inl e \<Rightarrow> Inl e
                | Inr v \<Rightarrow> Inr (SAI_STATUS_SUCCESS, update_vlan k v db))))"

definition stub_get_vlan_stats ::
  "u16 \<Rightarrow> nat list option \<Rightarrow> nat \<Rightarrow> u64 list option \<Rightarrow> (sai_status \<times> u64 list option) checked" where
  "stub_get_vlan_stats i counter_ids number_of_counters counters =
     (if counter_ids = None then Inr (SAI_STATUS_INVALID_PARAMETER, counters)
      else case counters of
        None \<Rightarrow> Inr (SAI_STATUS_INVALID_PARAMETER, counters)
      | Some cs \<Rightarrow>
          if length cs < number_of_counters then Inl OutOfBounds
          else Inr (SAI_STATUS_SUCCESS,
                 Some (replicate number_of_counters 0 @ drop number_of_counters cs)))"

section \<open>Attributes\<close>

text \<open>
  The attribute ids and the number of the STP instance type come from a header older than the one
  in the repository.
\<close>

record vlan_attr_ids =
  id_max_learned_addresses :: u32
  id_stp_instance :: u32
  SAI_OBJECT_TYPE_STP_INSTANCE :: nat

definition vlan_attribs :: "vlan_attr_ids \<Rightarrow> sai_attribute_entry list" where
  "vlan_attribs ids =
     [\<lparr>ae_id = id_max_learned_addresses ids, mandatory_on_create = False,
       valid_for_create = False, valid_for_set = True, valid_for_get = True,
       attrib_name = ''Vlan Maximum number of learned MAC addresses'', ae_type = ValU32\<rparr>,
      \<lparr>ae_id = id_stp_instance ids, mandatory_on_create = False,
       valid_for_create = False, valid_for_set = True, valid_for_get = True,
       attrib_name = ''Vlan associated STP instance'', ae_type = ValU64\<rparr>]"

definition stub_vlan_max_learned_addr_get ::
  "u16 \<Rightarrow> sai_attribute_value \<Rightarrow> nat \<Rightarrow> vlan_db \<Rightarrow> (sai_status \<times> sai_attribute_value) checked" where
  "stub_vlan_max_learned_addr_get key val attr_index db = Inr (SAI_STATUS_SUCCESS, put_u32 0 val)"

definition stub_vlan_max_learned_addr_set ::
  "u16 \<Rightarrow> sai_attribute_value \<Rightarrow> vlan_db \<Rightarrow> (sai_status \<times> vlan_db) checked" where
  "stub_vlan_max_learned_addr_set key val db = Inr (SAI_STATUS_SUCCESS, db)"

definition stub_vlan_stp_get ::
  "vlan_attr_ids \<Rightarrow> u16 \<Rightarrow> sai_attribute_value \<Rightarrow> nat \<Rightarrow> vlan_db
     \<Rightarrow> (sai_status \<times> sai_attribute_value) checked" where
  "stub_vlan_stp_get ids key val attr_index db =
     (case stub_create_object (SAI_OBJECT_TYPE_STP_INSTANCE ids) 1 of
        Inl status \<Rightarrow> Inr (status, val)
      | Inr oid \<Rightarrow> Inr (SAI_STATUS_SUCCESS, put_u64 oid val))"

definition stub_vlan_stp_set ::
  "vlan_attr_ids \<Rightarrow> u16 \<Rightarrow> sai_attribute_value \<Rightarrow> vlan_db \<Rightarrow> (sai_status \<times> vlan_db) checked" where
  "stub_vlan_stp_set ids key val db =
     (case stub_object_to_type (val_u64 val) (SAI_OBJECT_TYPE_STP_INSTANCE ids) of
        Inl status \<Rightarrow> Inr (status, db)
      | Inr stp_id \<Rightarrow> Inr (SAI_STATUS_SUCCESS, db))"

definition vlan_vendor_attribs ::
  "vlan_attr_ids \<Rightarrow> (u16, vlan_db) sai_vendor_attribute_entry list" where
  "vlan_vendor_attribs ids =
     [\<lparr>ve_id = id_max_learned_addresses ids,
       is_implemented = oper_flags False False True True,
       is_supported = oper_flags False False True True,
       ve_getter = Some stub_vlan_max_learned_addr_get,
       ve_setter = Some stub_vlan_max_learned_addr_set\<rparr>,
      \<lparr>ve_id = id_stp_instance ids,
       is_implemented = oper_flags False False True True,
       is_supported = oper_flags False False True True,
       ve_getter = Some (stub_vlan_stp_get ids),
       ve_setter = Some (stub_vlan_stp_set ids)\<rparr>]"

definition stub_set_vlan_attribute ::
  "vlan_attr_ids \<Rightarrow> bool \<Rightarrow> u16 \<Rightarrow> sai_attribute option \<Rightarrow> vlan_db \<Rightarrow> (sai_status \<times> vlan_db) checked" where
  "stub_set_vlan_attribute ids calloc_ok i attr db =
     sai_set_attribute calloc_ok i (Some (vlan_attribs ids)) (Some (vlan_vendor_attribs ids)) attr db"

definition stub_get_vlan_attribute ::
  "vlan_attr_ids \<Rightarrow> bool \<Rightarrow> u16 \<Rightarrow> nat \<Rightarrow> sai_attribute list option \<Rightarrow> vlan_db
     \<Rightarrow> (sai_status \<times> sai_attribute list) checked" where
  "stub_get_vlan_attribute ids calloc_ok i attr_count attr_list db =
     sai_get_attributes calloc_ok i (Some (vlan_attribs ids)) (Some (vlan_vendor_attribs ids))
       attr_count attr_list db"

end
