(* ===== verification/VlanFacts.thy ===== *)
theory VlanFacts
  imports StubVlan
begin

text \<open>
  The VLAN array as a map from VLAN ids to port lists (\<open>vlan_map\<close>), its invariant, and the effect
  of every operation on the map while allocations succeed. A failed reallocation in
  \<^verbatim>\<open>stub_create_vlan\<close> is shown to leave a state in which the next lookup dereferences NULL.
\<close>

definition vlan_array :: "vlan_db \<Rightarrow> vlan list" where
  "vlan_array db = the_default [] (vlans db)"

definition vlan_ports :: "vlan \<Rightarrow> sai_vlan_port list" where
  "vlan_ports v = the_default [] (port_list v)"

definition vlan_ok :: "vlan \<Rightarrow> bool" where
  "vlan_ok v \<longleftrightarrow> number_of_ports v = int (length (vlan_ports v)) \<and> number_of_ports v < 2147483648
     \<and> vlan_id_range_ok (vid v)"

definition vlan_inv :: "vlan_db \<Rightarrow> bool" where
  "vlan_inv db \<longleftrightarrow> number_of_vlans db = int (length (vlan_array db))
     \<and> distinct (map vid (vlan_array db)) \<and> list_all vlan_ok (vlan_array db)"

definition vlan_map :: "vlan_db \<Rightarrow> u16 \<Rightarrow> sai_vlan_port list option" where
  "vlan_map db = map_of (map (\<lambda>v. (vid v, vlan_ports v)) (vlan_array db))"

section \<open>Lists\<close>

lemma map_of_remove_nth:
  assumes "distinct (map f xs)" and "k < length xs"
  shows "map_of (map (\<lambda>x. (f x, g x)) (take k xs @ drop (Suc k) xs)) =
    (map_of (map (\<lambda>x. (f x, g x)) xs))(f (xs ! k) := None)"
  using assms
proof (induction xs arbitrary: k)
  case (Cons x xs)
  show ?case
  proof (cases k)
    case 0
    then have "f x \<notin> dom (map_of (map (\<lambda>x. (f x, g x)) xs))"
      using Cons.prems by (auto simp: dom_map_of_conv_image_fst image_iff)
    then show ?thesis using 0 by (auto simp: fun_eq_iff domIff)
  next
    case (Suc j)
    then have "f x \<noteq> f (xs ! j)" using Cons.prems by auto
    then show ?thesis using Suc Cons by (auto simp: fun_upd_twist)
  qed
qed simp

lemma map_of_update_nth:
  assumes "distinct (map f xs)" and "k < length xs" and "f y = f (xs ! k)"
  shows "map_of (map (\<lambda>x. (f x, g x)) (xs[k := y])) =
    (map_of (map (\<lambda>x. (f x, g x)) xs))(f (xs ! k) \<mapsto> g y)"
  using assms
proof (induction xs arbitrary: k)
  case (Cons x xs)
  show ?case
  proof (cases k)
    case (Suc j)
    then have "f x \<noteq> f (xs ! j)" using Cons.prems by auto
    then show ?thesis using Suc Cons by (auto simp: fun_upd_twist)
  qed (use Cons.prems in auto)
qed simp

lemma distinct_remove_nth:
  "distinct (map f xs) \<Longrightarrow> distinct (map f (take k xs @ drop (Suc k) xs))"
proof (induction xs arbitrary: k)
  case (Cons x xs)
  then show ?case by (cases k) (auto dest: in_set_takeD in_set_dropD)
qed simp

lemma shift_down_take:
  "k < n \<Longrightarrow> n \<le> length xs \<Longrightarrow>
   take (n - 1) (shift_down xs k n) = take k xs @ drop (Suc k) (take n xs)"
  by (cases "n = Suc k") (auto simp: shift_down_def min_def)

lemma shift_down_all:
  "k < length xs \<Longrightarrow> take (length xs - 1) (shift_down xs k (length xs)) = take k xs @ drop (Suc k) xs"
  using shift_down_take [of k "length xs" xs] by simp

lemma length_shift_down: "k < n \<Longrightarrow> n \<le> length xs \<Longrightarrow> n - 1 \<le> length (shift_down xs k n)"
  by (simp add: shift_down_def)

section \<open>Lookup\<close>

lemma find_vlan_loop_spec:
  "case find_vlan_loop (length arr) arr i k of
     Inl e \<Rightarrow> False
   | Inr None \<Rightarrow> i \<notin> vid ` set arr
   | Inr (Some j) \<Rightarrow> k \<le> j \<and> j - k < length arr \<and> vid (arr ! (j - k)) = i"
proof (induction arr arbitrary: k)
  case (Cons v arr)
  show ?case
  proof (cases "vid v = i")
    case False
    then show ?thesis using Cons.IH [of "Suc k"]
      by (auto split: sum.splits option.splits simp: nth_Cons' Suc_le_eq)
  qed simp
qed simp

lemma find_vlan_cases:
  assumes "vlan_inv db"
  obtains
    (absent) "find_vlan db i = Inr None" and "vlan_map db i = None"
  | (found) k where "find_vlan db i = Inr (Some k)" and "k < length (vlan_array db)"
    and "vid (vlan_array db ! k) = i" and "vlan_map db i = Some (vlan_ports (vlan_array db ! k))"
proof -
  let ?arr = "vlan_array db"
  have n: "number_of_vlans db = int (length ?arr)" and d: "distinct (map vid ?arr)"
    using assms by (auto simp: vlan_inv_def)
  have find: "find_vlan db i = find_vlan_loop (length ?arr) ?arr i 0"
    using n by (cases "vlans db") (auto simp: find_vlan_def vlan_array_def)
  note spec = find_vlan_loop_spec [where arr = ?arr and i = i and k = 0]
  show thesis
  proof (cases "find_vlan_loop (length ?arr) ?arr i 0")
    case (Inr r)
    show thesis
    proof (cases r)
      case None
      then have "i \<notin> vid ` set ?arr" using spec Inr by simp
      then have "vlan_map db i = None"
        by (auto simp: vlan_map_def map_of_eq_None_iff)
      then show thesis using absent find Inr None by simp
    next
      case (Some k)
      then have k: "k < length ?arr" "vid (?arr ! k) = i" using spec Inr by auto
      then have "(i, vlan_ports (?arr ! k)) \<in> set (map (\<lambda>v. (vid v, vlan_ports v)) ?arr)"
        by (auto simp: image_iff intro!: bexI [of _ "?arr ! k"])
      then have "vlan_map db i = Some (vlan_ports (?arr ! k))"
        unfolding vlan_map_def using d by (intro map_of_is_SomeI) (simp_all add: o_def)
      then show thesis using found k find Inr Some by simp
    qed
  qed (use spec in simp)
qed

section \<open>Creation and removal\<close>

lemma init_vlan_inv:
  "db_init_vlan untagged True True = Inr db \<Longrightarrow> vlan_inv db \<and> dom (vlan_map db) = {1}"
  by (auto simp: db_init_vlan_def vlan_inv_def vlan_array_def vlan_ok_def vlan_ports_def
      vlan_map_def default_ports_def PORT_NUMBER_def vlan_id_range_ok_def split: if_splits)

lemma realloc_grow:
  "n = int (length (the_default [] p)) \<Longrightarrow>
   c_realloc True z p (n + 1) = Some (the_default [] p @ [z])"
  by (auto simp: c_realloc_def Let_def nat_add_distrib)

lemma realloc_room:
  assumes "xs = the_default [] p" and "0 < n"
  shows "c_realloc True z p (int (length xs + n)) = Some (xs @ replicate n z)"
proof -
  have "int (length xs + n) \<noteq> 0" and "0 < int (length xs + n)" using assms(2) by linarith+
  moreover have "nat (int (length xs + n)) = length xs + n" by (simp only: nat_int)
  ultimately show ?thesis
    unfolding c_realloc_def Let_def assms(1) [symmetric] by simp
qed

text \<open>While the allocation succeeds, creating a VLAN succeeds exactly for an id from 1 to 4095
  that does not exist yet, adds it with no ports and changes nothing else; otherwise the id is
  refused and nothing changes. The invariant (distinct ids in range, sizes equal to the counts)
  is kept, and the call never faults.\<close>

lemma create_vlan_spec:
  assumes inv: "vlan_inv db"
  shows "case stub_create_vlan True i db of
      Inl e \<Rightarrow> False
    | Inr (status, db') \<Rightarrow> vlan_inv db'
        \<and> (if vlan_id_range_ok i \<and> vlan_map db i = None
           then status = SAI_STATUS_SUCCESS \<and> vlan_map db' = (vlan_map db)(i \<mapsto> [])
           else status = SAI_STATUS_INVALID_VLAN_ID \<and> db' = db)"
proof (cases "vlan_id_range_ok i")
  case False
  then show ?thesis using inv by (simp add: stub_create_vlan_def)
next
  case True
  show ?thesis
  using inv
  proof (cases rule: find_vlan_cases [where i = i])
    case absent
    let ?new = "\<lparr>vid = i, number_of_ports = 0, port_list = None\<rparr>"
    let ?arr = "vlan_array db"
    let ?db = "\<lparr>number_of_vlans = number_of_vlans db + 1, vlans = Some (?arr @ [?new])\<rparr>"
    have n: "number_of_vlans db = int (length ?arr)" using inv by (simp add: vlan_inv_def)
    have "stub_create_vlan True i db = Inr (SAI_STATUS_SUCCESS, ?db)"
      using True absent(1) realloc_grow [of "number_of_vlans db" "vlans db" zero_vlan] n
      by (simp add: stub_create_vlan_def Let_def vlan_array_def nat_add_distrib)
    moreover have "i \<notin> vid ` set ?arr"
      using absent(2) by (auto simp: vlan_map_def map_of_eq_None_iff image_iff)
    then have "vlan_inv ?db"
      using inv True by (auto simp: vlan_inv_def vlan_array_def vlan_ok_def vlan_ports_def)
    moreover have "vlan_map ?db = (vlan_map db)(i \<mapsto> [])"
      using absent(2)
      by (auto simp: vlan_map_def vlan_array_def vlan_ports_def map_add_def fun_eq_iff
          split: option.splits)
    ultimately show ?thesis using True absent(2) by simp
  next
    case (found k)
    then show ?thesis using inv True by (simp add: stub_create_vlan_def)
  qed
qed

text \<open>While the allocation succeeds, removing a VLAN succeeds exactly when it exists, forgets
  that VLAN and keeps every other one with its ports; the invariant is kept.\<close>

lemma remove_vlan_spec:
  assumes inv: "vlan_inv db"
  shows "case stub_remove_vlan True i db of
      Inl e \<Rightarrow> False
    | Inr (status, db') \<Rightarrow> vlan_inv db'
        \<and> (if vlan_map db i = None then status = SAI_STATUS_INVALID_VLAN_ID \<and> db' = db
           else status = SAI_STATUS_SUCCESS \<and> vlan_map db' = (vlan_map db)(i := None))"
  using inv
proof (cases rule: find_vlan_cases [where i = i])
  case absent
  then show ?thesis using inv by (simp add: stub_remove_vlan_def)
next
  case (found k)
  let ?arr = "vlan_array db"
  let ?rest = "take k ?arr @ drop (Suc k) ?arr"
  have n: "number_of_vlans db = int (length ?arr)" and d: "distinct (map vid ?arr)"
    and ok: "list_all vlan_ok ?arr"
    using inv by (auto simp: vlan_inv_def)
  have len: "length ?rest = length ?arr - 1" using found(2) by simp
  obtain p where re: "c_realloc True zero_vlan (Some (shift_down ?arr k (length ?arr)))
      (int (length ?arr) - 1) = p"
    and p: "the_default [] p = ?rest" "p = None \<Longrightarrow> length ?arr = 1"
  proof (cases "length ?arr = 1")
    case True
    then show thesis using that found(2) len by (simp add: c_realloc_def)
  next
    case False
    then have "0 < int (length ?arr) - 1" using found(2) by simp
    moreover have "nat (int (length ?arr) - 1) = length ?arr - 1" by simp
    ultimately show thesis
      using that shift_down_all [OF found(2)] length_shift_down [OF found(2) order_refl]
      by (simp add: c_realloc_def Let_def)
  qed
  let ?db = "\<lparr>number_of_vlans = number_of_vlans db - 1, vlans = p\<rparr>"
  have "stub_remove_vlan True i db = Inr (SAI_STATUS_SUCCESS, ?db)"
    using found(1,2) re p n by (auto simp: stub_remove_vlan_def Let_def vlan_array_def)
  moreover have "vlan_inv ?db"
    using p n len found(2) ok distinct_remove_nth [OF d, of k]
    by (auto simp: vlan_inv_def vlan_array_def list_all_iff dest: in_set_takeD in_set_dropD)
  moreover have "vlan_map ?db = (vlan_map db)(i := None)"
    using map_of_remove_nth [OF d found(2), of vlan_ports] found(3) p
    by (simp add: vlan_map_def vlan_array_def)
  ultimately show ?thesis using found(4) by simp
qed

section \<open>Ports\<close>

lemma update_vlan_spec:
  assumes inv: "vlan_inv db" and k: "k < length (vlan_array db)"
    and v: "vlan_ok v" "vid v = vid (vlan_array db ! k)"
  shows "vlan_inv (update_vlan k v db)
    \<and> vlan_map (update_vlan k v db) = (vlan_map db)(vid v \<mapsto> vlan_ports v)"
proof -
  have arr: "vlan_array (update_vlan k v db) = (vlan_array db)[k := v]"
    using k by (cases "vlans db") (simp_all add: vlan_array_def update_vlan_def)
  have "map vid ((vlan_array db)[k := v]) = map vid (vlan_array db)"
    using v(2) k by (simp add: map_update list_update_same_conv)
  moreover have "list_all vlan_ok ((vlan_array db)[k := v])"
    using inv v(1)
    by (auto simp: vlan_inv_def list_all_iff dest: set_update_subset_insert [THEN subsetD])
  ultimately have "vlan_inv (update_vlan k v db)"
    using inv arr by (simp add: vlan_inv_def) (simp add: update_vlan_def)
  moreover have "vlan_map (update_vlan k v db) = (vlan_map db)(vid v \<mapsto> vlan_ports v)"
    using map_of_update_nth [of vid "vlan_array db" k v vlan_ports] inv k v(2)
    by (simp add: vlan_map_def arr vlan_inv_def)
  ultimately show ?thesis ..
qed

lemma vlan_at_ok:
  "vlan_inv db \<Longrightarrow> k < length (vlan_array db) \<Longrightarrow>
   vlan_at db k = vlan_array db ! k \<and> vlan_ok (vlan_array db ! k)"
  by (simp add: vlan_at_def vlan_array_def vlan_inv_def list_all_length)

text \<open>While the allocation succeeds and the sizes stay within \<^verbatim>\<open>int\<close>, adding ports to a VLAN
  appends exactly the given ports to its list and changes no other VLAN; an unknown VLAN is
  refused.\<close>

lemma add_ports_spec:
  assumes inv: "vlan_inv db" and n: "0 < port_count" "unat port_count \<le> length src"
    and small: "\<forall>old. vlan_map db i = Some old \<longrightarrow> length old + unat port_count < 2 ^ 31"
  shows "\<exists>status db'. stub_add_ports_to_vlan True i port_count (Some src) db = Inr (status, db')
    \<and> vlan_inv db'
    \<and> (case vlan_map db i of
         None \<Rightarrow> status = SAI_STATUS_INVALID_VLAN_ID \<and> db' = db
       | Some old \<Rightarrow> status = SAI_STATUS_SUCCESS
           \<and> vlan_map db' = (vlan_map db)(i \<mapsto> old @ take (unat port_count) src))"
  using inv
proof (cases rule: find_vlan_cases [where i = i])
  case absent
  then show ?thesis using inv by (simp add: stub_add_ports_to_vlan_def)
next
  case (found k)
  let ?v = "vlan_array db ! k" and ?n = "unat port_count"
  have v: "vlan_at db k = ?v" "vlan_ok ?v" using vlan_at_ok [OF inv found(2)] by auto
  have size: "number_of_ports ?v = int (length (vlan_ports ?v))" using v by (simp add: vlan_ok_def)
  have pos: "0 < ?n" and nz: "port_count \<noteq> 0" using n(1) by (auto simp: word_less_nat_alt)
  have small': "length (vlan_ports ?v) + ?n < 2 ^ 31" using small found(4) by simp
  have "int (length (vlan_ports ?v) + ?n) < int (2 ^ 31)"
    using small' by (simp only: of_nat_less_iff)
  then have bound: "int (length (vlan_ports ?v)) + uint port_count < 2147483648" by simp
  have new: "wrap32 (number_of_ports ?v + uint port_count) = int (length (vlan_ports ?v) + ?n)"
  proof -
    have "- 2147483648 \<le> int (length (vlan_ports ?v)) + uint port_count"
      using uint_ge_min32 [of port_count] by linarith
    then have "wrap32 (int (length (vlan_ports ?v)) + uint port_count)
        = int (length (vlan_ports ?v)) + uint port_count"
      using bound by (intro wrap32_id)
    then show ?thesis using size by simp
  qed
  define xs where "xs = vlan_ports ?v @ replicate ?n zero_port"
  have re: "c_realloc True zero_port (port_list ?v) (int (length (vlan_ports ?v) + ?n)) = Some xs"
    using realloc_room [of "vlan_ports ?v" "port_list ?v" ?n zero_port] pos
    by (simp only: xs_def vlan_ports_def)
  let ?v' = "?v\<lparr>port_list := Some (vlan_ports ?v @ take ?n src),
                number_of_ports := int (length (vlan_ports ?v) + ?n)\<rparr>"
  have "stub_add_ports_to_vlan True i port_count (Some src) db
      = Inr (SAI_STATUS_SUCCESS, update_vlan k ?v' db)"
    using found(1) v(1) new re n(2) nz size
    by (simp add: stub_add_ports_to_vlan_def Let_def xs_def)
  moreover have "vlan_ok ?v'"
    using v(2) bound n(2) by (simp add: vlan_ok_def vlan_ports_def)
  ultimately show ?thesis
    using update_vlan_spec [OF inv found(2), of ?v'] found(3,4)
    by (simp add: vlan_ports_def)
qed

fun remove_first_port :: "sai_vlan_port \<Rightarrow> sai_vlan_port list \<Rightarrow> sai_vlan_port list" where
  "remove_first_port p [] = []"
| "remove_first_port p (x # xs) =
     (if port_id p = port_id x then xs else x # remove_first_port p xs)"

lemma find_port_loop_spec:
  "case find_port_loop (length xs) xs (port_id p) k of
     Inl e \<Rightarrow> False
   | Inr None \<Rightarrow> remove_first_port p xs = xs
   | Inr (Some j) \<Rightarrow> k \<le> j \<and> j - k < length xs
       \<and> remove_first_port p xs = take (j - k) xs @ drop (Suc (j - k)) xs"
proof (induction xs arbitrary: k)
  case (Cons x xs)
  show ?case
  proof (cases "port_id p = port_id x")
    case False
    note IH = Cons.IH [of "Suc k"]
    show ?thesis
    proof (cases "find_port_loop (length xs) xs (port_id p) (Suc k)")
      case (Inr r)
      show ?thesis
      proof (cases r)
        case (Some j)
        then have "Suc k \<le> j" and j: "j - k = Suc (j - Suc k)" using IH Inr by auto
        then show ?thesis using IH Inr Some False by (simp add: j)
      qed (use IH Inr False in simp)
    qed (use IH in simp)
  qed simp
qed simp

lemma remove_a_port_spec:
  assumes "vlan_ok v"
  shows "\<exists>deleted v'. remove_a_port_from_vlan True v p = Inr (deleted, v') \<and> vlan_ok v'
    \<and> vid v' = vid v \<and> vlan_ports v' = remove_first_port p (vlan_ports v)"
proof (cases "vlan_ports v = []")
  case True
  then show ?thesis
    using assms by (auto simp: remove_a_port_from_vlan_def vlan_ok_def intro!: exI [of _ False])
next
  case False
  let ?xs = "vlan_ports v"
  have size: "number_of_ports v = int (length ?xs)" using assms by (simp add: vlan_ok_def)
  have ptr: "port_list v = Some ?xs"
    using False by (cases "port_list v") (simp_all add: vlan_ports_def)
  note spec = find_port_loop_spec [where xs = ?xs and p = p and k = 0]
  show ?thesis
  proof (cases "find_port_loop (length ?xs) ?xs (port_id p) 0")
    case (Inr r)
    show ?thesis
    proof (cases r)
      case None
      then show ?thesis
        using Inr spec size ptr False assms
        by (auto simp: remove_a_port_from_vlan_def intro!: exI [of _ False])
    next
      case (Some j)
      then have j: "j < length ?xs" "remove_first_port p ?xs = take j ?xs @ drop (Suc j) ?xs"
        using Inr spec by auto
      let ?p = "c_realloc True zero_port (Some (shift_down ?xs j (length ?xs))) (int (length ?xs) - 1)"
      have p: "the_default [] ?p = take j ?xs @ drop (Suc j) ?xs"
      proof (cases "length ?xs = 1")
        case True
        then show ?thesis using j(1) by (simp add: c_realloc_def)
      next
        case False
        then have "0 < int (length ?xs) - 1" using j(1) by simp
        moreover have "nat (int (length ?xs) - 1) = length ?xs - 1" by simp
        ultimately show ?thesis
          using shift_down_all [OF j(1)] length_shift_down [OF j(1) order_refl]
          by (simp add: c_realloc_def Let_def)
      qed
      let ?v = "v\<lparr>number_of_ports := int (length ?xs) - 1, port_list := ?p\<rparr>"
      have "remove_a_port_from_vlan True v p = Inr (True, ?v)"
        using Inr Some size ptr False by (simp add: remove_a_port_from_vlan_def Let_def)
      moreover have "vlan_ports ?v = remove_first_port p ?xs"
        using p j(2) by (simp add: vlan_ports_def)
      moreover have "int (length (take j ?xs @ drop (Suc j) ?xs)) = int (length ?xs) - 1"
        using j(1) by simp
      ultimately have "remove_a_port_from_vlan True v p = Inr (True, ?v) \<and> vlan_ok ?v
          \<and> vid ?v = vid v \<and> vlan_ports ?v = remove_first_port p ?xs"
        using assms p j size by (simp add: vlan_ok_def vlan_ports_def)
      then show ?thesis by blast
    qed
  qed (use spec in simp)
qed

lemma remove_ports_loop_spec:
  "\<forall>j. alloc j \<Longrightarrow> vlan_ok v \<Longrightarrow> n \<le> length src \<Longrightarrow>
    \<exists>v'. remove_ports_loop alloc i n src v = Inr v' \<and> vlan_ok v' \<and> vid v' = vid v
      \<and> vlan_ports v' = fold remove_first_port (take n src) (vlan_ports v)"
proof (induction alloc i n src v rule: remove_ports_loop.induct)
  case (3 alloc i n p ports v)
  obtain deleted w where w: "remove_a_port_from_vlan (alloc i) v p = Inr (deleted, w)" "vlan_ok w"
      "vid w = vid v" "vlan_ports w = remove_first_port p (vlan_ports v)"
    using remove_a_port_spec [OF "3.prems"(2), of p] "3.prems"(1) by auto
  show ?case using "3.IH" [OF w(1) refl "3.prems"(1) w(2)] w "3.prems"(3) by auto
qed auto

text \<open>Removing ports from a VLAN removes, for each given port in turn, the first member with the
  same port id (if there is one), keeps the order of the rest and the other VLANs, and never
  faults while the allocations succeed.\<close>

lemma remove_ports_spec:
  assumes inv: "vlan_inv db" and alloc: "\<forall>j. alloc j"
    and n: "uint port_count < 2 ^ 31" "unat port_count \<le> length src"
  shows "\<exists>status db'. stub_remove_ports_from_vlan alloc i port_count (Some src) db = Inr (status, db')
    \<and> vlan_inv db'
    \<and> (case vlan_map db i of
         None \<Rightarrow> status = SAI_STATUS_INVALID_VLAN_ID \<and> db' = db
       | Some old \<Rightarrow> status = SAI_STATUS_SUCCESS
           \<and> vlan_map db' = (vlan_map db)(i \<mapsto>
                fold remove_first_port (take (unat port_count) src) old))"
  using inv
proof (cases rule: find_vlan_cases [where i = i])
  case absent
  then show ?thesis using inv by (simp add: stub_remove_ports_from_vlan_def)
next
  case (found k)
  have v: "vlan_at db k = vlan_array db ! k" "vlan_ok (vlan_array db ! k)"
    using vlan_at_ok [OF inv found(2)] by auto
  have "signed_take_bit 31 (uint port_count) = uint port_count"
  proof (rule signed_take_bit_int_eq_self)
    show "- (2 ^ 31) \<le> uint port_count"
      using uint_ge_min32 [of port_count] by simp
  qed (use n(1) in simp)
  then have sint: "nat (sint port_count) = unat port_count"
    by (simp add: sint_uint)
  obtain w where w: "remove_ports_loop alloc 0 (unat port_count) src (vlan_array db ! k) = Inr w"
      "vlan_ok w" "vid w = vid (vlan_array db ! k)"
      "vlan_ports w = fold remove_first_port (take (unat port_count) src)
         (vlan_ports (vlan_array db ! k))"
    using remove_ports_loop_spec [OF alloc v(2) n(2), of 0] by blast
  show ?thesis
  proof (cases "unat port_count = 0")
    case True
    then have "vlan_map db = (vlan_map db)(i \<mapsto> vlan_ports (vlan_array db ! k))"
      using found(4) by (simp add: map_upd_triv)
    then show ?thesis
      using True found inv sint by (simp add: stub_remove_ports_from_vlan_def)
  next
    case False
    then have "stub_remove_ports_from_vlan alloc i port_count (Some src) db
        = Inr (SAI_STATUS_SUCCESS, update_vlan k w db)"
      using found(1) v(1) w(1) sint by (simp add: stub_remove_ports_from_vlan_def Let_def)
    then show ?thesis
      using update_vlan_spec [OF inv found(2) w(2,3)] w(3,4) found(3,4) by simp
  qed
qed

section \<open>A failed reallocation\<close>

text \<open>When the reallocation in \<^verbatim>\<open>stub_create_vlan\<close> fails, the array pointer is overwritten by
  NULL while the count stays incremented: the next creation of any VLAN in range dereferences
  NULL.\<close>

theorem create_vlan_no_memory:
  assumes inv: "vlan_inv db" and "vlan_id_range_ok i" "vlan_map db i = None"
  shows "\<exists>db'. stub_create_vlan False i db = Inr (SAI_STATUS_NO_MEMORY, db')
    \<and> (\<forall>j ok. vlan_id_range_ok j \<longrightarrow> stub_create_vlan ok j db' = Inl NullDeref)"
proof -
  let ?db = "\<lparr>number_of_vlans = number_of_vlans db + 1, vlans = None\<rparr>"
  have "find_vlan db i = Inr None"
    using inv assms(3) by (cases rule: find_vlan_cases [where i = i]) auto
  then have "stub_create_vlan False i db = Inr (SAI_STATUS_NO_MEMORY, ?db)"
    using assms(2) by (simp add: stub_create_vlan_def Let_def c_realloc_def)
  moreover have "find_vlan ?db j = Inl NullDeref" for j
    using inv by (simp add: find_vlan_def vlan_inv_def)
  ultimately show ?thesis by (auto simp: stub_create_vlan_def)
qed

end
