(* ===== verification/VlanMachine.thy ===== *)
theory VlanMachine
  imports VlanFacts Machine
begin

text \<open>
  The VLAN API as a machine, while the allocations succeed: on the map from VLAN ids to port lists
  every call is the function \<open>vlan_next\<close>. The count of VLANs stays the number of ids in the map.
\<close>

section \<open>Calls\<close>

datatype vlan_call =
    CreateVlan u16
  | RemoveVlan u16
  | RemoveAllVlans
  | AddPorts u16 "sai_vlan_port list"
  | RemovePorts u16 "sai_vlan_port list"

fun vlan_exec :: "vlan_call \<Rightarrow> vlan_db \<Rightarrow> (sai_status \<times> vlan_db) checked" where
  "vlan_exec (CreateVlan i) db = stub_create_vlan True i db"
| "vlan_exec (RemoveVlan i) db = stub_remove_vlan True i db"
| "vlan_exec RemoveAllVlans db = Inr (stub_remove_all_vlans db)"
| "vlan_exec (AddPorts i ports) db = stub_add_ports_to_vlan True i (of_nat (length ports)) (Some ports) db"
| "vlan_exec (RemovePorts i ports) db =
     stub_remove_ports_from_vlan (\<lambda>_. True) i (of_nat (length ports)) (Some ports) db"

text \<open>Sizes stay within \<^verbatim>\<open>int\<close>, and the list of ports to add is not empty.\<close>

fun vlan_call_ok :: "vlan_call \<Rightarrow> vlan_db \<Rightarrow> bool" where
  "vlan_call_ok (AddPorts i ports) db \<longleftrightarrow> ports \<noteq> []
     \<and> length (the_default [] (vlan_map db i)) + length ports < 2 ^ 31"
| "vlan_call_ok (RemovePorts i ports) db \<longleftrightarrow> length ports < 2 ^ 31"
| "vlan_call_ok c db \<longleftrightarrow> True"

section \<open>Specification\<close>

type_synonym vlan_ports_map = "u16 \<Rightarrow> sai_vlan_port list option"

definition on_vlan ::
  "u16 \<Rightarrow> (sai_vlan_port list \<Rightarrow> sai_vlan_port list option) \<Rightarrow> vlan_ports_map \<Rightarrow> sai_status \<times> vlan_ports_map" where
  "on_vlan i f m = (case m i of
     None \<Rightarrow> (SAI_STATUS_INVALID_VLAN_ID, m)
   | Some ports \<Rightarrow> (SAI_STATUS_SUCCESS, m(i := f ports)))"

fun vlan_next :: "vlan_call \<Rightarrow> vlan_ports_map \<Rightarrow> sai_status \<times> vlan_ports_map" where
  "vlan_next (CreateVlan i) m =
     (if vlan_id_range_ok i \<and> m i = None then (SAI_STATUS_SUCCESS, m(i \<mapsto> []))
      else (SAI_STATUS_INVALID_VLAN_ID, m))"
| "vlan_next (RemoveVlan i) m = on_vlan i (\<lambda>old. None) m"
| "vlan_next RemoveAllVlans m = (SAI_STATUS_SUCCESS, m)"
| "vlan_next (AddPorts i ports) m = on_vlan i (\<lambda>old. Some (old @ ports)) m"
| "vlan_next (RemovePorts i ports) m = on_vlan i (\<lambda>old. Some (fold remove_first_port ports old)) m"

definition vlan_spec :: "vlan_call \<Rightarrow> vlan_ports_map \<Rightarrow> sai_status \<Rightarrow> vlan_ports_map \<Rightarrow> bool" where
  "vlan_spec c m status m' \<longleftrightarrow> vlan_next c m = (status, m')"

definition vlan_start :: "vlan_db \<Rightarrow> bool" where
  "vlan_start db \<longleftrightarrow> (\<exists>untagged. db_init_vlan untagged True True = Inr db)"

abbreviation vlan_reachable :: "vlan_db \<Rightarrow> bool" where
  "vlan_reachable \<equiv> reachable vlan_start vlan_call_ok vlan_exec"

section \<open>Refinement\<close>

lemma exec_add_ports:
  assumes inv: "vlan_inv db" and ok: "vlan_call_ok (AddPorts i ports) db"
  shows "\<exists>status db'. vlan_exec (AddPorts i ports) db = Inr (status, db') \<and> vlan_inv db'
    \<and> vlan_spec (AddPorts i ports) (vlan_map db) status (vlan_map db')"
proof -
  define n :: u32 where "n = of_nat (length ports)"
  have "length ports < 2 ^ 31" and "ports \<noteq> []" using ok by auto
  then have n: "unat n = length ports" unfolding n_def by (subst unat_of_nat_small) simp_all
  then have pos: "0 < n" using \<open>ports \<noteq> []\<close> by (simp add: word_less_nat_alt)
  have small: "\<forall>old. vlan_map db i = Some old \<longrightarrow> length old + unat n < 2 ^ 31"
    using ok n by auto
  show ?thesis
    using add_ports_spec [OF inv pos _ small, of ports] n
    by (auto simp: vlan_spec_def on_vlan_def n_def [symmetric] split: option.splits)
qed

lemma exec_remove_ports:
  assumes inv: "vlan_inv db" and ok: "vlan_call_ok (RemovePorts i ports) db"
  shows "\<exists>status db'. vlan_exec (RemovePorts i ports) db = Inr (status, db') \<and> vlan_inv db'
    \<and> vlan_spec (RemovePorts i ports) (vlan_map db) status (vlan_map db')"
proof -
  define n :: u32 where "n = of_nat (length ports)"
  have len: "length ports < 2 ^ 31" using ok by simp
  then have n: "unat n = length ports" unfolding n_def by (subst unat_of_nat_small) simp_all
  then have "uint n = int (length ports)" by (metis uint_nat)
  then have small: "uint n < 2 ^ 31" using len by simp
  show ?thesis
    using remove_ports_spec [OF inv _ small, of "\<lambda>_. True" ports i] n
    by (auto simp: vlan_spec_def on_vlan_def n_def [symmetric] split: option.splits)
qed

interpretation vlan: machine vlan_start vlan_call_ok vlan_exec vlan_inv vlan_map vlan_spec
proof
  show "vlan_start db \<Longrightarrow> vlan_inv db" for db
    using init_vlan_inv by (auto simp: vlan_start_def)
  show "\<exists>status db'. vlan_exec c db = Inr (status, db') \<and> vlan_inv db'
      \<and> vlan_spec c (vlan_map db) status (vlan_map db')"
    if inv: "vlan_inv db" and ok: "vlan_call_ok c db" for db c
  proof (cases c)
    case (CreateVlan i)
    then show ?thesis
      using create_vlan_spec [OF inv, of i] by (auto simp: vlan_spec_def split: sum.splits)
  next
    case (RemoveVlan i)
    then show ?thesis
      using remove_vlan_spec [OF inv, of i]
      by (auto simp: vlan_spec_def on_vlan_def split: sum.splits option.splits)
  next
    case RemoveAllVlans
    then show ?thesis using inv by (simp add: vlan_spec_def stub_remove_all_vlans_def)
  next
    case (AddPorts i ports)
    then show ?thesis using exec_add_ports inv ok by simp
  next
    case (RemovePorts i ports)
    then show ?thesis using exec_remove_ports inv ok by simp
  qed
qed

lemma vlan_map_card:
  assumes "vlan_inv db"
  shows "number_of_vlans db = int (card (dom (vlan_map db)))"
    and "dom (vlan_map db) \<subseteq> {i. vlan_id_range_ok i}"
proof -
  have d: "dom (vlan_map db) = vid ` set (vlan_array db)"
    by (simp add: vlan_map_def dom_map_of_conv_image_fst image_image)
  then show "dom (vlan_map db) \<subseteq> {i. vlan_id_range_ok i}"
    using assms by (auto simp: vlan_inv_def list_all_iff vlan_ok_def)
  have "card (dom (vlan_map db)) = length (vlan_array db)"
    using assms unfolding d vlan_inv_def by (metis distinct_card length_map set_map)
  then show "number_of_vlans db = int (card (dom (vlan_map db)))"
    using assms by (simp add: vlan_inv_def)
qed

lemma card_vlan_ids: "card {i. vlan_id_range_ok i} \<le> 4095"
proof -
  have "card {i. vlan_id_range_ok i} = card (unat ` {i. vlan_id_range_ok i})"
    by (rule card_image [symmetric]) (auto simp: inj_on_def word_unat_eq_iff)
  also have "\<dots> \<le> card {1..4095 :: nat}"
    by (rule card_mono) (auto simp: vlan_id_range_ok_def)
  finally show ?thesis by simp
qed

section \<open>Properties\<close>


text \<open>In every reachable state the counter of VLANs is the number of VLANs, whose ids lie between 1
  and 4095; so it never exceeds 4095 and the \<^verbatim>\<open>int\<close> cannot overflow.\<close>

theorem vlan_count_invariant:
  assumes "vlan_reachable db"
  shows "number_of_vlans db = int (card (dom (vlan_map db))) \<and> number_of_vlans db \<le> 4095
    \<and> dom (vlan_map db) \<subseteq> {i. vlan_id_range_ok i}"
proof -
  note inv = vlan_map_card [OF vlan.reachable_inv [OF assms]]
  have "card (dom (vlan_map db)) \<le> 4095"
    using card_mono [OF _ inv(2)] card_vlan_ids by (simp add: finite_code)
  then show ?thesis using inv by simp
qed

lemma vlan_start_reachable: "\<exists>db. vlan_reachable db \<and> vlan_map db 1 \<noteq> None \<and> vlan_map db 2 = None"
proof -
  obtain db where db: "db_init_vlan 0 True True = Inr db" by (simp add: db_init_vlan_def)
  then have "vlan_start db" by (auto simp: vlan_start_def)
  then have "vlan_reachable db" by (rule reachable_start)
  moreover have "dom (vlan_map db) = {1}" using init_vlan_inv [OF db] by simp
  then have "vlan_map db 1 \<noteq> None" and "2 \<notin> dom (vlan_map db)" by (auto simp: dom_def set_eq_iff)
  ultimately show ?thesis by (auto simp: domIff)
qed


theorem vlan_count_invariant_witness: "\<exists>db. number_of_vlans db = int (card (dom (vlan_map db)))"
  using vlan_count_invariant vlan_start_reachable by blast

end
