(* ===== verification/StubProperties.thy ===== *)
theory StubProperties
  imports NextHopMachine VlanMachine
begin

text \<open>
  The properties of the stub's attribute framework and object ids, and the witnesses of the
  properties of the next hop groups and VLANs, on small tables.
\<close>

section \<open>Object ids\<close>

text \<open>Making an object id for a type of SAI succeeds, and the id decodes to its data under that
  type and to an error under any other.\<close>

theorem object_id_round_trip:
  assumes "type < SAI_OBJECT_TYPE_MAX"
  shows "\<exists>oid. stub_create_object type data = Inr oid
    \<and> stub_object_to_type oid type' =
        (if type' = type then Inr data else Inl SAI_STATUS_INVALID_PARAMETER)"
  using create_object_ok [OF assms] object_to_type_create by blast

theorem object_id_round_trip_witness:
  "\<exists>oid. stub_create_object 5 77 = Inr oid
    \<and> stub_object_to_type oid 4 = Inl SAI_STATUS_INVALID_PARAMETER"
  using object_id_round_trip [of 5 77 4] by (simp add: SAI_OBJECT_TYPE_MAX_def)

section \<open>The attribute checker\<close>

text \<open>C12. \<open>check_attribs_metadata\<close> accepts a list of at most 65536 attributes exactly when the
  operation is create, get, or a set of one attribute, the two tables agree, every attribute is
  known, valid for the operation, supported, implemented and has its list pointer, none appears
  twice, and on creation every mandatory attribute is there.\<close>

theorem check_attribs_success:
  assumes "attr_count \<le> 65536" and "attr_list \<noteq> None" and "distinct (map ae_id fs)"
  shows "check_attribs_metadata True attr_count attr_list (Some fs) (Some vs) oper
      = SAI_STATUS_SUCCESS \<longleftrightarrow>
    oper \<in> {OpCreate, OpSet, OpGet} \<and> (oper = OpSet \<longrightarrow> attr_count = 1)
    \<and> check_attrib_tables fs vs
    \<and> list_all (attr_permitted fs vs oper) (attr_array attr_count attr_list)
    \<and> distinct (map attr_id (attr_array attr_count attr_list))
    \<and> (oper = OpCreate \<longrightarrow> (\<forall>f \<in> set fs. mandatory_on_create f \<longrightarrow>
         ae_id f \<in> attr_id ` set (attr_array attr_count attr_list)))"
  using check_attribs_metadata_ok [OF assms, of vs oper]
  by (simp add: attrs_permitted_def list_all_iff)

definition sample_ids :: next_hop_group_ids where
  "sample_ids = \<lparr>id_next_hop_count = 0, id_type = 1, id_next_hop_list = 2,
     SAI_NEXT_HOP_GROUP_ECMP = 0\<rparr>"

definition sample_hop :: u64 where "sample_hop = 0x0000000700000004"

definition list_value :: "u64 list \<Rightarrow> sai_attribute_value" where
  "list_value xs = \<lparr>val_word = of_nat (length xs), val_list = Some xs, val_chardata = [],
     val_mac = [], val_ipaddr = IpFamily 0\<rparr>"

definition sample_attrs :: "sai_attribute list" where
  "sample_attrs = [\<lparr>attr_id = 1, attr_value = list_value []\<rparr>,
     \<lparr>attr_id = 2, attr_value = list_value [sample_hop]\<rparr>]"

lemma sample_ids_ok: "nhg_ids_ok sample_ids"
  by (simp add: nhg_ids_ok_def sample_ids_def)

lemma sample_distinct: "distinct (map ae_id (next_hop_group_attribs sample_ids))"
  by (simp add: next_hop_group_attribs_def sample_ids_def)

theorem check_attribs_success_witness:
  "check_attribs_metadata True 2 (Some sample_attrs) (Some (next_hop_group_attribs sample_ids))
     (Some (next_hop_group_vendor_attribs sample_ids)) OpCreate = SAI_STATUS_SUCCESS"
proof -
  have "list_all (attr_permitted (next_hop_group_attribs sample_ids)
      (next_hop_group_vendor_attribs sample_ids) OpCreate) sample_attrs"
    by (simp add: sample_attrs_def attr_permitted_def next_hop_group_attribs_def sample_ids_def
        next_hop_group_vendor_attribs_def valid_for_def oper_flags_def list_value_def)
  moreover have "check_attrib_tables (next_hop_group_attribs sample_ids)
      (next_hop_group_vendor_attribs sample_ids)"
    by (simp add: next_hop_group_attribs_def next_hop_group_vendor_attribs_def)
  moreover have "distinct (map attr_id sample_attrs)" and "attr_array 2 (Some sample_attrs) = sample_attrs"
    by (simp_all add: sample_attrs_def attr_array_def)
  moreover have "\<forall>f \<in> set (next_hop_group_attribs sample_ids). mandatory_on_create f \<longrightarrow>
         ae_id f \<in> attr_id ` set sample_attrs"
    by (simp add: next_hop_group_attribs_def sample_ids_def sample_attrs_def)
  ultimately show ?thesis
    using check_attribs_success [of 2 "Some sample_attrs" "next_hop_group_attribs sample_ids"
        "next_hop_group_vendor_attribs sample_ids" OpCreate] sample_distinct by simp
qed

lemma check_attrib_loop_append:
  "check_attrib_loop fs vs oper ii (xs @ ys) present =
    (case check_attrib_loop fs vs oper ii xs present of
       Inl e \<Rightarrow> Inl e
     | Inr present' \<Rightarrow> check_attrib_loop fs vs oper (ii + length xs) ys present')"
  by (induction xs arbitrary: ii present) (auto split: sum.splits)

text \<open>The position of an offending attribute is added to a negative status. So an unknown
  attribute at a position \<open>k > 0\<close> is reported with a status outside the range of unknown
  attributes: it lies in the range documented for attributes that are not implemented.\<close>

theorem unknown_attribute_status:
  assumes "attrs = pre @ a # post" and "length pre = k" and "0 < k" and "k \<le> 65535"
    and "attrs_permitted fs vs oper pre" and "find_index (attr_id a) fs 0 = None"
    and "check_attrib_tables fs vs" and "oper = OpCreate \<or> oper = OpGet"
  defines "status \<equiv>
    check_attribs_metadata True (length attrs) (Some attrs) (Some fs) (Some vs) oper"
  shows "status = SAI_STATUS_UNKNOWN_ATTRIBUTE_0 + int k
    \<and> SAI_STATUS_ATTR_NOT_IMPLEMENTED_MAX \<le> status \<and> status \<le> SAI_STATUS_ATTR_NOT_IMPLEMENTED_0"
proof -
  let ?p = "replicate (length fs) False"
  have "attrs_fresh fs ?p pre" unfolding attrs_fresh_def using find_index_0 by fastforce
  then have "check_attrib_loop fs vs oper 0 pre ?p = Inr (attrs_mark fs ?p pre)"
    using check_attrib_loop_ok [of ?p fs vs oper 0 pre] assms(5) by simp
  moreover have "check_attrib fs vs oper a q = Inl SAI_STATUS_UNKNOWN_ATTRIBUTE_0" for q
    using assms(6) by (simp add: check_attrib_def find_functionality_attrib_index_def)
  ultimately have "check_attrib_loop fs vs oper 0 attrs ?p
      = Inl (SAI_STATUS_UNKNOWN_ATTRIBUTE_0 + int k)"
    using assms(1,2) by (simp add: check_attrib_loop_append)
  then have "status = SAI_STATUS_UNKNOWN_ATTRIBUTE_0 + int k"
    using assms(7,8) by (auto simp: status_def check_attribs_metadata_def attr_array_def)
  then show ?thesis using assms(3,4) by (simp add: status_defs)
qed

theorem unknown_attribute_status_witness:
  "check_attribs_metadata True (length [sample_attrs ! 0, \<lparr>attr_id = 9, attr_value = list_value []\<rparr>])
     (Some [sample_attrs ! 0, \<lparr>attr_id = 9, attr_value = list_value []\<rparr>])
     (Some (next_hop_group_attribs sample_ids)) (Some (next_hop_group_vendor_attribs sample_ids))
     OpGet = - 262143"
proof -
  let ?a = "\<lparr>attr_id = 9, attr_value = list_value []\<rparr>"
  have 1: "[sample_attrs ! 0, ?a] = [sample_attrs ! 0] @ ?a # []" by simp
  have 2: "attrs_permitted (next_hop_group_attribs sample_ids)
      (next_hop_group_vendor_attribs sample_ids) OpGet [sample_attrs ! 0]"
    by (simp add: attrs_permitted_def sample_attrs_def attr_permitted_def
        next_hop_group_attribs_def sample_ids_def next_hop_group_vendor_attribs_def valid_for_def
        oper_flags_def list_type_def)
  have 3: "find_index (attr_id ?a) (next_hop_group_attribs sample_ids) 0 = None"
    by (simp add: next_hop_group_attribs_def sample_ids_def)
  have 4: "check_attrib_tables (next_hop_group_attribs sample_ids)
      (next_hop_group_vendor_attribs sample_ids)"
    by (simp add: next_hop_group_attribs_def next_hop_group_vendor_attribs_def)
  show ?thesis
    using unknown_attribute_status [OF 1 _ _ _ 2 3 4, of 1] by (simp add: status_defs)
qed

section \<open>Witnesses of the next hop group properties\<close>

text \<open>A table whose group 3 has one next hop.\<close>

definition sample_group :: stub_next_hop_group where
  "sample_group = \<lparr>next_hop_count = 1,
     next_hop_list = sample_hop # replicate (ECMP_MAX_PATHS - 1) 0, is_valid = True\<rparr>"

definition sample_db :: next_hop_group_db where
  "sample_db = db_init_next_hop_group[3 := sample_group]"

lemma sample_hop_ok: "is_next_hop sample_hop"
  by code_simp

lemma sample_db_inv: "nhg_inv sample_db"
proof -
  have "group_ok sample_group"
    using sample_hop_ok by (simp add: group_ok_def sample_group_def group_hops_def ECMP_MAX_PATHS_def)
  then show ?thesis unfolding sample_db_def by (rule nhg_inv_update [OF init_inv])
qed

lemma sample_db_groups: "groups sample_db = Map.empty(3 \<mapsto> [sample_hop])"
proof -
  have "groups sample_db = (groups db_init_next_hop_group)(3 \<mapsto> [sample_hop])"
    unfolding sample_db_def
    by (subst groups_update)
      (simp_all add: db_init_next_hop_group_def MAX_NEXT_HOP_GROUP_NUMBER_def sample_group_def
        group_hops_def)
  then show ?thesis by (simp add: fun_eq_iff init_groups)
qed

lemma unat_3: "unat (3 :: u32) = 3"
  by simp

theorem hop_list_get_reads_group_witness:
  "\<exists>val'. stub_next_hop_group_hop_list_get 0x0000000300000005 (list_value [0, 0]) 0 sample_db
     = Inr (SAI_STATUS_SUCCESS, val') \<and> list_elements val' = [sample_hop]"
proof -
  have room: "list_room (list_value [0, 0])" by (simp add: list_room_def list_value_def val_u32_def)
  have oid: "stub_object_to_type 0x0000000300000005 SAI_OBJECT_TYPE_NEXT_HOP_GROUP = Inr 3"
    by code_simp
  have "val_u32 (list_value [0, 0]) = 2" by (simp add: list_value_def val_u32_def)
  then show ?thesis
    using hop_list_get_reads_group [OF sample_db_inv room oid, of 0]
    by (auto simp: sample_db_groups)
qed

theorem add_members_wraps_around_witness:
  "db_add_members_next_hop_group_list sample_db 3
     (of_nat (length (replicate (2 ^ 32 - 1) sample_hop))) (Some (replicate (2 ^ 32 - 1) sample_hop))
   = Inl OutOfBounds"
proof (rule add_members_wraps_around [OF sample_db_inv])
  show "groups sample_db (unat (3 :: u32)) = Some [sample_hop]" by (simp add: sample_db_groups)
  show "length (replicate (2 ^ 32 - 1) sample_hop) = 2 ^ 32 - length [sample_hop]" by simp
  show "list_all is_next_hop (replicate (2 ^ 32 - 1) sample_hop)"
    using sample_hop_ok by (simp add: list_all_iff)
qed simp

lemma sample_start: "nhg_reachable sample_ids db_init_next_hop_group"
  by (rule reachable_start) (simp add: nhg_start_def sample_ids_ok)

lemma sample_call_ok: "nhg_call_ok sample_ids (CreateGroup True sample_attrs) db"
  by (simp add: sample_attrs_def lists_have_room_def array_holds_def list_value_def val_u32_def
      next_hop_named [OF sample_hop_ok] sample_ids_def)

lemma sample_request: "create_request sample_ids sample_attrs [sample_hop]"
  unfolding create_request_def using sample_hop_ok
  by (intro exI [of _ "sample_attrs ! 0"] exI [of _ "sample_attrs ! 1"])
    (simp add: create_list_def sample_attrs_def sample_ids_def hop_list_given_def
      list_value_def attr_hops_def array_elements_def val_u32_def s32_def hops_valid_def ECMP_MAX_PATHS_def)

lemma sample_room: "card (dom (groups db_init_next_hop_group)) < MAX_NEXT_HOP_GROUP_NUMBER"
  by (simp add: init_groups dom_def MAX_NEXT_HOP_GROUP_NUMBER_def)


theorem next_hop_create_served_witness:
  "\<exists>oid db'. nhg_exec sample_ids (CreateGroup True sample_attrs) db_init_next_hop_group
     = Inr (Created oid, db')"
  using next_hop_create_served [OF sample_start sample_room sample_call_ok sample_request] by blast

theorem next_hop_groups_invariant_witness:
  "\<exists>db i. groups db i = Some [sample_hop] \<and> i < MAX_NEXT_HOP_GROUP_NUMBER"
proof -
  obtain oid db i where r: "nhg_exec sample_ids (CreateGroup True sample_attrs) db_init_next_hop_group
      = Inr (Created oid, db)" and g: "groups db = (groups db_init_next_hop_group)(i \<mapsto> [sample_hop])"
    using create_served [OF sample_start sample_room sample_call_ok sample_request] by blast
  have "nhg_reachable sample_ids db" by (rule reachable_call [OF sample_start sample_call_ok r])
  moreover have "groups db i = Some [sample_hop]" using g by simp
  ultimately show ?thesis using next_hop_groups_invariant by blast
qed

section \<open>Witnesses of the VLAN properties\<close>

definition sample_port :: "u64 \<Rightarrow> sai_vlan_port" where
  "sample_port p = \<lparr>port_id = p, tagging_mode = 0\<rparr>"

definition sample_vlans :: vlan_db where
  "sample_vlans = \<lparr>number_of_vlans = 1, vlans = Some [\<lparr>vid = 10, number_of_ports = 1,
     port_list = Some [sample_port 1]\<rparr>]\<rparr>"

lemma sample_vlans_inv: "vlan_inv sample_vlans"
  by code_simp

lemma sample_vlans_map: "vlan_map sample_vlans = [10 \<mapsto> [sample_port 1]]"
  by (simp add: vlan_map_def sample_vlans_def vlan_array_def vlan_ports_def)

theorem create_vlan_no_memory_witness:
  "\<exists>db'. stub_create_vlan False 20 sample_vlans = Inr (SAI_STATUS_NO_MEMORY, db')
    \<and> stub_create_vlan True 30 db' = Inl NullDeref"
proof -
  have "vlan_id_range_ok 20" and "vlan_id_range_ok 30" by code_simp+
  then show ?thesis
    using create_vlan_no_memory [OF sample_vlans_inv, of 20] by (auto simp: sample_vlans_map)
qed

end
