(* ===== verification/StubText.thy ===== *)
theory StubText
  imports StubNextHopGroup
begin

text \<open>
  The text the stub writes to its log (\<^verbatim>\<open>stub_sai_utils.c\<close>): addresses, next hop lists, attribute
  values and attribute lists, printed into buffers of a given length by \<^verbatim>\<open>snprintf\<close> at a running
  position. A buffer is the C string it holds; writing past \<open>max_length\<close>, where the subtraction
  \<^verbatim>\<open>max_length - pos\<close> would wrap, is \<open>OutOfBounds\<close>. Positions are natural numbers: every addition
  follows a check that the position is at most \<open>max_length\<close> (100 or 1000 in the callers), so the
  32-bit counter of the source does not wrap.
\<close>

definition MAX_VALUE_STR_LEN :: nat where "MAX_VALUE_STR_LEN = 100"
definition MAX_LIST_VALUE_STR_LEN :: nat where "MAX_LIST_VALUE_STR_LEN = 1000"

text \<open>The members of the value union that only the printing reads, beside those of
  \<open>sai_attribute_value\<close>. An IPv4 address is the first four bytes of the word.\<close>

record stub_value =
  val_union :: sai_attribute_value
  val_ip6 :: "u8 list"
  val_breakout_mode :: int
  val_breakout_count :: u32
  val_breakout_ports :: "u64 list option"

record stub_attribute =
  sa_id :: u32
  sa_value :: stub_value

section \<open>Printing at a position\<close>

definition snprintf_at :: "nat \<Rightarrow> nat \<Rightarrow> string \<Rightarrow> string \<Rightarrow> string checked" where
  "snprintf_at max_length pos piece str =
     (if max_length < pos then Inl OutOfBounds
      else if max_length = pos then Inr str
      else Inr (take pos str @ take (max_length - pos - 1) piece))"

text \<open>\<^verbatim>\<open>"%x"\<close>, and \<^verbatim>\<open>"%02x"\<close> of a byte.\<close>

definition print_hex :: "nat \<Rightarrow> string" where
  "print_hex n = print_base 16 digit_lower n"

definition print_hex2 :: "u8 \<Rightarrow> string" where
  "print_hex2 b = [digit_lower (unat b div 16), digit_lower (unat b mod 16)]"

section \<open>Addresses\<close>

text \<open>
  \<^verbatim>\<open>inet_ntop\<close> leaves the buffer alone when the text does not fit. What the buffer held before is
  \<open>None\<close> when it was never written; taking the length of that is reading uninitialised memory.
\<close>

definition ntop_into :: "string option \<Rightarrow> nat \<Rightarrow> string option \<Rightarrow> string option" where
  "ntop_into text_of max_length str =
     (case text_of of None \<Rightarrow> str | Some s \<Rightarrow> if length s < max_length then Some s else str)"

definition chars_of :: "bool \<Rightarrow> string option \<Rightarrow> (string option \<times> nat) checked" where
  "chars_of chars_written str =
     (if \<not> chars_written then Inr (str, 0)
      else case str of None \<Rightarrow> Inl Uninitialised | Some s \<Rightarrow> Inr (str, length s))"

definition sai_ipv4_to_str ::
  "inet_lib \<Rightarrow> u32 \<Rightarrow> nat \<Rightarrow> string option \<Rightarrow> bool \<Rightarrow> (string option \<times> nat) checked" where
  "sai_ipv4_to_str lib v max_length value_str chars_written =
     chars_of chars_written (ntop_into (inet_ntop4 lib v) max_length value_str)"

definition sai_ipv6_to_str ::
  "inet_lib \<Rightarrow> u8 list \<Rightarrow> nat \<Rightarrow> string option \<Rightarrow> bool \<Rightarrow> (string option \<times> nat) checked" where
  "sai_ipv6_to_str lib v max_length value_str chars_written =
     chars_of chars_written (ntop_into (inet_ntop6 lib v) max_length value_str)"

definition sai_ipaddr_to_str ::
  "inet_lib \<Rightarrow> sai_ip_address \<Rightarrow> nat \<Rightarrow> string option \<Rightarrow> bool
     \<Rightarrow> (sai_status \<times> string option \<times> nat) checked" where
  "sai_ipaddr_to_str lib v max_length value_str chars_written =
     (case v of
        IpV4 ip4 \<Rightarrow>
          (case sai_ipv4_to_str lib ip4 max_length value_str chars_written of
             Inl e \<Rightarrow> Inl e | Inr r \<Rightarrow> Inr (SAI_STATUS_SUCCESS, r))
      | IpV6 ip6 \<Rightarrow>
          (case sai_ipv6_to_str lib ip6 max_length value_str chars_written of
             Inl e \<Rightarrow> Inl e | Inr r \<Rightarrow> Inr (SAI_STATUS_SUCCESS, r))
      | IpFamily f \<Rightarrow>
          (let t = ''Invalid ipaddr family '' @ print_signed f in
           Inr (SAI_STATUS_INVALID_PARAMETER,
             if max_length = 0 then value_str else Some (take (max_length - 1) t), length t)))"

text \<open>
  The two addresses of a prefix. After the first and a blank, the second is written at the position;
  when that is the end of the buffer nothing is written, and the length of the text behind the buffer
  is taken.
\<close>

definition prefix_second ::
  "nat \<Rightarrow> string \<Rightarrow> nat \<Rightarrow> string option \<Rightarrow> (sai_status \<times> string option) checked" where
  "prefix_second max_length first pos mask_text =
     (if max_length < pos then Inr (SAI_STATUS_SUCCESS, Some first)
      else case snprintf_at max_length pos '' '' first of
        Inl e \<Rightarrow> Inl e
      | Inr str \<Rightarrow>
          (let pos = pos + 1 in
           if max_length < pos then Inr (SAI_STATUS_SUCCESS, Some str)
           else if max_length = pos then Inl OutOfBounds
           else Inr (SAI_STATUS_SUCCESS,
             Some (take pos str @ the_default [] (ntop_into mask_text (max_length - pos) (Some []))))))"

definition sai_ipprefix_to_str ::
  "inet_lib \<Rightarrow> sai_ip_prefix \<Rightarrow> nat \<Rightarrow> string option \<Rightarrow> (sai_status \<times> string option) checked" where
  "sai_ipprefix_to_str lib v max_length value_str =
     (case v of
        PrefixV4 addr msk \<Rightarrow>
          (case sai_ipv4_to_str lib addr max_length value_str True of
             Inl e \<Rightarrow> Inl e
           | Inr (str, pos) \<Rightarrow> prefix_second max_length (the_default [] str) pos (inet_ntop4 lib msk))
      | PrefixV6 addr msk \<Rightarrow>
          (case sai_ipv6_to_str lib addr max_length value_str True of
             Inl e \<Rightarrow> Inl e
           | Inr (str, pos) \<Rightarrow> prefix_second max_length (the_default [] str) pos (inet_ntop6 lib msk))
      | PrefixFamily f \<Rightarrow>
          Inr (SAI_STATUS_INVALID_PARAMETER,
            if max_length = 0 then value_str
            else Some (take (max_length - 1) (''Invalid addr family '' @ print_signed f))))"

section \<open>Next hops\<close>

text \<open>The loops end early when the position has passed the end; the flag says so.\<close>

fun nexthops_loop ::
  "nat \<Rightarrow> u64 list option \<Rightarrow> nat list \<Rightarrow> nat \<Rightarrow> string \<Rightarrow> (sai_status \<times> string) checked" where
  "nexthops_loop max_length nexthops [] pos str =
     (case snprintf_at max_length pos '']'' str of
        Inl e \<Rightarrow> Inl e | Inr str \<Rightarrow> Inr (SAI_STATUS_SUCCESS, str))"
| "nexthops_loop max_length nexthops (ii # iis) pos str =
     (case nexthops of
        None \<Rightarrow> Inl NullDeref
      | Some hops \<Rightarrow>
          if length hops \<le> ii then Inl OutOfBounds
          else case stub_object_to_type (hops ! ii) SAI_OBJECT_TYPE_NEXT_HOP of
            Inl status \<Rightarrow>
              (case snprintf_at max_length pos '' invalid next hop]'' str of
                 Inl e \<Rightarrow> Inl e | Inr str \<Rightarrow> Inr (status, str))
          | Inr nexthop_id \<Rightarrow>
              (let piece = CHR '' '' # print_unsigned (unat nexthop_id) in
               case snprintf_at max_length pos piece str of
                 Inl e \<Rightarrow> Inl e
               | Inr str \<Rightarrow>
                   (let pos = pos + length piece in
                    if max_length < pos then Inr (SAI_STATUS_SUCCESS, str)
                    else nexthops_loop max_length nexthops iis pos str)))"

definition sai_nexthops_to_str ::
  "u32 \<Rightarrow> u64 list option \<Rightarrow> nat \<Rightarrow> string \<Rightarrow> (sai_status \<times> string) checked" where
  "sai_nexthops_to_str hop_count nexthops max_length str =
     (let piece = print_unsigned (unat hop_count) @ '' hops : ['' in
      case snprintf_at max_length 0 piece str of
        Inl e \<Rightarrow> Inl e
      | Inr str \<Rightarrow>
          if max_length < length piece then Inr (SAI_STATUS_SUCCESS, str)
          else nexthops_loop max_length nexthops [0..<unat hop_count] (length piece) str)"

section \<open>Values\<close>

text \<open>How an element of each list kind is printed.\<close>

definition element_text :: "sai_attribute_value_type \<Rightarrow> u64 \<Rightarrow> string" where
  "element_text type e =
     (if type = ValU32list then print_unsigned (unat (ucast e :: u32))
      else if type = ValS32list then print_signed (sint (ucast e :: u32))
      else if type = ValVlanlist then print_unsigned (unat (ucast e :: u16))
      else print_hex (unat e))"

fun value_list_loop ::
  "nat \<Rightarrow> sai_attribute_value_type \<Rightarrow> u64 list option \<Rightarrow> nat list \<Rightarrow> nat \<Rightarrow> string \<Rightarrow> string checked" where
  "value_list_loop max_length type arr [] pos str = snprintf_at max_length pos '']'' str"
| "value_list_loop max_length type arr (ii # iis) pos str =
     (case arr of
        None \<Rightarrow> Inl NullDeref
      | Some elems \<Rightarrow>
          if length elems \<le> ii then Inl OutOfBounds
          else
            (let piece = CHR '' '' # element_text type (elems ! ii) in
             case snprintf_at max_length pos piece str of
               Inl e \<Rightarrow> Inl e
             | Inr str \<Rightarrow>
                 (let pos = pos + length piece in
                  if max_length < pos then Inr str
                  else value_list_loop max_length type arr iis pos str)))"

definition list_to_str ::
  "nat \<Rightarrow> sai_attribute_value_type \<Rightarrow> stub_value \<Rightarrow> string checked" where
  "list_to_str max_length type v =
     (let breakout = (if type = ValPortbreakout
                      then ''breakout mode '' @ print_signed (val_breakout_mode v) @ ''.'' else []);
          count = (if type = ValPortbreakout then val_breakout_count v else val_u32 (val_union v));
          arr = (if type = ValPortbreakout then val_breakout_ports v else val_list (val_union v)) in
      case snprintf_at max_length 0 breakout [] of
        Inl e \<Rightarrow> Inl e
      | Inr str \<Rightarrow>
          (let pos = length breakout in
           if max_length < pos then Inr str
           else
             (let piece = print_unsigned (unat count) @ '' : ['' in
              case snprintf_at max_length pos piece str of
                Inl e \<Rightarrow> Inl e
              | Inr str \<Rightarrow>
                  (let pos = pos + length piece in
                   if max_length < pos then Inr str
                   else value_list_loop max_length type arr [0..<unat count] pos str))))"

text \<open>The number of the type in the messages about types that are not printed.\<close>

definition type_number :: "sai_attribute_value_type \<Rightarrow> nat" where
  "type_number type = (if type = ValAclfield then 20 else if type = ValAclaction then 21 else 0)"

definition scalar_text :: "sai_attribute_value_type \<Rightarrow> stub_value \<Rightarrow> string checked" where
  "scalar_text type v =
     (case type of
        ValBool \<Rightarrow> Inr (print_unsigned (if booldata (val_union v) then 1 else 0))
      | ValChardata \<Rightarrow> Inr (val_chardata (val_union v))
      | ValU8 \<Rightarrow> Inr (print_unsigned (unat (val_u8 (val_union v))))
      | ValS8 \<Rightarrow> Inr (print_signed (s8 (val_union v)))
      | ValU16 \<Rightarrow> Inr (print_unsigned (unat (val_u16 (val_union v))))
      | ValS16 \<Rightarrow> Inr (print_signed (s16 (val_union v)))
      | ValU32 \<Rightarrow> Inr (print_unsigned (unat (val_u32 (val_union v))))
      | ValS32 \<Rightarrow> Inr (print_signed (s32 (val_union v)))
      | ValU64 \<Rightarrow> Inr (print_unsigned (unat (val_u64 (val_union v))))
      | ValS64 \<Rightarrow> Inr (print_signed (s64 (val_union v)))
      | ValMac \<Rightarrow> Inr (''['' @ join_with (CHR '':'') (map print_hex2 (take 6 (val_mac (val_union v)))) @ '']'')
      | ValOid \<Rightarrow>
          (case SAI_TYPE_STR (sai_object_type_query (val_u64 (val_union v))) of
             Inl e \<Rightarrow> Inl e
           | Inr t \<Rightarrow> Inr (t @ '' '' @ print_hex (unat (oid_data (val_u64 (val_union v))))))
      | _ \<Rightarrow> Inr ((if type = ValAclfield \<or> type = ValAclaction
                  then ''Not implemented value type '' else ''Invalid/Unsupported value type '')
                @ print_unsigned (type_number type)))"

text \<open>
  The buffer is NULL or holds any text; its first byte is cleared before the type is looked at.
\<close>

definition sai_value_to_str ::
  "inet_lib \<Rightarrow> stub_value \<Rightarrow> sai_attribute_value_type \<Rightarrow> nat \<Rightarrow> string option
     \<Rightarrow> (sai_status \<times> string option) checked" where
  "sai_value_to_str lib v type max_length value_str =
     (if value_str = None then Inr (SAI_STATUS_INVALID_PARAMETER, None)
      else if max_length = 0 then Inl OutOfBounds
      else if type = ValIpv4 then
        (case sai_ipv4_to_str lib (val_u32 (val_union v)) max_length (Some []) False of
           Inl e \<Rightarrow> Inl e | Inr (str, n) \<Rightarrow> Inr (SAI_STATUS_SUCCESS, str))
      else if type = ValIpv6 then
        (case sai_ipv6_to_str lib (val_ip6 v) max_length (Some []) False of
           Inl e \<Rightarrow> Inl e | Inr (str, n) \<Rightarrow> Inr (SAI_STATUS_SUCCESS, str))
      else if type = ValIpaddr then
        (case sai_ipaddr_to_str lib (val_ipaddr (val_union v)) max_length (Some []) False of
           Inl e \<Rightarrow> Inl e | Inr (status, str, n) \<Rightarrow> Inr (SAI_STATUS_SUCCESS, str))
      else if list_type type \<or> type = ValPortbreakout then
        (case list_to_str max_length type v of
           Inl e \<Rightarrow> Inl e | Inr str \<Rightarrow> Inr (SAI_STATUS_SUCCESS, Some str))
      else
        (case scalar_text type v of
           Inl e \<Rightarrow> Inl e
         | Inr t \<Rightarrow>
             (case snprintf_at max_length 0 t [] of
                Inl e \<Rightarrow> Inl e
              | Inr str \<Rightarrow>
                  Inr (if type = ValAclfield \<or> type = ValAclaction then SAI_STATUS_NOT_IMPLEMENTED
                       else if type = ValUndetermined then SAI_STATUS_INVALID_PARAMETER
                       else SAI_STATUS_SUCCESS, Some str))))"

section \<open>Attribute lists\<close>

definition attr_text :: "nat \<Rightarrow> string \<Rightarrow> string \<Rightarrow> string" where
  "attr_text ii name value_text =
     ''#'' @ print_unsigned ii @ '' '' @ name @ '' val:'' @ value_text @ '' ''"

fun attr_list_loop ::
  "inet_lib \<Rightarrow> sai_attribute_entry list \<Rightarrow> nat \<Rightarrow> nat \<Rightarrow> stub_attribute list \<Rightarrow> nat \<Rightarrow> string
     \<Rightarrow> (sai_status \<times> string option) checked" where
  "attr_list_loop lib fs max_length ii [] pos str = Inr (SAI_STATUS_SUCCESS, Some str)"
| "attr_list_loop lib fs max_length ii (a # attrs) pos str =
     (case find_functionality_attrib_index (sa_id a) (Some fs) of
        Inl e \<Rightarrow> Inl AssertFailed
      | Inr index \<Rightarrow>
          (case sai_value_to_str lib (sa_value a) (ae_type (fs ! index)) MAX_VALUE_STR_LEN (Some []) of
             Inl e \<Rightarrow> Inl e
           | Inr (status, value_str) \<Rightarrow>
               (let piece = attr_text ii (attrib_name (fs ! index)) (the_default [] value_str) in
                case snprintf_at max_length pos piece str of
                  Inl e \<Rightarrow> Inl e
                | Inr str \<Rightarrow>
                    (let pos = pos + length piece in
                     if max_length < pos then Inr (SAI_STATUS_SUCCESS, Some str)
                     else attr_list_loop lib fs max_length (Suc ii) attrs pos str))))"

definition sai_attr_list_to_str ::
  "inet_lib \<Rightarrow> nat \<Rightarrow> stub_attribute list option \<Rightarrow> sai_attribute_entry list option \<Rightarrow> nat
     \<Rightarrow> string option \<Rightarrow> (sai_status \<times> string option) checked" where
  "sai_attr_list_to_str lib attr_count attr_list functionality_attr max_length list_str =
     (if attr_count \<noteq> 0 \<and> attr_list = None then Inr (SAI_STATUS_INVALID_PARAMETER, list_str)
      else case (functionality_attr, list_str) of
        (Some fs, Some str) \<Rightarrow>
          if attr_count = 0 then
            (case snprintf_at max_length 0 ''empty list'' str of
               Inl e \<Rightarrow> Inl e | Inr str \<Rightarrow> Inr (SAI_STATUS_SUCCESS, Some str))
          else attr_list_loop lib fs max_length 0 (take attr_count (the_default [] attr_list)) 0 str
      | _ \<Rightarrow> Inr (SAI_STATUS_INVALID_PARAMETER, list_str))"

section \<open>Printing truncates\<close>

text \<open>
  The buffer always holds the first \<open>max_length - 1\<close> characters of the text printed so far, whose
  length is the position.
\<close>

lemma snprintf_trunc:
  assumes "0 < max_length" and "length full \<le> max_length"
  shows "snprintf_at max_length (length full) piece (take (max_length - 1) full)
    = Inr (take (max_length - 1) (full @ piece))"
  using assms by (auto simp: snprintf_at_def)

lemmas snprintf_start = snprintf_trunc [where full = "[]", simplified]

lemma trunc_stop:
  "max_length < length full \<Longrightarrow> take (max_length - 1) (full @ rest) = take (max_length - 1) full"
  by simp

definition elements_text :: "sai_attribute_value_type \<Rightarrow> u64 list \<Rightarrow> string" where
  "elements_text type es = concat (map (\<lambda>e. CHR '' '' # element_text type e) es)"

lemma value_list_loop_trunc:
  assumes "0 < max_length" and "length full \<le> max_length" and "n \<le> length elems"
  shows "value_list_loop max_length type (Some elems) [m..<n] (length full)
      (take (max_length - 1) full)
    = Inr (take (max_length - 1) (full @ elements_text type (drop m (take n elems)) @ '']''))"
  using assms(2)
proof (induction "n - m" arbitrary: m full)
  case 0
  then show ?case using snprintf_trunc [OF assms(1), of full "'']''"] by (simp add: elements_text_def)
next
  case (Suc k)
  let ?piece = "CHR '' '' # element_text type (elems ! m)"
  have m: "m < n" "m < length elems" using Suc.hyps(2) assms(3) by auto
  have split: "[m..<n] = m # [Suc m..<n]" using m by (simp add: upt_conv_Cons)
  have whole: "elements_text type (drop m (take n elems))
      = ?piece @ elements_text type (drop (Suc m) (take n elems))"
    using m assms(3) Cons_nth_drop_Suc [of m "take n elems"] by (simp add: elements_text_def flip: Cons_nth_drop_Suc)
  show ?case
  proof (cases "max_length < length (full @ ?piece)")
    case True
    then show ?thesis
      using m snprintf_trunc [OF assms(1) Suc.prems, of ?piece] trunc_stop [OF True]
      by (simp add: split whole)
  next
    case False
    then show ?thesis
      using m snprintf_trunc [OF assms(1) Suc.prems, of ?piece]
        Suc.hyps(1) [of "Suc m" "full @ ?piece"] Suc.hyps(2)
      by (simp add: split whole)
  qed
qed

text \<open>The whole text of a list value.\<close>

definition list_text :: "sai_attribute_value_type \<Rightarrow> stub_value \<Rightarrow> string" where
  "list_text type v =
     (if type = ValPortbreakout
      then ''breakout mode '' @ print_signed (val_breakout_mode v) @ ''.''
         @ print_unsigned (unat (val_breakout_count v)) @ '' : [''
         @ elements_text type (take (unat (val_breakout_count v)) (the_default [] (val_breakout_ports v)))
      else print_unsigned (unat (val_u32 (val_union v))) @ '' : [''
         @ elements_text type (take (unat (val_u32 (val_union v))) (the_default [] (val_list (val_union v))))) @ '']''"

text \<open>The arrays have the elements their counts promise.\<close>

definition stub_list_room :: "sai_attribute_value_type \<Rightarrow> stub_value \<Rightarrow> bool" where
  "stub_list_room type v \<longleftrightarrow>
     (if type = ValPortbreakout
      then unat (val_breakout_count v) \<le> length (the_default [] (val_breakout_ports v))
      else unat (val_u32 (val_union v)) \<le> length (the_default [] (val_list (val_union v))))"

lemma value_list_loop_empty:
  "value_list_loop max_length type arr [0..<n] pos str
     = value_list_loop max_length type (Some (the_default [] arr)) [0..<n] pos str"
  if "n \<le> length (the_default [] arr)"
  using that by (cases arr) simp_all

lemma list_to_str_trunc:
  assumes "0 < max_length" and "stub_list_room type v"
  shows "list_to_str max_length type v = Inr (take (max_length - 1) (list_text type v))"
proof -
  define breakout where "breakout = (if type = ValPortbreakout
    then ''breakout mode '' @ print_signed (val_breakout_mode v) @ ''.'' else [])"
  define count where "count = (if type = ValPortbreakout then val_breakout_count v else val_u32 (val_union v))"
  define arr where "arr = (if type = ValPortbreakout then val_breakout_ports v else val_list (val_union v))"
  have room: "unat count \<le> length (the_default [] arr)"
    using assms(2) by (simp add: stub_list_room_def count_def arr_def)
  define piece where "piece = print_unsigned (unat count) @ '' : [''"
  define rest where "rest = elements_text type (take (unat count) (the_default [] arr)) @ '']''"
  have whole: "list_text type v = breakout @ piece @ rest"
    by (simp add: list_text_def breakout_def count_def arr_def piece_def rest_def)
  have unfold: "list_to_str max_length type v =
     (if max_length < length breakout then Inr (take (max_length - 1) breakout)
      else case snprintf_at max_length (length breakout) piece (take (max_length - 1) breakout) of
        Inl e \<Rightarrow> Inl e
      | Inr str \<Rightarrow> if max_length < length (breakout @ piece) then Inr str
          else value_list_loop max_length type arr [0..<unat count] (length (breakout @ piece)) str)"
    using snprintf_start [OF assms(1), of breakout]
    unfolding list_to_str_def Let_def breakout_def [symmetric] count_def [symmetric]
      arr_def [symmetric] piece_def [symmetric]
    unfolding length_append [of breakout piece] One_nat_def
    by (simp only: sum.case)
  show ?thesis
  proof (cases "max_length < length breakout")
    case True
    then show ?thesis by (simp add: unfold whole)
  next
    case False
    then have step: "snprintf_at max_length (length breakout) piece (take (max_length - 1) breakout)
        = Inr (take (max_length - 1) (breakout @ piece))"
      using snprintf_trunc [OF assms(1), of breakout piece] by simp
    show ?thesis
    proof (cases "max_length < length (breakout @ piece)")
      case True
      then have "take (max_length - 1) (list_text type v) = take (max_length - 1) (breakout @ piece)"
        using trunc_stop [OF True, of rest] by (simp add: whole)
      then show ?thesis using False True by (simp only: unfold step sum.case if_True if_False)
    next
      case fits: False
      then have "value_list_loop max_length type arr [0..<unat count] (length (breakout @ piece))
          (take (max_length - 1) (breakout @ piece)) = Inr (take (max_length - 1) (list_text type v))"
        using value_list_loop_trunc [OF assms(1) _ room, of "breakout @ piece" type 0]
        by (simp add: value_list_loop_empty [OF room] whole rest_def del: take_append)
      then show ?thesis using False fits by (simp only: unfold step sum.case if_False)
    qed
  qed
qed

end
