(* ===== verification/TextProperties.thy ===== *)
theory TextProperties
  imports StubText InetText
begin

text \<open>
  What the printing of the stub guarantees: for values whose arrays have the elements their counts
  promise, every function stays inside its buffer and leaves there the first \<open>max_length - 1\<close>
  characters of the whole text.
\<close>

section \<open>The whole texts\<close>

definition address_whole :: "inet_lib \<Rightarrow> sai_ip_address \<Rightarrow> string" where
  "address_whole lib ip = (case ip of
     IpV4 ip4 \<Rightarrow> the_default [] (inet_ntop4 lib ip4)
   | IpV6 ip6 \<Rightarrow> the_default [] (inet_ntop6 lib ip6)
   | IpFamily f \<Rightarrow> ''Invalid ipaddr family '' @ print_signed f)"

definition value_text :: "inet_lib \<Rightarrow> sai_attribute_value_type \<Rightarrow> stub_value \<Rightarrow> string" where
  "value_text lib type v =
     (if type = ValIpv4 then address_whole lib (IpV4 (val_u32 (val_union v)))
      else if type = ValIpv6 then address_whole lib (IpV6 (val_ip6 v))
      else if type = ValIpaddr then address_whole lib (val_ipaddr (val_union v))
      else if list_type type \<or> type = ValPortbreakout then list_text type v
      else case scalar_text type v of Inl e \<Rightarrow> [] | Inr t \<Rightarrow> t)"

definition value_status :: "sai_attribute_value_type \<Rightarrow> sai_status" where
  "value_status type = (if type = ValAclfield \<or> type = ValAclaction then SAI_STATUS_NOT_IMPLEMENTED
     else if type = ValUndetermined then SAI_STATUS_INVALID_PARAMETER else SAI_STATUS_SUCCESS)"

text \<open>What the code relies on: an IPv6 address has 16 bytes, arrays are as long as their counts say,
  and an object id's type has a name.\<close>

definition printable_value :: "sai_attribute_value_type \<Rightarrow> stub_value \<Rightarrow> bool" where
  "printable_value type v \<longleftrightarrow>
     (type = ValIpv6 \<longrightarrow> length (val_ip6 v) = 16)
   \<and> (type = ValIpaddr \<longrightarrow> ip_address_ok (val_ipaddr (val_union v)) \<or>
        (\<exists>f. val_ipaddr (val_union v) = IpFamily f))
   \<and> (list_type type \<or> type = ValPortbreakout \<longrightarrow> stub_list_room type v)
   \<and> (type = ValOid \<longrightarrow> sai_object_type_query (val_u64 (val_union v)) < 14)"

lemma ntop4_whole:
  assumes "inet_lib_ok lib" and "INET6_ADDRSTRLEN \<le> n"
  shows "ntop_into (inet_ntop4 lib ip4) n str = Some (take (n - 1) (address_whole lib (IpV4 ip4)))"
proof -
  obtain s where "inet_ntop4 lib ip4 = Some s" and "address_text s"
    using assms(1) inet_lib_ok_def by blast
  then show ?thesis
    using assms(2) by (auto simp: ntop_into_def address_whole_def address_text_def)
qed

lemma ntop6_whole:
  assumes "inet_lib_ok lib" and "length ip6 = 16" and "INET6_ADDRSTRLEN \<le> n"
  shows "ntop_into (inet_ntop6 lib ip6) n str = Some (take (n - 1) (address_whole lib (IpV6 ip6)))"
proof -
  obtain s where "inet_ntop6 lib ip6 = Some s" and "address_text s"
    using assms(1,2) inet_lib_ok_def by blast
  then show ?thesis
    using assms(3) by (auto simp: ntop_into_def address_whole_def address_text_def)
qed

lemma ipaddr_whole:
  assumes "inet_lib_ok lib" and "INET6_ADDRSTRLEN \<le> n"
    and "ip_address_ok ip \<or> (\<exists>f. ip = IpFamily f)"
  shows "\<exists>st m. sai_ipaddr_to_str lib ip n str False
    = Inr (st, Some (take (n - 1) (address_whole lib ip)), m)"
  using assms
  by (cases ip) (auto simp: sai_ipaddr_to_str_def sai_ipv4_to_str_def sai_ipv6_to_str_def
      chars_of_def ntop4_whole ntop6_whole ip_address_ok_def address_whole_def INET6_ADDRSTRLEN_def
      Let_def)

lemma scalar_text_total:
  "sai_object_type_query (val_u64 (val_union v)) < 14 \<or> type \<noteq> ValOid \<Longrightarrow>
   \<exists>t. scalar_text type v = Inr t"
  by (cases type) (auto simp: scalar_text_def SAI_TYPE_STR_def sai_type2str_arr_def
      SAI_OBJECT_TYPE_MAX_def)

lemma value_to_str_whole:
  assumes lib: "inet_lib_ok lib" and max: "INET6_ADDRSTRLEN \<le> max_length"
    and ok: "printable_value type v"
  shows "sai_value_to_str lib v type max_length (Some str)
    = Inr (value_status type, Some (take (max_length - 1) (value_text lib type v)))"
proof -
  have pos: "0 < max_length" using max by (simp add: INET6_ADDRSTRLEN_def)
  consider (v4) "type = ValIpv4" | (v6) "type = ValIpv6" | (addr) "type = ValIpaddr"
    | (many) "list_type type \<or> type = ValPortbreakout"
    | (one) "type \<notin> {ValIpv4, ValIpv6, ValIpaddr, ValPortbreakout}" "\<not> list_type type"
    by auto
  then show ?thesis
  proof cases
    case v4
    then show ?thesis using pos
      by (simp add: sai_value_to_str_def sai_ipv4_to_str_def chars_of_def ntop4_whole [OF lib max]
          value_text_def value_status_def)
  next
    case v6
    then have "length (val_ip6 v) = 16" using ok by (simp add: printable_value_def)
    then show ?thesis using pos v6
      by (simp add: sai_value_to_str_def sai_ipv6_to_str_def chars_of_def ntop6_whole [OF lib _ max]
          value_text_def value_status_def)
  next
    case addr
    then have "ip_address_ok (val_ipaddr (val_union v)) \<or> (\<exists>f. val_ipaddr (val_union v) = IpFamily f)"
      using ok by (simp add: printable_value_def)
    then obtain st m where "sai_ipaddr_to_str lib (val_ipaddr (val_union v)) max_length (Some []) False
        = Inr (st, Some (take (max_length - 1) (address_whole lib (val_ipaddr (val_union v)))), m)"
      using ipaddr_whole [OF lib max] by blast
    then show ?thesis using pos addr
      by (simp add: sai_value_to_str_def value_text_def value_status_def)
  next
    case many
    then have "stub_list_room type v" using ok by (simp add: printable_value_def)
    then show ?thesis using pos many list_to_str_trunc [OF pos, of type v]
      by (auto simp: sai_value_to_str_def value_text_def value_status_def list_type_def)
  next
    case one
    then obtain t where t: "scalar_text type v = Inr t"
      using ok scalar_text_total [of v type] by (auto simp: printable_value_def)
    then show ?thesis using pos one snprintf_start [OF pos, of t]
      by (simp add: sai_value_to_str_def value_text_def value_status_def)
  qed
qed

text \<open>\<^verbatim>\<open>sai_value_to_str\<close> never writes outside its buffer and never faults on a printable value: for
  every attribute type it leaves the first \<open>max_length - 1\<close> characters of the value's text (of a list:
  the count and all its elements), and answers the status that belongs to the type.\<close>

theorem value_to_str_truncates:
  assumes "inet_lib_ok lib" and "INET6_ADDRSTRLEN \<le> max_length" and "printable_value type v"
  shows "sai_value_to_str lib v type max_length (Some str)
    = Inr (value_status type, Some (take (max_length - 1) (value_text lib type v)))"
  by (rule value_to_str_whole [OF assms])

definition sample_list_value :: stub_value where
  "sample_list_value = \<lparr>val_union = \<lparr>val_word = 2, val_list = Some [7, 42, 9], val_chardata = [],
     val_mac = [], val_ipaddr = IpFamily 0\<rparr>, val_ip6 = [], val_breakout_mode = 0,
     val_breakout_count = 0, val_breakout_ports = None\<rparr>"

lemma sample_list_printable: "printable_value ValU32list sample_list_value"
  by (simp add: printable_value_def list_type_def stub_list_room_def sample_list_value_def val_u32_def)

lemma sample_list_text: "value_text lib ValU32list sample_list_value = ''2 : [ 7 42]''"
  by (simp add: value_text_def list_type_def list_text_def sample_list_value_def val_u32_def
      elements_text_def element_text_def print_unsigned_def print_base.simps digit_lower_def char_of_def bit_0)

theorem value_to_str_truncates_witness:
  "sai_value_to_str text_inet sample_list_value ValU32list 100 (Some ''junk'')
   = Inr (SAI_STATUS_SUCCESS, Some ''2 : [ 7 42]'')"
  using value_to_str_truncates [OF text_inet_ok, of 100 ValU32list sample_list_value "''junk''"]
  by (simp add: INET6_ADDRSTRLEN_def sample_list_printable sample_list_text value_status_def)

section \<open>Attribute lists\<close>

fun attr_list_text :: "inet_lib \<Rightarrow> sai_attribute_entry list \<Rightarrow> nat \<Rightarrow> stub_attribute list \<Rightarrow> string" where
  "attr_list_text lib fs ii [] = []"
| "attr_list_text lib fs ii (a # attrs) =
     (case find_functionality_attrib_index (sa_id a) (Some fs) of
        Inl e \<Rightarrow> []
      | Inr index \<Rightarrow>
          attr_text ii (attrib_name (fs ! index))
            (take 99 (value_text lib (ae_type (fs ! index)) (sa_value a)))
          @ attr_list_text lib fs (Suc ii) attrs)"

definition printable_attr :: "sai_attribute_entry list \<Rightarrow> stub_attribute \<Rightarrow> bool" where
  "printable_attr fs a = (case find_functionality_attrib_index (sa_id a) (Some fs) of
     Inl e \<Rightarrow> False | Inr index \<Rightarrow> printable_value (ae_type (fs ! index)) (sa_value a))"

lemma attr_list_loop_trunc:
  assumes lib: "inet_lib_ok lib" and max: "0 < max_length"
  shows "list_all (printable_attr fs) attrs \<Longrightarrow> length full \<le> max_length \<Longrightarrow> attrs \<noteq> [] \<or> full \<noteq> [] \<Longrightarrow>
    attr_list_loop lib fs max_length ii attrs (length full) (take (max_length - 1) full)
    = Inr (SAI_STATUS_SUCCESS,
        Some (take (max_length - 1) (full @ attr_list_text lib fs ii attrs)))"
proof (induction attrs arbitrary: ii full)
  case (Cons a attrs)
  obtain index where index: "find_functionality_attrib_index (sa_id a) (Some fs) = Inr index"
    and ok: "printable_value (ae_type (fs ! index)) (sa_value a)"
    using Cons.prems(1) by (auto simp: printable_attr_def split: sum.splits)
  define val_str where "val_str = take 99 (value_text lib (ae_type (fs ! index)) (sa_value a))"
  define piece where "piece = attr_text ii (attrib_name (fs ! index)) val_str"
  have val_eq: "\<exists>status. sai_value_to_str lib (sa_value a) (ae_type (fs ! index)) MAX_VALUE_STR_LEN (Some [])
      = Inr (status, Some val_str)"
    using value_to_str_whole [OF lib _ ok, of MAX_VALUE_STR_LEN "[]"]
    by (simp add: MAX_VALUE_STR_LEN_def INET6_ADDRSTRLEN_def val_str_def)
  have unfold: "attr_list_loop lib fs max_length ii (a # attrs) (length full)
      (take (max_length - 1) full)
    = (if max_length < length (full @ piece)
       then Inr (SAI_STATUS_SUCCESS, Some (take (max_length - 1) (full @ piece)))
       else attr_list_loop lib fs max_length (Suc ii) attrs (length (full @ piece))
              (take (max_length - 1) (full @ piece)))"
    using val_eq snprintf_trunc [OF max Cons.prems(2), of piece]
    by (auto simp: index Let_def piece_def)
  have rest: "attr_list_text lib fs ii (a # attrs) = piece @ attr_list_text lib fs (Suc ii) attrs"
    by (simp add: index piece_def val_str_def)
  have nonempty: "piece \<noteq> []" by (simp add: piece_def attr_text_def)
  show ?case
  proof (cases "max_length < length (full @ piece)")
    case True
    then show ?thesis
      using trunc_stop [OF True, of "attr_list_text lib fs (Suc ii) attrs"]
      by (simp only: unfold rest if_True append_assoc)
  next
    case False
    have "attr_list_loop lib fs max_length (Suc ii) attrs (length (full @ piece))
        (take (max_length - 1) (full @ piece))
      = Inr (SAI_STATUS_SUCCESS,
          Some (take (max_length - 1) ((full @ piece) @ attr_list_text lib fs (Suc ii) attrs)))"
      using False Cons.prems(1) nonempty by (intro Cons.IH) simp_all
    then show ?thesis
      using False by (simp only: unfold rest if_False append_assoc)
  qed
qed simp

text \<open>\<^verbatim>\<open>sai_attr_list_to_str\<close>, which every create handler calls on the attributes it accepted, never
  writes outside its buffer and leaves the first \<open>max_length - 1\<close> characters of the text of the list:
  number, name and value of each attribute in order, each value cut at 99 characters.\<close>

theorem attr_list_to_str_truncates:
  assumes "inet_lib_ok lib" and "0 < max_length" and "attrs \<noteq> []"
    and "list_all (printable_attr fs) attrs"
  shows "sai_attr_list_to_str lib (length attrs) (Some attrs) (Some fs) max_length (Some [])
    = Inr (SAI_STATUS_SUCCESS, Some (take (max_length - 1) (attr_list_text lib fs 0 attrs)))"
  using attr_list_loop_trunc [OF assms(1,2,4), of "[]" 0] assms(3)
  by (simp add: sai_attr_list_to_str_def)

definition sample_entry :: sai_attribute_entry where
  "sample_entry = \<lparr>ae_id = 3, mandatory_on_create = True, valid_for_create = True,
     valid_for_set = True, valid_for_get = True, attrib_name = ''Hop list'', ae_type = ValU32list\<rparr>"

theorem attr_list_to_str_truncates_witness:
  "sai_attr_list_to_str text_inet 1 (Some [\<lparr>sa_id = 3, sa_value = sample_list_value\<rparr>])
     (Some [sample_entry]) 15 (Some []) = Inr (SAI_STATUS_SUCCESS, Some ''#0 Hop list va'')"
  using attr_list_to_str_truncates [OF text_inet_ok, of 15
      "[\<lparr>sa_id = 3, sa_value = sample_list_value\<rparr>]" "[sample_entry]"]
  by (simp add: printable_attr_def find_functionality_attrib_index_def sample_entry_def
      sample_list_printable sample_list_text attr_text_def print_unsigned_def print_base.simps
      digit_lower_def char_of_def bit_0)

section \<open>Next hops\<close>

definition hops_text :: "u64 list \<Rightarrow> string" where
  "hops_text hops = concat (map (\<lambda>h. CHR '' '' # print_unsigned (unat (oid_data h))) hops)"

lemma nexthops_loop_trunc:
  assumes "0 < max_length" and "length full \<le> max_length" and "n \<le> length hops"
    and "list_all (\<lambda>h. oid_object_type h = 4) hops"
  shows "nexthops_loop max_length (Some hops) [m..<n] (length full) (take (max_length - 1) full)
    = Inr (SAI_STATUS_SUCCESS,
        take (max_length - 1) (full @ hops_text (drop m (take n hops)) @ '']''))"
  using assms(2)
proof (induction "n - m" arbitrary: m full)
  case 0
  then show ?case using snprintf_trunc [OF assms(1), of full "'']''"] by (simp add: hops_text_def)
next
  case (Suc k)
  let ?piece = "CHR '' '' # print_unsigned (unat (oid_data (hops ! m)))"
  have m: "m < n" "m < length hops" using Suc.hyps(2) assms(3) by auto
  have hop: "stub_object_to_type (hops ! m) SAI_OBJECT_TYPE_NEXT_HOP = Inr (oid_data (hops ! m))"
    using assms(4) m(2)
    by (simp add: stub_object_to_type_def SAI_OBJECT_TYPE_NEXT_HOP_def list_all_length)
  have split: "[m..<n] = m # [Suc m..<n]" using m by (simp add: upt_conv_Cons)
  have whole: "hops_text (drop m (take n hops)) = ?piece @ hops_text (drop (Suc m) (take n hops))"
    using m by (simp add: hops_text_def flip: Cons_nth_drop_Suc)
  show ?case
  proof (cases "max_length < length (full @ ?piece)")
    case True
    then show ?thesis
      using m hop snprintf_trunc [OF assms(1) Suc.prems, of ?piece] trunc_stop [OF True]
      by (simp add: split whole)
  next
    case False
    then show ?thesis
      using m hop snprintf_trunc [OF assms(1) Suc.prems, of ?piece]
        Suc.hyps(1) [of "Suc m" "full @ ?piece"] Suc.hyps(2)
      by (simp add: split whole)
  qed
qed

lemma nexthops_to_str_trunc:
  assumes "0 < max_length" and "unat hop_count \<le> length hops"
    and "list_all (\<lambda>h. oid_object_type h = 4) hops"
  shows "sai_nexthops_to_str hop_count (Some hops) max_length str
    = Inr (SAI_STATUS_SUCCESS, take (max_length - 1) (print_unsigned (unat hop_count)
        @ '' hops : ['' @ hops_text (take (unat hop_count) hops) @ '']''))"
proof -
  define piece where "piece = print_unsigned (unat hop_count) @ '' hops : [''"
  define rest where "rest = hops_text (take (unat hop_count) hops) @ '']''"
  have start: "snprintf_at max_length 0 piece str = Inr (take (max_length - 1) piece)"
    using assms(1) by (simp add: snprintf_at_def)
  have unfold: "sai_nexthops_to_str hop_count (Some hops) max_length str
    = (if max_length < length piece then Inr (SAI_STATUS_SUCCESS, take (max_length - 1) piece)
       else nexthops_loop max_length (Some hops) [0..<unat hop_count] (length piece)
              (take (max_length - 1) piece))"
    unfolding sai_nexthops_to_str_def Let_def piece_def [symmetric] start by (simp only: sum.case)
  have "sai_nexthops_to_str hop_count (Some hops) max_length str
    = Inr (SAI_STATUS_SUCCESS, take (max_length - 1) (piece @ rest))"
  proof (cases "max_length < length piece")
    case True
    then show ?thesis using trunc_stop [OF True] by (simp only: unfold if_True)
  next
    case False
    then have "length piece \<le> max_length" by simp
    from nexthops_loop_trunc [OF assms(1) this assms(2,3), of 0] show ?thesis
      using False by (simp only: unfold if_False rest_def drop0)
  qed
  then show ?thesis by (simp add: piece_def rest_def)
qed

text \<open>
  The table of type names ends long before the range the macro checks: printing an object id of a type
  between 14 and 86 reads past it.
\<close>

lemma type_name_out_of_bounds:
  assumes "14 \<le> sai_object_type_query (val_u64 (val_union v))" and "0 < max_length"
  shows "sai_value_to_str lib v ValOid max_length (Some str) = Inl OutOfBounds"
  using assms
  by (auto simp: sai_value_to_str_def scalar_text_def list_type_def SAI_TYPE_STR_def
      sai_type2str_arr_def sai_object_type_query_def Let_def split: if_splits)

end
