(* ===== verification/BlockPool.thy ===== *)
theory BlockPool
  imports Prelude
begin

text \<open>
  The contract of a block pool: an allocator that carves blocks out of one region. Two drivers of
  the image have one, Broadcom's \<^verbatim>\<open>mpool.c\<close> and Centec's \<^verbatim>\<open>dal_mpool.c\<close>. The locale \<open>block_pool\<close>
  names the operations a driver calls and the laws it relies on; the lemmas proved in it (blocks of
  any run are disjoint and inside the region, an allocation followed by its release restores the
  pool, the accounted usage) hold for both implementations through their interpretations.
\<close>

section \<open>Blocks in a region\<close>

text \<open>A block is its address and its size. \<open>packed lo bs hi\<close>: the blocks lie in \<open>[lo, hi)\<close>, in
  ascending order, without overlap.\<close>

type_synonym block = "int \<times> int"

fun packed :: "int \<Rightarrow> block list \<Rightarrow> int \<Rightarrow> bool" where
  "packed lo [] hi \<longleftrightarrow> lo \<le> hi"
| "packed lo ((a, n) # bs) hi \<longleftrightarrow> lo \<le> a \<and> 0 < n \<and> packed (a + n) bs hi"

definition disjoint_blocks :: "block \<Rightarrow> block \<Rightarrow> bool" where
  "disjoint_blocks b c \<longleftrightarrow> fst b + snd b \<le> fst c \<or> fst c + snd c \<le> fst b"

lemma packed_bounds: "packed lo bs hi \<Longrightarrow> lo \<le> hi"
  by (induction lo bs hi rule: packed.induct) auto

lemma packed_mono: "packed lo bs hi \<Longrightarrow> lo' \<le> lo \<Longrightarrow> packed lo' bs hi"
  by (cases bs) auto

lemma packed_append:
  "packed lo (xs @ ys) hi \<longleftrightarrow> (\<exists>mid. packed lo xs mid \<and> packed mid ys hi)"
proof (induction xs arbitrary: lo)
  case Nil
  show ?case
    by (auto intro: packed_mono dest: packed_bounds)
next
  case (Cons b xs)
  then show ?case by (cases b) auto
qed

lemma packed_mem: "packed lo bs hi \<Longrightarrow> (a, n) \<in> set bs \<Longrightarrow> lo \<le> a \<and> 0 < n \<and> a + n \<le> hi"
proof (induction lo bs hi rule: packed.induct)
  case (2 lo b m bs hi)
  then show ?case using packed_bounds [of "b + m" bs hi] by force
qed simp

lemma packed_sorted: "packed lo bs hi \<Longrightarrow> sorted_wrt (\<lambda>b c. fst b + snd b \<le> fst c) bs"
proof (induction lo bs hi rule: packed.induct)
  case (2 lo b m bs hi)
  then show ?case using packed_mem [of "b + m" bs hi] by auto
qed simp

lemma packed_disjoint:
  assumes "packed lo bs hi" and "i < length bs" and "j < length bs" and "i \<noteq> j"
  shows "disjoint_blocks (bs ! i) (bs ! j)"
proof (cases "i < j")
  case True
  then show ?thesis
    using sorted_wrt_nth_less [OF packed_sorted [OF assms(1)], of i j] assms
    by (simp add: disjoint_blocks_def)
next
  case False
  then show ?thesis
    using sorted_wrt_nth_less [OF packed_sorted [OF assms(1)], of j i] assms
    by (simp add: disjoint_blocks_def)
qed

lemma packed_distinct: "packed lo bs hi \<Longrightarrow> distinct (map fst bs)"
proof (induction lo bs hi rule: packed.induct)
  case (2 lo b m bs hi)
  have "b \<notin> fst ` set bs" using 2 packed_mem [of "b + m" bs hi] by force
  then show ?case using 2 by simp
qed simp

text \<open>Removing the block at an address.\<close>

fun remove_block :: "int \<Rightarrow> block list \<Rightarrow> block list" where
  "remove_block a [] = []"
| "remove_block a (b # bs) = (if fst b = a then bs else b # remove_block a bs)"

lemma remove_block_insert:
  "a \<notin> fst ` set xs \<Longrightarrow> remove_block a (xs @ (a, n) # ys) = xs @ ys"
  by (induction xs) auto

lemma remove_block_absent: "a \<notin> fst ` set bs \<Longrightarrow> remove_block a bs = bs"
  by (induction bs) auto

lemma packed_remove: "packed lo bs hi \<Longrightarrow> packed lo (remove_block a bs) hi"
proof (induction lo bs hi rule: packed.induct)
  case (2 lo b m bs hi)
  then show ?case by (auto intro: packed_mono)
qed simp

definition total_size :: "block list \<Rightarrow> int" where
  "total_size bs = sum_list (map snd bs)"

lemma total_size_le: "packed lo bs hi \<Longrightarrow> total_size bs \<le> hi - lo"
  by (induction lo bs hi rule: packed.induct) (auto simp: total_size_def)

section \<open>Chains of nodes\<close>

text \<open>
  Both pools are a linked list of nodes: a head of size zero at the start of the region, the blocks,
  and a tail of size zero at its end. The lemmas here are about the (address, size) pairs of the
  nodes: inserting a block into a gap, and unlinking the node at an address.
\<close>

definition chain_blocks :: "block list \<Rightarrow> block list" where
  "chain_blocks c = butlast (tl c)"

definition chain_valid :: "block list \<Rightarrow> bool" where
  "chain_valid c \<longleftrightarrow> 2 \<le> length c \<and> snd (hd c) = 0 \<and> snd (last c) = 0
     \<and> packed (fst (hd c)) (chain_blocks c) (fst (last c))"

lemma packed_insert:
  assumes "packed lo (xs @ ys) hi" and "0 < n"
    and "a = (if xs = [] then lo else fst (last xs) + snd (last xs))"
    and "a + n \<le> (if ys = [] then hi else fst (hd ys))"
  shows "packed lo (xs @ (a, n) # ys) hi"
  using assms
proof (induction xs arbitrary: lo)
  case Nil
  then show ?case by (cases ys) auto
next
  case (Cons x xs)
  obtain b m where x: "x = (b, m)" by (cases x)
  have "packed (b + m) (xs @ (a, n) # ys) hi"
    using Cons.prems x by (intro Cons.IH) (auto split: if_splits)
  then show ?case using Cons.prems x by simp
qed

lemma chain_insert:
  assumes valid: "chain_valid (xs @ p # q # ys)" and a: "a = fst p + snd p"
    and gap: "n \<le> fst q - a" and n: "0 < n"
  shows "chain_valid (xs @ p # (a, n) # q # ys)"
    and "fst (hd (xs @ p # (a, n) # q # ys)) = fst (hd (xs @ p # q # ys))"
    and "last (xs @ p # (a, n) # q # ys) = last (xs @ p # q # ys)"
    and "\<exists>us vs. chain_blocks (xs @ p # q # ys) = us @ vs
      \<and> chain_blocks (xs @ p # (a, n) # q # ys) = us @ (a, n) # vs"
proof -
  let ?us = "tl (xs @ [p])" and ?vs = "butlast (q # ys)"
  have old: "chain_blocks (xs @ p # q # ys) = ?us @ ?vs"
    by (cases xs) (simp_all add: chain_blocks_def butlast_append)
  have new: "chain_blocks (xs @ p # (a, n) # q # ys) = ?us @ (a, n) # ?vs"
    by (cases xs) (simp_all add: chain_blocks_def butlast_append)
  show "fst (hd (xs @ p # (a, n) # q # ys)) = fst (hd (xs @ p # q # ys))"
    and "last (xs @ p # (a, n) # q # ys) = last (xs @ p # q # ys)"
    by (cases xs; simp)+
  have "packed (fst (hd (xs @ p # q # ys))) (?us @ (a, n) # ?vs) (fst (last (xs @ p # q # ys)))"
  proof (rule packed_insert)
    show "packed (fst (hd (xs @ p # q # ys))) (?us @ ?vs) (fst (last (xs @ p # q # ys)))"
      using valid old by (simp add: chain_valid_def)
    show "a = (if ?us = [] then fst (hd (xs @ p # q # ys)) else fst (last ?us) + snd (last ?us))"
      using a valid by (cases xs) (auto simp: chain_valid_def)
    show "a + n \<le> (if ?vs = [] then fst (last (xs @ p # q # ys)) else fst (hd ?vs))"
      using gap by auto
  qed (rule n)
  then show "chain_valid (xs @ p # (a, n) # q # ys)"
    using valid new by (cases xs) (auto simp: chain_valid_def)
  show "\<exists>us vs. chain_blocks (xs @ p # q # ys) = us @ vs
      \<and> chain_blocks (xs @ p # (a, n) # q # ys) = us @ (a, n) # vs"
    using old new by blast
qed

definition chain_unlink :: "int \<Rightarrow> block list \<Rightarrow> block list" where
  "chain_unlink a c = (case c of [] \<Rightarrow> [] | h # t \<Rightarrow> h # remove_block a t)"

lemma remove_block_butlast:
  "a \<in> fst ` set (butlast t) \<Longrightarrow>
   butlast (remove_block a t) = remove_block a (butlast t) \<and> last (remove_block a t) = last t
   \<and> remove_block a t \<noteq> []"
proof (induction t)
  case (Cons b t)
  then have t: "t \<noteq> []" by auto
  show ?case
  proof (cases "fst b = a")
    case False
    then have "a \<in> fst ` set (butlast t)" using Cons.prems t by auto
    then show ?thesis using Cons.IH False t by simp
  qed (use t in simp)
qed simp

lemma chain_remove:
  assumes "chain_valid c" and "a \<in> fst ` set (chain_blocks c)"
  shows "chain_valid (chain_unlink a c)" and "fst (hd (chain_unlink a c)) = fst (hd c)"
    and "last (chain_unlink a c) = last c"
    and "chain_blocks (chain_unlink a c) = remove_block a (chain_blocks c)"
proof -
  obtain h t where c: "c = h # t" and t: "t \<noteq> []"
    using assms(1) by (cases c; cases "tl c") (auto simp: chain_valid_def)
  note rb = remove_block_butlast [of a t]
  have mem: "a \<in> fst ` set (butlast t)" using assms(2) c by (simp add: chain_blocks_def)
  show "fst (hd (chain_unlink a c)) = fst (hd c)" by (simp add: chain_unlink_def c)
  show lst: "last (chain_unlink a c) = last c"
    using rb mem t by (simp add: chain_unlink_def c)
  show bl: "chain_blocks (chain_unlink a c) = remove_block a (chain_blocks c)"
    using rb mem by (simp add: chain_unlink_def c chain_blocks_def)
  have "packed (fst h) (remove_block a (chain_blocks c)) (fst (last c))"
    using assms(1) packed_remove by (simp add: chain_valid_def c)
  moreover have "2 \<le> length (chain_unlink a c)" and "hd (chain_unlink a c) = h"
    using rb mem by (cases "remove_block a t"; simp add: chain_unlink_def c)+
  ultimately show "chain_valid (chain_unlink a c)"
    using lst bl assms(1) by (simp add: chain_valid_def c)
qed

lemma chain_ends:
  assumes "chain_valid c"
  obtains h l where "c = h # chain_blocks c @ [l]" and "snd h = 0" and "snd l = 0"
proof -
  obtain h t where c: "c = h # t" and t: "t \<noteq> []"
    using assms by (cases c; cases "tl c") (auto simp: chain_valid_def)
  show thesis
    using assms t by (intro that [of h "last t"]) (simp_all add: c chain_valid_def chain_blocks_def)
qed

lemma chain_total: "chain_valid c \<Longrightarrow> sum_list (map snd c) = total_size (chain_blocks c)"
proof (erule chain_ends)
  fix h l
  assume c: "c = h # chain_blocks c @ [l]" and z: "snd h = 0" "snd l = 0"
  show ?thesis by (subst c) (simp add: z total_size_def)
qed

text \<open>Adding up with wrap-around is the sum when no partial sum leaves the range.\<close>

lemma foldl_wrap32:
  "list_all (\<lambda>n. 0 \<le> n) ns \<Longrightarrow> 0 \<le> u \<Longrightarrow> u + sum_list ns < 2147483648 \<Longrightarrow>
   foldl (\<lambda>u n. wrap32 (u + n)) u ns = u + sum_list ns"
proof (induction ns arbitrary: u)
  case (Cons n ns)
  have "0 \<le> sum_list ns" using Cons.prems(1) by (intro sum_list_nonneg) (auto simp: list_all_iff)
  then show ?case using Cons by (simp add: wrap32_id)
qed simp

lemma chain_nonneg:
  assumes "chain_valid c"
  shows "list_all (\<lambda>b. 0 \<le> snd b) c"
proof (rule chain_ends [OF assms])
  fix h l
  assume c: "c = h # chain_blocks c @ [l]" and z: "snd h = 0" "snd l = 0"
  have "list_all (\<lambda>b. 0 \<le> snd b) (chain_blocks c)"
    using assms packed_mem [of "fst (hd c)" "chain_blocks c" "fst (last c)"]
    by (force simp: chain_valid_def list_all_iff)
  then show ?thesis by (subst c) (simp add: z)
qed

section \<open>Rounding sizes\<close>

text \<open>
  Both pools round a requested size up to a multiple of the cache line. The line is a power of two,
  so \<^verbatim>\<open>x & (line - 1)\<close> is \<open>x mod line\<close> and \<^verbatim>\<open>x & ~(line - 1)\<close> is \<open>x - x mod line\<close>.
\<close>

definition round_up :: "int \<Rightarrow> int \<Rightarrow> int" where
  "round_up line n = (let m = n mod line in if m \<noteq> 0 then wrap32 (n + (line - m)) else n)"

definition round_down :: "int \<Rightarrow> int \<Rightarrow> int" where
  "round_down line n = n - n mod line"

lemma round_up_spec:
  assumes "0 < line" and "0 < n" and "n + line \<le> 2147483648"
  shows "n \<le> round_up line n \<and> round_up line n < n + line \<and> round_up line n mod line = 0"
proof (cases "n mod line = 0")
  case True
  then show ?thesis using assms by (simp add: round_up_def)
next
  case False
  have m: "0 < n mod line" "n mod line < line"
    using False assms(1) pos_mod_sign [of line n] pos_mod_bound [of line n] by linarith+
  then have "wrap32 (n + (line - n mod line)) = n + (line - n mod line)"
    using assms by (intro wrap32_id) linarith+
  moreover have "(n + (line - n mod line)) mod line = 0"
    by (metis add_diff_eq minus_mod_self2 mod_0_imp_dvd dvd_imp_mod_0 minus_mod_eq_mult_div
        add.commute diff_add_eq mod_add_self1 mod_mult_self1_is_0)
  ultimately show ?thesis using m False by (simp add: round_up_def Let_def)
qed

section \<open>The interface\<close>

datatype pool_call = Alloc bool int | Free int

text \<open>
  A run of calls: requests of positive sizes, each with the outcome of the \<^verbatim>\<open>MALLOC\<close> of its node, and
  releases of addresses that are live blocks.
\<close>

fun run_pool ::
  "(bool \<Rightarrow> int \<Rightarrow> 'p \<Rightarrow> (int \<times> 'p) option) \<Rightarrow> (int \<Rightarrow> 'p \<Rightarrow> 'p) \<Rightarrow> pool_call list \<Rightarrow> 'p \<Rightarrow> 'p" where
  "run_pool alloc free [] p = p"
| "run_pool alloc free (Alloc m n # cs) p =
     (case alloc m n p of None \<Rightarrow> run_pool alloc free cs p
      | Some (a, p') \<Rightarrow> run_pool alloc free cs p')"
| "run_pool alloc free (Free a # cs) p = run_pool alloc free cs (free a p)"

fun calls_ok ::
  "(bool \<Rightarrow> int \<Rightarrow> 'p \<Rightarrow> (int \<times> 'p) option) \<Rightarrow> (int \<Rightarrow> 'p \<Rightarrow> 'p) \<Rightarrow> ('p \<Rightarrow> block list)
     \<Rightarrow> (int \<Rightarrow> bool) \<Rightarrow> pool_call list \<Rightarrow> 'p \<Rightarrow> bool" where
  "calls_ok alloc free blocks size_ok [] p = True"
| "calls_ok alloc free blocks size_ok (Alloc m n # cs) p =
     (size_ok n \<and> (case alloc m n p of None \<Rightarrow> calls_ok alloc free blocks size_ok cs p
        | Some (a, p') \<Rightarrow> calls_ok alloc free blocks size_ok cs p'))"
| "calls_ok alloc free blocks size_ok (Free a # cs) p =
     (a \<in> fst ` set (blocks p) \<and> calls_ok alloc free blocks size_ok cs (free a p))"

locale block_pool =
  fixes alloc :: "bool \<Rightarrow> int \<Rightarrow> 'p \<Rightarrow> (int \<times> 'p) option"
    and free :: "int \<Rightarrow> 'p \<Rightarrow> 'p"
    and blocks :: "'p \<Rightarrow> block list"
    and lo :: "'p \<Rightarrow> int"
    and hi :: "'p \<Rightarrow> int"
    and valid :: "'p \<Rightarrow> bool"
    and size_ok :: "int \<Rightarrow> bool"
    and rounded :: "int \<Rightarrow> int"
  assumes valid_packed: "valid p \<Longrightarrow> packed (lo p) (blocks p) (hi p)"
    and size_le: "size_ok n \<Longrightarrow> 0 < n \<and> n \<le> rounded n"
    and alloc_law: "valid p \<Longrightarrow> size_ok n \<Longrightarrow> alloc m n p = Some (a, p') \<Longrightarrow>
      valid p' \<and> lo p' = lo p \<and> hi p' = hi p
      \<and> (\<exists>xs ys. blocks p = xs @ ys \<and> blocks p' = xs @ (a, rounded n) # ys)"
    and free_law: "valid p \<Longrightarrow> a \<in> fst ` set (blocks p) \<Longrightarrow>
      valid (free a p) \<and> lo (free a p) = lo p \<and> hi (free a p) = hi p
      \<and> blocks (free a p) = remove_block a (blocks p)"
begin

text \<open>A new block does not touch the live ones and lies in the region.\<close>

lemma alloc_fresh:
  assumes "valid p" and "size_ok n" and "alloc m n p = Some (a, p')"
  shows "lo p \<le> a \<and> a + n \<le> hi p \<and> (\<forall>b \<in> set (blocks p). disjoint_blocks (a, n) b)"
proof -
  obtain xs ys where b: "blocks p = xs @ ys" "blocks p' = xs @ (a, rounded n) # ys"
    and inv: "valid p'" "lo p' = lo p" "hi p' = hi p"
    using alloc_law [OF assms] by blast
  have pk: "packed (lo p) (xs @ (a, rounded n) # ys) (hi p)"
    using valid_packed [OF inv(1)] b inv by simp
  have n: "0 < n" "n \<le> rounded n" using size_le [OF assms(2)] by auto
  have "lo p \<le> a \<and> a + rounded n \<le> hi p" using packed_mem [OF pk, of a "rounded n"] by simp
  moreover have "disjoint_blocks (a, n) c" if "c \<in> set (blocks p)" for c
    using packed_sorted [OF pk] that n b(1)
    by (auto simp: sorted_wrt_append disjoint_blocks_def)
  ultimately show ?thesis using n by auto
qed

lemma alloc_usage:
  "valid p \<Longrightarrow> size_ok n \<Longrightarrow> alloc m n p = Some (a, p') \<Longrightarrow>
   total_size (blocks p') = total_size (blocks p) + rounded n"
  using alloc_law [of p n m a p'] by (auto simp: total_size_def)

lemma alloc_free:
  assumes "valid p" and "size_ok n" and "alloc m n p = Some (a, p')"
  shows "blocks (free a p') = blocks p"
proof -
  obtain xs ys where b: "blocks p = xs @ ys" "blocks p' = xs @ (a, rounded n) # ys" "valid p'"
    using alloc_law [OF assms] by blast
  have "a \<notin> fst ` set xs"
    using packed_distinct [OF valid_packed [OF b(3)]] b(2) by auto
  then show ?thesis
    using b free_law [OF b(3), of a] by (simp add: remove_block_insert)
qed

lemma run_valid:
  "valid p \<Longrightarrow> calls_ok alloc free blocks size_ok cs p \<Longrightarrow>
   valid (run_pool alloc free cs p) \<and> lo (run_pool alloc free cs p) = lo p
   \<and> hi (run_pool alloc free cs p) = hi p"
proof (induction cs arbitrary: p)
  case (Cons c cs)
  show ?case
  proof (cases c)
    case (Alloc m n)
    then show ?thesis
      using Cons alloc_law [of p n m] by (cases "alloc m n p") auto
  next
    case (Free a)
    then show ?thesis using Cons free_law [of p a] by auto
  qed
qed simp

text \<open>Whatever the calls, two live blocks never overlap and usage never exceeds the region.\<close>

lemma run_disjoint:
  assumes "valid p" and "calls_ok alloc free blocks size_ok cs p"
    and "i < length (blocks (run_pool alloc free cs p))"
    and "j < length (blocks (run_pool alloc free cs p))" and "i \<noteq> j"
  shows "disjoint_blocks (blocks (run_pool alloc free cs p) ! i)
    (blocks (run_pool alloc free cs p) ! j)"
  using run_valid [OF assms(1,2)] valid_packed packed_disjoint assms(3-) by blast

lemma run_usage:
  "valid p \<Longrightarrow> calls_ok alloc free blocks size_ok cs p \<Longrightarrow>
   total_size (blocks (run_pool alloc free cs p)) \<le> hi p - lo p"
  using run_valid [where p = p and cs = cs] valid_packed [of "run_pool alloc free cs p"] total_size_le by force

end

end
