(* ===== verification/BcmMpool.thy ===== *)
theory BcmMpool
  imports BlockPool
begin

text \<open>
  The DMA memory pool of the Broadcom BDE module (\<^verbatim>\<open>systems/bde/linux/shared/mpool.c\<close>). A pool is
  the linked list of its nodes, the lock is explicit (taking it twice is \<open>Deadlock\<close>), the outcome of
  \<^verbatim>\<open>MALLOC\<close> is an argument. The pool is an instance of \<open>block_pool\<close>; a failed \<open>mpool_create\<close> is
  shown to leave the lock taken.
\<close>

record mpool_mem =
  mem_address :: int
  mem_size :: int

type_synonym mpool = "mpool_mem list"

text \<open>Taking and releasing the lock around an operation.\<close>

definition mpool_locked :: "bool \<Rightarrow> 'r \<Rightarrow> ('r \<times> bool) checked" where
  "mpool_locked held r = (if held then Inl Deadlock else Inr (r, False))"

definition mpool_init :: "int \<times> bool" where
  "mpool_init = (0, False)"

fun mpool_alloc_loop :: "int \<Rightarrow> mpool \<Rightarrow> (int \<times> mpool) option" where
  "mpool_alloc_loop sz (ptr # nxt # rest) =
     (if sz \<le> mem_address nxt - (mem_address ptr + mem_size ptr)
      then (let newptr = \<lparr>mem_address = mem_address ptr + mem_size ptr, mem_size = sz\<rparr> in
            Some (mem_address newptr, ptr # newptr # nxt # rest))
      else map_option (\<lambda>(a, ps). (a, ptr # ps)) (mpool_alloc_loop sz (nxt # rest)))"
| "mpool_alloc_loop sz ps = None"

text \<open>\<open>line\<close> is \<^verbatim>\<open>BCM_CACHE_LINE_BYTES\<close>, a power of two that the build chooses.\<close>

definition mpool_alloc ::
  "int \<Rightarrow> bool \<Rightarrow> int \<Rightarrow> bool \<Rightarrow> mpool \<Rightarrow> ((int option \<times> mpool) \<times> bool) checked" where
  "mpool_alloc line malloc_ok sz held pool =
     mpool_locked held
       (case mpool_alloc_loop (round_up line sz) pool of
          None \<Rightarrow> (None, pool)
        | Some (a, pool') \<Rightarrow> if malloc_ok then (Some a, pool') else (None, pool))"

fun mpool_free_loop :: "int \<Rightarrow> mpool \<Rightarrow> mpool" where
  "mpool_free_loop addr (ptr # nxt # rest) =
     (if mem_address nxt = addr then ptr # rest
      else ptr # mpool_free_loop addr (nxt # rest))"
| "mpool_free_loop addr ps = ps"

definition mpool_free :: "int \<Rightarrow> bool \<Rightarrow> mpool \<Rightarrow> (mpool \<times> bool) checked" where
  "mpool_free addr held pool = mpool_locked held (mpool_free_loop addr pool)"

text \<open>The early returns of the source do not release the lock.\<close>

definition mpool_create ::
  "int \<Rightarrow> bool \<Rightarrow> bool \<Rightarrow> int \<Rightarrow> int \<Rightarrow> bool \<Rightarrow> (mpool option \<times> bool) checked" where
  "mpool_create line malloc_head malloc_tail base_ptr sz held =
     (let m = base_ptr mod line;
          base = (if m \<noteq> 0 then base_ptr + (line - m) else base_ptr);
          sz = (if m \<noteq> 0 then wrap32 (sz - (line - m)) else sz);
          sz = round_down line sz in
      if held then Inl Deadlock
      else if \<not> malloc_head then Inr (None, True)
      else if \<not> malloc_tail then Inr (None, True)
      else Inr (Some [\<lparr>mem_address = base, mem_size = 0\<rparr>,
                      \<lparr>mem_address = base + sz, mem_size = 0\<rparr>], False))"

definition mpool_destroy :: "bool \<Rightarrow> mpool \<Rightarrow> ((int \<times> mpool) \<times> bool) checked" where
  "mpool_destroy held pool = mpool_locked held (0, [])"

definition mpool_usage :: "bool \<Rightarrow> mpool \<Rightarrow> (int \<times> bool) checked" where
  "mpool_usage held pool = mpool_locked held (foldl (\<lambda>usage ptr. wrap32 (usage + mem_size ptr)) 0 pool)"

section \<open>The pool as a chain\<close>

definition node :: "mpool_mem \<Rightarrow> block" where
  "node m = (mem_address m, mem_size m)"

definition mpool_chain :: "mpool \<Rightarrow> block list" where
  "mpool_chain pool = map node pool"

definition mpool_blocks :: "mpool \<Rightarrow> block list" where
  "mpool_blocks pool = chain_blocks (mpool_chain pool)"

definition mpool_valid :: "mpool \<Rightarrow> bool" where
  "mpool_valid pool \<longleftrightarrow> chain_valid (mpool_chain pool)"

definition mpool_lo :: "mpool \<Rightarrow> int" where "mpool_lo pool = fst (hd (mpool_chain pool))"
definition mpool_hi :: "mpool \<Rightarrow> int" where "mpool_hi pool = fst (last (mpool_chain pool))"

lemma alloc_loop_Some:
  "mpool_alloc_loop n pool = Some (a, pool') \<Longrightarrow>
   \<exists>xs p q ys. mpool_chain pool = xs @ p # q # ys \<and> a = fst p + snd p \<and> n \<le> fst q - a
     \<and> mpool_chain pool' = xs @ p # (a, n) # q # ys"
proof (induction n pool arbitrary: pool' rule: mpool_alloc_loop.induct)
  case (1 n ptr nxt rest)
  show ?case
  proof (cases "n \<le> mem_address nxt - (mem_address ptr + mem_size ptr)")
    case True
    then show ?thesis
      using "1.prems"
      by (intro exI [of _ "[]"] exI [of _ "node ptr"] exI [of _ "node nxt"]
          exI [of _ "map node rest"]) (auto simp: mpool_chain_def node_def Let_def)
  next
    case False
    then obtain ps where "mpool_alloc_loop n (nxt # rest) = Some (a, ps)" and "pool' = ptr # ps"
      using "1.prems" by auto
    then obtain xs p q ys where
      "mpool_chain (nxt # rest) = xs @ p # q # ys" "a = fst p + snd p" "n \<le> fst q - a"
      "mpool_chain ps = xs @ p # (a, n) # q # ys"
      using "1.IH" [OF False] by blast
    then show ?thesis
      using \<open>pool' = ptr # ps\<close>
      by (intro exI [of _ "node ptr # xs"] exI [of _ p] exI [of _ q] exI [of _ ys])
        (simp add: mpool_chain_def)
  qed
qed auto

text \<open>First fit finds a gap whenever there is one.\<close>

lemma alloc_loop_None:
  "mpool_alloc_loop n pool = None \<longleftrightarrow>
   successively (\<lambda>p q. mem_address q - (mem_address p + mem_size p) < n) pool"
  by (induction n pool rule: mpool_alloc_loop.induct) (auto simp: Let_def not_le)

lemma free_loop_chain:
  "pool \<noteq> [] \<Longrightarrow> mpool_chain (mpool_free_loop a pool) = chain_unlink a (mpool_chain pool)"
  by (induction a pool rule: mpool_free_loop.induct)
    (auto simp: mpool_chain_def chain_unlink_def node_def)

text \<open>What a driver sees of the operations when the lock is free.\<close>

definition mpool_request :: "int \<Rightarrow> bool \<Rightarrow> int \<Rightarrow> mpool \<Rightarrow> (int \<times> mpool) option" where
  "mpool_request line malloc_ok sz pool = (case mpool_alloc line malloc_ok sz False pool of
     Inr ((Some a, pool'), _) \<Rightarrow> Some (a, pool') | _ \<Rightarrow> None)"

definition mpool_release :: "int \<Rightarrow> mpool \<Rightarrow> mpool" where
  "mpool_release addr pool = (case mpool_free addr False pool of
     Inr (pool', _) \<Rightarrow> pool' | Inl _ \<Rightarrow> pool)"

lemma mpool_request_loop:
  "mpool_request line ok sz pool = (if ok then mpool_alloc_loop (round_up line sz) pool else None)"
  by (auto simp: mpool_request_def mpool_alloc_def mpool_locked_def split: option.split)

lemma mpool_release_loop: "mpool_release = mpool_free_loop"
  by (intro ext) (simp add: mpool_release_def mpool_free_def mpool_locked_def)

definition mpool_size_ok :: "int \<Rightarrow> int \<Rightarrow> bool" where
  "mpool_size_ok line n \<longleftrightarrow> 0 < line \<and> 0 < n \<and> n + line \<le> 2147483648"

interpretation bcm: block_pool "mpool_request line" mpool_release mpool_blocks mpool_lo
  mpool_hi mpool_valid "mpool_size_ok line" "round_up line" for line
proof unfold_locales
  fix p
  show "mpool_valid p \<Longrightarrow> packed (mpool_lo p) (mpool_blocks p) (mpool_hi p)"
    by (simp add: mpool_valid_def chain_valid_def mpool_lo_def mpool_hi_def mpool_blocks_def)
next
  fix n
  show "mpool_size_ok line n \<Longrightarrow> 0 < n \<and> n \<le> round_up line n"
    using round_up_spec [of line n] by (simp add: mpool_size_ok_def)
next
  fix p n m a p'
  assume valid: "mpool_valid p" and n: "mpool_size_ok line n"
    and alloc: "mpool_request line m n p = Some (a, p')"
  have pos: "0 < round_up line n"
    using round_up_spec [of line n] n by (simp add: mpool_size_ok_def)
  obtain xs q r ys where c: "mpool_chain p = xs @ q # r # ys" "a = fst q + snd q"
      "round_up line n \<le> fst r - a" "mpool_chain p' = xs @ q # (a, round_up line n) # r # ys"
    using alloc_loop_Some [of "round_up line n" p a p'] alloc
    unfolding mpool_request_loop by (auto split: if_splits)
  have "chain_valid (xs @ q # r # ys)" using valid c(1) by (simp add: mpool_valid_def)
  note ins = chain_insert [OF this c(2,3) pos]
  show "mpool_valid p' \<and> mpool_lo p' = mpool_lo p \<and> mpool_hi p' = mpool_hi p
      \<and> (\<exists>xs ys. mpool_blocks p = xs @ ys \<and> mpool_blocks p' = xs @ (a, round_up line n) # ys)"
    unfolding mpool_valid_def mpool_lo_def mpool_hi_def mpool_blocks_def c(1,4)
    using ins(1,2,4) by (simp only: ins(3))
next
  fix p a
  assume valid: "mpool_valid p" and mem: "a \<in> fst ` set (mpool_blocks p)"
  have "p \<noteq> []" using valid by (auto simp: mpool_valid_def mpool_chain_def chain_valid_def)
  then show "mpool_valid (mpool_release a p) \<and> mpool_lo (mpool_release a p) = mpool_lo p
      \<and> mpool_hi (mpool_release a p) = mpool_hi p
      \<and> mpool_blocks (mpool_release a p) = remove_block a (mpool_blocks p)"
    using chain_remove [of "mpool_chain p" a] valid mem
    by (simp add: mpool_valid_def mpool_lo_def mpool_hi_def mpool_blocks_def free_loop_chain mpool_release_loop)
qed

section \<open>Creation and usage\<close>

lemma mpool_create_valid:
  assumes "mpool_create line malloc_head malloc_tail base sz False = Inr (Some pool, held)"
    and "0 < line" and "line \<le> sz" and "sz \<le> 2147483647"
  shows "mpool_valid pool \<and> mpool_blocks pool = [] \<and> base \<le> mpool_lo pool
    \<and> mpool_lo pool \<le> mpool_hi pool \<and> mpool_hi pool \<le> base + sz \<and> mpool_lo pool mod line = 0"
proof -
  have m: "0 \<le> base mod line" "base mod line < line" using assms(2) by simp_all
  let ?base = "if base mod line \<noteq> 0 then base + (line - base mod line) else base"
  let ?sz = "if base mod line \<noteq> 0 then sz - (line - base mod line) else sz"
  have w: "wrap32 (sz - (line - base mod line)) = sz - (line - base mod line)"
    using assms m by (intro wrap32_id) linarith+
  have pool: "pool = [\<lparr>mem_address = ?base, mem_size = 0\<rparr>,
      \<lparr>mem_address = ?base + round_down line ?sz, mem_size = 0\<rparr>]"
    using assms(1) w by (auto simp: mpool_create_def Let_def split: if_splits)
  have sz: "0 \<le> ?sz" "?base + ?sz = base + sz" "base \<le> ?base" using assms m by auto
  have down: "0 \<le> round_down line ?sz" "round_down line ?sz \<le> ?sz"
    using sz(1) assms(2) zmod_le_nonneg_dividend [OF sz(1), of line]
    by (simp_all add: round_down_def del: if_split)
  have "?base mod line = 0"
  proof (cases "base mod line = 0")
    case False
    have "base + (line - base mod line) = line * (base div line + 1)"
      using mult_div_mod_eq [of line base] by (simp add: algebra_simps)
    then show ?thesis using False by simp
  qed simp
  then show ?thesis
    using sz down by (simp add: pool mpool_valid_def chain_valid_def mpool_blocks_def
        chain_blocks_def mpool_chain_def node_def mpool_lo_def mpool_hi_def del: if_split)
qed

lemma mpool_usage_total:
  assumes "mpool_valid pool" and "mpool_hi pool - mpool_lo pool < 2147483648"
  shows "mpool_usage False pool = Inr (total_size (mpool_blocks pool), False)"
proof -
  have chain: "chain_valid (mpool_chain pool)" using assms(1) by (simp add: mpool_valid_def)
  have le: "total_size (mpool_blocks pool) \<le> mpool_hi pool - mpool_lo pool"
    using bcm.valid_packed [OF assms(1)] by (rule total_size_le)
  have "foldl (\<lambda>u ptr. wrap32 (u + mem_size ptr)) 0 pool
      = foldl (\<lambda>u n. wrap32 (u + n)) 0 (map snd (mpool_chain pool))"
    by (simp add: mpool_chain_def node_def foldl_map)
  also have "\<dots> = 0 + sum_list (map snd (mpool_chain pool))"
    using chain_nonneg [OF chain] chain_total [OF chain] le assms(2)
    by (intro foldl_wrap32) (auto simp: list_all_iff mpool_blocks_def)
  finally show ?thesis
    by (simp add: mpool_usage_def mpool_locked_def chain_total [OF chain] mpool_blocks_def)
qed

end
