(* ===== verification/DalMpool.thy ===== *)
theory DalMpool
  imports BlockPool
begin

text \<open>
  The DMA memory pools of the Centec driver (\<^verbatim>\<open>48x6q/modules/dal_mpool.c\<close>; the copy under
  \<^verbatim>\<open>48x2q4z\<close> is the same file). One creation makes three pools per chip: a common one over the whole
  region, returned as the handle, and two hidden ones over its first megabyte (descriptors) and the
  rest (data). A pool reference is NULL, a live chain, or dangling after its nodes were freed. Every
  function of the file releases the lock on every path, so the lock is left out. The single chains
  are an instance of \<open>block_pool\<close>; the three together are not, since the common pool overlaps the
  others.
\<close>

record dal_mpool_mem =
  dal_address :: int
  dal_size :: int
  dal_type :: int

datatype pool_ref = PoolNull | PoolLive "dal_mpool_mem list" | PoolDangling

record dal_state =
  p_desc_pool :: "nat \<Rightarrow> pool_ref"
  p_data_pool :: "nat \<Rightarrow> pool_ref"

definition DAL_CACHE_LINE_BYTES :: int where "DAL_CACHE_LINE_BYTES = 256"
definition DAL_MAX_CHIP_NUM :: nat where "DAL_MAX_CHIP_NUM = 32"
definition DAL_MPOOL_MAX_DESX_SIZE :: int where "DAL_MPOOL_MAX_DESX_SIZE = 1048576"
definition DAL_MPOOL_TYPE_USELESS :: int where "DAL_MPOOL_TYPE_USELESS = 0"
definition DAL_MPOOL_TYPE_DESC :: int where "DAL_MPOOL_TYPE_DESC = 1"
definition DAL_MPOOL_TYPE_DATA :: int where "DAL_MPOOL_TYPE_DATA = 2"

definition dal_mpool_init :: int where "dal_mpool_init = 0"

text \<open>The type of the tail is not initialised; \<open>junk\<close> is what the memory holds.\<close>

definition dal_mpool_create_chain ::
  "bool \<Rightarrow> bool \<Rightarrow> int \<Rightarrow> int \<Rightarrow> int \<Rightarrow> int \<Rightarrow> dal_mpool_mem list option" where
  "dal_mpool_create_chain malloc_head malloc_tail junk base sz ty =
     (if \<not> malloc_head then None
      else if \<not> malloc_tail then None
      else Some [\<lparr>dal_address = base, dal_size = 0, dal_type = ty\<rparr>,
                 \<lparr>dal_address = base + sz, dal_size = 0, dal_type = junk\<rparr>])"

text \<open>
  \<open>alloc\<close> answers the six allocations in their order. When the third chain cannot be made, the
  second is freed but stays referenced. The chip number indexes arrays of 32.
\<close>

definition dal_mpool_create ::
  "(nat \<Rightarrow> bool) \<Rightarrow> int \<Rightarrow> nat \<Rightarrow> int \<Rightarrow> int \<Rightarrow> dal_state
     \<Rightarrow> (dal_mpool_mem list option \<times> dal_state) checked" where
  "dal_mpool_create alloc junk lchip base_ptr sz st =
     (let m = base_ptr mod DAL_CACHE_LINE_BYTES;
          base = (if m \<noteq> 0 then base_ptr + (DAL_CACHE_LINE_BYTES - m) else base_ptr);
          sz = (if m \<noteq> 0 then wrap32 (sz - (DAL_CACHE_LINE_BYTES - m)) else sz);
          sz = round_down DAL_CACHE_LINE_BYTES sz in
      case dal_mpool_create_chain (alloc 0) (alloc 1) junk base sz DAL_MPOOL_TYPE_USELESS of
        None \<Rightarrow> Inr (None, st)
      | Some head \<Rightarrow>
          if DAL_MAX_CHIP_NUM \<le> lchip then Inl OutOfBounds
          else
            (case dal_mpool_create_chain (alloc 2) (alloc 3) junk base DAL_MPOOL_MAX_DESX_SIZE
                    DAL_MPOOL_TYPE_DESC of
               None \<Rightarrow> Inr (None, st\<lparr>p_desc_pool := (p_desc_pool st)(lchip := PoolNull)\<rparr>)
             | Some desc \<Rightarrow>
                 (case dal_mpool_create_chain (alloc 4) (alloc 5) junk
                         (base + DAL_MPOOL_MAX_DESX_SIZE) (wrap32 (sz - DAL_MPOOL_MAX_DESX_SIZE))
                         DAL_MPOOL_TYPE_DATA of
                    None \<Rightarrow>
                      Inr (None,
                        st\<lparr>p_desc_pool := (p_desc_pool st)(lchip := PoolDangling),
                           p_data_pool := (p_data_pool st)(lchip := PoolNull)\<rparr>)
                  | Some data \<Rightarrow>
                      Inr (Some head,
                        st\<lparr>p_desc_pool := (p_desc_pool st)(lchip := PoolLive desc),
                           p_data_pool := (p_data_pool st)(lchip := PoolLive data)\<rparr>))))"

fun dal_mpool_alloc_comon ::
  "int \<Rightarrow> int \<Rightarrow> dal_mpool_mem list \<Rightarrow> (int \<times> dal_mpool_mem list) option" where
  "dal_mpool_alloc_comon sz ty (ptr # nxt # rest) =
     (if sz \<le> dal_address nxt - (dal_address ptr + dal_size ptr)
      then (let new_ptr = \<lparr>dal_address = dal_address ptr + dal_size ptr, dal_size = sz,
                           dal_type = ty\<rparr> in
            Some (dal_address new_ptr, ptr # new_ptr # nxt # rest))
      else map_option (\<lambda>(a, ps). (a, ptr # ps)) (dal_mpool_alloc_comon sz ty (nxt # rest)))"
| "dal_mpool_alloc_comon sz ty ps = None"

text \<open>Allocating through a reference.\<close>

definition alloc_ref :: "bool \<Rightarrow> int \<Rightarrow> int \<Rightarrow> pool_ref \<Rightarrow> (int option \<times> pool_ref) checked" where
  "alloc_ref malloc_ok sz ty r =
     (case r of
        PoolNull \<Rightarrow> Inr (None, r)
      | PoolDangling \<Rightarrow> Inl UseAfterFree
      | PoolLive c \<Rightarrow>
          (case dal_mpool_alloc_comon sz ty c of
             None \<Rightarrow> Inr (None, r)
           | Some (a, c') \<Rightarrow> if malloc_ok then Inr (Some a, PoolLive c') else Inr (None, r)))"

definition dal_mpool_alloc ::
  "bool \<Rightarrow> nat \<Rightarrow> pool_ref \<Rightarrow> int \<Rightarrow> int \<Rightarrow> dal_state \<Rightarrow> (int option \<times> pool_ref \<times> dal_state) checked" where
  "dal_mpool_alloc malloc_ok lchip pool size_req ty st =
     (let sz = round_up DAL_CACHE_LINE_BYTES size_req in
      if ty = DAL_MPOOL_TYPE_USELESS then
        (case alloc_ref malloc_ok sz ty pool of
           Inl e \<Rightarrow> Inl e
         | Inr (a, pool') \<Rightarrow> Inr (a, pool', st))
      else if ty = DAL_MPOOL_TYPE_DESC then
        (if DAL_MAX_CHIP_NUM \<le> lchip then Inl OutOfBounds
         else case alloc_ref malloc_ok sz ty (p_desc_pool st lchip) of
           Inl e \<Rightarrow> Inl e
         | Inr (a, r) \<Rightarrow> Inr (a, pool, st\<lparr>p_desc_pool := (p_desc_pool st)(lchip := r)\<rparr>))
      else if ty = DAL_MPOOL_TYPE_DATA then
        (if DAL_MAX_CHIP_NUM \<le> lchip then Inl OutOfBounds
         else case alloc_ref malloc_ok sz ty (p_data_pool st lchip) of
           Inl e \<Rightarrow> Inl e
         | Inr (a, r) \<Rightarrow> Inr (a, pool, st\<lparr>p_data_pool := (p_data_pool st)(lchip := r)\<rparr>))
      else Inr (None, pool, st))"

fun dal_mpool_free_chain :: "int \<Rightarrow> dal_mpool_mem list \<Rightarrow> dal_mpool_mem list" where
  "dal_mpool_free_chain addr (ptr # nxt # rest) =
     (if dal_address nxt = addr then ptr # rest
      else ptr # dal_mpool_free_chain addr (nxt # rest))"
| "dal_mpool_free_chain addr ps = ps"

definition free_ref :: "int \<Rightarrow> pool_ref \<Rightarrow> pool_ref checked" where
  "free_ref addr r =
     (case r of
        PoolNull \<Rightarrow> Inr r
      | PoolDangling \<Rightarrow> Inl UseAfterFree
      | PoolLive c \<Rightarrow> Inr (PoolLive (dal_mpool_free_chain addr c)))"

text \<open>The pool to search is chosen by the type of the handle's head node.\<close>

definition dal_mpool_free ::
  "nat \<Rightarrow> pool_ref \<Rightarrow> int \<Rightarrow> dal_state \<Rightarrow> (pool_ref \<times> dal_state) checked" where
  "dal_mpool_free lchip pool addr st =
     (case pool of
        PoolNull \<Rightarrow> Inl NullDeref
      | PoolDangling \<Rightarrow> Inl UseAfterFree
      | PoolLive [] \<Rightarrow> Inl NullDeref
      | PoolLive (head # c) \<Rightarrow>
          if dal_type head = DAL_MPOOL_TYPE_USELESS then
            (case free_ref addr pool of
               Inl e \<Rightarrow> Inl e
             | Inr r \<Rightarrow> Inr (r, st))
          else if dal_type head = DAL_MPOOL_TYPE_DESC then
            (if DAL_MAX_CHIP_NUM \<le> lchip then Inl OutOfBounds
             else case free_ref addr (p_desc_pool st lchip) of
               Inl e \<Rightarrow> Inl e
             | Inr r \<Rightarrow> Inr (pool, st\<lparr>p_desc_pool := (p_desc_pool st)(lchip := r)\<rparr>))
          else if dal_type head = DAL_MPOOL_TYPE_DATA then
            (if DAL_MAX_CHIP_NUM \<le> lchip then Inl OutOfBounds
             else case free_ref addr (p_data_pool st lchip) of
               Inl e \<Rightarrow> Inl e
             | Inr r \<Rightarrow> Inr (pool, st\<lparr>p_data_pool := (p_data_pool st)(lchip := r)\<rparr>))
          else Inr (pool, st))"

text \<open>The nodes are freed; the references of the chip stay as they are.\<close>

definition destroy_ref :: "pool_ref \<Rightarrow> pool_ref checked" where
  "destroy_ref r = (case r of
     PoolNull \<Rightarrow> Inr PoolNull | PoolLive c \<Rightarrow> Inr PoolDangling | PoolDangling \<Rightarrow> Inl UseAfterFree)"

definition dal_mpool_destroy ::
  "nat \<Rightarrow> pool_ref \<Rightarrow> dal_state \<Rightarrow> (int \<times> pool_ref \<times> dal_state) checked" where
  "dal_mpool_destroy lchip pool st =
     (case destroy_ref pool of
        Inl e \<Rightarrow> Inl e
      | Inr pool' \<Rightarrow>
          if DAL_MAX_CHIP_NUM \<le> lchip then Inl OutOfBounds
          else
            (case (destroy_ref (p_desc_pool st lchip), destroy_ref (p_data_pool st lchip)) of
               (Inr d, Inr e) \<Rightarrow>
                 Inr (0, pool', st\<lparr>p_desc_pool := (p_desc_pool st)(lchip := d),
                                   p_data_pool := (p_data_pool st)(lchip := e)\<rparr>)
             | (Inl f, _) \<Rightarrow> Inl f
             | (_, Inl f) \<Rightarrow> Inl f))"

definition dal_mpool_usage :: "pool_ref \<Rightarrow> int \<Rightarrow> int checked" where
  "dal_mpool_usage pool ty =
     (case pool of
        PoolNull \<Rightarrow> Inr 0
      | PoolDangling \<Rightarrow> Inl UseAfterFree
      | PoolLive c \<Rightarrow>
          Inr (foldl (\<lambda>usage ptr.
                 if dal_type ptr = ty \<or> dal_type ptr = - 1 then wrap32 (usage + dal_size ptr)
                 else usage) 0 c))"

text \<open>The debug function prints every node; its result is the number of lines.\<close>

definition dal_mpool_debug :: "pool_ref \<Rightarrow> (nat \<times> int \<times> int) list checked" where
  "dal_mpool_debug pool =
     (case pool of
        PoolNull \<Rightarrow> Inr []
      | PoolDangling \<Rightarrow> Inl UseAfterFree
      | PoolLive c \<Rightarrow>
          Inr (map (\<lambda>i. (i, dal_address (c ! i), dal_size (c ! i))) [0..<length c]))"

section \<open>A chain as a block pool\<close>

definition dal_node :: "dal_mpool_mem \<Rightarrow> block" where
  "dal_node m = (dal_address m, dal_size m)"

definition dal_chain :: "dal_mpool_mem list \<Rightarrow> block list" where
  "dal_chain c = map dal_node c"

definition dal_blocks :: "dal_mpool_mem list \<Rightarrow> block list" where
  "dal_blocks c = chain_blocks (dal_chain c)"

definition dal_valid :: "dal_mpool_mem list \<Rightarrow> bool" where
  "dal_valid c \<longleftrightarrow> chain_valid (dal_chain c)"

definition dal_lo :: "dal_mpool_mem list \<Rightarrow> int" where "dal_lo c = fst (hd (dal_chain c))"
definition dal_hi :: "dal_mpool_mem list \<Rightarrow> int" where "dal_hi c = fst (last (dal_chain c))"

lemma alloc_comon_Some:
  "dal_mpool_alloc_comon n ty c = Some (a, c') \<Longrightarrow>
   \<exists>xs p q ys. dal_chain c = xs @ p # q # ys \<and> a = fst p + snd p \<and> n \<le> fst q - a
     \<and> dal_chain c' = xs @ p # (a, n) # q # ys"
proof (induction n ty c arbitrary: c' rule: dal_mpool_alloc_comon.induct)
  case (1 n ty ptr nxt rest)
  show ?case
  proof (cases "n \<le> dal_address nxt - (dal_address ptr + dal_size ptr)")
    case True
    then show ?thesis
      using "1.prems"
      by (intro exI [of _ "[]"] exI [of _ "dal_node ptr"] exI [of _ "dal_node nxt"]
          exI [of _ "map dal_node rest"]) (auto simp: dal_chain_def dal_node_def Let_def)
  next
    case False
    then obtain ps where "dal_mpool_alloc_comon n ty (nxt # rest) = Some (a, ps)" and "c' = ptr # ps"
      using "1.prems" by auto
    then obtain xs p q ys where
      "dal_chain (nxt # rest) = xs @ p # q # ys" "a = fst p + snd p" "n \<le> fst q - a"
      "dal_chain ps = xs @ p # (a, n) # q # ys"
      using "1.IH" [OF False] by blast
    then show ?thesis
      using \<open>c' = ptr # ps\<close>
      by (intro exI [of _ "dal_node ptr # xs"] exI [of _ p] exI [of _ q] exI [of _ ys])
        (simp add: dal_chain_def)
  qed
qed auto

lemma free_chain_unlink:
  "c \<noteq> [] \<Longrightarrow> dal_chain (dal_mpool_free_chain a c) = chain_unlink a (dal_chain c)"
  by (induction a c rule: dal_mpool_free_chain.induct)
    (auto simp: dal_chain_def chain_unlink_def dal_node_def)

definition dal_request ::
  "int \<Rightarrow> bool \<Rightarrow> int \<Rightarrow> dal_mpool_mem list \<Rightarrow> (int \<times> dal_mpool_mem list) option" where
  "dal_request ty ok n c = (case alloc_ref ok (round_up DAL_CACHE_LINE_BYTES n) ty (PoolLive c) of
     Inr (Some a, PoolLive c') \<Rightarrow> Some (a, c') | _ \<Rightarrow> None)"

lemma dal_request_chain:
  "dal_request ty ok n c =
     (if ok then dal_mpool_alloc_comon (round_up DAL_CACHE_LINE_BYTES n) ty c else None)"
  by (auto simp: dal_request_def alloc_ref_def split: option.split)

definition dal_size_ok :: "int \<Rightarrow> bool" where
  "dal_size_ok n \<longleftrightarrow> 0 < n \<and> n + DAL_CACHE_LINE_BYTES \<le> 2147483648"

lemma dal_round:
  "dal_size_ok n \<Longrightarrow> n \<le> round_up DAL_CACHE_LINE_BYTES n \<and> 0 < round_up DAL_CACHE_LINE_BYTES n"
  using round_up_spec [of DAL_CACHE_LINE_BYTES n]
  by (simp add: dal_size_ok_def DAL_CACHE_LINE_BYTES_def)

interpretation dal: block_pool "dal_request ty" dal_mpool_free_chain dal_blocks dal_lo dal_hi
  dal_valid dal_size_ok "round_up DAL_CACHE_LINE_BYTES" for ty
proof unfold_locales
  fix p
  show "dal_valid p \<Longrightarrow> packed (dal_lo p) (dal_blocks p) (dal_hi p)"
    by (simp add: dal_valid_def chain_valid_def dal_lo_def dal_hi_def dal_blocks_def)
next
  fix n
  show "dal_size_ok n \<Longrightarrow> 0 < n \<and> n \<le> round_up DAL_CACHE_LINE_BYTES n"
    using dal_round [of n] by (simp add: dal_size_ok_def)
next
  fix p n m a p'
  assume valid: "dal_valid p" and n: "dal_size_ok n" and alloc: "dal_request ty m n p = Some (a, p')"
  let ?r = "round_up DAL_CACHE_LINE_BYTES n"
  obtain xs q r ys where c: "dal_chain p = xs @ q # r # ys" "a = fst q + snd q"
      "?r \<le> fst r - a" "dal_chain p' = xs @ q # (a, ?r) # r # ys"
    using alloc_comon_Some [of ?r ty p a p'] alloc
    unfolding dal_request_chain by (auto split: if_splits)
  have "chain_valid (xs @ q # r # ys)" using valid c(1) by (simp add: dal_valid_def)
  note ins = chain_insert [OF this c(2,3) conjunct2 [OF dal_round [OF n]]]
  show "dal_valid p' \<and> dal_lo p' = dal_lo p \<and> dal_hi p' = dal_hi p
      \<and> (\<exists>xs ys. dal_blocks p = xs @ ys \<and> dal_blocks p' = xs @ (a, ?r) # ys)"
    unfolding dal_valid_def dal_lo_def dal_hi_def dal_blocks_def c(1,4)
    using ins(1,2,4) by (simp only: ins(3))
next
  fix p a
  assume valid: "dal_valid p" and mem: "a \<in> fst ` set (dal_blocks p)"
  have "p \<noteq> []" using valid by (auto simp: dal_valid_def dal_chain_def chain_valid_def)
  then show "dal_valid (dal_mpool_free_chain a p) \<and> dal_lo (dal_mpool_free_chain a p) = dal_lo p
      \<and> dal_hi (dal_mpool_free_chain a p) = dal_hi p
      \<and> dal_blocks (dal_mpool_free_chain a p) = remove_block a (dal_blocks p)"
    using chain_remove [of "dal_chain p" a] valid mem
    by (simp add: dal_valid_def dal_lo_def dal_hi_def dal_blocks_def free_chain_unlink)
qed

section \<open>The handle as a block pool\<close>

text \<open>
  The handle \<^verbatim>\<open>dal_mpool_create\<close> returns, used through the functions of the file: requests of type
  \<^verbatim>\<open>DAL_MPOOL_TYPE_USELESS\<close>, and releases, which go to the pool the head's type names.
\<close>

definition handle_request ::
  "nat \<Rightarrow> dal_state \<Rightarrow> bool \<Rightarrow> int \<Rightarrow> dal_mpool_mem list \<Rightarrow> (int \<times> dal_mpool_mem list) option" where
  "handle_request lchip st ok n c =
     (case dal_mpool_alloc ok lchip (PoolLive c) n DAL_MPOOL_TYPE_USELESS st of
        Inr (Some a, PoolLive c', _) \<Rightarrow> Some (a, c') | _ \<Rightarrow> None)"

definition handle_release ::
  "nat \<Rightarrow> dal_state \<Rightarrow> int \<Rightarrow> dal_mpool_mem list \<Rightarrow> dal_mpool_mem list" where
  "handle_release lchip st a c =
     (case dal_mpool_free lchip (PoolLive c) a st of Inr (PoolLive c', _) \<Rightarrow> c' | _ \<Rightarrow> c)"

definition handle_valid :: "dal_mpool_mem list \<Rightarrow> bool" where
  "handle_valid c \<longleftrightarrow> dal_valid c \<and> dal_type (hd c) = DAL_MPOOL_TYPE_USELESS"

lemma handle_request_chain:
  "handle_request lchip st ok n c = dal_request DAL_MPOOL_TYPE_USELESS ok n c"
  by (auto simp: handle_request_def dal_request_def dal_mpool_alloc_def alloc_ref_def Let_def
      split: option.split)

lemma dal_valid_Cons: "dal_valid c \<Longrightarrow> \<exists>h m t. c = h # m # t"
  by (cases c; cases "tl c") (auto simp: dal_valid_def chain_valid_def dal_chain_def)

lemma handle_free:
  assumes "handle_valid c"
  shows "dal_mpool_free lchip (PoolLive c) a st = Inr (PoolLive (dal_mpool_free_chain a c), st)"
proof -
  obtain h t where c: "c = h # t" using assms dal_valid_Cons handle_valid_def by blast
  then have "dal_type h = DAL_MPOOL_TYPE_USELESS" using assms by (simp add: handle_valid_def)
  then show ?thesis
    unfolding c dal_mpool_free_def free_ref_def
    by (simp only: pool_ref.case list.case if_True sum.case prod.case refl)
qed

lemma handle_release_chain:
  "handle_valid c \<Longrightarrow> handle_release lchip st a c = dal_mpool_free_chain a c"
  by (simp add: handle_release_def handle_free)

lemma alloc_comon_hd: "dal_mpool_alloc_comon n ty c = Some (a, c') \<Longrightarrow> hd c' = hd c \<and> c' \<noteq> []"
  by (induction n ty c rule: dal_mpool_alloc_comon.induct) (auto simp: Let_def split: if_splits)

lemma free_chain_hd: "hd (dal_mpool_free_chain a c) = hd c"
  by (induction a c rule: dal_mpool_free_chain.induct) auto

interpretation handle: block_pool "handle_request lchip st" "handle_release lchip st" dal_blocks
  dal_lo dal_hi handle_valid dal_size_ok "round_up DAL_CACHE_LINE_BYTES" for lchip st
proof unfold_locales
  fix p
  show "handle_valid p \<Longrightarrow> packed (dal_lo p) (dal_blocks p) (dal_hi p)"
    by (simp add: handle_valid_def dal.valid_packed)
next
  fix n
  show "dal_size_ok n \<Longrightarrow> 0 < n \<and> n \<le> round_up DAL_CACHE_LINE_BYTES n"
    by (rule dal.size_le)
next
  fix p n m a p'
  assume "handle_valid p" and "dal_size_ok n" and "handle_request lchip st m n p = Some (a, p')"
  then show "handle_valid p' \<and> dal_lo p' = dal_lo p \<and> dal_hi p' = dal_hi p
      \<and> (\<exists>xs ys. dal_blocks p = xs @ ys
          \<and> dal_blocks p' = xs @ (a, round_up DAL_CACHE_LINE_BYTES n) # ys)"
    using dal.alloc_law [of p n DAL_MPOOL_TYPE_USELESS m a p']
      alloc_comon_hd [of "round_up DAL_CACHE_LINE_BYTES n" DAL_MPOOL_TYPE_USELESS p a p']
    by (simp add: handle_valid_def handle_request_chain) (simp add: dal_request_chain split: if_splits)
next
  fix p a
  assume "handle_valid p" and "a \<in> fst ` set (dal_blocks p)"
  then show "handle_valid (handle_release lchip st a p)
      \<and> dal_lo (handle_release lchip st a p) = dal_lo p
      \<and> dal_hi (handle_release lchip st a p) = dal_hi p
      \<and> dal_blocks (handle_release lchip st a p) = remove_block a (dal_blocks p)"
    using dal.free_law [of p a] free_chain_hd [of a p]
    by (simp add: handle_release_chain) (simp add: handle_valid_def)
qed

section \<open>Creation\<close>

lemma round_down_bounds:
  "0 < line \<Longrightarrow> 0 \<le> n \<Longrightarrow> 0 \<le> round_down line n \<and> round_down line n \<le> n \<and> n < round_down line n + line"
  using pos_mod_bound [of line n] zmod_le_nonneg_dividend [of n line] by (simp add: round_down_def)

text \<open>The three chains of a successful creation.\<close>

definition chain_of :: "int \<Rightarrow> int \<Rightarrow> int \<Rightarrow> int \<Rightarrow> dal_mpool_mem list" where
  "chain_of junk base sz ty = [\<lparr>dal_address = base, dal_size = 0, dal_type = ty\<rparr>,
     \<lparr>dal_address = base + sz, dal_size = 0, dal_type = junk\<rparr>]"

lemma dal_create_chains:
  assumes "dal_mpool_create alloc junk lchip base_ptr sz st = Inr (Some head, st')"
    and "DAL_CACHE_LINE_BYTES \<le> sz" and "sz \<le> 2147483647"
  shows "\<exists>base n. base_ptr \<le> base \<and> base + n \<le> base_ptr + sz
     \<and> sz - 2 * DAL_CACHE_LINE_BYTES < n \<and> 0 \<le> n \<and> lchip < DAL_MAX_CHIP_NUM
     \<and> head = chain_of junk base n DAL_MPOOL_TYPE_USELESS
     \<and> st' = st\<lparr>p_desc_pool := (p_desc_pool st)(lchip := PoolLive (chain_of junk base
           DAL_MPOOL_MAX_DESX_SIZE DAL_MPOOL_TYPE_DESC)),
         p_data_pool := (p_data_pool st)(lchip := PoolLive (chain_of junk
           (base + DAL_MPOOL_MAX_DESX_SIZE) (wrap32 (n - DAL_MPOOL_MAX_DESX_SIZE))
           DAL_MPOOL_TYPE_DATA))\<rparr>"
proof -
  let ?m = "base_ptr mod DAL_CACHE_LINE_BYTES"
  let ?base = "if ?m \<noteq> 0 then base_ptr + (DAL_CACHE_LINE_BYTES - ?m) else base_ptr"
  let ?sz = "if ?m \<noteq> 0 then sz - (DAL_CACHE_LINE_BYTES - ?m) else sz"
  have m: "0 \<le> ?m" "?m < DAL_CACHE_LINE_BYTES" by (simp_all add: DAL_CACHE_LINE_BYTES_def)
  have w: "wrap32 (sz - (DAL_CACHE_LINE_BYTES - ?m)) = sz - (DAL_CACHE_LINE_BYTES - ?m)"
    using assms m by (intro wrap32_id) (auto simp: DAL_CACHE_LINE_BYTES_def)
  have sz: "0 \<le> ?sz" "?base + ?sz = base_ptr + sz" "base_ptr \<le> ?base"
      "sz - DAL_CACHE_LINE_BYTES < ?sz"
    using assms m by (auto simp: DAL_CACHE_LINE_BYTES_def)
  note down = round_down_bounds [of DAL_CACHE_LINE_BYTES ?sz]
  have "lchip < DAL_MAX_CHIP_NUM
     \<and> head = chain_of junk ?base (round_down DAL_CACHE_LINE_BYTES ?sz) DAL_MPOOL_TYPE_USELESS
     \<and> st' = st\<lparr>p_desc_pool := (p_desc_pool st)(lchip := PoolLive (chain_of junk ?base
           DAL_MPOOL_MAX_DESX_SIZE DAL_MPOOL_TYPE_DESC)),
         p_data_pool := (p_data_pool st)(lchip := PoolLive (chain_of junk
           (?base + DAL_MPOOL_MAX_DESX_SIZE)
           (wrap32 (round_down DAL_CACHE_LINE_BYTES ?sz - DAL_MPOOL_MAX_DESX_SIZE))
           DAL_MPOOL_TYPE_DATA))\<rparr>"
    using assms(1) unfolding dal_mpool_create_def Let_def w dal_mpool_create_chain_def chain_of_def
    by (simp split: if_splits)
  then show ?thesis
    using sz down by (intro exI [of _ ?base] exI [of _ "round_down DAL_CACHE_LINE_BYTES ?sz"])
      (auto simp: DAL_CACHE_LINE_BYTES_def)
qed

lemma dal_create_head:
  assumes "dal_mpool_create alloc junk lchip base_ptr sz st = Inr (Some head, st')"
    and "DAL_CACHE_LINE_BYTES \<le> sz" and "sz \<le> 2147483647"
  shows "\<exists>base n. base_ptr \<le> base \<and> base + n \<le> base_ptr + sz \<and> 0 \<le> n
     \<and> head = chain_of junk base n DAL_MPOOL_TYPE_USELESS"
  using dal_create_chains [OF assms] by (elim exE conjE) (intro exI conjI; assumption)

lemma chain_of_valid: "0 \<le> n \<Longrightarrow> dal_valid (chain_of junk base n ty)"
  by (simp add: dal_valid_def chain_valid_def dal_chain_def dal_node_def chain_of_def chain_blocks_def)

lemma chain_of_handle: "0 \<le> n \<Longrightarrow> handle_valid (chain_of junk base n DAL_MPOOL_TYPE_USELESS)"
  by (simp add: handle_valid_def chain_of_valid) (simp add: chain_of_def)

end
