(* ===== verification/PoolProperties.thy ===== *)
theory PoolProperties
  imports BcmMpool DalMpool
begin

text \<open>
  What the two memory pools guarantee to the drivers that use them, from the contract \<open>block_pool\<close>
  through its interpretations, and what their error paths and their three-pool layout do not
  guarantee.
\<close>

section \<open>Broadcom\<close>

text \<open>C20. Starting from a pool that \<^verbatim>\<open>mpool_create\<close> made of a region of at least one cache line,
  whatever sequence of \<^verbatim>\<open>mpool_alloc\<close> and \<^verbatim>\<open>mpool_free\<close> calls a driver makes (positive sizes that do
  not overflow when rounded, the \<^verbatim>\<open>MALLOC\<close> of each request succeeding or failing, releases of live
  blocks), the live blocks are pairwise disjoint and lie in the region given to \<^verbatim>\<open>mpool_create\<close>, and
  the sum of the live blocks that \<^verbatim>\<open>mpool_usage\<close> reports never exceeds its size.\<close>

theorem bcm_blocks_disjoint:
  assumes "mpool_create line malloc_head malloc_tail base sz False = Inr (Some pool, held)"
    and "0 < line" and "line \<le> sz" and "sz \<le> 2147483647"
    and "calls_ok (mpool_request line) mpool_release mpool_blocks (mpool_size_ok line) cs pool"
    and "final = run_pool (mpool_request line) mpool_release cs pool"
  shows "(\<forall>i j. i < length (mpool_blocks final) \<longrightarrow> j < length (mpool_blocks final) \<longrightarrow> i \<noteq> j \<longrightarrow>
           disjoint_blocks (mpool_blocks final ! i) (mpool_blocks final ! j))
    \<and> (\<forall>(a, n) \<in> set (mpool_blocks final). base \<le> a \<and> 0 < n \<and> a + n \<le> base + sz)
    \<and> (\<exists>used. mpool_usage False final = Inr (used, False) \<and> 0 \<le> used \<and> used \<le> sz)"
proof -
  note made = mpool_create_valid [OF assms(1-4)]
  have valid: "mpool_valid pool" using made by simp
  note run = bcm.run_valid [OF valid assms(5), folded assms(6)]
  have range: "mpool_hi final - mpool_lo final \<le> sz" using made run by simp
  have used: "mpool_usage False final = Inr (total_size (mpool_blocks final), False)"
    using run range assms(4) by (intro mpool_usage_total) auto
  have le: "total_size (mpool_blocks final) \<le> sz"
    using bcm.run_usage [OF valid assms(5), folded assms(6)] made by simp
  have pk: "packed (mpool_lo final) (mpool_blocks final) (mpool_hi final)"
    using run by (intro bcm.valid_packed) simp
  have inside: "\<forall>(a, n) \<in> set (mpool_blocks final). base \<le> a \<and> 0 < n \<and> a + n \<le> base + sz"
    using packed_mem [OF pk] made run by force
  have "0 \<le> total_size (mpool_blocks final)"
    using inside unfolding total_size_def by (intro sum_list_nonneg) force
  then show ?thesis
    using bcm.run_disjoint [OF valid assms(5), folded assms(6)] inside used le by simp
qed

definition bcm_sample :: mpool where
  "bcm_sample = [\<lparr>mem_address = 4096, mem_size = 0\<rparr>, \<lparr>mem_address = 8192, mem_size = 0\<rparr>]"

definition bcm_sample_calls :: "pool_call list" where
  "bcm_sample_calls = [Alloc True 100, Alloc True 40, Alloc True 5000, Alloc False 8, Free 4096,
     Alloc True 64, Alloc True 64]"

lemmas bcm_sample_simps = bcm_sample_def bcm_sample_calls_def mpool_create_def mpool_request_loop
  mpool_release_loop mpool_blocks_def mpool_chain_def chain_blocks_def node_def mpool_size_ok_def
  round_up_def round_down_def wrap32_def Let_def

lemma bcm_sample_run:
  "mpool_blocks (run_pool (mpool_request 64) mpool_release bcm_sample_calls bcm_sample)
   = [(4096, 64), (4160, 64), (4224, 64)]"
  by (simp add: bcm_sample_simps)

theorem bcm_blocks_disjoint_witness:
  "disjoint_blocks (4096, 64) (4224, 64)
   \<and> (\<exists>used. mpool_usage False (run_pool (mpool_request 64) mpool_release bcm_sample_calls bcm_sample)
        = Inr (used, False) \<and> used \<le> 4160)"
proof -
  have create: "mpool_create 64 True True 4090 4160 False = Inr (Some bcm_sample, False)"
    by (simp add: bcm_sample_simps)
  have ok: "calls_ok (mpool_request 64) mpool_release mpool_blocks (mpool_size_ok 64)
      bcm_sample_calls bcm_sample"
    by (simp add: bcm_sample_simps)
  note every = bcm_blocks_disjoint [OF create _ _ _ ok refl, unfolded bcm_sample_run]
  show ?thesis
    using spec [OF spec [OF conjunct1 [OF every], of 0], of 2] conjunct2 [OF conjunct2 [OF every]] by auto
qed

text \<open>\<^verbatim>\<open>mpool_alloc\<close> on a well-formed pool takes a block inside the region, apart from every live
  block, and adds exactly the rounded size to what \<^verbatim>\<open>mpool_usage\<close> reports; giving the block back with
  \<^verbatim>\<open>mpool_free\<close> restores the live blocks.\<close>

theorem bcm_alloc_free:
  assumes "mpool_valid pool" and "mpool_size_ok line n"
    and "mpool_alloc line True n False pool = Inr ((Some a, pool'), False)"
    and "mpool_hi pool - mpool_lo pool < 2147483648"
  shows "mpool_lo pool \<le> a \<and> a + n \<le> mpool_hi pool
    \<and> list_all (\<lambda>b. disjoint_blocks (a, n) b) (mpool_blocks pool)
    \<and> mpool_usage False pool' = Inr (total_size (mpool_blocks pool) + round_up line n, False)
    \<and> (\<exists>pool''. mpool_free a False pool' = Inr (pool'', False)
        \<and> mpool_blocks pool'' = mpool_blocks pool)"
proof -
  have req: "mpool_request line True n pool = Some (a, pool')"
    using assms(3) by (simp add: mpool_request_def)
  note law = bcm.alloc_law [OF assms(1,2) req]
  have "mpool_usage False pool' = Inr (total_size (mpool_blocks pool'), False)"
    using law assms(4) by (intro mpool_usage_total) auto
  moreover have "mpool_free a False pool' = Inr (mpool_release a pool', False)"
    by (simp add: mpool_release_def mpool_free_def mpool_locked_def)
  ultimately show ?thesis
    using bcm.alloc_fresh [OF assms(1,2) req] bcm.alloc_usage [OF assms(1,2) req]
      bcm.alloc_free [OF assms(1,2) req]
    by (simp add: list_all_iff)
qed

definition bcm_full :: mpool where
  "bcm_full = [\<lparr>mem_address = 4096, mem_size = 0\<rparr>, \<lparr>mem_address = 4096, mem_size = 128\<rparr>,
     \<lparr>mem_address = 4288, mem_size = 64\<rparr>, \<lparr>mem_address = 8192, mem_size = 0\<rparr>]"

theorem bcm_alloc_free_witness:
  "\<exists>pool'. mpool_alloc 64 True 33 False bcm_full = Inr ((Some 4224, pool'), False)
     \<and> mpool_usage False pool' = Inr (256, False)"
proof -
  let ?pool' = "[\<lparr>mem_address = 4096, mem_size = 0\<rparr>, \<lparr>mem_address = 4096, mem_size = 128\<rparr>,
     \<lparr>mem_address = 4224, mem_size = 64\<rparr>, \<lparr>mem_address = 4288, mem_size = 64\<rparr>,
     \<lparr>mem_address = 8192, mem_size = 0\<rparr>]"
  have alloc: "mpool_alloc 64 True 33 False bcm_full = Inr ((Some 4224, ?pool'), False)"
    by (simp add: bcm_full_def mpool_alloc_def mpool_locked_def round_up_def wrap32_def)
  have "mpool_usage False ?pool'
      = Inr (total_size (mpool_blocks bcm_full) + round_up 64 33, False)"
    using bcm_alloc_free [OF _ _ alloc]
    by (simp add: bcm_full_def mpool_valid_def chain_valid_def mpool_chain_def node_def
        chain_blocks_def mpool_size_ok_def mpool_hi_def mpool_lo_def)
  then show ?thesis using alloc
    by (simp add: total_size_def bcm_full_def mpool_blocks_def mpool_chain_def node_def
        chain_blocks_def round_up_def wrap32_def)
qed

text \<open>First fit is complete: \<^verbatim>\<open>mpool_alloc\<close> answers NULL (with \<^verbatim>\<open>MALLOC\<close> working) exactly when
  every gap between consecutive nodes of the list is smaller than the rounded size, and then leaves
  the pool alone.\<close>

theorem bcm_first_fit_complete:
  "(\<exists>pool'. mpool_alloc line True n False pool = Inr ((None, pool'), False)) \<longleftrightarrow>
   successively (\<lambda>p q. mem_address q - (mem_address p + mem_size p) < round_up line n) pool"
  by (auto simp: mpool_alloc_def mpool_locked_def alloc_loop_None [symmetric] split: option.splits)

text \<open>When either \<^verbatim>\<open>MALLOC\<close> of \<^verbatim>\<open>mpool_create\<close> fails the function returns NULL without releasing the
  lock it took, so every later operation, also on other pools, blocks for ever.\<close>

theorem bcm_failed_create_deadlocks:
  assumes "\<not> malloc_head \<or> \<not> malloc_tail"
    and "mpool_create line malloc_head malloc_tail base sz False = Inr (r, held)"
  shows "r = None \<and> mpool_alloc line' ok n held pool = Inl Deadlock
    \<and> mpool_free a held pool = Inl Deadlock \<and> mpool_usage held pool = Inl Deadlock
    \<and> mpool_destroy held pool = Inl Deadlock
    \<and> mpool_create line' h t base' sz' held = Inl Deadlock"
proof -
  have "r = None \<and> held"
    using assms by (auto simp: mpool_create_def Let_def split: if_splits)
  then show ?thesis
    by (simp add: mpool_alloc_def mpool_free_def mpool_usage_def mpool_destroy_def mpool_create_def
        mpool_locked_def Let_def)
qed

theorem bcm_failed_create_deadlocks_witness:
  "mpool_create 64 True False 0 4096 False = Inr (None, True)
   \<and> mpool_usage True bcm_full = Inl Deadlock"
proof -
  have create: "mpool_create 64 True False 0 4096 False = Inr (None, True)"
    by (simp add: mpool_create_def)
  show ?thesis
    using bcm_failed_create_deadlocks [OF _ create, where pool = bcm_full] create by simp
qed

section \<open>Centec\<close>

text \<open>Whatever sequence of requests of the common type and releases of live blocks a driver makes
  through the handle that \<^verbatim>\<open>dal_mpool_create\<close> returned, two live blocks of the common pool never
  overlap and all lie in the region given to the creation.\<close>

theorem dal_blocks_disjoint:
  assumes "dal_mpool_create alloc junk lchip base sz st0 = Inr (Some head, st)"
    and "DAL_CACHE_LINE_BYTES \<le> sz" and "sz \<le> 2147483647"
    and "calls_ok (handle_request lchip st) (handle_release lchip st) dal_blocks dal_size_ok cs head"
    and "final = run_pool (handle_request lchip st) (handle_release lchip st) cs head"
    and "i < length (dal_blocks final)" and "j < length (dal_blocks final)" and "i \<noteq> j"
  shows "disjoint_blocks (dal_blocks final ! i) (dal_blocks final ! j)
    \<and> base \<le> fst (dal_blocks final ! i)
    \<and> fst (dal_blocks final ! i) + snd (dal_blocks final ! i) \<le> base + sz"
proof -
  obtain b n where head: "base \<le> b" "b + n \<le> base + sz" "0 \<le> n"
      "head = chain_of junk b n DAL_MPOOL_TYPE_USELESS"
    using dal_create_head [OF assms(1-3)] by blast
  have valid: "handle_valid head" and "dal_lo head = b" "dal_hi head = b + n"
    using head(3,4) chain_of_handle
    by (simp_all add: dal_lo_def dal_hi_def dal_chain_def dal_node_def chain_of_def)
  note run = handle.run_valid [OF valid assms(4), folded assms(5)]
  have "packed b (dal_blocks final) (b + n)"
    using handle.valid_packed [of final] run \<open>dal_lo head = b\<close> \<open>dal_hi head = b + n\<close> by simp
  then have "b \<le> fst (dal_blocks final ! i)
      \<and> fst (dal_blocks final ! i) + snd (dal_blocks final ! i) \<le> b + n"
    using packed_mem nth_mem [OF assms(6)] by (metis prod.collapse)
  then show ?thesis
    using handle.run_disjoint [OF valid assms(4), folded assms(5), OF assms(6-8)] head by auto
qed

definition dal_empty :: dal_state where
  "dal_empty = \<lparr>p_desc_pool = (\<lambda>_. PoolNull), p_data_pool = (\<lambda>_. PoolNull)\<rparr>"

definition dal_sample_head :: "dal_mpool_mem list" where
  "dal_sample_head = chain_of 7 4096 4194304 DAL_MPOOL_TYPE_USELESS"

definition dal_sample :: dal_state where
  "dal_sample = dal_empty\<lparr>
     p_desc_pool := (\<lambda>_. PoolNull)(0 := PoolLive (chain_of 7 4096 1048576 DAL_MPOOL_TYPE_DESC)),
     p_data_pool := (\<lambda>_. PoolNull)(0 := PoolLive (chain_of 7 1052672 3145728 DAL_MPOOL_TYPE_DATA))\<rparr>"

definition dal_sample_calls :: "pool_call list" where
  "dal_sample_calls = [Alloc True 100, Alloc False 8, Alloc True 300, Free 4096,
     Alloc True 4194304]"

lemmas dal_type_defs = DAL_MPOOL_TYPE_USELESS_def DAL_MPOOL_TYPE_DESC_def DAL_MPOOL_TYPE_DATA_def
  DAL_MAX_CHIP_NUM_def DAL_MPOOL_MAX_DESX_SIZE_def DAL_CACHE_LINE_BYTES_def

lemmas dal_alloc_defs = dal_mpool_alloc_def alloc_ref_def round_up_def wrap32_def Let_def

lemma dal_sample_create:
  "dal_mpool_create (\<lambda>_. True) 7 0 4096 4194304 dal_empty = Inr (Some dal_sample_head, dal_sample)"
  by (simp add: dal_mpool_create_def dal_mpool_create_chain_def dal_type_defs Let_def wrap32_def
      round_down_def dal_empty_def dal_sample_def dal_sample_head_def chain_of_def)

lemmas dal_sample_simps = dal_sample_head_def chain_of_def dal_request_chain dal_alloc_defs
  dal_size_ok_def dal_blocks_def dal_chain_def dal_node_def chain_blocks_def
  handle_request_chain handle_release_def dal_mpool_free_def free_ref_def dal_type_defs

theorem dal_blocks_disjoint_witness:
  "dal_mpool_alloc True 0 (PoolLive dal_sample_head) 100 DAL_MPOOL_TYPE_USELESS dal_sample
     = Inr (Some 4096, PoolLive (hd dal_sample_head
         # \<lparr>dal_address = 4096, dal_size = 256, dal_type = 0\<rparr> # tl dal_sample_head), dal_sample)
   \<and> disjoint_blocks (4096, 256) (4352, 512)"
proof -
  have "disjoint_blocks (4096, 256) (4352, 512)"
    using dal_blocks_disjoint [OF dal_sample_create, where cs = "[Alloc True 100, Alloc True 300]"
        and i = 0 and j = 1, OF _ _ _ refl]
    by (simp add: dal_sample_simps)
  then show ?thesis by (simp add: dal_sample_simps)
qed

text \<open>The pools of one chip are not separate: after a creation over a region of more than two
  megabytes, a request of the common type and a request of the descriptor type (of the same size, up
  to a megabyte) both succeed and are given the same address.\<close>

theorem dal_pools_overlap:
  assumes "dal_mpool_create alloc junk lchip base sz st0 = Inr (Some head, st)"
    and "2 * DAL_MPOOL_MAX_DESX_SIZE \<le> sz" and "sz \<le> 2147483647"
    and "0 < n" and "round_up DAL_CACHE_LINE_BYTES n \<le> DAL_MPOOL_MAX_DESX_SIZE"
  shows "\<exists>a handle st' st''.
    dal_mpool_alloc True lchip (PoolLive head) n DAL_MPOOL_TYPE_USELESS st = Inr (Some a, handle, st')
    \<and> dal_mpool_alloc True lchip handle n DAL_MPOOL_TYPE_DESC st' = Inr (Some a, handle, st'')"
proof -
  have "DAL_CACHE_LINE_BYTES \<le> sz" using assms(2) by (simp add: dal_type_defs)
  from dal_create_chains [OF assms(1) this assms(3)] obtain b m where
    made: "sz - 2 * DAL_CACHE_LINE_BYTES < m" "lchip < DAL_MAX_CHIP_NUM"
      "head = chain_of junk b m DAL_MPOOL_TYPE_USELESS"
      "p_desc_pool st lchip
        = PoolLive (chain_of junk b DAL_MPOOL_MAX_DESX_SIZE DAL_MPOOL_TYPE_DESC)"
    by auto
  have "round_up DAL_CACHE_LINE_BYTES n \<le> m"
    using assms(2,5) made(1) by (simp add: dal_type_defs)
  then show ?thesis
    using assms(5) made(2-4)
    by (intro exI [of _ b]) (simp add: dal_mpool_alloc_def alloc_ref_def chain_of_def Let_def
        DAL_MPOOL_TYPE_USELESS_def DAL_MPOOL_TYPE_DESC_def)
qed

theorem dal_pools_overlap_witness:
  "\<exists>a handle st' st''.
    dal_mpool_alloc True 0 (PoolLive dal_sample_head) 100 DAL_MPOOL_TYPE_USELESS dal_sample
      = Inr (Some a, handle, st')
    \<and> dal_mpool_alloc True 0 handle 100 DAL_MPOOL_TYPE_DESC st' = Inr (Some a, handle, st'')"
  using dal_pools_overlap [OF dal_sample_create, of 100]
  by (simp add: dal_type_defs round_up_def wrap32_def)

text \<open>Descriptor and data blocks are never given back: \<^verbatim>\<open>dal_mpool_free\<close> picks the pool by the
  type of the handle's head, which is the common one, so with a handle from \<^verbatim>\<open>dal_mpool_create\<close> it
  changes neither hidden pool, whatever address it is given, also when the address is a block that a
  descriptor or data request has just returned.\<close>

theorem dal_free_keeps_hidden_pools:
  assumes "dal_mpool_create alloc junk lchip base sz st0 = Inr (Some head, st)"
    and "DAL_CACHE_LINE_BYTES \<le> sz" and "sz \<le> 2147483647"
    and "dal_mpool_alloc ok lchip (PoolLive head) n ty st = Inr (a, handle, st')"
  shows "\<exists>handle'. dal_mpool_free lchip handle addr st' = Inr (handle', st')"
proof -
  obtain b m where "0 \<le> m" "head = chain_of junk b m DAL_MPOOL_TYPE_USELESS"
    using dal_create_head [OF assms(1-3)] by blast
  then have head: "dal_type (hd head) = DAL_MPOOL_TYPE_USELESS" "head \<noteq> []"
    by (simp_all add: chain_of_def)
  have "\<exists>c. handle = PoolLive c \<and> hd c = hd head \<and> c \<noteq> []"
    using assms(4) head(2) alloc_comon_hd [of "round_up DAL_CACHE_LINE_BYTES n" ty head]
    by (auto simp: dal_mpool_alloc_def alloc_ref_def Let_def
        split: if_splits sum.splits option.splits pool_ref.splits)
  then obtain h t where "handle = PoolLive (h # t)" and "dal_type h = DAL_MPOOL_TYPE_USELESS"
    using head(1) by (metis list.collapse)
  then show ?thesis
    by (simp add: dal_mpool_free_def free_ref_def)
qed

theorem dal_free_keeps_hidden_pools_witness:
  "\<exists>st'. dal_mpool_alloc True 0 (PoolLive dal_sample_head) 100 DAL_MPOOL_TYPE_DESC dal_sample
       = Inr (Some 4096, PoolLive dal_sample_head, st')
     \<and> (\<exists>h. dal_mpool_free 0 (PoolLive dal_sample_head) 4096 st' = Inr (h, st'))"
proof -
  let ?desc = "PoolLive [\<lparr>dal_address = 4096, dal_size = 0, dal_type = 1\<rparr>,
    \<lparr>dal_address = 4096, dal_size = 256, dal_type = 1\<rparr>,
    \<lparr>dal_address = 1052672, dal_size = 0, dal_type = 7\<rparr>]"
  have alloc: "dal_mpool_alloc True 0 (PoolLive dal_sample_head) 100 DAL_MPOOL_TYPE_DESC dal_sample
      = Inr (Some 4096, PoolLive dal_sample_head,
          dal_sample\<lparr>p_desc_pool := (p_desc_pool dal_sample)(0 := ?desc)\<rparr>)"
    by (simp add: dal_sample_def chain_of_def dal_alloc_defs dal_type_defs)
  show ?thesis
    using dal_free_keeps_hidden_pools [OF dal_sample_create _ _ alloc, of 4096] alloc
    by (simp add: dal_type_defs)
qed

text \<open>When the data chain cannot be made, \<^verbatim>\<open>dal_mpool_create\<close> frees the descriptor chain and
  returns NULL, but leaves the chip's descriptor reference in place: a later descriptor request for
  the chip uses freed memory, until a creation succeeds.\<close>

theorem dal_failed_create_dangles:
  assumes "lchip < DAL_MAX_CHIP_NUM" and "alloc 0" and "alloc 1" and "alloc 2" and "alloc 3"
    and "\<not> alloc 4 \<or> \<not> alloc 5"
  shows "\<exists>st'. dal_mpool_create alloc junk lchip base sz st = Inr (None, st')
    \<and> (\<forall>ok handle n. dal_mpool_alloc ok lchip handle n DAL_MPOOL_TYPE_DESC st' = Inl UseAfterFree)
    \<and> (\<forall>ok handle n. dal_mpool_alloc ok lchip handle n DAL_MPOOL_TYPE_DATA st'
          = Inr (None, handle, st'))"
  using assms
  by (auto simp: dal_mpool_create_def dal_mpool_create_chain_def dal_mpool_alloc_def alloc_ref_def
      Let_def dal_type_defs fun_upd_idem)

theorem dal_failed_create_dangles_witness:
  "\<exists>st'. dal_mpool_create (\<lambda>i. i < 4) 7 3 4096 4194304 dal_empty = Inr (None, st')
    \<and> dal_mpool_alloc True 3 PoolNull 100 DAL_MPOOL_TYPE_DESC st' = Inl UseAfterFree"
  using dal_failed_create_dangles [of 3 "\<lambda>i. i < 4" 7 4096 4194304 dal_empty]
  by (auto simp: DAL_MAX_CHIP_NUM_def)

end
