(* ===== verification/UnitGenerator.thy ===== *)
theory UnitGenerator
  imports Prelude
begin

text \<open>
  The systemd generator of SONiC (\<^verbatim>\<open>systemd-sonic-generator.c\<close>): it reads the list of units from
  the configuration file, the \<^verbatim>\<open>[Install]\<close> lines of each unit, and makes a symbolic link per
  target. Text is cut into lines and tokens as \<^verbatim>\<open>getline\<close> and \<^verbatim>\<open>strtok_r\<close> do; the buffers of
  \<^verbatim>\<open>PATH_MAX\<close> bytes are checked; the file system is a map from paths to nodes together with the
  set of paths the system refuses to change. Memory allocation is taken to succeed.
\<close>

definition MAX_NUM_TARGETS :: nat where "MAX_NUM_TARGETS = 5"
definition MAX_NUM_INSTALL_LINES :: nat where "MAX_NUM_INSTALL_LINES = 5"
definition MAX_NUM_UNITS :: nat where "MAX_NUM_UNITS = 128"
definition PATH_MAX :: nat where "PATH_MAX = 4096"
definition UNIT_FILE_PREFIX :: string where "UNIT_FILE_PREFIX = ''/etc/systemd/system/''"
definition CONFIG_FILE :: string where "CONFIG_FILE = ''/etc/sonic/generated_services.conf''"

definition NEWLINE :: char where "NEWLINE = CHR 0x0A"

section \<open>Lines and tokens\<close>

definition strip_trailing_newline :: "string \<Rightarrow> string" where
  "strip_trailing_newline str =
     (if str \<noteq> [] \<and> last str = NEWLINE then butlast str else str)"

text \<open>The lines \<^verbatim>\<open>getline\<close> returns, each with its newline.\<close>

fun file_lines :: "string \<Rightarrow> string list" where
  "file_lines [] = []"
| "file_lines (c # cs) =
     (if c = NEWLINE then [c] # file_lines cs
      else (case file_lines cs of [] \<Rightarrow> [[c]] | l # ls \<Rightarrow> (c # l) # ls))"

text \<open>The tokens of repeated \<^verbatim>\<open>strtok_r\<close> calls: the non-empty fields.\<close>

definition strtok :: "char \<Rightarrow> string \<Rightarrow> string list" where
  "strtok sep str = filter (\<lambda>w. w \<noteq> []) (split_on sep str)"

fun strstr :: "string \<Rightarrow> string \<Rightarrow> bool" where
  "strstr [] needle \<longleftrightarrow> needle = []"
| "strstr (c # cs) needle \<longleftrightarrow> take (length needle) (c # cs) = needle \<or> strstr cs needle"

text \<open>\<^verbatim>\<open>strcpy\<close> and \<^verbatim>\<open>strcat\<close> into an array of \<^verbatim>\<open>PATH_MAX\<close> bytes.\<close>

definition path_buffer :: "string \<Rightarrow> string checked" where
  "path_buffer s = (if PATH_MAX \<le> length s then Inl OutOfBounds else Inr s)"

section \<open>Install targets\<close>

fun target_lines_loop :: "bool \<Rightarrow> string list \<Rightarrow> string list \<Rightarrow> string list" where
  "target_lines_loop found_install [] target_lines = target_lines"
| "target_lines_loop found_install (line # rest) target_lines =
     (if strstr line ''[Install]'' then target_lines_loop True rest target_lines
      else if found_install then
        (if MAX_NUM_INSTALL_LINES \<le> length target_lines then target_lines
         else target_lines_loop found_install rest (target_lines @ [line]))
      else target_lines_loop found_install rest target_lines)"

text \<open>The content of the unit file is \<open>None\<close> when it cannot be opened.\<close>

definition get_target_lines :: "string option \<Rightarrow> string list option" where
  "get_target_lines content = map_option (\<lambda>c. target_lines_loop False (file_lines c) []) content"

fun targets_loop :: "string \<Rightarrow> string list \<Rightarrow> string list \<Rightarrow> string list checked" where
  "targets_loop suffix [] targets = Inr targets"
| "targets_loop suffix (token # tokens) targets =
     (case path_buffer (strip_trailing_newline token @ suffix) of
        Inl e \<Rightarrow> Inl e
      | Inr final_target \<Rightarrow>
          if MAX_NUM_TARGETS \<le> length targets then Inr targets
          else targets_loop suffix tokens (targets @ [final_target]))"

definition get_install_targets_from_line ::
  "string \<Rightarrow> string \<Rightarrow> string list \<Rightarrow> string list checked" where
  "get_install_targets_from_line target_string suffix targets =
     targets_loop suffix (strtok (CHR '' '') target_string) targets"

text \<open>
  The suffix is a variable of the whole function: a line whose key is neither \<^verbatim>\<open>RequiredBy\<close> nor
  \<^verbatim>\<open>WantedBy\<close> uses the one of an earlier line, or an uninitialised pointer (\<open>None\<close>).
\<close>

definition key_suffix :: "string \<Rightarrow> string option \<Rightarrow> string option" where
  "key_suffix token target_suffix =
     (if strstr token ''RequiredBy'' then Some ''.requires''
      else if strstr token ''WantedBy'' then Some ''.wants''
      else target_suffix)"

fun line_loop ::
  "bool \<Rightarrow> string option \<Rightarrow> string list \<Rightarrow> string list \<Rightarrow> (string option \<times> string list) checked" where
  "line_loop first target_suffix [] targets = Inr (target_suffix, targets)"
| "line_loop first target_suffix (token # tokens) targets =
     (if first then line_loop False (key_suffix token target_suffix) tokens targets
      else case target_suffix of
        None \<Rightarrow> Inl Uninitialised
      | Some suffix \<Rightarrow>
          (case get_install_targets_from_line token suffix targets of
             Inl e \<Rightarrow> Inl e
           | Inr targets' \<Rightarrow> line_loop False target_suffix tokens targets'))"

fun install_lines_loop ::
  "string option \<Rightarrow> string list \<Rightarrow> string list \<Rightarrow> string list checked" where
  "install_lines_loop target_suffix [] targets = Inr targets"
| "install_lines_loop target_suffix (line # rest) targets =
     (case line_loop True target_suffix (strtok (CHR ''='') line) targets of
        Inl e \<Rightarrow> Inl e
      | Inr (suffix, targets') \<Rightarrow> install_lines_loop suffix rest targets')"

text \<open>The files of the system, by path; the result is \<open>None\<close> where the source returns -1.\<close>

type_synonym files = "string \<Rightarrow> string option"

definition get_install_targets :: "files \<Rightarrow> string \<Rightarrow> string list option checked" where
  "get_install_targets files unit_file =
     (case path_buffer (UNIT_FILE_PREFIX @ unit_file) of
        Inl e \<Rightarrow> Inl e
      | Inr file_path \<Rightarrow>
          (case get_target_lines (files file_path) of
             None \<Rightarrow> Inr None
           | Some lns \<Rightarrow>
               (case install_lines_loop None lns [] of
                  Inl e \<Rightarrow> Inl e
                | Inr targets \<Rightarrow> Inr (Some targets))))"

fun unit_files_loop :: "string list \<Rightarrow> string list \<Rightarrow> string list" where
  "unit_files_loop [] unit_files = unit_files"
| "unit_files_loop (line # rest) unit_files =
     (if MAX_NUM_UNITS \<le> length unit_files then unit_files
      else unit_files_loop rest (unit_files @ [strip_trailing_newline line]))"

text \<open>\<open>None\<close> is \<^verbatim>\<open>exit(EXIT_FAILURE)\<close>.\<close>

definition get_unit_files :: "files \<Rightarrow> string list option" where
  "get_unit_files files = map_option (\<lambda>c. unit_files_loop (file_lines c) []) (files CONFIG_FILE)"

section \<open>Links\<close>

datatype fs_node = Regular | Directory | Symlink string | Special

record file_system =
  fs_nodes :: "string \<Rightarrow> fs_node option"
  fs_denied :: "string \<Rightarrow> bool"

text \<open>\<^verbatim>\<open>stat\<close> follows at most 40 symbolic links (\<^verbatim>\<open>MAXSYMLINKS\<close>).\<close>

fun stat_follow :: "nat \<Rightarrow> (string \<Rightarrow> fs_node option) \<Rightarrow> string \<Rightarrow> fs_node option" where
  "stat_follow fuel nodes path =
     (case nodes path of
        Some (Symlink target) \<Rightarrow>
          (case fuel of 0 \<Rightarrow> None | Suc n \<Rightarrow> stat_follow n nodes target)
      | r \<Rightarrow> r)"

declare stat_follow.simps [simp del]

definition stat :: "file_system \<Rightarrow> string \<Rightarrow> fs_node option" where
  "stat fs path = stat_follow 40 (fs_nodes fs) path"

definition set_node :: "string \<Rightarrow> fs_node option \<Rightarrow> file_system \<Rightarrow> file_system" where
  "set_node path n fs = fs\<lparr>fs_nodes := (fs_nodes fs)(path := n)\<rparr>"

definition mkdir :: "string \<Rightarrow> file_system \<Rightarrow> file_system option" where
  "mkdir path fs =
     (if fs_nodes fs path \<noteq> None \<or> fs_denied fs path then None
      else Some (set_node path (Some Directory) fs))"

definition remove_file :: "string \<Rightarrow> file_system \<Rightarrow> file_system option" where
  "remove_file path fs = (if fs_denied fs path then None else Some (set_node path None fs))"

definition chmod :: "string \<Rightarrow> file_system \<Rightarrow> file_system option" where
  "chmod path fs = (if fs_denied fs path then None else Some fs)"

text \<open>
  The three branches that prepare the target directory. False is a return of -1, which keeps the
  changes made before it.
\<close>

definition make_dir :: "string \<Rightarrow> file_system \<Rightarrow> bool \<times> file_system" where
  "make_dir path fs = (case mkdir path fs of None \<Rightarrow> (False, fs) | Some fs' \<Rightarrow> (True, fs'))"

definition prepare_dir :: "string \<Rightarrow> file_system \<Rightarrow> bool \<times> file_system" where
  "prepare_dir path fs =
     (case stat fs path of
        None \<Rightarrow> make_dir path fs
      | Some Regular \<Rightarrow>
          (case remove_file path fs of None \<Rightarrow> (False, fs) | Some fs' \<Rightarrow> make_dir path fs')
      | Some Directory \<Rightarrow>
          (case chmod path fs of None \<Rightarrow> (False, fs) | Some fs' \<Rightarrow> (True, fs'))
      | Some n \<Rightarrow> (True, fs))"

text \<open>Creating the link: a path that exists already is not an error.\<close>

definition install_unit_file ::
  "string \<Rightarrow> string \<Rightarrow> string \<Rightarrow> file_system \<Rightarrow> (int \<times> file_system) checked" where
  "install_unit_file unit_file target install_dir fs =
     (case path_buffer (install_dir @ target) of
        Inl e \<Rightarrow> Inl e
      | Inr final_install_dir \<Rightarrow>
          (case path_buffer (UNIT_FILE_PREFIX @ unit_file) of
             Inl e \<Rightarrow> Inl e
           | Inr src_path \<Rightarrow>
               (let (done, fs') = prepare_dir final_install_dir fs in
                if \<not> done then Inr (- 1, fs')
                else case path_buffer (final_install_dir @ ''/'' @ unit_file) of
                  Inl e \<Rightarrow> Inl e
                | Inr dest_path \<Rightarrow>
                    if stat fs' final_install_dir \<noteq> Some Directory then Inr (- 1, fs')
                    else if fs_nodes fs' dest_path \<noteq> None then Inr (0, fs')
                    else if fs_denied fs' dest_path then Inr (- 1, fs')
                    else Inr (0, set_node dest_path (Some (Symlink src_path)) fs'))))"

fun install_targets_loop ::
  "string \<Rightarrow> string list \<Rightarrow> string \<Rightarrow> file_system \<Rightarrow> file_system checked" where
  "install_targets_loop unit_file [] install_dir fs = Inr fs"
| "install_targets_loop unit_file (target # targets) install_dir fs =
     (case install_unit_file unit_file target install_dir fs of
        Inl e \<Rightarrow> Inl e
      | Inr (r, fs') \<Rightarrow> install_targets_loop unit_file targets install_dir fs')"

fun install_units_loop ::
  "files \<Rightarrow> string list \<Rightarrow> string \<Rightarrow> file_system \<Rightarrow> file_system checked" where
  "install_units_loop files [] install_dir fs = Inr fs"
| "install_units_loop files (u # us) install_dir fs =
     (case get_install_targets files u of
        Inl e \<Rightarrow> Inl e
      | Inr None \<Rightarrow> install_units_loop files us install_dir fs
      | Inr (Some targets) \<Rightarrow>
          (case install_targets_loop u targets install_dir fs of
             Inl e \<Rightarrow> Inl e
           | Inr fs' \<Rightarrow> install_units_loop files us install_dir fs'))"

definition generator_main ::
  "files \<Rightarrow> string list \<Rightarrow> file_system \<Rightarrow> (int \<times> file_system) checked" where
  "generator_main files argv fs =
     (if length argv \<le> 1 then Inr (1, fs)
      else case path_buffer (argv ! 1 @ ''/'') of
        Inl e \<Rightarrow> Inl e
      | Inr install_dir \<Rightarrow>
          (case get_unit_files files of
             None \<Rightarrow> Inr (1, fs)
           | Some unit_files \<Rightarrow>
               (case install_units_loop files unit_files install_dir fs of
                  Inl e \<Rightarrow> Inl e
                | Inr fs' \<Rightarrow> Inr (0, fs'))))"

section \<open>What is read\<close>

lemma target_lines_loop_found:
  "length ls \<le> MAX_NUM_INSTALL_LINES \<Longrightarrow> target_lines_loop True lines ls =
   take MAX_NUM_INSTALL_LINES (ls @ filter (\<lambda>l. \<not> strstr l ''[Install]'') lines)"
  by (induction lines arbitrary: ls) (auto simp: take_Cons')

lemma target_lines_loop_spec:
  "target_lines_loop False lines [] =
   take MAX_NUM_INSTALL_LINES (filter (\<lambda>l. \<not> strstr l ''[Install]'')
     (dropWhile (\<lambda>l. \<not> strstr l ''[Install]'') lines))"
  by (induction lines) (auto simp: target_lines_loop_found)

lemma unit_files_loop_spec:
  "length us \<le> MAX_NUM_UNITS \<Longrightarrow>
   unit_files_loop lines us = take MAX_NUM_UNITS (us @ map strip_trailing_newline lines)"
  by (induction lines arbitrary: us) (auto simp: take_Cons')

definition line_targets :: "string \<Rightarrow> string list \<Rightarrow> string list" where
  "line_targets suffix tokens = map (\<lambda>t. strip_trailing_newline t @ suffix) tokens"

lemma targets_loop_spec:
  "length ts \<le> MAX_NUM_TARGETS \<Longrightarrow> \<forall>t \<in> set (line_targets suffix tokens). length t < PATH_MAX \<Longrightarrow>
   targets_loop suffix tokens ts = Inr (take MAX_NUM_TARGETS (ts @ line_targets suffix tokens))"
  by (induction tokens arbitrary: ts) (auto simp: line_targets_def path_buffer_def take_Cons')

lemma targets_loop_bound:
  "targets_loop suffix tokens ts = Inr ts' \<Longrightarrow> length ts \<le> MAX_NUM_TARGETS \<Longrightarrow>
   length ts' \<le> MAX_NUM_TARGETS"
  by (induction tokens arbitrary: ts) (auto split: sum.splits if_splits)

lemma line_loop_bound:
  "line_loop first s tokens ts = Inr (s', ts') \<Longrightarrow> length ts \<le> MAX_NUM_TARGETS \<Longrightarrow>
   length ts' \<le> MAX_NUM_TARGETS"
  by (induction first s tokens ts rule: line_loop.induct)
    (auto simp: get_install_targets_from_line_def split: sum.splits if_splits option.splits
      dest: targets_loop_bound)

lemma install_lines_bound:
  "install_lines_loop s lines ts = Inr ts' \<Longrightarrow> length ts \<le> MAX_NUM_TARGETS \<Longrightarrow>
   length ts' \<le> MAX_NUM_TARGETS"
  by (induction s lines ts rule: install_lines_loop.induct)
    (auto split: sum.splits dest: line_loop_bound)

section \<open>What is installed\<close>

text \<open>
  When every install line names a list of targets (its key holds \<^verbatim>\<open>RequiredBy\<close> or \<^verbatim>\<open>WantedBy\<close>), the
  targets of a unit are those of its lines in order.
\<close>

definition line_key_ok :: "string \<Rightarrow> bool" where
  "line_key_ok line = (case strtok (CHR ''='') line of
     [] \<Rightarrow> True | key # _ \<Rightarrow> key_suffix key None \<noteq> None)"

definition line_all_targets :: "string \<Rightarrow> string list" where
  "line_all_targets line = (case strtok (CHR ''='') line of
     [] \<Rightarrow> []
   | key # vals \<Rightarrow>
       concat (map (\<lambda>v. line_targets (the_default [] (key_suffix key None)) (strtok (CHR '' '') v)) vals))"

definition short_targets :: "string list \<Rightarrow> bool" where
  "short_targets ts \<longleftrightarrow> list_all (\<lambda>t. length t < PATH_MAX) ts"

lemma key_suffix_Some: "key_suffix key None \<noteq> None \<Longrightarrow>
   key_suffix key s = Some (the_default [] (key_suffix key None))"
  by (auto simp: key_suffix_def split: if_splits)

lemma take_append_take: "take n (take n xs @ ys) = take n (xs @ ys)"
  by (simp add: take_append min_def)

lemma line_loop_rest:
  assumes "length ts \<le> MAX_NUM_TARGETS"
    and "short_targets (concat (map (\<lambda>v. line_targets suffix (strtok (CHR '' '') v)) vals))"
  shows "line_loop False (Some suffix) vals ts = Inr (Some suffix, take MAX_NUM_TARGETS
    (ts @ concat (map (\<lambda>v. line_targets suffix (strtok (CHR '' '') v)) vals)))"
  using assms
proof (induction vals arbitrary: ts)
  case (Cons v vs)
  let ?new = "line_targets suffix (strtok (CHR '' '') v)"
  have "get_install_targets_from_line v suffix ts = Inr (take MAX_NUM_TARGETS (ts @ ?new))"
    unfolding get_install_targets_from_line_def
    using Cons.prems by (intro targets_loop_spec) (simp_all add: short_targets_def list_all_iff)
  then show ?case
    using Cons.IH [of "take MAX_NUM_TARGETS (ts @ ?new)"] Cons.prems
    by (simp add: short_targets_def take_append_take del: take_append)
qed simp

lemma line_loop_spec:
  assumes "length ts \<le> MAX_NUM_TARGETS" and "line_key_ok line"
    and "short_targets (line_all_targets line)"
  shows "\<exists>s'. line_loop True s (strtok (CHR ''='') line) ts
    = Inr (s', take MAX_NUM_TARGETS (ts @ line_all_targets line))"
proof (cases "strtok (CHR ''='') line")
  case Nil
  then show ?thesis using assms(1) by (simp add: line_all_targets_def)
next
  case (Cons key vs)
  then have key: "key_suffix key None \<noteq> None" using assms(2) by (simp add: line_key_ok_def)
  show ?thesis
    using Cons line_loop_rest [OF assms(1)] assms(3)
    by (simp add: key_suffix_Some [OF key, of s] line_all_targets_def)
qed

lemma install_lines_spec:
  assumes "length ts \<le> MAX_NUM_TARGETS" and "list_all line_key_ok lines"
    and "short_targets (concat (map line_all_targets lines))"
  shows "install_lines_loop s lines ts
    = Inr (take MAX_NUM_TARGETS (ts @ concat (map line_all_targets lines)))"
  using assms
proof (induction lines arbitrary: s ts)
  case (Cons line rest)
  then obtain s' where step: "line_loop True s (strtok (CHR ''='') line) ts
      = Inr (s', take MAX_NUM_TARGETS (ts @ line_all_targets line))"
    using line_loop_spec [of ts line s] by (auto simp: short_targets_def)
  then show ?case
    using Cons.IH [of "take MAX_NUM_TARGETS (ts @ line_all_targets line)" s'] Cons.prems
    by (simp add: short_targets_def take_append_take del: take_append)
qed simp

text \<open>A link that was made stays: setting a fresh path does not change what other paths lead to.\<close>

lemma stat_follow_unfold:
  "stat_follow 0 nodes p = (case nodes p of Some (Symlink t) \<Rightarrow> None | r \<Rightarrow> r)"
  "stat_follow (Suc n) nodes p =
    (case nodes p of Some (Symlink t) \<Rightarrow> stat_follow n nodes t | r \<Rightarrow> r)"
  by (simp_all add: stat_follow.simps [of 0] stat_follow.simps [of "Suc n"]
      split: option.split fs_node.split)

lemma stat_follow_fresh:
  "nodes q = None \<Longrightarrow> stat_follow n nodes p = Some r \<Longrightarrow> stat_follow n (nodes(q := x)) p = Some r"
  by (induction n arbitrary: p)
    (auto simp: stat_follow_unfold split: option.splits fs_node.splits)

end
