(* ===== verification/GeneratorProperties.thy ===== *)
theory GeneratorProperties
  imports UnitGenerator
begin

text \<open>
  What the systemd generator installs: the targets it derives from a unit file, the bounds of its
  arrays, the effect of installing one link, and the keys of the install section that it does not
  expect.
\<close>

section \<open>Reading a unit\<close>

text \<open>The lines of the install section, as the code delimits it: from the first line with
  \<^verbatim>\<open>[Install]\<close> to the end of the file, without the lines that hold that header.\<close>

definition install_section :: "string \<Rightarrow> string list" where
  "install_section content = filter (\<lambda>l. \<not> strstr l ''[Install]'')
     (dropWhile (\<lambda>l. \<not> strstr l ''[Install]'') (file_lines content))"

lemma target_lines_section:
  "get_target_lines (Some content) = Some (take MAX_NUM_INSTALL_LINES (install_section content))"
  by (simp add: get_target_lines_def target_lines_loop_spec install_section_def)

lemma get_install_targets_lines:
  assumes "length (UNIT_FILE_PREFIX @ unit_file) < PATH_MAX"
    and "files (UNIT_FILE_PREFIX @ unit_file) = Some content"
  shows "get_install_targets files unit_file
    = (case install_lines_loop None (take MAX_NUM_INSTALL_LINES (install_section content)) [] of
        Inl e \<Rightarrow> Inl e | Inr targets \<Rightarrow> Inr (Some targets))"
  using assms by (simp add: get_install_targets_def path_buffer_def target_lines_section)

text \<open>The targets of a unit are the first five of the targets of the first five lines of its
  install section, in order, each the name with its newline cut and \<^verbatim>\<open>.requires\<close> or \<^verbatim>\<open>.wants\<close>
  appended, provided every one of those lines has a \<^verbatim>\<open>RequiredBy\<close> or \<^verbatim>\<open>WantedBy\<close> key and the paths
  fit the buffers.\<close>

theorem install_targets_of_unit:
  assumes "length (UNIT_FILE_PREFIX @ unit_file) < PATH_MAX"
    and "files (UNIT_FILE_PREFIX @ unit_file) = Some content"
    and "lines = take 5 (install_section content)"
    and "list_all line_key_ok lines" and "short_targets (concat (map line_all_targets lines))"
  shows "get_install_targets files unit_file
    = Inr (Some (take 5 (concat (map line_all_targets lines))))"
  using assms install_lines_spec [of "[]" lines None]
  by (simp add: get_install_targets_lines MAX_NUM_INSTALL_LINES_def MAX_NUM_TARGETS_def)

definition sample_unit :: string where
  "sample_unit = ''[Unit]'' @ [NEWLINE] @ ''[Install]'' @ [NEWLINE]
     @ ''WantedBy=a.target b.target'' @ [NEWLINE] @ ''RequiredBy=c.service'' @ [NEWLINE]"

definition sample_files :: files where
  "sample_files = [''/etc/systemd/system/x.service'' \<mapsto> sample_unit,
     CONFIG_FILE \<mapsto> ''x.service'' @ [NEWLINE]]"

lemma sample_section:
  "install_section sample_unit
   = [''WantedBy=a.target b.target'' @ [NEWLINE], ''RequiredBy=c.service'' @ [NEWLINE]]"
  by (simp add: install_section_def sample_unit_def NEWLINE_def)

theorem install_targets_of_unit_witness:
  "get_install_targets sample_files ''x.service''
   = Inr (Some [''a.target.wants'', ''b.target.wants'', ''c.service.requires''])"
  using install_targets_of_unit [of "''x.service''" sample_files sample_unit, OF _ _ refl]
  by (simp add: sample_section)
    (simp add: sample_files_def UNIT_FILE_PREFIX_def PATH_MAX_def CONFIG_FILE_def line_key_ok_def
      strtok_def key_suffix_def short_targets_def line_all_targets_def line_targets_def
      strip_trailing_newline_def NEWLINE_def)

text \<open>The arrays of the generator are never overrun: whatever the files hold, a unit gets at most
  5 targets, and the units are the first 128 lines of the configuration file.\<close>

theorem generator_array_bounds:
  "(\<forall>targets. get_install_targets files unit_file = Inr (Some targets) \<longrightarrow> length targets \<le> 5)
   \<and> get_unit_files files = map_option (\<lambda>content.
        take 128 (map strip_trailing_newline (file_lines content))) (files CONFIG_FILE)
   \<and> (\<forall>content. length (the_default [] (get_target_lines (Some content))) \<le> 5)"
proof (intro conjI allI impI)
  fix targets
  assume "get_install_targets files unit_file = Inr (Some targets)"
  then obtain lns where "install_lines_loop None lns [] = Inr targets"
    by (auto simp: get_install_targets_def split: sum.splits option.splits)
  then show "length targets \<le> 5"
    using install_lines_bound [of None lns "[]" targets] by (simp add: MAX_NUM_TARGETS_def)
next
  show "get_unit_files files = map_option (\<lambda>content.
        take 128 (map strip_trailing_newline (file_lines content))) (files CONFIG_FILE)"
    by (simp add: get_unit_files_def unit_files_loop_spec MAX_NUM_UNITS_def)
qed (simp add: target_lines_section MAX_NUM_INSTALL_LINES_def)

theorem generator_array_bounds_witness:
  "get_unit_files sample_files = Some [''x.service'']"
  using generator_array_bounds [of sample_files "''x.service''"]
  by (simp add: sample_files_def NEWLINE_def strip_trailing_newline_def)

text \<open>A first install line with a key that holds neither \<^verbatim>\<open>RequiredBy\<close> nor \<^verbatim>\<open>WantedBy\<close>, such as
  \<^verbatim>\<open>Alias=\<close>, makes the generator read the suffix variable before anything was stored in it.\<close>

theorem other_key_reads_uninitialised:
  assumes "length (UNIT_FILE_PREFIX @ unit_file) < PATH_MAX"
    and "files (UNIT_FILE_PREFIX @ unit_file) = Some content"
    and "install_section content = line # others" and "strtok (CHR ''='') line = key # val # rest"
    and "\<not> strstr key ''RequiredBy''" and "\<not> strstr key ''WantedBy''"
  shows "get_install_targets files unit_file = Inl Uninitialised"
  using assms
  by (simp add: get_install_targets_lines MAX_NUM_INSTALL_LINES_def key_suffix_def take_Cons')

definition alias_unit :: string where
  "alias_unit = ''[Install]'' @ [NEWLINE] @ ''Alias=y.service'' @ [NEWLINE]"

theorem other_key_reads_uninitialised_witness:
  "get_install_targets [''/etc/systemd/system/x.service'' \<mapsto> alias_unit] ''x.service''
   = Inl Uninitialised"
  by (rule other_key_reads_uninitialised [where line = "''Alias=y.service'' @ [NEWLINE]"
        and others = "[]" and content = alias_unit and key = "''Alias''"
        and val = "''y.service'' @ [NEWLINE]" and rest = "[]"])
    (simp_all add: UNIT_FILE_PREFIX_def PATH_MAX_def install_section_def alias_unit_def NEWLINE_def
      strtok_def)

section \<open>Installing a link\<close>

lemma set_node_simps:
  "fs_nodes (set_node p n fs) = (fs_nodes fs)(p := n)" "fs_denied (set_node p n fs) = fs_denied fs"
  by (simp_all add: set_node_def)

lemma stat_directory_not_special:
  "stat fs p = Some Directory \<Longrightarrow> prepare_dir p fs
     = (case chmod p fs of None \<Rightarrow> (False, fs) | Some fs' \<Rightarrow> (True, fs'))"
  by (simp add: prepare_dir_def)

text \<open>Preparing the directory touches no other path, and afterwards the directory may be changed.\<close>

lemma prepare_dir_done:
  assumes "prepare_dir p fs = (True, fs')" and "stat fs' p = Some Directory"
  shows "\<not> fs_denied fs' p \<and> fs_denied fs' = fs_denied fs
    \<and> (\<forall>q. q \<noteq> p \<longrightarrow> fs_nodes fs' q = fs_nodes fs q)"
  using assms
  by (auto simp: prepare_dir_def make_dir_def mkdir_def remove_file_def chmod_def set_node_simps
      split: option.splits fs_node.splits if_splits)

lemma install_unit_file_done:
  assumes "install_unit_file unit_file target install_dir fs = Inr (0, fs')"
  shows "let dir = install_dir @ target; dest = dir @ ''/'' @ unit_file in
    length (dir @ ''/'' @ unit_file) < PATH_MAX \<and> length (UNIT_FILE_PREFIX @ unit_file) < PATH_MAX
    \<and> (\<exists>fs1. prepare_dir dir fs = (True, fs1) \<and> stat fs1 dir = Some Directory
        \<and> (fs' = fs1 \<and> fs_nodes fs1 dest \<noteq> None
           \<or> fs_nodes fs1 dest = None
             \<and> fs' = set_node dest (Some (Symlink (UNIT_FILE_PREFIX @ unit_file))) fs1))"
  using assms
  by (auto simp: install_unit_file_def path_buffer_def Let_def split: if_splits prod.splits)

text \<open>C35. When installing a unit into a target succeeds, the target directory exists, the link path
  exists there (a new link points to the unit's file under the system directory, a path that was
  there keeps what it was), no path other than the directory and the link has changed, and installing
  it again succeeds and changes nothing.\<close>

theorem install_unit_file_effect:
  assumes "install_unit_file unit_file target install_dir fs = Inr (0, fs')"
    and "dir = install_dir @ target" and "dest = dir @ ''/'' @ unit_file"
  shows "stat fs' dir = Some Directory
    \<and> fs_nodes fs' dest = (case fs_nodes fs dest of
         None \<Rightarrow> Some (Symlink (UNIT_FILE_PREFIX @ unit_file)) | Some n \<Rightarrow> Some n)
    \<and> (\<forall>q. q \<noteq> dir \<and> q \<noteq> dest \<longrightarrow> fs_nodes fs' q = fs_nodes fs q)
    \<and> install_unit_file unit_file target install_dir fs' = Inr (0, fs')"
proof -
  obtain fs1 where short: "length dest < PATH_MAX" "length (UNIT_FILE_PREFIX @ unit_file) < PATH_MAX"
    and prep: "prepare_dir dir fs = (True, fs1)" "stat fs1 dir = Some Directory"
    and final: "fs' = fs1 \<and> fs_nodes fs1 dest \<noteq> None \<or> fs_nodes fs1 dest = None
         \<and> fs' = set_node dest (Some (Symlink (UNIT_FILE_PREFIX @ unit_file))) fs1"
    using install_unit_file_done [OF assms(1)] assms(2,3) by (auto simp: Let_def)
  note kept = prepare_dir_done [OF prep]
  have other: "dest \<noteq> dir" by (simp add: assms(3))
  have dir: "stat fs' dir = Some Directory"
    using final prep(2) stat_follow_fresh [of "fs_nodes fs1" dest 40 dir Directory]
    by (auto simp: stat_def set_node_simps)
  have denied: "\<not> fs_denied fs' dir" using final kept by (auto simp: set_node_simps)
  have dest: "fs_nodes fs' dest \<noteq> None" using final by (auto simp: set_node_simps)
  have "prepare_dir dir fs' = (True, fs')"
    using denied by (simp add: stat_directory_not_special [OF dir] chmod_def)
  then have "install_unit_file unit_file target install_dir fs' = Inr (0, fs')"
    using short dir dest assms(2,3) by (auto simp: install_unit_file_def path_buffer_def Let_def)
  then show ?thesis
    using dir final kept other by (auto simp: set_node_simps split: option.split)
qed

definition empty_system :: file_system where
  "empty_system = \<lparr>fs_nodes = [''/run/'' \<mapsto> Directory], fs_denied = (\<lambda>_. False)\<rparr>"

theorem install_unit_file_effect_witness:
  "\<exists>fs'. install_unit_file ''x.service'' ''a.wants'' ''/run/'' empty_system = Inr (0, fs')
     \<and> fs_nodes fs' ''/run/a.wants/x.service'' = Some (Symlink ''/etc/systemd/system/x.service'')
     \<and> install_unit_file ''x.service'' ''a.wants'' ''/run/'' fs' = Inr (0, fs')"
proof -
  let ?fs = "set_node ''/run/a.wants/x.service'' (Some (Symlink ''/etc/systemd/system/x.service''))
    (set_node ''/run/a.wants'' (Some Directory) empty_system)"
  have run: "install_unit_file ''x.service'' ''a.wants'' ''/run/'' empty_system = Inr (0, ?fs)"
    by (simp add: install_unit_file_def path_buffer_def PATH_MAX_def UNIT_FILE_PREFIX_def
        prepare_dir_def make_dir_def mkdir_def stat_def stat_follow.simps set_node_simps
        empty_system_def eval_nat_numeral)
  show ?thesis
    using run install_unit_file_effect [OF run refl refl]
    by (intro exI [of _ ?fs] conjI) (simp_all only: set_node_simps fun_upd_same)
qed

end
