(* ===== verification/SaiGraph.thy ===== *)
theory SaiGraph
  imports SaiMeta
begin

text \<open>
  The graph of object types, as \<^verbatim>\<open>saisanitycheck.c\<close> checks it: an attribute or a struct member that
  holds object ids leads to the types it allows. \<open>check_objects_for_loops\<close> walks all paths from every
  type and fails on a loop; \<open>check_graph_connected\<close> marks what can be reached from the port type. The
  generated tables are a parameter; only the members that the two checks read are kept here.
\<close>

section \<open>Tables\<close>

record graph_attr =
  ga_objecttype :: nat
  ga_attrid :: u32
  ga_flags :: u32
  ga_holds_objects :: bool
  ga_allowedobjecttypes :: "nat list"
  ga_isoidattribute :: bool
  ga_iscreateonly :: bool
  ga_iscreateandset :: bool

record graph_member =
  gm_is_object_id :: bool
  gm_allowedobjecttypes :: "nat list"

record graph_info =
  gi_objecttype :: nat
  gi_attrmetadata :: "graph_attr list"
  gi_isnonobjectid :: bool
  gi_structmembers :: "graph_member list"
  gi_depobjecttypes :: "nat list"
  gi_isexperimental :: bool

text \<open>
  \<open>infos\<close> is \<^verbatim>\<open>sai_metadata_all_object_type_infos\<close>: NULL at index 0 and at the end. The enumerators
  that the code names are part of the tables.
\<close>

record graph_tables =
  infos :: "graph_info option list"
  lookup_tables :: sai_metadata
  gt_extensions_max :: nat
  type_port :: nat
  type_scheduler_group :: nat
  type_debug_counter :: nat
  port_egress_mirror_session :: u32
  port_ingress_mirror_session :: u32
  port_egress_block_port_list :: u32
  scheduler_group_parent_node :: u32

definition SAI_ATTR_FLAGS_READ_ONLY :: u32 where "SAI_ATTR_FLAGS_READ_ONLY = 8"

definition SAI_HAS_FLAG_READ_ONLY :: "u32 \<Rightarrow> bool" where
  "SAI_HAS_FLAG_READ_ONLY x \<longleftrightarrow> x AND SAI_ATTR_FLAGS_READ_ONLY = SAI_ATTR_FLAGS_READ_ONLY"

definition info_at :: "graph_tables \<Rightarrow> nat \<Rightarrow> graph_info option" where
  "info_at T ot = (if ot < length (infos T) then infos T ! ot else None)"

section \<open>Loops\<close>

text \<open>
  The loops over attributes and members, as the list of what they do: an attribute id is stored for
  the current level, a type is visited one level deeper.
\<close>

datatype graph_action = StoreAttribute u32 | Visit nat

definition known_loop :: "graph_tables \<Rightarrow> graph_attr \<Rightarrow> bool" where
  "known_loop T m \<longleftrightarrow>
     ga_objecttype m = type_port T
       \<and> (ga_attrid m = port_egress_mirror_session T \<or> ga_attrid m = port_ingress_mirror_session T
          \<or> ga_attrid m = port_egress_block_port_list T)
   \<or> ga_objecttype m = type_scheduler_group T \<and> ga_attrid m = scheduler_group_parent_node T"

definition attr_actions :: "graph_tables \<Rightarrow> graph_attr \<Rightarrow> graph_action list" where
  "attr_actions T m =
     (if SAI_HAS_FLAG_READ_ONLY (ga_flags m) then []
      else if known_loop T m then []
      else StoreAttribute (ga_attrid m)
        # (if ga_holds_objects m then map Visit (ga_allowedobjecttypes m) else []))"

definition info_actions :: "graph_tables \<Rightarrow> graph_info \<Rightarrow> graph_action list" where
  "info_actions T i =
     concat (map (attr_actions T) (gi_attrmetadata i))
     @ (if gi_isnonobjectid i
        then concat (map (\<lambda>m. if gm_is_object_id m then map Visit (gm_allowedobjecttypes m) else [])
               (gi_structmembers i))
        else [])"

text \<open>
  Reporting a loop: the attribute of each level is looked up and its name read without a test, then
  the assertion stops the program (the level is never negative).
\<close>

fun list_loop :: "graph_tables \<Rightarrow> nat list \<Rightarrow> u32 list \<Rightarrow> nat list \<Rightarrow> fault" where
  "list_loop T visited attributes [] = AssertFailed"
| "list_loop T visited attributes (levelidx # levels) =
     (case sai_metadata_get_attr_metadata (lookup_tables T) (visited ! levelidx) (attributes ! levelidx) of
        Inl e \<Rightarrow> e
      | Inr None \<Rightarrow> NullDeref
      | Inr (Some m) \<Rightarrow> list_loop T visited attributes levels)"

fun find_level :: "nat list \<Rightarrow> nat \<Rightarrow> nat \<Rightarrow> nat option" where
  "find_level [] ot levelidx = None"
| "find_level (v # vs) ot levelidx = (if v = ot then Some levelidx else find_level vs ot (Suc levelidx))"

text \<open>
  The arrays have one entry per object type; writing the entry of a level behind them is
  \<open>OutOfBounds\<close>.
\<close>

function check_objects_for_loops_recursive ::
    "graph_tables \<Rightarrow> graph_info \<Rightarrow> nat list \<Rightarrow> u32 list \<Rightarrow> nat \<Rightarrow> (nat list \<times> u32 list) checked"
  and run_actions ::
    "graph_tables \<Rightarrow> graph_action list \<Rightarrow> nat list \<Rightarrow> u32 list \<Rightarrow> nat \<Rightarrow> (nat list \<times> u32 list) checked"
where
  "check_objects_for_loops_recursive T info visited attributes level =
     (let ot = gi_objecttype info; visited = visited[level := ot] in
      case find_level (take level visited) ot 0 of
        Some levelidx \<Rightarrow> Inl (list_loop T visited attributes [levelidx..<level])
      | None \<Rightarrow>
          (case run_actions T (info_actions T info) visited attributes level of
             Inl e \<Rightarrow> Inl e
           | Inr (visited, attributes) \<Rightarrow>
               Inr (visited[level := SAI_OBJECT_TYPE_NULL], attributes[level := 0])))"
| "run_actions T [] visited attributes level = Inr (visited, attributes)"
| "run_actions T (StoreAttribute i # as) visited attributes level =
     run_actions T as visited (attributes[level := i]) level"
| "run_actions T (Visit t # as) visited attributes level =
     (case info_at T t of
        None \<Rightarrow> Inl NullDeref
      | Some nxt \<Rightarrow>
          if gt_extensions_max T \<le> Suc level then Inl OutOfBounds
          else
            (case check_objects_for_loops_recursive T nxt visited attributes (Suc level) of
               Inl e \<Rightarrow> Inl e
             | Inr (visited, attributes) \<Rightarrow> run_actions T as visited attributes level))"
  by pat_completeness auto
termination
  by (relation "measures
      [\<lambda>x. case x of Inl (T, i, v, a, l) \<Rightarrow> 2 * (gt_extensions_max T - l) + 1
         | Inr (T, as, v, a, l) \<Rightarrow> 2 * (gt_extensions_max T - l),
       \<lambda>x. case x of Inl _ \<Rightarrow> 0 | Inr (T, as, v, a, l) \<Rightarrow> length as]") auto

declare check_objects_for_loops_recursive.simps [simp del]

fun check_types_loop :: "graph_tables \<Rightarrow> graph_info option list \<Rightarrow> unit checked" where
  "check_types_loop T [] = Inr ()"
| "check_types_loop T (None # is) = check_types_loop T is"
| "check_types_loop T (Some info # is) =
     (case check_objects_for_loops_recursive T info (replicate (gt_extensions_max T) 0)
             (replicate (gt_extensions_max T) 0) 0 of
        Inl e \<Rightarrow> Inl e
      | Inr _ \<Rightarrow> check_types_loop T is)"

definition check_objects_for_loops :: "graph_tables \<Rightarrow> unit checked" where
  "check_objects_for_loops T = check_types_loop T (take (Suc (gt_extensions_max T)) (infos T))"

section \<open>Reachability\<close>

text \<open>
  Types outside the table are \<open>OutOfBounds\<close>. The depth of the recursion is bounded by \<open>fuel\<close>, \<open>None\<close> is
  running out of it; one more than the number of types is shown to be enough.
\<close>

definition connected_types :: "graph_info \<Rightarrow> nat list" where
  "connected_types oi =
     concat (map (\<lambda>md. if \<not> ga_isoidattribute md then []
         else if \<not> (ga_iscreateonly md \<or> ga_iscreateandset md) then []
         else ga_allowedobjecttypes md) (gi_attrmetadata oi))
     @ concat (map gm_allowedobjecttypes (gi_structmembers oi))
     @ gi_depobjecttypes oi"

fun helper_check_graph_connected ::
    "graph_tables \<Rightarrow> nat \<Rightarrow> nat \<Rightarrow> nat list \<Rightarrow> nat list checked option"
  and helper_all :: "graph_tables \<Rightarrow> nat \<Rightarrow> nat list \<Rightarrow> nat list \<Rightarrow> nat list checked option"
where
  "helper_check_graph_connected T 0 ot visited = None"
| "helper_check_graph_connected T (Suc fuel) ot visited =
     (if length visited \<le> ot then Some (Inl OutOfBounds)
      else if visited ! ot = ot then Some (Inr visited)
      else
        (case info_at T ot of
           None \<Rightarrow> Some (Inl NullDeref)
         | Some oi \<Rightarrow> helper_all T fuel (connected_types oi) (visited[ot := ot])))"
| "helper_all T fuel [] visited = Some (Inr visited)"
| "helper_all T fuel (t # ts) visited =
     (case helper_check_graph_connected T fuel t visited of
        None \<Rightarrow> None
      | Some (Inl e) \<Rightarrow> Some (Inl e)
      | Some (Inr visited) \<Rightarrow> helper_all T fuel ts visited)"

definition type_connected :: "graph_tables \<Rightarrow> nat list \<Rightarrow> nat \<Rightarrow> bool checked" where
  "type_connected T visited i =
     (if visited ! i = i then Inr True
      else case info_at T i of
        None \<Rightarrow> Inl NullDeref
      | Some info \<Rightarrow> Inr (gi_isexperimental info \<or> i = type_debug_counter T))"

fun all_connected :: "graph_tables \<Rightarrow> nat list \<Rightarrow> nat list \<Rightarrow> unit checked" where
  "all_connected T visited [] = Inr ()"
| "all_connected T visited (i # is) =
     (case type_connected T visited i of
        Inl e \<Rightarrow> Inl e
      | Inr ok \<Rightarrow> if ok then all_connected T visited is else Inl AssertFailed)"

definition check_graph_connected :: "nat \<Rightarrow> graph_tables \<Rightarrow> unit checked option" where
  "check_graph_connected fuel T =
     (case helper_check_graph_connected T fuel (type_port T) (replicate (gt_extensions_max T) 0) of
        None \<Rightarrow> None
      | Some (Inl e) \<Rightarrow> Some (Inl e)
      | Some (Inr visited) \<Rightarrow> Some (all_connected T visited [0..<gt_extensions_max T]))"

end
