(* ===== verification/SaiGraphFacts.thy ===== *)
theory SaiGraphFacts
  imports SaiGraph
begin

text \<open>
  The two graph checks compute what they are meant to: the search for loops succeeds exactly when the
  relation \<open>type_edges\<close> is acyclic, and the connectivity check exactly when every type that is not
  excepted is reachable from the port type. Both never leave their arrays.
\<close>

section \<open>The graph\<close>

text \<open>An edge for every settable object id; the four attributes that are known to make loops are out.\<close>

definition attr_counts :: "graph_tables \<Rightarrow> graph_attr \<Rightarrow> bool" where
  "attr_counts T m \<longleftrightarrow> \<not> bit (ga_flags m) 3
     \<and> (ga_objecttype m, ga_attrid m) \<notin> {(type_port T, port_egress_mirror_session T),
          (type_port T, port_ingress_mirror_session T), (type_port T, port_egress_block_port_list T),
          (type_scheduler_group T, scheduler_group_parent_node T)}"

definition leads_to :: "graph_tables \<Rightarrow> graph_info \<Rightarrow> nat \<Rightarrow> bool" where
  "leads_to T i t' \<longleftrightarrow>
     (\<exists>m \<in> set (gi_attrmetadata i). attr_counts T m \<and> ga_holds_objects m
        \<and> t' \<in> set (ga_allowedobjecttypes m))
   \<or> gi_isnonobjectid i
     \<and> (\<exists>m \<in> set (gi_structmembers i). gm_is_object_id m \<and> t' \<in> set (gm_allowedobjecttypes m))"

definition type_edges :: "graph_tables \<Rightarrow> (nat \<times> nat) set" where
  "type_edges T = {(t, t'). \<exists>i. info_at T t = Some i \<and> leads_to T i t'}"

definition links_to :: "graph_info \<Rightarrow> nat \<Rightarrow> bool" where
  "links_to i t' \<longleftrightarrow>
     (\<exists>m \<in> set (gi_attrmetadata i). ga_isoidattribute m \<and> (ga_iscreateonly m \<or> ga_iscreateandset m)
        \<and> t' \<in> set (ga_allowedobjecttypes m))
   \<or> (\<exists>m \<in> set (gi_structmembers i). t' \<in> set (gm_allowedobjecttypes m))
   \<or> t' \<in> set (gi_depobjecttypes i)"

definition link_edges :: "graph_tables \<Rightarrow> (nat \<times> nat) set" where
  "link_edges T = {(t, t'). \<exists>i. info_at T t = Some i \<and> links_to i t'}"

text \<open>
  What the generator and the other sanity checks provide: every type has its information at its own
  index, index 0 and the end are NULL, and only valid types are named as targets.
\<close>

definition valid_type :: "graph_tables \<Rightarrow> nat \<Rightarrow> bool" where
  "valid_type T t \<longleftrightarrow> 0 < t \<and> t < gt_extensions_max T"

definition targets :: "graph_info \<Rightarrow> nat list" where
  "targets i = concat (map ga_allowedobjecttypes (gi_attrmetadata i))
     @ concat (map gm_allowedobjecttypes (gi_structmembers i)) @ gi_depobjecttypes i"

definition info_ok :: "graph_tables \<Rightarrow> nat \<Rightarrow> bool" where
  "info_ok T t = (case info_at T t of
     None \<Rightarrow> \<not> valid_type T t
   | Some i \<Rightarrow> valid_type T t \<and> gi_objecttype i = t \<and> list_all (valid_type T) (targets i))"

definition graph_tables_ok :: "graph_tables \<Rightarrow> bool" where
  "graph_tables_ok T \<longleftrightarrow>
     length (infos T) = Suc (gt_extensions_max T)
   \<and> valid_type T (type_port T)
   \<and> list_all (info_ok T) [0..<Suc (gt_extensions_max T)]"

text \<open>
  The lookup tables know attribute 0 and every listed attribute of each type, so that a loop can be
  reported.
\<close>

definition attr_known :: "graph_tables \<Rightarrow> nat \<Rightarrow> u32 \<Rightarrow> bool" where
  "attr_known T t i = (case sai_metadata_get_attr_metadata (lookup_tables T) t i of
     Inr (Some m) \<Rightarrow> True | _ \<Rightarrow> False)"

definition reports_ok :: "graph_tables \<Rightarrow> bool" where
  "reports_ok T = list_all (\<lambda>x. case x of None \<Rightarrow> True
     | Some i \<Rightarrow> list_all (attr_known T (gi_objecttype i)) (0 # map ga_attrid (gi_attrmetadata i)))
     (infos T)"

section \<open>The edges of the walks\<close>

fun visits :: "graph_action list \<Rightarrow> nat list" where
  "visits [] = []"
| "visits (StoreAttribute i # as) = visits as"
| "visits (Visit t # as) = t # visits as"

definition succs :: "graph_tables \<Rightarrow> nat \<Rightarrow> nat list" where
  "succs T t = (case info_at T t of None \<Rightarrow> [] | Some i \<Rightarrow> visits (info_actions T i))"

definition linked :: "graph_tables \<Rightarrow> nat \<Rightarrow> nat list" where
  "linked T t = (case info_at T t of None \<Rightarrow> [] | Some i \<Rightarrow> connected_types i)"

lemma visits_append [simp]: "visits (as @ bs) = visits as @ visits bs"
  by (induction as rule: visits.induct) auto

fun stores :: "graph_action list \<Rightarrow> u32 list" where
  "stores [] = []"
| "stores (StoreAttribute i # as) = i # stores as"
| "stores (Visit t # as) = stores as"

lemma stores_append [simp]: "stores (as @ bs) = stores as @ stores bs"
  by (induction as rule: stores.induct) auto

lemma stores_map [simp]: "stores (map Visit ts) = []"
  by (induction ts) auto

lemma stores_concat: "set (stores (concat (map f xs))) = (\<Union>x \<in> set xs. set (stores (f x)))"
  by (induction xs) auto

lemma stores_info: "set (stores (info_actions T i)) \<subseteq> ga_attrid ` set (gi_attrmetadata i)"
proof -
  have "set (stores (attr_actions T m)) \<subseteq> {ga_attrid m}" for m
    by (simp add: attr_actions_def)
  then show ?thesis by (auto simp: info_actions_def stores_concat split: if_splits)
qed

lemma visits_concat: "set (visits (concat (map f xs))) = (\<Union>x \<in> set xs. set (visits (f x)))"
  by (induction xs) auto

lemma visits_map [simp]: "visits (map Visit ts) = ts"
  by (induction ts) auto

lemma and_exp_bit: "(x :: 'a::len word) AND 2 ^ n = (if bit x n then 2 ^ n else 0)"
  by (rule bit_word_eqI) (auto simp: bit_simps)

lemma read_only_bit: "SAI_HAS_FLAG_READ_ONLY x \<longleftrightarrow> bit x 3"
  using and_exp_bit [of x 3] by (simp add: SAI_HAS_FLAG_READ_ONLY_def SAI_ATTR_FLAGS_READ_ONLY_def)

lemma visits_attr:
  "set (visits (attr_actions T m)) =
    (if attr_counts T m \<and> ga_holds_objects m then set (ga_allowedobjecttypes m) else {})"
  by (auto simp: attr_actions_def attr_counts_def known_loop_def read_only_bit)

lemma visits_info: "set (visits (info_actions T i)) = {t'. leads_to T i t'}"
  by (auto simp: info_actions_def leads_to_def visits_concat visits_attr split: if_splits)

lemma set_connected: "set (connected_types i) = {t'. links_to i t'}"
  by (auto simp: connected_types_def links_to_def split: if_splits)

lemma succs_edges: "t' \<in> set (succs T t) \<longleftrightarrow> (t, t') \<in> type_edges T"
  by (cases "info_at T t") (simp_all add: succs_def type_edges_def visits_info)

lemma linked_edges: "t' \<in> set (linked T t) \<longleftrightarrow> (t, t') \<in> link_edges T"
  by (cases "info_at T t") (simp_all add: linked_def link_edges_def set_connected)

lemma leads_to_target: "leads_to T i t' \<Longrightarrow> t' \<in> set (targets i)"
  by (auto simp: leads_to_def targets_def)

lemma links_to_target: "links_to i t' \<Longrightarrow> t' \<in> set (targets i)"
  by (auto simp: links_to_def targets_def)

lemma targets_valid:
  assumes "list_all (valid_type T) (targets i)"
  shows "list_all (valid_type T) (visits (info_actions T i) @ connected_types i)"
  using assms
  by (auto simp: list_all_iff visits_info set_connected dest: leads_to_target links_to_target)

lemma tables_info_at:
  assumes "graph_tables_ok T"
  shows "info_ok T t"
proof (cases "t < Suc (gt_extensions_max T)")
  case True
  then show ?thesis using assms by (simp add: graph_tables_ok_def list_all_iff del: upt_Suc)
next
  case False
  then show ?thesis
    using assms by (simp add: graph_tables_ok_def info_ok_def info_at_def valid_type_def)
qed

lemma valid_type_info:
  assumes "graph_tables_ok T" and "valid_type T t"
  obtains i where "info_at T t = Some i" and "gi_objecttype i = t"
    and "list_all (valid_type T) (visits (info_actions T i))"
    and "list_all (valid_type T) (connected_types i)"
    and "visits (info_actions T i) = succs T t" and "connected_types i = linked T t"
proof (cases "info_at T t")
  case None
  then show ?thesis using tables_info_at [OF assms(1), of t] assms(2) by (simp add: info_ok_def)
next
  case (Some i)
  then show ?thesis
    using tables_info_at [OF assms(1), of t] targets_valid [of T i]
    by (intro that [of i]) (simp_all add: info_ok_def succs_def linked_def)
qed

lemma info_valid:
  "graph_tables_ok T \<Longrightarrow> info_at T t = Some i \<Longrightarrow> valid_type T t \<and> gi_objecttype i = t"
  using tables_info_at [of T t] by (auto simp: info_ok_def split: option.splits)

lemma succs_valid: "graph_tables_ok T \<Longrightarrow> t' \<in> set (succs T t) \<Longrightarrow> valid_type T t \<and> valid_type T t'"
  using tables_info_at [of T t] targets_valid [of T]
  by (fastforce simp: info_ok_def succs_def list_all_iff split: option.splits)

lemma linked_valid: "graph_tables_ok T \<Longrightarrow> t' \<in> set (linked T t) \<Longrightarrow> valid_type T t'"
  using tables_info_at [of T t] targets_valid [of T]
  by (fastforce simp: info_ok_def linked_def list_all_iff split: option.splits)

section \<open>Walks\<close>

inductive walk :: "graph_tables \<Rightarrow> nat list \<Rightarrow> bool" for T where
  walk_one: "walk T [t]"
| walk_step: "t' \<in> set (succs T t) \<Longrightarrow> walk T (t' # ws) \<Longrightarrow> walk T (t # t' # ws)"

inductive_simps walk_one_simp [simp]: "walk T [t]"
inductive_simps walk_step_simp [simp]: "walk T (t # t' # ws)"

text \<open>No walk from \<open>t\<close> comes back to a type on the path \<open>p\<close> or to one of its own.\<close>

definition loop_free :: "graph_tables \<Rightarrow> nat list \<Rightarrow> nat \<Rightarrow> bool" where
  "loop_free T p t \<longleftrightarrow> (\<forall>ws. walk T (t # ws) \<longrightarrow> distinct (p @ t # ws))"

lemma loop_free_step:
  "loop_free T p t \<longleftrightarrow> distinct (p @ [t]) \<and> (\<forall>t' \<in> set (succs T t). loop_free T (p @ [t]) t')"
proof
  assume lf: "loop_free T p t"
  have "distinct (p @ [t])" using lf walk_one [of T t] unfolding loop_free_def by blast
  moreover have "loop_free T (p @ [t]) t'" if t': "t' \<in> set (succs T t)" for t'
  proof -
    have "distinct ((p @ [t]) @ t' # ws)" if "walk T (t' # ws)" for ws
      using lf t' that unfolding loop_free_def
      by (metis append.assoc append_Cons append_Nil walk_step_simp)
    then show ?thesis by (simp add: loop_free_def)
  qed
  ultimately show "distinct (p @ [t]) \<and> (\<forall>t' \<in> set (succs T t). loop_free T (p @ [t]) t')"
    by blast
next
  assume rhs: "distinct (p @ [t]) \<and> (\<forall>t' \<in> set (succs T t). loop_free T (p @ [t]) t')"
  have "distinct (p @ t # ws)" if "walk T (t # ws)" for ws
  proof (cases ws)
    case Nil
    then show ?thesis using rhs by simp
  next
    case (Cons t' rest)
    then have "loop_free T (p @ [t]) t'" and "walk T (t' # rest)" using that rhs by simp_all
    then have "distinct ((p @ [t]) @ t' # rest)" unfolding loop_free_def by blast
    then show ?thesis using Cons by simp
  qed
  then show "loop_free T p t" by (simp add: loop_free_def)
qed

lemma walk_trancl: "walk T (t # ws) \<Longrightarrow> w \<in> set ws \<Longrightarrow> (t, w) \<in> (type_edges T)\<^sup>+"
proof (induction ws arbitrary: t)
  case (Cons t' rest)
  then have edge: "(t, t') \<in> type_edges T" and rest: "walk T (t' # rest)"
    by (simp_all add: succs_edges)
  show ?case
  proof (cases "w = t'")
    case True
    then show ?thesis using edge by auto
  next
    case False
    then have "(t', w) \<in> (type_edges T)\<^sup>+" using Cons.IH [OF rest] Cons.prems by simp
    then show ?thesis using edge by (rule trancl_into_trancl2 [rotated])
  qed
qed simp

lemma trancl_walk: "(t, w) \<in> (type_edges T)\<^sup>+ \<Longrightarrow> \<exists>ws. walk T (t # ws) \<and> w \<in> set ws"
proof (induction rule: converse_trancl_induct)
  case (base t)
  then show ?case by (intro exI [of _ "[w]"]) (simp add: succs_edges)
next
  case (step t t')
  then obtain ws where "walk T (t' # ws)" and "w \<in> set ws" by blast
  then show ?case using step by (intro exI [of _ "t' # ws"]) (simp add: succs_edges)
qed

lemma acyclic_loop_free: "acyclic (type_edges T) \<longleftrightarrow> (\<forall>t. loop_free T [] t)"
proof
  assume ac: "acyclic (type_edges T)"
  have walks: "walk T ws \<Longrightarrow> distinct ws" for ws
  proof (induction rule: walk.induct)
    case (walk_step t' t ws)
    then have "walk T (t # t' # ws)" by simp
    then have "t \<notin> set (t' # ws)"
      using walk_trancl [of T t "t' # ws" t] ac by (auto simp: acyclic_def)
    then show ?case using walk_step by simp
  qed simp
  show "\<forall>t. loop_free T [] t" unfolding loop_free_def append_Nil using walks by blast
next
  assume lf: "\<forall>t. loop_free T [] t"
  show "acyclic (type_edges T)"
    unfolding acyclic_def
  proof (intro allI notI)
    fix t
    assume "(t, t) \<in> (type_edges T)\<^sup>+"
    then obtain ws where "walk T (t # ws)" and "t \<in> set ws" using trancl_walk by blast
    then show False using lf by (auto simp: loop_free_def)
  qed
qed

section \<open>The search for loops\<close>

lemma find_level_None: "find_level vs ot k = None \<longleftrightarrow> ot \<notin> set vs"
  by (induction vs ot k rule: find_level.induct) auto

text \<open>A path of distinct valid types leaves room for one more level.\<close>

lemma path_room:
  assumes "distinct q" and "list_all (valid_type T) q"
  shows "length q < gt_extensions_max T \<or> q = []"
proof -
  have "set q \<subseteq> {1..<gt_extensions_max T}" using assms(2) by (auto simp: list_all_iff valid_type_def)
  then have "card (set q) \<le> gt_extensions_max T - 1"
    using card_mono [of "{1..<gt_extensions_max T}" "set q"] by simp
  then show ?thesis using distinct_card [OF assms(1)] by (cases q) auto
qed

text \<open>Below level \<open>k\<close> the arrays hold types with a known attribute of theirs, from there on zeros.\<close>

definition attrs_ok :: "graph_tables \<Rightarrow> nat \<Rightarrow> nat list \<Rightarrow> u32 list \<Rightarrow> bool" where
  "attrs_ok T k v a \<longleftrightarrow> (\<forall>j < k. attr_known T (v ! j) (a ! j))
     \<and> (\<forall>j. k \<le> j \<longrightarrow> j < length a \<longrightarrow> a ! j = 0)"

lemma attrs_ok_enter:
  "attrs_ok T k v a \<Longrightarrow> attr_known T t 0 \<Longrightarrow> k < length v \<Longrightarrow> k < length a \<Longrightarrow>
   attrs_ok T (Suc k) (v[k := t]) a"
  by (auto simp: attrs_ok_def less_Suc_eq)

lemma attrs_ok_leave: "attrs_ok T (Suc k) v a \<Longrightarrow> attrs_ok T k (v[k := t]) (a[k := 0])"
  by (auto simp: attrs_ok_def nth_list_update)

lemma attrs_ok_store:
  "attrs_ok T (Suc k) v a \<Longrightarrow> attr_known T (v ! k) i \<Longrightarrow> k < length a \<Longrightarrow>
   attrs_ok T (Suc k) v (a[k := i])"
  by (auto simp: attrs_ok_def less_Suc_eq nth_list_update)

lemma list_loop_asserts:
  "\<forall>j \<in> set levels. attr_known T (v ! j) (a ! j) \<Longrightarrow> list_loop T v a levels = AssertFailed"
  by (induction T v a levels rule: list_loop.induct)
    (auto simp: attr_known_def split: sum.splits option.splits)

lemma reports_known:
  assumes "reports_ok T" and "info_at T t = Some i"
  shows "attr_known T (gi_objecttype i) 0"
    and "list_all (attr_known T (gi_objecttype i)) (stores (info_actions T i))"
proof -
  have "Some i \<in> set (infos T)" using assms(2) by (auto simp: info_at_def split: if_splits dest: nth_mem)
  then have "list_all (attr_known T (gi_objecttype i)) (0 # map ga_attrid (gi_attrmetadata i))"
    using assms(1) by (auto simp: reports_ok_def list_all_iff)
  then show "attr_known T (gi_objecttype i) 0"
    and "list_all (attr_known T (gi_objecttype i)) (stores (info_actions T i))"
    using stores_info [of T i] by (auto simp: list_all_iff)
qed

text \<open>The outcome of a search at a level whose path is \<open>q\<close>.\<close>

definition search_result ::
  "graph_tables \<Rightarrow> nat \<Rightarrow> nat list \<Rightarrow> bool \<Rightarrow> (nat list \<times> u32 list) checked \<Rightarrow> bool" where
  "search_result T k q good r \<longleftrightarrow>
     (case r of
        Inl e \<Rightarrow> e = AssertFailed \<and> \<not> good
      | Inr (v, a) \<Rightarrow> good \<and> length v = gt_extensions_max T \<and> length a = gt_extensions_max T
          \<and> take k v = q \<and> attrs_ok T k v a)"

lemma search_spec:
  shows "graph_tables_ok T \<Longrightarrow> reports_ok T \<Longrightarrow> info_at T (gi_objecttype info) = Some info \<Longrightarrow>
      level < gt_extensions_max T \<Longrightarrow> length visited = gt_extensions_max T \<Longrightarrow>
      length attributes = gt_extensions_max T \<Longrightarrow> distinct (take level visited) \<Longrightarrow>
      list_all (valid_type T) (take level visited) \<Longrightarrow> attrs_ok T level visited attributes \<Longrightarrow>
      search_result T level (take level visited)
        (loop_free T (take level visited) (gi_objecttype info))
        (check_objects_for_loops_recursive T info visited attributes level)"
    and "graph_tables_ok T \<Longrightarrow> reports_ok T \<Longrightarrow> level < gt_extensions_max T \<Longrightarrow>
      length visited = gt_extensions_max T \<Longrightarrow> length attributes = gt_extensions_max T \<Longrightarrow>
      distinct (take (Suc level) visited) \<Longrightarrow> list_all (valid_type T) (take (Suc level) visited) \<Longrightarrow>
      list_all (valid_type T) (visits as) \<Longrightarrow> attrs_ok T (Suc level) visited attributes \<Longrightarrow>
      list_all (attr_known T (visited ! level)) (stores as) \<Longrightarrow>
      search_result T (Suc level) (take (Suc level) visited)
        (\<forall>t \<in> set (visits as). loop_free T (take (Suc level) visited) t)
        (run_actions T as visited attributes level)"
proof (induction T info visited attributes level and T as visited attributes level
    rule: check_objects_for_loops_recursive_run_actions.induct)
  case (1 T info visited attributes level)
  let ?t = "gi_objecttype info" and ?p = "take level visited"
  let ?v = "visited[level := ?t]"
  note info = "1.prems"(3)
  have pre: "take level ?v = ?p" and suc: "take (Suc level) ?v = ?p @ [?t]"
    using "1.prems" by (simp_all add: take_Suc_conv_app_nth)
  have valid: "valid_type T ?t" using "1.prems" info_valid by blast
  have succ: "visits (info_actions T info) = succs T ?t"
    using info by (simp add: succs_def)
  have zero: "attr_known T ?t 0" and stored: "list_all (attr_known T ?t) (stores (info_actions T info))"
    by (rule reports_known [OF "1.prems"(2) info])+
  have known: "attrs_ok T (Suc level) ?v attributes"
    using attrs_ok_enter [OF "1.prems"(9) zero] "1.prems" by simp
  show ?case
  proof (cases "?t \<in> set ?p")
    case True
    then obtain k where "find_level (take level ?v) ?t 0 = Some k"
      using find_level_None [of ?p ?t 0] pre by auto
    moreover have "\<not> loop_free T ?p ?t" using True loop_free_step [of T ?p ?t] by auto
    moreover have "list_loop T ?v attributes [k..<level] = AssertFailed" for k
    proof (rule list_loop_asserts, rule ballI)
      fix j
      assume "j \<in> set [k..<level]"
      then have "j < Suc level" by simp
      then show "attr_known T (?v ! j) (attributes ! j)" using known unfolding attrs_ok_def by blast
    qed
    ultimately show ?thesis
      by (simp add: check_objects_for_loops_recursive.simps search_result_def Let_def)
  next
    case False
    then have none: "find_level (take level ?v) ?t 0 = None" by (simp add: pre find_level_None)
    have targets: "list_all (valid_type T) (visits (info_actions T info))"
      using succs_valid [OF "1.prems"(1)] by (auto simp: succ list_all_iff)
    have run: "search_result T (Suc level) (?p @ [?t])
        (\<forall>t \<in> set (succs T ?t). loop_free T (?p @ [?t]) t)
        (run_actions T (info_actions T info) ?v attributes level)"
      using 1(1) [OF refl refl none, unfolded suc] "1.prems" False valid targets known stored
      by (simp add: succ)
    have lf: "loop_free T ?p ?t \<longleftrightarrow> (\<forall>t \<in> set (succs T ?t). loop_free T (?p @ [?t]) t)"
      using loop_free_step [of T ?p ?t] False "1.prems" by auto
    show ?thesis
    proof (cases "run_actions T (info_actions T info) ?v attributes level")
      case (Inl e)
      then show ?thesis using run lf none
        by (simp add: check_objects_for_loops_recursive.simps search_result_def Let_def)
    next
      case (Inr r)
      obtain v a where r: "r = (v, a)" by (cases r)
      have out: "loop_free T ?p ?t" "length v = gt_extensions_max T" "length a = gt_extensions_max T"
          "take (Suc level) v = ?p @ [?t]" "attrs_ok T (Suc level) v a"
        using run lf Inr r by (simp_all add: search_result_def)
      have "take level v = ?p"
        using arg_cong [OF out(4), of "take level"] "1.prems" by (simp add: min_def)
      then show ?thesis using Inr r none out attrs_ok_leave [OF out(5)]
        by (simp add: check_objects_for_loops_recursive.simps search_result_def Let_def)
    qed
  qed
next
  case (2 T visited attributes level)
  then show ?case by (simp add: search_result_def)
next
  case (3 T i as visited attributes level)
  then show ?case using attrs_ok_store [of T level visited attributes i] by simp
next
  case (4 T t as visited attributes level)
  let ?q = "take (Suc level) visited"
  note ok = 4(3) and reports = 4(4) and lens = 4(5-7) and path = 4(8,9) and known = 4(11)
  have valid: "valid_type T t" using 4(10) by simp
  from ok valid obtain nxt where nxt: "info_at T t = Some nxt" "gi_objecttype nxt = t"
    by (rule valid_type_info)
  have "length ?q = Suc level" using lens by simp
  then have room: "Suc level < gt_extensions_max T"
    using path_room [OF path] by auto
  then have guard: "\<not> gt_extensions_max T \<le> Suc level" by simp
  have deeper: "search_result T (Suc level) ?q (loop_free T ?q t)
      (check_objects_for_loops_recursive T nxt visited attributes (Suc level))"
    using 4(1) [OF nxt(1) guard] ok reports lens path known room nxt by simp
  show ?case
  proof (cases "check_objects_for_loops_recursive T nxt visited attributes (Suc level)")
    case (Inl e)
    then show ?thesis using deeper nxt room by (simp add: search_result_def)
  next
    case (Inr r)
    obtain v a where r: "r = (v, a)" by (cases r)
    have kept: "loop_free T ?q t" "length v = gt_extensions_max T" "length a = gt_extensions_max T"
        "take (Suc level) v = ?q" "attrs_ok T (Suc level) v a"
      using deeper Inr r by (simp_all add: search_result_def)
    have "v ! level = visited ! level"
      using arg_cong [OF kept(4), of "\<lambda>xs. xs ! level"] by simp
    then have "search_result T (Suc level) ?q (\<forall>t \<in> set (visits as). loop_free T ?q t)
        (run_actions T as v a level)"
      using 4(2) [OF nxt(1) guard Inr r [symmetric]] 4(3-12) kept by simp
    then show ?thesis using Inr r nxt room kept by (simp add: search_result_def)
  qed
qed

lemma check_from_top:
  assumes "graph_tables_ok T" and "reports_ok T" and "info_at T t = Some info"
  shows "case check_objects_for_loops_recursive T info (replicate (gt_extensions_max T) 0)
      (replicate (gt_extensions_max T) 0) 0 of
      Inl e \<Rightarrow> e = AssertFailed \<and> \<not> loop_free T [] t | Inr r \<Rightarrow> loop_free T [] t"
proof -
  have t: "valid_type T t" "gi_objecttype info = t" using info_valid [OF assms(1,3)] by simp_all
  have start: "attrs_ok T 0 (replicate (gt_extensions_max T) 0) (replicate (gt_extensions_max T) 0)"
    by (simp add: attrs_ok_def)
  have "search_result T 0 [] (loop_free T [] t)
      (check_objects_for_loops_recursive T info (replicate (gt_extensions_max T) 0)
        (replicate (gt_extensions_max T) 0) 0)"
    using search_spec(1) [OF assms(1,2), of info 0 "replicate (gt_extensions_max T) 0"
        "replicate (gt_extensions_max T) 0"] t assms(3) start
    by (simp add: valid_type_def)
  then show ?thesis by (auto simp: search_result_def split: sum.splits)
qed

lemma check_types_loop_result:
  assumes "graph_tables_ok T" and "reports_ok T"
    and "\<forall>info. Some info \<in> set is \<longrightarrow> info_at T (gi_objecttype info) = Some info"
  shows "check_types_loop T is =
    (if \<forall>info. Some info \<in> set is \<longrightarrow> loop_free T [] (gi_objecttype info)
     then Inr () else Inl AssertFailed)"
  using assms
proof (induction T "is" rule: check_types_loop.induct)
  case (3 T info "is")
  have at: "info_at T (gi_objecttype info) = Some info" using "3.prems" by simp
  note top = check_from_top [OF "3.prems"(1,2) at]
  show ?case
    using top 3 by (cases "check_objects_for_loops_recursive T info
      (replicate (gt_extensions_max T) 0) (replicate (gt_extensions_max T) 0) 0") auto
qed auto

lemma no_info_loop_free: "graph_tables_ok T \<Longrightarrow> info_at T t = None \<Longrightarrow> loop_free T [] t"
  by (subst loop_free_step) (simp add: succs_def)

lemma check_objects_for_loops_result:
  assumes "graph_tables_ok T" and "reports_ok T"
  shows "check_objects_for_loops T = (if acyclic (type_edges T) then Inr () else Inl AssertFailed)"
proof -
  have len: "length (infos T) = Suc (gt_extensions_max T)"
    using assms by (simp add: graph_tables_ok_def)
  have at: "info_at T (gi_objecttype info) = Some info" if member: "Some info \<in> set (infos T)" for info
  proof -
    obtain t where "t < length (infos T)" and "infos T ! t = Some info"
      using member by (auto simp: in_set_conv_nth)
    then have "info_at T t = Some info" by (simp add: info_at_def)
    then show ?thesis using info_valid [OF assms(1)] by simp
  qed
  have member: "Some info \<in> set (infos T)" if "info_at T t = Some info" for t info
    using that by (auto simp: info_at_def split: if_splits dest: nth_mem)
  have "(\<forall>info. Some info \<in> set (infos T) \<longrightarrow> loop_free T [] (gi_objecttype info))
      \<longleftrightarrow> (\<forall>t. loop_free T [] t)"
  proof (intro iffI allI)
    fix t
    assume "\<forall>info. Some info \<in> set (infos T) \<longrightarrow> loop_free T [] (gi_objecttype info)"
    then show "loop_free T [] t"
      using no_info_loop_free [OF assms(1), of t] member [of t] info_valid [OF assms(1), of t]
      by (cases "info_at T t") auto
  qed simp
  then show ?thesis
    using check_types_loop_result [OF assms, of "infos T"] at len
    by (simp add: check_objects_for_loops_def acyclic_loop_free)
qed

section \<open>Reachability\<close>

definition marked :: "nat list \<Rightarrow> nat set" where
  "marked v = {i. i < length v \<and> v ! i = i}"

definition unmarked :: "nat list \<Rightarrow> nat set" where
  "unmarked v = {i. i < length v \<and> v ! i \<noteq> i}"

lemma finite_unmarked [simp]: "finite (unmarked v)"
  by (rule finite_subset [of _ "{..<length v}"]) (auto simp: unmarked_def)

lemma unmarked_mono: "marked v \<subseteq> marked v' \<Longrightarrow> length v' = length v \<Longrightarrow> unmarked v' \<subseteq> unmarked v"
  by (auto simp: marked_def unmarked_def)

lemma marked_update: "ot < length v \<Longrightarrow> marked (v[ot := ot]) = insert ot (marked v)"
  by (auto simp: marked_def nth_list_update)

lemma unmarked_update: "ot < length v \<Longrightarrow> unmarked (v[ot := ot]) = unmarked v - {ot}"
  by (auto simp: unmarked_def nth_list_update)

text \<open>
  One call marks its types, what it marks is reachable from them, and what is newly marked has all
  its neighbours marked.
\<close>

definition marks :: "graph_tables \<Rightarrow> nat set \<Rightarrow> nat list \<Rightarrow> nat list \<Rightarrow> bool" where
  "marks T from v v' \<longleftrightarrow> length v' = length v \<and> marked v \<subseteq> marked v' \<and> from \<subseteq> marked v'
     \<and> (\<forall>x \<in> marked v' - marked v. x \<in> (link_edges T)\<^sup>* `` from \<and> set (linked T x) \<subseteq> marked v')"

lemma marks_trans:
  assumes "marks T A v v'" and "marks T B v' v''"
  shows "marks T (A \<union> B) v v''"
  unfolding marks_def
proof (intro conjI ballI)
  fix x
  assume x: "x \<in> marked v'' - marked v"
  have "marked v' \<subseteq> marked v''" using assms(2) by (simp add: marks_def)
  then show "x \<in> (link_edges T)\<^sup>* `` (A \<union> B)" and "set (linked T x) \<subseteq> marked v''"
    using assms x unfolding marks_def by (cases "x \<in> marked v'"; blast)+
qed (use assms in \<open>auto simp: marks_def\<close>)

lemma helper_marks:
  shows "graph_tables_ok T \<Longrightarrow> length v = gt_extensions_max T \<Longrightarrow> valid_type T ot \<Longrightarrow>
      card (unmarked v) < fuel \<Longrightarrow>
      \<exists>v'. helper_check_graph_connected T fuel ot v = Some (Inr v') \<and> marks T {ot} v v'"
    and "graph_tables_ok T \<Longrightarrow> length v = gt_extensions_max T \<Longrightarrow> list_all (valid_type T) ts \<Longrightarrow>
      card (unmarked v) < fuel \<Longrightarrow>
      \<exists>v'. helper_all T fuel ts v = Some (Inr v') \<and> marks T (set ts) v v'"
proof (induction T fuel ot v and T fuel ts v
    rule: helper_check_graph_connected_helper_all.induct)
  case (1 T ot v)
  then show ?case by simp
next
  case (2 T fuel ot v)
  have lt: "ot < length v" using 2(3,4) by (simp add: valid_type_def)
  show ?case
  proof (cases "v ! ot = ot")
    case True
    then show ?thesis using lt by (auto simp: marks_def marked_def)
  next
    case False
    from 2(2,4) obtain oi where oi: "info_at T ot = Some oi"
        "list_all (valid_type T) (connected_types oi)" "connected_types oi = linked T ot"
      by (rule valid_type_info)
    have "ot \<in> unmarked v" using lt False by (simp add: unmarked_def)
    then have "card (unmarked (v[ot := ot])) < card (unmarked v)"
      unfolding unmarked_update [OF lt] by (intro psubset_card_mono) auto
    then have "card (unmarked (v[ot := ot])) < fuel" using 2(5) by simp
    then obtain v' where v': "helper_all T fuel (connected_types oi) (v[ot := ot]) = Some (Inr v')"
        "marks T (set (linked T ot)) (v[ot := ot]) v'"
      using 2(1) [OF _ False oi(1)] 2(2,3) lt oi by (auto simp: not_le)
    have down: "(link_edges T)\<^sup>* `` set (linked T ot) \<subseteq> (link_edges T)\<^sup>* `` {ot}"
      by (auto simp: linked_edges intro: converse_rtrancl_into_rtrancl)
    have "x \<in> (link_edges T)\<^sup>* `` {ot} \<and> set (linked T x) \<subseteq> marked v'"
      if "x \<in> marked v' - marked v" for x
      using v'(2) down that unfolding marks_def marked_update [OF lt] by (cases "x = ot"; blast)
    then have "marks T {ot} v v'"
      using v'(2) unfolding marks_def marked_update [OF lt] by simp
    then show ?thesis using v'(1) lt False oi(1) by simp
  qed
next
  case (3 T fuel v)
  then show ?case by (simp add: marks_def)
next
  case (4 T fuel t ts v)
  then obtain v1 where v1: "helper_check_graph_connected T fuel t v = Some (Inr v1)"
      "marks T {t} v v1" by auto
  then have len: "length v1 = length v" and "unmarked v1 \<subseteq> unmarked v"
    using unmarked_mono by (auto simp: marks_def)
  then have "card (unmarked v1) < fuel"
    using 4(6) card_mono [of "unmarked v" "unmarked v1"] by simp
  then obtain v2 where "helper_all T fuel ts v1 = Some (Inr v2)" and m2: "marks T (set ts) v1 v2"
    using 4(2) [OF v1(1) refl] 4(3-5) len by auto
  then show ?case
    using v1 marks_trans [OF v1(2) m2] by simp
qed

text \<open>What is marked in the end, beside the index 0 of the cleared array, is what is reachable.\<close>

definition reachable_types :: "graph_tables \<Rightarrow> nat set" where
  "reachable_types T = (link_edges T)\<^sup>* `` {type_port T}"

lemma helper_reaches:
  assumes "graph_tables_ok T" and "gt_extensions_max T \<le> fuel"
  shows "\<exists>v. helper_check_graph_connected T fuel (type_port T) (replicate (gt_extensions_max T) 0)
      = Some (Inr v) \<and> length v = gt_extensions_max T \<and> marked v = insert 0 (reachable_types T)"
proof -
  let ?v = "replicate (gt_extensions_max T) 0"
  have port: "valid_type T (type_port T)" using assms(1) by (simp add: graph_tables_ok_def)
  then have zero: "marked ?v = {0}" by (auto simp: marked_def valid_type_def)
  have "unmarked ?v = {1..<gt_extensions_max T}" by (auto simp: unmarked_def)
  then have "card (unmarked ?v) = gt_extensions_max T - 1" by simp
  then have "card (unmarked ?v) < fuel" using assms(2) port unfolding valid_type_def by linarith
  then obtain v where v: "helper_check_graph_connected T fuel (type_port T) ?v = Some (Inr v)"
      "marks T {type_port T} ?v v"
    using helper_marks(1) [OF assms(1) _ port, of ?v fuel] by auto
  have reach: "x \<in> marked v \<and> valid_type T x" if "(type_port T, x) \<in> (link_edges T)\<^sup>*" for x
    using that
  proof (induction rule: rtrancl_induct)
    case base
    then show ?case using v(2) port by (simp add: marks_def)
  next
    case (step x y)
    then have "set (linked T x) \<subseteq> marked v"
      using v(2) zero by (auto simp: marks_def valid_type_def)
    then show ?case
      using step linked_valid [OF assms(1)] by (auto simp: linked_edges [symmetric])
  qed
  have "marked v = insert 0 (reachable_types T)"
  proof (intro subset_antisym subsetI)
    fix x
    assume "x \<in> marked v"
    then show "x \<in> insert 0 (reachable_types T)"
      using v(2) zero unfolding marks_def reachable_types_def by blast
  next
    fix x
    assume "x \<in> insert 0 (reachable_types T)"
    then show "x \<in> marked v"
      using v(2) zero reach [of x] unfolding marks_def reachable_types_def by blast
  qed
  then show ?thesis using v by (auto simp: marks_def)
qed

lemma all_connected_spec:
  "list_all (\<lambda>i. \<exists>ok. type_connected T v i = Inr ok) is \<Longrightarrow>
   all_connected T v is = Inr () \<longleftrightarrow> list_all (\<lambda>i. type_connected T v i = Inr True) is"
proof (induction T v "is" rule: all_connected.induct)
  case (2 T v i "is")
  then obtain ok where "type_connected T v i = Inr ok" by auto
  then show ?case using 2 by simp
qed simp

definition type_excepted :: "graph_tables \<Rightarrow> nat \<Rightarrow> bool" where
  "type_excepted T t \<longleftrightarrow> t = type_debug_counter T
     \<or> (\<exists>i. info_at T t = Some i \<and> gi_isexperimental i)"

lemma check_graph_connected_reachable:
  assumes "graph_tables_ok T" and "gt_extensions_max T \<le> fuel"
  shows "\<exists>r. check_graph_connected fuel T = Some r
    \<and> (r = Inr () \<longleftrightarrow> (\<forall>t. valid_type T t \<longrightarrow> t \<in> reachable_types T \<or> type_excepted T t))"
proof -
  obtain v where v: "helper_check_graph_connected T fuel (type_port T)
        (replicate (gt_extensions_max T) 0) = Some (Inr v)"
      "length v = gt_extensions_max T" "marked v = insert 0 (reachable_types T)"
    using helper_reaches [OF assms] by blast
  have conn: "type_connected T v t = Inr (t = 0 \<or> t \<in> reachable_types T \<or> type_excepted T t)"
    if t: "t < gt_extensions_max T" for t
  proof (cases "t \<in> marked v")
    case True
    then have "v ! t = t" by (simp add: marked_def)
    moreover have "t = 0 \<or> t \<in> reachable_types T" using True unfolding v(3) by blast
    ultimately show ?thesis by (auto simp: type_connected_def)
  next
    case False
    have miss: "v ! t \<noteq> t" using False t v(2) by (simp add: marked_def)
    have away: "t \<noteq> 0" "t \<notin> reachable_types T" using False unfolding v(3) by simp_all
    then have "valid_type T t" using t by (simp add: valid_type_def)
    from assms(1) this(1) obtain i where "info_at T t = Some i" by (rule valid_type_info)
    then show ?thesis using miss away by (auto simp: type_connected_def type_excepted_def)
  qed
  have "all_connected T v [0..<gt_extensions_max T] = Inr ()
      \<longleftrightarrow> list_all (\<lambda>i. type_connected T v i = Inr True) [0..<gt_extensions_max T]"
    by (rule all_connected_spec) (auto simp: list_all_iff conn)
  also have "\<dots> \<longleftrightarrow> (\<forall>i < gt_extensions_max T. i = 0 \<or> i \<in> reachable_types T \<or> type_excepted T i)"
    using conn by (simp add: list_all_length)
  also have "\<dots> \<longleftrightarrow> (\<forall>t. valid_type T t \<longrightarrow> t \<in> reachable_types T \<or> type_excepted T t)"
    by (auto simp: valid_type_def)
  finally show ?thesis using v(1) by (simp add: check_graph_connected_def)
qed

end
