(* ===== verification/GraphProperties.thy ===== *)
theory GraphProperties
  imports SaiGraphFacts
begin

text \<open>The two checks of the object type graph, as properties with a small graph as witness.\<close>

text \<open>C13. For well-formed tables whose lookup knows attribute 0 and the listed attributes of every object
  type, \<^verbatim>\<open>check_objects_for_loops\<close> finishes when the graph of the settable attributes and struct members
  that hold object ids has no cycle (the attributes excepted by name and read-only ones do not
  count), and when it has one it stops at its assertion that a loop was detected. In neither case
  are its arrays of one entry per object type left.\<close>

theorem loops_checked_exactly:
  assumes "graph_tables_ok T" and "reports_ok T"
  shows "check_objects_for_loops T = (if acyclic (type_edges T) then Inr () else Inl AssertFailed)"
  by (rule check_objects_for_loops_result [OF assms])

definition sample_oid_attr :: "nat \<Rightarrow> u32 \<Rightarrow> nat list \<Rightarrow> graph_attr" where
  "sample_oid_attr ot i types = \<lparr>ga_objecttype = ot, ga_attrid = i, ga_flags = 4,
     ga_holds_objects = True, ga_allowedobjecttypes = types, ga_isoidattribute = True,
     ga_iscreateonly = False, ga_iscreateandset = True\<rparr>"

definition sample_info :: "nat \<Rightarrow> nat list \<Rightarrow> graph_info option" where
  "sample_info ot types = Some \<lparr>gi_objecttype = ot, gi_attrmetadata = [sample_oid_attr ot 0 types],
     gi_isnonobjectid = False, gi_structmembers = [], gi_depobjecttypes = [], gi_isexperimental = False\<rparr>"

definition sample_md :: "nat \<Rightarrow> sai_attr_metadata" where
  "sample_md ot = \<lparr>md_objecttype = ot, md_attrid = 0, md_attridname = ''SAI_SAMPLE_ATTR'',
     md_attrvaluetype = TypeOther 20, md_allowedobjecttypes = None,
     md_defaultvalue = None, md_enummetadata = None,
     md_conditiontype = ConditionNone, md_conditions = [], md_isconditional = False\<rparr>"

definition sample_type :: "nat \<Rightarrow> sai_object_type_info" where
  "sample_type ot = \<lparr>oi_objecttype = ot, oi_enummetadata = \<lparr>enum_name = ''sample'',
     enum_entries = [(0, ''SAI_SAMPLE_ATTR'')], enum_containsflags = False\<rparr>, oi_isobjectid = True\<rparr>"

definition sample_lookup :: sai_metadata where
  "sample_lookup = \<lparr>attr_by_object_type = [[], [sample_md 1], [sample_md 2], [sample_md 3]],
     all_object_type_infos = [sample_type 0, sample_type 1, sample_type 2, sample_type 3],
     attr_sorted_by_id_name = [], extensions_max = 4\<rparr>"

text \<open>Three types; \<open>to\<close> are the types the third one leads to.\<close>

definition sample_graph :: "nat list \<Rightarrow> graph_tables" where
  "sample_graph to = \<lparr>infos = [None, sample_info 1 [2, 3], sample_info 2 [3], sample_info 3 to, None],
     lookup_tables = sample_lookup, gt_extensions_max = 4, type_port = 1, type_scheduler_group = 9,
     type_debug_counter = 9, port_egress_mirror_session = 7, port_ingress_mirror_session = 8,
     port_egress_block_port_list = 9, scheduler_group_parent_node = 5\<rparr>"

lemmas sample_graph_simps = sample_graph_def sample_info_def sample_oid_attr_def info_at_def
  leads_to_def links_to_def attr_counts_def targets_def valid_type_def

lemma sample_graph_ok: "graph_tables_ok (sample_graph [])" "graph_tables_ok (sample_graph [1])"
  by (simp_all add: graph_tables_ok_def info_ok_def sample_graph_simps upt_rec numeral_eq_Suc)

lemma sample_reports_ok: "reports_ok (sample_graph to)"
  by (simp add: reports_ok_def attr_known_def sample_graph_simps sample_lookup_def sample_type_def
      sai_metadata_get_attr_metadata_def sai_metadata_is_object_type_valid_def
      SAI_OBJECT_TYPE_NULL_def)

lemma sample_edges:
  "(1, 3) \<in> type_edges (sample_graph [1])" "(3, 1) \<in> type_edges (sample_graph [1])"
  by (simp_all add: type_edges_def sample_graph_simps)

theorem loops_checked_exactly_witness:
  "check_objects_for_loops (sample_graph [1]) = Inl AssertFailed"
proof -
  have "(1, 1) \<in> (type_edges (sample_graph [1]))\<^sup>+"
    using sample_edges by (meson r_into_trancl trancl_into_trancl)
  then have "\<not> acyclic (type_edges (sample_graph [1]))" by (auto simp: acyclic_def)
  then show ?thesis using loops_checked_exactly [OF sample_graph_ok(2) sample_reports_ok] by simp
qed

text \<open>C14. For well-formed tables, \<^verbatim>\<open>check_graph_connected\<close> returns (recursion depth up to the number of
  types is enough), and it finishes without an assertion exactly when every object type can be
  reached from the port type along attributes that can be set, struct members and the reverse
  references, or is experimental or the debug counter.\<close>

theorem connected_checked_exactly:
  assumes "graph_tables_ok T" and "gt_extensions_max T \<le> fuel"
  shows "\<exists>r. check_graph_connected fuel T = Some r
    \<and> (r = Inr () \<longleftrightarrow> (\<forall>t. valid_type T t \<longrightarrow> t \<in> reachable_types T \<or> type_excepted T t))"
  by (rule check_graph_connected_reachable [OF assms])

lemma sample_links:
  "(1, 2) \<in> link_edges (sample_graph [])" "(1, 3) \<in> link_edges (sample_graph [])"
  by (simp_all add: link_edges_def sample_graph_simps)

theorem connected_checked_exactly_witness:
  "check_graph_connected 4 (sample_graph []) = Some (Inr ())"
proof -
  have "t \<in> reachable_types (sample_graph [])" if "valid_type (sample_graph []) t" for t
  proof -
    have "t = 1 \<or> t = 2 \<or> t = 3" using that by (auto simp: valid_type_def sample_graph_def)
    then show ?thesis using sample_links by (auto simp: reachable_types_def sample_graph_def)
  qed
  then show ?thesis
    using connected_checked_exactly [OF sample_graph_ok(1), of 4] by (auto simp: sample_graph_def)
qed

end
