(* ===== verification/StubL3.thy ===== *)
theory StubL3
  imports StubNextHopGroup StubVlan
begin

text \<open>
  The stub's objects that are only counted: virtual routers (\<^verbatim>\<open>stub_sai_router.c\<close>), next hops
  (\<^verbatim>\<open>stub_sai_nexthop.c\<close>), router interfaces (\<^verbatim>\<open>stub_sai_rif.c\<close>) and host interfaces
  (\<^verbatim>\<open>stub_sai_host_interface.c\<close>). The state of each is its static counter \<^verbatim>\<open>next_id\<close>; getters answer
  with constants. Attribute ids, and the enumerators that the headers of the repository do not
  have under these names, are parameters. The argument \<open>arg\<close> of a getter or setter is the attribute id
  its table entry passes.
\<close>

section \<open>Shared\<close>

definition SAI_OBJECT_TYPE_VIRTUAL_ROUTER :: nat where "SAI_OBJECT_TYPE_VIRTUAL_ROUTER = 3"
definition SAI_OBJECT_TYPE_ROUTER_INTERFACE :: nat where "SAI_OBJECT_TYPE_ROUTER_INTERFACE = 6"
definition SAI_ROUTER_INTERFACE_TYPE_PORT :: int where "SAI_ROUTER_INTERFACE_TYPE_PORT = 0"
definition SAI_ROUTER_INTERFACE_TYPE_VLAN :: int where "SAI_ROUTER_INTERFACE_TYPE_VLAN = 1"
definition SAI_PACKET_ACTION_DROP :: u32 where "SAI_PACKET_ACTION_DROP = 0"
definition SAI_PACKET_ACTION_FORWARD :: u32 where "SAI_PACKET_ACTION_FORWARD = 1"
definition SAI_PACKET_ACTION_TRAP :: u32 where "SAI_PACKET_ACTION_TRAP = 4"

definition put_u8 :: "u8 \<Rightarrow> sai_attribute_value \<Rightarrow> sai_attribute_value" where
  "put_u8 x v = v\<lparr>val_word := (val_word v AND NOT (Bit_Operations.mask 8)) OR ucast x\<rparr>"

definition put_bool :: "bool \<Rightarrow> sai_attribute_value \<Rightarrow> sai_attribute_value" where
  "put_bool b v = put_u8 (if b then 1 else 0) v"

text \<open>The flags of the vendor tables are the same for implemented and supported operations.\<close>

definition attr_entry ::
  "u32 \<Rightarrow> bool \<Rightarrow> bool \<Rightarrow> bool \<Rightarrow> bool \<Rightarrow> string \<Rightarrow> sai_attribute_value_type \<Rightarrow> sai_attribute_entry" where
  "attr_entry i mand for_create for_set for_get name type =
     \<lparr>ae_id = i, mandatory_on_create = mand, valid_for_create = for_create, valid_for_set = for_set,
      valid_for_get = for_get, attrib_name = name, ae_type = type\<rparr>"

definition vendor_entry where
  "vendor_entry i on_create on_remove on_set on_get getter setter =
     \<lparr>ve_id = i, is_implemented = oper_flags on_create on_remove on_set on_get,
      is_supported = oper_flags on_create on_remove on_set on_get, ve_getter = getter, ve_setter = setter\<rparr>"

text \<open>A getter or setter that first tests the type of the object id.\<close>

definition get_checked ::
  "nat \<Rightarrow> u64 \<Rightarrow> sai_attribute_value \<Rightarrow> (sai_attribute_value \<Rightarrow> sai_attribute_value)
     \<Rightarrow> (sai_status \<times> sai_attribute_value) checked" where
  "get_checked type key val f =
     (case stub_object_to_type key type of
        Inl status \<Rightarrow> Inr (status, val)
      | Inr data \<Rightarrow> Inr (SAI_STATUS_SUCCESS, f val))"

definition set_checked :: "nat \<Rightarrow> u64 \<Rightarrow> 's \<Rightarrow> (sai_status \<times> 's) checked" where
  "set_checked type key db =
     (case stub_object_to_type key type of
        Inl status \<Rightarrow> Inr (status, db)
      | Inr data \<Rightarrow> Inr (SAI_STATUS_SUCCESS, db))"

text \<open>\<^verbatim>\<open>value->oid = ...\<close> through \<open>stub_create_object\<close>.\<close>

definition get_object ::
  "nat \<Rightarrow> u32 \<Rightarrow> sai_attribute_value \<Rightarrow> (sai_status \<times> sai_attribute_value) checked" where
  "get_object type data val =
     (case stub_create_object type data of
        Inl status \<Rightarrow> Inr (status, val)
      | Inr oid \<Rightarrow> Inr (SAI_STATUS_SUCCESS, put_u64 oid val))"

text \<open>\<^verbatim>\<open>stub_create_object(type, next_id++, ...)\<close>.\<close>

definition create_next :: "nat \<Rightarrow> u32 \<Rightarrow> (sai_status + u64) \<times> u32" where
  "create_next type next_id = (stub_create_object type next_id, next_id + 1)"

section \<open>Virtual routers\<close>

record router_attr_ids =
  id_admin_v4_state :: u32
  id_admin_v6_state :: u32
  id_router_mac :: u32
  id_violation_ttl1 :: u32
  id_violation_ip_options :: u32

definition router_attribs :: "router_attr_ids \<Rightarrow> sai_attribute_entry list" where
  "router_attribs ids =
     [attr_entry (id_admin_v4_state ids) False True True True ''Router admin V4 state'' ValBool,
      attr_entry (id_admin_v6_state ids) False True True True ''Router admin V6 state'' ValBool,
      attr_entry (id_router_mac ids) False True True True ''Router source MAC address'' ValMac,
      attr_entry (id_violation_ttl1 ids) False True True True ''Router action for TTL0/1'' ValS32,
      attr_entry (id_violation_ip_options ids) False True True True ''Router action for IP options'' ValS32]"

definition stub_router_admin_get where
  "stub_router_admin_get ids arg key val (attr_index :: nat) (db :: u32) =
     (if arg \<noteq> id_admin_v4_state ids \<and> arg \<noteq> id_admin_v6_state ids then Inl AssertFailed
      else get_checked SAI_OBJECT_TYPE_VIRTUAL_ROUTER key val (put_bool True))"

definition stub_router_admin_set where
  "stub_router_admin_set ids arg key (val :: sai_attribute_value) (db :: u32) =
     (if arg \<noteq> id_admin_v4_state ids \<and> arg \<noteq> id_admin_v6_state ids then Inl AssertFailed
      else set_checked SAI_OBJECT_TYPE_PORT key db)"

definition stub_router_mac_get where
  "stub_router_mac_get key val (attr_index :: nat) (db :: u32) =
     get_checked SAI_OBJECT_TYPE_VIRTUAL_ROUTER key val (\<lambda>v. v)"

definition stub_router_mac_set where
  "stub_router_mac_set key (val :: sai_attribute_value) (db :: u32) =
     set_checked SAI_OBJECT_TYPE_PORT key db"

definition stub_router_violation_get where
  "stub_router_violation_get ids arg key val (attr_index :: nat) (db :: u32) =
     (if arg \<noteq> id_violation_ip_options ids \<and> arg \<noteq> id_violation_ttl1 ids then Inl AssertFailed
      else get_checked SAI_OBJECT_TYPE_VIRTUAL_ROUTER key val (put_u32 SAI_PACKET_ACTION_TRAP))"

definition stub_router_violation_set where
  "stub_router_violation_set ids arg key (val :: sai_attribute_value) (db :: u32) =
     (if arg \<noteq> id_violation_ip_options ids \<and> arg \<noteq> id_violation_ttl1 ids then Inl AssertFailed
      else set_checked SAI_OBJECT_TYPE_PORT key db)"

definition router_vendor_attribs :: "router_attr_ids \<Rightarrow> (u64, u32) sai_vendor_attribute_entry list" where
  "router_vendor_attribs ids =
     [vendor_entry (id_admin_v4_state ids) True False True True
        (Some (stub_router_admin_get ids (id_admin_v4_state ids)))
        (Some (stub_router_admin_set ids (id_admin_v4_state ids))),
      vendor_entry (id_admin_v6_state ids) True False True True
        (Some (stub_router_admin_get ids (id_admin_v6_state ids)))
        (Some (stub_router_admin_set ids (id_admin_v6_state ids))),
      vendor_entry (id_router_mac ids) False False True True
        (Some stub_router_mac_get) (Some stub_router_mac_set),
      vendor_entry (id_violation_ttl1 ids) False False True True
        (Some (stub_router_violation_get ids (id_violation_ttl1 ids)))
        (Some (stub_router_violation_set ids (id_violation_ttl1 ids))),
      vendor_entry (id_violation_ip_options ids) False False True True
        (Some (stub_router_violation_get ids (id_violation_ip_options ids)))
        (Some (stub_router_violation_set ids (id_violation_ip_options ids)))]"

definition stub_create_virtual_router ::
  "router_attr_ids \<Rightarrow> bool \<Rightarrow> nat \<Rightarrow> sai_attribute list option \<Rightarrow> u32 \<Rightarrow> (sai_status + u64) \<times> u32" where
  "stub_create_virtual_router ids calloc_ok attr_count attr_list next_id =
     (let status = check_attribs_metadata calloc_ok attr_count attr_list
            (Some (router_attribs ids)) (Some (router_vendor_attribs ids)) OpCreate in
      if status \<noteq> SAI_STATUS_SUCCESS then (Inl status, next_id)
      else create_next SAI_OBJECT_TYPE_VIRTUAL_ROUTER next_id)"

definition stub_remove_virtual_router :: "u64 \<Rightarrow> sai_status" where
  "stub_remove_virtual_router vr_id =
     (case stub_object_to_type vr_id SAI_OBJECT_TYPE_VIRTUAL_ROUTER of
        Inl status \<Rightarrow> status | Inr data \<Rightarrow> SAI_STATUS_SUCCESS)"

definition stub_set_virtual_router_attribute where
  "stub_set_virtual_router_attribute ids calloc_ok vr_id attr db =
     sai_set_attribute calloc_ok vr_id (Some (router_attribs ids)) (Some (router_vendor_attribs ids)) attr db"

definition stub_get_virtual_router_attribute where
  "stub_get_virtual_router_attribute ids calloc_ok vr_id attr_count attr_list db =
     sai_get_attributes calloc_ok vr_id (Some (router_attribs ids)) (Some (router_vendor_attribs ids))
       attr_count attr_list db"

section \<open>Next hops\<close>

record next_hop_attr_ids =
  id_hop_type :: u32
  id_hop_ip :: u32
  id_hop_rif :: u32
  SAI_NEXT_HOP_IP :: u32

definition next_hop_attribs :: "next_hop_attr_ids \<Rightarrow> sai_attribute_entry list" where
  "next_hop_attribs ids =
     [attr_entry (id_hop_type ids) True True False True ''Next hop entry type'' ValS32,
      attr_entry (id_hop_ip ids) True True False True ''Next hop entry IP address'' ValIpaddr,
      attr_entry (id_hop_rif ids) True True False True ''Next hop entry router interface ID'' ValOid]"

definition stub_next_hop_type_get where
  "stub_next_hop_type_get ids (key :: u64) val (attr_index :: nat) (db :: u32) =
     (Inr (SAI_STATUS_SUCCESS, put_u32 (SAI_NEXT_HOP_IP ids) val)
        :: (sai_status \<times> sai_attribute_value) checked)"

definition stub_next_hop_ip_get where
  "stub_next_hop_ip_get key val (attr_index :: nat) (db :: u32) =
     get_checked SAI_OBJECT_TYPE_NEXT_HOP key val (\<lambda>v. v\<lparr>val_ipaddr := IpV4 0\<rparr>)"

definition stub_next_hop_rif_get where
  "stub_next_hop_rif_get key val (attr_index :: nat) (db :: u32) =
     (case stub_object_to_type key SAI_OBJECT_TYPE_NEXT_HOP of
        Inl status \<Rightarrow> Inr (status, val)
      | Inr data \<Rightarrow> get_object SAI_OBJECT_TYPE_ROUTER_INTERFACE 0 val)"

definition next_hop_vendor_attribs :: "next_hop_attr_ids \<Rightarrow> (u64, u32) sai_vendor_attribute_entry list" where
  "next_hop_vendor_attribs ids =
     [vendor_entry (id_hop_type ids) True False False True (Some (stub_next_hop_type_get ids)) None,
      vendor_entry (id_hop_ip ids) True False False True (Some stub_next_hop_ip_get) None,
      vendor_entry (id_hop_rif ids) True False False True (Some stub_next_hop_rif_get) None]"

fun addr_family_known :: "sai_ip_address \<Rightarrow> bool" where
  "addr_family_known (IpV4 a) = True"
| "addr_family_known (IpV6 a) = True"
| "addr_family_known (IpFamily f) = False"

definition stub_create_next_hop ::
  "next_hop_attr_ids \<Rightarrow> bool \<Rightarrow> nat \<Rightarrow> sai_attribute list option \<Rightarrow> u32
     \<Rightarrow> ((sai_status + u64) \<times> u32) checked" where
  "stub_create_next_hop ids calloc_ok attr_count attr_list next_id =
     (let status = check_attribs_metadata calloc_ok attr_count attr_list
            (Some (next_hop_attribs ids)) (Some (next_hop_vendor_attribs ids)) OpCreate in
      if status \<noteq> SAI_STATUS_SUCCESS then Inr (Inl status, next_id)
      else case (find_attrib_in_list attr_count attr_list (id_hop_type ids),
                 find_attrib_in_list attr_count attr_list (id_hop_ip ids),
                 find_attrib_in_list attr_count attr_list (id_hop_rif ids)) of
        (Inr (type, type_index), Inr (ip, ip_index), Inr (rif, rif_index)) \<Rightarrow>
          if s32 type \<noteq> sint (SAI_NEXT_HOP_IP ids)
          then Inr (Inl (SAI_STATUS_INVALID_ATTR_VALUE_0 + int type_index), next_id)
          else if \<not> addr_family_known (val_ipaddr ip)
          then Inr (Inl (SAI_STATUS_INVALID_ATTR_VALUE_0 + int ip_index), next_id)
          else Inr (create_next SAI_OBJECT_TYPE_NEXT_HOP next_id)
      | _ \<Rightarrow> Inl AssertFailed)"

definition stub_remove_next_hop :: "u64 \<Rightarrow> sai_status" where
  "stub_remove_next_hop next_hop_id = SAI_STATUS_SUCCESS"

definition stub_set_next_hop_attribute where
  "stub_set_next_hop_attribute ids calloc_ok next_hop_id attr db =
     sai_set_attribute calloc_ok next_hop_id (Some (next_hop_attribs ids)) (Some (next_hop_vendor_attribs ids))
       attr db"

definition stub_get_next_hop_attribute where
  "stub_get_next_hop_attribute ids calloc_ok next_hop_id attr_count attr_list db =
     sai_get_attributes calloc_ok next_hop_id (Some (next_hop_attribs ids))
       (Some (next_hop_vendor_attribs ids)) attr_count attr_list db"

section \<open>Router interfaces\<close>

record rif_attr_ids =
  id_rif_router :: u32
  id_rif_type :: u32
  id_rif_port :: u32
  id_rif_vlan :: u32
  id_rif_mac :: u32
  id_rif_admin_v4 :: u32
  id_rif_admin_v6 :: u32
  id_rif_mtu :: u32

definition rif_attribs :: "rif_attr_ids \<Rightarrow> sai_attribute_entry list" where
  "rif_attribs ids =
     [attr_entry (id_rif_router ids) True True False True ''Router interface virtual router ID'' ValOid,
      attr_entry (id_rif_type ids) True True False True ''Router interface type'' ValS32,
      attr_entry (id_rif_port ids) False True False True ''Router interface port ID'' ValOid,
      attr_entry (id_rif_vlan ids) False True False True ''Router interface vlan ID'' ValU16,
      attr_entry (id_rif_mac ids) False True True True ''Router interface source MAC address'' ValMac,
      attr_entry (id_rif_admin_v4 ids) False True True True ''Router interface admin v4 state'' ValBool,
      attr_entry (id_rif_admin_v6 ids) False True True True ''Router interface admin v6 state'' ValBool,
      attr_entry (id_rif_mtu ids) False True True True ''Router interface mtu'' ValU32]"

definition stub_rif_attrib_set where
  "stub_rif_attrib_set ids arg key (val :: sai_attribute_value) (db :: u32) =
     (if arg \<noteq> id_rif_mtu ids \<and> arg \<noteq> id_rif_mac ids then Inl AssertFailed
      else set_checked SAI_OBJECT_TYPE_ROUTER_INTERFACE key db)"

definition stub_rif_admin_set where
  "stub_rif_admin_set ids arg key (val :: sai_attribute_value) (db :: u32) =
     (if arg \<noteq> id_rif_admin_v4 ids \<and> arg \<noteq> id_rif_admin_v6 ids then Inl AssertFailed
      else set_checked SAI_OBJECT_TYPE_ROUTER_INTERFACE key db)"

definition stub_rif_attrib_get where
  "stub_rif_attrib_get ids arg key val (attr_index :: nat) (db :: u32) =
     (if arg \<notin> {id_rif_router ids, id_rif_type ids, id_rif_port ids, id_rif_vlan ids, id_rif_mac ids,
          id_rif_mtu ids} then Inl AssertFailed
      else case stub_object_to_type key SAI_OBJECT_TYPE_ROUTER_INTERFACE of
        Inl status \<Rightarrow> Inr (status, val)
      | Inr data \<Rightarrow>
          if arg = id_rif_port ids then get_object SAI_OBJECT_TYPE_PORT 0 val
          else if arg = id_rif_vlan ids then Inr (SAI_STATUS_SUCCESS, put_u16 1 val)
          else if arg = id_rif_mtu ids then Inr (SAI_STATUS_SUCCESS, put_u32 1514 val)
          else if arg = id_rif_mac ids then Inr (SAI_STATUS_SUCCESS, val)
          else if arg = id_rif_type ids
          then Inr (SAI_STATUS_SUCCESS, put_u32 (word_of_int SAI_ROUTER_INTERFACE_TYPE_PORT) val)
          else get_object SAI_OBJECT_TYPE_VIRTUAL_ROUTER 0 val)"

definition stub_rif_admin_get where
  "stub_rif_admin_get ids arg key val (attr_index :: nat) (db :: u32) =
     (if arg \<noteq> id_rif_admin_v4 ids \<and> arg \<noteq> id_rif_admin_v6 ids then Inl AssertFailed
      else get_checked SAI_OBJECT_TYPE_ROUTER_INTERFACE key val (put_bool True))"

definition rif_vendor_attribs :: "rif_attr_ids \<Rightarrow> (u64, u32) sai_vendor_attribute_entry list" where
  "rif_vendor_attribs ids =
     [vendor_entry (id_rif_router ids) True False False True
        (Some (stub_rif_attrib_get ids (id_rif_router ids))) None,
      vendor_entry (id_rif_type ids) True False False True
        (Some (stub_rif_attrib_get ids (id_rif_type ids))) None,
      vendor_entry (id_rif_port ids) True False False True
        (Some (stub_rif_attrib_get ids (id_rif_port ids))) None,
      vendor_entry (id_rif_vlan ids) True False False True
        (Some (stub_rif_attrib_get ids (id_rif_vlan ids))) None,
      vendor_entry (id_rif_mac ids) True False True True
        (Some (stub_rif_attrib_get ids (id_rif_mac ids)))
        (Some (stub_rif_attrib_set ids (id_rif_mac ids))),
      vendor_entry (id_rif_admin_v4 ids) True False True True
        (Some (stub_rif_admin_get ids (id_rif_admin_v4 ids)))
        (Some (stub_rif_admin_set ids (id_rif_admin_v4 ids))),
      vendor_entry (id_rif_admin_v6 ids) True False True True
        (Some (stub_rif_admin_get ids (id_rif_admin_v6 ids)))
        (Some (stub_rif_admin_set ids (id_rif_admin_v6 ids))),
      vendor_entry (id_rif_mtu ids) True False True True
        (Some (stub_rif_attrib_get ids (id_rif_mtu ids)))
        (Some (stub_rif_attrib_set ids (id_rif_mtu ids)))]"

text \<open>
  The tests after the attribute check: \<open>Inl\<close> an assert, \<open>Inr (Some status)\<close> a refusal. The last
  status of a lookup that should not find anything is compared with \<^verbatim>\<open>SAI_STATUS_ITEM_NOT_FOUND\<close>; the
  index it then adds is the one the lookup stored.
\<close>

definition rif_refusal :: "rif_attr_ids \<Rightarrow> nat \<Rightarrow> sai_attribute list option \<Rightarrow> sai_status option checked" where
  "rif_refusal ids attr_count attr_list =
     (case (find_attrib_in_list attr_count attr_list (id_rif_type ids),
            find_attrib_in_list attr_count attr_list (id_rif_router ids)) of
        (Inr (type, type_index), Inr (vrid, vrid_index)) \<Rightarrow>
          (case stub_object_to_type (val_u64 vrid) SAI_OBJECT_TYPE_VIRTUAL_ROUTER of
             Inl status \<Rightarrow> Inr (Some status)
           | Inr vrid_data \<Rightarrow>
               let port = find_attrib_in_list attr_count attr_list (id_rif_port ids);
                   vlan = find_attrib_in_list attr_count attr_list (id_rif_vlan ids) in
               if s32 type = SAI_ROUTER_INTERFACE_TYPE_VLAN then
                 (case (vlan, port) of
                    (Inl status, _) \<Rightarrow> Inr (Some SAI_STATUS_MANDATORY_ATTRIBUTE_MISSING)
                  | (Inr _, Inl status) \<Rightarrow>
                      if status \<noteq> SAI_STATUS_ITEM_NOT_FOUND then Inl Uninitialised else Inr None
                  | (Inr _, Inr (_, port_index)) \<Rightarrow>
                      Inr (Some (SAI_STATUS_INVALID_ATTRIBUTE_0 + int port_index)))
               else if s32 type = SAI_ROUTER_INTERFACE_TYPE_PORT then
                 (case port of
                    Inl status \<Rightarrow> Inr (Some SAI_STATUS_MANDATORY_ATTRIBUTE_MISSING)
                  | Inr (port_value, port_index) \<Rightarrow>
                      (case stub_object_to_type (val_u64 port_value) SAI_OBJECT_TYPE_PORT of
                         Inl status \<Rightarrow> Inr (Some status)
                       | Inr port_data \<Rightarrow>
                           (case vlan of
                              Inl status \<Rightarrow>
                                if status \<noteq> SAI_STATUS_ITEM_NOT_FOUND then Inl Uninitialised
                                else Inr None
                            | Inr (_, vlan_index) \<Rightarrow>
                                Inr (Some (SAI_STATUS_INVALID_ATTRIBUTE_0 + int vlan_index)))))
               else Inr (Some (SAI_STATUS_INVALID_ATTR_VALUE_0 + int type_index)))
      | _ \<Rightarrow> Inl AssertFailed)"

definition stub_create_router_interface ::
  "rif_attr_ids \<Rightarrow> bool \<Rightarrow> nat \<Rightarrow> sai_attribute list option \<Rightarrow> u32
     \<Rightarrow> ((sai_status + u64) \<times> u32) checked" where
  "stub_create_router_interface ids calloc_ok attr_count attr_list next_id =
     (let status = check_attribs_metadata calloc_ok attr_count attr_list
            (Some (rif_attribs ids)) (Some (rif_vendor_attribs ids)) OpCreate in
      if status \<noteq> SAI_STATUS_SUCCESS then Inr (Inl status, next_id)
      else case rif_refusal ids attr_count attr_list of
        Inl e \<Rightarrow> Inl e
      | Inr (Some status) \<Rightarrow> Inr (Inl status, next_id)
      | Inr None \<Rightarrow> Inr (create_next SAI_OBJECT_TYPE_ROUTER_INTERFACE next_id))"

definition stub_remove_router_interface :: "u64 \<Rightarrow> sai_status" where
  "stub_remove_router_interface rif_id =
     (case stub_object_to_type rif_id SAI_OBJECT_TYPE_ROUTER_INTERFACE of
        Inl status \<Rightarrow> status | Inr data \<Rightarrow> SAI_STATUS_SUCCESS)"

definition stub_set_router_interface_attribute where
  "stub_set_router_interface_attribute ids calloc_ok rif_id attr db =
     sai_set_attribute calloc_ok rif_id (Some (rif_attribs ids)) (Some (rif_vendor_attribs ids)) attr db"

definition stub_get_router_interface_attribute where
  "stub_get_router_interface_attribute ids calloc_ok rif_id attr_count attr_list db =
     sai_get_attributes calloc_ok rif_id (Some (rif_attribs ids)) (Some (rif_vendor_attribs ids))
       attr_count attr_list db"

section \<open>Host interfaces\<close>

record hostif_attr_ids =
  id_hif_type :: u32
  id_hif_rif_or_port :: u32
  id_hif_name :: u32
  SAI_OBJECT_TYPE_HOST_INTERFACE :: nat

definition SAI_HOSTIF_TYPE_NETDEV :: int where "SAI_HOSTIF_TYPE_NETDEV = 0"
definition SAI_HOSTIF_TYPE_FD :: int where "SAI_HOSTIF_TYPE_FD = 1"

definition host_interface_attribs :: "hostif_attr_ids \<Rightarrow> sai_attribute_entry list" where
  "host_interface_attribs ids =
     [attr_entry (id_hif_type ids) True True False True ''Host interface type'' ValS32,
      attr_entry (id_hif_rif_or_port ids) False True False True
        ''Host interface associated port or router interface'' ValOid,
      attr_entry (id_hif_name ids) True True True True ''Host interface name'' ValChardata]"

definition stub_host_interface_type_get where
  "stub_host_interface_type_get (key :: u64) val (attr_index :: nat) (db :: u32) =
     (Inr (SAI_STATUS_SUCCESS, put_u32 (word_of_int SAI_HOSTIF_TYPE_NETDEV) val)
        :: (sai_status \<times> sai_attribute_value) checked)"

definition stub_host_interface_rif_port_get where
  "stub_host_interface_rif_port_get (key :: u64) val (attr_index :: nat) (db :: u32) =
     get_object SAI_OBJECT_TYPE_PORT 1 val"

definition stub_host_interface_name_get where
  "stub_host_interface_name_get ids key val (attr_index :: nat) (db :: u32) =
     get_checked (SAI_OBJECT_TYPE_HOST_INTERFACE ids) key val (\<lambda>v. v\<lparr>val_chardata := ''name''\<rparr>)"

definition stub_host_interface_name_set where
  "stub_host_interface_name_set ids key (val :: sai_attribute_value) (db :: u32) =
     set_checked (SAI_OBJECT_TYPE_HOST_INTERFACE ids) key db"

definition host_interface_vendor_attribs ::
  "hostif_attr_ids \<Rightarrow> (u64, u32) sai_vendor_attribute_entry list" where
  "host_interface_vendor_attribs ids =
     [vendor_entry (id_hif_type ids) True False False True (Some stub_host_interface_type_get) None,
      vendor_entry (id_hif_rif_or_port ids) True False False True
        (Some stub_host_interface_rif_port_get) None,
      vendor_entry (id_hif_name ids) True False True True
        (Some (stub_host_interface_name_get ids)) (Some (stub_host_interface_name_set ids))]"

text \<open>
  The creation of a network device runs \<^verbatim>\<open>ip link add\<close>; \<open>system_ret\<close> is what \<^verbatim>\<open>system\<close> returns. When it is
  not 0 the function returns success without writing the id: \<open>Inr None\<close>. The name of the object type in
  the error message is looked up by \<open>SAI_TYPE_STR\<close>.
\<close>

definition stub_create_host_interface ::
  "hostif_attr_ids \<Rightarrow> bool \<Rightarrow> int \<Rightarrow> nat \<Rightarrow> sai_attribute list option \<Rightarrow> u32
     \<Rightarrow> ((sai_status + u64 option) \<times> u32) checked" where
  "stub_create_host_interface ids calloc_ok system_ret attr_count attr_list next_id =
     (let status = check_attribs_metadata calloc_ok attr_count attr_list
            (Some (host_interface_attribs ids)) (Some (host_interface_vendor_attribs ids)) OpCreate;
          created = (case create_next (SAI_OBJECT_TYPE_HOST_INTERFACE ids) next_id of
              (Inl status, next_id) \<Rightarrow> (Inl status, next_id)
            | (Inr oid, next_id) \<Rightarrow> (Inr (Some oid), next_id)) in
      if status \<noteq> SAI_STATUS_SUCCESS then Inr (Inl status, next_id)
      else case (find_attrib_in_list attr_count attr_list (id_hif_type ids),
                 find_attrib_in_list attr_count attr_list (id_hif_name ids)) of
        (Inr (type, type_index), Inr (name, name_index)) \<Rightarrow>
          if s32 type = SAI_HOSTIF_TYPE_NETDEV then
            (case find_attrib_in_list attr_count attr_list (id_hif_rif_or_port ids) of
               Inl status \<Rightarrow> Inr (Inl SAI_STATUS_MANDATORY_ATTRIBUTE_MISSING, next_id)
             | Inr (rif_port, rif_port_index) \<Rightarrow>
                 (let object_type = sai_object_type_query (val_u64 rif_port);
                      data = stub_object_to_type (val_u64 rif_port) object_type in
                  if object_type = SAI_OBJECT_TYPE_ROUTER_INTERFACE \<or> object_type = SAI_OBJECT_TYPE_PORT
                  then (case data of
                          Inl status \<Rightarrow> Inr (Inl status, next_id)
                        | Inr rif_data \<Rightarrow>
                            if system_ret \<noteq> 0 then Inr (Inr None, next_id) else Inr created)
                  else (case SAI_TYPE_STR object_type of
                          Inl e \<Rightarrow> Inl e
                        | Inr type_name \<Rightarrow>
                            Inr (Inl (SAI_STATUS_INVALID_ATTR_VALUE_0 + int rif_port_index), next_id))))
          else if s32 type = SAI_HOSTIF_TYPE_FD then Inr created
          else Inr (Inl (SAI_STATUS_INVALID_ATTR_VALUE_0 + int type_index), next_id)
      | _ \<Rightarrow> Inl AssertFailed)"

definition stub_remove_host_interface :: "hostif_attr_ids \<Rightarrow> u64 \<Rightarrow> sai_status" where
  "stub_remove_host_interface ids hif_id =
     (case stub_object_to_type hif_id (SAI_OBJECT_TYPE_HOST_INTERFACE ids) of
        Inl status \<Rightarrow> status | Inr data \<Rightarrow> SAI_STATUS_SUCCESS)"

definition stub_set_host_interface_attribute where
  "stub_set_host_interface_attribute ids calloc_ok hif_id attr db =
     sai_set_attribute calloc_ok hif_id (Some (host_interface_attribs ids))
       (Some (host_interface_vendor_attribs ids)) attr db"

definition stub_get_host_interface_attribute where
  "stub_get_host_interface_attribute ids calloc_ok hif_id attr_count attr_list db =
     sai_get_attributes calloc_ok hif_id (Some (host_interface_attribs ids))
       (Some (host_interface_vendor_attribs ids)) attr_count attr_list db"

definition stub_set_host_interface_trap_attribute :: sai_status where
  "stub_set_host_interface_trap_attribute = SAI_STATUS_SUCCESS"

end
