(* ===== verification/StubEntries.thy ===== *)
theory StubEntries
  imports StubL3
begin

text \<open>
  The stub's objects that are named by an entry and not by an id: routes (\<^verbatim>\<open>stub_sai_route.c\<close>),
  neighbors (\<^verbatim>\<open>stub_sai_neighbor.c\<close>) and FDB entries (\<^verbatim>\<open>stub_sai_fdb.c\<close>). Nothing is stored: the state is
  \<open>unit\<close>, and what a call does is its status. A pointer to an entry is an option.
\<close>

section \<open>Routes\<close>

record route_attr_ids =
  id_route_packet_action :: u32
  id_route_trap_priority :: u32
  id_route_next_hop :: u32

definition route_attribs :: "route_attr_ids \<Rightarrow> sai_attribute_entry list" where
  "route_attribs ids =
     [attr_entry (id_route_packet_action ids) False True True True ''Route packet action'' ValS32,
      attr_entry (id_route_trap_priority ids) False True True True ''Route trap priority'' ValU8,
      attr_entry (id_route_next_hop ids) False True True True ''Route next hop ID'' ValOid]"

definition get_constant ::
  "(sai_attribute_value \<Rightarrow> sai_attribute_value) \<Rightarrow> 'k \<Rightarrow> sai_attribute_value \<Rightarrow> nat \<Rightarrow> 's
     \<Rightarrow> (sai_status \<times> sai_attribute_value) checked" where
  "get_constant f key val attr_index db = Inr (SAI_STATUS_SUCCESS, f val)"

definition set_nothing ::
  "'k \<Rightarrow> sai_attribute_value \<Rightarrow> 's \<Rightarrow> (sai_status \<times> 's) checked" where
  "set_nothing key val db = Inr (SAI_STATUS_SUCCESS, db)"

definition stub_route_packet_action_get where
  "stub_route_packet_action_get (key :: sai_ip_prefix) val attr_index (db :: unit) =
     get_constant (put_u32 SAI_PACKET_ACTION_DROP) key val attr_index db"

definition stub_route_trap_priority_get where
  "stub_route_trap_priority_get (key :: sai_ip_prefix) val attr_index (db :: unit) =
     get_constant (put_u8 0) key val attr_index db"

definition stub_route_next_hop_id_get where
  "stub_route_next_hop_id_get (key :: sai_ip_prefix) val (attr_index :: nat) (db :: unit) =
     get_object SAI_OBJECT_TYPE_NEXT_HOP 0 val"

definition stub_route_packet_action_set where
  "stub_route_packet_action_set (key :: sai_ip_prefix) val (db :: unit) = set_nothing key val db"

definition stub_route_trap_priority_set where
  "stub_route_trap_priority_set (key :: sai_ip_prefix) val (db :: unit) = set_nothing key val db"

definition stub_route_next_hop_id_set where
  "stub_route_next_hop_id_set (key :: sai_ip_prefix) val (db :: unit) = set_nothing key val db"

definition route_vendor_attribs ::
  "route_attr_ids \<Rightarrow> (sai_ip_prefix, unit) sai_vendor_attribute_entry list" where
  "route_vendor_attribs ids =
     [vendor_entry (id_route_packet_action ids) True False True True
        (Some stub_route_packet_action_get) (Some stub_route_packet_action_set),
      vendor_entry (id_route_trap_priority ids) True False True True
        (Some stub_route_trap_priority_get) (Some stub_route_trap_priority_set),
      vendor_entry (id_route_next_hop ids) True False True True
        (Some stub_route_next_hop_id_get) (Some stub_route_next_hop_id_set)]"

definition stub_create_route ::
  "route_attr_ids \<Rightarrow> bool \<Rightarrow> sai_ip_prefix option \<Rightarrow> nat \<Rightarrow> sai_attribute list option \<Rightarrow> sai_status" where
  "stub_create_route ids calloc_ok unicast_route_entry attr_count attr_list =
     (if unicast_route_entry = None then SAI_STATUS_INVALID_PARAMETER
      else check_attribs_metadata calloc_ok attr_count attr_list
             (Some (route_attribs ids)) (Some (route_vendor_attribs ids)) OpCreate)"

definition stub_remove_route :: "sai_ip_prefix option \<Rightarrow> sai_status" where
  "stub_remove_route unicast_route_entry =
     (if unicast_route_entry = None then SAI_STATUS_INVALID_PARAMETER else SAI_STATUS_SUCCESS)"

definition stub_set_route_attribute where
  "stub_set_route_attribute ids calloc_ok unicast_route_entry attr =
     (case unicast_route_entry of
        None \<Rightarrow> Inr (SAI_STATUS_INVALID_PARAMETER, ())
      | Some key \<Rightarrow>
          sai_set_attribute calloc_ok key (Some (route_attribs ids)) (Some (route_vendor_attribs ids)) attr ())"

definition stub_get_route_attribute where
  "stub_get_route_attribute ids calloc_ok unicast_route_entry attr_count attr_list =
     (case unicast_route_entry of
        None \<Rightarrow> Inr (SAI_STATUS_INVALID_PARAMETER, attr_array attr_count attr_list)
      | Some key \<Rightarrow>
          sai_get_attributes calloc_ok key (Some (route_attribs ids)) (Some (route_vendor_attribs ids))
            attr_count attr_list ())"

section \<open>Neighbors\<close>

record sai_neighbor_entry =
  neighbor_rif_id :: u64
  neighbor_ip_address :: sai_ip_address

record neighbor_attr_ids =
  id_neighbor_mac :: u32
  id_neighbor_packet_action :: u32

definition neighbor_attribs :: "neighbor_attr_ids \<Rightarrow> sai_attribute_entry list" where
  "neighbor_attribs ids =
     [attr_entry (id_neighbor_mac ids) True True True True ''Neighbor destination MAC'' ValMac,
      attr_entry (id_neighbor_packet_action ids) False True True True ''Neighbor L3 forwarding action'' ValS32]"

definition stub_neighbor_mac_get where
  "stub_neighbor_mac_get (key :: sai_neighbor_entry) val attr_index (db :: unit) =
     get_constant (\<lambda>v. v) key val attr_index db"

definition stub_neighbor_action_get where
  "stub_neighbor_action_get (key :: sai_neighbor_entry) val attr_index (db :: unit) =
     get_constant (put_u32 SAI_PACKET_ACTION_DROP) key val attr_index db"

definition stub_neighbor_mac_set where
  "stub_neighbor_mac_set (key :: sai_neighbor_entry) val (db :: unit) = set_nothing key val db"

definition stub_neighbor_action_set where
  "stub_neighbor_action_set (key :: sai_neighbor_entry) val (db :: unit) = set_nothing key val db"

definition neighbor_vendor_attribs ::
  "neighbor_attr_ids \<Rightarrow> (sai_neighbor_entry, unit) sai_vendor_attribute_entry list" where
  "neighbor_vendor_attribs ids =
     [vendor_entry (id_neighbor_mac ids) True False True True
        (Some stub_neighbor_mac_get) (Some stub_neighbor_mac_set),
      vendor_entry (id_neighbor_packet_action ids) True False True True
        (Some stub_neighbor_action_get) (Some stub_neighbor_action_set)]"

definition stub_create_neighbor_entry ::
  "neighbor_attr_ids \<Rightarrow> bool \<Rightarrow> sai_neighbor_entry option \<Rightarrow> nat \<Rightarrow> sai_attribute list option \<Rightarrow> sai_status" where
  "stub_create_neighbor_entry ids calloc_ok neighbor_entry attr_count attr_list =
     (case neighbor_entry of
        None \<Rightarrow> SAI_STATUS_INVALID_PARAMETER
      | Some entry \<Rightarrow>
          (let status = check_attribs_metadata calloc_ok attr_count attr_list
                 (Some (neighbor_attribs ids)) (Some (neighbor_vendor_attribs ids)) OpCreate in
           if status \<noteq> SAI_STATUS_SUCCESS then status
           else case stub_object_to_type (neighbor_rif_id entry) SAI_OBJECT_TYPE_ROUTER_INTERFACE of
             Inl status \<Rightarrow> status | Inr rif_data \<Rightarrow> SAI_STATUS_SUCCESS))"

definition stub_remove_neighbor_entry :: "sai_neighbor_entry option \<Rightarrow> sai_status" where
  "stub_remove_neighbor_entry neighbor_entry =
     (if neighbor_entry = None then SAI_STATUS_INVALID_PARAMETER else SAI_STATUS_SUCCESS)"

definition stub_set_neighbor_attribute where
  "stub_set_neighbor_attribute ids calloc_ok neighbor_entry attr =
     (case neighbor_entry of
        None \<Rightarrow> Inr (SAI_STATUS_INVALID_PARAMETER, ())
      | Some key \<Rightarrow>
          sai_set_attribute calloc_ok key (Some (neighbor_attribs ids)) (Some (neighbor_vendor_attribs ids))
            attr ())"

definition stub_get_neighbor_attribute where
  "stub_get_neighbor_attribute ids calloc_ok neighbor_entry attr_count attr_list =
     (case neighbor_entry of
        None \<Rightarrow> Inr (SAI_STATUS_INVALID_PARAMETER, attr_array attr_count attr_list)
      | Some key \<Rightarrow>
          sai_get_attributes calloc_ok key (Some (neighbor_attribs ids)) (Some (neighbor_vendor_attribs ids))
            attr_count attr_list ())"

definition stub_remove_all_neighbor_entries :: sai_status where
  "stub_remove_all_neighbor_entries = SAI_STATUS_SUCCESS"

section \<open>FDB entries\<close>

record sai_fdb_entry =
  fdb_mac_address :: "u8 list"
  fdb_vlan_id :: u16

record fdb_attr_ids =
  id_fdb_type :: u32
  id_fdb_port :: u32
  id_fdb_packet_action :: u32
  id_flush_port :: u32
  id_flush_vlan :: u32
  id_flush_type :: u32
  SAI_FDB_ENTRY_STATIC :: u32

definition fdb_attribs :: "fdb_attr_ids \<Rightarrow> sai_attribute_entry list" where
  "fdb_attribs ids =
     [attr_entry (id_fdb_type ids) True True True True ''FDB entry type'' ValS32,
      attr_entry (id_fdb_port ids) True True True True ''FDB entry port id'' ValOid,
      attr_entry (id_fdb_packet_action ids) True True True True ''FDB entry packet action'' ValS32]"

definition stub_fdb_type_get where
  "stub_fdb_type_get ids (key :: sai_fdb_entry) val attr_index (db :: unit) =
     get_constant (put_u32 (SAI_FDB_ENTRY_STATIC ids)) key val attr_index db"

definition stub_fdb_port_get where
  "stub_fdb_port_get (key :: sai_fdb_entry) val (attr_index :: nat) (db :: unit) =
     get_object SAI_OBJECT_TYPE_PORT 1 val"

definition stub_fdb_action_get where
  "stub_fdb_action_get (key :: sai_fdb_entry) val attr_index (db :: unit) =
     get_constant (put_u32 SAI_PACKET_ACTION_FORWARD) key val attr_index db"

definition stub_fdb_type_set where
  "stub_fdb_type_set (key :: sai_fdb_entry) val (db :: unit) = set_nothing key val db"

definition stub_fdb_port_set where
  "stub_fdb_port_set (key :: sai_fdb_entry) val (db :: unit) =
     set_checked SAI_OBJECT_TYPE_PORT (val_u64 val) db"

definition stub_fdb_action_set where
  "stub_fdb_action_set (key :: sai_fdb_entry) val (db :: unit) = set_nothing key val db"

definition fdb_vendor_attribs ::
  "fdb_attr_ids \<Rightarrow> (sai_fdb_entry, unit) sai_vendor_attribute_entry list" where
  "fdb_vendor_attribs ids =
     [vendor_entry (id_fdb_type ids) True False True True
        (Some (stub_fdb_type_get ids)) (Some stub_fdb_type_set),
      vendor_entry (id_fdb_port ids) True False True True
        (Some stub_fdb_port_get) (Some stub_fdb_port_set),
      vendor_entry (id_fdb_packet_action ids) True False True True
        (Some stub_fdb_action_get) (Some stub_fdb_action_set)]"

definition stub_create_fdb_entry ::
  "fdb_attr_ids \<Rightarrow> bool \<Rightarrow> sai_fdb_entry option \<Rightarrow> nat \<Rightarrow> sai_attribute list option \<Rightarrow> sai_status checked" where
  "stub_create_fdb_entry ids calloc_ok fdb_entry attr_count attr_list =
     (let status = check_attribs_metadata calloc_ok attr_count attr_list
            (Some (fdb_attribs ids)) (Some (fdb_vendor_attribs ids)) OpCreate in
      if fdb_entry = None then Inr SAI_STATUS_INVALID_PARAMETER
      else if status \<noteq> SAI_STATUS_SUCCESS then Inr status
      else case (find_attrib_in_list attr_count attr_list (id_fdb_type ids),
                 find_attrib_in_list attr_count attr_list (id_fdb_packet_action ids),
                 find_attrib_in_list attr_count attr_list (id_fdb_port ids)) of
        (Inr type, Inr action, Inr (port, port_index)) \<Rightarrow>
          (case stub_object_to_type (val_u64 port) SAI_OBJECT_TYPE_PORT of
             Inl status \<Rightarrow> Inr status | Inr port_data \<Rightarrow> Inr SAI_STATUS_SUCCESS)
      | _ \<Rightarrow> Inl AssertFailed)"

definition stub_remove_fdb_entry :: "sai_fdb_entry option \<Rightarrow> sai_status" where
  "stub_remove_fdb_entry fdb_entry =
     (if fdb_entry = None then SAI_STATUS_INVALID_PARAMETER else SAI_STATUS_SUCCESS)"

definition stub_set_fdb_entry_attribute where
  "stub_set_fdb_entry_attribute ids calloc_ok fdb_entry attr =
     (case fdb_entry of
        None \<Rightarrow> Inr (SAI_STATUS_INVALID_PARAMETER, ())
      | Some key \<Rightarrow>
          sai_set_attribute calloc_ok key (Some (fdb_attribs ids)) (Some (fdb_vendor_attribs ids)) attr ())"

definition stub_get_fdb_entry_attribute where
  "stub_get_fdb_entry_attribute ids calloc_ok fdb_entry attr_count attr_list =
     (case fdb_entry of
        None \<Rightarrow> Inr (SAI_STATUS_INVALID_PARAMETER, attr_array attr_count attr_list)
      | Some key \<Rightarrow>
          sai_get_attributes calloc_ok key (Some (fdb_attribs ids)) (Some (fdb_vendor_attribs ids))
            attr_count attr_list ())"

text \<open>The two later lookups of the flush have no effect.\<close>

definition stub_flush_fdb_entries :: "fdb_attr_ids \<Rightarrow> nat \<Rightarrow> sai_attribute list option \<Rightarrow> sai_status" where
  "stub_flush_fdb_entries ids attr_count attr_list =
     (case find_attrib_in_list attr_count attr_list (id_flush_port ids) of
        Inl status \<Rightarrow> SAI_STATUS_SUCCESS
      | Inr (port, port_index) \<Rightarrow>
          (case stub_object_to_type (val_u64 port) SAI_OBJECT_TYPE_PORT of
             Inl status \<Rightarrow> status | Inr port_data \<Rightarrow> SAI_STATUS_SUCCESS))"

end
