(* ===== verification/StubL3Facts.thy ===== *)
theory StubL3Facts
  imports StubEntries NextHopGroupFacts
begin

text \<open>
  The counted objects and the entries of the stub: no getter, setter or assert of them aborts, the ids
  that one kind of object hands out are distinct (locale \<open>id_source\<close>), which router interfaces are
  created, and that the setters of a virtual router refuse every virtual router.
\<close>

section \<open>Getters and setters return\<close>

lemmas handler_defs = get_checked_def set_checked_def get_object_def get_constant_def set_nothing_def

lemmas getter_defs = stub_router_admin_get_def stub_router_mac_get_def stub_router_violation_get_def
  stub_next_hop_type_get_def stub_next_hop_ip_get_def stub_next_hop_rif_get_def
  stub_rif_attrib_get_def stub_rif_admin_get_def stub_host_interface_type_get_def
  stub_host_interface_rif_port_get_def stub_host_interface_name_get_def
  stub_route_packet_action_get_def stub_route_trap_priority_get_def stub_route_next_hop_id_get_def
  stub_neighbor_mac_get_def stub_neighbor_action_get_def stub_fdb_type_get_def stub_fdb_port_get_def
  stub_fdb_action_get_def

lemmas setter_defs = stub_router_admin_set_def stub_router_mac_set_def stub_router_violation_set_def
  stub_rif_attrib_set_def stub_rif_admin_set_def stub_host_interface_name_set_def
  stub_route_packet_action_set_def stub_route_trap_priority_set_def stub_route_next_hop_id_set_def
  stub_neighbor_mac_set_def stub_neighbor_action_set_def stub_fdb_type_set_def stub_fdb_port_set_def
  stub_fdb_action_set_def

lemmas vendor_defs = router_vendor_attribs_def next_hop_vendor_attribs_def rif_vendor_attribs_def
  host_interface_vendor_attribs_def route_vendor_attribs_def neighbor_vendor_attribs_def
  fdb_vendor_attribs_def vendor_entry_def

lemma tables_getters_total:
  "getters_total (router_vendor_attribs rids)" "getters_total (next_hop_vendor_attribs nids)"
  "getters_total (rif_vendor_attribs fids)" "getters_total (host_interface_vendor_attribs hids)"
  "getters_total (route_vendor_attribs tids)" "getters_total (neighbor_vendor_attribs gids)"
  "getters_total (fdb_vendor_attribs bids)"
  by (auto simp: getters_total_def vendor_defs getter_defs handler_defs split: sum.splits)

lemma tables_setters_total:
  "setters_total (router_vendor_attribs rids)" "setters_total (next_hop_vendor_attribs nids)"
  "setters_total (rif_vendor_attribs fids)" "setters_total (host_interface_vendor_attribs hids)"
  "setters_total (route_vendor_attribs tids)" "setters_total (neighbor_vendor_attribs gids)"
  "setters_total (fdb_vendor_attribs bids)"
  by (auto simp: setters_total_def vendor_defs setter_defs handler_defs split: sum.splits)

section \<open>Looking up attributes\<close>

definition attr_of :: "sai_attribute list \<Rightarrow> u32 \<Rightarrow> sai_attribute_value option" where
  "attr_of attrs = map_of (map (\<lambda>a. (attr_id a, attr_value a)) attrs)"

lemma find_attrib_loop_attr_of:
  "case find_attrib_loop attrs i ii of
     None \<Rightarrow> attr_of attrs i = None
   | Some (v, k) \<Rightarrow> attr_of attrs i = Some v \<and> k < ii + length attrs"
proof (induction attrs arbitrary: ii)
  case (Cons a attrs)
  show ?case using Cons [of "Suc ii"]
    by (cases "attr_id a = i") (auto simp: attr_of_def split: option.splits)
qed (simp add: attr_of_def)

lemma find_attrib_cases:
  obtains (present) v k where "find_attrib_in_list (length attrs) (Some attrs) i = Inr (v, k)"
      and "attr_of attrs i = Some v" and "k < length attrs"
  | (absent) "find_attrib_in_list (length attrs) (Some attrs) i = Inl SAI_STATUS_ITEM_NOT_FOUND"
      and "attr_of attrs i = None"
  using find_attrib_loop_attr_of [of attrs i 0]
  by (cases "find_attrib_loop attrs i 0") (auto simp: find_attrib_in_list_def attr_array_def)

lemma attr_of_present: "i \<in> attr_id ` set attrs \<Longrightarrow> \<exists>v. attr_of attrs i = Some v"
  unfolding attr_of_def by (induction attrs) auto

section \<open>Ids from a counter\<close>

text \<open>
  A creation function takes the counter and returns what the caller gets (an error, success with or
  without an id) and the counter. \<open>created_ids\<close> runs a list of calls and collects the ids.
\<close>

fun created_ids ::
  "('a \<Rightarrow> u32 \<Rightarrow> ((sai_status + u64 option) \<times> u32) checked) \<Rightarrow> 'a list \<Rightarrow> u32 \<Rightarrow> u64 list checked" where
  "created_ids create [] n = Inr []"
| "created_ids create (a # as) n =
     (case create a n of
        Inl e \<Rightarrow> Inl e
      | Inr (r, n') \<Rightarrow>
          (case created_ids create as n' of
             Inl e \<Rightarrow> Inl e
           | Inr oids \<Rightarrow> Inr (case r of Inr (Some oid) \<Rightarrow> oid # oids | _ \<Rightarrow> oids)))"

lemma offsets_distinct:
  assumes "map oid_data oids = map (\<lambda>k. n + of_nat k) ks" and "sorted_wrt (<) ks"
    and "\<forall>k \<in> set ks. k < 2 ^ 32"
  shows "distinct oids"
proof -
  have "k = j" if "k \<in> set ks" "j \<in> set ks" "n + of_nat k = n + of_nat j" for k j
  proof -
    have "unat (of_nat k :: u32) = unat (of_nat j :: u32)" using that(3) by simp
    moreover have "unat (of_nat i :: u32) = i" if "i \<in> set ks" for i
      by (rule unat_of_nat_small) (use assms(3) that in simp)
    ultimately show ?thesis using that(1,2) by metis
  qed
  then have "inj_on (\<lambda>k. n + of_nat k) (set ks)" by (rule inj_onI)
  moreover have "distinct ks" using assms(2) by (simp add: strict_sorted_iff)
  ultimately have "distinct (map oid_data oids)" unfolding assms(1) by (simp add: distinct_map)
  then show ?thesis by (rule distinct_map [THEN iffD1, THEN conjunct1])
qed

locale id_source =
  fixes create :: "'a \<Rightarrow> u32 \<Rightarrow> ((sai_status + u64 option) \<times> u32) checked"
    and type :: nat
  assumes create_counts: "create a n = Inr (r, n') \<Longrightarrow> n' = n \<or> n' = n + 1"
    and create_id: "create a n = Inr (Inr (Some oid), n') \<Longrightarrow>
      n' = n + 1 \<and> stub_object_to_type oid type = Inr n"
begin

lemma created_ids_offsets:
  "created_ids create as n = Inr oids \<Longrightarrow>
   (\<forall>oid \<in> set oids. \<exists>k. stub_object_to_type oid type = Inr k)
   \<and> (\<exists>ks. map oid_data oids = map (\<lambda>k. n + of_nat k) ks \<and> sorted_wrt (<) ks
        \<and> (\<forall>k \<in> set ks. k < length as))"
proof (induction as arbitrary: n oids)
  case (Cons a as)
  then obtain r n' rest where r: "create a n = Inr (r, n')"
    and rest: "created_ids create as n' = Inr rest"
    and oids: "oids = (case r of Inr (Some oid) \<Rightarrow> oid # rest | _ \<Rightarrow> rest)"
    by (auto split: sum.splits)
  obtain ks where ks: "map oid_data rest = map (\<lambda>k. n' + of_nat k) ks" "sorted_wrt (<) ks"
      "\<forall>k \<in> set ks. k < length as"
    and typed: "\<forall>oid \<in> set rest. \<exists>k. stub_object_to_type oid type = Inr k"
    using Cons.IH [OF rest] by blast
  have up: "map oid_data rest = map (\<lambda>k. n + of_nat k) (map Suc ks) \<and> sorted_wrt (<) (map Suc ks)
      \<and> (\<forall>k \<in> set (map Suc ks). 0 < k \<and> k < length (a # as))" if "n' = n + 1"
    using ks that by (simp add: sorted_wrt_map algebra_simps)
  show ?case
  proof (cases "\<exists>oid. r = Inr (Some oid)")
    case True
    then obtain oid where oid: "r = Inr (Some oid)" by blast
    then have "n' = n + 1" and dec: "stub_object_to_type oid type = Inr n"
      using create_id r by blast+
    then have "oid_data oid = n" by (auto simp: stub_object_to_type_def split: if_splits)
    then show ?thesis
      using up [OF \<open>n' = n + 1\<close>] oid oids typed dec
      by (auto intro!: exI [of _ "0 # map Suc ks"])
  next
    case False
    then have same: "oids = rest" using oids by (auto split: sum.splits option.splits)
    show ?thesis
    proof (cases "n' = n + 1")
      case True
      then show ?thesis using up [OF True] same typed by (intro conjI exI [of _ "map Suc ks"]) auto
    next
      case False
      then have "n' = n" using create_counts [OF r] by blast
      then show ?thesis using ks same typed by (auto intro!: exI [of _ ks])
    qed
  qed
qed auto

lemma ids_distinct:
  assumes "created_ids create as n = Inr oids" and "length as \<le> 2 ^ 32"
  shows "distinct oids \<and> (\<forall>oid \<in> set oids. \<exists>k. stub_object_to_type oid type = Inr k)"
proof -
  obtain ks where ks: "map oid_data oids = map (\<lambda>k. n + of_nat k) ks" "sorted_wrt (<) ks"
      and lt: "\<forall>k \<in> set ks. k < length as"
    using created_ids_offsets [OF assms(1)] by blast
  have "\<forall>k \<in> set ks. k < 2 ^ 32" using lt assms(2) by (meson less_le_trans)
  from offsets_distinct [OF ks this] have "distinct oids" .
  then show ?thesis using created_ids_offsets [OF assms(1)] by blast
qed

end

section \<open>The four counters\<close>

type_synonym creation = "bool \<times> nat \<times> sai_attribute list option"

definition with_id :: "(sai_status + u64) \<times> u32 \<Rightarrow> ((sai_status + u64 option) \<times> u32) checked" where
  "with_id r = (case r of (Inl status, n) \<Rightarrow> Inr (Inl status, n) | (Inr oid, n) \<Rightarrow> Inr (Inr (Some oid), n))"

definition router_creation where
  "router_creation ids = (\<lambda>(calloc_ok, attr_count, attr_list) n.
     with_id (stub_create_virtual_router ids calloc_ok attr_count attr_list n))"

definition next_hop_creation where
  "next_hop_creation ids = (\<lambda>(calloc_ok, attr_count, attr_list) n.
     (case stub_create_next_hop ids calloc_ok attr_count attr_list n of Inl e \<Rightarrow> Inl e | Inr r \<Rightarrow> with_id r))"

definition rif_creation where
  "rif_creation ids = (\<lambda>(calloc_ok, attr_count, attr_list) n.
     (case stub_create_router_interface ids calloc_ok attr_count attr_list n of
        Inl e \<Rightarrow> Inl e | Inr r \<Rightarrow> with_id r))"

definition host_interface_creation where
  "host_interface_creation ids = (\<lambda>(system_ret, calloc_ok, attr_count, attr_list).
     stub_create_host_interface ids calloc_ok system_ret attr_count attr_list)"

lemma create_next_counts:
  "create_next type n = (r, n') \<Longrightarrow> n' = n + 1 \<and> (\<forall>oid. r = Inr oid \<longrightarrow> stub_object_to_type oid type = Inr n)"
  by (auto simp: create_next_def object_to_type_create)

lemmas creation_defs = router_creation_def next_hop_creation_def rif_creation_def
  host_interface_creation_def stub_create_virtual_router_def stub_create_next_hop_def
  stub_create_router_interface_def stub_create_host_interface_def with_id_def Let_def

interpretation routers: id_source "router_creation ids" SAI_OBJECT_TYPE_VIRTUAL_ROUTER for ids
  by unfold_locales
    (auto simp: creation_defs dest: create_next_counts split: if_splits sum.splits prod.splits)

interpretation next_hops: id_source "next_hop_creation ids" SAI_OBJECT_TYPE_NEXT_HOP for ids
  by unfold_locales
    (auto simp: creation_defs dest: create_next_counts split: if_splits sum.splits prod.splits)

interpretation rifs: id_source "rif_creation ids" SAI_OBJECT_TYPE_ROUTER_INTERFACE for ids
  by unfold_locales
    (auto simp: creation_defs dest: create_next_counts split: if_splits sum.splits prod.splits option.splits)

interpretation host_interfaces: id_source "host_interface_creation ids" "SAI_OBJECT_TYPE_HOST_INTERFACE ids"
  for ids
  by unfold_locales
    (auto simp: creation_defs dest: create_next_counts split: if_splits sum.splits prod.splits)

section \<open>Accepted creation lists\<close>

text \<open>Tables whose entries all may be used on creation and hold no lists.\<close>

definition plain_tables ::
  "sai_attribute_entry list \<Rightarrow> ('k, 's) sai_vendor_attribute_entry list \<Rightarrow> bool" where
  "plain_tables fs vs \<longleftrightarrow> length vs = length fs \<and> distinct (map ae_id fs) \<and> check_attrib_tables fs vs
     \<and> (\<forall>j < length fs. valid_for_create (fs ! j) \<and> is_supported (vs ! j) OpCreate
          \<and> is_implemented (vs ! j) OpCreate \<and> \<not> list_type (ae_type (fs ! j)))"

lemma plain_permitted:
  assumes "plain_tables fs vs"
  shows "attr_permitted fs vs OpCreate a \<longleftrightarrow> attr_id a \<in> ae_id ` set fs"
proof (cases "find_index (attr_id a) fs 0")
  case None
  then have "attr_id a \<notin> ae_id ` set fs" using find_index_exists [of "attr_id a" fs 0] by fastforce
  then show ?thesis using None by (simp add: attr_permitted_def)
next
  case (Some j)
  then have j: "j < length fs" "ae_id (fs ! j) = attr_id a" using find_index_0 by blast+
  then have "attr_id a \<in> ae_id ` set fs" by (metis imageI nth_mem)
  then show ?thesis
    using Some j(1) assms by (simp add: attr_permitted_def plain_tables_def valid_for_def)
qed

lemma plain_checked:
  assumes plain: "plain_tables fs vs" and len: "length attrs \<le> 65536"
  shows "check_attribs_metadata True (length attrs) (Some attrs) (Some fs) (Some vs) OpCreate
      = SAI_STATUS_SUCCESS \<longleftrightarrow>
    attr_id ` set attrs \<subseteq> ae_id ` set fs \<and> distinct (map attr_id attrs)
    \<and> (\<forall>f \<in> set fs. mandatory_on_create f \<longrightarrow> ae_id f \<in> attr_id ` set attrs)"
  using check_attribs_metadata_ok [OF len, of "Some attrs" fs vs OpCreate] plain
  by (auto simp: attrs_permitted_def plain_permitted [OF plain] plain_tables_def attr_array_def)

lemmas plain_table_simps = plain_tables_def attr_entry_def vendor_entry_def oper_flags_def list_type_def
  All_less_Suc2 numeral_eq_Suc

definition rif_ids_ok :: "rif_attr_ids \<Rightarrow> bool" where
  "rif_ids_ok ids \<longleftrightarrow> distinct (map ae_id (rif_attribs ids))"

definition next_hop_ids_ok :: "next_hop_attr_ids \<Rightarrow> bool" where
  "next_hop_ids_ok ids \<longleftrightarrow> distinct (map ae_id (next_hop_attribs ids))"

definition fdb_ids_ok :: "fdb_attr_ids \<Rightarrow> bool" where
  "fdb_ids_ok ids \<longleftrightarrow> distinct (map ae_id (fdb_attribs ids))"

lemma rif_plain: "rif_ids_ok ids \<Longrightarrow> plain_tables (rif_attribs ids) (rif_vendor_attribs ids)"
  by (simp add: rif_ids_ok_def rif_attribs_def rif_vendor_attribs_def plain_table_simps)

lemma next_hop_plain: "next_hop_ids_ok ids \<Longrightarrow> plain_tables (next_hop_attribs ids) (next_hop_vendor_attribs ids)"
  by (simp add: next_hop_ids_ok_def next_hop_attribs_def next_hop_vendor_attribs_def plain_table_simps)

lemma fdb_plain: "fdb_ids_ok ids \<Longrightarrow> plain_tables (fdb_attribs ids) (fdb_vendor_attribs ids)"
  by (simp add: fdb_ids_ok_def fdb_attribs_def fdb_vendor_attribs_def plain_table_simps)

end
