(* ===== verification/StubL3Properties.thy ===== *)
theory StubL3Properties
  imports StubL3Facts
begin

text \<open>The properties of the counted objects and of the entries of the stub.\<close>

section \<open>No aborts\<close>

definition returns :: "'a checked \<Rightarrow> bool" where
  "returns r \<longleftrightarrow> (\<exists>x. r = Inr x)"

lemma returns_option: "returns (case x of None \<Rightarrow> Inr c | Some k \<Rightarrow> f k) \<longleftrightarrow> (\<forall>k. x = Some k \<longrightarrow> returns (f k))"
  by (cases x) (simp_all add: returns_def)

lemma get_returns: "getters_total vs \<Longrightarrow> n \<le> 65536 \<Longrightarrow>
    returns (sai_get_attributes ok key (Some fs) (Some vs) n attrs db)"
  unfolding returns_def by (rule sai_get_attributes_total)

lemma set_returns: "setters_total vs \<Longrightarrow> returns (sai_set_attribute ok key (Some fs) (Some vs) attr db)"
  unfolding returns_def by (rule sai_set_attribute_total)

text \<open>Setting and getting attributes of virtual routers, next hops, router interfaces, host
  interfaces, routes, neighbors and FDB entries returns for every object id or entry, every attribute
  list and every outcome of the allocation: the asserts of the dispatchers and of the getters never
  fail.\<close>

theorem object_attributes_never_abort:
  assumes "attr_count \<le> 65536"
  shows "returns (stub_get_virtual_router_attribute rids ok oid attr_count attrs n)
    \<and> returns (stub_set_virtual_router_attribute rids ok oid attr n)
    \<and> returns (stub_get_next_hop_attribute nids ok oid attr_count attrs n)
    \<and> returns (stub_set_next_hop_attribute nids ok oid attr n)
    \<and> returns (stub_get_router_interface_attribute fids ok oid attr_count attrs n)
    \<and> returns (stub_set_router_interface_attribute fids ok oid attr n)
    \<and> returns (stub_get_host_interface_attribute hids ok oid attr_count attrs n)
    \<and> returns (stub_set_host_interface_attribute hids ok oid attr n)
    \<and> returns (stub_get_route_attribute tids ok route attr_count attrs)
    \<and> returns (stub_set_route_attribute tids ok route attr)
    \<and> returns (stub_get_neighbor_attribute gids ok neighbor attr_count attrs)
    \<and> returns (stub_set_neighbor_attribute gids ok neighbor attr)
    \<and> returns (stub_get_fdb_entry_attribute bids ok fdb attr_count attrs)
    \<and> returns (stub_set_fdb_entry_attribute bids ok fdb attr)"
  unfolding stub_get_virtual_router_attribute_def stub_set_virtual_router_attribute_def
    stub_get_next_hop_attribute_def stub_set_next_hop_attribute_def
    stub_get_router_interface_attribute_def stub_set_router_interface_attribute_def
    stub_get_host_interface_attribute_def stub_set_host_interface_attribute_def
    stub_get_route_attribute_def stub_set_route_attribute_def stub_get_neighbor_attribute_def
    stub_set_neighbor_attribute_def stub_get_fdb_entry_attribute_def stub_set_fdb_entry_attribute_def
    returns_option
  by (simp add: get_returns set_returns tables_getters_total tables_setters_total assms)

theorem object_attributes_never_abort_witness:
  "returns (stub_get_router_interface_attribute
     \<lparr>id_rif_router = 0, id_rif_type = 1, id_rif_port = 2, id_rif_vlan = 3, id_rif_mac = 4,
      id_rif_admin_v4 = 5, id_rif_admin_v6 = 6, id_rif_mtu = 7\<rparr> True 6 3 None 0)"
  using object_attributes_never_abort [of 3] by simp

section \<open>Ids\<close>

text \<open>The ids that up to \<^verbatim>\<open>2^32\<close> creations of virtual routers (of next hops, of router interfaces, of
  host interfaces) hand out, whatever the attributes and whichever of them fail, are all different and
  decode under the type of the object.\<close>

theorem created_ids_distinct:
  assumes "length calls \<le> 2 ^ 32" and "length hif_calls \<le> 2 ^ 32"
    and "created_ids (router_creation rids) calls n = Inr oids \<and> type = SAI_OBJECT_TYPE_VIRTUAL_ROUTER
      \<or> created_ids (next_hop_creation nids) calls n = Inr oids \<and> type = SAI_OBJECT_TYPE_NEXT_HOP
      \<or> created_ids (rif_creation fids) calls n = Inr oids \<and> type = SAI_OBJECT_TYPE_ROUTER_INTERFACE
      \<or> created_ids (host_interface_creation hids) hif_calls n = Inr oids
        \<and> type = SAI_OBJECT_TYPE_HOST_INTERFACE hids"
  shows "distinct oids \<and> (\<forall>oid \<in> set oids. \<exists>k. stub_object_to_type oid type = Inr k)"
  using assms(3) routers.ids_distinct [OF _ assms(1)] next_hops.ids_distinct [OF _ assms(1)]
    rifs.ids_distinct [OF _ assms(1)] host_interfaces.ids_distinct [OF _ assms(2)]
  by blast

theorem created_ids_distinct_witness:
  "distinct [0x0000000500000003 :: u64, 0x0000000600000003]"
proof -
  let ?ids = "\<lparr>id_admin_v4_state = 0, id_admin_v6_state = 1, id_router_mac = 2, id_violation_ttl1 = 3,
    id_violation_ip_options = 4\<rparr>"
  have "created_ids (router_creation ?ids) [(True, 0, None), (False, 0, None), (True, 0, None)] 5
      = Inr [0x0000000500000003, 0x0000000600000003]"
    by code_simp
  moreover have "length [(True, 0, None :: sai_attribute list option), (False, 0, None), (True, 0, None)]
      \<le> 2 ^ 32" and "length ([] :: (int \<times> creation) list) \<le> 2 ^ 32" by simp_all
  ultimately show ?thesis using created_ids_distinct by blast
qed

section \<open>Router interfaces\<close>

definition oid_of_type :: "nat \<Rightarrow> sai_attribute_value option \<Rightarrow> bool" where
  "oid_of_type type v \<longleftrightarrow> (\<exists>x k. v = Some x \<and> stub_object_to_type (val_u64 x) type = Inr k)"

text \<open>Only known attributes, none twice, a virtual router, and a VLAN or a port according to the type.\<close>

definition rif_request :: "rif_attr_ids \<Rightarrow> sai_attribute list \<Rightarrow> bool" where
  "rif_request ids attrs \<longleftrightarrow>
     attr_id ` set attrs \<subseteq> {id_rif_router ids, id_rif_type ids, id_rif_port ids, id_rif_vlan ids,
       id_rif_mac ids, id_rif_admin_v4 ids, id_rif_admin_v6 ids, id_rif_mtu ids}
   \<and> distinct (map attr_id attrs)
   \<and> oid_of_type SAI_OBJECT_TYPE_VIRTUAL_ROUTER (attr_of attrs (id_rif_router ids))
   \<and> (case attr_of attrs (id_rif_type ids) of
        None \<Rightarrow> False
      | Some t \<Rightarrow>
          s32 t = SAI_ROUTER_INTERFACE_TYPE_VLAN
            \<and> attr_of attrs (id_rif_vlan ids) \<noteq> None \<and> attr_of attrs (id_rif_port ids) = None
        \<or> s32 t = SAI_ROUTER_INTERFACE_TYPE_PORT
            \<and> oid_of_type SAI_OBJECT_TYPE_PORT (attr_of attrs (id_rif_port ids))
            \<and> attr_of attrs (id_rif_vlan ids) = None)"

lemma attr_of_in: "attr_of attrs i = Some v \<Longrightarrow> i \<in> attr_id ` set attrs"
  unfolding attr_of_def by (induction attrs) (auto split: if_splits)

lemma decode_status: "stub_object_to_type oid type = Inl status \<Longrightarrow> status = SAI_STATUS_INVALID_PARAMETER"
  by (auto simp: stub_object_to_type_def split: if_splits)

lemma rif_refusal_spec:
  assumes "length attrs \<le> 65536" and "id_rif_type ids \<in> attr_id ` set attrs"
    and "id_rif_router ids \<in> attr_id ` set attrs"
  shows "\<exists>r. rif_refusal ids (length attrs) (Some attrs) = Inr r \<and> r \<noteq> Some SAI_STATUS_SUCCESS
    \<and> (r = None \<longleftrightarrow> oid_of_type SAI_OBJECT_TYPE_VIRTUAL_ROUTER (attr_of attrs (id_rif_router ids))
        \<and> (case attr_of attrs (id_rif_type ids) of
             None \<Rightarrow> False
           | Some t \<Rightarrow>
               s32 t = SAI_ROUTER_INTERFACE_TYPE_VLAN
                 \<and> attr_of attrs (id_rif_vlan ids) \<noteq> None \<and> attr_of attrs (id_rif_port ids) = None
             \<or> s32 t = SAI_ROUTER_INTERFACE_TYPE_PORT
                 \<and> oid_of_type SAI_OBJECT_TYPE_PORT (attr_of attrs (id_rif_port ids))
                 \<and> attr_of attrs (id_rif_vlan ids) = None))"
proof -
  obtain t tk where t: "find_attrib_in_list (length attrs) (Some attrs) (id_rif_type ids) = Inr (t, tk)"
      "attr_of attrs (id_rif_type ids) = Some t" "tk < length attrs"
    using attr_of_present [OF assms(2)] by (cases rule: find_attrib_cases [of attrs "id_rif_type ids"]) auto
  obtain vr vk where vr: "find_attrib_in_list (length attrs) (Some attrs) (id_rif_router ids) = Inr (vr, vk)"
      "attr_of attrs (id_rif_router ids) = Some vr"
    using attr_of_present [OF assms(3)] by (cases rule: find_attrib_cases [of attrs "id_rif_router ids"]) auto
  have types: "SAI_ROUTER_INTERFACE_TYPE_VLAN \<noteq> SAI_ROUTER_INTERFACE_TYPE_PORT"
    by (simp add: SAI_ROUTER_INTERFACE_TYPE_VLAN_def SAI_ROUTER_INTERFACE_TYPE_PORT_def)
  show ?thesis
    using assms(1) t vr types
    by (cases rule: find_attrib_cases [of attrs "id_rif_port ids"];
        cases rule: find_attrib_cases [of attrs "id_rif_vlan ids"];
        cases "stub_object_to_type (val_u64 vr) SAI_OBJECT_TYPE_VIRTUAL_ROUTER")
      (auto simp: rif_refusal_def oid_of_type_def Let_def status_defs dest: decode_status
        split: sum.splits)
qed

text \<open>A router interface is created exactly when the attribute list is a proper request: known
  attributes, each at most once, a virtual router id, and either type VLAN with a VLAN and no port, or
  type port with a port id and no VLAN. Then the id carries the counter, which is incremented;
  otherwise an error is returned and nothing changes. No assert fails and no unset variable is read.\<close>

theorem create_router_interface_exact:
  assumes ids: "rif_ids_ok ids" and len: "length attrs \<le> 65536"
  shows "if rif_request ids attrs
    then \<exists>oid. stub_create_router_interface ids True (length attrs) (Some attrs) n = Inr (Inr oid, n + 1)
      \<and> stub_object_to_type oid SAI_OBJECT_TYPE_ROUTER_INTERFACE = Inr n
    else \<exists>status. stub_create_router_interface ids True (length attrs) (Some attrs) n = Inr (Inl status, n)
      \<and> status \<noteq> SAI_STATUS_SUCCESS"
proof -
  let ?status = "check_attribs_metadata True (length attrs) (Some attrs) (Some (rif_attribs ids))
      (Some (rif_vendor_attribs ids)) OpCreate"
  have checked: "?status = SAI_STATUS_SUCCESS \<longleftrightarrow>
      attr_id ` set attrs \<subseteq> {id_rif_router ids, id_rif_type ids, id_rif_port ids, id_rif_vlan ids,
       id_rif_mac ids, id_rif_admin_v4 ids, id_rif_admin_v6 ids, id_rif_mtu ids}
      \<and> distinct (map attr_id attrs)
      \<and> id_rif_type ids \<in> attr_id ` set attrs \<and> id_rif_router ids \<in> attr_id ` set attrs"
    unfolding plain_checked [OF rif_plain [OF ids] len]
    by (auto simp: rif_attribs_def attr_entry_def)
  obtain oid where oid: "stub_create_object SAI_OBJECT_TYPE_ROUTER_INTERFACE n = Inr oid"
    using create_object_ok [of SAI_OBJECT_TYPE_ROUTER_INTERFACE n]
    by (auto simp: SAI_OBJECT_TYPE_ROUTER_INTERFACE_def SAI_OBJECT_TYPE_MAX_def)
  show ?thesis
  proof (cases "?status = SAI_STATUS_SUCCESS")
    case False
    have "\<not> rif_request ids attrs"
      using False attr_of_in unfolding checked rif_request_def oid_of_type_def
      by (auto split: option.splits)
    then show ?thesis using False by (simp add: stub_create_router_interface_def Let_def)
  next
    case True
    then have present: "id_rif_type ids \<in> attr_id ` set attrs" "id_rif_router ids \<in> attr_id ` set attrs"
      unfolding checked by blast+
    obtain r where r: "rif_refusal ids (length attrs) (Some attrs) = Inr r" "r \<noteq> Some SAI_STATUS_SUCCESS"
      and none: "r = None \<longleftrightarrow> rif_request ids attrs"
      using rif_refusal_spec [OF len present] True unfolding checked rif_request_def by blast
    then show ?thesis
      using True oid object_to_type_create [OF oid]
      by (auto simp: stub_create_router_interface_def Let_def create_next_def split: option.splits)
  qed
qed

definition sample_rif_ids :: rif_attr_ids where
  "sample_rif_ids = \<lparr>id_rif_router = 0, id_rif_type = 1, id_rif_port = 2, id_rif_vlan = 3, id_rif_mac = 4,
      id_rif_admin_v4 = 5, id_rif_admin_v6 = 6, id_rif_mtu = 7\<rparr>"

definition word_value :: "u64 \<Rightarrow> sai_attribute_value" where
  "word_value w = \<lparr>val_word = w, val_list = None, val_chardata = [], val_mac = [], val_ipaddr = IpFamily 0\<rparr>"

definition sample_rif_attrs :: "sai_attribute list" where
  "sample_rif_attrs = [\<lparr>attr_id = 0, attr_value = word_value 3\<rparr>, \<lparr>attr_id = 1, attr_value = word_value 1\<rparr>,
     \<lparr>attr_id = 3, attr_value = word_value 100\<rparr>]"

theorem create_router_interface_exact_witness:
  "\<exists>oid. stub_create_router_interface sample_rif_ids True (length sample_rif_attrs)
     (Some sample_rif_attrs) 8 = Inr (Inr oid, 9)"
proof -
  have "rif_ids_ok sample_rif_ids" by code_simp
  moreover have "stub_object_to_type 3 SAI_OBJECT_TYPE_VIRTUAL_ROUTER = Inr 0" by code_simp
  then have "rif_request sample_rif_ids sample_rif_attrs"
    by (simp add: rif_request_def sample_rif_ids_def sample_rif_attrs_def oid_of_type_def attr_of_def
        word_value_def val_u64_def s32_def SAI_ROUTER_INTERFACE_TYPE_VLAN_def)
  moreover have "length sample_rif_attrs \<le> 65536" by (simp add: sample_rif_attrs_def)
  ultimately show ?thesis
    using create_router_interface_exact [of sample_rif_ids sample_rif_attrs 8] by auto
qed

section \<open>Virtual routers\<close>

lemma router_setter_refuses:
  assumes "stub_object_to_type oid SAI_OBJECT_TYPE_VIRTUAL_ROUTER = Inr k"
    and "v \<in> set (router_vendor_attribs ids)" and "ve_setter v = Some setter"
  shows "setter oid val db = Inr (SAI_STATUS_INVALID_PARAMETER, db)"
proof -
  have "stub_object_to_type oid SAI_OBJECT_TYPE_PORT = Inl SAI_STATUS_INVALID_PARAMETER"
    using assms(1)
    by (auto simp: stub_object_to_type_def SAI_OBJECT_TYPE_PORT_def SAI_OBJECT_TYPE_VIRTUAL_ROUTER_def
        split: if_splits)
  then show ?thesis
    using assms(2,3)
    by (auto simp: vendor_defs setter_defs set_checked_def)
qed

text \<open>Setting an attribute of a virtual router always fails: for every id of the type virtual router
  and every attribute the call returns an error, because the setters decode the id as a port.\<close>

theorem router_set_always_refused:
  assumes "stub_object_to_type oid SAI_OBJECT_TYPE_VIRTUAL_ROUTER = Inr k"
  shows "\<exists>status. stub_set_virtual_router_attribute ids calloc_ok oid attr n = Inr (status, n)
    \<and> status \<noteq> SAI_STATUS_SUCCESS"
proof (cases "check_attribs_metadata calloc_ok 1 (map_option (\<lambda>a. [a]) attr)
    (Some (router_attribs ids)) (Some (router_vendor_attribs ids)) OpSet = SAI_STATUS_SUCCESS")
  case False
  then show ?thesis by (simp add: stub_set_virtual_router_attribute_def sai_set_attribute_def)
next
  case True
  then obtain a where a: "attr = Some a"
    by (cases attr) (auto simp: check_attribs_metadata_def status_defs)
  have perm: "attr_permitted (router_attribs ids) (router_vendor_attribs ids) OpSet a"
    and len: "length (router_attribs ids) \<le> length (router_vendor_attribs ids)"
    using check_success_permitted [OF True] a by (auto simp: attrs_permitted_def attr_array_def)
  then obtain j where j: "find_index (attr_id a) (router_attribs ids) 0 = Some j"
    by (auto simp: attr_permitted_def split: option.splits)
  then have "j < length (router_vendor_attribs ids)" using find_index_0 len by fastforce
  then have mem: "router_vendor_attribs ids ! j \<in> set (router_vendor_attribs ids)" by simp
  then obtain setter where setter: "ve_setter (router_vendor_attribs ids ! j) = Some setter"
    by (auto simp: vendor_defs)
  show ?thesis
    using True a j setter router_setter_refuses [OF assms mem setter]
    by (simp add: stub_set_virtual_router_attribute_def sai_set_attribute_def status_defs
        set_dispatch_attrib_handler_def find_functionality_attrib_index_def)
qed

theorem router_set_always_refused_witness:
  "\<exists>status. stub_set_virtual_router_attribute
     \<lparr>id_admin_v4_state = 0, id_admin_v6_state = 1, id_router_mac = 2, id_violation_ttl1 = 3,
      id_violation_ip_options = 4\<rparr> True 3 (Some \<lparr>attr_id = 0, attr_value = word_value 1\<rparr>) 1
     = Inr (status, 1)"
proof -
  have "stub_object_to_type 3 SAI_OBJECT_TYPE_VIRTUAL_ROUTER = Inr 0" by code_simp
  from router_set_always_refused [OF this] show ?thesis by blast
qed

end
