(* ===== verification/StubApi.thy ===== *)
theory StubApi
  imports StubObject
begin

text \<open>
  The entry points of the stub, \<^verbatim>\<open>stub_sai_interfacequery.c\<close>: the services of the caller (the two
  functions that are tested for NULL), whether the library is initialised, and the tables it hands out.
  The numbers of the APIs and log levels come from the older header; those that the code names are cases here, any other
  number is \<open>OtherApi\<close> and \<open>OtherLevel\<close>.
\<close>

datatype sai_api =
  ApiSwitch | ApiPort | ApiFdb | ApiVlan | ApiVirtualRouter | ApiRoute | ApiNextHop | ApiNextHopGroup
| ApiRouterInterface | ApiNeighbor | ApiQosMaps | ApiAcl | ApiHostInterface | ApiMirror
| ApiSamplepacket | ApiStp | ApiLag | OtherApi int

datatype sai_log_level =
  LogDebug | LogInfo | LogNotice | LogWarn | LogError | LogCritical | OtherLevel int

datatype api_table =
  SwitchApi | PortApi | FdbApi | VlanApi | RouterApi | RouteApi | NextHopApi | NextHopGroupApi
| RouterInterfaceApi | NeighborApi | HostInterfaceApi

record 'f service_method_table =
  profile_get_value :: "'f option"
  profile_get_next_value :: "'f option"

record 'f sai_api_state =
  g_services :: "'f service_method_table"
  g_initialized :: bool

definition SAI_STATUS_UNINITIALIZED :: sai_status where "SAI_STATUS_UNINITIALIZED = - 12"

definition sai_api_initialize ::
  "u64 \<Rightarrow> 'f service_method_table option \<Rightarrow> 'f sai_api_state \<Rightarrow> sai_status \<times> 'f sai_api_state" where
  "sai_api_initialize flags services st =
     (case services of
        None \<Rightarrow> (SAI_STATUS_INVALID_PARAMETER, st)
      | Some tab \<Rightarrow>
          if profile_get_next_value tab = None \<or> profile_get_value tab = None
          then (SAI_STATUS_INVALID_PARAMETER, st)
          else if flags \<noteq> 0 then (SAI_STATUS_INVALID_PARAMETER, st\<lparr>g_services := tab\<rparr>)
          else (SAI_STATUS_SUCCESS, st\<lparr>g_services := tab, g_initialized := True\<rparr>))"

fun api_method_table :: "sai_api \<Rightarrow> sai_status + api_table" where
  "api_method_table ApiSwitch = Inr SwitchApi"
| "api_method_table ApiPort = Inr PortApi"
| "api_method_table ApiFdb = Inr FdbApi"
| "api_method_table ApiVlan = Inr VlanApi"
| "api_method_table ApiVirtualRouter = Inr RouterApi"
| "api_method_table ApiRoute = Inr RouteApi"
| "api_method_table ApiNextHop = Inr NextHopApi"
| "api_method_table ApiNextHopGroup = Inr NextHopGroupApi"
| "api_method_table ApiRouterInterface = Inr RouterInterfaceApi"
| "api_method_table ApiNeighbor = Inr NeighborApi"
| "api_method_table ApiHostInterface = Inr HostInterfaceApi"
| "api_method_table (OtherApi n) = Inl SAI_STATUS_INVALID_PARAMETER"
| "api_method_table api = Inl SAI_STATUS_NOT_IMPLEMENTED"

text \<open>\<open>has_out\<close> tells that the out parameter is not NULL.\<close>

definition sai_api_query :: "sai_api \<Rightarrow> bool \<Rightarrow> 'f sai_api_state \<Rightarrow> sai_status + api_table" where
  "sai_api_query sai_api_id has_out st =
     (if \<not> has_out then Inl SAI_STATUS_INVALID_PARAMETER
      else if \<not> g_initialized st then Inl SAI_STATUS_UNINITIALIZED
      else api_method_table sai_api_id)"

definition sai_api_uninitialize :: "'f sai_api_state \<Rightarrow> sai_status \<times> 'f sai_api_state" where
  "sai_api_uninitialize st =
     (SAI_STATUS_SUCCESS,
      \<lparr>g_services = \<lparr>profile_get_value = None, profile_get_next_value = None\<rparr>, g_initialized = False\<rparr>)"

definition sai_log_set :: "sai_api \<Rightarrow> sai_log_level \<Rightarrow> sai_status" where
  "sai_log_set sai_api_id log_level =
     (case log_level of
        OtherLevel n \<Rightarrow> SAI_STATUS_INVALID_PARAMETER
      | _ \<Rightarrow> (case sai_api_id of OtherApi n \<Rightarrow> SAI_STATUS_INVALID_PARAMETER | _ \<Rightarrow> SAI_STATUS_SUCCESS))"

end
