(* ===== verification/StubPort.thy ===== *)
theory StubPort
  imports StubL3
begin

text \<open>
  Ports of the stub (\<^verbatim>\<open>stub_sai_port.c\<close>). Nothing is stored: the state is \<open>unit\<close>. The attribute ids and
  the enumerators that the headers of the repository no longer define are parameters: a function from
  their names to numbers.
\<close>

section \<open>Names\<close>

datatype sai_port_attr =
    SAI_PORT_ATTR_TYPE | SAI_PORT_ATTR_OPER_STATUS
  | SAI_PORT_ATTR_HW_LANE_LIST | SAI_PORT_ATTR_SUPPORTED_BREAKOUT_MODE
  | SAI_PORT_ATTR_CURRENT_BREAKOUT_MODE | SAI_PORT_ATTR_SPEED
  | SAI_PORT_ATTR_AUTO_NEG_MODE | SAI_PORT_ATTR_ADMIN_STATE
  | SAI_PORT_ATTR_MEDIA_TYPE | SAI_PORT_ATTR_PORT_VLAN_ID
  | SAI_PORT_ATTR_DEFAULT_VLAN_PRIORITY | SAI_PORT_ATTR_INGRESS_FILTERING
  | SAI_PORT_ATTR_DROP_UNTAGGED | SAI_PORT_ATTR_DROP_TAGGED
  | SAI_PORT_ATTR_INTERNAL_LOOPBACK | SAI_PORT_ATTR_FDB_LEARNING
  | SAI_PORT_ATTR_UPDATE_DSCP | SAI_PORT_ATTR_MTU
  | SAI_PORT_ATTR_FLOOD_STORM_CONTROL_POLICER_ID | SAI_PORT_ATTR_BROADCAST_STORM_CONTROL_POLICER_ID
  | SAI_PORT_ATTR_MULTICAST_STORM_CONTROL_POLICER_ID | SAI_PORT_ATTR_GLOBAL_FLOW_CONTROL
  | SAI_PORT_ATTR_MAX_LEARNED_ADDRESSES | SAI_PORT_ATTR_FDB_LEARNING_LIMIT_VIOLATION
  | SAI_PORT_ATTR_INGRESS_MIRROR_SESSION | SAI_PORT_ATTR_EGRESS_MIRROR_SESSION
  | SAI_PORT_ATTR_INGRESS_SAMPLEPACKET_ENABLE | SAI_PORT_ATTR_EGRESS_SAMPLEPACKET_ENABLE

datatype sai_port_enum =
    SAI_PORT_BREAKOUT_MODE_4_LANE | SAI_PORT_INTERNAL_LOOPBACK_NONE
  | SAI_PORT_INTERNAL_LOOPBACK_PHY | SAI_PORT_INTERNAL_LOOPBACK_MAC
  | SAI_PORT_LEARN_MODE_DISABLE | SAI_PORT_LEARN_MODE_HW
  | SAI_PORT_LEARN_MODE_DROP | SAI_PORT_LEARN_MODE_CPU_TRAP
  | SAI_PORT_LEARN_MODE_CPU_LOG | SAI_PORT_MEDIA_TYPE_QSFP_COPPER

definition SAI_PORT_TYPE_LOGICAL :: u32 where "SAI_PORT_TYPE_LOGICAL = 0"
definition SAI_PORT_OPER_STATUS_UP :: u32 where "SAI_PORT_OPER_STATUS_UP = 1"

text \<open>A vendor entry whose implemented and supported operations differ.\<close>

definition vendor_entry2 where
  "vendor_entry2 i implemented supported getter setter =
     \<lparr>ve_id = i, is_implemented = implemented, is_supported = supported, ve_getter = getter,
      ve_setter = setter\<rparr>"

section \<open>Setters\<close>

definition stub_port_state_set where
  "stub_port_state_set key (val :: sai_attribute_value) (db :: unit) = set_checked SAI_OBJECT_TYPE_PORT key db"

definition stub_port_update_dscp_set where
  "stub_port_update_dscp_set key (val :: sai_attribute_value) (db :: unit) = set_checked SAI_OBJECT_TYPE_PORT key db"

definition stub_port_storm_control_set where
  "stub_port_storm_control_set key (val :: sai_attribute_value) (db :: unit) = set_checked SAI_OBJECT_TYPE_PORT key db"

definition stub_port_fdb_violation_set where
  "stub_port_fdb_violation_set key (val :: sai_attribute_value) (db :: unit) = set_checked SAI_OBJECT_TYPE_PORT key db"

definition stub_port_max_learned_addr_set where
  "stub_port_max_learned_addr_set key (val :: sai_attribute_value) (db :: unit) = set_checked SAI_OBJECT_TYPE_PORT key db"

definition stub_port_media_type_set where
  "stub_port_media_type_set key (val :: sai_attribute_value) (db :: unit) = set_checked SAI_OBJECT_TYPE_PORT key db"

definition stub_port_default_vlan_set where
  "stub_port_default_vlan_set key (val :: sai_attribute_value) (db :: unit) = set_checked SAI_OBJECT_TYPE_PORT key db"

definition stub_port_default_vlan_prio_set where
  "stub_port_default_vlan_prio_set key (val :: sai_attribute_value) (db :: unit) = set_checked SAI_OBJECT_TYPE_PORT key db"

definition stub_port_ingress_filter_set where
  "stub_port_ingress_filter_set key (val :: sai_attribute_value) (db :: unit) = set_checked SAI_OBJECT_TYPE_PORT key db"

definition stub_port_mtu_set where
  "stub_port_mtu_set key (val :: sai_attribute_value) (db :: unit) = set_checked SAI_OBJECT_TYPE_PORT key db"

definition stub_port_speed_set where
  "stub_port_speed_set key (val :: sai_attribute_value) (db :: unit) = set_checked SAI_OBJECT_TYPE_PORT key db"

definition stub_port_autoneg_set where
  "stub_port_autoneg_set key (val :: sai_attribute_value) (db :: unit) = set_checked SAI_OBJECT_TYPE_PORT key db"

definition stub_port_drop_tags_set where
  "stub_port_drop_tags_set ids arg key (val :: sai_attribute_value) (db :: unit) =
     (if arg \<noteq> ids SAI_PORT_ATTR_DROP_UNTAGGED \<and> arg \<noteq> ids SAI_PORT_ATTR_DROP_TAGGED then Inl AssertFailed
      else set_checked SAI_OBJECT_TYPE_PORT key db)"

definition stub_port_internal_loopback_set where
  "stub_port_internal_loopback_set en key val (db :: unit) =
     (case stub_object_to_type key SAI_OBJECT_TYPE_PORT of
        Inl status \<Rightarrow> Inr (status, db)
      | Inr port \<Rightarrow>
          Inr (if val_u32 val \<in> {en SAI_PORT_INTERNAL_LOOPBACK_NONE, en SAI_PORT_INTERNAL_LOOPBACK_PHY,
                   en SAI_PORT_INTERNAL_LOOPBACK_MAC}
               then (SAI_STATUS_SUCCESS, db) else (SAI_STATUS_INVALID_ATTR_VALUE_0, db)))"

definition stub_port_fdb_learning_set where
  "stub_port_fdb_learning_set en key val (db :: unit) =
     (case stub_object_to_type key SAI_OBJECT_TYPE_PORT of
        Inl status \<Rightarrow> Inr (status, db)
      | Inr port \<Rightarrow>
          Inr (if val_u32 val \<in> {en SAI_PORT_LEARN_MODE_DISABLE, en SAI_PORT_LEARN_MODE_HW,
                   en SAI_PORT_LEARN_MODE_DROP, en SAI_PORT_LEARN_MODE_CPU_TRAP, en SAI_PORT_LEARN_MODE_CPU_LOG}
               then (SAI_STATUS_SUCCESS, db) else (SAI_STATUS_INVALID_ATTR_VALUE_0, db)))"

section \<open>Getters\<close>

definition stub_port_type_get where
  "stub_port_type_get key val (attr_index :: nat) (db :: unit) =
     get_checked SAI_OBJECT_TYPE_PORT key val (put_u32 SAI_PORT_TYPE_LOGICAL)"

definition stub_port_max_learned_addr_get where
  "stub_port_max_learned_addr_get key val (attr_index :: nat) (db :: unit) =
     get_checked SAI_OBJECT_TYPE_PORT key val (put_u32 100000)"

definition stub_port_fdb_violation_get where
  "stub_port_fdb_violation_get key val (attr_index :: nat) (db :: unit) =
     get_checked SAI_OBJECT_TYPE_PORT key val (put_u32 SAI_PACKET_ACTION_DROP)"

definition stub_port_media_type_get where
  "stub_port_media_type_get en key val (attr_index :: nat) (db :: unit) =
     get_checked SAI_OBJECT_TYPE_PORT key val (put_u32 (en SAI_PORT_MEDIA_TYPE_QSFP_COPPER))"

definition stub_port_update_dscp_get where
  "stub_port_update_dscp_get key val (attr_index :: nat) (db :: unit) =
     get_checked SAI_OBJECT_TYPE_PORT key val (put_bool False)"

definition stub_port_storm_control_get where
  "stub_port_storm_control_get key val (attr_index :: nat) (db :: unit) =
     get_checked SAI_OBJECT_TYPE_PORT key val (put_bool False)"

definition stub_port_supported_breakout_get where
  "stub_port_supported_breakout_get key val (attr_index :: nat) (db :: unit) =
     get_checked SAI_OBJECT_TYPE_PORT key val (\<lambda>v. v)"

definition stub_port_current_breakout_get where
  "stub_port_current_breakout_get en key val (attr_index :: nat) (db :: unit) =
     get_checked SAI_OBJECT_TYPE_PORT key val (put_u32 (en SAI_PORT_BREAKOUT_MODE_4_LANE))"

definition stub_port_speed_get where
  "stub_port_speed_get key val (attr_index :: nat) (db :: unit) =
     get_checked SAI_OBJECT_TYPE_PORT key val (put_u32 40000)"

definition stub_port_autoneg_get where
  "stub_port_autoneg_get key val (attr_index :: nat) (db :: unit) =
     get_checked SAI_OBJECT_TYPE_PORT key val (put_bool False)"

definition stub_port_default_vlan_get where
  "stub_port_default_vlan_get key val (attr_index :: nat) (db :: unit) =
     get_checked SAI_OBJECT_TYPE_PORT key val (put_u16 1)"

definition stub_port_default_vlan_prio_get where
  "stub_port_default_vlan_prio_get key val (attr_index :: nat) (db :: unit) =
     get_checked SAI_OBJECT_TYPE_PORT key val (put_u8 0)"

definition stub_port_ingress_filter_get where
  "stub_port_ingress_filter_get key val (attr_index :: nat) (db :: unit) =
     get_checked SAI_OBJECT_TYPE_PORT key val (put_bool False)"

definition stub_port_internal_loopback_get where
  "stub_port_internal_loopback_get en key val (attr_index :: nat) (db :: unit) =
     get_checked SAI_OBJECT_TYPE_PORT key val (put_u32 (en SAI_PORT_INTERNAL_LOOPBACK_NONE))"

definition stub_port_fdb_learning_get where
  "stub_port_fdb_learning_get en key val (attr_index :: nat) (db :: unit) =
     get_checked SAI_OBJECT_TYPE_PORT key val (put_u32 (en SAI_PORT_LEARN_MODE_HW))"

definition stub_port_mtu_get where
  "stub_port_mtu_get key val (attr_index :: nat) (db :: unit) =
     get_checked SAI_OBJECT_TYPE_PORT key val (put_u32 1514)"

definition stub_port_state_get where
  "stub_port_state_get ids arg key val (attr_index :: nat) (db :: unit) =
     (if arg \<noteq> ids SAI_PORT_ATTR_OPER_STATUS \<and> arg \<noteq> ids SAI_PORT_ATTR_ADMIN_STATE then Inl AssertFailed
      else get_checked SAI_OBJECT_TYPE_PORT key val
             (if arg = ids SAI_PORT_ATTR_OPER_STATUS then put_u32 SAI_PORT_OPER_STATUS_UP else put_bool True))"

definition stub_port_drop_tags_get where
  "stub_port_drop_tags_get ids arg key val (attr_index :: nat) (db :: unit) =
     (if arg \<noteq> ids SAI_PORT_ATTR_DROP_UNTAGGED \<and> arg \<noteq> ids SAI_PORT_ATTR_DROP_TAGGED then Inl AssertFailed
      else get_checked SAI_OBJECT_TYPE_PORT key val (put_bool False))"

definition stub_port_hw_lanes_get where
  "stub_port_hw_lanes_get key val (attr_index :: nat) (db :: unit) =
     (case stub_object_to_type key SAI_OBJECT_TYPE_PORT of
        Inl status \<Rightarrow> Inr (status, val)
      | Inr port \<Rightarrow> stub_fill_u32list (Some [ucast port]) 1 val)"

section \<open>Tables and API functions\<close>

definition port_attribs :: "(sai_port_attr \<Rightarrow> u32) \<Rightarrow> sai_attribute_entry list" where
  "port_attribs ids =
     [attr_entry (ids SAI_PORT_ATTR_TYPE) False False False True
        ''Port type'' ValS32,
      attr_entry (ids SAI_PORT_ATTR_OPER_STATUS) False False False True
        ''Port operational status'' ValS32,
      attr_entry (ids SAI_PORT_ATTR_HW_LANE_LIST) False False False True
        ''Port HW lane list'' ValU32list,
      attr_entry (ids SAI_PORT_ATTR_SUPPORTED_BREAKOUT_MODE) False False False True
        ''Port supported breakout modes'' ValS32list,
      attr_entry (ids SAI_PORT_ATTR_CURRENT_BREAKOUT_MODE) False False False True
        ''Port current breakout mode'' ValS32,
      attr_entry (ids SAI_PORT_ATTR_SPEED) False False True True
        ''Port speed'' ValU32,
      attr_entry (ids SAI_PORT_ATTR_AUTO_NEG_MODE) False False True True
        ''Port autoneg mode'' ValBool,
      attr_entry (ids SAI_PORT_ATTR_ADMIN_STATE) False False True True
        ''Port admin state'' ValBool,
      attr_entry (ids SAI_PORT_ATTR_MEDIA_TYPE) False False True True
        ''Port media type'' ValS32,
      attr_entry (ids SAI_PORT_ATTR_PORT_VLAN_ID) False False True True
        ''Port default vlan'' ValU16,
      attr_entry (ids SAI_PORT_ATTR_DEFAULT_VLAN_PRIORITY) False False True True
        ''Port default vlan priority'' ValU8,
      attr_entry (ids SAI_PORT_ATTR_INGRESS_FILTERING) False False True True
        ''Port ingress filtering'' ValBool,
      attr_entry (ids SAI_PORT_ATTR_DROP_UNTAGGED) False False True True
        ''Port drop untageed'' ValBool,
      attr_entry (ids SAI_PORT_ATTR_DROP_TAGGED) False False True True
        ''Port drop tageed'' ValBool,
      attr_entry (ids SAI_PORT_ATTR_INTERNAL_LOOPBACK) False False True True
        ''Port internal loopback'' ValS32,
      attr_entry (ids SAI_PORT_ATTR_FDB_LEARNING) False False True True
        ''Port fdb learning'' ValS32,
      attr_entry (ids SAI_PORT_ATTR_UPDATE_DSCP) False False True True
        ''Port update DSCP'' ValBool,
      attr_entry (ids SAI_PORT_ATTR_MTU) False False True True
        ''Port mtu'' ValU32,
      attr_entry (ids SAI_PORT_ATTR_FLOOD_STORM_CONTROL_POLICER_ID) False False True True
        ''Port flood storm control'' ValBool,
      attr_entry (ids SAI_PORT_ATTR_BROADCAST_STORM_CONTROL_POLICER_ID) False False True True
        ''Port broadcast storm control'' ValBool,
      attr_entry (ids SAI_PORT_ATTR_MULTICAST_STORM_CONTROL_POLICER_ID) False False True True
        ''Port multicast storm control'' ValBool,
      attr_entry (ids SAI_PORT_ATTR_GLOBAL_FLOW_CONTROL) False False True True
        ''Port global flow control'' ValS32,
      attr_entry (ids SAI_PORT_ATTR_MAX_LEARNED_ADDRESSES) False False True True
        ''Port max learned addresses'' ValU32,
      attr_entry (ids SAI_PORT_ATTR_FDB_LEARNING_LIMIT_VIOLATION) False False True True
        ''Port fdb learning limit violation'' ValS32,
      attr_entry (ids SAI_PORT_ATTR_INGRESS_MIRROR_SESSION) False False True True
        ''Port ingress mirror session'' ValObjlist,
      attr_entry (ids SAI_PORT_ATTR_EGRESS_MIRROR_SESSION) False False True True
        ''Port egress mirror session'' ValObjlist,
      attr_entry (ids SAI_PORT_ATTR_INGRESS_SAMPLEPACKET_ENABLE) False False True True
        ''Port ingress samplepacket enable'' ValOid,
      attr_entry (ids SAI_PORT_ATTR_EGRESS_SAMPLEPACKET_ENABLE) False False True True
        ''Port egress samplepacket enable'' ValOid]"

definition port_vendor_attribs ::
  "(sai_port_attr \<Rightarrow> u32) \<Rightarrow> (sai_port_enum \<Rightarrow> u32) \<Rightarrow> (u64, unit) sai_vendor_attribute_entry list" where
  "port_vendor_attribs ids en =
     [vendor_entry2 (ids SAI_PORT_ATTR_TYPE)
        (oper_flags False False False True) (oper_flags False False False True)
        (Some stub_port_type_get)
        None,
      vendor_entry2 (ids SAI_PORT_ATTR_OPER_STATUS)
        (oper_flags False False False True) (oper_flags False False False True)
        (Some (stub_port_state_get ids (ids SAI_PORT_ATTR_OPER_STATUS)))
        None,
      vendor_entry2 (ids SAI_PORT_ATTR_HW_LANE_LIST)
        (oper_flags False False False True) (oper_flags False False False True)
        (Some stub_port_hw_lanes_get)
        None,
      vendor_entry2 (ids SAI_PORT_ATTR_SUPPORTED_BREAKOUT_MODE)
        (oper_flags False False False True) (oper_flags False False False True)
        (Some stub_port_supported_breakout_get)
        None,
      vendor_entry2 (ids SAI_PORT_ATTR_CURRENT_BREAKOUT_MODE)
        (oper_flags False False False True) (oper_flags False False False True)
        (Some (stub_port_current_breakout_get en))
        None,
      vendor_entry2 (ids SAI_PORT_ATTR_SPEED)
        (oper_flags False False True True) (oper_flags False False True True)
        (Some stub_port_speed_get)
        (Some stub_port_speed_set),
      vendor_entry2 (ids SAI_PORT_ATTR_AUTO_NEG_MODE)
        (oper_flags False False True True) (oper_flags False False True True)
        (Some stub_port_autoneg_get)
        (Some stub_port_autoneg_set),
      vendor_entry2 (ids SAI_PORT_ATTR_ADMIN_STATE)
        (oper_flags False False True True) (oper_flags False False True True)
        (Some (stub_port_state_get ids (ids SAI_PORT_ATTR_ADMIN_STATE)))
        (Some stub_port_state_set),
      vendor_entry2 (ids SAI_PORT_ATTR_MEDIA_TYPE)
        (oper_flags False False True True) (oper_flags False False True True)
        (Some (stub_port_media_type_get en))
        (Some stub_port_media_type_set),
      vendor_entry2 (ids SAI_PORT_ATTR_PORT_VLAN_ID)
        (oper_flags False False True True) (oper_flags False False True True)
        (Some stub_port_default_vlan_get)
        (Some stub_port_default_vlan_set),
      vendor_entry2 (ids SAI_PORT_ATTR_DEFAULT_VLAN_PRIORITY)
        (oper_flags False False True True) (oper_flags False False True True)
        (Some stub_port_default_vlan_prio_get)
        (Some stub_port_default_vlan_prio_set),
      vendor_entry2 (ids SAI_PORT_ATTR_INGRESS_FILTERING)
        (oper_flags False False True True) (oper_flags False False True True)
        (Some stub_port_ingress_filter_get)
        (Some stub_port_ingress_filter_set),
      vendor_entry2 (ids SAI_PORT_ATTR_DROP_UNTAGGED)
        (oper_flags False False True True) (oper_flags False False True True)
        (Some (stub_port_drop_tags_get ids (ids SAI_PORT_ATTR_DROP_UNTAGGED)))
        (Some (stub_port_drop_tags_set ids (ids SAI_PORT_ATTR_DROP_UNTAGGED))),
      vendor_entry2 (ids SAI_PORT_ATTR_DROP_TAGGED)
        (oper_flags False False True True) (oper_flags False False True True)
        (Some (stub_port_drop_tags_get ids (ids SAI_PORT_ATTR_DROP_TAGGED)))
        (Some (stub_port_drop_tags_set ids (ids SAI_PORT_ATTR_DROP_TAGGED))),
      vendor_entry2 (ids SAI_PORT_ATTR_INTERNAL_LOOPBACK)
        (oper_flags False False True True) (oper_flags False False True True)
        (Some (stub_port_internal_loopback_get en))
        (Some (stub_port_internal_loopback_set en)),
      vendor_entry2 (ids SAI_PORT_ATTR_FDB_LEARNING)
        (oper_flags False False True True) (oper_flags False False True True)
        (Some (stub_port_fdb_learning_get en))
        (Some (stub_port_fdb_learning_set en)),
      vendor_entry2 (ids SAI_PORT_ATTR_UPDATE_DSCP)
        (oper_flags False False True True) (oper_flags False False True True)
        (Some stub_port_update_dscp_get)
        (Some stub_port_update_dscp_set),
      vendor_entry2 (ids SAI_PORT_ATTR_MTU)
        (oper_flags False False True True) (oper_flags False False True True)
        (Some stub_port_mtu_get)
        (Some stub_port_mtu_set),
      vendor_entry2 (ids SAI_PORT_ATTR_FLOOD_STORM_CONTROL_POLICER_ID)
        (oper_flags False False True True) (oper_flags False False True True)
        (Some stub_port_storm_control_get)
        (Some stub_port_storm_control_set),
      vendor_entry2 (ids SAI_PORT_ATTR_BROADCAST_STORM_CONTROL_POLICER_ID)
        (oper_flags False False True True) (oper_flags False False True True)
        (Some stub_port_storm_control_get)
        (Some stub_port_storm_control_set),
      vendor_entry2 (ids SAI_PORT_ATTR_MULTICAST_STORM_CONTROL_POLICER_ID)
        (oper_flags False False True True) (oper_flags False False True True)
        (Some stub_port_storm_control_get)
        (Some stub_port_storm_control_set),
      vendor_entry2 (ids SAI_PORT_ATTR_GLOBAL_FLOW_CONTROL)
        (oper_flags False False False False) (oper_flags False False True True)
        None
        None,
      vendor_entry2 (ids SAI_PORT_ATTR_MAX_LEARNED_ADDRESSES)
        (oper_flags False False True True) (oper_flags False False True True)
        (Some stub_port_max_learned_addr_get)
        (Some stub_port_max_learned_addr_set),
      vendor_entry2 (ids SAI_PORT_ATTR_FDB_LEARNING_LIMIT_VIOLATION)
        (oper_flags False False False False) (oper_flags False False True True)
        (Some stub_port_fdb_violation_get)
        (Some stub_port_fdb_violation_set),
      vendor_entry2 (ids SAI_PORT_ATTR_INGRESS_MIRROR_SESSION)
        (oper_flags False False False False) (oper_flags False False True True)
        None
        None,
      vendor_entry2 (ids SAI_PORT_ATTR_EGRESS_MIRROR_SESSION)
        (oper_flags False False False False) (oper_flags False False True True)
        None
        None,
      vendor_entry2 (ids SAI_PORT_ATTR_INGRESS_SAMPLEPACKET_ENABLE)
        (oper_flags False False False False) (oper_flags False False True True)
        None
        None,
      vendor_entry2 (ids SAI_PORT_ATTR_EGRESS_SAMPLEPACKET_ENABLE)
        (oper_flags False False False False) (oper_flags False False True True)
        None
        None]"

definition stub_set_port_attribute where
  "stub_set_port_attribute ids en calloc_ok oid attr =
     sai_set_attribute calloc_ok oid (Some (port_attribs ids)) (Some (port_vendor_attribs ids en)) attr ()"

definition stub_get_port_attribute where
  "stub_get_port_attribute ids en calloc_ok oid attr_count attr_list =
     sai_get_attributes calloc_ok oid (Some (port_attribs ids)) (Some (port_vendor_attribs ids en))
       attr_count attr_list ()"

text \<open>The counters that are known, by their numbers: all up to \<^verbatim>\<open>IPV6_OUT_DISCARDS\<close> but the four for packets
  of more than 1518 octets.\<close>

definition port_stat_known :: "u32 \<Rightarrow> bool" where
  "port_stat_known c \<longleftrightarrow> c \<le> 27 \<or> 32 \<le> c \<and> c \<le> 61"

fun port_stats_loop :: "nat \<Rightarrow> u32 list \<Rightarrow> u64 list \<Rightarrow> nat \<Rightarrow> (sai_status \<times> u64 list) checked" where
  "port_stats_loop 0 ids counters ii = Inr (SAI_STATUS_SUCCESS, counters)"
| "port_stats_loop (Suc n) ids counters ii =
     (if length ids \<le> ii then Inl OutOfBounds
      else if \<not> port_stat_known (ids ! ii) then Inr (SAI_STATUS_INVALID_PARAMETER, counters)
      else if length counters \<le> ii then Inl OutOfBounds
      else port_stats_loop n ids (counters[ii := 0]) (ii + 1))"

definition stub_get_port_stats ::
  "u64 \<Rightarrow> u32 list option \<Rightarrow> u32 \<Rightarrow> u64 list option \<Rightarrow> (sai_status \<times> u64 list option) checked" where
  "stub_get_port_stats oid counter_ids number_of_counters counters =
     (case (counter_ids, counters) of
        (Some ids, Some cs) \<Rightarrow>
          (case stub_object_to_type oid SAI_OBJECT_TYPE_PORT of
             Inl status \<Rightarrow> Inr (status, counters)
           | Inr data \<Rightarrow>
               (case port_stats_loop (unat number_of_counters) ids cs 0 of
                  Inl e \<Rightarrow> Inl e
                | Inr (status, cs) \<Rightarrow> Inr (status, Some cs)))
      | _ \<Rightarrow> Inr (SAI_STATUS_INVALID_PARAMETER, counters))"

end
