(* ===== verification/StubSwitch.thy ===== *)
theory StubSwitch
  imports StubPort StubVlan StubNextHopGroup
begin

text \<open>
  The switch object of the stub (\<^verbatim>\<open>stub_sai_switch.c\<close>): its attributes, none of which is stored, and the
  calls that start and stop the library. Initialising the switch puts the VLAN and the next hop group
  databases in their start states. There is one switch, so the key of its attributes is \<open>unit\<close>. The
  attribute ids, the switching modes and the object type of STP instances, whose names the headers of the
  repository no longer define, are parameters.
\<close>

section \<open>Names\<close>

datatype sai_switch_attr =
    SAI_SWITCH_ATTR_PORT_NUMBER | SAI_SWITCH_ATTR_PORT_LIST
  | SAI_SWITCH_ATTR_CPU_PORT | SAI_SWITCH_ATTR_MAX_VIRTUAL_ROUTERS
  | SAI_SWITCH_ATTR_FDB_TABLE_SIZE | SAI_SWITCH_ATTR_ON_LINK_ROUTE_SUPPORTED
  | SAI_SWITCH_ATTR_OPER_STATUS | SAI_SWITCH_ATTR_MAX_NUMBER_OF_TEMP_SENSORS
  | SAI_SWITCH_ATTR_TEMP_LIST | SAI_SWITCH_ATTR_MAX_TEMP
  | SAI_SWITCH_ATTR_AVERAGE_TEMP | SAI_SWITCH_ATTR_ACL_TABLE_MINIMUM_PRIORITY
  | SAI_SWITCH_ATTR_ACL_TABLE_MAXIMUM_PRIORITY | SAI_SWITCH_ATTR_ACL_ENTRY_MINIMUM_PRIORITY
  | SAI_SWITCH_ATTR_ACL_ENTRY_MAXIMUM_PRIORITY | SAI_SWITCH_ATTR_DEFAULT_STP_INST_ID
  | SAI_SWITCH_ATTR_SWITCHING_MODE | SAI_SWITCH_ATTR_BCAST_CPU_FLOOD_ENABLE
  | SAI_SWITCH_ATTR_MCAST_CPU_FLOOD_ENABLE | SAI_SWITCH_ATTR_SRC_MAC_ADDRESS
  | SAI_SWITCH_ATTR_MAX_LEARNED_ADDRESSES | SAI_SWITCH_ATTR_FDB_AGING_TIME
  | SAI_SWITCH_ATTR_FDB_UNICAST_MISS_ACTION | SAI_SWITCH_ATTR_FDB_BROADCAST_MISS_ACTION
  | SAI_SWITCH_ATTR_FDB_MULTICAST_MISS_ACTION | SAI_SWITCH_ATTR_LAG_DEFAULT_HASH_SEED
  | SAI_SWITCH_ATTR_LAG_DEFAULT_HASH_ALGORITHM | SAI_SWITCH_ATTR_LAG_HASH
  | SAI_SWITCH_ATTR_ECMP_DEFAULT_HASH_SEED | SAI_SWITCH_ATTR_ECMP_DEFAULT_HASH_ALGORITHM
  | SAI_SWITCH_ATTR_ECMP_HASH | SAI_SWITCH_ATTR_COUNTER_REFRESH_INTERVAL
  | SAI_SWITCH_ATTR_DEFAULT_TRAP_GROUP | SAI_SWITCH_ATTR_PORT_BREAKOUT

datatype sai_switching_mode = SAI_SWITCHING_MODE_CUT_THROUGH | SAI_SWITCHING_MODE_STORE_AND_FORWARD

definition SAI_SWITCH_OPER_STATUS_UP :: u32 where "SAI_SWITCH_OPER_STATUS_UP = 1"
definition SAI_HASH_ALGORITHM_CRC :: u32 where "SAI_HASH_ALGORITHM_CRC = 0"
definition SAI_HASH_ALGORITHM_XOR :: u32 where "SAI_HASH_ALGORITHM_XOR = 1"
definition SAI_HASH_ALGORITHM_RANDOM :: u32 where "SAI_HASH_ALGORITHM_RANDOM = 2"

text \<open>The hash fields that the switch knows: source and destination IP, VLAN id, IP protocol, ethertype,
  the ports of layer 4, the MAC addresses and the ingress port; not those of inner headers.\<close>

definition native_hash_fields :: "u32 list" where
  "native_hash_fields = [0, 1, 4, 5, 6, 7, 8, 9, 10, 11]"

section \<open>Setters\<close>

definition stub_switch_mode_set where
  "stub_switch_mode_set en (key :: unit) val (db :: unit) =
     ((if val_u32 val = en SAI_SWITCHING_MODE_CUT_THROUGH \<or> val_u32 val = en SAI_SWITCHING_MODE_STORE_AND_FORWARD
      then Inr (SAI_STATUS_SUCCESS, db) else Inr (SAI_STATUS_INVALID_ATTR_VALUE_0, db))
        :: (sai_status \<times> unit) checked)"

definition stub_switch_default_port_vlan_set where
  "stub_switch_default_port_vlan_set (key :: unit) (val :: sai_attribute_value) (db :: unit) =
     (Inr (SAI_STATUS_SUCCESS, db) :: (sai_status \<times> unit) checked)"

definition stub_switch_aging_time_set where
  "stub_switch_aging_time_set (key :: unit) (val :: sai_attribute_value) (db :: unit) =
     (Inr (SAI_STATUS_SUCCESS, db) :: (sai_status \<times> unit) checked)"

definition stub_switch_ecmp_hash_seed_set where
  "stub_switch_ecmp_hash_seed_set (key :: unit) (val :: sai_attribute_value) (db :: unit) =
     (Inr (SAI_STATUS_SUCCESS, db) :: (sai_status \<times> unit) checked)"

definition stub_switch_counter_refresh_set where
  "stub_switch_counter_refresh_set (key :: unit) (val :: sai_attribute_value) (db :: unit) =
     (Inr (SAI_STATUS_SUCCESS, db) :: (sai_status \<times> unit) checked)"

definition stub_switch_default_trap_channel_set where
  "stub_switch_default_trap_channel_set (key :: unit) (val :: sai_attribute_value) (db :: unit) =
     (Inr (SAI_STATUS_SUCCESS, db) :: (sai_status \<times> unit) checked)"

definition stub_switch_default_trap_channel_fd_set where
  "stub_switch_default_trap_channel_fd_set (key :: unit) (val :: sai_attribute_value) (db :: unit) =
     (Inr (SAI_STATUS_SUCCESS, db) :: (sai_status \<times> unit) checked)"

definition stub_switch_default_trap_group_set where
  "stub_switch_default_trap_group_set (key :: unit) (val :: sai_attribute_value) (db :: unit) =
     (Inr (SAI_STATUS_SUCCESS, db) :: (sai_status \<times> unit) checked)"

definition stub_switch_ecmp_hash_algo_set where
  "stub_switch_ecmp_hash_algo_set (key :: unit) val (db :: unit) =
     ((if val_u32 val \<in> {SAI_HASH_ALGORITHM_XOR, SAI_HASH_ALGORITHM_CRC, SAI_HASH_ALGORITHM_RANDOM}
      then Inr (SAI_STATUS_SUCCESS, db) else Inr (SAI_STATUS_INVALID_ATTR_VALUE_0, db))
        :: (sai_status \<times> unit) checked)"

text \<open>The elements are read as 32-bit numbers, through a pointer that is not tested.\<close>

fun hash_fields_loop :: "nat \<Rightarrow> u64 list option \<Rightarrow> nat \<Rightarrow> sai_status checked" where
  "hash_fields_loop 0 fs ii = Inr SAI_STATUS_SUCCESS"
| "hash_fields_loop (Suc n) fs ii =
     (case fs of
        None \<Rightarrow> Inl NullDeref
      | Some xs \<Rightarrow>
          if length xs \<le> ii then Inl OutOfBounds
          else if ucast (xs ! ii) \<in> set native_hash_fields then hash_fields_loop n fs (Suc ii)
          else Inr SAI_STATUS_INVALID_ATTR_VALUE_0)"

definition stub_switch_ecmp_hash_fields_set where
  "stub_switch_ecmp_hash_fields_set (key :: unit) val (db :: unit) =
     (case hash_fields_loop (unat (val_u32 val)) (val_list val) 0 of
        Inl e \<Rightarrow> Inl e
      | Inr status \<Rightarrow> Inr (status, db))"

section \<open>Getters\<close>

definition stub_switch_port_number_get where
  "stub_switch_port_number_get (key :: unit) (val :: sai_attribute_value) (attr_index :: nat) (db :: unit) =
     (Inr (SAI_STATUS_SUCCESS, put_u32 (of_nat PORT_NUMBER) val) :: (sai_status \<times> sai_attribute_value) checked)"

definition stub_switch_max_vr_get where
  "stub_switch_max_vr_get (key :: unit) (val :: sai_attribute_value) (attr_index :: nat) (db :: unit) =
     (Inr (SAI_STATUS_SUCCESS, put_u32 0 val) :: (sai_status \<times> sai_attribute_value) checked)"

definition stub_switch_fdb_size_get where
  "stub_switch_fdb_size_get (key :: unit) (val :: sai_attribute_value) (attr_index :: nat) (db :: unit) =
     (Inr (SAI_STATUS_SUCCESS, put_u32 100000 val) :: (sai_status \<times> sai_attribute_value) checked)"

definition stub_switch_max_num_sensors_get where
  "stub_switch_max_num_sensors_get (key :: unit) (val :: sai_attribute_value) (attr_index :: nat) (db :: unit) =
     (Inr (SAI_STATUS_SUCCESS, put_u8 1 val) :: (sai_status \<times> sai_attribute_value) checked)"

definition stub_switch_max_temp_get where
  "stub_switch_max_temp_get (key :: unit) (val :: sai_attribute_value) (attr_index :: nat) (db :: unit) =
     (Inr (SAI_STATUS_SUCCESS, put_u32 50 val) :: (sai_status \<times> sai_attribute_value) checked)"

definition stub_switch_average_temp_get where
  "stub_switch_average_temp_get (key :: unit) (val :: sai_attribute_value) (attr_index :: nat) (db :: unit) =
     (Inr (SAI_STATUS_SUCCESS, put_u32 50 val) :: (sai_status \<times> sai_attribute_value) checked)"

definition stub_switch_on_link_get where
  "stub_switch_on_link_get (key :: unit) (val :: sai_attribute_value) (attr_index :: nat) (db :: unit) =
     (Inr (SAI_STATUS_SUCCESS, put_bool True val) :: (sai_status \<times> sai_attribute_value) checked)"

definition stub_switch_oper_status_get where
  "stub_switch_oper_status_get (key :: unit) (val :: sai_attribute_value) (attr_index :: nat) (db :: unit) =
     (Inr (SAI_STATUS_SUCCESS, put_u32 SAI_SWITCH_OPER_STATUS_UP val) :: (sai_status \<times> sai_attribute_value) checked)"

definition stub_switch_acl_table_min_prio_get where
  "stub_switch_acl_table_min_prio_get (key :: unit) (val :: sai_attribute_value) (attr_index :: nat) (db :: unit) =
     (Inr (SAI_STATUS_SUCCESS, val) :: (sai_status \<times> sai_attribute_value) checked)"

definition stub_switch_acl_table_max_prio_get where
  "stub_switch_acl_table_max_prio_get (key :: unit) (val :: sai_attribute_value) (attr_index :: nat) (db :: unit) =
     (Inr (SAI_STATUS_SUCCESS, val) :: (sai_status \<times> sai_attribute_value) checked)"

definition stub_switch_acl_entry_min_prio_get where
  "stub_switch_acl_entry_min_prio_get (key :: unit) (val :: sai_attribute_value) (attr_index :: nat) (db :: unit) =
     (Inr (SAI_STATUS_SUCCESS, val) :: (sai_status \<times> sai_attribute_value) checked)"

definition stub_switch_acl_entry_max_prio_get where
  "stub_switch_acl_entry_max_prio_get (key :: unit) (val :: sai_attribute_value) (attr_index :: nat) (db :: unit) =
     (Inr (SAI_STATUS_SUCCESS, val) :: (sai_status \<times> sai_attribute_value) checked)"

definition stub_switch_mode_get where
  "stub_switch_mode_get en (key :: unit) (val :: sai_attribute_value) (attr_index :: nat) (db :: unit) =
     (Inr (SAI_STATUS_SUCCESS, put_u32 (en SAI_SWITCHING_MODE_CUT_THROUGH) val) :: (sai_status \<times> sai_attribute_value) checked)"

definition stub_switch_default_port_vlan_get where
  "stub_switch_default_port_vlan_get (key :: unit) (val :: sai_attribute_value) (attr_index :: nat) (db :: unit) =
     (Inr (SAI_STATUS_SUCCESS, put_u16 1 val) :: (sai_status \<times> sai_attribute_value) checked)"

definition stub_switch_src_mac_get where
  "stub_switch_src_mac_get (key :: unit) (val :: sai_attribute_value) (attr_index :: nat) (db :: unit) =
     (Inr (SAI_STATUS_SUCCESS, val) :: (sai_status \<times> sai_attribute_value) checked)"

definition stub_switch_aging_time_get where
  "stub_switch_aging_time_get (key :: unit) (val :: sai_attribute_value) (attr_index :: nat) (db :: unit) =
     (Inr (SAI_STATUS_SUCCESS, put_u32 0 val) :: (sai_status \<times> sai_attribute_value) checked)"

definition stub_switch_ecmp_hash_seed_get where
  "stub_switch_ecmp_hash_seed_get (key :: unit) (val :: sai_attribute_value) (attr_index :: nat) (db :: unit) =
     (Inr (SAI_STATUS_SUCCESS, put_u32 0 val) :: (sai_status \<times> sai_attribute_value) checked)"

definition stub_switch_ecmp_hash_algo_get where
  "stub_switch_ecmp_hash_algo_get (key :: unit) (val :: sai_attribute_value) (attr_index :: nat) (db :: unit) =
     (Inr (SAI_STATUS_SUCCESS, put_u32 SAI_HASH_ALGORITHM_XOR val) :: (sai_status \<times> sai_attribute_value) checked)"

definition stub_switch_ecmp_hash_fields_get where
  "stub_switch_ecmp_hash_fields_get (key :: unit) (val :: sai_attribute_value) (attr_index :: nat) (db :: unit) =
     (Inr (SAI_STATUS_SUCCESS, val) :: (sai_status \<times> sai_attribute_value) checked)"

definition stub_switch_counter_refresh_get where
  "stub_switch_counter_refresh_get (key :: unit) (val :: sai_attribute_value) (attr_index :: nat) (db :: unit) =
     (Inr (SAI_STATUS_SUCCESS, val) :: (sai_status \<times> sai_attribute_value) checked)"

definition stub_switch_default_trap_channel_get where
  "stub_switch_default_trap_channel_get (key :: unit) (val :: sai_attribute_value) (attr_index :: nat) (db :: unit) =
     (Inr (SAI_STATUS_SUCCESS, val) :: (sai_status \<times> sai_attribute_value) checked)"

definition stub_switch_default_trap_channel_fd_get where
  "stub_switch_default_trap_channel_fd_get (key :: unit) (val :: sai_attribute_value) (attr_index :: nat) (db :: unit) =
     (Inr (SAI_STATUS_SUCCESS, val) :: (sai_status \<times> sai_attribute_value) checked)"

definition stub_switch_default_trap_group_get where
  "stub_switch_default_trap_group_get (key :: unit) (val :: sai_attribute_value) (attr_index :: nat) (db :: unit) =
     (Inr (SAI_STATUS_SUCCESS, val) :: (sai_status \<times> sai_attribute_value) checked)"

text \<open>The port ids are made in a loop that stops at the first failure.\<close>

fun port_ids_loop :: "nat \<Rightarrow> u64 list \<Rightarrow> nat \<Rightarrow> sai_status + u64 list" where
  "port_ids_loop 0 ports ii = Inr ports"
| "port_ids_loop (Suc n) ports ii =
     (case stub_create_object SAI_OBJECT_TYPE_PORT (of_nat ii) of
        Inl status \<Rightarrow> Inl status
      | Inr oid \<Rightarrow> port_ids_loop n (ports @ [oid]) (Suc ii))"

definition stub_switch_port_list_get where
  "stub_switch_port_list_get (key :: unit) val (attr_index :: nat) (db :: unit) =
     (case port_ids_loop PORT_NUMBER [] 0 of
        Inl status \<Rightarrow> Inr (status, val)
      | Inr ports \<Rightarrow> stub_fill_objlist (Some ports) (of_nat PORT_NUMBER) val)"

definition stub_switch_cpu_port_get where
  "stub_switch_cpu_port_get (key :: unit) val (attr_index :: nat) (db :: unit) =
     get_object SAI_OBJECT_TYPE_PORT 1 val"

text \<open>The status of \<open>stub_fill_s32list\<close> is not returned.\<close>

definition stub_switch_temp_get where
  "stub_switch_temp_get (key :: unit) val (attr_index :: nat) (db :: unit) =
     (case stub_fill_s32list (Some [50]) 1 val of
        Inl e \<Rightarrow> Inl e
      | Inr (status, val) \<Rightarrow> Inr (SAI_STATUS_SUCCESS, val))"

definition stub_switch_default_stp_get where
  "stub_switch_default_stp_get stp (key :: unit) val (attr_index :: nat) (db :: unit) = get_object stp 1 val"

section \<open>Tables and attribute calls\<close>

definition switch_attribs :: "(sai_switch_attr \<Rightarrow> u32) \<Rightarrow> sai_attribute_entry list" where
  "switch_attribs ids =
     [attr_entry (ids SAI_SWITCH_ATTR_PORT_NUMBER) False False False True
        ''Switch ports number'' ValU32,
      attr_entry (ids SAI_SWITCH_ATTR_PORT_LIST) False False False True
        ''Switch ports list'' ValObjlist,
      attr_entry (ids SAI_SWITCH_ATTR_CPU_PORT) False False False True
        ''Switch CPU port'' ValOid,
      attr_entry (ids SAI_SWITCH_ATTR_MAX_VIRTUAL_ROUTERS) False False False True
        ''Switch max virtual routers'' ValU32,
      attr_entry (ids SAI_SWITCH_ATTR_FDB_TABLE_SIZE) False False False True
        ''Switch FDB table size'' ValU32,
      attr_entry (ids SAI_SWITCH_ATTR_ON_LINK_ROUTE_SUPPORTED) False False False True
        ''Switch on link route supported'' ValBool,
      attr_entry (ids SAI_SWITCH_ATTR_OPER_STATUS) False False False True
        ''Switch operational status'' ValS32,
      attr_entry (ids SAI_SWITCH_ATTR_MAX_NUMBER_OF_TEMP_SENSORS) False False False True
        ''Switch Maximum sensors'' ValU8,
      attr_entry (ids SAI_SWITCH_ATTR_TEMP_LIST) False False False True
        ''Switch temperature list'' ValS32list,
      attr_entry (ids SAI_SWITCH_ATTR_MAX_TEMP) False False False True
        ''Switch maximum temperature'' ValS32,
      attr_entry (ids SAI_SWITCH_ATTR_AVERAGE_TEMP) False False False True
        ''Switch current temperature'' ValS32,
      attr_entry (ids SAI_SWITCH_ATTR_ACL_TABLE_MINIMUM_PRIORITY) False False False True
        ''Switch ACL table min prio'' ValU32,
      attr_entry (ids SAI_SWITCH_ATTR_ACL_TABLE_MAXIMUM_PRIORITY) False False False True
        ''Switch ACL table max prio'' ValU32,
      attr_entry (ids SAI_SWITCH_ATTR_ACL_ENTRY_MINIMUM_PRIORITY) False False False True
        ''Switch ACL entry min prio'' ValU32,
      attr_entry (ids SAI_SWITCH_ATTR_ACL_ENTRY_MAXIMUM_PRIORITY) False False False True
        ''Switch ACL entry max prio'' ValU32,
      attr_entry (ids SAI_SWITCH_ATTR_DEFAULT_STP_INST_ID) False False False True
        ''Switch maximum temperature'' ValOid,
      attr_entry (ids SAI_SWITCH_ATTR_SWITCHING_MODE) False False True True
        ''Switch switching mode'' ValS32,
      attr_entry (ids SAI_SWITCH_ATTR_BCAST_CPU_FLOOD_ENABLE) False False True True
        ''Switch broadcast flood control to cpu'' ValBool,
      attr_entry (ids SAI_SWITCH_ATTR_MCAST_CPU_FLOOD_ENABLE) False False True True
        ''Switch multicast flood control to cpu'' ValBool,
      attr_entry (ids SAI_SWITCH_ATTR_SRC_MAC_ADDRESS) False False True True
        ''Switch source MAC address'' ValMac,
      attr_entry (ids SAI_SWITCH_ATTR_MAX_LEARNED_ADDRESSES) False False True True
        ''Switch maximum number of learned MAC addresses'' ValU32,
      attr_entry (ids SAI_SWITCH_ATTR_FDB_AGING_TIME) False False True True
        ''Switch FDB aging time'' ValU32,
      attr_entry (ids SAI_SWITCH_ATTR_FDB_UNICAST_MISS_ACTION) False False True True
        ''Switch flood control for unknown unicast address'' ValS32,
      attr_entry (ids SAI_SWITCH_ATTR_FDB_BROADCAST_MISS_ACTION) False False True True
        ''Switch flood control for unknown broadcast address'' ValS32,
      attr_entry (ids SAI_SWITCH_ATTR_FDB_MULTICAST_MISS_ACTION) False False True True
        ''Switch flood control for unknown multicast address'' ValS32,
      attr_entry (ids SAI_SWITCH_ATTR_LAG_DEFAULT_HASH_SEED) False False True True
        ''Switch LAG hash seed'' ValU32,
      attr_entry (ids SAI_SWITCH_ATTR_LAG_DEFAULT_HASH_ALGORITHM) False False True True
        ''Switch LAG hash algorithm'' ValS32,
      attr_entry (ids SAI_SWITCH_ATTR_LAG_HASH) False False True True
        ''Switch LAG hash fields'' ValS32list,
      attr_entry (ids SAI_SWITCH_ATTR_ECMP_DEFAULT_HASH_SEED) False False True True
        ''Switch ECMP hash seed'' ValU32,
      attr_entry (ids SAI_SWITCH_ATTR_ECMP_DEFAULT_HASH_ALGORITHM) False False True True
        ''Switch ECMP hash algorithm'' ValS32,
      attr_entry (ids SAI_SWITCH_ATTR_ECMP_HASH) False False True True
        ''Switch ECMP hash fields'' ValS32list,
      attr_entry (ids SAI_SWITCH_ATTR_COUNTER_REFRESH_INTERVAL) False False True True
        ''Switch counter refresh interval'' ValU32,
      attr_entry (ids SAI_SWITCH_ATTR_DEFAULT_TRAP_GROUP) False False True True
        ''Switch default trap group'' ValOid,
      attr_entry (ids SAI_SWITCH_ATTR_PORT_BREAKOUT) False False True False
        ''Switch port breakout mode'' ValOid]"

definition switch_vendor_attribs ::
  "(sai_switch_attr \<Rightarrow> u32) \<Rightarrow> (sai_switching_mode \<Rightarrow> u32) \<Rightarrow> nat \<Rightarrow>
     (unit, unit) sai_vendor_attribute_entry list" where
  "switch_vendor_attribs ids en stp =
     [vendor_entry2 (ids SAI_SWITCH_ATTR_PORT_NUMBER)
        (oper_flags False False False True) (oper_flags False False False True)
        (Some stub_switch_port_number_get)
        None,
      vendor_entry2 (ids SAI_SWITCH_ATTR_PORT_LIST)
        (oper_flags False False False True) (oper_flags False False False True)
        (Some stub_switch_port_list_get)
        None,
      vendor_entry2 (ids SAI_SWITCH_ATTR_CPU_PORT)
        (oper_flags False False False True) (oper_flags False False False True)
        (Some stub_switch_cpu_port_get)
        None,
      vendor_entry2 (ids SAI_SWITCH_ATTR_MAX_VIRTUAL_ROUTERS)
        (oper_flags False False False True) (oper_flags False False False True)
        (Some stub_switch_max_vr_get)
        None,
      vendor_entry2 (ids SAI_SWITCH_ATTR_FDB_TABLE_SIZE)
        (oper_flags False False False True) (oper_flags False False False True)
        (Some stub_switch_fdb_size_get)
        None,
      vendor_entry2 (ids SAI_SWITCH_ATTR_ON_LINK_ROUTE_SUPPORTED)
        (oper_flags False False False True) (oper_flags False False False True)
        (Some stub_switch_on_link_get)
        None,
      vendor_entry2 (ids SAI_SWITCH_ATTR_OPER_STATUS)
        (oper_flags False False False True) (oper_flags False False False True)
        (Some stub_switch_oper_status_get)
        None,
      vendor_entry2 (ids SAI_SWITCH_ATTR_MAX_NUMBER_OF_TEMP_SENSORS)
        (oper_flags False False False True) (oper_flags False False False True)
        (Some stub_switch_max_num_sensors_get)
        None,
      vendor_entry2 (ids SAI_SWITCH_ATTR_TEMP_LIST)
        (oper_flags False False False True) (oper_flags False False False True)
        (Some stub_switch_temp_get)
        None,
      vendor_entry2 (ids SAI_SWITCH_ATTR_MAX_TEMP)
        (oper_flags False False False True) (oper_flags False False False True)
        (Some stub_switch_max_temp_get)
        None,
      vendor_entry2 (ids SAI_SWITCH_ATTR_AVERAGE_TEMP)
        (oper_flags False False False True) (oper_flags False False False True)
        (Some stub_switch_average_temp_get)
        None,
      vendor_entry2 (ids SAI_SWITCH_ATTR_ACL_TABLE_MINIMUM_PRIORITY)
        (oper_flags False False False True) (oper_flags False False False True)
        (Some stub_switch_acl_table_min_prio_get)
        None,
      vendor_entry2 (ids SAI_SWITCH_ATTR_ACL_TABLE_MAXIMUM_PRIORITY)
        (oper_flags False False False True) (oper_flags False False False True)
        (Some stub_switch_acl_table_max_prio_get)
        None,
      vendor_entry2 (ids SAI_SWITCH_ATTR_ACL_ENTRY_MINIMUM_PRIORITY)
        (oper_flags False False False True) (oper_flags False False False True)
        (Some stub_switch_acl_entry_min_prio_get)
        None,
      vendor_entry2 (ids SAI_SWITCH_ATTR_ACL_ENTRY_MAXIMUM_PRIORITY)
        (oper_flags False False False True) (oper_flags False False False True)
        (Some stub_switch_acl_entry_max_prio_get)
        None,
      vendor_entry2 (ids SAI_SWITCH_ATTR_DEFAULT_STP_INST_ID)
        (oper_flags False False False True) (oper_flags False False False True)
        (Some (stub_switch_default_stp_get stp))
        None,
      vendor_entry2 (ids SAI_SWITCH_ATTR_SWITCHING_MODE)
        (oper_flags False False True True) (oper_flags False False True True)
        (Some (stub_switch_mode_get en))
        (Some (stub_switch_mode_set en)),
      vendor_entry2 (ids SAI_SWITCH_ATTR_BCAST_CPU_FLOOD_ENABLE)
        (oper_flags False False False False) (oper_flags False False True True)
        None
        None,
      vendor_entry2 (ids SAI_SWITCH_ATTR_MCAST_CPU_FLOOD_ENABLE)
        (oper_flags False False False False) (oper_flags False False True True)
        None
        None,
      vendor_entry2 (ids SAI_SWITCH_ATTR_SRC_MAC_ADDRESS)
        (oper_flags False False False True) (oper_flags False False True True)
        (Some stub_switch_src_mac_get)
        None,
      vendor_entry2 (ids SAI_SWITCH_ATTR_MAX_LEARNED_ADDRESSES)
        (oper_flags False False False False) (oper_flags False False True True)
        None
        None,
      vendor_entry2 (ids SAI_SWITCH_ATTR_FDB_AGING_TIME)
        (oper_flags False False True True) (oper_flags False False True True)
        (Some stub_switch_aging_time_get)
        (Some stub_switch_aging_time_set),
      vendor_entry2 (ids SAI_SWITCH_ATTR_FDB_UNICAST_MISS_ACTION)
        (oper_flags False False False False) (oper_flags False False True True)
        None
        None,
      vendor_entry2 (ids SAI_SWITCH_ATTR_FDB_BROADCAST_MISS_ACTION)
        (oper_flags False False False False) (oper_flags False False True True)
        None
        None,
      vendor_entry2 (ids SAI_SWITCH_ATTR_FDB_MULTICAST_MISS_ACTION)
        (oper_flags False False False False) (oper_flags False False True True)
        None
        None,
      vendor_entry2 (ids SAI_SWITCH_ATTR_LAG_DEFAULT_HASH_SEED)
        (oper_flags False False False False) (oper_flags False False True True)
        None
        None,
      vendor_entry2 (ids SAI_SWITCH_ATTR_LAG_DEFAULT_HASH_ALGORITHM)
        (oper_flags False False False False) (oper_flags False False True True)
        None
        None,
      vendor_entry2 (ids SAI_SWITCH_ATTR_LAG_HASH)
        (oper_flags False False False False) (oper_flags False False True True)
        None
        None,
      vendor_entry2 (ids SAI_SWITCH_ATTR_ECMP_DEFAULT_HASH_SEED)
        (oper_flags False False True True) (oper_flags False False True True)
        (Some stub_switch_ecmp_hash_seed_get)
        (Some stub_switch_ecmp_hash_seed_set),
      vendor_entry2 (ids SAI_SWITCH_ATTR_ECMP_DEFAULT_HASH_ALGORITHM)
        (oper_flags False False True True) (oper_flags False False True True)
        (Some stub_switch_ecmp_hash_algo_get)
        (Some stub_switch_ecmp_hash_algo_set),
      vendor_entry2 (ids SAI_SWITCH_ATTR_ECMP_HASH)
        (oper_flags False False True True) (oper_flags False False True True)
        (Some stub_switch_ecmp_hash_fields_get)
        (Some stub_switch_ecmp_hash_fields_set),
      vendor_entry2 (ids SAI_SWITCH_ATTR_COUNTER_REFRESH_INTERVAL)
        (oper_flags False False True True) (oper_flags False False True True)
        (Some stub_switch_counter_refresh_get)
        (Some stub_switch_counter_refresh_set),
      vendor_entry2 (ids SAI_SWITCH_ATTR_DEFAULT_TRAP_GROUP)
        (oper_flags False False True True) (oper_flags False False True True)
        (Some stub_switch_default_trap_group_get)
        (Some stub_switch_default_trap_group_set),
      vendor_entry2 (ids SAI_SWITCH_ATTR_PORT_BREAKOUT)
        (oper_flags False False False False) (oper_flags False False True False)
        None
        None]"

definition stub_set_switch_attribute where
  "stub_set_switch_attribute ids en stp calloc_ok attr =
     sai_set_attribute calloc_ok () (Some (switch_attribs ids)) (Some (switch_vendor_attribs ids en stp)) attr ()"

definition stub_get_switch_attribute where
  "stub_get_switch_attribute ids en stp calloc_ok attr_count attr_list =
     sai_get_attributes calloc_ok () (Some (switch_attribs ids)) (Some (switch_vendor_attribs ids en stp))
       attr_count attr_list ()"

section \<open>Starting and stopping\<close>

text \<open>
  The globals: the SDK handle, the notification table (a structure of function pointers: the type \<open>'n\<close>;
  \<open>None\<close> is the zeroed structure) and the two databases. The zeroed databases of the loaded library are
  the initial state.
\<close>

record 'n stub_globals =
  gh_sdk :: u32
  g_notification_callbacks :: "'n option"
  vlan_state :: vlan_db
  next_hop_group_state :: next_hop_group_db

definition loaded_globals :: "'n stub_globals" where
  "loaded_globals =
     \<lparr>gh_sdk = 0, g_notification_callbacks = None, vlan_state = \<lparr>number_of_vlans = 0, vlans = None\<rparr>,
      next_hop_group_state = db_init_next_hop_group\<rparr>"

text \<open>The two allocations of \<open>db_init_vlan\<close> succeed or fail by the outcomes given.\<close>

definition stub_initialize_switch ::
  "nat \<Rightarrow> bool \<Rightarrow> bool \<Rightarrow> string option \<Rightarrow> string option \<Rightarrow> 'n option \<Rightarrow> 'n stub_globals
     \<Rightarrow> (sai_status \<times> 'n stub_globals) checked" where
  "stub_initialize_switch untagged malloc_vlans malloc_ports switch_hardware_id firmware_path_name
       switch_notifications g =
     (if switch_hardware_id = None then Inr (SAI_STATUS_INVALID_PARAMETER, g)
      else if switch_notifications = None then Inr (SAI_STATUS_INVALID_PARAMETER, g)
      else
        (case db_init_vlan untagged malloc_vlans malloc_ports of
           Inl e \<Rightarrow> Inl e
         | Inr db \<Rightarrow>
             Inr (SAI_STATUS_SUCCESS,
               g\<lparr>gh_sdk := 1, g_notification_callbacks := switch_notifications, vlan_state := db,
                 next_hop_group_state := db_init_next_hop_group\<rparr>)))"

definition stub_shutdown_switch :: "bool \<Rightarrow> 'n stub_globals \<Rightarrow> 'n stub_globals" where
  "stub_shutdown_switch warm_restart_hint g = g\<lparr>gh_sdk := 0\<rparr>"

definition stub_connect_switch ::
  "string option \<Rightarrow> 'n option \<Rightarrow> 'n stub_globals \<Rightarrow> sai_status \<times> 'n stub_globals" where
  "stub_connect_switch switch_hardware_id switch_notifications g =
     (if switch_hardware_id = None then (SAI_STATUS_INVALID_PARAMETER, g)
      else if switch_notifications = None then (SAI_STATUS_INVALID_PARAMETER, g)
      else (SAI_STATUS_SUCCESS,
              g\<lparr>g_notification_callbacks := switch_notifications,
                next_hop_group_state := db_init_next_hop_group\<rparr>))"

definition stub_disconnect_switch :: "'n stub_globals \<Rightarrow> 'n stub_globals" where
  "stub_disconnect_switch g = g\<lparr>g_notification_callbacks := None\<rparr>"

end
