(* ===== verification/StubMachine.thy ===== *)
theory StubMachine
  imports StubSwitch VlanMachine NextHopMachine
begin

text \<open>
  The library as one machine: the calls that start and stop the switch, the VLAN calls and the next hop
  group calls act on the globals of the library, in any order, from the state in which it is loaded. The
  machine is put together from those of its two databases.
\<close>

section \<open>Calls\<close>

datatype 'n stub_call =
    InitializeSwitch "string option" "string option" "'n option"
  | ShutdownSwitch bool
  | ConnectSwitch "string option" "'n option"
  | DisconnectSwitch
  | VlanCall vlan_call
  | GroupCall nhg_call

datatype stub_result = StatusResult sai_status | GroupResult nhg_result | NoResult

text \<open>A call on a part of the globals.\<close>

definition on_part :: "('r \<Rightarrow> stub_result) \<Rightarrow> ('p \<Rightarrow> 'g) \<Rightarrow> ('r \<times> 'p) checked \<Rightarrow> (stub_result \<times> 'g) checked" where
  "on_part res put r = (case r of Inl e \<Rightarrow> Inl e | Inr (x, p) \<Rightarrow> Inr (res x, put p))"

fun stub_exec ::
  "nat \<Rightarrow> next_hop_group_ids \<Rightarrow> 'n stub_call \<Rightarrow> 'n stub_globals \<Rightarrow> (stub_result \<times> 'n stub_globals) checked" where
  "stub_exec untagged ids (InitializeSwitch hw fw ns) g =
     on_part StatusResult (\<lambda>g. g) (stub_initialize_switch untagged True True hw fw ns g)"
| "stub_exec untagged ids (ShutdownSwitch warm) g = Inr (NoResult, stub_shutdown_switch warm g)"
| "stub_exec untagged ids (ConnectSwitch hw ns) g =
     on_part StatusResult (\<lambda>g. g) (Inr (stub_connect_switch hw ns g))"
| "stub_exec untagged ids DisconnectSwitch g = Inr (NoResult, stub_disconnect_switch g)"
| "stub_exec untagged ids (VlanCall c) g =
     on_part StatusResult (\<lambda>db. g\<lparr>vlan_state := db\<rparr>) (vlan_exec c (vlan_state g))"
| "stub_exec untagged ids (GroupCall c) g =
     on_part GroupResult (\<lambda>db. g\<lparr>next_hop_group_state := db\<rparr>) (nhg_exec ids c (next_hop_group_state g))"

fun stub_call_ok :: "next_hop_group_ids \<Rightarrow> 'n stub_call \<Rightarrow> 'n stub_globals \<Rightarrow> bool" where
  "stub_call_ok ids (VlanCall c) g \<longleftrightarrow> vlan_call_ok c (vlan_state g)"
| "stub_call_ok ids (GroupCall c) g \<longleftrightarrow> nhg_call_ok ids c (next_hop_group_state g)"
| "stub_call_ok ids c g \<longleftrightarrow> True"

section \<open>Specification\<close>

text \<open>What a client can see: the handle, the notifications, the VLANs and the groups.\<close>

record 'n stub_view =
  view_sdk :: bool
  view_notifications :: "'n option"
  view_vlans :: vlan_ports_map
  view_groups :: nhg_map

definition stub_view_of :: "'n stub_globals \<Rightarrow> 'n stub_view" where
  "stub_view_of g =
     \<lparr>view_sdk = (gh_sdk g \<noteq> 0), view_notifications = g_notification_callbacks g,
      view_vlans = vlan_map (vlan_state g), view_groups = groups (next_hop_group_state g)\<rparr>"

definition start_refused :: "'a option \<Rightarrow> 'n option \<Rightarrow> bool" where
  "start_refused hw ns \<longleftrightarrow> hw = None \<or> ns = None"

inductive stub_spec ::
    "nat \<Rightarrow> next_hop_group_ids \<Rightarrow> 'n stub_call \<Rightarrow> 'n stub_view \<Rightarrow> stub_result \<Rightarrow> 'n stub_view \<Rightarrow> bool"
  for untagged ids
where
  spec_initialize_refused: "start_refused hw ns \<Longrightarrow>
    stub_spec untagged ids (InitializeSwitch hw fw ns) v (StatusResult SAI_STATUS_INVALID_PARAMETER) v"
| spec_initialize: "\<not> start_refused hw ns \<Longrightarrow>
    stub_spec untagged ids (InitializeSwitch hw fw ns) v (StatusResult SAI_STATUS_SUCCESS)
      \<lparr>view_sdk = True, view_notifications = ns, view_vlans = [1 \<mapsto> default_ports untagged],
       view_groups = Map.empty\<rparr>"
| spec_shutdown: "stub_spec untagged ids (ShutdownSwitch warm) v NoResult (v\<lparr>view_sdk := False\<rparr>)"
| spec_connect_refused: "start_refused hw ns \<Longrightarrow>
    stub_spec untagged ids (ConnectSwitch hw ns) v (StatusResult SAI_STATUS_INVALID_PARAMETER) v"
| spec_connect: "\<not> start_refused hw ns \<Longrightarrow>
    stub_spec untagged ids (ConnectSwitch hw ns) v (StatusResult SAI_STATUS_SUCCESS)
      (v\<lparr>view_notifications := ns, view_groups := Map.empty\<rparr>)"
| spec_disconnect: "stub_spec untagged ids DisconnectSwitch v NoResult (v\<lparr>view_notifications := None\<rparr>)"
| spec_vlan: "vlan_spec c (view_vlans v) status m \<Longrightarrow>
    stub_spec untagged ids (VlanCall c) v (StatusResult status) (v\<lparr>view_vlans := m\<rparr>)"
| spec_group: "nhg_spec ids c (view_groups v) r m \<Longrightarrow>
    stub_spec untagged ids (GroupCall c) v (GroupResult r) (v\<lparr>view_groups := m\<rparr>)"

inductive_cases spec_initializeE: "stub_spec untagged ids (InitializeSwitch hw fw ns) v r v'"
inductive_cases spec_connectE: "stub_spec untagged ids (ConnectSwitch hw ns) v r v'"

section \<open>Refinement\<close>

definition stub_start :: "next_hop_group_ids \<Rightarrow> 'n stub_globals \<Rightarrow> bool" where
  "stub_start ids g \<longleftrightarrow> nhg_ids_ok ids \<and> g = loaded_globals"

definition stub_inv :: "next_hop_group_ids \<Rightarrow> 'n stub_globals \<Rightarrow> bool" where
  "stub_inv ids g \<longleftrightarrow> vlan_inv (vlan_state g) \<and> nhg_machine_inv ids (next_hop_group_state g)"

abbreviation stub_reachable :: "nat \<Rightarrow> next_hop_group_ids \<Rightarrow> 'n stub_globals \<Rightarrow> bool" where
  "stub_reachable untagged ids \<equiv> reachable (stub_start ids) (stub_call_ok ids) (stub_exec untagged ids)"

lemma init_vlan_view:
  "db_init_vlan untagged True True = Inr db \<Longrightarrow> vlan_map db = [1 \<mapsto> default_ports untagged]"
  by (auto simp: db_init_vlan_def vlan_map_def vlan_array_def vlan_ports_def)

lemma init_groups_empty: "groups db_init_next_hop_group = Map.empty"
  by (rule ext) (simp add: init_groups)

lemma loaded_inv: "nhg_ids_ok ids \<Longrightarrow> stub_inv ids loaded_globals"
  by (simp add: stub_inv_def loaded_globals_def nhg_machine_inv_def init_inv vlan_inv_def vlan_array_def)

lemma exec_initialize:
  assumes "stub_inv ids g"
  shows "\<exists>r g'. stub_exec untagged ids (InitializeSwitch hw fw ns) g = Inr (r, g') \<and> stub_inv ids g'
    \<and> stub_spec untagged ids (InitializeSwitch hw fw ns) (stub_view_of g) r (stub_view_of g')"
proof (cases "start_refused hw ns")
  case True
  then show ?thesis
    using assms by (auto simp: start_refused_def on_part_def stub_initialize_switch_def intro: spec_initialize_refused)
next
  case False
  obtain db where db: "db_init_vlan untagged True True = Inr db" by (simp add: db_init_vlan_def)
  define g' where "g' = g\<lparr>gh_sdk := 1, g_notification_callbacks := ns, vlan_state := db,
    next_hop_group_state := db_init_next_hop_group\<rparr>"
  have "stub_exec untagged ids (InitializeSwitch hw fw ns) g = Inr (StatusResult SAI_STATUS_SUCCESS, g')"
    using False db by (auto simp: start_refused_def on_part_def stub_initialize_switch_def g'_def)
  moreover have "stub_inv ids g'"
    using assms init_vlan_inv [OF db] by (simp add: stub_inv_def g'_def nhg_machine_inv_def init_inv)
  moreover have "stub_view_of g' = \<lparr>view_sdk = True, view_notifications = ns,
      view_vlans = [1 \<mapsto> default_ports untagged], view_groups = Map.empty\<rparr>"
    by (simp add: stub_view_of_def g'_def init_vlan_view [OF db] init_groups_empty)
  ultimately show ?thesis using spec_initialize [OF False, of untagged ids fw] by metis
qed

lemma exec_connect:
  assumes "stub_inv ids g"
  shows "\<exists>r g'. stub_exec untagged ids (ConnectSwitch hw ns) g = Inr (r, g') \<and> stub_inv ids g'
    \<and> stub_spec untagged ids (ConnectSwitch hw ns) (stub_view_of g) r (stub_view_of g')"
proof (cases "start_refused hw ns")
  case True
  then show ?thesis
    using assms by (auto simp: start_refused_def on_part_def stub_connect_switch_def intro: spec_connect_refused)
next
  case False
  define g' where "g' = g\<lparr>g_notification_callbacks := ns, next_hop_group_state := db_init_next_hop_group\<rparr>"
  have "stub_exec untagged ids (ConnectSwitch hw ns) g = Inr (StatusResult SAI_STATUS_SUCCESS, g')"
    using False by (auto simp: start_refused_def on_part_def stub_connect_switch_def g'_def)
  moreover have "stub_inv ids g'"
    using assms by (simp add: stub_inv_def g'_def nhg_machine_inv_def init_inv)
  moreover have "stub_view_of g' = (stub_view_of g)\<lparr>view_notifications := ns, view_groups := Map.empty\<rparr>"
    by (simp add: stub_view_of_def g'_def init_groups_empty)
  ultimately show ?thesis using spec_connect [OF False, of untagged ids "stub_view_of g"] by metis
qed

lemma exec_vlan:
  assumes "stub_inv ids g" and "vlan_call_ok c (vlan_state g)"
  shows "\<exists>r g'. stub_exec untagged ids (VlanCall c) g = Inr (r, g') \<and> stub_inv ids g'
    \<and> stub_spec untagged ids (VlanCall c) (stub_view_of g) r (stub_view_of g')"
proof -
  obtain status db where db: "vlan_exec c (vlan_state g) = Inr (status, db)" "vlan_inv db"
    "vlan_spec c (vlan_map (vlan_state g)) status (vlan_map db)"
    using vlan.exec_refines assms by (metis stub_inv_def)
  have "stub_view_of (g\<lparr>vlan_state := db\<rparr>) = (stub_view_of g)\<lparr>view_vlans := vlan_map db\<rparr>"
    by (simp add: stub_view_of_def)
  then have "stub_spec untagged ids (VlanCall c) (stub_view_of g) (StatusResult status)
      (stub_view_of (g\<lparr>vlan_state := db\<rparr>))"
    using spec_vlan db(3) by (metis stub_view.select_convs(3) stub_view_of_def)
  then show ?thesis using db assms(1) by (simp add: on_part_def stub_inv_def)
qed

lemma exec_group:
  assumes "stub_inv ids g" and "nhg_call_ok ids c (next_hop_group_state g)"
  shows "\<exists>r g'. stub_exec untagged ids (GroupCall c) g = Inr (r, g') \<and> stub_inv ids g'
    \<and> stub_spec untagged ids (GroupCall c) (stub_view_of g) r (stub_view_of g')"
proof -
  obtain r db where db: "nhg_exec ids c (next_hop_group_state g) = Inr (r, db)" "nhg_machine_inv ids db"
    "nhg_spec ids c (groups (next_hop_group_state g)) r (groups db)"
    using nhg.exec_refines assms by (metis stub_inv_def)
  have "stub_view_of (g\<lparr>next_hop_group_state := db\<rparr>) = (stub_view_of g)\<lparr>view_groups := groups db\<rparr>"
    by (simp add: stub_view_of_def)
  then have "stub_spec untagged ids (GroupCall c) (stub_view_of g) (GroupResult r)
      (stub_view_of (g\<lparr>next_hop_group_state := db\<rparr>))"
    using spec_group db(3) by (metis stub_view.select_convs(4) stub_view_of_def)
  then show ?thesis using db assms(1) by (simp add: on_part_def stub_inv_def)
qed

lemma exec_shutdown:
  assumes "stub_inv ids g"
  shows "stub_inv ids (stub_shutdown_switch warm g)
    \<and> stub_spec untagged ids (ShutdownSwitch warm) (stub_view_of g) NoResult
        (stub_view_of (stub_shutdown_switch warm g))"
  using assms spec_shutdown [of untagged ids warm "stub_view_of g"]
  by (simp add: stub_inv_def stub_view_of_def stub_shutdown_switch_def)

lemma exec_disconnect:
  assumes "stub_inv ids g"
  shows "stub_inv ids (stub_disconnect_switch g)
    \<and> stub_spec untagged ids DisconnectSwitch (stub_view_of g) NoResult (stub_view_of (stub_disconnect_switch g))"
  using assms spec_disconnect [of untagged ids "stub_view_of g"]
  by (simp add: stub_inv_def stub_view_of_def stub_disconnect_switch_def)

interpretation stub: machine "stub_start ids" "stub_call_ok ids" "stub_exec untagged ids" "stub_inv ids"
  stub_view_of "stub_spec untagged ids" for untagged ids
proof
  show "stub_start ids g \<Longrightarrow> stub_inv ids g" for g :: "'n stub_globals"
    by (auto simp: stub_start_def loaded_inv)
  show "\<exists>r g'. stub_exec untagged ids c g = Inr (r, g') \<and> stub_inv ids g'
      \<and> stub_spec untagged ids c (stub_view_of g) r (stub_view_of g')"
    if inv: "stub_inv ids g" and ok: "stub_call_ok ids c g" for g :: "'n stub_globals" and c
  proof (cases c)
    case (ShutdownSwitch warm)
    then show ?thesis using inv exec_shutdown by auto
  next
    case DisconnectSwitch
    then show ?thesis using inv exec_disconnect by auto
  qed (use inv ok exec_initialize exec_connect exec_vlan exec_group in auto)
qed

end
