(* ===== verification/StubSwitchProperties.thy ===== *)
theory StubSwitchProperties
  imports StubMachine StubL3Properties StubProperties
begin

text \<open>The properties of the ports, of the switch object and of the library as a whole.\<close>

section \<open>Getters and setters return\<close>

definition list_value_room :: "sai_attribute_entry \<Rightarrow> sai_attribute_value \<Rightarrow> bool" where
  "list_value_room f val \<longleftrightarrow> (list_type (ae_type f) \<longrightarrow> list_room val)"

lemmas port_getter_defs = stub_port_type_get_def stub_port_max_learned_addr_get_def
  stub_port_fdb_violation_get_def stub_port_media_type_get_def stub_port_update_dscp_get_def
  stub_port_storm_control_get_def stub_port_supported_breakout_get_def stub_port_current_breakout_get_def
  stub_port_speed_get_def stub_port_autoneg_get_def stub_port_default_vlan_get_def
  stub_port_default_vlan_prio_get_def stub_port_ingress_filter_get_def stub_port_internal_loopback_get_def
  stub_port_fdb_learning_get_def stub_port_mtu_get_def stub_port_state_get_def stub_port_drop_tags_get_def

lemmas port_setter_defs = stub_port_state_set_def stub_port_update_dscp_set_def
  stub_port_storm_control_set_def stub_port_fdb_violation_set_def stub_port_max_learned_addr_set_def
  stub_port_media_type_set_def stub_port_default_vlan_set_def stub_port_default_vlan_prio_set_def
  stub_port_ingress_filter_set_def stub_port_mtu_set_def stub_port_speed_set_def stub_port_autoneg_set_def
  stub_port_drop_tags_set_def stub_port_internal_loopback_set_def stub_port_fdb_learning_set_def

lemmas switch_getter_defs = stub_switch_port_number_get_def stub_switch_max_vr_get_def
  stub_switch_fdb_size_get_def stub_switch_max_num_sensors_get_def stub_switch_max_temp_get_def
  stub_switch_average_temp_get_def stub_switch_on_link_get_def stub_switch_oper_status_get_def
  stub_switch_acl_table_min_prio_get_def stub_switch_acl_table_max_prio_get_def
  stub_switch_acl_entry_min_prio_get_def stub_switch_acl_entry_max_prio_get_def stub_switch_mode_get_def
  stub_switch_src_mac_get_def stub_switch_aging_time_get_def stub_switch_ecmp_hash_seed_get_def
  stub_switch_ecmp_hash_algo_get_def stub_switch_ecmp_hash_fields_get_def stub_switch_counter_refresh_get_def
  stub_switch_default_trap_group_get_def stub_switch_cpu_port_get_def stub_switch_default_stp_get_def

lemmas switch_setter_defs = stub_switch_mode_set_def stub_switch_aging_time_set_def
  stub_switch_ecmp_hash_seed_set_def stub_switch_ecmp_hash_algo_set_def stub_switch_counter_refresh_set_def
  stub_switch_default_trap_group_set_def

lemma port_id_made: "stub_create_object SAI_OBJECT_TYPE_PORT i = Inr (push_bit 32 (ucast i) OR 1)"
  by (simp add: stub_create_object_def SAI_OBJECT_TYPE_PORT_def SAI_OBJECT_TYPE_MAX_def)

lemma port_ids_loop_all:
  "port_ids_loop n ports ii = Inr (ports @ map (\<lambda>k. push_bit 32 (ucast (of_nat k :: u32)) OR 1) [ii..<ii + n])"
  by (induction n arbitrary: ports ii) (simp_all add: port_id_made upt_conv_Cons del: upt_Suc of_nat_add)

lemma fill_returns:
  assumes "0 < es" and "unat n \<le> length data" and "list_room v"
  shows "\<exists>status v'. stub_fill_genericlist es (Some data) n v = Inr (status, v')"
  using fill_genericlist_spec [OF assms] by metis

lemma hw_lanes_returns: "list_room val \<Longrightarrow> \<exists>status v. stub_port_hw_lanes_get k val i db = Inr (status, v)"
  using fill_returns [of 4 1 "[ucast x]" val for x]
  by (fastforce simp: stub_port_hw_lanes_get_def stub_fill_u32list_def split: sum.splits)

lemma port_list_returns: "list_room val \<Longrightarrow> \<exists>status v. stub_switch_port_list_get k val i db = Inr (status, v)"
  using fill_returns [of 8 "of_nat PORT_NUMBER" "map (\<lambda>k. push_bit 32 (ucast (of_nat k :: u32)) OR 1) [0..<PORT_NUMBER]" val]
  by (auto simp: stub_switch_port_list_get_def stub_fill_objlist_def port_ids_loop_all PORT_NUMBER_def)

lemma temp_returns: "list_room val \<Longrightarrow> \<exists>status v. stub_switch_temp_get k val i db = Inr (status, v)"
  using fill_returns [of 4 1 "[50]" val]
  by (auto simp: stub_switch_temp_get_def stub_fill_s32list_def)

lemma hash_fields_loop_returns:
  "length xs \<ge> n + ii \<Longrightarrow> \<exists>status. hash_fields_loop n (Some xs) ii = Inr status"
  by (induction n arbitrary: ii) auto

lemma hash_fields_returns: "list_room val \<Longrightarrow> \<exists>status. stub_switch_ecmp_hash_fields_set k val db = Inr (status, db)"
  using hash_fields_loop_returns [of "unat (val_u32 val)" 0]
  by (fastforce simp: stub_switch_ecmp_hash_fields_set_def list_room_def split: option.splits sum.splits)

lemma port_getters: "list_all (\<lambda>(f, v). getter_total list_value_room f v) (zip (port_attribs ids) (port_vendor_attribs ids en))"
  unfolding port_attribs_def port_vendor_attribs_def
  by (simp add: getter_total_def attr_entry_def vendor_entry2_def list_value_room_def list_type_def
      port_getter_defs hw_lanes_returns handler_defs split: sum.splits)

lemma port_setters: "list_all (\<lambda>(f, v). setter_total list_value_room f v) (zip (port_attribs ids) (port_vendor_attribs ids en))"
  unfolding port_attribs_def port_vendor_attribs_def
  by (simp add: setter_total_def attr_entry_def vendor_entry2_def port_setter_defs handler_defs split: sum.splits)

lemma switch_getters: "list_all (\<lambda>(f, v). getter_total list_value_room f v) (zip (switch_attribs ids) (switch_vendor_attribs ids en stp))"
  unfolding switch_attribs_def switch_vendor_attribs_def
  by (simp add: getter_total_def attr_entry_def vendor_entry2_def list_value_room_def list_type_def
      switch_getter_defs port_list_returns temp_returns handler_defs split: sum.splits)

lemma switch_setters: "list_all (\<lambda>(f, v). setter_total list_value_room f v) (zip (switch_attribs ids) (switch_vendor_attribs ids en stp))"
  unfolding switch_attribs_def switch_vendor_attribs_def
  by (simp add: setter_total_def attr_entry_def vendor_entry2_def list_value_room_def list_type_def
      switch_setter_defs hash_fields_returns split: sum.splits)

text \<open>Setting and getting attributes of ports and of the switch returns, for every object id,
  attribute list and outcome of the allocation, when the array behind every list value has room for the
  count that the value gives: no assert fails and nothing is read or written out of bounds.\<close>

theorem port_and_switch_attributes_return:
  assumes "attr_count \<le> 65536"
    and "\<forall>a \<in> set (attr_array attr_count attrs). attr_meets list_value_room (port_attribs pids) a
      \<and> attr_meets list_value_room (switch_attribs sids) a"
    and "\<And>a. attr = Some a \<Longrightarrow> attr_meets list_value_room (port_attribs pids) a
      \<and> attr_meets list_value_room (switch_attribs sids) a"
  shows "returns (stub_get_port_attribute pids pen ok oid attr_count attrs)
    \<and> returns (stub_set_port_attribute pids pen ok oid attr)
    \<and> returns (stub_get_switch_attribute sids sen stp ok attr_count attrs)
    \<and> returns (stub_set_switch_attribute sids sen stp ok attr)"
  unfolding returns_def stub_get_port_attribute_def stub_set_port_attribute_def
    stub_get_switch_attribute_def stub_set_switch_attribute_def
  using sai_get_attributes_total_when [OF port_getters assms(1)] sai_set_attribute_total_when [OF port_setters]
    sai_get_attributes_total_when [OF switch_getters assms(1)] sai_set_attribute_total_when [OF switch_setters]
    assms(2,3) by metis

section \<open>Port statistics\<close>

lemma stats_loop_exact:
  assumes "ii + n \<le> length ids" and "ii + n \<le> length cs"
  shows "port_stats_loop n ids cs ii =
    (let k = length (takeWhile port_stat_known (take n (drop ii ids))) in
     Inr (if k = n then SAI_STATUS_SUCCESS else SAI_STATUS_INVALID_PARAMETER,
          take ii cs @ replicate k 0 @ drop (ii + k) cs))"
  using assms
proof (induction n arbitrary: cs ii)
  case (Suc n)
  have split: "take (Suc n) (drop ii ids) = ids ! ii # take n (drop (Suc ii) ids)"
    using Suc.prems(1) by (metis Cons_nth_drop_Suc Suc_le_lessD le_add1 add_Suc_right order_less_le_trans
        take_Suc_Cons le_imp_less_Suc)
  show ?case
  proof (cases "port_stat_known (ids ! ii)")
    case True
    have "port_stats_loop (Suc n) ids cs ii = port_stats_loop n ids (cs[ii := 0]) (Suc ii)"
      using Suc.prems True by simp
    moreover have "take (Suc ii) (cs[ii := 0]) = take ii cs @ [0]" and "\<And>k. drop (Suc ii + k) (cs[ii := 0]) = drop (Suc ii + k) cs"
      using Suc.prems(2) by (simp_all add: take_Suc_conv_app_nth)
    ultimately show ?thesis
      using Suc.IH [of "Suc ii" "cs[ii := 0]"] Suc.prems True by (simp add: split Let_def)
  next
    case False
    then show ?thesis using Suc.prems by (simp add: split)
  qed
qed simp

lemma takeWhile_all: "length (takeWhile P xs) = length xs \<longleftrightarrow> (\<forall>x \<in> set xs. P x)"
  by (induction xs) auto

text \<open>Reading port statistics under a port id zeroes the counters of the ids before the first unknown
  one and no others; the status is success exactly when all ids are known.\<close>

theorem port_stats_exact:
  assumes "stub_object_to_type oid SAI_OBJECT_TYPE_PORT = Inr port"
    and "unat n \<le> length ids" and "unat n \<le> length cs"
  shows "let k = length (takeWhile port_stat_known (take (unat n) ids)) in
    stub_get_port_stats oid (Some ids) n (Some cs) =
      Inr (if \<forall>c \<in> set (take (unat n) ids). port_stat_known c then SAI_STATUS_SUCCESS
             else SAI_STATUS_INVALID_PARAMETER,
           Some (replicate k 0 @ drop k cs))"
proof -
  let ?ids = "take (unat n) ids"
  have "length (takeWhile port_stat_known ?ids) = length ?ids \<longleftrightarrow> (\<forall>c \<in> set ?ids. port_stat_known c)"
    by (rule takeWhile_all)
  moreover have "length ?ids = unat n" using assms(2) by simp
  ultimately show ?thesis
    using assms stats_loop_exact [of 0 "unat n" ids cs] by (simp add: stub_get_port_stats_def Let_def)
qed

section \<open>The ports of the switch\<close>

lemma default_port_ids:
  "map port_id (default_ports untagged) = map (\<lambda>k. push_bit 32 (ucast (of_nat k :: u32)) OR 1) [0..<PORT_NUMBER]"
  by (simp add: default_ports_def port_id_made comp_def)

lemma default_port_ids_distinct: "distinct (map port_id (default_ports untagged))"
proof (unfold default_port_ids, subst distinct_map, intro conjI inj_onI)
  fix j k assume jk: "j \<in> set [0..<PORT_NUMBER]" "k \<in> set [0..<PORT_NUMBER]"
    and eq: "push_bit 32 (ucast (of_nat j :: u32)) OR 1 = (push_bit 32 (ucast (of_nat k :: u32)) OR 1 :: u64)"
  have "oid_data (push_bit 32 (ucast (of_nat j :: u32)) OR ucast (1 :: u8)) = oid_data (push_bit 32 (ucast (of_nat k :: u32)) OR ucast (1 :: u8))"
    using eq by simp
  then have "(of_nat j :: u32) = of_nat k" unfolding oid_data_pack .
  then have "unat (of_nat j :: u32) = unat (of_nat k :: u32)" by simp
  then show "j = k" using jk by (simp add: PORT_NUMBER_def unat_of_nat_small)
qed simp

text \<open>The port list of the switch is the list of the members of the default VLAN that initialisation
  makes: after a successful initialisation of the switch, reading it into an array of at least 32
  elements gives the 32 different port ids of VLAN 1, in order; a smaller array gets their number and
  the overflow status, and is not written.\<close>

theorem port_list_is_default_vlan:
  assumes "stub_initialize_switch untagged True True (Some hw) fw (Some ns) g = Inr (status, g')"
    and "list_room v"
  shows "\<exists>v' ports. vlan_map (vlan_state g') = [1 \<mapsto> ports] \<and> distinct (map port_id ports) \<and> length ports = PORT_NUMBER
    \<and> stub_switch_port_list_get () v i () = Inr (if val_u32 v < of_nat PORT_NUMBER
          then SAI_STATUS_BUFFER_OVERFLOW else SAI_STATUS_SUCCESS, v')
    \<and> val_u32 v' = of_nat PORT_NUMBER
    \<and> (if val_u32 v < of_nat PORT_NUMBER then val_list v' = val_list v
       else list_elements v' = map port_id ports)"
proof -
  obtain db where db: "db_init_vlan untagged True True = Inr db" by (simp add: db_init_vlan_def)
  have "vlan_map (vlan_state g') = [1 \<mapsto> default_ports untagged]"
    using assms(1) db by (auto simp: stub_initialize_switch_def init_vlan_view [OF db])
  moreover have len: "length (default_ports untagged) = PORT_NUMBER" by (simp add: default_ports_def)
  moreover have "stub_switch_port_list_get () v i () =
      stub_fill_genericlist 8 (Some (map port_id (default_ports untagged))) (of_nat PORT_NUMBER) v"
    by (simp add: stub_switch_port_list_get_def stub_fill_objlist_def port_ids_loop_all default_port_ids)
  moreover have "unat (of_nat PORT_NUMBER :: u32) = length (map port_id (default_ports untagged))"
    by (simp add: len) (simp add: PORT_NUMBER_def)
  ultimately show ?thesis
    using fill_genericlist_spec [of 8 "of_nat PORT_NUMBER" "map port_id (default_ports untagged)" v]
      default_port_ids_distinct assms(2)
    by (metis order_refl take_all zero_less_numeral)
qed

section \<open>The library\<close>




text \<open>Connecting to a switch that is initialised already drops every next hop group: afterwards no id
  names a group, while the VLANs, the SDK handle stay as they were.\<close>

theorem connect_drops_groups:
  assumes "stub_connect_switch (Some hw) (Some ns) g = (status, g')"
  shows "status = SAI_STATUS_SUCCESS \<and> gh_sdk g' = gh_sdk g \<and> vlan_state g' = vlan_state g
    \<and> (\<forall>oid. group_of oid (groups (next_hop_group_state g')) = None)"
  using assms by (auto simp: stub_connect_switch_def init_groups group_of_def split: sum.splits)

text \<open>The list of temperatures is reported as read when the caller's array is too small for it: the
  status is success, the count is 1 and the array has not been written.\<close>

theorem temp_list_overflow_succeeds:
  assumes "val_u32 v = 0"
  shows "\<exists>v'. stub_switch_temp_get () v i () = Inr (SAI_STATUS_SUCCESS, v') \<and> val_u32 v' = 1
    \<and> val_list v' = val_list v"
  using assms by (auto simp: stub_switch_temp_get_def stub_fill_s32list_def stub_fill_genericlist_def)

section \<open>Witnesses\<close>

definition sample_lanes :: sai_attribute where
  "sample_lanes = \<lparr>attr_id = 2, attr_value = list_value [0, 0]\<rparr>"

definition sample_port_id :: "sai_port_attr \<Rightarrow> u32" where
  "sample_port_id a = (case a of SAI_PORT_ATTR_TYPE \<Rightarrow> 0 | SAI_PORT_ATTR_HW_LANE_LIST \<Rightarrow> 2 | _ \<Rightarrow> 100)"

definition sample_switch_id :: "sai_switch_attr \<Rightarrow> u32" where
  "sample_switch_id a = (case a of SAI_SWITCH_ATTR_PORT_NUMBER \<Rightarrow> 0 | SAI_SWITCH_ATTR_PORT_LIST \<Rightarrow> 2 | _ \<Rightarrow> 100)"

lemma list_value_has_room: "list_room (list_value xs)"
  using order_trans [OF take_bit_nat_less_eq_self take_bit_nat_less_eq_self]
  by (simp add: list_room_def list_value_def val_u32_def unsigned_ucast_eq unsigned_of_nat)

theorem port_and_switch_attributes_return_witness:
  "returns (stub_get_port_attribute sample_port_id (\<lambda>_. 0) True 0x0000000500000001 1 (Some [sample_lanes]))
    \<and> returns (stub_set_port_attribute sample_port_id (\<lambda>_. 0) True 0x0000000500000001 (Some sample_lanes))
    \<and> returns (stub_get_switch_attribute sample_switch_id (\<lambda>_. 0) 16 True 1 (Some [sample_lanes]))
    \<and> returns (stub_set_switch_attribute sample_switch_id (\<lambda>_. 0) 16 True (Some sample_lanes))"
proof (rule port_and_switch_attributes_return)
  have "attr_meets list_value_room fs sample_lanes" for fs
    by (simp add: attr_meets_def list_value_room_def sample_lanes_def list_value_has_room)
  then show "\<forall>a \<in> set (attr_array 1 (Some [sample_lanes])). attr_meets list_value_room (port_attribs sample_port_id) a
      \<and> attr_meets list_value_room (switch_attribs sample_switch_id) a"
    and "Some sample_lanes = Some a \<Longrightarrow> attr_meets list_value_room (port_attribs sample_port_id) a
      \<and> attr_meets list_value_room (switch_attribs sample_switch_id) a" for a
    by (auto simp: attr_array_def)
qed simp

theorem port_stats_exact_witness:
  "stub_get_port_stats 0x0000000500000001 (Some [0, 30, 5]) 3 (Some [7, 8, 9])
     = Inr (SAI_STATUS_INVALID_PARAMETER, Some [0, 8, 9])"
proof -
  have "stub_object_to_type 0x0000000500000001 SAI_OBJECT_TYPE_PORT = Inr 5" by code_simp
  from port_stats_exact [OF this, of 3 "[0, 30, 5]" "[7, 8, 9]"] show ?thesis
    by (simp add: port_stat_known_def Let_def)
qed

lemma initialise_loaded:
  "\<exists>g. stub_initialize_switch 0 True True (Some hw) None (Some ns) loaded_globals = Inr (SAI_STATUS_SUCCESS, g)"
  by (simp add: stub_initialize_switch_def db_init_vlan_def)

theorem port_list_is_default_vlan_witness:
  "\<exists>v'. stub_switch_port_list_get () (list_value (replicate 40 0)) 0 () = Inr (SAI_STATUS_SUCCESS, v')
    \<and> distinct (list_elements v') \<and> length (list_elements v') = 32"
proof -
  obtain g where g: "stub_initialize_switch 0 True True (Some ''hw'') None (Some (7 :: nat)) loaded_globals
      = Inr (SAI_STATUS_SUCCESS, g)"
    using initialise_loaded [of "''hw''" "7 :: nat"] by blast
  have room: "list_room (list_value (replicate 40 0))" by (rule list_value_has_room)
  have "val_u32 (list_value (replicate 40 0)) = 40" by (simp add: list_value_def val_u32_def)
  then have "\<not> val_u32 (list_value (replicate 40 0)) < of_nat PORT_NUMBER" by (simp add: PORT_NUMBER_def)
  with port_list_is_default_vlan [OF g room, of 0] show ?thesis by (auto simp: PORT_NUMBER_def)
qed




theorem connect_drops_groups_witness:
  "group_of 0x0000000300000005 (groups (next_hop_group_state
     (snd (stub_connect_switch (Some ''hw'') (Some (7 :: nat))
       (loaded_globals\<lparr>next_hop_group_state := sample_db\<rparr>))))) = None"
  using connect_drops_groups [of "''hw''" 7 "loaded_globals\<lparr>next_hop_group_state := sample_db\<rparr>"]
  by (metis prod.collapse)

theorem temp_list_overflow_succeeds_witness:
  "\<exists>v'. stub_switch_temp_get () (list_value []) 0 () = Inr (SAI_STATUS_SUCCESS, v') \<and> val_u32 v' = 1"
  using temp_list_overflow_succeeds [of "list_value []" 0] by (auto simp: list_value_def val_u32_def)

end
