(* ===== verification/StubKeys.thy ===== *)
theory StubKeys
  imports TextProperties StubEntries StubVlan
begin


section \<open>Ids\<close>









section \<open>Entries\<close>




section \<open>The texts fit\<close>


























end
