(* ===== verification/DmaSegment.thy ===== *)
theory DmaSegment
  imports Prelude
begin

text \<open>
  The page-based DMA allocator of the Broadcom BDE module (\<^verbatim>\<open>systems/bde/linux/kernel/linux_dma.c\<close>,
  allocation type CHUNK): blocks are taken from the page allocator until some of them form a contiguous
  segment of the requested size; the others are given back. The two low bits of a block address are its
  tag: 0 untagged, 1 discarded, 2 part of the largest segment, 3 part of the current segment.

  \<open>blk_ptr\<close> is the list of the entries of the block array up to \<^verbatim>\<open>blk_cnt\<close>, \<open>blk_room\<close> the number of
  entries that the array has. The answers of \<^verbatim>\<open>__get_free_pages\<close> are a list (0, or no answer left, is a
  failure). The logs \<open>granted\<close> and \<open>released\<close> record the blocks that were handed out and given back,
  \<open>reserved\<close> the pages with the reserved flag. \<^verbatim>\<open>unsigned long\<close> has 64 bits, a page 4096 bytes.
\<close>

unbundle bit_operations_syntax

section \<open>State\<close>

record dma_segment =
  req_size :: u64
  blk_size :: u64
  blk_order :: nat
  seg_size :: u64
  seg_begin :: u64
  seg_end :: u64
  blk_ptr :: "u64 list"
  blk_room :: nat
  blk_cnt_max :: int

definition blk_cnt :: "dma_segment \<Rightarrow> int" where
  "blk_cnt d = int (length (blk_ptr d))"

record dma_state =
  granted :: "u64 list"
  released :: "u64 list"
  reserved :: "u64 set"
  dma_seg :: "dma_segment list"

text \<open>What the kernel answers during one call: the memory size in pages, the largest
  \<^verbatim>\<open>kmalloc\<close>, the outcomes of the two \<^verbatim>\<open>kmalloc\<close>s, the blocks of the page allocator.\<close>

record dma_host =
  totalram :: u64
  kmalloc_max_size :: int
  have_descriptor :: bool
  have_array :: bool
  free_pages :: "u64 list"

definition PAGE_SHIFT :: nat where
  "PAGE_SHIFT = 12"

definition PAGE_SIZE :: u64 where
  "PAGE_SIZE = 4096"

definition PAGE_ALIGN :: "u64 \<Rightarrow> u64" where
  "PAGE_ALIGN x = (x + (PAGE_SIZE - 1)) AND NOT (PAGE_SIZE - 1)"

definition DMA_BLOCK_SIZE :: u64 where
  "DMA_BLOCK_SIZE = 512 * 1024"

section \<open>Finding the largest segment\<close>

text \<open>The tag of a block and its address without the tag.\<close>

definition blk_tag :: "u64 \<Rightarrow> u64" where
  "blk_tag w = w AND 3"

definition blk_addr :: "u64 \<Rightarrow> u64" where
  "blk_addr w = w AND NOT 3"

text \<open>One pass of the inner loop over the blocks behind the first one of the segment; the Boolean is
  \<^verbatim>\<open>found\<close>.\<close>

fun adjacent_scan ::
  "u64 \<Rightarrow> u64 \<Rightarrow> u64 \<Rightarrow> u64 \<Rightarrow> bool \<Rightarrow> u64 list \<Rightarrow> u64 \<times> u64 \<times> bool \<times> u64 list" where
  "adjacent_scan req blk b e found [] = (b, e, found, [])"
| "adjacent_scan req blk b e found (a # blks) =
     (if e - b < req then
        if blk_tag a = 0 \<and> a = b - blk then
          (let (b', e', found', blks') = adjacent_scan req blk a e True blks
           in (b', e', found', (a OR 3) # blks'))
        else if blk_tag a = 0 \<and> a = e then
          (let (b', e', found', blks') = adjacent_scan req blk b (e + blk) True blks
           in (b', e', found', (a OR 3) # blks'))
        else
          (let (b', e', found', blks') = adjacent_scan req blk b e found blks
           in (b', e', found', a # blks'))
      else (b, e, found, a # blks))"

definition untagged :: "u64 list \<Rightarrow> nat" where
  "untagged blks = length (filter (\<lambda>a. blk_tag a = 0) blks)"

text \<open>Changing the tag leaves the address alone.\<close>

lemma bit_3: "bit (3 :: int) n \<longleftrightarrow> n = 0 \<or> n = 1"
  by (cases n) (auto simp: bit_0 bit_Suc bit_1_iff)

lemma bit_2: "bit (2 :: int) n \<longleftrightarrow> n = 1"
  by (cases n) (auto simp: bit_0 bit_Suc bit_1_iff)

lemma bit_minus_4: "bit (- 4 :: int) n \<longleftrightarrow> n \<noteq> 0 \<and> n \<noteq> 1"
  using bit_not_iff [of "3 :: int" n] by (simp add: bit_3)

lemma tag_value:
  "blk_tag w = (if bit w 0 then (if bit w 1 then 3 else 1) else (if bit w 1 then 2 else 0))"
  by (rule bit_eqI) (auto simp: blk_tag_def bit_and_iff bit_3 bit_minus_4 bit_2 bit_1_iff intro: gr0I)

lemmas tag_bits = blk_addr_def tag_value bit_and_iff bit_or_iff bit_xor_iff bit_3 bit_minus_4 bit_2 bit_1_iff

lemma tag_or_3 [simp]: "blk_tag (w OR 3) = 3"
  by (simp add: tag_bits)

lemma addr_or_3 [simp]: "blk_addr (w OR 3) = blk_addr w"
  by (rule bit_eqI) (auto simp: tag_bits)

lemma untagged_addr: "blk_tag w = 0 \<Longrightarrow> blk_addr w = w"
  by (rule bit_eqI) (auto simp: tag_bits not_less [symmetric] intro: gr0I split: if_splits)

lemma tag_addr [simp]: "blk_tag (blk_addr w) = 0"
  by (simp add: tag_bits)

lemma addr_addr [simp]: "blk_addr (blk_addr w) = blk_addr w"
  by (rule bit_eqI) (auto simp: tag_bits)

lemma bit_minus_2: "bit (- 2 :: int) n \<longleftrightarrow> n \<noteq> 0"
  using bit_not_iff [of "1 :: int" n] by (simp add: bit_1_iff)

lemma bit_minus_3: "bit (- 3 :: int) n \<longleftrightarrow> n \<noteq> 1"
  using bit_not_iff [of "2 :: int" n] by (simp add: bit_2)

text \<open>Tagging after a segment is complete: the current one becomes the largest and the previous largest
  is discarded, or the current one is discarded.\<close>

definition retag_largest :: "u64 \<Rightarrow> u64" where
  "retag_largest w = (if blk_tag w = 3 then w AND NOT 1 else if blk_tag w = 2 then w XOR 3 else w)"

definition discard_current :: "u64 \<Rightarrow> u64" where
  "discard_current w = (if blk_tag w = 3 then w AND NOT 2 else w)"

lemma retag_largest [simp]:
  "blk_tag (retag_largest w) = (if blk_tag w = 3 then 2 else if blk_tag w = 2 then 1 else blk_tag w)"
  "blk_addr (retag_largest w) = blk_addr w"
proof -
  show "blk_tag (retag_largest w) = (if blk_tag w = 3 then 2 else if blk_tag w = 2 then 1 else blk_tag w)"
    by (simp add: retag_largest_def tag_bits bit_minus_2)
  show "blk_addr (retag_largest w) = blk_addr w"
    by (rule bit_eqI) (auto simp: retag_largest_def tag_bits bit_minus_2)
qed

lemma discard_current [simp]:
  "blk_tag (discard_current w) = (if blk_tag w = 3 then 1 else blk_tag w)"
  "blk_addr (discard_current w) = blk_addr w"
proof -
  show "blk_tag (discard_current w) = (if blk_tag w = 3 then 1 else blk_tag w)"
    by (simp add: discard_current_def tag_bits bit_minus_3)
  show "blk_addr (discard_current w) = blk_addr w"
    by (rule bit_eqI) (auto simp: discard_current_def tag_bits bit_minus_3)
qed

lemma scan_untagged:
  "adjacent_scan req blk b e found blks = (b', e', found', blks') \<Longrightarrow>
     untagged blks' \<le> untagged blks \<and> (found' \<longrightarrow> found \<or> untagged blks' < untagged blks)
     \<and> length blks' = length blks"
proof (induction req blk b e found blks arbitrary: b' e' found' blks' rule: adjacent_scan.induct)
  case (2 req blk b e found a blks)
  then show ?case
    by (fastforce simp: untagged_def tag_or_3 split: if_splits prod.splits)
qed (simp add: untagged_def)

text \<open>The do-while loop around it; it ends because a pass that finds something tags a block.\<close>

function segment_grow :: "u64 \<Rightarrow> u64 \<Rightarrow> u64 \<Rightarrow> u64 \<Rightarrow> u64 list \<Rightarrow> u64 \<times> u64 \<times> u64 list" where
  "segment_grow req blk b e blks =
     (let (b', e', found, blks') = adjacent_scan req blk b e False blks
      in if found then segment_grow req blk b' e' blks' else (b', e', blks'))"
  by pat_completeness auto
termination
  by (relation "measure (\<lambda>(req, blk, b, e, blks). untagged blks)")
    (auto dest: scan_untagged [OF sym])

declare segment_grow.simps [simp del]

text \<open>One round of the outer loop (skipped once the segment is large enough), and the function.\<close>

definition try_block :: "nat \<Rightarrow> dma_segment \<Rightarrow> dma_segment" where
  "try_block i d =
     (if seg_size d < req_size d \<and> blk_tag (blk_ptr d ! i) = 0 then
        (let b = blk_ptr d ! i;
             (b', e', above) = segment_grow (req_size d) (blk_size d) b (b + blk_size d)
                                 (drop (Suc i) (blk_ptr d));
             blks = take i (blk_ptr d) @ (b OR 3) # above
         in if e' - b' > seg_size d
            then d\<lparr>seg_begin := b', seg_end := e', seg_size := e' - b',
                   blk_ptr := map retag_largest blks\<rparr>
            else d\<lparr>blk_ptr := map discard_current blks\<rparr>)
      else d)"

definition find_largest_segment :: "dma_segment \<Rightarrow> dma_segment" where
  "find_largest_segment d =
     fold try_block [0..<length (blk_ptr d)] (d\<lparr>blk_ptr := map blk_addr (blk_ptr d)\<rparr>)"

lemma grow_length:
  "segment_grow req blk b e blks = (b', e', blks') \<Longrightarrow> length blks' = length blks"
proof (induction req blk b e blks arbitrary: b' e' blks' rule: segment_grow.induct)
  case (1 req blk b e blks)
  obtain bb ee f bs where s: "adjacent_scan req blk b e False blks = (bb, ee, f, bs)"
    using prod_cases4 by blast
  then have "length bs = length blks" using scan_untagged by blast
  then show ?case using 1 s segment_grow.simps [of req blk b e blks] by (cases f) auto
qed

text \<open>What the search leaves alone.\<close>

definition same_request :: "dma_segment \<Rightarrow> dma_segment \<Rightarrow> bool" where
  "same_request d d' \<longleftrightarrow> req_size d' = req_size d \<and> blk_size d' = blk_size d
     \<and> blk_order d' = blk_order d \<and> blk_room d' = blk_room d \<and> blk_cnt_max d' = blk_cnt_max d
     \<and> length (blk_ptr d') = length (blk_ptr d)"

lemma try_block_same: "i < length (blk_ptr d) \<Longrightarrow> same_request d (try_block i d)"
  by (auto simp: try_block_def same_request_def Let_def dest: grow_length split: prod.splits)

lemma find_largest_same: "same_request d (find_largest_segment d)"
proof -
  have "same_request d0 (fold try_block is d0)"
    if "\<forall>i\<in>set is. i < length (blk_ptr d0)" for "is" d0
    using that
  proof (induction "is" arbitrary: d0)
    case (Cons i "is")
    have t: "same_request d0 (try_block i d0)" using Cons.prems try_block_same by simp
    then have "same_request (try_block i d0) (fold try_block is (try_block i d0))"
      using Cons by (simp add: same_request_def)
    with t show ?case by (simp add: same_request_def)
  qed (simp add: same_request_def)
  from this [of "[0..<length (blk_ptr d)]" "d\<lparr>blk_ptr := map blk_addr (blk_ptr d)\<rparr>"]
  show ?thesis by (simp add: find_largest_segment_def same_request_def)
qed

section \<open>Taking blocks\<close>

text \<open>The loop of \<^verbatim>\<open>_alloc_dma_blocks\<close>: \<open>n\<close> blocks are still to be taken, the Boolean is success. An
  entry behind the array is \<open>OutOfBounds\<close>.\<close>

type_synonym taking = "dma_segment \<times> u64 list \<times> dma_state"

fun take_blocks :: "nat \<Rightarrow> taking \<Rightarrow> (bool \<times> taking) checked" where
  "take_blocks 0 t = Inr (True, t)"
| "take_blocks (Suc n) (d, pages, st) =
     (case pages of
        [] \<Rightarrow> Inr (False, d, pages, st)
      | addr # pages' \<Rightarrow>
          if addr = 0 then Inr (False, d, pages', st)
          else if length (blk_ptr d) < blk_room d
          then take_blocks n (d\<lparr>blk_ptr := blk_ptr d @ [addr]\<rparr>, pages',
                              st\<lparr>granted := granted st @ [addr]\<rparr>)
          else Inl OutOfBounds)"

definition alloc_dma_blocks :: "int \<Rightarrow> taking \<Rightarrow> (bool \<times> taking) checked" where
  "alloc_dma_blocks blks t =
     (if wrap32 (blk_cnt (fst t) + blks) > blk_cnt_max (fst t) then Inr (False, t)
      else take_blocks (nat blks) t)"

lemma take_blocks_grows:
  "take_blocks n (d, pages, st) = Inr (True, d', pages', st') \<Longrightarrow>
     length (blk_ptr d') = length (blk_ptr d) + n \<and> blk_room d' = blk_room d
     \<and> (0 < n \<longrightarrow> length (blk_ptr d') \<le> blk_room d)"
proof (induction n arbitrary: d pages st)
  case (Suc n)
  then show ?case by (fastforce split: list.splits if_splits)
qed simp

text \<open>The do-while loop of \<^verbatim>\<open>_dma_segment_alloc\<close>; it ends because the array is finite.\<close>

function assemble :: "taking \<Rightarrow> taking checked" where
  "assemble (d, pages, st) =
     (let d = find_largest_segment d
      in if seg_size d \<ge> req_size d then Inr (d, pages, st)
         else (case alloc_dma_blocks 8 (d, pages, st) of
                 Inl f \<Rightarrow> Inl f
               | Inr (ok, t) \<Rightarrow> if ok then assemble t else Inr t))"
  by pat_completeness auto
termination
proof (relation "measure (\<lambda>(d, pages, st). blk_room d - length (blk_ptr d))")
  fix d x pages st y z ok t
  assume x: "x = find_largest_segment d" and s: "\<not> req_size x \<le> seg_size x"
    and a: "alloc_dma_blocks 8 (x, pages, st) = Inr y" and y: "(ok, t) = y" and ok: "ok"
  obtain d' pages' st' where t: "t = (d', pages', st')" by (cases t)
  have "take_blocks 8 (x, pages, st) = Inr (True, d', pages', st')"
    using a y ok t by (auto simp: alloc_dma_blocks_def split: if_splits)
  then show "(t, d, pages, st) \<in> measure (\<lambda>(d, pages, st). blk_room d - length (blk_ptr d))"
    using take_blocks_grows [of 8] find_largest_same [of d] by (fastforce simp: t x same_request_def)
qed simp

declare assemble.simps [simp del]

section \<open>Segments\<close>

text \<open>The pages of a block whose size is a multiple of the page size.\<close>

definition page_range :: "u64 \<Rightarrow> u64 \<Rightarrow> u64 set" where
  "page_range a sz = (\<lambda>i. a + of_nat i * PAGE_SIZE) ` {0..<unat (sz div PAGE_SIZE)}"

text \<open>The last loop of \<^verbatim>\<open>_dma_segment_alloc\<close>: the pages of the segment are reserved, the other blocks
  are given back.\<close>

fun settle_blocks :: "u64 \<Rightarrow> u64 list \<Rightarrow> dma_state \<Rightarrow> u64 list \<times> dma_state" where
  "settle_blocks sz [] st = ([], st)"
| "settle_blocks sz (w # ws) st =
     (if blk_tag w = 2 then
        (let (ws', st') = settle_blocks sz ws
               (st\<lparr>reserved := reserved st \<union> page_range (blk_addr w) sz\<rparr>)
         in (blk_addr w # ws', st'))
      else if w \<noteq> 0 then
        (let (ws', st') = settle_blocks sz ws (st\<lparr>released := released st @ [blk_addr w]\<rparr>)
         in (0 # ws', st'))
      else
        (let (ws', st') = settle_blocks sz ws st in (w # ws', st')))"

text \<open>The order of a block: a shift count of 64 or more is undefined.\<close>

function find_order :: "u64 \<Rightarrow> nat \<Rightarrow> nat checked" where
  "find_order sz order =
     (if 64 \<le> order then Inl OutOfBounds
      else if push_bit order PAGE_SIZE < sz then find_order sz (order + 1)
      else Inr order)"
  by pat_completeness auto
termination by (relation "measure (\<lambda>(sz, order). 64 - order)") auto

declare find_order.simps [simp del]

definition dma_segment_alloc ::
  "dma_host \<Rightarrow> u64 \<Rightarrow> u64 \<Rightarrow> dma_state \<Rightarrow> (dma_segment option \<times> dma_state) checked" where
  "dma_segment_alloc host sz block st =
     (if sz = 0 \<or> block = 0 then Inr (None, st)
      else if \<not> have_descriptor host then Inr (None, st)
      else
        let block = PAGE_ALIGN block in
        case find_order block 0 of
          Inl f \<Rightarrow> Inl f
        | Inr order \<Rightarrow>
            if block = 0 then Inl AssertFailed
            else
            let cnt_max = wrap32 (uint (push_bit PAGE_SHIFT (totalram host) div block));
                ptr_size = wrap32 (cnt_max * 8);
                capped = ptr_size < 0 \<or> kmalloc_max_size host < ptr_size;
                cnt_max = (if capped then kmalloc_max_size host div 8 else cnt_max);
                ptr_size = (if capped then kmalloc_max_size host else ptr_size) in
            if \<not> have_array host then Inr (None, st)
            else
              let d = \<lparr>req_size = sz, blk_size = block, blk_order = order, seg_size = 0,
                       seg_begin = 0, seg_end = 0, blk_ptr = [], blk_room = nat (ptr_size div 8),
                       blk_cnt_max = cnt_max\<rparr> in
              case alloc_dma_blocks (wrap32 (uint (sz div block))) (d, free_pages host, st) of
                Inl f \<Rightarrow> Inl f
              | Inr (ok, t) \<Rightarrow>
                  (case assemble t of
                     Inl f \<Rightarrow> Inl f
                   | Inr (d, pages, st) \<Rightarrow>
                       let (blks, st) = settle_blocks block (blk_ptr d) st
                       in Inr (Some (d\<lparr>blk_ptr := blks\<rparr>), st)))"

definition dma_segment_free :: "dma_segment \<Rightarrow> dma_state \<Rightarrow> dma_state" where
  "dma_segment_free d st =
     fold (\<lambda>w st. if w \<noteq> 0
                  then st\<lparr>reserved := reserved st - page_range w (blk_size d),
                          released := released st @ [w]\<rparr>
                  else st) (blk_ptr d) st"

text \<open>The callers; the result is the address, 0 for NULL.\<close>

definition pgalloc :: "dma_host \<Rightarrow> u64 \<Rightarrow> dma_state \<Rightarrow> (u64 \<times> dma_state) checked" where
  "pgalloc host sz st =
     (let block = (if sz < DMA_BLOCK_SIZE then sz else DMA_BLOCK_SIZE) in
      case dma_segment_alloc host sz block st of
        Inl f \<Rightarrow> Inl f
      | Inr (None, st) \<Rightarrow> Inr (0, st)
      | Inr (Some d, st) \<Rightarrow>
          if seg_size d < sz then Inr (0, dma_segment_free d st)
          else Inr (seg_begin d, st\<lparr>dma_seg := d # dma_seg st\<rparr>))"

fun find_segment :: "u64 \<Rightarrow> dma_segment list \<Rightarrow> (dma_segment \<times> dma_segment list) option" where
  "find_segment ptr [] = None"
| "find_segment ptr (d # ds) =
     (if ptr = seg_begin d then Some (d, ds)
      else map_option (\<lambda>(x, xs). (x, d # xs)) (find_segment ptr ds))"

definition pgfree :: "u64 \<Rightarrow> dma_state \<Rightarrow> int \<times> dma_state" where
  "pgfree ptr st =
     (case find_segment ptr (dma_seg st) of
        None \<Rightarrow> (-1, st)
      | Some (d, ds) \<Rightarrow> (0, dma_segment_free d (st\<lparr>dma_seg := ds\<rparr>)))"

definition pgcleanup :: "dma_state \<Rightarrow> dma_state" where
  "pgcleanup st = fold dma_segment_free (dma_seg st) (st\<lparr>dma_seg := []\<rparr>)"

section \<open>Addresses of the pool\<close>

text \<open>The pool is one contiguous block of \<^verbatim>\<open>_dma_mem_size\<close> bytes with a virtual, a bus and a cpu
  physical base.\<close>

record dma_pool =
  dma_mem_size :: u32
  dma_vbase :: u64
  dma_pbase :: u64
  cpu_pbase :: u64

definition dma_range_valid :: "dma_pool \<Rightarrow> u64 \<Rightarrow> u64 \<Rightarrow> int" where
  "dma_range_valid pool phys_addr sz =
     (let pool_start = cpu_pbase pool; pool_end = pool_start + ucast (dma_mem_size pool) in
      if phys_addr < pool_start \<or> phys_addr + sz > pool_end then 0 else 1)"

text \<open>Without a pool the kernel's own translation (a parameter) is used.\<close>

definition l2p :: "(u64 \<Rightarrow> u64) \<Rightarrow> dma_pool \<Rightarrow> u64 \<Rightarrow> u64" where
  "l2p virt_to_bus pool vaddr =
     (if dma_mem_size pool \<noteq> 0
      then (if vaddr \<noteq> 0 then dma_pbase pool + (vaddr - dma_vbase pool) else 0)
      else virt_to_bus vaddr)"

definition p2l :: "(u64 \<Rightarrow> u64) \<Rightarrow> dma_pool \<Rightarrow> u64 \<Rightarrow> u64" where
  "p2l bus_to_virt pool paddr =
     (if dma_mem_size pool \<noteq> 0
      then (if paddr = 0 then 0 else dma_vbase pool + (paddr - dma_pbase pool))
      else bus_to_virt paddr)"

text \<open>The two translations are inverse on the pool (away from bus address 0).\<close>

lemma p2l_l2p:
  "dma_mem_size pool \<noteq> 0 \<Longrightarrow> l2p f pool v \<noteq> 0 \<Longrightarrow> p2l g pool (l2p f pool v) = v"
  by (auto simp: l2p_def p2l_def)

text \<open>The range test is exact unless the end of the range wraps; then a range far outside is accepted.\<close>

lemma unat_mem_size: "unat (w :: u32) < 2 ^ 32"
  using unsigned_less [of w] by simp

lemma range_valid_exact:
  assumes "unat phys + unat sz < 2 ^ 64" and "unat (cpu_pbase pool) + unat (dma_mem_size pool) < 2 ^ 64"
  shows "dma_range_valid pool phys sz = 1 \<longleftrightarrow>
    unat (cpu_pbase pool) \<le> unat phys
    \<and> unat phys + unat sz \<le> unat (cpu_pbase pool) + unat (dma_mem_size pool)"
proof -
  have u: "unat (ucast (dma_mem_size pool) :: u64) = unat (dma_mem_size pool)"
    by (simp add: unsigned_ucast_eq take_bit_nat_eq_self less_trans [OF unat_mem_size])
  have "unat (phys + sz) = unat phys + unat sz" using assms(1) by (subst unat_add_lem [symmetric]) simp
  moreover have "unat (cpu_pbase pool + ucast (dma_mem_size pool))
      = unat (cpu_pbase pool) + unat (dma_mem_size pool)"
    using assms(2) u by (subst unat_add_lem [THEN iffD1]) simp_all
  ultimately show ?thesis
    by (auto simp: dma_range_valid_def Let_def word_less_nat_alt)
qed

lemma range_valid_wraps:
  "dma_range_valid \<lparr>dma_mem_size = 0x1000, dma_vbase = 0, dma_pbase = 0x10000, cpu_pbase = 0x10000\<rparr>
     0x20000 (- 0x1F000) = 1"
  by (simp add: dma_range_valid_def)

end
