(* ===== verification/DmaSegmentFacts.thy ===== *)
theory DmaSegmentFacts
  imports DmaSegment
begin

text \<open>
  The search for a contiguous segment. \<open>chain B x n\<close> are the addresses of \<open>n\<close> adjacent blocks of \<open>B\<close>
  bytes from \<open>x\<close>. The inner loops extend a chain by untagged blocks until none is adjacent or the size is
  reached; the outer loop keeps the invariant \<open>search_inv\<close>, from which the segment found is contiguous,
  made of exactly the blocks with tag 2, and the longest chain of the pool unless it is large enough.
\<close>

section \<open>Chains of blocks\<close>

definition chain :: "nat \<Rightarrow> nat \<Rightarrow> nat \<Rightarrow> nat set" where
  "chain B x n = (\<lambda>k. x + k * B) ` {..<n}"

lemma chain_0 [simp]: "chain B x 0 = {}"
  by (simp add: chain_def)

lemma chain_above: "chain B x (Suc n) = insert (x + n * B) (chain B x n)"
  by (auto simp: chain_def lessThan_Suc)

lemma chain_below: "chain B x (Suc n) = insert x (chain B (x + B) n)"
proof -
  have "{..<Suc n} = insert 0 (Suc ` {..<n})" by (rule lessThan_Suc_eq_insert_0)
  then show ?thesis by (auto simp: chain_def image_image algebra_simps)
qed

lemma chain_1 [simp]: "chain B x (Suc 0) = {x}"
  by (simp add: chain_above)

lemma card_chain: "0 < B \<Longrightarrow> card (chain B x n) = n"
  by (simp add: chain_def card_image inj_on_def)

lemma finite_chain [simp]: "finite (chain B x n)"
  by (simp add: chain_def)

lemma chain_subset_length: "0 < B \<Longrightarrow> chain B x m \<subseteq> chain B y n \<Longrightarrow> m \<le> n"
  using card_mono [of "chain B y n" "chain B x m"] by (simp add: card_chain)

text \<open>A chain inside two sets of which no block of one is adjacent to the other lies in one of them.\<close>

lemma chain_connected:
  assumes "chain B x n \<subseteq> S \<union> T"
    and apart: "\<And>s t. s \<in> S \<Longrightarrow> t \<in> T \<Longrightarrow> s \<noteq> t + B \<and> t \<noteq> s + B"
  shows "chain B x n \<subseteq> S \<or> chain B x n \<subseteq> T"
  using assms(1)
proof (induction n)
  case (Suc n)
  then have IH: "chain B x n \<subseteq> S \<or> chain B x n \<subseteq> T" and top: "x + n * B \<in> S \<union> T"
    by (auto simp: chain_above)
  show ?case
  proof (cases n)
    case 0
    then show ?thesis using top by (auto simp: chain_above)
  next
    case (Suc m)
    then have prev: "x + m * B \<in> chain B x n" and next_to: "x + n * B = (x + m * B) + B"
      by (simp_all add: chain_above)
    show ?thesis
      using IH
    proof
      assume c: "chain B x n \<subseteq> S"
      with prev have "x + m * B \<in> S" by blast
      then have "x + n * B \<notin> T" using apart next_to by metis
      then show ?thesis using c top by (auto simp: chain_above)
    next
      assume c: "chain B x n \<subseteq> T"
      with prev have "x + m * B \<in> T" by blast
      then have "x + n * B \<notin> S" using apart next_to by metis
      then show ?thesis using c top by (auto simp: chain_above)
    qed
  qed
qed simp

section \<open>Blocks and their tags\<close>

definition blk_at :: "u64 \<Rightarrow> nat" where
  "blk_at w = unat (blk_addr w)"

definition blocks_at :: "u64 list \<Rightarrow> nat set" where
  "blocks_at blks = blk_at ` set blks"

definition tagged :: "u64 \<Rightarrow> u64 list \<Rightarrow> nat set" where
  "tagged k blks = blk_at ` {w \<in> set blks. blk_tag w = k}"

text \<open>A pool of blocks as the page allocator hands them out: different, below the end of the address
  space.\<close>

definition pool_ok :: "nat \<Rightarrow> u64 list \<Rightarrow> bool" where
  "pool_ok B blks \<longleftrightarrow> 0 < B \<and> distinct (map blk_addr blks) \<and> (\<forall>w\<in>set blks. blk_at w + B < 2 ^ 64)"

definition mark_current :: "nat set \<Rightarrow> u64 \<Rightarrow> u64" where
  "mark_current S w = (if blk_tag w = 0 \<and> blk_at w \<in> S then w OR 3 else w)"

lemma blk_addr_mark [simp]: "blk_addr (mark_current S w) = blk_addr w"
  by (simp add: mark_current_def)

lemma blk_at_simps [simp]:
  "blk_at (mark_current S w) = blk_at w" "blk_at (retag_largest w) = blk_at w"
  "blk_at (discard_current w) = blk_at w" "blk_at (blk_addr w) = blk_at w"
  by (simp_all add: blk_at_def)

lemma blk_tag_mark:
  "blk_tag (mark_current S w) = (if blk_tag w = 0 \<and> blk_at w \<in> S then 3 else blk_tag w)"
  by (simp add: mark_current_def)

lemma mark_mark: "mark_current T (mark_current S w) = mark_current (S \<union> T) w"
  using blk_tag_mark [of S w] by (auto simp: mark_current_def)

lemma mark_none [simp]: "mark_current {} w = w"
  by (simp add: mark_current_def)

lemma map_mark_none [simp]: "map (mark_current {}) blks = blks"
  by (simp add: map_idI)

lemma tagged_subset: "tagged k blks \<subseteq> blocks_at blks"
  by (auto simp: tagged_def blocks_at_def)

lemma blocks_at_Cons: "blocks_at (a # blks) = insert (blk_at a) (blocks_at blks)"
  by (simp add: blocks_at_def)

lemma tagged_Cons: "tagged k (a # blks) = (if blk_tag a = k then {blk_at a} else {}) \<union> tagged k blks"
  by (auto simp: tagged_def)

lemma mark_other: "x \<notin> blocks_at blks \<Longrightarrow> map (mark_current (insert x S)) blks = map (mark_current S) blks"
  by (auto simp: mark_current_def blocks_at_def)

lemma pool_ok_Cons: "pool_ok B (a # blks) \<longleftrightarrow>
    pool_ok B blks \<and> 0 < B \<and> blk_at a \<notin> blocks_at blks \<and> blk_at a + B < 2 ^ 64"
  by (auto simp: pool_ok_def blocks_at_def blk_at_def image_iff word_unat_eq_iff)

section \<open>The inner loops\<close>

text \<open>The segment between \<open>b\<close> and \<open>e\<close> is \<open>n\<close> blocks long.\<close>

definition spans :: "nat \<Rightarrow> u64 \<Rightarrow> u64 \<Rightarrow> nat \<Rightarrow> bool" where
  "spans B b e n \<longleftrightarrow> unat e = unat b + n * B"

lemma spans_size: "spans B b e n \<Longrightarrow> unat (e - b) = n * B"
  by (simp add: spans_def unat_sub word_le_nat_alt)

definition no_neighbour :: "nat \<Rightarrow> u64 \<Rightarrow> u64 \<Rightarrow> u64 list \<Rightarrow> bool" where
  "no_neighbour B b e blks \<longleftrightarrow> (\<forall>x\<in>tagged 0 blks. x + B \<noteq> unat b \<and> x \<noteq> unat e)"

definition extends ::
  "nat \<Rightarrow> u64 \<Rightarrow> u64 \<Rightarrow> nat \<Rightarrow> u64 list \<Rightarrow> u64 \<Rightarrow> u64 \<Rightarrow> nat \<Rightarrow> nat set \<Rightarrow> u64 list \<Rightarrow> bool" where
  "extends B b e n blks b' e' n' S blks' \<longleftrightarrow> spans B b' e' n' \<and> S \<subseteq> tagged 0 blks
     \<and> blks' = map (mark_current S) blks \<and> chain B (unat b') n' = chain B (unat b) n \<union> S"

lemma unat_plus_block: "unat a + unat blk < 2 ^ 64 \<Longrightarrow> unat (a + blk :: u64) = unat a + unat blk"
  by (subst unat_add_lem [symmetric]) simp

lemma spans_below:
  assumes sp: "spans (unat blk) b e n" and ok: "pool_ok (unat blk) (a # blks)"
    and tag: "blk_tag a = 0" and adj: "a = b - blk"
  shows "blk_at a = unat a" and "unat b = unat a + unat blk" and "spans (unat blk) a e (Suc n)"
proof -
  show at: "blk_at a = unat a" using tag by (simp add: blk_at_def untagged_addr)
  have "unat a + unat blk < 2 ^ 64" using ok at by (simp add: pool_ok_Cons)
  then show b: "unat b = unat a + unat blk" using unat_plus_block [of a blk] adj by simp
  then show "spans (unat blk) a e (Suc n)" using sp by (simp add: spans_def)
qed

lemma extends_below:
  assumes sp: "spans (unat blk) b e n" and ok: "pool_ok (unat blk) (a # blks)"
    and tag: "blk_tag a = 0" and adj: "a = b - blk"
    and rest: "extends (unat blk) a e (Suc n) blks b' e' n' S blks'"
  shows "extends (unat blk) b e n (a # blks) b' e' n' (insert (blk_at a) S) ((a OR 3) # blks')"
proof -
  note at = spans_below [OF sp ok tag adj]
  have "chain (unat blk) (unat a) (Suc n) = insert (unat a) (chain (unat blk) (unat b) n)"
    using at(2) chain_below by simp
  moreover have "blk_at a \<notin> blocks_at blks" using ok by (simp add: pool_ok_Cons)
  ultimately show ?thesis
    using rest tag at(1) mark_other
    by (auto simp: extends_def tagged_Cons) (auto simp: mark_current_def)
qed

lemma spans_above:
  assumes sp: "spans (unat blk) b e n" and ok: "pool_ok (unat blk) (a # blks)"
    and tag: "blk_tag a = 0" and adj: "a = e"
  shows "blk_at a = unat a" and "spans (unat blk) b (e + blk) (Suc n)"
proof -
  show at: "blk_at a = unat a" using tag by (simp add: blk_at_def untagged_addr)
  have "unat e + unat blk < 2 ^ 64" using ok at adj by (simp add: pool_ok_Cons)
  then show "spans (unat blk) b (e + blk) (Suc n)"
    using sp unat_plus_block [of e blk] by (simp add: spans_def)
qed

lemma extends_above:
  assumes sp: "spans (unat blk) b e n" and ok: "pool_ok (unat blk) (a # blks)"
    and tag: "blk_tag a = 0" and adj: "a = e"
    and rest: "extends (unat blk) b (e + blk) (Suc n) blks b' e' n' S blks'"
  shows "extends (unat blk) b e n (a # blks) b' e' n' (insert (blk_at a) S) ((a OR 3) # blks')"
proof -
  note at = spans_above [OF sp ok tag adj]
  have "chain (unat blk) (unat b) (Suc n) = insert (unat a) (chain (unat blk) (unat b) n)"
    using sp adj by (simp add: chain_above spans_def)
  moreover have "blk_at a \<notin> blocks_at blks" using ok by (simp add: pool_ok_Cons)
  ultimately show ?thesis
    using rest tag at(1) mark_other
    by (auto simp: extends_def tagged_Cons) (auto simp: mark_current_def)
qed

lemma skip_mark:
  "pool_ok B (a # blks) \<Longrightarrow> extends B b e n blks b' e' n' S blks' \<Longrightarrow> mark_current S a = a"
  using tagged_subset by (force simp: pool_ok_Cons extends_def mark_current_def)

lemma skip_neighbour:
  assumes ok: "pool_ok (unat blk) (a # blks)"
    and skip: "\<not> (blk_tag a = 0 \<and> a = b - blk)" "\<not> (blk_tag a = 0 \<and> a = e)" and tag: "blk_tag a = 0"
  shows "blk_at a + unat blk \<noteq> unat b \<and> blk_at a \<noteq> unat e"
proof -
  have at: "blk_at a = unat a" using tag by (simp add: blk_at_def untagged_addr)
  then have "unat (a + blk) = unat a + unat blk"
    using ok by (intro unat_plus_block) (simp add: pool_ok_Cons)
  moreover have "a + blk \<noteq> b" using skip(1) tag by auto
  ultimately show ?thesis using skip(2) tag at by (metis word_unat_eq_iff)
qed

text \<open>One pass.\<close>

lemma scan_found: "adjacent_scan req blk b e True blks = (b', e', found', blks') \<Longrightarrow> found'"
  by (induction blks arbitrary: b e blks') (auto simp: Let_def split: if_splits prod.splits)

lemma scan_extends:
  assumes "adjacent_scan req blk b e found blks = (b', e', found', blks')"
    and "pool_ok (unat blk) blks" and "spans (unat blk) b e n"
  shows "\<exists>n' S. extends (unat blk) b e n blks b' e' n' S blks'
    \<and> (\<not> found' \<longrightarrow> b' = b \<and> e' = e \<and> blks' = blks \<and> (e - b < req \<longrightarrow> no_neighbour (unat blk) b e blks))"
  using assms
proof (induction req blk b e found blks arbitrary: b' e' found' blks' n rule: adjacent_scan.induct)
  case (1 req blk b e found)
  then show ?case
    by (intro exI [of _ n] exI [of _ "{}"])
      (simp add: extends_def no_neighbour_def tagged_def)
next
  case (2 req blk b e found a blks)
  let ?B = "unat blk"
  note ok = \<open>pool_ok ?B (a # blks)\<close> and sp = \<open>spans ?B b e n\<close>
  have ok': "pool_ok ?B blks" using ok by (simp add: pool_ok_Cons)
  show ?case
  proof (cases "e - b < req")
    case False
    then show ?thesis using 2 sp
      by (intro exI [of _ n] exI [of _ "{}"]) (simp add: extends_def)
  next
    case req: True
    consider (below) "blk_tag a = 0" "a = b - blk"
      | (above) "blk_tag a = 0" "a \<noteq> b - blk" "a = e"
      | (skip) "\<not> (blk_tag a = 0 \<and> a = b - blk)" "\<not> (blk_tag a = 0 \<and> a = e)" by blast
    then show ?thesis
    proof cases
      case below
      obtain bb ee f bs where r: "adjacent_scan req blk a e True blks = (bb, ee, f, bs)"
        using prod_cases4 by blast
      then have res: "b' = bb" "e' = ee" "found'" "blks' = (a OR 3) # bs"
        using 2(4) req below scan_found [OF r] by auto
      have "spans ?B a e (Suc n)" by (rule spans_below(3) [OF sp ok below])
      then obtain n' S where x: "extends ?B a e (Suc n) blks bb ee n' S bs"
        using 2(1) [OF req _ r ok'] below by blast
      show ?thesis
        using extends_below [OF sp ok below x] res by blast
    next
      case above
      obtain bb ee f bs where r: "adjacent_scan req blk b (e + blk) True blks = (bb, ee, f, bs)"
        using prod_cases4 by blast
      then have res: "b' = bb" "e' = ee" "found'" "blks' = (a OR 3) # bs"
        using 2(4) req above scan_found [OF r] by auto
      have "spans ?B b (e + blk) (Suc n)" by (rule spans_above(2) [OF sp ok above(1,3)])
      then obtain n' S where x: "extends ?B b (e + blk) (Suc n) blks bb ee n' S bs"
        using 2(2) [OF req _ _ r ok'] above by blast
      show ?thesis
        using extends_above [OF sp ok above(1,3) x] res by blast
    next
      case skip
      obtain bb ee f bs where r: "adjacent_scan req blk b e found blks = (bb, ee, f, bs)"
        using prod_cases4 by blast
      then have res: "b' = bb" "e' = ee" "found' = f" "blks' = a # bs"
        using 2(4) req skip by auto
      obtain n' S where x: "extends ?B b e n blks bb ee n' S bs"
        and stop: "\<not> f \<longrightarrow> bb = b \<and> ee = e \<and> bs = blks \<and> (e - b < req \<longrightarrow> no_neighbour ?B b e blks)"
        using 2(3) [OF req _ _ r ok' sp] skip by blast
      have "extends ?B b e n (a # blks) bb ee n' S (a # bs)"
        using x skip_mark [OF ok x] by (auto simp: extends_def tagged_Cons)
      moreover have "no_neighbour ?B b e (a # blks)" if "no_neighbour ?B b e blks"
        using that skip_neighbour [OF ok skip] by (auto simp: no_neighbour_def tagged_Cons)
      ultimately show ?thesis using res stop by blast
    qed
  qed
qed

text \<open>Passes until nothing more is found.\<close>

lemma tagged_map:
  assumes "\<And>w. blk_at (f w) = blk_at w"
  shows "tagged k (map f blks) = blk_at ` {w \<in> set blks. blk_tag (f w) = k}"
proof -
  have "{w \<in> set (map f blks). blk_tag w = k} = f ` {w \<in> set blks. blk_tag (f w) = k}" by auto
  then show ?thesis by (simp add: tagged_def image_image assms)
qed

lemma tagged_mark: "tagged 0 (map (mark_current S) blks) = tagged 0 blks - S"
  by (auto simp: tagged_map blk_tag_mark) (auto simp: tagged_def split: if_splits)

lemma pool_ok_same_addr:
  "map blk_addr blks' = map blk_addr blks \<Longrightarrow> pool_ok B blks' = pool_ok B blks"
proof -
  have *: "(\<forall>w\<in>set bs. blk_at w + B < 2 ^ 64) = (\<forall>a\<in>set (map blk_addr bs). unat a + B < 2 ^ 64)" for bs
    by (simp add: blk_at_def)
  show "map blk_addr blks' = map blk_addr blks \<Longrightarrow> ?thesis"
    unfolding pool_ok_def * by simp
qed

lemma pool_ok_mark [simp]: "pool_ok B (map (mark_current S) blks) = pool_ok B blks"
  by (rule pool_ok_same_addr) simp

lemma extends_trans:
  "extends B b e n blks b1 e1 n1 S1 blks1 \<Longrightarrow> extends B b1 e1 n1 blks1 b' e' n' S2 blks' \<Longrightarrow>
     extends B b e n blks b' e' n' (S1 \<union> S2) blks'"
  by (auto simp: extends_def mark_mark tagged_mark)

lemma grow_extends:
  assumes "segment_grow req blk b e blks = (b', e', blks')"
    and "pool_ok (unat blk) blks" and "spans (unat blk) b e n"
  shows "\<exists>n' S. extends (unat blk) b e n blks b' e' n' S blks'
    \<and> (e' - b' < req \<longrightarrow> no_neighbour (unat blk) b' e' blks')"
  using assms
proof (induction req blk b e blks arbitrary: b' e' blks' n rule: segment_grow.induct)
  case (1 req blk b e blks)
  obtain b1 e1 f bs where s: "adjacent_scan req blk b e False blks = (b1, e1, f, bs)"
    using prod_cases4 by blast
  obtain n1 S1 where x: "extends (unat blk) b e n blks b1 e1 n1 S1 bs"
    and stop: "\<not> f \<longrightarrow> b1 = b \<and> e1 = e \<and> bs = blks \<and> (e - b < req \<longrightarrow> no_neighbour (unat blk) b e blks)"
    using scan_extends [OF s 1(3,4)] by blast
  show ?case
  proof (cases f)
    case False
    then show ?thesis
      using x stop s 1(2) segment_grow.simps [of req blk b e blks] by auto
  next
    case True
    have "segment_grow req blk b1 e1 bs = (b', e', blks')"
      using True s 1(2) segment_grow.simps [of req blk b e blks] by simp
    moreover have "pool_ok (unat blk) bs" using x 1(3) by (simp add: extends_def)
    moreover have "spans (unat blk) b1 e1 n1" using x by (simp add: extends_def)
    ultimately obtain n' S2 where "extends (unat blk) b1 e1 n1 bs b' e' n' S2 blks'"
      and "e' - b' < req \<longrightarrow> no_neighbour (unat blk) b' e' blks'"
      using 1(1) [OF s [symmetric] refl refl refl True] by blast
    then show ?thesis using extends_trans [OF x] by blast
  qed
qed

section \<open>The outer loop\<close>

text \<open>The blocks that were looked at: nothing untagged is adjacent to them, and no chain of them is
  longer than the size found.\<close>

definition settled :: "u64 list \<Rightarrow> nat set" where
  "settled blks = tagged 1 blks \<union> tagged 2 blks"

definition searched :: "nat \<Rightarrow> nat \<Rightarrow> u64 list \<Rightarrow> u64 \<Rightarrow> bool" where
  "searched B i blks sz \<longleftrightarrow> (\<forall>j<i. blk_tag (blks ! j) \<noteq> 0)
     \<and> (\<forall>t\<in>settled blks. \<forall>x\<in>tagged 0 blks. x + B \<noteq> t \<and> x \<noteq> t + B)
     \<and> (\<forall>x m. chain B x m \<subseteq> settled blks \<longrightarrow> m * B \<le> unat sz)"

text \<open>A whole round on the list: the blocks of the new chain \<open>R\<close> were untagged and become current.\<close>

lemma round_marks:
  assumes g: "segment_grow req blk w (w + blk) (drop (Suc i) blks) = (b', e', ups)"
    and ok: "pool_ok (unat blk) blks" and i: "i < length blks" and w: "w = blks ! i"
    and tag: "blk_tag w = 0" and before: "\<forall>j<i. blk_tag (blks ! j) \<noteq> 0"
  shows "\<exists>n R. spans (unat blk) b' e' n \<and> R = chain (unat blk) (unat b') n \<and> R \<subseteq> tagged 0 blks
    \<and> take i blks @ (w OR 3) # ups = map (mark_current R) blks
    \<and> (e' - b' < req \<longrightarrow> no_neighbour (unat blk) b' e' (map (mark_current R) blks))"
proof -
  let ?B = "unat blk" and ?up = "drop (Suc i) blks"
  have split: "blks = take i blks @ w # ?up" using i w by (simp add: id_take_nth_drop)
  have at: "blk_at w = unat w" using tag by (simp add: blk_at_def untagged_addr)
  have ok': "pool_ok ?B (w # ?up)"
    using ok by (subst (asm) split) (auto simp: pool_ok_def)
  then have up: "pool_ok ?B ?up" and new: "blk_at w \<notin> blocks_at ?up"
    and "unat w + ?B < 2 ^ 64" by (simp_all add: pool_ok_Cons at)
  then have sp: "spans ?B w (w + blk) 1" by (simp add: spans_def unat_plus_block)
  obtain n S where x: "extends ?B w (w + blk) 1 ?up b' e' n S ups"
    and stop: "e' - b' < req \<longrightarrow> no_neighbour ?B b' e' ups"
    using grow_extends [OF g up sp] by blast
  define R where "R = insert (blk_at w) S"
  have R: "R = chain ?B (unat b') n" using x by (simp add: extends_def R_def at)
  have m_up: "map (mark_current R) ?up = ups"
    using x mark_other [OF new] by (simp add: extends_def R_def)
  have "map (mark_current R) (take i blks) = take i blks"
    using before i by (intro map_idI) (auto simp: mark_current_def in_set_conv_nth)
  moreover have "mark_current R w = w OR 3" using tag by (simp add: mark_current_def R_def)
  ultimately have m: "map (mark_current R) blks = take i blks @ (w OR 3) # ups"
    using m_up by (subst split) (simp only: map_append list.map)
  have "S \<subseteq> tagged 0 ?up" using x by (simp add: extends_def)
  then have "R \<subseteq> tagged 0 blks" using tag by (subst split) (auto simp: tagged_def R_def)
  moreover have "tagged 0 (map (mark_current R) blks) \<subseteq> tagged 0 ups"
    using before i unfolding m by (auto simp: tagged_def in_set_conv_nth)
  then have "e' - b' < req \<longrightarrow> no_neighbour ?B b' e' (map (mark_current R) blks)"
    using stop unfolding no_neighbour_def by blast
  moreover have "spans ?B b' e' n" using x by (simp add: extends_def)
  ultimately show ?thesis using R m by metis
qed

text \<open>The tags after a round: the chain is the largest segment, or discarded.\<close>

lemma in_tagged: "x \<in> tagged k blks \<longleftrightarrow> (\<exists>w\<in>set blks. x = blk_at w \<and> blk_tag w = k)"
  by (auto simp: tagged_def)

lemma same_block:
  assumes "pool_ok B blks" and "w \<in> set blks" and "v \<in> set blks" and "blk_at w = blk_at v"
  shows "w = v"
proof -
  have "inj_on blk_addr (set blks)" using assms(1) by (simp add: pool_ok_def distinct_map)
  moreover have "blk_addr w = blk_addr v" using assms(4) by (simp add: blk_at_def word_unat_eq_iff)
  ultimately show ?thesis using assms(2,3) by (simp add: inj_on_def)
qed

lemma current_was_untagged:
  assumes "pool_ok B blks" and "R \<subseteq> tagged 0 blks" and "w \<in> set blks" and "blk_at w \<in> R"
  shows "blk_tag w = 0"
proof -
  obtain v where "v \<in> set blks" "blk_tag v = 0" "blk_at w = blk_at v"
    using assms(2,4) in_tagged by blast
  then show ?thesis using same_block [OF assms(1,3)] by metis
qed

definition after_round :: "(u64 \<Rightarrow> u64) \<Rightarrow> nat set \<Rightarrow> u64 list \<Rightarrow> u64 list" where
  "after_round f R blks = map f (map (mark_current R) blks)"

lemma in_tagged_after:
  assumes at: "\<And>w. blk_at (f w) = blk_at w"
    and new: "\<forall>w\<in>set blks. blk_tag (f (mark_current R w)) = (if blk_at w \<in> R then r else g w)"
  shows "x \<in> tagged k (after_round f R blks) \<longleftrightarrow>
    (\<exists>w\<in>set blks. x = blk_at w \<and> (if x \<in> R then r else g w) = k)"
proof -
  have "tagged k (after_round f R blks) = blk_at ` {w \<in> set blks. blk_tag (f (mark_current R w)) = k}"
    unfolding after_round_def map_map by (subst tagged_map) (simp_all add: at)
  then show ?thesis using new by (auto simp: image_iff)
qed

lemma tags_after_largest:
  assumes none: "tagged 3 blks = {}" and un: "R \<subseteq> tagged 0 blks" and ok: "pool_ok B blks"
  shows "tagged 0 (after_round retag_largest R blks) = tagged 0 blks - R"
    and "tagged 1 (after_round retag_largest R blks) = settled blks"
    and "tagged 2 (after_round retag_largest R blks) = R"
    and "tagged 3 (after_round retag_largest R blks) = {}"
proof -
  have no3: "blk_tag w \<noteq> 3" if "w \<in> set blks" for w using none that in_tagged [of _ 3 blks] by blast
  have "\<forall>w\<in>set blks. blk_tag (retag_largest (mark_current R w))
      = (if blk_at w \<in> R then 2 else if blk_tag w = 2 then 1 else blk_tag w)"
    using current_was_untagged [OF ok un] no3 by (simp add: blk_tag_mark)
  note tags = in_tagged_after [OF blk_at_simps(2) this]
  have R: "\<exists>w\<in>set blks. x = blk_at w \<and> blk_tag w = 0" if "x \<in> R" for x
    using un that in_tagged by blast
  have two: "(0 :: u64) \<noteq> 2" by simp
  show "tagged 0 (after_round retag_largest R blks) = tagged 0 blks - R"
    by (intro set_eqI, unfold tags, auto simp: in_tagged split: if_splits) (metis two)
  show "tagged 1 (after_round retag_largest R blks) = settled blks"
    using current_was_untagged [OF ok un]
    by (intro set_eqI, unfold tags, auto simp: in_tagged settled_def split: if_splits)
  show "tagged 2 (after_round retag_largest R blks) = R"
    using R by (intro set_eqI, unfold tags, auto split: if_splits)
  show "tagged 3 (after_round retag_largest R blks) = {}"
    using no3 by (intro set_eqI, unfold tags, auto split: if_splits)
qed

lemma tags_after_discard:
  assumes none: "tagged 3 blks = {}" and un: "R \<subseteq> tagged 0 blks" and ok: "pool_ok B blks"
  shows "tagged 0 (after_round discard_current R blks) = tagged 0 blks - R"
    and "tagged 1 (after_round discard_current R blks) = tagged 1 blks \<union> R"
    and "tagged 2 (after_round discard_current R blks) = tagged 2 blks"
    and "tagged 3 (after_round discard_current R blks) = {}"
proof -
  have no3: "blk_tag w \<noteq> 3" if "w \<in> set blks" for w using none that in_tagged [of _ 3 blks] by blast
  have "\<forall>w\<in>set blks. blk_tag (discard_current (mark_current R w))
      = (if blk_at w \<in> R then 1 else blk_tag w)"
    using current_was_untagged [OF ok un] no3 by (simp add: blk_tag_mark)
  note tags = in_tagged_after [OF blk_at_simps(3) this]
  have R: "\<exists>w\<in>set blks. x = blk_at w \<and> blk_tag w = 0" if "x \<in> R" for x
    using un that in_tagged by blast
  show "tagged 0 (after_round discard_current R blks) = tagged 0 blks - R"
    by (intro set_eqI, unfold tags, auto simp: in_tagged split: if_splits)
  show "tagged 1 (after_round discard_current R blks) = tagged 1 blks \<union> R"
    using R by (intro set_eqI, unfold tags, auto simp: in_tagged split: if_splits)
  show "tagged 2 (after_round discard_current R blks) = tagged 2 blks"
    using current_was_untagged [OF ok un]
    by (intro set_eqI, unfold tags, auto simp: in_tagged split: if_splits)
  show "tagged 3 (after_round discard_current R blks) = {}"
    using no3 by (intro set_eqI, unfold tags, auto split: if_splits)
qed

lemma chain_neighbour:
  assumes "t \<in> chain B b n" and "x + B = t \<or> x = t + B"
  shows "x \<in> chain B b n \<or> x + B = b \<or> x = b + n * B"
proof -
  obtain k where k: "t = b + k * B" "k < n" using assms(1) by (auto simp: chain_def)
  show ?thesis
  proof (cases "x + B = t")
    case True
    then show ?thesis using k
      by (cases k) (auto simp: chain_def intro: image_eqI [where x = "k - 1"])
  next
    case False
    then have x: "x = b + Suc k * B" using assms(2) k by simp
    show ?thesis
    proof (cases "Suc k = n")
      case False
      then have "Suc k \<in> {..<n}" using k(2) by simp
      then show ?thesis using x unfolding chain_def by blast
    qed (use x in simp)
  qed
qed

text \<open>A round keeps \<open>searched\<close>, whatever the tags of the chain become.\<close>

lemma searched_round:
  assumes old: "searched B i blks sz" and len: "length blks' = length blks"
    and tags: "tagged 0 blks' = tagged 0 blks - R" "settled blks' = settled blks \<union> R"
    and R: "R = chain B (unat b') n" "R \<subseteq> tagged 0 blks" and sp: "spans B b' e' n" and B: "0 < B"
    and isolated: "\<forall>x\<in>tagged 0 blks - R. x + B \<noteq> unat b' \<and> x \<noteq> unat e'"
    and size: "sz \<le> sz'" "e' - b' \<le> sz'" and seen: "\<forall>j<Suc i. blk_tag (blks' ! j) \<noteq> 0"
  shows "searched B (Suc i) blks' sz'"
  unfolding searched_def tags
proof (intro conjI allI impI ballI)
  show "blk_tag (blks' ! j) \<noteq> 0" if "j < Suc i" for j using seen that by simp
next
  fix t x assume t: "t \<in> settled blks \<union> R" and x: "x \<in> tagged 0 blks - R"
  have "x + B \<noteq> t \<and> x \<noteq> t + B"
  proof (cases "t \<in> R")
    case False
    then show ?thesis using old t x by (auto simp: searched_def)
  next
    case True
    show ?thesis
      using chain_neighbour [of t B "unat b'" n x] True isolated x sp
      by (auto simp: R(1) spans_def)
  qed
  then show "x + B \<noteq> t" and "x \<noteq> t + B" by simp_all
next
  fix x m assume c: "chain B x m \<subseteq> settled blks \<union> R"
  have "chain B x m \<subseteq> settled blks \<or> chain B x m \<subseteq> R"
  proof (rule chain_connected [OF c])
    fix s t assume "s \<in> settled blks" and "t \<in> R"
    then show "s \<noteq> t + B \<and> t \<noteq> s + B" using old R(2) unfolding searched_def by blast
  qed
  then show "m * B \<le> unat sz'"
  proof
    assume "chain B x m \<subseteq> settled blks"
    then have "m * B \<le> unat sz" using old by (simp add: searched_def)
    then show ?thesis using size(1) by (simp add: word_le_nat_alt)
  next
    assume "chain B x m \<subseteq> R"
    then have "m * B \<le> n * B" using chain_subset_length [OF B] R(1) by simp
    also have "\<dots> = unat (e' - b')" using spans_size [OF sp] by simp
    finally show ?thesis using size(2) by (simp add: word_le_nat_alt)
  qed
qed

section \<open>The invariant of the search\<close>

definition largest_so_far :: "dma_segment \<Rightarrow> dma_segment \<Rightarrow> bool" where
  "largest_so_far d0 d \<longleftrightarrow>
     (seg_size d = seg_size d0 \<and> seg_begin d = seg_begin d0 \<and> seg_end d = seg_end d0
      \<and> tagged 2 (blk_ptr d) = {})
     \<or> (seg_size d0 < seg_size d \<and> seg_size d = seg_end d - seg_begin d
        \<and> (\<exists>n. spans (unat (blk_size d)) (seg_begin d) (seg_end d) n
             \<and> tagged 2 (blk_ptr d) = chain (unat (blk_size d)) (unat (seg_begin d)) n))"

definition search_inv :: "dma_segment \<Rightarrow> nat \<Rightarrow> dma_segment \<Rightarrow> bool" where
  "search_inv d0 i d \<longleftrightarrow> same_request d0 d \<and> map blk_addr (blk_ptr d) = map blk_addr (blk_ptr d0)
     \<and> pool_ok (unat (blk_size d)) (blk_ptr d) \<and> tagged 3 (blk_ptr d) = {} \<and> largest_so_far d0 d
     \<and> (seg_size d < req_size d \<longrightarrow> searched (unat (blk_size d)) i (blk_ptr d) (seg_size d))"

lemma after_round_simps [simp]:
  "length (after_round f R blks) = length blks"
  "i < length blks \<Longrightarrow> after_round f R blks ! i = f (mark_current R (blks ! i))"
  by (simp_all add: after_round_def)

lemma addr_after_round [simp]:
  "map blk_addr (after_round retag_largest R blks) = map blk_addr blks"
  "map blk_addr (after_round discard_current R blks) = map blk_addr blks"
  by (simp_all add: after_round_def)

lemma tag_after_round:
  "blk_tag w \<noteq> 0 \<or> blk_at w \<in> R \<Longrightarrow> blk_tag (retag_largest (mark_current R w)) \<noteq> 0"
  "blk_tag w \<noteq> 0 \<or> blk_at w \<in> R \<Longrightarrow> blk_tag (discard_current (mark_current R w)) \<noteq> 0"
  by (auto simp: blk_tag_mark)

lemma search_step:
  assumes inv: "search_inv d0 i d" and i: "i < length (blk_ptr d)"
  shows "search_inv d0 (Suc i) (try_block i d)"
proof (cases "seg_size d < req_size d \<and> blk_tag (blk_ptr d ! i) = 0")
  case False
  then show ?thesis using inv
    by (auto simp: search_inv_def try_block_def searched_def less_Suc_eq)
next
  case True
  let ?B = "unat (blk_size d)" and ?blks = "blk_ptr d"
  define w where "w = ?blks ! i"
  have ok: "pool_ok ?B ?blks" and none: "tagged 3 ?blks = {}" and far: "largest_so_far d0 d"
    and old: "searched ?B i ?blks (seg_size d)" and tag: "blk_tag w = 0"
    using inv True by (simp_all add: search_inv_def w_def)
  then have before: "\<forall>j<i. blk_tag (?blks ! j) \<noteq> 0" and B: "0 < ?B"
    by (simp_all add: searched_def pool_ok_def)
  obtain b' e' ups where g: "segment_grow (req_size d) (blk_size d) w (w + blk_size d) (drop (Suc i) ?blks)
      = (b', e', ups)" using prod_cases3 by blast
  obtain n R where sp: "spans ?B b' e' n" and R: "R = chain ?B (unat b') n" "R \<subseteq> tagged 0 ?blks"
    and marks: "take i ?blks @ (w OR 3) # ups = map (mark_current R) ?blks"
    and stop: "e' - b' < req_size d \<longrightarrow> no_neighbour ?B b' e' (map (mark_current R) ?blks)"
    using round_marks [OF g ok i w_def tag before] by blast
  have wR: "blk_at w \<in> R"
  proof (rule ccontr)
    assume "blk_at w \<notin> R"
    then have "map (mark_current R) ?blks ! i = w" using i by (simp add: mark_current_def w_def)
    moreover have "(take i ?blks @ (w OR 3) # ups) ! i = w OR 3" using i by (simp add: nth_append)
    ultimately have "w OR 3 = w" using marks by simp
    then show False using tag tag_or_3 [of w] by simp
  qed
  have isolated: "\<forall>x\<in>tagged 0 ?blks - R. x + ?B \<noteq> unat b' \<and> x \<noteq> unat e'" if "e' - b' < req_size d"
    using stop that by (simp add: no_neighbour_def tagged_mark)
  have seen: "blk_tag (after_round f R ?blks ! j) \<noteq> 0"
    if "j < Suc i" and "\<And>v. blk_tag v \<noteq> 0 \<or> blk_at v \<in> R \<Longrightarrow> blk_tag (f (mark_current R v)) \<noteq> 0" for f j
    using that before wR i by (cases "j = i") (auto simp: w_def)
  have ar: "map f (take i ?blks) @ f (w OR 3) # map f ups = after_round f R ?blks" for f
    using arg_cong [OF marks, of "map f"] by (simp add: after_round_def)
  have none3: "tagged 3 (after_round retag_largest R ?blks) = {}"
    "tagged 3 (after_round discard_current R ?blks) = {}"
    using tags_after_largest(4) [OF none R(2) ok] tags_after_discard(4) [OF none R(2) ok] .
  show ?thesis
  proof (cases "e' - b' > seg_size d")
    case larger: True
    have t: "try_block i d = d\<lparr>seg_begin := b', seg_end := e', seg_size := e' - b',
        blk_ptr := after_round retag_largest R ?blks\<rparr>"
      using True g ar larger by (simp add: try_block_def w_def [symmetric])
    note tags = tags_after_largest [OF none R(2) ok]
    have "seg_size d0 < e' - b'" using far larger by (auto simp: largest_so_far_def)
    then have "largest_so_far d0 (try_block i d)"
      using sp tags(3) R(1) by (auto simp: t largest_so_far_def)
    moreover have "searched ?B (Suc i) (after_round retag_largest R ?blks) (e' - b')" if "e' - b' < req_size d"
      using seen tag_after_round(1) larger tags(1-3)
      by (intro searched_round [OF old _ _ _ R sp B isolated [OF that]])
        (auto simp: settled_def dest: less_imp_le)
    ultimately show ?thesis
      using inv none3 ok pool_ok_same_addr [OF addr_after_round(1) [of R ?blks], of ?B]
      by (auto simp: t search_inv_def same_request_def)
  next
    case smaller: False
    have t: "try_block i d = d\<lparr>blk_ptr := after_round discard_current R ?blks\<rparr>"
      using True g ar smaller by (simp add: try_block_def w_def [symmetric])
    note tags = tags_after_discard [OF none R(2) ok]
    have le: "e' - b' \<le> seg_size d" using smaller by simp
    then have "e' - b' < req_size d" using True by (meson le_less_trans)
    note apart = isolated [OF this]
    have "largest_so_far d0 (try_block i d)"
      using far tags(3) by (simp add: t largest_so_far_def)
    moreover have "searched ?B (Suc i) (after_round discard_current R ?blks) (seg_size d)"
      using seen tag_after_round(2) le tags(1-3)
      by (intro searched_round [OF old _ _ _ R sp B apart]) (auto simp: settled_def)
    ultimately show ?thesis
      using inv none3 ok pool_ok_same_addr [OF addr_after_round(2) [of R ?blks], of ?B]
      by (auto simp: t search_inv_def same_request_def)
  qed
qed

text \<open>All rounds, and what the search returns.\<close>

lemma search_start:
  assumes "pool_ok (unat (blk_size d)) (blk_ptr d)"
  shows "search_inv d 0 (d\<lparr>blk_ptr := map blk_addr (blk_ptr d)\<rparr>)"
proof -
  have tags: "tagged k (map blk_addr (blk_ptr d)) = {}" if "k \<noteq> 0" for k
    using that by (auto simp: tagged_def)
  have "chain (unat (blk_size d)) x m = {} \<longleftrightarrow> m = 0" for x m
    by (auto simp: chain_def lessThan_empty_iff)
  then have "searched (unat (blk_size d)) 0 (map blk_addr (blk_ptr d)) sz" for sz
    by (auto simp: searched_def settled_def tags)
  then show ?thesis
    using assms tags pool_ok_same_addr [of "map blk_addr (blk_ptr d)" "blk_ptr d"]
    by (auto simp: search_inv_def same_request_def largest_so_far_def)
qed

lemma search_rounds:
  "search_inv d0 0 d \<Longrightarrow> n \<le> length (blk_ptr d) \<Longrightarrow> search_inv d0 n (fold try_block [0..<n] d)"
proof (induction n)
  case (Suc n)
  then have inv: "search_inv d0 n (fold try_block [0..<n] d)" by simp
  then have "n < length (blk_ptr (fold try_block [0..<n] d))"
    using Suc.prems by (simp add: search_inv_def same_request_def)
  from search_step [OF inv this] show ?case by simp
qed simp

lemma settled_all:
  assumes "\<forall>j<length blks. blk_tag (blks ! j) \<noteq> 0" and "tagged 3 blks = {}"
  shows "settled blks = blocks_at blks"
proof -
  have "blk_tag w = 1 \<or> blk_tag w = 2" if w: "w \<in> set blks" for w
  proof -
    have "blk_tag w \<noteq> 3" using assms(2) w in_tagged [of "blk_at w" 3 blks] by blast
    moreover have "blk_tag w \<noteq> 0" using assms(1) w by (auto simp: in_set_conv_nth)
    ultimately show ?thesis using tag_value [of w] by metis
  qed
  then show ?thesis by (fastforce simp: settled_def tagged_def blocks_at_def)
qed

lemma find_largest_result:
  assumes ok: "pool_ok (unat (blk_size d)) (blk_ptr d)" and d': "d' = find_largest_segment d"
  shows "same_request d d'" and "map blk_addr (blk_ptr d') = map blk_addr (blk_ptr d)"
    and "largest_so_far d d'"
    and "seg_size d' < req_size d' \<Longrightarrow> chain (unat (blk_size d)) x m \<subseteq> blocks_at (blk_ptr d) \<Longrightarrow>
      m * unat (blk_size d) \<le> unat (seg_size d')"
proof -
  have inv: "search_inv d (length (blk_ptr d)) d'"
    using search_rounds [OF search_start [OF ok], of "length (blk_ptr d)"]
    by (simp add: d' find_largest_segment_def)
  then show same: "same_request d d'" and addr: "map blk_addr (blk_ptr d') = map blk_addr (blk_ptr d)"
    and "largest_so_far d d'" by (simp_all add: search_inv_def)
  have at: "blocks_at bs = unat ` set (map blk_addr bs)" for bs
    by (simp add: blocks_at_def blk_at_def image_image)
  then have all: "blocks_at (blk_ptr d') = blocks_at (blk_ptr d)" using addr by metis
  assume small: "seg_size d' < req_size d'" and c: "chain (unat (blk_size d)) x m \<subseteq> blocks_at (blk_ptr d)"
  then have s: "searched (unat (blk_size d)) (length (blk_ptr d')) (blk_ptr d') (seg_size d')"
    using inv by (auto simp: search_inv_def same_request_def)
  then have "settled (blk_ptr d') = blocks_at (blk_ptr d')"
    using inv by (intro settled_all) (simp_all add: searched_def search_inv_def)
  then show "m * unat (blk_size d) \<le> unat (seg_size d')"
    using s c all by (simp add: searched_def)
qed

end
