(* ===== verification/DmaMachine.thy ===== *)
theory DmaMachine
  imports DmaSegmentFacts Machine "HOL-Library.Multiset"
begin

text \<open>
  The page-based DMA allocator as a machine of the calls \<^verbatim>\<open>_pgalloc\<close>, \<^verbatim>\<open>_pgfree\<close> and \<^verbatim>\<open>_pgcleanup\<close>.
  The kernel is a parameter of every call (\<open>dma_host\<close>): it hands out different free blocks. In every
  reachable state each block handed out is given back once or held by one segment, and the segments are
  disjoint ranges of memory.
\<close>

section \<open>Taking blocks\<close>

text \<open>What changes while blocks are taken from \<open>pages\<close>: the blocks of \<open>used\<close> are added.\<close>

definition nonzero :: "u64 list \<Rightarrow> u64 list" where
  "nonzero ws = filter (\<lambda>w. w \<noteq> 0) ws"

lemma nonzero_simps [simp]:
  "nonzero [] = []" "nonzero (w # ws) = (if w = 0 then nonzero ws else w # nonzero ws)"
  "nonzero (ws @ vs) = nonzero ws @ nonzero vs" "set (nonzero ws) = set ws - {0}"
  "nonzero (nonzero ws) = nonzero ws"
  by (auto simp: nonzero_def)

definition took :: "u64 list \<Rightarrow> taking \<Rightarrow> taking \<Rightarrow> bool" where
  "took used = (\<lambda>(d, pages, st) (d', pages', st').
     pages = used @ pages' \<and> d' = d\<lparr>blk_ptr := blk_ptr d @ nonzero used\<rparr>
     \<and> st' = st\<lparr>granted := granted st @ nonzero used\<rparr>)"

lemma took_none: "took [] t t"
  by (simp add: took_def split: prod.split)

lemma take_blocks_took:
  "take_blocks n t = Inr (ok, t') \<Longrightarrow> \<exists>used. took used t t' \<and> length (nonzero used) \<le> n
     \<and> (ok \<longrightarrow> length (nonzero used) = n)"
proof (induction n t arbitrary: t' rule: take_blocks.induct)
  case (1 t)
  then have "took [] t t'" using took_none by simp
  then show ?case by (intro exI [of _ "[]"]) simp
next
  case (2 n d pages st)
  show ?case
  proof (cases pages)
    case Nil
    then show ?thesis using 2(2) took_none by fastforce
  next
    case (Cons addr rest)
    show ?thesis
    proof (cases "addr = 0")
      case True
      then show ?thesis using 2(2) Cons
        by (intro exI [of _ "[addr]"]) (auto simp: took_def)
    next
      case False
      then have "length (blk_ptr d) < blk_room d" and "take_blocks n (d\<lparr>blk_ptr := blk_ptr d @ [addr]\<rparr>,
          rest, st\<lparr>granted := granted st @ [addr]\<rparr>) = Inr (ok, t')"
        using 2(2) Cons by (auto split: if_splits)
      then obtain used where "took used (d\<lparr>blk_ptr := blk_ptr d @ [addr]\<rparr>, rest,
          st\<lparr>granted := granted st @ [addr]\<rparr>) t'"
        and "length (nonzero used) \<le> n" and "ok \<longrightarrow> length (nonzero used) = n"
        using 2(1) [OF Cons False] by blast
      then show ?thesis using False Cons
        by (intro exI [of _ "addr # used"]) (auto simp: took_def)
    qed
  qed
qed

lemma take_blocks_in_bounds:
  "length (blk_ptr (fst t)) + n \<le> blk_room (fst t) \<Longrightarrow> \<not> isl (take_blocks n t)"
proof (induction n t rule: take_blocks.induct)
  case (2 n d pages st)
  then show ?case by (cases pages) auto
qed simp

text \<open>The array is never exceeded while \<open>blk_cnt_max\<close> fits it.\<close>

definition room_ok :: "dma_segment \<Rightarrow> bool" where
  "room_ok d \<longleftrightarrow> blk_cnt_max d \<le> int (blk_room d) \<and> blk_cnt_max d < 2 ^ 30 \<and> blk_cnt d \<le> max 0 (blk_cnt_max d)"

lemma alloc_dma_blocks_total:
  assumes room: "room_ok d" and blks: "blks < 2 ^ 30 \<or> blk_cnt d = 0 \<and> blks < 2 ^ 31"
    and low: "- (2 ^ 31) \<le> blks"
  shows "\<exists>ok used t'. alloc_dma_blocks blks (d, pages, st) = Inr (ok, t') \<and> took used (d, pages, st) t'
    \<and> room_ok (fst t')"
proof -
  have cnt: "0 \<le> blk_cnt d" by (simp add: blk_cnt_def)
  then have w: "wrap32 (blk_cnt d + blks) = blk_cnt d + blks"
    using assms by (intro wrap32_id) (auto simp: room_ok_def)
  show ?thesis
  proof (cases "blk_cnt d + blks > blk_cnt_max d")
    case True
    then show ?thesis using room took_none by (fastforce simp: alloc_dma_blocks_def w)
  next
    case False
    then have fits: "length (blk_ptr d) + nat blks \<le> nat (max 0 (blk_cnt_max d))"
      using room cnt by (auto simp: room_ok_def blk_cnt_def)
    then have "length (blk_ptr d) + nat blks \<le> blk_room d" using room by (auto simp: room_ok_def)
    then have "\<not> isl (take_blocks (nat blks) (d, pages, st))" using take_blocks_in_bounds by simp
    then obtain ok t' where t': "take_blocks (nat blks) (d, pages, st) = Inr (ok, t')"
      by (cases "take_blocks (nat blks) (d, pages, st)") auto
    obtain used where u: "took used (d, pages, st) t'" "length (nonzero used) \<le> nat blks"
      using take_blocks_took [OF t'] by blast
    then have "room_ok (fst t')"
      using room fits by (auto simp: took_def room_ok_def blk_cnt_def)
    then show ?thesis using False t' u by (auto simp: alloc_dma_blocks_def w)
  qed
qed

section \<open>Assembling a segment\<close>

text \<open>Blocks as the page allocator hands them out: different, untagged, below the end of memory.\<close>

definition fresh_blocks :: "nat \<Rightarrow> u64 list \<Rightarrow> bool" where
  "fresh_blocks B pages \<longleftrightarrow> 0 < B \<and> distinct (nonzero pages)
     \<and> (\<forall>p\<in>set pages. blk_tag p = 0 \<and> unat p + B < 2 ^ 64)"

text \<open>The state in the loop: the pool are the blocks taken so far, in this order.\<close>

definition pool_of :: "u64 list \<Rightarrow> dma_segment \<Rightarrow> dma_state \<Rightarrow> taking \<Rightarrow> bool" where
  "pool_of pages0 d0 st0 = (\<lambda>(d, pages, st). \<exists>used. pages0 = used @ pages
     \<and> map blk_addr (blk_ptr d) = nonzero used \<and> st = st0\<lparr>granted := granted st0 @ nonzero used\<rparr>
     \<and> req_size d = req_size d0 \<and> blk_size d = blk_size d0)"

lemma map_addr_nonzero:
  "\<forall>p\<in>set pages. blk_tag p = 0 \<Longrightarrow> map blk_addr (nonzero pages) = nonzero pages"
  by (induction pages) (simp_all add: untagged_addr)

lemma pool_of_pool_ok:
  assumes fresh: "fresh_blocks (unat (blk_size d0)) pages0" and pool: "pool_of pages0 d0 st0 (d, pages, st)"
  shows "pool_ok (unat (blk_size d)) (blk_ptr d)"
proof -
  obtain used where u: "pages0 = used @ pages" "map blk_addr (blk_ptr d) = nonzero used"
    "blk_size d = blk_size d0" using pool by (auto simp: pool_of_def)
  then have "\<forall>a\<in>blk_addr ` set (blk_ptr d). unat a + unat (blk_size d0) < 2 ^ 64"
    using fresh by (simp add: fresh_blocks_def flip: list.set_map)
  then show ?thesis using fresh u by (simp add: pool_ok_def fresh_blocks_def blk_at_def)
qed

lemma pool_of_search:
  assumes fresh: "fresh_blocks (unat (blk_size d0)) pages0" and pool: "pool_of pages0 d0 st0 (d, pages, st)"
  shows "pool_of pages0 d0 st0 (find_largest_segment d, pages, st)"
  using pool find_largest_result(1,2) [OF pool_of_pool_ok [OF fresh pool] refl]
  by (auto simp: pool_of_def same_request_def)

lemma pool_of_took:
  assumes fresh: "fresh_blocks (unat (blk_size d0)) pages0" and pool: "pool_of pages0 d0 st0 t"
    and took: "took used t t'"
  shows "pool_of pages0 d0 st0 t'"
proof -
  obtain d pages st d' pages' st' where t: "t = (d, pages, st)" "t' = (d', pages', st')"
    by (metis prod_cases3)
  obtain used0 where u: "pages0 = used0 @ pages" "map blk_addr (blk_ptr d) = nonzero used0"
    "st = st0\<lparr>granted := granted st0 @ nonzero used0\<rparr>" "req_size d = req_size d0" "blk_size d = blk_size d0"
    using pool by (auto simp: pool_of_def t)
  have new: "pages = used @ pages'" "d' = d\<lparr>blk_ptr := blk_ptr d @ nonzero used\<rparr>"
    "st' = st\<lparr>granted := granted st @ nonzero used\<rparr>" using took by (simp_all add: took_def t)
  have "map blk_addr (nonzero used) = nonzero used"
    using fresh u(1) new(1) by (intro map_addr_nonzero) (simp add: fresh_blocks_def)
  then show ?thesis using u new
    by (auto simp: pool_of_def t intro!: exI [of _ "used0 @ used"])
qed

text \<open>The blocks with tag 2 are the whole segment when it is large enough.\<close>

definition complete_segment :: "dma_segment \<Rightarrow> bool" where
  "complete_segment d \<longleftrightarrow> seg_size d = seg_end d - seg_begin d
     \<and> (\<exists>n. spans (unat (blk_size d)) (seg_begin d) (seg_end d) n
          \<and> tagged 2 (blk_ptr d) = chain (unat (blk_size d)) (unat (seg_begin d)) n)"

lemma assemble_result:
  assumes fresh: "fresh_blocks (unat (blk_size d0)) pages0" and pool: "pool_of pages0 d0 st0 t"
    and room: "room_ok (fst t)" and small: "seg_size (fst t) < req_size (fst t)"
  shows "\<exists>d pages st. assemble t = Inr (d, pages, st) \<and> pool_of pages0 d0 st0 (d, pages, st)
    \<and> (req_size d \<le> seg_size d \<longrightarrow> complete_segment d)"
  using pool room small
proof (induction t rule: assemble.induct)
  case (1 d pages st)
  define x where "x = find_largest_segment d"
  have ok: "pool_ok (unat (blk_size d)) (blk_ptr d)" by (rule pool_of_pool_ok [OF fresh 1(2)])
  note found = find_largest_result [OF ok x_def]
  have pool: "pool_of pages0 d0 st0 (x, pages, st)"
    using pool_of_search [OF fresh 1(2)] by (simp add: x_def)
  have room: "room_ok x" using 1(3) found(1) by (auto simp: room_ok_def same_request_def blk_cnt_def)
  show ?case
  proof (cases "req_size x \<le> seg_size x")
    case True
    then have "seg_size x \<noteq> seg_size d" using 1(4) found(1) by (auto simp: same_request_def)
    then have "complete_segment x" using found(3) by (auto simp: largest_so_far_def complete_segment_def)
    then show ?thesis using True pool by (simp add: assemble.simps [of d] x_def [symmetric])
  next
    case False
    obtain ok used t' where a: "alloc_dma_blocks 8 (x, pages, st) = Inr (ok, t')"
      and took: "took used (x, pages, st) t'" and room': "room_ok (fst t')"
      using alloc_dma_blocks_total [OF room, of 8 pages st] by auto
    have pool': "pool_of pages0 d0 st0 t'" by (rule pool_of_took [OF fresh pool took])
    obtain d' pages' st' where t': "t' = (d', pages', st')" by (cases t')
    have same: "seg_size d' = seg_size x" "req_size d' = req_size x" using took by (auto simp: took_def t')
    show ?thesis
    proof (cases ok)
      case True
      then have "assemble (d, pages, st) = assemble t'"
        using a False by (simp add: assemble.simps [of d] x_def [symmetric])
      moreover have "seg_size (fst t') < req_size (fst t')" using same False by (simp add: t')
      ultimately show ?thesis
        using 1(1) [OF x_def _ a refl True pool' room'] False by auto
    next
      case no: False
      then have "assemble (d, pages, st) = Inr (d', pages', st')"
        using a False by (simp add: assemble.simps [of d] x_def [symmetric] t')
      then show ?thesis using pool' same False by (auto simp: t')
    qed
  qed
qed

section \<open>Settling and giving back\<close>

definition pages_of :: "u64 \<Rightarrow> u64 list \<Rightarrow> u64 set" where
  "pages_of sz ws = (\<Union>w\<in>set ws. page_range w sz)"

definition kept :: "u64 list \<Rightarrow> u64 list" where
  "kept ws = map blk_addr (filter (\<lambda>w. blk_tag w = 2) ws)"

definition dropped :: "u64 list \<Rightarrow> u64 list" where
  "dropped ws = map blk_addr (filter (\<lambda>w. blk_tag w \<noteq> 2 \<and> w \<noteq> 0) ws)"

lemma settle_blocks_spec:
  "settle_blocks sz ws st = (map (\<lambda>w. if blk_tag w = 2 then blk_addr w else 0) ws,
     st\<lparr>released := released st @ dropped ws, reserved := reserved st \<union> pages_of sz (kept ws)\<rparr>)"
  by (induction ws arbitrary: st)
    (auto simp: dropped_def kept_def pages_of_def Un_assoc split: prod.splits)

lemma nonzero_settled:
  "0 \<notin> blk_addr ` set ws \<Longrightarrow> nonzero (map (\<lambda>w. if blk_tag w = 2 then blk_addr w else 0) ws) = kept ws"
  by (induction ws) (auto simp: kept_def)

lemma mset_settled:
  "0 \<notin> blk_addr ` set ws \<Longrightarrow> mset (kept ws) + mset (dropped ws) = mset (map blk_addr ws)"
proof (induction ws)
  case (Cons w ws)
  have "blk_addr 0 = 0" by (simp add: blk_addr_def)
  then show ?case using Cons by (auto simp: kept_def dropped_def)
qed (simp add: kept_def dropped_def)

lemma segment_free_spec:
  "dma_segment_free d st = st\<lparr>released := released st @ nonzero (blk_ptr d),
     reserved := reserved st - pages_of (blk_size d) (nonzero (blk_ptr d))\<rparr>"
proof -
  have "fold (\<lambda>w st. if w \<noteq> 0 then st\<lparr>reserved := reserved st - page_range w sz,
        released := released st @ [w]\<rparr> else st) ws st
      = st\<lparr>released := released st @ nonzero ws, reserved := reserved st - pages_of sz (nonzero ws)\<rparr>"
    for ws sz and st :: dma_state
    by (induction ws arbitrary: st) (auto simp: pages_of_def Diff_eq Int_assoc)
  then show ?thesis by (simp add: dma_segment_free_def)
qed

section \<open>Sizes\<close>

lemma clear_page_bits: "unat (w AND NOT (4095 :: u64)) = unat w - unat w mod 4096"
proof -
  have m: "(4095 :: u64) = mask 12" by (simp add: mask_eq_exp_minus_1)
  have w: "push_bit 12 (drop_bit 12 w) + take_bit 12 w = w" by (rule bits_ident)
  have "w AND NOT (mask 12) = push_bit 12 (drop_bit 12 w)"
    by (rule bit_eqI) (auto simp: bit_and_iff bit_not_iff bit_mask_iff bit_push_bit_iff bit_drop_bit_eq)
  also have "\<dots> = w - take_bit 12 w" using w by (simp add: eq_diff_eq)
  finally have "w AND NOT (mask 12) = w - take_bit 12 w" .
  moreover have t: "unat (take_bit 12 w) = unat w mod 4096"
    by (simp add: take_bit_eq_mod unat_mod_distrib)
  then have "take_bit 12 w \<le> w" by (simp add: word_le_nat_alt)
  ultimately show ?thesis using t unfolding m by (simp add: unat_sub)
qed

lemma page_align_small:
  assumes "0 < x" and "x \<le> 2 ^ 19"
  shows "0 < PAGE_ALIGN x" and "PAGE_ALIGN x \<le> 2 ^ 19" and "4096 \<le> PAGE_ALIGN x"
proof -
  have x: "0 < unat x" "unat x \<le> 2 ^ 19" using assms by (simp_all add: word_less_nat_alt word_le_nat_alt)
  then have "unat (x + 4095) = unat x + 4095" by (subst unat_add_lem [THEN iffD1]) simp_all
  then have "unat (PAGE_ALIGN x) = (unat x + 4095) - (unat x + 4095) mod 4096"
    unfolding PAGE_ALIGN_def PAGE_SIZE_def using clear_page_bits [of "x + 4095"] by simp
  then have u: "unat (PAGE_ALIGN x) = (unat x + 4095) div 4096 * 4096"
    by (simp add: minus_mod_eq_div_mult)
  have lo: "1 \<le> (unat x + 4095) div 4096" using x div_le_mono [of 4096 "unat x + 4095" 4096] by simp
  have hi: "(unat x + 4095) div 4096 \<le> 128" using x div_le_mono [of "unat x + 4095" "2 ^ 19 + 4095" 4096] by simp
  show "0 < PAGE_ALIGN x" and "PAGE_ALIGN x \<le> 2 ^ 19" and "4096 \<le> PAGE_ALIGN x"
    using lo hi by (simp_all add: word_less_nat_alt word_le_nat_alt u)
qed

lemma find_order_small:
  assumes "sz \<le> 2 ^ 19"
  shows "\<exists>order. find_order sz 0 = Inr order"
proof -
  have "push_bit 7 PAGE_SIZE = 2 ^ 19" by (simp add: PAGE_SIZE_def push_bit_eq_mult)
  then have "find_order sz 7 = Inr 7" using assms by (simp add: find_order.simps [of sz 7] not_less [THEN iffD2])
  then have "\<exists>order. find_order sz k = Inr order" if "k \<le> 7" for k
    using that
  proof (induction "7 - k" arbitrary: k)
    case 0
    then show ?case by simp
  next
    case (Suc n)
    then have "\<exists>order. find_order sz (k + 1) = Inr order" by simp
    then show ?case using Suc.prems by (simp add: find_order.simps [of sz k])
  qed
  from this [of 0] show ?thesis by simp
qed

section \<open>One allocation\<close>

definition request_block :: "u64 \<Rightarrow> u64" where
  "request_block sz = PAGE_ALIGN (if sz < DMA_BLOCK_SIZE then sz else DMA_BLOCK_SIZE)"

definition held :: "dma_segment \<Rightarrow> u64 list" where
  "held d = nonzero (blk_ptr d)"

definition memory :: "dma_segment \<Rightarrow> nat set" where
  "memory d = (\<Union>w\<in>set (held d). {unat w..<unat w + unat (blk_size d)})"

text \<open>The kernel: less than 2^28 pages of memory, and, for a request of a positive size, fresh blocks outside
  the memory that is held.\<close>

definition host_ok :: "dma_host \<Rightarrow> u64 \<Rightarrow> dma_state \<Rightarrow> bool" where
  "host_ok host sz st \<longleftrightarrow> totalram host < 2 ^ 28 \<and> 0 \<le> kmalloc_max_size host
     \<and> kmalloc_max_size host < 2 ^ 30
     \<and> (sz \<noteq> 0 \<longrightarrow> fresh_blocks (unat (request_block sz)) (free_pages host)
          \<and> (\<forall>p\<in>set (free_pages host). \<forall>d\<in>set (dma_seg st).
               {unat p..<unat p + unat (request_block sz)} \<inter> memory d = {}))"

lemma request_block_bounds:
  assumes "sz \<noteq> 0"
  shows "0 < request_block sz" and "request_block sz \<le> 2 ^ 19" and "4096 \<le> request_block sz"
proof -
  have d: "DMA_BLOCK_SIZE = 2 ^ 19" by (simp add: DMA_BLOCK_SIZE_def)
  have "0 < (if sz < DMA_BLOCK_SIZE then sz else DMA_BLOCK_SIZE)"
    and "(if sz < DMA_BLOCK_SIZE then sz else DMA_BLOCK_SIZE) \<le> 2 ^ 19"
    using assms by (auto simp: d word_neq_0_conv less_imp_le)
  from page_align_small [OF this]
  show "0 < request_block sz" and "request_block sz \<le> 2 ^ 19" and "4096 \<le> request_block sz"
    by (simp_all add: request_block_def)
qed

lemma block_count_small:
  assumes "totalram host < 2 ^ 28" and "4096 \<le> block"
  shows "0 \<le> wrap32 (uint (push_bit PAGE_SHIFT (totalram host) div block))"
    and "wrap32 (uint (push_bit PAGE_SHIFT (totalram host) div block)) < 2 ^ 28"
proof -
  let ?t = "totalram host"
  have t: "unat ?t < 2 ^ 28" and b: "4096 \<le> unat block"
    using assms by (simp_all add: word_less_nat_alt word_le_nat_alt)
  have "unat (push_bit PAGE_SHIFT ?t) = unat ?t * 4096"
    using t by (simp add: PAGE_SHIFT_def push_bit_eq_mult unat_word_ariths)
  then have "unat (push_bit PAGE_SHIFT ?t div block) = unat ?t * 4096 div unat block"
    by (simp add: unat_div)
  also have "\<dots> \<le> unat ?t * 4096 div 4096" using b by (intro div_le_mono2) simp_all
  also have "\<dots> < 2 ^ 28" using t by simp
  finally have "int (unat (push_bit PAGE_SHIFT ?t div block)) < int (2 ^ 28)"
    by (simp only: of_nat_less_iff)
  then have u: "uint (push_bit PAGE_SHIFT ?t div block) < 2 ^ 28"
    by (simp only: uint_nat of_nat_power of_nat_numeral)
  then have "wrap32 (uint (push_bit PAGE_SHIFT ?t div block)) = uint (push_bit PAGE_SHIFT ?t div block)"
    by (intro wrap32_id) (use uint_ge_min32 in auto)
  with u show "0 \<le> wrap32 (uint (push_bit PAGE_SHIFT ?t div block))"
    and "wrap32 (uint (push_bit PAGE_SHIFT ?t div block)) < 2 ^ 28" by simp_all
qed

text \<open>What an allocation leaves: a descriptor whose blocks are held, the others given back.\<close>

definition allocated :: "dma_host \<Rightarrow> u64 \<Rightarrow> dma_state \<Rightarrow> dma_segment \<Rightarrow> dma_state \<Rightarrow> bool" where
  "allocated host sz st d st' \<longleftrightarrow> req_size d = sz \<and> blk_size d = request_block sz
     \<and> dma_seg st' = dma_seg st \<and> distinct (held d) \<and> set (held d) \<subseteq> set (free_pages host)
     \<and> mset (granted st') + mset (released st) = mset (granted st) + mset (released st') + mset (held d)
     \<and> (sz \<le> seg_size d \<longrightarrow> (\<exists>n. unat ` set (held d) = chain (unat (blk_size d)) (unat (seg_begin d)) n
          \<and> unat (seg_size d) = n * unat (blk_size d)))"

lemma settled_allocated:
  assumes fresh: "fresh_blocks (unat (blk_size d0)) (free_pages host)"
    and pool: "pool_of (free_pages host) d0 st (d, pages, st1)"
    and d0: "req_size d0 = sz" "blk_size d0 = request_block sz"
    and complete: "req_size d \<le> seg_size d \<longrightarrow> complete_segment d"
    and settle: "settle_blocks block (blk_ptr d) st1 = (blks, st')"
  shows "allocated host sz st (d\<lparr>blk_ptr := blks\<rparr>) st'"
proof -
  obtain used where u: "free_pages host = used @ pages" "map blk_addr (blk_ptr d) = nonzero used"
    "st1 = st\<lparr>granted := granted st @ nonzero used\<rparr>" "req_size d = sz" "blk_size d = request_block sz"
    using pool d0 by (auto simp: pool_of_def)
  have "0 \<notin> set (map blk_addr (blk_ptr d))" by (simp add: u(2))
  then have no0: "0 \<notin> blk_addr ` set (blk_ptr d)" by simp
  have held: "held (d\<lparr>blk_ptr := blks\<rparr>) = kept (blk_ptr d)"
    using settle nonzero_settled [OF no0] by (simp add: held_def settle_blocks_spec)
  have sub: "set (kept ws) \<subseteq> set (map blk_addr ws)" for ws by (auto simp: kept_def)
  have dist: "distinct (map blk_addr ws) \<Longrightarrow> distinct (kept ws)" for ws
    by (induction ws) (auto simp: kept_def)
  have m: "mset (nonzero used) = mset (kept (blk_ptr d)) + mset (dropped (blk_ptr d))"
    using mset_settled [OF no0] by (simp add: u(2))
  have at: "unat ` set (kept (blk_ptr d)) = tagged 2 (blk_ptr d)"
    by (auto simp: kept_def tagged_def blk_at_def)
  have "distinct (map blk_addr (blk_ptr d))" using fresh u(1) unfolding u(2)
    by (simp add: fresh_blocks_def)
  moreover have "set (kept (blk_ptr d)) \<subseteq> set (free_pages host)"
    using sub [of "blk_ptr d"] unfolding u(1) u(2) by auto
  moreover have "st' = st1\<lparr>released := released st1 @ dropped (blk_ptr d),
      reserved := reserved st1 \<union> pages_of block (kept (blk_ptr d))\<rparr>"
    using settle by (simp add: settle_blocks_spec)
  moreover have "\<exists>n. tagged 2 (blk_ptr d) = chain (unat (blk_size d)) (unat (seg_begin d)) n
      \<and> unat (seg_size d) = n * unat (blk_size d)" if "sz \<le> seg_size d"
    using complete that u(4) spans_size by (auto simp: complete_segment_def)
  ultimately show ?thesis
    using dist by (simp add: allocated_def held at u(3-5) m)
qed

lemma segment_alloc_result:
  assumes ok: "host_ok host sz st"
  shows "dma_segment_alloc host sz (if sz < DMA_BLOCK_SIZE then sz else DMA_BLOCK_SIZE) st = Inr (None, st)
    \<or> (sz \<noteq> 0 \<and> (\<exists>d st'. dma_segment_alloc host sz (if sz < DMA_BLOCK_SIZE then sz else DMA_BLOCK_SIZE) st
          = Inr (Some d, st') \<and> allocated host sz st d st'))"
proof (cases "sz = 0 \<or> \<not> have_descriptor host \<or> \<not> have_array host")
  case True
  then show ?thesis
    using request_block_bounds(2) [of sz] find_order_small [of "request_block sz"]
      request_block_bounds(1) [of sz]
    by (auto simp: dma_segment_alloc_def request_block_def [symmetric] Let_def)
next
  case False
  then have nz: "sz \<noteq> 0" by simp
  note bounds = request_block_bounds [OF nz]
  have raw: "(if sz < DMA_BLOCK_SIZE then sz else DMA_BLOCK_SIZE) \<noteq> 0"
    using nz by (simp add: DMA_BLOCK_SIZE_def)
  let ?B = "request_block sz"
  obtain order where order: "find_order ?B 0 = Inr order" using find_order_small [OF bounds(2)] by blast
  define cnt where "cnt = wrap32 (uint (push_bit PAGE_SHIFT (totalram host) div ?B))"
  have ram: "totalram host < 2 ^ 28" using ok by (simp add: host_ok_def)
  have cnt: "0 \<le> cnt" "cnt < 2 ^ 28"
    unfolding cnt_def by (rule block_count_small [OF ram bounds(3)])+
  then have wrap: "wrap32 (cnt * 8) = cnt * 8" by (intro wrap32_id) simp_all
  define capped where "capped \<longleftrightarrow> kmalloc_max_size host < cnt * 8"
  define d0 where "d0 = \<lparr>req_size = sz, blk_size = ?B, blk_order = order, seg_size = 0, seg_begin = 0,
    seg_end = 0, blk_ptr = [], blk_room = nat ((if capped then kmalloc_max_size host else cnt * 8) div 8),
    blk_cnt_max = (if capped then kmalloc_max_size host div 8 else cnt)\<rparr>"
  have room: "room_ok d0"
    using cnt ok by (auto simp: room_ok_def d0_def blk_cnt_def host_ok_def nat_div_distrib)
  have fresh: "fresh_blocks (unat (blk_size d0)) (free_pages host)" using ok nz by (simp add: host_ok_def d0_def)
  define first where "first = wrap32 (uint (sz div ?B))"
  have "- (2 ^ 31) \<le> first" "first < 2 ^ 31" using wrap32_range [of "uint (sz div ?B)"] by (simp_all add: first_def)
  then obtain ok1 used t where t: "alloc_dma_blocks first (d0, free_pages host, st) = Inr (ok1, t)"
    and took: "took used (d0, free_pages host, st) t" and room': "room_ok (fst t)"
    using alloc_dma_blocks_total [OF room, of first "free_pages host" st] by (auto simp: d0_def blk_cnt_def)
  have "pool_of (free_pages host) d0 st (d0, free_pages host, st)" by (simp add: pool_of_def d0_def)
  then have pool: "pool_of (free_pages host) d0 st t" using pool_of_took [OF fresh _ took] by blast
  have "seg_size (fst t) < req_size (fst t)"
    using took nz by (auto simp: took_def d0_def word_neq_0_conv split: prod.splits)
  then obtain d pages st1 where a: "assemble t = Inr (d, pages, st1)"
    and pool1: "pool_of (free_pages host) d0 st (d, pages, st1)"
    and complete: "req_size d \<le> seg_size d \<longrightarrow> complete_segment d"
    using assemble_result [OF fresh pool room'] by blast
  obtain blks st' where settle: "settle_blocks ?B (blk_ptr d) st1 = (blks, st')" by fastforce
  have "dma_segment_alloc host sz (if sz < DMA_BLOCK_SIZE then sz else DMA_BLOCK_SIZE) st
      = Inr (Some (d\<lparr>blk_ptr := blks\<rparr>), st')"
    using False raw order bounds(1) cnt t a settle
    by (cases capped) (simp_all add: dma_segment_alloc_def request_block_def [symmetric]
        cnt_def [symmetric] wrap capped_def [symmetric] first_def [symmetric] d0_def Let_def
        word_neq_0_conv)
  moreover have "allocated host sz st (d\<lparr>blk_ptr := blks\<rparr>) st'"
    using settled_allocated [OF fresh pool1 _ _ complete settle] by (simp add: d0_def)
  ultimately show ?thesis using nz by blast
qed

section \<open>Calls, invariant and specification\<close>

datatype dma_call = PgAlloc dma_host u64 | PgFree u64 | PgCleanup

datatype dma_answer = Address u64 | Code int | Done

fun dma_exec :: "dma_call \<Rightarrow> dma_state \<Rightarrow> (dma_answer \<times> dma_state) checked" where
  "dma_exec (PgAlloc host sz) st =
     (case pgalloc host sz st of Inl f \<Rightarrow> Inl f | Inr (p, st') \<Rightarrow> Inr (Address p, st'))"
| "dma_exec (PgFree ptr) st = (let (code, st') = pgfree ptr st in Inr (Code code, st'))"
| "dma_exec PgCleanup st = Inr (Done, pgcleanup st)"

fun dma_call_ok :: "dma_call \<Rightarrow> dma_state \<Rightarrow> bool" where
  "dma_call_ok (PgAlloc host sz) st \<longleftrightarrow> host_ok host sz st"
| "dma_call_ok c st \<longleftrightarrow> True"

definition dma_start :: "dma_state \<Rightarrow> bool" where
  "dma_start st \<longleftrightarrow> st = \<lparr>granted = [], released = [], reserved = {}, dma_seg = []\<rparr>"

abbreviation dma_reachable :: "dma_state \<Rightarrow> bool" where
  "dma_reachable \<equiv> reachable dma_start dma_call_ok dma_exec"

text \<open>The memory that a caller was given.\<close>

definition dma_range :: "dma_segment \<Rightarrow> nat set" where
  "dma_range d = {unat (seg_begin d)..<unat (seg_begin d) + unat (req_size d)}"

definition segment_ok :: "dma_segment \<Rightarrow> bool" where
  "segment_ok d \<longleftrightarrow> req_size d \<noteq> 0 \<and> seg_begin d \<noteq> 0 \<and> distinct (held d)
     \<and> dma_range d \<subseteq> memory d"

definition all_held :: "dma_state \<Rightarrow> u64 multiset" where
  "all_held st = sum_list (map (\<lambda>d. mset (held d)) (dma_seg st))"

definition dma_inv :: "dma_state \<Rightarrow> bool" where
  "dma_inv st \<longleftrightarrow> mset (granted st) = mset (released st) + all_held st
     \<and> list_all segment_ok (dma_seg st)
     \<and> sorted_wrt (\<lambda>d e. memory d \<inter> memory e = {}) (dma_seg st)"

text \<open>Abstractly: the list of the addresses given out with their sizes.\<close>

definition dma_view :: "dma_state \<Rightarrow> (u64 \<times> u64) list" where
  "dma_view st = map (\<lambda>d. (seg_begin d, req_size d)) (dma_seg st)"

fun remove_address :: "u64 \<Rightarrow> (u64 \<times> u64) list \<Rightarrow> (u64 \<times> u64) list" where
  "remove_address p [] = []"
| "remove_address p (x # xs) = (if p = fst x then xs else x # remove_address p xs)"

fun dma_spec :: "dma_call \<Rightarrow> (u64 \<times> u64) list \<Rightarrow> dma_answer \<Rightarrow> (u64 \<times> u64) list \<Rightarrow> bool" where
  "dma_spec (PgAlloc host sz) a r a' \<longleftrightarrow>
     r = Address 0 \<and> a' = a \<or> (\<exists>p. p \<noteq> 0 \<and> sz \<noteq> 0 \<and> r = Address p \<and> a' = (p, sz) # a)"
| "dma_spec (PgFree p) a r a' \<longleftrightarrow>
     (if p \<in> fst ` set a then r = Code 0 else r = Code (-1)) \<and> a' = remove_address p a"
| "dma_spec PgCleanup a r a' \<longleftrightarrow> r = Done \<and> a' = []"

lemma chain_memory: "(\<Union>x\<in>chain B b n. {x..<x + B}) = {b..<b + n * B}"
proof (induction n)
  case (Suc n)
  have "(\<Union>x\<in>chain B b (Suc n). {x..<x + B}) = {b..<b + n * B} \<union> {b + n * B..<b + n * B + B}"
    using Suc by (simp add: chain_above Un_commute)
  also have "\<dots> = {b..<b + Suc n * B}" by (subst ivl_disj_un_two(3)) (simp_all add: algebra_simps)
  finally show ?case .
qed simp

lemma allocated_segment_ok:
  assumes a: "allocated host sz st d st'" and sz: "sz \<noteq> 0" "sz \<le> seg_size d"
  shows "segment_ok d" and "dma_range d \<subseteq> memory d"
proof -
  obtain n where n: "unat ` set (held d) = chain (unat (blk_size d)) (unat (seg_begin d)) n"
    "unat (seg_size d) = n * unat (blk_size d)"
    using a sz(2) unfolding allocated_def by blast
  have "memory d = (\<Union>x\<in>unat ` set (held d). {x..<x + unat (blk_size d)})"
    by (simp add: memory_def)
  then have "memory d = {unat (seg_begin d)..<unat (seg_begin d) + unat (seg_size d)}"
    by (simp add: n chain_memory)
  then show cov: "dma_range d \<subseteq> memory d"
    using a sz(2) by (auto simp: dma_range_def allocated_def word_le_nat_alt)
  have "n \<noteq> 0"
  proof
    assume "n = 0"
    with n(2) have "seg_size d = 0" by (simp add: unat_eq_zero)
    with sz show False by simp
  qed
  then have "unat (seg_begin d) \<in> unat ` set (held d)"
    by (cases n) (simp_all add: n(1) chain_below)
  then have "seg_begin d \<noteq> 0" by (auto simp: held_def unat_eq_zero)
  then show "segment_ok d" using a sz(1) cov by (simp add: segment_ok_def allocated_def)
qed

lemma free_segment_inv:
  assumes "mset (granted st) = mset (released st) + (mset (held d) + all_held st)"
  shows "mset (granted (dma_segment_free d st))
    = mset (released (dma_segment_free d st)) + all_held (dma_segment_free d st)"
  using assms by (simp add: segment_free_spec all_held_def held_def)

lemma pgalloc_step:
  assumes inv: "dma_inv st" and ok: "host_ok host sz st"
  shows "\<exists>r st'. dma_exec (PgAlloc host sz) st = Inr (r, st') \<and> dma_inv st'
    \<and> dma_spec (PgAlloc host sz) (dma_view st) r (dma_view st')"
proof -
  let ?block = "if sz < DMA_BLOCK_SIZE then sz else DMA_BLOCK_SIZE"
  from segment_alloc_result [OF ok]
  consider (none) "dma_segment_alloc host sz ?block st = Inr (None, st)"
    | (some) d st' where "sz \<noteq> 0" "dma_segment_alloc host sz ?block st = Inr (Some d, st')"
        "allocated host sz st d st'" by blast
  then show ?thesis
  proof cases
    case none
    then show ?thesis using inv by (simp add: pgalloc_def Let_def)
  next
    case some
    have cons: "mset (granted st') = mset (released st') + (mset (held d) + all_held st')"
      using some(3) inv by (simp add: allocated_def dma_inv_def all_held_def algebra_simps)
    have segs: "dma_seg st' = dma_seg st" "req_size d = sz" "blk_size d = request_block sz"
      using some(3) by (simp_all add: allocated_def)
    show ?thesis
    proof (cases "seg_size d < sz")
      case True
      then have e: "pgalloc host sz st = Inr (0, dma_segment_free d st')"
        using some(2) by (simp add: pgalloc_def Let_def)
      have "dma_inv (dma_segment_free d st')"
        using free_segment_inv [OF cons] inv segs by (simp add: dma_inv_def segment_free_spec)
      then show ?thesis using e segs by (simp add: dma_view_def segment_free_spec)
    next
      case False
      then have e: "pgalloc host sz st = Inr (seg_begin d, st'\<lparr>dma_seg := d # dma_seg st'\<rparr>)"
        using some(2) by (simp add: pgalloc_def Let_def)
      have seg: "segment_ok d" using allocated_segment_ok(1) [OF some(3,1)] False by simp
      have "memory d \<inter> memory x = {}" if "x \<in> set (dma_seg st)" for x
      proof -
        have "set (held d) \<subseteq> set (free_pages host)" using some(3) by (simp add: allocated_def)
        then have "{unat w..<unat w + unat (blk_size d)} \<inter> memory x = {}" if "w \<in> set (held d)" for w
          using ok \<open>x \<in> set (dma_seg st)\<close> segs(3) that some(1) unfolding host_ok_def by auto
        then show ?thesis unfolding memory_def [of d] by blast
      qed
      then have "dma_inv (st'\<lparr>dma_seg := d # dma_seg st'\<rparr>)"
        using cons inv seg segs by (simp add: dma_inv_def all_held_def)
      then show ?thesis using e segs seg some(1) by (simp add: dma_view_def segment_ok_def)
    qed
  qed
qed

lemma find_segment_None: "find_segment p ds = None \<longleftrightarrow> p \<notin> seg_begin ` set ds"
  by (induction ds) auto

lemma find_segment_Some:
  "find_segment p ds = Some (d, es) \<Longrightarrow>
     \<exists>xs ys. ds = xs @ d # ys \<and> es = xs @ ys \<and> seg_begin d = p \<and> p \<notin> seg_begin ` set xs"
proof (induction ds arbitrary: es)
  case (Cons x ds)
  show ?case
  proof (cases "p = seg_begin x")
    case True
    then show ?thesis using Cons.prems by (intro exI [of _ "[]"] exI [of _ ds]) auto
  next
    case False
    then obtain es' where "find_segment p ds = Some (d, es')" and es: "es = x # es'"
      using Cons.prems by auto
    then obtain xs ys where "ds = xs @ d # ys" "es' = xs @ ys" "seg_begin d = p" "p \<notin> seg_begin ` set xs"
      using Cons.IH by blast
    then show ?thesis using es False by (intro exI [of _ "x # xs"] exI [of _ ys]) auto
  qed
qed simp

lemma remove_address_other: "p \<notin> fst ` set xs \<Longrightarrow> remove_address p (xs @ ys) = xs @ remove_address p ys"
  by (induction xs) auto

lemma pgfree_step:
  assumes inv: "dma_inv st"
  shows "\<exists>r st'. dma_exec (PgFree p) st = Inr (r, st') \<and> dma_inv st'
    \<and> dma_spec (PgFree p) (dma_view st) r (dma_view st')"
proof (cases "find_segment p (dma_seg st)")
  case None
  then have "p \<notin> fst ` set (dma_view st)"
    by (simp add: find_segment_None dma_view_def image_image)
  then show ?thesis
    using None inv remove_address_other [of p "dma_view st" "[]"] by (simp add: pgfree_def)
next
  case (Some x)
  obtain d es where x: "x = (d, es)" by (cases x)
  have f: "find_segment p (dma_seg st) = Some (d, es)" using Some x by simp
  obtain xs ys where ds: "dma_seg st = xs @ d # ys" "es = xs @ ys" "seg_begin d = p"
    "p \<notin> seg_begin ` set xs" using find_segment_Some [OF f] by blast
  let ?st = "st\<lparr>dma_seg := es\<rparr>"
  have "mset (granted ?st) = mset (released ?st) + (mset (held d) + all_held ?st)"
    using inv by (simp add: dma_inv_def all_held_def ds algebra_simps)
  from free_segment_inv [OF this] have "dma_inv (dma_segment_free d ?st)"
    using inv by (simp add: dma_inv_def ds segment_free_spec sorted_wrt_append)
  moreover have "dma_view (dma_segment_free d ?st) = remove_address p (dma_view st)"
    using ds remove_address_other [of p "map (\<lambda>d. (seg_begin d, req_size d)) xs"]
    by (simp add: dma_view_def segment_free_spec image_image)
  moreover have "p \<in> fst ` set (dma_view st)" using ds by (auto simp: dma_view_def)
  ultimately show ?thesis using Some x by (simp add: pgfree_def)
qed

lemma cleanup_step:
  assumes inv: "dma_inv st"
  shows "\<exists>r st'. dma_exec PgCleanup st = Inr (r, st') \<and> dma_inv st'
    \<and> dma_spec PgCleanup (dma_view st) r (dma_view st')"
proof -
  have "mset (granted (fold dma_segment_free ds st)) = mset (released (fold dma_segment_free ds st))
      + all_held (fold dma_segment_free ds st) \<and> dma_seg (fold dma_segment_free ds st) = dma_seg st"
    if "mset (granted st) = mset (released st) + (sum_list (map (\<lambda>d. mset (held d)) ds) + all_held st)"
    for ds and st :: dma_state
    using that
  proof (induction ds arbitrary: st)
    case (Cons d ds)
    have "mset (granted (dma_segment_free d st)) = mset (released (dma_segment_free d st))
        + (sum_list (map (\<lambda>d. mset (held d)) ds) + all_held (dma_segment_free d st))"
      using Cons.prems by (simp add: segment_free_spec all_held_def held_def algebra_simps)
    from Cons.IH [OF this] show ?case by (simp add: segment_free_spec)
  qed simp
  from this [of "st\<lparr>dma_seg := []\<rparr>" "dma_seg st"]
  show ?thesis using inv by (simp add: dma_inv_def pgcleanup_def dma_view_def all_held_def)
qed

interpretation dma: machine dma_start dma_call_ok dma_exec dma_inv dma_view dma_spec
proof
  show "dma_start st \<Longrightarrow> dma_inv st" for st
    by (simp add: dma_start_def dma_inv_def all_held_def)
  show "\<exists>r st'. dma_exec c st = Inr (r, st') \<and> dma_inv st' \<and> dma_spec c (dma_view st) r (dma_view st')"
    if "dma_inv st" and "dma_call_ok c st" for st c
    using that pgalloc_step pgfree_step cleanup_step by (cases c) (simp_all del: dma_exec.simps dma_spec.simps)
qed

section \<open>Properties\<close>

text \<open>C29. In every reachable state every call of the page-based DMA allocator returns without leaving the
  block array, and what it does to the list of the segments handed out is the specification: an
  allocation returns NULL and changes nothing or adds a non-zero address with the requested size, a
  release removes the segment of the address or reports -1, the clean-up removes all. This is for
  allocations, in the state and in the calls that lead to it, with less than \<open>2 ^ 28\<close> pages of memory (one
  terabyte; from two on the size of the array wraps) and a \<^verbatim>\<open>KMALLOC_MAX_SIZE\<close> from 0 to below \<open>2 ^ 30\<close>,
  where the kernel hands out page-aligned blocks, different from each other, below the end of the address
  space and outside the blocks that are held; each of its allocations can fail.\<close>

theorem dma_calls_refine:
  assumes "dma_reachable st" and "dma_call_ok c st"
  shows "\<exists>r st'. dma_exec c st = Inr (r, st') \<and> dma_reachable st'
    \<and> dma_spec c (dma_view st) r (dma_view st')"
  by (rule dma.reachable_refines [OF assms])

lemma held_memory:
  assumes "dma_inv st" and "i < length (dma_seg st)" and "j < i"
  shows "dma_range (dma_seg st ! i) \<inter> dma_range (dma_seg st ! j) = {}"
proof -
  have "segment_ok (dma_seg st ! i)" "segment_ok (dma_seg st ! j)"
    using assms by (simp_all add: dma_inv_def list_all_length)
  moreover have "memory (dma_seg st ! j) \<inter> memory (dma_seg st ! i) = {}"
    using assms unfolding dma_inv_def sorted_wrt_iff_nth_less by blast
  ultimately show ?thesis unfolding segment_ok_def by blast
qed

text \<open>C28. In every reachable state each block that the kernel handed out has been given back exactly once or
  is held by exactly one segment, the range of each segment lies in the blocks it holds, and the ranges
  of two segments are disjoint.\<close>

theorem dma_segments_invariant:
  assumes "dma_reachable st"
  shows "mset (granted st) = mset (released st) + sum_list (map (\<lambda>d. mset (held d)) (dma_seg st))
    \<and> (\<forall>d\<in>set (dma_seg st). dma_range d \<subseteq> memory d)
    \<and> (\<forall>i<length (dma_seg st). \<forall>j<i. dma_range (dma_seg st ! i) \<inter> dma_range (dma_seg st ! j) = {})"
proof -
  have inv: "dma_inv st" by (rule dma.reachable_inv [OF assms])
  then show ?thesis
    using held_memory by (auto simp: dma_inv_def all_held_def segment_ok_def list_all_iff)
qed

text \<open>C30. On a pool of different blocks the search for the largest segment leaves the addresses alone; if it
  finds a segment larger than the one known before, the blocks with tag 2 are exactly the adjacent blocks
  from its begin to its end; and unless the requested size was reached, no chain of adjacent blocks in
  the pool is longer than the size found.\<close>

theorem find_largest_exact:
  assumes "pool_ok (unat (blk_size d)) (blk_ptr d)"
  shows "map blk_addr (blk_ptr (find_largest_segment d)) = map blk_addr (blk_ptr d)
    \<and> (seg_size d < seg_size (find_largest_segment d) \<longrightarrow>
         (\<exists>n. tagged 2 (blk_ptr (find_largest_segment d))
                = chain (unat (blk_size d)) (unat (seg_begin (find_largest_segment d))) n
            \<and> unat (seg_size (find_largest_segment d)) = n * unat (blk_size d)))
    \<and> (seg_size (find_largest_segment d) < req_size d \<longrightarrow>
         (\<forall>x m. chain (unat (blk_size d)) x m \<subseteq> blocks_at (blk_ptr d) \<longrightarrow>
            m * unat (blk_size d) \<le> unat (seg_size (find_largest_segment d))))"
proof -
  note found = find_largest_result [OF assms refl]
  have same: "blk_size (find_largest_segment d) = blk_size d" "req_size (find_largest_segment d) = req_size d"
    using found(1) by (simp_all add: same_request_def)
  have "\<exists>n. tagged 2 (blk_ptr (find_largest_segment d))
        = chain (unat (blk_size d)) (unat (seg_begin (find_largest_segment d))) n
      \<and> unat (seg_size (find_largest_segment d)) = n * unat (blk_size d)"
    if "seg_size d < seg_size (find_largest_segment d)"
    using that found(3) spans_size unfolding largest_so_far_def same by auto
  then show ?thesis using found(2,4) same by simp
qed

text \<open>A further search that finds no longer chain discards every block, also those of the segment that
  the descriptor still names: its size is not reset between the searches. (The comment promises the
  largest segment found so far.)\<close>

theorem repeated_search_discards:
  assumes "pool_ok (unat (blk_size d)) (blk_ptr d)" and "seg_size d < req_size d"
    and "\<forall>x m. chain (unat (blk_size d)) x m \<subseteq> blocks_at (blk_ptr d) \<longrightarrow>
      m * unat (blk_size d) \<le> unat (seg_size d)"
  shows "tagged 2 (blk_ptr (find_largest_segment d)) = {}
    \<and> seg_begin (find_largest_segment d) = seg_begin d \<and> seg_size (find_largest_segment d) = seg_size d"
proof -
  define e where "e = find_largest_segment d"
  note found = find_largest_result [OF assms(1) e_def]
  have b: "blk_size e = blk_size d" using found(1) by (simp add: same_request_def)
  have at: "blocks_at bs = unat ` set (map blk_addr bs)" for bs
    by (simp add: blocks_at_def blk_at_def image_image)
  then have all: "blocks_at (blk_ptr e) = blocks_at (blk_ptr d)" using found(2) by metis
  have "\<not> seg_size d < seg_size e"
  proof
    assume larger: "seg_size d < seg_size e"
    then obtain n where n: "spans (unat (blk_size d)) (seg_begin e) (seg_end e) n"
      "tagged 2 (blk_ptr e) = chain (unat (blk_size d)) (unat (seg_begin e)) n"
      "seg_size e = seg_end e - seg_begin e"
      using found(3) unfolding largest_so_far_def b by auto
    then have "chain (unat (blk_size d)) (unat (seg_begin e)) n \<subseteq> blocks_at (blk_ptr d)"
      using tagged_subset [of 2 "blk_ptr e"] all by simp
    then have "n * unat (blk_size d) \<le> unat (seg_size d)" using assms(3) by blast
    then show False using larger spans_size [OF n(1)] n(3) by (simp add: word_less_nat_alt)
  qed
  then show ?thesis using found(3) unfolding largest_so_far_def e_def by auto
qed

text \<open>Without a bound on the memory the array can be too small: with 2^29 pages (2 TB) and a request of
  one page the size of the array in bytes wraps to 0, and the first block is written behind it.\<close>

theorem block_array_overflows:
  "page \<noteq> 0 \<Longrightarrow> pgalloc \<lparr>totalram = 2 ^ 29, kmalloc_max_size = 2 ^ 22, have_descriptor = True,
     have_array = True, free_pages = [page]\<rparr> 4096 st = Inl OutOfBounds"
proof -
  assume page: "page \<noteq> 0"
  have b: "request_block 4096 = 4096" by code_simp
  have o: "find_order 4096 0 = Inr 0" by (simp add: find_order.simps PAGE_SIZE_def)
  have "uint (push_bit PAGE_SHIFT (2 ^ 29 :: u64) div 4096) = 2 ^ 29" by code_simp
  then show ?thesis
    using page b o
    by (simp add: pgalloc_def dma_segment_alloc_def DMA_BLOCK_SIZE_def request_block_def Let_def
        wrap32_def alloc_dma_blocks_def blk_cnt_def)
qed

section \<open>Witnesses\<close>

definition example_host :: dma_host where
  "example_host = \<lparr>totalram = 8, kmalloc_max_size = 4194304, have_descriptor = True,
     have_array = True, free_pages = [1048576]\<rparr>"

definition example_state :: dma_state where
  "example_state = \<lparr>granted = [], released = [], reserved = {}, dma_seg = []\<rparr>"

lemma example_call: "dma_reachable example_state" "dma_call_ok (PgAlloc example_host 4096) example_state"
proof -
  show "dma_reachable example_state"
    by (rule reachable_start) (simp add: dma_start_def example_state_def)
  have "request_block 4096 = 4096" by code_simp
  then show "dma_call_ok (PgAlloc example_host 4096) example_state"
    by (simp add: host_ok_def fresh_blocks_def example_host_def example_state_def blk_tag_def)
qed

theorem dma_calls_refine_witness:
  "\<exists>r st'. dma_exec (PgAlloc example_host 4096) example_state = Inr (r, st')
    \<and> dma_spec (PgAlloc example_host 4096) [] r (dma_view st')"
  using dma_calls_refine [OF example_call] by (auto simp: dma_view_def example_state_def)

lemma example_alloc:
  "\<exists>st'. dma_exec (PgAlloc example_host 4096) example_state = Inr (Address 1048576, st')
     \<and> map (\<lambda>d. held d) (dma_seg st') = [[1048576]]"
proof -
  have "(case dma_exec (PgAlloc example_host 4096) example_state of
      Inr (Address p, st') \<Rightarrow> p = 1048576 \<and> map (\<lambda>d. held d) (dma_seg st') = [[1048576]] | _ \<Rightarrow> False)"
    by code_simp
  then show ?thesis by (auto split: sum.splits prod.splits dma_answer.splits)
qed

theorem dma_segments_invariant_witness:
  "\<exists>st d. dma_reachable st \<and> dma_seg st = [d] \<and> held d = [1048576] \<and> dma_range d \<subseteq> memory d"
proof -
  obtain st where e: "dma_exec (PgAlloc example_host 4096) example_state = Inr (Address 1048576, st)"
    and segs: "map (\<lambda>d. held d) (dma_seg st) = [[1048576]]" using example_alloc by (elim exE conjE)
  have r: "dma_reachable st" by (rule reachable_call [OF example_call e])
  obtain d where "dma_seg st = [d]" "held d = [1048576]" using segs by auto
  then show ?thesis using dma_segments_invariant [OF r] r by auto
qed

definition example_pool :: dma_segment where
  "example_pool = \<lparr>req_size = 12288, blk_size = 4096, blk_order = 0, seg_size = 0, seg_begin = 0,
     seg_end = 0, blk_ptr = [0x10000, 0x20000, 0x11000], blk_room = 8, blk_cnt_max = 8\<rparr>"

lemma example_pool_ok: "pool_ok (unat (blk_size example_pool)) (blk_ptr example_pool)"
  by (simp add: pool_ok_def example_pool_def blk_at_def blk_addr_def)

theorem find_largest_exact_witness:
  "map blk_addr (blk_ptr (find_largest_segment example_pool)) = [0x10000, 0x20000, 0x11000]
   \<and> seg_size (find_largest_segment example_pool) = 8192"
proof -
  have "map blk_addr (blk_ptr example_pool) = [0x10000, 0x20000, 0x11000]" by code_simp
  moreover have "seg_size (find_largest_segment example_pool) = 8192" by code_simp
  ultimately show ?thesis using find_largest_exact [OF example_pool_ok] by simp
qed

theorem repeated_search_discards_witness:
  "tagged 2 (blk_ptr (find_largest_segment (example_pool\<lparr>blk_ptr := [0x10000], seg_size := 4096\<rparr>))) = {}"
proof -
  let ?d = "example_pool\<lparr>blk_ptr := [0x10000], seg_size := 4096\<rparr>"
  have ok: "pool_ok (unat (blk_size ?d)) (blk_ptr ?d)"
    by (simp add: pool_ok_def example_pool_def blk_at_def blk_addr_def)
  have at: "blocks_at (blk_ptr ?d) = {0x10000}"
    by (simp add: blocks_at_def blk_at_def blk_addr_def)
  have "\<forall>x m. chain (unat (blk_size ?d)) x m \<subseteq> blocks_at (blk_ptr ?d) \<longrightarrow>
      m * unat (blk_size ?d) \<le> unat (seg_size ?d)"
  proof (intro allI impI)
    fix x m assume "chain (unat (blk_size ?d)) x m \<subseteq> blocks_at (blk_ptr ?d)"
    then have "card (chain 4096 x m) \<le> 1" unfolding at
      using card_mono [of "{0x10000}" "chain 4096 x m"] by (simp add: example_pool_def)
    then show "m * unat (blk_size ?d) \<le> unat (seg_size ?d)"
      by (simp add: card_chain example_pool_def)
  qed
  then show ?thesis using repeated_search_discards [OF ok] by (simp add: example_pool_def)
qed

theorem block_array_overflows_witness:
  "pgalloc \<lparr>totalram = 2 ^ 29, kmalloc_max_size = 2 ^ 22, have_descriptor = True,
     have_array = True, free_pages = [4096]\<rparr> 4096 example_state = Inl OutOfBounds"
  by (rule block_array_overflows) simp

end
