(* ===== verification/Mfa2Tlv.thy ===== *)
theory Mfa2Tlv
  imports Prelude
begin

text \<open>
  Reading the TLVs of a Mellanox firmware package (\<^verbatim>\<open>mlxfw_mfa2_tlv.h\<close>, \<^verbatim>\<open>mlxfw_mfa2_format.h\<close>,
  \<^verbatim>\<open>mlxfw_mfa2_file.h\<close>, \<^verbatim>\<open>mlxfw_mfa2_tlv_multi.c\<close>). A pointer into the file is its offset from
  \<^verbatim>\<open>fw->data\<close>. A run of the parser returns a value, makes a fault, or does not end (\<open>None\<close>): a loop
  with a 16-bit counter up to 65536 may go on for ever. The file is in memory with whatever lies behind
  it: \<open>fw_data\<close> are the readable bytes, of which the first \<open>fw_size\<close> are the file.
\<close>

section \<open>Runs\<close>

type_synonym 'a run = "'a checked option"

definition ret :: "'a \<Rightarrow> 'a run" where
  "ret x = Some (Inr x)"

definition crash :: "fault \<Rightarrow> 'a run" where
  "crash f = Some (Inl f)"

definition run_bind :: "'a run \<Rightarrow> ('a \<Rightarrow> 'b run) \<Rightarrow> 'b run" where
  "run_bind m f = Option.bind m (\<lambda>r. case r of Inl e \<Rightarrow> Some (Inl e) | Inr x \<Rightarrow> f x)"

lemma run_bind_simps [simp]:
  "run_bind (ret x) f = f x" "run_bind (crash e) f = crash e" "run_bind None f = None"
  "run_bind (Some (Inr x)) f = f x" "run_bind (Some (Inl e)) f = crash e"
  by (simp_all add: run_bind_def ret_def crash_def)

lemma ret_inject [simp]: "ret x = ret y \<longleftrightarrow> x = y" "ret x \<noteq> crash e" "crash e \<noteq> ret x"
  "ret x \<noteq> None" "crash e \<noteq> None" "None \<noteq> ret x" "None \<noteq> crash e" "crash e = crash e' \<longleftrightarrow> e = e'"
  by (auto simp: ret_def crash_def)

lemma run_cases [case_names None crash ret]:
  "(m = None \<Longrightarrow> P) \<Longrightarrow> (\<And>e. m = crash e \<Longrightarrow> P) \<Longrightarrow> (\<And>x. m = ret x \<Longrightarrow> P) \<Longrightarrow> P"
  for m :: "'a run"
  unfolding crash_def ret_def by (metis option.exhaust sum.exhaust)

lemma run_bind_ret: "run_bind m f = ret y \<longleftrightarrow> (\<exists>x. m = ret x \<and> f x = ret y)"
  by (cases m rule: run_cases) auto

lemma run_bind_retE:
  "run_bind m f = ret y \<Longrightarrow> (\<And>x. m = ret x \<Longrightarrow> f x = ret y \<Longrightarrow> P) \<Longrightarrow> P"
  by (auto simp: run_bind_ret)

lemma run_bind_mono [partial_function_mono]:
  assumes "mono_option B" and "\<And>y. mono_option (\<lambda>f. C y f)"
  shows "mono_option (\<lambda>f. run_bind (B f) (\<lambda>y. C y f))"
proof -
  have "mono_option (\<lambda>f. case r of Inl e \<Rightarrow> Some (Inl e) | Inr x \<Rightarrow> C x f)" for r
    using assms(2) by (cases r) (simp_all add: option.const_mono)
  then show ?thesis unfolding run_bind_def by (intro bind_mono assms(1))
qed

section \<open>The file in memory\<close>

record mfa2_fw =
  fw_data :: "u8 list"
  fw_size :: nat

definition valid_ptr :: "mfa2_fw \<Rightarrow> int \<Rightarrow> bool" where
  "valid_ptr fw p \<longleftrightarrow> 0 < p \<and> p < int (fw_size fw)"

definition rd8 :: "mfa2_fw \<Rightarrow> int \<Rightarrow> nat run" where
  "rd8 fw p = (if 0 \<le> p \<and> p < int (length (fw_data fw)) then ret (unat (fw_data fw ! nat p))
     else crash OutOfBounds)"

text \<open>Big-endian numbers.\<close>

definition be16 :: "mfa2_fw \<Rightarrow> int \<Rightarrow> nat run" where
  "be16 fw p = run_bind (rd8 fw p) (\<lambda>h. run_bind (rd8 fw (p + 1)) (\<lambda>l. ret (h * 256 + l)))"

definition be32 :: "mfa2_fw \<Rightarrow> int \<Rightarrow> nat run" where
  "be32 fw p = run_bind (be16 fw p) (\<lambda>h. run_bind (be16 fw (p + 2)) (\<lambda>l. ret (h * 65536 + l)))"

text \<open>\<^verbatim>\<open>NLA_ALIGN\<close> on numbers that do not wrap.\<close>

definition NLA_ALIGN :: "nat \<Rightarrow> nat" where
  "NLA_ALIGN n = (n + 3) div 4 * 4"

section \<open>TLVs\<close>

text \<open>A TLV at \<open>p\<close>: version at \<open>p\<close>, type at \<open>p + 1\<close>, length of the payload at \<open>p + 2\<close>, payload at
  \<open>p + 4\<close>. The types are the numbers of the format.\<close>

definition MULTI_PART :: nat where "MULTI_PART = 0x01"
definition PACKAGE_DESCRIPTOR :: nat where "PACKAGE_DESCRIPTOR = 0x02"
definition COMPONENT_DESCRIPTOR :: nat where "COMPONENT_DESCRIPTOR = 0x04"
definition COMPONENT_PTR :: nat where "COMPONENT_PTR = 0x22"
definition PSID :: nat where "PSID = 0x2A"

definition tlv_type :: "mfa2_fw \<Rightarrow> int \<Rightarrow> nat run" where
  "tlv_type fw p = rd8 fw (p + 1)"

definition tlv_len :: "mfa2_fw \<Rightarrow> int \<Rightarrow> nat run" where
  "tlv_len fw p = be16 fw (p + 2)"

definition tlv_get :: "mfa2_fw \<Rightarrow> int \<Rightarrow> int option" where
  "tlv_get fw p = (if \<not> valid_ptr fw p \<or> \<not> valid_ptr fw (p + 4) then None else Some p)"

definition payload_get :: "mfa2_fw \<Rightarrow> int \<Rightarrow> nat \<Rightarrow> nat \<Rightarrow> bool \<Rightarrow> int option run" where
  "payload_get fw tlv payload_type payload_size varsize =
     run_bind (tlv_len fw tlv) (\<lambda>len.
       let tlv_top = tlv + int len - 1 in
       if \<not> valid_ptr fw tlv \<or> \<not> valid_ptr fw tlv_top then ret None
       else run_bind (tlv_type fw tlv) (\<lambda>type.
         if type \<noteq> payload_type then ret None
         else if varsize \<and> len < payload_size then ret None
         else if \<not> varsize \<and> len \<noteq> payload_size then ret None
         else ret (Some (tlv + 4))))"

text \<open>The getters that the macros generate, with the sizes of the packed structures.\<close>

definition multi_get :: "mfa2_fw \<Rightarrow> int \<Rightarrow> int option run" where
  "multi_get fw tlv = payload_get fw tlv MULTI_PART 4 False"

definition package_descriptor_get :: "mfa2_fw \<Rightarrow> int \<Rightarrow> int option run" where
  "package_descriptor_get fw tlv = payload_get fw tlv PACKAGE_DESCRIPTOR 28 False"

definition psid_get :: "mfa2_fw \<Rightarrow> int \<Rightarrow> int option run" where
  "psid_get fw tlv = payload_get fw tlv PSID 0 True"

definition component_ptr_get :: "mfa2_fw \<Rightarrow> int \<Rightarrow> int option run" where
  "component_ptr_get fw tlv = payload_get fw tlv COMPONENT_PTR 8 False"

definition component_descriptor_get :: "mfa2_fw \<Rightarrow> int \<Rightarrow> int option run" where
  "component_descriptor_get fw tlv = payload_get fw tlv COMPONENT_DESCRIPTOR 16 False"

section \<open>Multi-part TLVs\<close>

text \<open>\<open>multi\<close> points to the payload: the number of extensions and the total length.\<close>

definition num_extensions :: "mfa2_fw \<Rightarrow> int \<Rightarrow> nat run" where
  "num_extensions fw multi = be16 fw multi"

definition total_len :: "mfa2_fw \<Rightarrow> int \<Rightarrow> nat run" where
  "total_len fw multi = be16 fw (multi + 2)"

definition multi_child :: "mfa2_fw \<Rightarrow> int \<Rightarrow> int option" where
  "multi_child fw multi = tlv_get fw (multi + int (NLA_ALIGN 4))"

text \<open>The 16-bit length wraps; the result of \<^verbatim>\<open>mlxfw_mfa2_tlv_multi_get\<close> is not tested.\<close>

definition tlv_next :: "mfa2_fw \<Rightarrow> int option \<Rightarrow> int option run" where
  "tlv_next fw tlv = (case tlv of
     None \<Rightarrow> crash NullDeref
   | Some tlv \<Rightarrow>
       run_bind (tlv_len fw tlv) (\<lambda>len.
         let n = NLA_ALIGN (4 + len) mod 65536 in
         run_bind (tlv_type fw tlv) (\<lambda>type.
           if type = MULTI_PART
           then run_bind (multi_get fw tlv) (\<lambda>multi.
                  case multi of
                    None \<Rightarrow> crash NullDeref
                  | Some multi \<Rightarrow> run_bind (total_len fw multi) (\<lambda>total.
                      ret (tlv_get fw (tlv + int (NLA_ALIGN (n + total) mod 65536)))))
           else ret (tlv_get fw (tlv + int n)))))"

text \<open>The macro \<^verbatim>\<open>mlxfw_mfa2_tlv_foreach\<close>: the counter wraps at \<open>wrap\<close> (2^16 or 2^32). The body gets
  the current TLV and the state of the loop and returns from the function (\<open>Inl\<close>) or goes on (\<open>Inr\<close>).
  At the end the current TLV is returned with the state.\<close>

partial_function (option) tlv_foreach ::
  "mfa2_fw \<Rightarrow> nat \<Rightarrow> nat \<Rightarrow> (int option \<Rightarrow> 's \<Rightarrow> ('r + 's) run) \<Rightarrow> nat \<Rightarrow> int option \<Rightarrow> 's
     \<Rightarrow> ('r + (int option \<times> 's)) run" where
  "tlv_foreach fw wrap count body idx tlv s =
     (if idx < count
      then run_bind (body tlv s) (\<lambda>b. case b of
             Inl r \<Rightarrow> ret (Inl r)
           | Inr s \<Rightarrow> run_bind (tlv_next fw tlv) (\<lambda>tlv.
               tlv_foreach fw wrap count body ((idx + 1) mod wrap) tlv s))
      else ret (Inr (tlv, s)))"

definition tlv_advance :: "mfa2_fw \<Rightarrow> int option \<Rightarrow> nat \<Rightarrow> int option run" where
  "tlv_advance fw from_tlv count =
     run_bind (tlv_foreach fw 65536 count
         (\<lambda>tlv s. ret (if tlv = None then Inl None else Inr s)) 0 from_tlv ())
       (\<lambda>b. case b of Inl r \<Rightarrow> ret r | Inr (tlv, s) \<Rightarrow> ret tlv)"

text \<open>A loop over the children of a multi-part TLV.\<close>

definition multi_foreach ::
  "mfa2_fw \<Rightarrow> int \<Rightarrow> (int option \<Rightarrow> 's \<Rightarrow> ('r + 's) run) \<Rightarrow> 's \<Rightarrow> ('r + (int option \<times> 's)) run" where
  "multi_foreach fw multi body s =
     run_bind (num_extensions fw multi) (\<lambda>n.
       tlv_foreach fw 65536 (n + 1) body 0 (multi_child fw multi) s)"

definition find_body :: "mfa2_fw \<Rightarrow> nat \<Rightarrow> nat \<Rightarrow> int option \<Rightarrow> nat \<Rightarrow> (int option + nat) run" where
  "find_body fw type index tlv skip = (case tlv of
     None \<Rightarrow> ret (Inl None)
   | Some p \<Rightarrow> run_bind (tlv_type fw p) (\<lambda>t.
       if t = type then
         (if skip = index then ret (Inl (Some p)) else ret (Inr ((skip + 1) mod 65536)))
       else ret (Inr skip)))"

definition multi_child_find :: "mfa2_fw \<Rightarrow> int \<Rightarrow> nat \<Rightarrow> nat \<Rightarrow> int option run" where
  "multi_child_find fw multi type index =
     run_bind (multi_foreach fw multi (find_body fw type index) 0)
       (\<lambda>b. case b of Inl r \<Rightarrow> ret r | Inr s \<Rightarrow> ret None)"

definition count_body :: "mfa2_fw \<Rightarrow> nat \<Rightarrow> int option \<Rightarrow> nat \<Rightarrow> (unit + nat) run" where
  "count_body fw type tlv n = (case tlv of
     None \<Rightarrow> ret (Inl ())
   | Some p \<Rightarrow> run_bind (tlv_type fw p) (\<lambda>t. ret (Inr (if t = type then (n + 1) mod 65536 else n))))"

text \<open>\<open>Inl\<close> is the error \<^verbatim>\<open>-EINVAL\<close>.\<close>

definition EINVAL :: int where "EINVAL = 22"
definition ENOMEM :: int where "ENOMEM = 12"

definition multi_child_count :: "mfa2_fw \<Rightarrow> int \<Rightarrow> nat \<Rightarrow> (int + nat) run" where
  "multi_child_count fw multi type =
     run_bind (multi_foreach fw multi (count_body fw type) 0)
       (\<lambda>b. case b of Inl r \<Rightarrow> ret (Inl (- EINVAL)) | Inr (tlv, n) \<Rightarrow> ret (Inr n))"

end
