(* ===== verification/Mfa2File.thy ===== *)
theory Mfa2File
  imports Mfa2Tlv
begin

text \<open>
  The firmware package (\<^verbatim>\<open>mlxfw_mfa2.c\<close>): the check of the finger print, the validation of devices and
  components, the lookup of a device by its PSID and of a component by its index, and the extraction of
  a component from the compressed block. The XZ decoder of the kernel is a parameter. Text for the log is
  left out.
\<close>

section \<open>Files\<close>

record mfa2_file =
  mfa2_fw :: mfa2_fw
  first_dev :: "int option"
  dev_count :: nat
  first_component :: "int option"
  component_count :: nat
  cb :: int
  cb_archive_size :: nat

definition mfa2_fingerprint :: "u8 list" where
  "mfa2_fingerprint = map of_nat [0x4D, 0x4C, 0x4E, 0x58, 0x2E, 0x4D, 0x46, 0x41, 0x32, 0x2E, 0x58,
     0x5A, 0x2E, 0x30, 0x30, 0x21]"

definition mfa2_comp_magic :: "u8 list" where
  "mfa2_comp_magic = map of_nat [0x23, 0x42, 0x49, 0x4E, 0x2E, 0x43, 0x4F, 0x4D, 0x50, 0x4F, 0x4E,
     0x45, 0x4E, 0x54, 0x21, 0x23]"

text \<open>\<^verbatim>\<open>memcmp\<close> of bytes of the file; it may read all of them.\<close>

definition fw_bytes_equal :: "mfa2_fw \<Rightarrow> int \<Rightarrow> u8 list \<Rightarrow> bool run" where
  "fw_bytes_equal fw p bs =
     (if bs = [] then ret True
      else if 0 \<le> p \<and> p + int (length bs) \<le> int (length (fw_data fw))
      then ret (take (length bs) (drop (nat p) (fw_data fw)) = bs)
      else crash OutOfBounds)"

text \<open>The array of the finger print has 17 bytes, with its NUL.\<close>

definition mfa2_check :: "mfa2_fw \<Rightarrow> bool run" where
  "mfa2_check fw =
     (if fw_size fw < length mfa2_fingerprint + 1 then ret False
      else fw_bytes_equal fw 0 mfa2_fingerprint)"

section \<open>Validation\<close>

definition validate_body :: "int option \<Rightarrow> unit \<Rightarrow> (unit + unit) run" where
  "validate_body tlv s = ret (if tlv = None then Inl () else Inr ())"

definition multi_validate :: "mfa2_fw \<Rightarrow> int \<Rightarrow> bool run" where
  "multi_validate fw multi =
     run_bind (multi_foreach fw multi validate_body ())
       (\<lambda>b. case b of Inl r \<Rightarrow> ret False | Inr s \<Rightarrow> ret True)"

text \<open>The loop over the component pointers of a device: \<open>n\<close> are left, \<open>idx\<close> is the next.\<close>

fun cptr_loop :: "mfa2_fw \<Rightarrow> int \<Rightarrow> nat \<Rightarrow> nat \<Rightarrow> bool run" where
  "cptr_loop fw multi 0 idx = ret True"
| "cptr_loop fw multi (Suc n) idx =
     run_bind (multi_child_find fw multi COMPONENT_PTR idx) (\<lambda>tlv.
       case tlv of
         None \<Rightarrow> ret False
       | Some tlv \<Rightarrow> run_bind (component_ptr_get fw tlv) (\<lambda>cptr.
           case cptr of
             None \<Rightarrow> ret False
           | Some cptr \<Rightarrow> cptr_loop fw multi n (idx + 1)))"

definition dev_validate :: "mfa2_fw \<Rightarrow> int \<Rightarrow> bool run" where
  "dev_validate fw dev_tlv =
     run_bind (multi_get fw dev_tlv) (\<lambda>multi.
       case multi of
         None \<Rightarrow> ret False
       | Some multi \<Rightarrow>
           run_bind (multi_validate fw multi) (\<lambda>ok.
             if \<not> ok then ret False
             else run_bind (multi_child_find fw multi PSID 0) (\<lambda>tlv.
               case tlv of
                 None \<Rightarrow> ret False
               | Some tlv \<Rightarrow> run_bind (psid_get fw tlv) (\<lambda>psid.
                   case psid of
                     None \<Rightarrow> ret False
                   | Some psid \<Rightarrow>
                       run_bind (multi_child_count fw multi COMPONENT_PTR) (\<lambda>c.
                         case c of
                           Inl err \<Rightarrow> ret False
                         | Inr cptr_count \<Rightarrow>
                             if cptr_count = 0 then ret False
                             else cptr_loop fw multi cptr_count 0)))))"

definition comp_validate :: "mfa2_fw \<Rightarrow> int \<Rightarrow> bool run" where
  "comp_validate fw comp_tlv =
     run_bind (multi_get fw comp_tlv) (\<lambda>multi.
       case multi of
         None \<Rightarrow> ret False
       | Some multi \<Rightarrow>
           run_bind (multi_validate fw multi) (\<lambda>ok.
             if \<not> ok then ret False
             else case multi_child fw multi of
               None \<Rightarrow> ret False
             | Some tlv \<Rightarrow> run_bind (component_descriptor_get fw tlv) (\<lambda>cdesc. ret (cdesc \<noteq> None))))"

definition each_body :: "(mfa2_fw \<Rightarrow> int \<Rightarrow> bool run) \<Rightarrow> mfa2_fw \<Rightarrow> int option \<Rightarrow> unit \<Rightarrow> (unit + unit) run" where
  "each_body check fw tlv s = (case tlv of
     None \<Rightarrow> ret (Inl ())
   | Some p \<Rightarrow> run_bind (check fw p) (\<lambda>ok. ret (if ok then Inr () else Inl ())))"

definition file_validate :: "mfa2_file \<Rightarrow> bool run" where
  "file_validate file =
     run_bind (tlv_foreach (mfa2_fw file) 65536 (dev_count file) (each_body dev_validate (mfa2_fw file))
         0 (first_dev file) ())
       (\<lambda>b. case b of
          Inl r \<Rightarrow> ret False
        | Inr s \<Rightarrow>
            run_bind (tlv_foreach (mfa2_fw file) 65536 (component_count file)
                (each_body comp_validate (mfa2_fw file)) 0 (first_component file) ())
              (\<lambda>b. case b of Inl r \<Rightarrow> ret False | Inr s \<Rightarrow> ret True))"

text \<open>\<^verbatim>\<open>NLA_ALIGN\<close> of a 32-bit number wraps.\<close>

definition NLA_ALIGN32 :: "nat \<Rightarrow> nat" where
  "NLA_ALIGN32 n = (n + 3) mod 2 ^ 32 div 4 * 4"

text \<open>\<open>alloc_ok\<close> is the outcome of \<^verbatim>\<open>kcalloc\<close>; \<open>Inl\<close> is an error pointer.\<close>

definition file_init :: "bool \<Rightarrow> mfa2_fw \<Rightarrow> (int + mfa2_file) run" where
  "file_init alloc_ok fw =
     (if \<not> alloc_ok then ret (Inl (- ENOMEM))
      else case tlv_get fw (int (NLA_ALIGN (length mfa2_fingerprint))) of
        None \<Rightarrow> ret (Inl (- EINVAL))
      | Some first_tlv \<Rightarrow>
          run_bind (multi_get fw first_tlv) (\<lambda>multi.
            case multi of
              None \<Rightarrow> ret (Inl (- EINVAL))
            | Some multi \<Rightarrow>
                case multi_child fw multi of
                  None \<Rightarrow> ret (Inl (- EINVAL))
                | Some child \<Rightarrow>
                    run_bind (package_descriptor_get fw child) (\<lambda>pd.
                      case pd of
                        None \<Rightarrow> ret (Inl (- EINVAL))
                      | Some pd \<Rightarrow>
                          run_bind (tlv_next fw (Some first_tlv)) (\<lambda>dev.
                            if dev = None then ret (Inl (- EINVAL))
                            else
                              run_bind (be16 fw (pd + 2)) (\<lambda>devices.
                              run_bind (tlv_advance fw dev devices) (\<lambda>first_comp.
                              run_bind (be16 fw pd) (\<lambda>components.
                              run_bind (be32 fw (pd + 4)) (\<lambda>offset.
                                let cb_ptr = int (NLA_ALIGN32 offset) in
                                if \<not> valid_ptr fw cb_ptr then ret (Inl (- EINVAL))
                                else
                                  run_bind (be32 fw (pd + 8)) (\<lambda>archive_size.
                                    if \<not> valid_ptr fw (cb_ptr + int archive_size - 1)
                                    then ret (Inl (- EINVAL))
                                    else
                                      let file = \<lparr>mfa2_fw = fw, first_dev = dev, dev_count = devices,
                                        first_component = first_comp, component_count = components,
                                        cb = cb_ptr, cb_archive_size = archive_size\<rparr> in
                                      run_bind (file_validate file) (\<lambda>ok.
                                        ret (if ok then Inr file else Inl (- EINVAL))))))))))))"

section \<open>Lookups\<close>

definition dev_body :: "mfa2_fw \<Rightarrow> u8 list \<Rightarrow> nat \<Rightarrow> int option \<Rightarrow> unit \<Rightarrow> (int option + unit) run" where
  "dev_body fw psid psid_size dev_tlv s = (case dev_tlv of
     None \<Rightarrow> ret (Inl None)
   | Some dev_tlv \<Rightarrow>
       run_bind (multi_get fw dev_tlv) (\<lambda>multi.
         case multi of
           None \<Rightarrow> ret (Inl None)
         | Some dev_multi \<Rightarrow>
             run_bind (multi_child_find fw dev_multi PSID 0) (\<lambda>tlv.
               case tlv of
                 None \<Rightarrow> ret (Inl None)
               | Some tlv \<Rightarrow>
                   run_bind (tlv_len fw tlv) (\<lambda>len.
                     if len \<noteq> psid_size then ret (Inr ())
                     else run_bind (psid_get fw tlv) (\<lambda>p.
                       case p of
                         None \<Rightarrow> ret (Inl None)
                       | Some p \<Rightarrow> run_bind (fw_bytes_equal fw p (take psid_size psid)) (\<lambda>eq.
                           ret (if eq then Inl (Some dev_multi) else Inr ())))))))"

text \<open>The counter of this loop has 32 bits; the PSID has at least \<open>psid_size\<close> bytes.\<close>

definition dev_get :: "mfa2_file \<Rightarrow> u8 list \<Rightarrow> nat \<Rightarrow> int option run" where
  "dev_get file psid psid_size =
     run_bind (tlv_foreach (mfa2_fw file) (2 ^ 32) (dev_count file)
         (dev_body (mfa2_fw file) psid psid_size) 0 (first_dev file) ())
       (\<lambda>b. case b of Inl r \<Rightarrow> ret r | Inr s \<Rightarrow> ret None)"

definition file_component_count :: "mfa2_file \<Rightarrow> u8 list \<Rightarrow> nat \<Rightarrow> (int + nat) run" where
  "file_component_count file psid psid_size =
     run_bind (dev_get file psid (psid_size mod 65536)) (\<lambda>dev.
       case dev of
         None \<Rightarrow> ret (Inl (- EINVAL))
       | Some dev_multi \<Rightarrow> multi_child_count (mfa2_fw file) dev_multi COMPONENT_PTR)"

definition component_tlv_get :: "mfa2_file \<Rightarrow> nat \<Rightarrow> int option run" where
  "component_tlv_get file comp_index =
     (if comp_index > component_count file then ret None
      else run_bind (tlv_advance (mfa2_fw file) (first_component file) comp_index) (\<lambda>tlv.
        case tlv of
          None \<Rightarrow> ret None
        | Some comp_tlv \<Rightarrow> run_bind (multi_get (mfa2_fw file) comp_tlv) (\<lambda>multi.
            case multi of
              None \<Rightarrow> ret None
            | Some multi \<Rightarrow>
                case multi_child (mfa2_fw file) multi of
                  None \<Rightarrow> ret None
                | Some child \<Rightarrow> component_descriptor_get (mfa2_fw file) child)))"

definition component_find :: "mfa2_file \<Rightarrow> u8 list \<Rightarrow> nat \<Rightarrow> nat \<Rightarrow> int option run" where
  "component_find file psid psid_size index =
     run_bind (dev_get file psid (psid_size mod 65536)) (\<lambda>dev.
       case dev of
         None \<Rightarrow> ret None
       | Some dev_multi \<Rightarrow>
           run_bind (multi_child_find (mfa2_fw file) dev_multi COMPONENT_PTR (index mod 65536)) (\<lambda>tlv.
             case tlv of
               None \<Rightarrow> ret None
             | Some tlv \<Rightarrow> run_bind (component_ptr_get (mfa2_fw file) tlv) (\<lambda>cptr.
                 case cptr of
                   None \<Rightarrow> ret None
                 | Some cptr \<Rightarrow> run_bind (be16 (mfa2_fw file) (cptr + 2)) (\<lambda>i. component_tlv_get file i))))"

end
