(* ===== verification/Mfa2Component.thy ===== *)
theory Mfa2Component
  imports Mfa2File
begin

text \<open>
  Extraction of a component from the compressed block of a firmware package (\<^verbatim>\<open>mlxfw_mfa2.c\<close>). The XZ
  decoder of the kernel is a parameter: \<open>xz_init\<close> makes a decoder of the archive, \<open>xz_run\<close> decodes at most
  the given number of bytes. The buffer is a list of bytes that may be uninitialised (\<open>None\<close>).
\<close>

section \<open>The decoder\<close>

datatype xz_ret = XZ_OK | XZ_STREAM_END | XZ_UNSUPPORTED_CHECK | XZ_MEM_ERROR | XZ_MEMLIMIT_ERROR
  | XZ_FORMAT_ERROR | XZ_OPTIONS_ERROR | XZ_DATA_ERROR | XZ_BUF_ERROR

record 'x xz_lib =
  xz_init :: "u8 list \<Rightarrow> 'x option"
  xz_run :: "'x \<Rightarrow> nat \<Rightarrow> xz_ret \<times> u8 list \<times> 'x"

text \<open>\<^verbatim>\<open>mlxfw_mfa2_xz_dec_run\<close>: an error, or whether the stream is finished.\<close>

definition xz_status :: "xz_ret \<Rightarrow> int + bool" where
  "xz_status r = (case r of
     XZ_STREAM_END \<Rightarrow> Inr True
   | XZ_OK \<Rightarrow> Inr False
   | XZ_MEM_ERROR \<Rightarrow> Inl (- ENOMEM)
   | XZ_DATA_ERROR \<Rightarrow> Inl (- EINVAL)
   | XZ_FORMAT_ERROR \<Rightarrow> Inl (- EINVAL)
   | XZ_OPTIONS_ERROR \<Rightarrow> Inl (- EINVAL)
   | XZ_MEMLIMIT_ERROR \<Rightarrow> Inl (- EINVAL)
   | _ \<Rightarrow> Inl (- EINVAL))"

definition mfa2_xz_dec_run :: "'x xz_lib \<Rightarrow> 'x \<Rightarrow> nat \<Rightarrow> (int + bool) \<times> u8 list \<times> 'x" where
  "mfa2_xz_dec_run xz x out_size =
     (let (r, bytes, x') = xz_run xz x out_size in (xz_status r, bytes, x'))"

section \<open>Decoding a part of the block\<close>

type_synonym buffer = "u8 option list"

definition write_prefix :: "u8 list \<Rightarrow> buffer \<Rightarrow> buffer" where
  "write_prefix bytes buf = map Some bytes @ drop (length bytes) buf"

text \<open>The do-while loop up to the offset: \<open>Inl\<close> is an error. The difference of the offsets is converted
  to \<^verbatim>\<open>size_t\<close>.\<close>

partial_function (option) skip_loop ::
  "'x xz_lib \<Rightarrow> int \<Rightarrow> nat \<Rightarrow> int \<Rightarrow> 'x \<Rightarrow> buffer \<Rightarrow> (int + ('x \<times> buffer)) run" where
  "skip_loop xz off sz curr_off dec buf =
     (let out_size = min sz (nat ((off - curr_off) mod 2 ^ 64)) in
      if out_size = 0 then ret (Inr (dec, buf))
      else
        let (status, bytes, dec') = mfa2_xz_dec_run xz dec out_size in
        case status of
          Inl err \<Rightarrow> ret (Inl err)
        | Inr finished \<Rightarrow>
            if finished then ret (Inl (- EINVAL))
            else
              let curr_off = curr_off + int (length bytes); buf = write_prefix bytes buf in
              if curr_off = off then ret (Inr (dec', buf))
              else skip_loop xz off sz curr_off dec' buf)"

definition archive :: "mfa2_file \<Rightarrow> u8 list" where
  "archive file = take (cb_archive_size file) (drop (nat (cb file)) (fw_data (mfa2_fw file)))"

definition cb_offset_xz :: "'x xz_lib \<Rightarrow> mfa2_file \<Rightarrow> int \<Rightarrow> nat \<Rightarrow> buffer \<Rightarrow> (int + buffer) run" where
  "cb_offset_xz xz file off sz buf =
     (case xz_init xz (archive file) of
        None \<Rightarrow> ret (Inl (- EINVAL))
      | Some x \<Rightarrow>
          run_bind (skip_loop xz off sz 0 x buf) (\<lambda>b.
            case b of
              Inl err \<Rightarrow> ret (Inl err)
            | Inr (x, buf) \<Rightarrow>
                let (status, bytes, x') = mfa2_xz_dec_run xz x sz in
                case status of
                  Inl err \<Rightarrow> ret (Inl err)
                | Inr finished \<Rightarrow> ret (Inr (write_prefix bytes buf))))"

section \<open>Components\<close>

record mfa2_component =
  comp_index :: nat
  comp_data_size :: nat
  comp_data :: buffer

text \<open>\<^verbatim>\<open>memcmp\<close> with the start of a buffer.\<close>

definition buffer_starts :: "buffer \<Rightarrow> u8 list \<Rightarrow> bool run" where
  "buffer_starts buf bs =
     (if length buf < length bs then crash OutOfBounds
      else if None \<in> set (take (length bs) buf) then crash Uninitialised
      else ret (take (length bs) buf = map Some bs))"

definition to_off_t :: "nat \<Rightarrow> int" where
  "to_off_t n = (int n + 2 ^ 63) mod 2 ^ 64 - 2 ^ 63"

definition component_get ::
  "'x xz_lib \<Rightarrow> bool \<Rightarrow> mfa2_file \<Rightarrow> u8 list \<Rightarrow> nat \<Rightarrow> nat \<Rightarrow> (int + mfa2_component) run" where
  "component_get xz alloc_ok file psid psid_size index =
     run_bind (component_find file psid psid_size index) (\<lambda>desc.
       case desc of
         None \<Rightarrow> ret (Inl (- EINVAL))
       | Some desc \<Rightarrow>
           run_bind (be32 (mfa2_fw file) (desc + 4)) (\<lambda>off_h.
           run_bind (be32 (mfa2_fw file) (desc + 8)) (\<lambda>off_l.
           run_bind (be32 (mfa2_fw file) (desc + 12)) (\<lambda>comp_size.
             let offset = to_off_t (off_h * 2 ^ 32 + off_l);
                 buf_size = (comp_size + length mfa2_comp_magic) mod 2 ^ 32 in
             if \<not> alloc_ok then ret (Inl (- ENOMEM))
             else run_bind (be16 (mfa2_fw file) (desc + 2)) (\<lambda>index.
               run_bind (cb_offset_xz xz file offset buf_size (replicate buf_size None)) (\<lambda>b.
                 case b of
                   Inl err \<Rightarrow> ret (Inl err)
                 | Inr buf \<Rightarrow>
                     run_bind (buffer_starts buf mfa2_comp_magic) (\<lambda>ok.
                       ret (if ok
                            then Inr \<lparr>comp_index = index, comp_data_size = comp_size,
                                      comp_data = drop (length mfa2_comp_magic) buf\<rparr>
                            else Inl (- EINVAL)))))))))"

end
