(* ===== verification/MlxfwFsm.thy ===== *)
theory MlxfwFsm
  imports Mfa2Component
begin

text \<open>
  Flashing the firmware of a Mellanox device (\<^verbatim>\<open>mlxfw_fsm.c\<close>): the state machine of the device is driven
  through its operations, which the driver of the device provides (\<^verbatim>\<open>mlxfw.h\<close>) and which are a parameter.
  \<open>calls\<close> is the log of the operations called, the query of the state left out.
\<close>

section \<open>The device\<close>

datatype fsm_state = FSM_IDLE | FSM_LOCKED | FSM_INITIALIZE | FSM_DOWNLOAD | FSM_VERIFY | FSM_APPLY
  | FSM_ACTIVATE

datatype fsm_state_err = ERR_OK | ERR_ERROR | ERR_REJECTED_DIGEST_ERR | ERR_REJECTED_NOT_APPLICABLE
  | ERR_REJECTED_UNKNOWN_KEY | ERR_REJECTED_AUTH_FAILED | ERR_REJECTED_UNSIGNED
  | ERR_REJECTED_KEY_NOT_APPLICABLE | ERR_REJECTED_BAD_FORMAT | ERR_BLOCKED_PENDING_RESET | ERR_MAX

text \<open>An operation returns 0 or an error. Sizes, indices and the handle are numbers of their width.\<close>

record 'd mlxfw_dev_ops =
  component_query :: "'d \<Rightarrow> nat \<Rightarrow> (int \<times> nat \<times> nat \<times> nat) \<times> 'd"
  fsm_lock :: "'d \<Rightarrow> (int \<times> nat) \<times> 'd"
  fsm_component_update :: "'d \<Rightarrow> nat \<Rightarrow> nat \<Rightarrow> nat \<Rightarrow> int \<times> 'd"
  fsm_block_download :: "'d \<Rightarrow> nat \<Rightarrow> u8 list \<Rightarrow> nat \<Rightarrow> int \<times> 'd"
  fsm_component_verify :: "'d \<Rightarrow> nat \<Rightarrow> nat \<Rightarrow> int \<times> 'd"
  fsm_activate :: "'d \<Rightarrow> nat \<Rightarrow> int \<times> 'd"
  fsm_query_state :: "'d \<Rightarrow> nat \<Rightarrow> (int \<times> fsm_state \<times> fsm_state_err) \<times> 'd"
  fsm_cancel :: "'d \<Rightarrow> nat \<Rightarrow> 'd"
  fsm_release :: "'d \<Rightarrow> nat \<Rightarrow> 'd"

record 'd mlxfw_dev =
  ops :: "'d mlxfw_dev_ops"
  psid :: "u8 list"
  psid_size :: nat

datatype fsm_call = Lock int | Update nat nat int | Download nat "u8 list" int | Verify nat int
  | Activate int | Cancel | Release

record 'd flash =
  dev_state :: 'd
  calls :: "fsm_call list"

definition log_call :: "fsm_call \<Rightarrow> 'd \<Rightarrow> 'd flash \<Rightarrow> 'd flash" where
  "log_call c d st = st\<lparr>dev_state := d, calls := calls st @ [c]\<rparr>"

section \<open>Waiting for a state\<close>

definition WAIT_ROUNDS :: nat where
  "WAIT_ROUNDS = 30000 div 200"

definition ETIMEDOUT :: int where "ETIMEDOUT = 110"

text \<open>\<open>rounds\<close> rounds are left.\<close>

fun state_wait_loop ::
  "'d mlxfw_dev_ops \<Rightarrow> nat \<Rightarrow> fsm_state \<Rightarrow> nat \<Rightarrow> 'd flash \<Rightarrow> int \<times> 'd flash" where
  "state_wait_loop dops fwhandle target 0 st = (- ETIMEDOUT, st)"
| "state_wait_loop dops fwhandle target (Suc rounds) st =
     (let ((err, curr, state_err), d) = fsm_query_state dops (dev_state st) fwhandle;
          st = st\<lparr>dev_state := d\<rparr> in
      if err \<noteq> 0 then (err, st)
      else if state_err \<noteq> ERR_OK then (- EINVAL, st)
      else if curr \<noteq> target then state_wait_loop dops fwhandle target rounds st
      else (0, st))"

definition fsm_state_wait :: "'d mlxfw_dev_ops \<Rightarrow> nat \<Rightarrow> fsm_state \<Rightarrow> 'd flash \<Rightarrow> int \<times> 'd flash" where
  "fsm_state_wait dops fwhandle target st = state_wait_loop dops fwhandle target WAIT_ROUNDS st"

section \<open>One component\<close>

definition MAX_COMPONENT_SIZE :: nat where
  "MAX_COMPONENT_SIZE = 10 * 2 ^ 20"

text \<open>The alignment macros; a shift into the sign bit or beyond is undefined.\<close>

definition align_down :: "nat \<Rightarrow> nat \<Rightarrow> nat" where
  "align_down x bits = x div 2 ^ bits * 2 ^ bits"

definition align_up :: "nat \<Rightarrow> nat \<Rightarrow> nat" where
  "align_up x bits = align_down ((x + (2 ^ bits - 1)) mod 2 ^ 32) bits"

text \<open>The bytes of a block, which must be in the buffer and written.\<close>

definition block_bytes :: "buffer \<Rightarrow> nat \<Rightarrow> nat \<Rightarrow> u8 list run" where
  "block_bytes buf offset n =
     (let block = take n (drop offset buf) in
      if length buf < offset + n then crash OutOfBounds
      else if None \<in> set block then crash Uninitialised
      else ret (map the block))"

partial_function (option) download_loop ::
  "'d mlxfw_dev_ops \<Rightarrow> nat \<Rightarrow> mfa2_component \<Rightarrow> nat \<Rightarrow> nat \<Rightarrow> nat \<Rightarrow> 'd flash \<Rightarrow> (int \<times> 'd flash) run"
where
  "download_loop dops fwhandle component max_write limit offset st =
     (if offset < limit then
        let block_size = min ((comp_data_size component + 2 ^ 32 - offset) mod 2 ^ 32) max_write in
        run_bind (block_bytes (comp_data component) offset block_size) (\<lambda>bytes.
          let (err, d) = fsm_block_download dops (dev_state st) fwhandle bytes offset;
              st = log_call (Download offset bytes err) d st in
          if err \<noteq> 0 then ret (err, st)
          else download_loop dops fwhandle component max_write limit
                 ((offset + max_write) mod 2 ^ 32) st)
      else ret (0, st))"

definition cancel :: "'d mlxfw_dev_ops \<Rightarrow> nat \<Rightarrow> int \<Rightarrow> 'd flash \<Rightarrow> (int \<times> 'd flash) run" where
  "cancel dops fwhandle err st = ret (err, log_call Cancel (fsm_cancel dops (dev_state st) fwhandle) st)"

definition flash_component ::
  "'d mlxfw_dev_ops \<Rightarrow> nat \<Rightarrow> mfa2_component \<Rightarrow> 'd flash \<Rightarrow> (int \<times> 'd flash) run" where
  "flash_component dops fwhandle component st =
     (let ((err, max_size, align_bits, max_write), d) =
            component_query dops (dev_state st) (comp_index component);
          st = st\<lparr>dev_state := d\<rparr> in
      if err \<noteq> 0 then ret (err, st)
      else if comp_data_size component > min max_size MAX_COMPONENT_SIZE then ret (- EINVAL, st)
      else if 31 \<le> align_bits then crash OutOfBounds
      else
        let max_write = align_down max_write align_bits;
            (err, d) = fsm_component_update dops (dev_state st) fwhandle (comp_index component)
                         (comp_data_size component);
            st = log_call (Update (comp_index component) (comp_data_size component) err) d st in
        if err \<noteq> 0 then ret (err, st)
        else
          let (err, st) = fsm_state_wait dops fwhandle FSM_DOWNLOAD st in
          if err \<noteq> 0 then cancel dops fwhandle err st
          else
            run_bind (download_loop dops fwhandle component max_write
                (align_up (comp_data_size component) align_bits) 0 st) (\<lambda>(err, st).
              if err \<noteq> 0 then cancel dops fwhandle err st
              else
                let (err, d) = fsm_component_verify dops (dev_state st) fwhandle (comp_index component);
                    st = log_call (Verify (comp_index component) err) d st in
                if err \<noteq> 0 then cancel dops fwhandle err st
                else
                  let (err, st) = fsm_state_wait dops fwhandle FSM_LOCKED st in
                  if err \<noteq> 0 then cancel dops fwhandle err st
                  else ret (0, st)))"

section \<open>All components\<close>

text \<open>The XZ library and the outcomes of the allocations: of the file, and of each component.\<close>

record 'x flash_host =
  xz :: "'x xz_lib"
  have_file :: bool
  have_component :: "nat \<Rightarrow> bool"

fun flash_components_loop ::
  "'x flash_host \<Rightarrow> 'd mlxfw_dev \<Rightarrow> nat \<Rightarrow> mfa2_file \<Rightarrow> nat \<Rightarrow> nat \<Rightarrow> 'd flash \<Rightarrow> (int \<times> 'd flash) run"
where
  "flash_components_loop host dev fwhandle file 0 i st = ret (0, st)"
| "flash_components_loop host dev fwhandle file (Suc n) i st =
     run_bind (component_get (xz host) (have_component host i) file (psid dev) (psid_size dev) i) (\<lambda>c.
       case c of
         Inl err \<Rightarrow> ret (err, st)
       | Inr component \<Rightarrow>
           run_bind (flash_component (ops dev) fwhandle component st) (\<lambda>(err, st).
             if err \<noteq> 0 then ret (err, st)
             else flash_components_loop host dev fwhandle file n (i + 1) st))"

definition flash_components ::
  "'x flash_host \<Rightarrow> 'd mlxfw_dev \<Rightarrow> nat \<Rightarrow> mfa2_file \<Rightarrow> 'd flash \<Rightarrow> (int \<times> 'd flash) run" where
  "flash_components host dev fwhandle file st =
     run_bind (file_component_count file (psid dev) (psid_size dev)) (\<lambda>c.
       case c of
         Inl err \<Rightarrow> ret (err, st)
       | Inr n \<Rightarrow> flash_components_loop host dev fwhandle file n 0 st)"

section \<open>The whole flash\<close>

definition release :: "'d mlxfw_dev_ops \<Rightarrow> nat \<Rightarrow> int \<Rightarrow> 'd flash \<Rightarrow> (int \<times> 'd flash) run" where
  "release dops fwhandle err st = ret (err, log_call Release (fsm_release dops (dev_state st) fwhandle) st)"

definition firmware_flash ::
  "'x flash_host \<Rightarrow> 'd mlxfw_dev \<Rightarrow> mfa2_fw \<Rightarrow> 'd flash \<Rightarrow> (int \<times> 'd flash) run" where
  "firmware_flash host dev fw st =
     run_bind (mfa2_check fw) (\<lambda>ok.
       if \<not> ok then ret (- EINVAL, st)
       else run_bind (file_init (have_file host) fw) (\<lambda>f.
         case f of
           Inl err \<Rightarrow> ret (err, st)
         | Inr file \<Rightarrow>
             let ((err, fwhandle), d) = fsm_lock (ops dev) (dev_state st);
                 st = log_call (Lock err) d st in
             if err \<noteq> 0 then ret (err, st)
             else
               let (err, st) = fsm_state_wait (ops dev) fwhandle FSM_LOCKED st in
               if err \<noteq> 0 then release (ops dev) fwhandle err st
               else
                 run_bind (flash_components host dev fwhandle file st) (\<lambda>(err, st).
                   if err \<noteq> 0 then release (ops dev) fwhandle err st
                   else
                     let (err, d) = fsm_activate (ops dev) (dev_state st) fwhandle;
                         st = log_call (Activate err) d st in
                     if err \<noteq> 0 then release (ops dev) fwhandle err st
                     else
                       let (err, st) = fsm_state_wait (ops dev) fwhandle FSM_LOCKED st in
                       release (ops dev) fwhandle err st)))"

end
