(* ===== verification/MlxfwFacts.thy ===== *)
theory MlxfwFacts
  imports MlxfwFsm
begin

text \<open>
  Facts on the flashing of a Mellanox device: the log of the calls of each function, which an automaton of
  the phases of a flash accepts, and the blocks that are downloaded.
\<close>

section \<open>The phases of a flash\<close>

text \<open>The order in which the operations of the device may be called. A refused block or verification is
  cancelled before the release; only a device without failure is activated.\<close>

datatype phase = Unlocked | Ready | Updating nat | Refused | Verified | Failed | Activated | Closed

fun next_phase :: "phase \<Rightarrow> fsm_call \<Rightarrow> phase option" where
  "next_phase Unlocked (Lock e) = Some (if e = 0 then Ready else Closed)"
| "next_phase Ready (Update i n e) = Some (if e = 0 then Updating i else Failed)"
| "next_phase Verified (Update i n e) = Some (if e = 0 then Updating i else Failed)"
| "next_phase (Updating i) (Download o' b e) = Some (if e = 0 then Updating i else Refused)"
| "next_phase (Updating i) (Verify j e) =
     (if i = j then Some (if e = 0 then Verified else Refused) else None)"
| "next_phase (Updating i) Cancel = Some Failed"
| "next_phase Refused Cancel = Some Failed"
| "next_phase Verified Cancel = Some Failed"
| "next_phase Ready (Activate e) = Some Activated"
| "next_phase Verified (Activate e) = Some Activated"
| "next_phase Ready Release = Some Closed"
| "next_phase Verified Release = Some Closed"
| "next_phase Failed Release = Some Closed"
| "next_phase Activated Release = Some Closed"
| "next_phase _ _ = None"

fun phases :: "phase \<Rightarrow> fsm_call list \<Rightarrow> phase option" where
  "phases p [] = Some p"
| "phases p (c # cs) = Option.bind (next_phase p c) (\<lambda>p. phases p cs)"

lemma phases_append [simp]: "phases p (cs @ ds) = Option.bind (phases p cs) (\<lambda>q. phases q ds)"
  by (induction cs arbitrary: p) (auto split: Option.bind_split)

text \<open>What a part of the flash adds to the log.\<close>

definition logged :: "'d flash \<Rightarrow> 'd flash \<Rightarrow> fsm_call list \<Rightarrow> bool" where
  "logged st st' new \<longleftrightarrow> calls st' = calls st @ new"

lemma logged_simps [simp]:
  "logged st st []" "logged st (st\<lparr>dev_state := d\<rparr>) []"
  "logged (st\<lparr>dev_state := d\<rparr>) st' new \<longleftrightarrow> logged st st' new"
  "logged st (log_call c d st) [c]"
  by (simp_all add: logged_def log_call_def)

lemma logged_trans: "logged a b xs \<Longrightarrow> logged b c ys \<Longrightarrow> logged a c (xs @ ys)"
  by (simp add: logged_def)

lemma logged_call: "logged st st' new \<Longrightarrow> logged st (log_call c d st') (new @ [c])"
  by (simp add: logged_def log_call_def)

lemma logged_after_call: "logged (log_call c d st) st' new \<Longrightarrow> logged st st' (c # new)"
  by (simp add: logged_def log_call_def)

section \<open>Waiting\<close>

lemma wait_loop_calls:
  "state_wait_loop dops h target rounds st = (err, st') \<Longrightarrow> logged st st' []"
proof (induction rounds arbitrary: st)
  case (Suc rounds)
  obtain e cur se d where q: "fsm_query_state dops (dev_state st) h = ((e, cur, se), d)"
    by (metis prod.exhaust)
  show ?case using Suc q by (fastforce simp: Let_def logged_def split: if_splits)
qed (simp add: logged_def)

lemma wait_calls: "fsm_state_wait dops h target st = (err, st') \<Longrightarrow> logged st st' []"
  unfolding fsm_state_wait_def by (rule wait_loop_calls)

lemma wait_reached:
  assumes "fsm_query_state dops (dev_state st) h = ((0, target, ERR_OK), d)"
  shows "fsm_state_wait dops h target st = (0, st\<lparr>dev_state := d\<rparr>)"
proof -
  have rounds: "WAIT_ROUNDS = Suc 149" by (simp add: WAIT_ROUNDS_def)
  show ?thesis using assms unfolding fsm_state_wait_def rounds state_wait_loop.simps by simp
qed

section \<open>The blocks of a component\<close>

fun downloads :: "nat \<Rightarrow> u8 list list \<Rightarrow> fsm_call list" where
  "downloads offset [] = []"
| "downloads offset (b # bs) = Download offset b 0 # downloads (offset + length b) bs"

lemma phases_downloads [simp]: "phases (Updating i) (downloads offset bs) = Some (Updating i)"
  by (induction bs arbitrary: offset) auto

definition flashes :: "mfa2_component \<Rightarrow> fsm_call list \<Rightarrow> bool" where
  "flashes c cs \<longleftrightarrow> (\<exists>blocks. cs = Update (comp_index c) (comp_data_size c) 0 # downloads 0 blocks
       @ [Verify (comp_index c) 0]
     \<and> map Some (concat blocks) = comp_data c \<and> [] \<notin> set blocks)"

lemma block_bytes_ret:
  "block_bytes buf offset n = ret bs \<longleftrightarrow> offset + n \<le> length buf \<and> map Some bs = take n (drop offset buf)"
proof -
  have *: "map Some (map the xs) = xs" if "None \<notin> set xs" for xs :: buffer
    using that by (induction xs) auto
  show ?thesis
  proof
    assume "block_bytes buf offset n = ret bs"
    then show "offset + n \<le> length buf \<and> map Some bs = take n (drop offset buf)"
      using * [of "take n (drop offset buf)"] by (auto simp: block_bytes_def Let_def split: if_splits)
  next
    assume r: "offset + n \<le> length buf \<and> map Some bs = take n (drop offset buf)"
    then have block: "take n (drop offset buf) = map Some bs" by simp
    show "block_bytes buf offset n = ret bs"
      unfolding block_bytes_def block using conjunct1 [OF r] by (auto simp: comp_def)
  qed
qed

lemma align_down_dvd: "2 ^ bits dvd align_down x bits"
  by (simp add: align_down_def)

lemma align_down_le: "align_down x bits \<le> x"
  by (simp add: align_down_def)

text \<open>Below the aligned size a multiple of the alignment lies below the size.\<close>

lemma align_up_less:
  assumes "x + (2 ^ bits - 1) < 2 ^ 32" and "2 ^ bits dvd offset"
  shows "offset < align_up x bits \<longleftrightarrow> offset < x"
proof -
  define m :: nat where "m = 2 ^ bits"
  have pos: "0 < m" by (simp add: m_def)
  obtain k where k: "offset = k * m" using assms(2) by (auto simp: m_def mult.commute elim: dvdE)
  have up: "align_up x bits = (x + (m - 1)) div m * m"
    using assms(1) by (simp add: align_up_def align_down_def m_def)
  have "k * m < (x + (m - 1)) div m * m \<longleftrightarrow> k < (x + (m - 1)) div m" using pos by simp
  also have "\<dots> \<longleftrightarrow> Suc k * m \<le> x + (m - 1)"
    by (metis Suc_le_eq less_eq_div_iff_mult_less_eq pos)
  also have "\<dots> \<longleftrightarrow> k * m < x" using pos by auto
  finally show ?thesis using k up by simp
qed

section \<open>Downloading\<close>

text \<open>The limits under which the offsets do not wrap: the aligned block size \<open>w\<close>, the aligned size \<open>limit\<close>.\<close>

definition download_ok :: "mfa2_component \<Rightarrow> nat \<Rightarrow> nat \<Rightarrow> nat \<Rightarrow> bool" where
  "download_ok c bits w limit \<longleftrightarrow> comp_data_size c \<le> MAX_COMPONENT_SIZE \<and> length (comp_data c) = comp_data_size c
     \<and> bits < 31 \<and> w < 65536 \<and> 2 ^ bits dvd w \<and> limit = align_up (comp_data_size c) bits"

lemma limit_less:
  assumes "download_ok c bits w limit" and "2 ^ bits dvd offset"
  shows "offset < limit \<longleftrightarrow> offset < comp_data_size c"
proof -
  have "(2::nat) ^ bits \<le> 2 ^ 30" using assms(1) by (intro power_increasing) (auto simp: download_ok_def)
  moreover have "comp_data_size c \<le> 10485760" using assms(1) by (simp add: download_ok_def MAX_COMPONENT_SIZE_def)
  ultimately have "comp_data_size c + (2 ^ bits - 1) < 2 ^ 32" by simp
  then show ?thesis using align_up_less [OF _ assms(2)] assms(1) by (simp add: download_ok_def)
qed

text \<open>One round.\<close>

lemma download_step:
  assumes ok: "download_ok c bits w limit" and dvd: "2 ^ bits dvd offset" and lt: "offset < comp_data_size c"
  shows "download_loop dops h c w limit offset st =
    run_bind (block_bytes (comp_data c) offset (min (comp_data_size c - offset) w)) (\<lambda>bytes.
      let (err, d) = fsm_block_download dops (dev_state st) h bytes offset;
          st = log_call (Download offset bytes err) d st in
      if err \<noteq> 0 then ret (err, st) else download_loop dops h c w limit (offset + w) st)"
proof -
  have "offset < limit" using limit_less [OF ok dvd] lt by simp
  moreover have "(comp_data_size c + 2 ^ 32 - offset) mod 2 ^ 32 = comp_data_size c - offset"
  proof -
    have "comp_data_size c + 2 ^ 32 - offset = (comp_data_size c - offset) + 2 ^ 32" using lt by simp
    moreover have "comp_data_size c \<le> 10485760" using ok by (simp add: download_ok_def MAX_COMPONENT_SIZE_def)
    then have "comp_data_size c - offset < 2 ^ 32" by simp
    ultimately show ?thesis by (simp only: mod_add_self2 mod_less)
  qed
  moreover have "(offset + w) mod 2 ^ 32 = offset + w"
    using ok lt by (simp add: download_ok_def MAX_COMPONENT_SIZE_def)
  ultimately show ?thesis by (subst download_loop.simps) (simp only: if_True Let_def)
qed

lemma download_end:
  "download_ok c bits w limit \<Longrightarrow> 2 ^ bits dvd offset \<Longrightarrow> comp_data_size c \<le> offset \<Longrightarrow>
   download_loop dops h c w limit offset st = ret (0, st)"
  using limit_less [of c bits w limit offset] by (subst download_loop.simps) simp

text \<open>The result of the loop: the blocks follow each other up to the end of the data, or the last one is
  refused.\<close>

definition downloaded :: "buffer \<Rightarrow> nat \<Rightarrow> 'd flash \<Rightarrow> int \<Rightarrow> 'd flash \<Rightarrow> bool" where
  "downloaded data offset st err st' \<longleftrightarrow> (\<exists>blocks new. logged st st' new
     \<and> (if err = 0 then new = downloads offset blocks \<and> map Some (concat blocks) = drop offset data \<and> [] \<notin> set blocks
        else \<exists>o' b. new = downloads offset blocks @ [Download o' b err]))"

lemma downloaded_end: "length data \<le> offset \<Longrightarrow> downloaded data offset st 0 st"
  unfolding downloaded_def by (intro exI [of _ "[]"]) simp

lemma downloaded_refused: "err \<noteq> 0 \<Longrightarrow> downloaded data offset st err (log_call (Download offset b err) d st)"
  unfolding downloaded_def
  by (intro exI [of _ "[]"] exI [of _ "[Download offset b err]"]) simp

lemma downloaded_last:
  "b \<noteq> [] \<Longrightarrow> map Some b = drop offset data \<Longrightarrow> downloaded data offset st 0 (log_call (Download offset b 0) d st)"
  unfolding downloaded_def by (intro exI [of _ "[b]"] exI [of _ "[Download offset b 0]"]) simp

lemma downloaded_block:
  assumes "downloaded data (offset + length b) (log_call (Download offset b 0) d st) err st'" and "b \<noteq> []"
    and "map Some b @ drop (offset + length b) data = drop offset data"
  shows "downloaded data offset st err st'"
proof -
  obtain blocks new where new: "logged (log_call (Download offset b 0) d st) st' new"
    "if err = 0 then new = downloads (offset + length b) blocks
         \<and> map Some (concat blocks) = drop (offset + length b) data \<and> [] \<notin> set blocks
       else \<exists>o' b'. new = downloads (offset + length b) blocks @ [Download o' b' err]"
    using assms(1) unfolding downloaded_def by blast
  show ?thesis unfolding downloaded_def
    using logged_after_call [OF new(1)] new(2) assms(2,3)
    by (intro exI [of _ "b # blocks"] exI [of _ "Download offset b 0 # new"]) (auto split: if_splits)
qed

text \<open>The loop returns what it promises, unless a byte of the data was never written.\<close>

lemma download_loop_result:
  assumes ok: "download_ok c bits w limit" and w: "0 < w" and dvd: "2 ^ bits dvd offset"
  shows "download_loop dops h c w limit offset st = crash Uninitialised \<and> None \<in> set (comp_data c)
    \<or> (\<exists>err st'. download_loop dops h c w limit offset st = ret (err, st')
         \<and> downloaded (comp_data c) offset st err st')"
  using dvd
proof (induction "comp_data_size c - offset" arbitrary: offset st rule: less_induct)
  case less
  let ?data = "comp_data c" and ?n = "min (comp_data_size c - offset) w"
  have len: "length ?data = comp_data_size c" using ok by (simp add: download_ok_def)
  show ?case
  proof (cases "offset < comp_data_size c")
    case False
    then have "download_loop dops h c w limit offset st = ret (0, st)" "downloaded ?data offset st 0 st"
      using download_end [OF ok less.prems] downloaded_end [of ?data offset st] len by simp_all
    then show ?thesis by blast
  next
    case lt: True
    note step = download_step [OF ok less.prems lt, of dops h st]
    have dvd': "2 ^ bits dvd offset + w" using less.prems ok by (simp add: download_ok_def)
    show ?thesis
    proof (cases "None \<in> set (take ?n (drop offset ?data))")
      case True
      then have "block_bytes ?data offset ?n = crash Uninitialised" using len lt by (simp add: block_bytes_def Let_def)
      moreover have "None \<in> set ?data" using True by (meson in_set_dropD in_set_takeD)
      ultimately show ?thesis using step by simp
    next
      case False
      then have "block_bytes ?data offset ?n = ret (map the (take ?n (drop offset ?data)))"
        using len lt by (simp add: block_bytes_def Let_def)
      then obtain b where b: "block_bytes ?data offset ?n = ret b" by blast
      then have bytes: "map Some b = take ?n (drop offset ?data)" by (simp add: block_bytes_ret)
      have n: "length b = ?n" using arg_cong [OF bytes, of length] len by simp
      then have ne: "b \<noteq> []" using w lt by auto
      obtain err d where call: "fsm_block_download dops (dev_state st) h b offset = (err, d)" by fastforce
      have run: "download_loop dops h c w limit offset st = (let st = log_call (Download offset b err) d st in
          if err \<noteq> 0 then ret (err, st) else download_loop dops h c w limit (offset + w) st)"
        using step b call by (simp add: Let_def)
      consider "err \<noteq> 0" | "err = 0" "w \<le> comp_data_size c - offset" | "err = 0" "comp_data_size c - offset < w"
        by linarith
      then show ?thesis
      proof cases
        case 1
        then show ?thesis using run downloaded_refused [OF 1] by (auto simp: Let_def)
      next
        case 2
        have rest: "map Some b @ drop (offset + length b) ?data = drop offset ?data"
          using append_take_drop_id [of w "drop offset ?data"] bytes n 2 by (simp add: add.commute)
        have len_b: "offset + w = offset + length b" using n 2 by simp
        have same: "download_loop dops h c w limit offset st
            = download_loop dops h c w limit (offset + w) (log_call (Download offset b 0) d st)"
          using run 2 by simp
        have "comp_data_size c - (offset + w) < comp_data_size c - offset" using lt w by simp
        note IH = less.hyps [OF this dvd', of "log_call (Download offset b 0) d st"]
        show ?thesis using IH downloaded_block [OF _ ne rest, of d st] unfolding same len_b by blast
      next
        case 3
        then have "comp_data_size c \<le> offset + w" by simp
        moreover have "map Some b = drop offset ?data" using bytes len 3 by simp
        ultimately have "download_loop dops h c w limit offset st = ret (0, log_call (Download offset b 0) d st)"
          and "downloaded ?data offset st 0 (log_call (Download offset b 0) d st)"
          using run 3 download_end [OF ok dvd'] downloaded_last [OF ne, of offset ?data] by simp_all
        then show ?thesis by blast
      qed
    qed
  qed
qed

text \<open>With the block size 0 the same empty block is sent again and again: the loop ends only when the device
  refuses it.\<close>

definition refused_empty :: "'d mlxfw_dev_ops \<Rightarrow> nat \<Rightarrow> 'd flash \<Rightarrow> (fault + int \<times> 'd flash) \<Rightarrow> bool" where
  "refused_empty dops h st y \<longleftrightarrow> (\<exists>err st' n d. y = Inr (err, st') \<and> err \<noteq> 0
     \<and> err = fst (fsm_block_download dops d h [] 0)
     \<and> logged st st' (replicate n (Download 0 [] 0) @ [Download 0 [] err]))"

lemma refused_empty_step:
  "refused_empty dops h (log_call (Download 0 [] 0) d st) y \<Longrightarrow> refused_empty dops h st y"
  unfolding refused_empty_def using logged_after_call by (metis append_Cons replicate_Suc)

lemma download_zero:
  assumes "download_loop dops h c 0 limit 0 st = Some y" and "0 < limit"
  shows "refused_empty dops h st y"
proof -
  have "w = 0 \<longrightarrow> offset = 0 \<longrightarrow> 0 < limit \<longrightarrow> refused_empty dops h st y"
    if "download_loop dops h c w limit offset st = Some y" for dops h c w limit offset and st :: "'a flash" and y
  proof (rule download_loop.raw_induct [OF _ that, where P =
        "\<lambda>dops h c w limit offset st y. w = 0 \<longrightarrow> offset = 0 \<longrightarrow> 0 < limit \<longrightarrow> refused_empty dops h st y"], intro impI)
    fix rec and dops :: "'a mlxfw_dev_ops" and h c w limit offset and st :: "'a flash" and y
    assume IH: "\<And>dops h c w limit offset st y. rec dops h c w limit offset st = Some y \<Longrightarrow>
        w = 0 \<longrightarrow> offset = 0 \<longrightarrow> 0 < limit \<longrightarrow> refused_empty dops h st y"
      and r: "(if offset < limit then
            let block_size = min ((comp_data_size c + 2 ^ 32 - offset) mod 2 ^ 32) w in
            run_bind (block_bytes (comp_data c) offset block_size) (\<lambda>bytes.
              let (err, d) = fsm_block_download dops (dev_state st) h bytes offset;
                  st = log_call (Download offset bytes err) d st in
              if err \<noteq> 0 then ret (err, st) else rec dops h c w limit ((offset + w) mod 2 ^ 32) st)
          else ret (0, st)) = Some y"
      and eq: "w = 0" "offset = 0" "0 < limit"
    obtain err d where call: "fsm_block_download dops (dev_state st) h [] 0 = (err, d)" by fastforce
    have "block_bytes (comp_data c) 0 0 = ret []" by (simp add: block_bytes_def)
    then have r': "(if err \<noteq> 0 then ret (err, log_call (Download 0 [] err) d st)
        else rec dops h c 0 limit 0 (log_call (Download 0 [] 0) d st)) = Some y"
      using r call eq by (auto simp: Let_def split: if_splits)
    show "refused_empty dops h st y"
    proof (cases "err = 0")
      case True
      then show ?thesis using IH [of dops h c 0 limit 0 "log_call (Download 0 [] 0) d st" y] r' eq(3)
          refused_empty_step by auto
    next
      case False
      then have y: "y = Inr (err, log_call (Download 0 [] err) d st)" using r' by (simp add: ret_def)
      have "logged st (log_call (Download 0 [] err) d st) (replicate 0 (Download 0 [] 0) @ [Download 0 [] err])"
        by simp
      then show ?thesis unfolding refused_empty_def using y False call by (metis fst_conv)
    qed
  qed
  then show ?thesis using assms by blast
qed

section \<open>One component\<close>

text \<open>The width of the sizes that the device reports.\<close>

definition ops_typed :: "'d mlxfw_dev_ops \<Rightarrow> bool" where
  "ops_typed dops \<longleftrightarrow> (\<forall>d i err max_size bits max_write d'.
     component_query dops d i = ((err, max_size, bits, max_write), d') \<longrightarrow> max_write < 65536)"

lemma download_zero_hangs:
  assumes "\<And>d. fst (fsm_block_download dops d h [] 0) = 0" and "0 < limit"
  shows "download_loop dops h c 0 limit 0 st = None"
  using download_zero [of dops h c limit st] assms
  by (cases "download_loop dops h c 0 limit 0 st") (auto simp: refused_empty_def)

text \<open>What the loop adds to the log, for every block size.\<close>

lemma download_result:
  assumes run: "download_loop dops h c w limit 0 st = ret (err, st')" and ok: "download_ok c bits w limit"
  shows "downloaded (comp_data c) 0 st err st'"
proof (cases "w = 0")
  case False
  then show ?thesis
    using download_loop_result [OF ok, of 0 dops h st] run by auto
next
  case zero: True
  show ?thesis
  proof (cases "0 < limit")
    case True
    have "refused_empty dops h st (Inr (err, st'))"
      by (rule download_zero [OF _ True]) (use run zero in \<open>simp add: ret_def\<close>)
    then obtain n where n: "err \<noteq> 0" "logged st st' (replicate n (Download 0 [] 0) @ [Download 0 [] err])"
      by (auto simp: refused_empty_def)
    moreover have "replicate n (Download 0 [] 0) = downloads 0 (replicate n [])" by (induction n) simp_all
    ultimately show ?thesis unfolding downloaded_def by auto
  next
    case False
    then show ?thesis using run download_end [OF ok, of 0 dops h st] limit_less [OF ok, of 0]
        downloaded_end [of "comp_data c" 0 st] ok by (auto simp: download_ok_def)
  qed
qed


lemma downloaded_phases:
  assumes "downloaded data 0 st err st'"
  obtains new where "logged st st' new" and "phases (Updating i) new = Some (if err = 0 then Updating i else Refused)"
    and "err = 0 \<Longrightarrow> \<exists>blocks. new = downloads 0 blocks \<and> map Some (concat blocks) = data \<and> [] \<notin> set blocks"
proof -
  obtain blocks new where new: "logged st st' new"
    "if err = 0 then new = downloads 0 blocks \<and> map Some (concat blocks) = drop 0 data \<and> [] \<notin> set blocks
     else \<exists>o' b. new = downloads 0 blocks @ [Download o' b err]"
    using assms unfolding downloaded_def by blast
  then have "phases (Updating i) new = Some (if err = 0 then Updating i else Refused)"
    by (auto split: if_splits)
  with that [OF new(1)] new(2) show ?thesis by (auto split: if_splits)
qed

text \<open>A component that is not flashed is cancelled if its update was accepted.\<close>

definition component_log :: "mfa2_component \<Rightarrow> int \<Rightarrow> fsm_call list \<Rightarrow> bool" where
  "component_log c err new \<longleftrightarrow>
     (if err = 0 then flashes c new
      else new = [] \<or> new = [Update (comp_index c) (comp_data_size c) err]
        \<or> (\<exists>mid. new = Update (comp_index c) (comp_data_size c) 0 # mid @ [Cancel]
             \<and> phases (Updating (comp_index c)) mid \<in> {Some (Updating (comp_index c)), Some Refused, Some Verified}))"

lemma cancel_result [simp]:
  "cancel dops h err st = ret (err', st') \<longleftrightarrow>
     err' = err \<and> st' = log_call Cancel (fsm_cancel dops (dev_state st) h) st"
  by (auto simp: cancel_def)

text \<open>The three parts of \<open>flash_component\<close>: after the download, after the update, and the whole.\<close>

definition verify_part ::
  "'d mlxfw_dev_ops \<Rightarrow> nat \<Rightarrow> mfa2_component \<Rightarrow> int \<Rightarrow> 'd flash \<Rightarrow> (int \<times> 'd flash) run" where
  "verify_part dops h c err st =
     (if err \<noteq> 0 then cancel dops h err st
      else
        let (err, d) = fsm_component_verify dops (dev_state st) h (comp_index c);
            st = log_call (Verify (comp_index c) err) d st in
        if err \<noteq> 0 then cancel dops h err st
        else
          let (err, st) = fsm_state_wait dops h FSM_LOCKED st in
          if err \<noteq> 0 then cancel dops h err st else ret (0, st))"

definition download_part ::
  "'d mlxfw_dev_ops \<Rightarrow> nat \<Rightarrow> mfa2_component \<Rightarrow> nat \<Rightarrow> nat \<Rightarrow> 'd flash \<Rightarrow> (int \<times> 'd flash) run" where
  "download_part dops h c w limit st =
     (let (err, st) = fsm_state_wait dops h FSM_DOWNLOAD st in
      if err \<noteq> 0 then cancel dops h err st
      else run_bind (download_loop dops h c w limit 0 st) (\<lambda>(err, st). verify_part dops h c err st))"

lemma flash_component_parts:
  assumes "component_query dops (dev_state st) (comp_index c) = ((err, max_size, bits, mw), d)"
    and "fsm_component_update dops d h (comp_index c) (comp_data_size c) = (err', d')"
  shows "flash_component dops h c st =
    (let st = st\<lparr>dev_state := d\<rparr>; st' = log_call (Update (comp_index c) (comp_data_size c) err') d' st in
     if err \<noteq> 0 then ret (err, st)
     else if comp_data_size c > min max_size MAX_COMPONENT_SIZE then ret (- EINVAL, st)
     else if 31 \<le> bits then crash OutOfBounds
     else if err' \<noteq> 0 then ret (err', st')
     else download_part dops h c (align_down mw bits) (align_up (comp_data_size c) bits) st')"
  using assms unfolding flash_component_def download_part_def verify_part_def by (simp add: Let_def)

lemma verify_part_result:
  assumes "verify_part dops h c err st = ret (err', st')"
    and p: "phases p (cs :: fsm_call list) = Some (if err = 0 then Updating (comp_index c) else Refused)"
  obtains new where "logged st st' new" and "err' = 0 \<Longrightarrow> err = 0 \<and> new = [Verify (comp_index c) 0]"
    and "err' \<noteq> 0 \<Longrightarrow> \<exists>mid. new = mid @ [Cancel] \<and> phases p (cs @ mid) \<in> {Some Refused, Some Verified}"
proof (cases "err = 0")
  case False
  then show ?thesis using assms that [of "[Cancel]"] by (auto simp: verify_part_def)
next
  case True
  obtain e d where v: "fsm_component_verify dops (dev_state st) h (comp_index c) = (e, d)" by fastforce
  let ?v = "Verify (comp_index c) e" and ?st = "log_call (Verify (comp_index c) e) d st"
  obtain e' st'' where w: "fsm_state_wait dops h FSM_LOCKED ?st = (e', st'')" by fastforce
  have log: "logged ?st st'' []" by (rule wait_calls [OF w])
  show ?thesis
  proof (cases "e = 0 \<and> e' = 0")
    case zero: True
    then show ?thesis using assms(1) True v w that [of "[?v]"] logged_after_call [OF log]
      by (auto simp: verify_part_def)
  next
    case False
    then have "logged st st' ([?v] @ [Cancel])" and "err' \<noteq> 0"
      using assms(1) True v w logged_call [OF logged_after_call [OF log], of Cancel]
        logged_call [OF logged_simps(4) [of st ?v d], of Cancel]
      by (auto simp: verify_part_def Let_def split: if_splits)
    then show ?thesis using that [of "[?v] @ [Cancel]"] p True by auto
  qed
qed

lemma download_part_result:
  assumes run: "download_part dops h c w limit st = ret (err, st')" and ok: "download_ok c bits w limit"
  obtains new where "logged st st' new"
    and "err = 0 \<Longrightarrow> \<exists>blocks. new = downloads 0 blocks @ [Verify (comp_index c) 0]
      \<and> map Some (concat blocks) = comp_data c \<and> [] \<notin> set blocks"
    and "err \<noteq> 0 \<Longrightarrow> \<exists>mid. new = mid @ [Cancel] \<and> phases (Updating (comp_index c)) mid
      \<in> {Some (Updating (comp_index c)), Some Refused, Some Verified}"
proof -
  let ?p = "Updating (comp_index c)"
  obtain e s1 where w1: "fsm_state_wait dops h FSM_DOWNLOAD st = (e, s1)" by fastforce
  note log1 = wait_calls [OF w1]
  show ?thesis
  proof (cases "e = 0")
    case False
    then show ?thesis using run w1 logged_call [OF log1, of Cancel] that [of "[Cancel]"]
      by (auto simp: download_part_def)
  next
    case True
    obtain e2 s2 where d: "download_loop dops h c w limit 0 s1 = ret (e2, s2)"
      and v: "verify_part dops h c e2 s2 = ret (err, st')"
      using run w1 True by (auto simp: download_part_def run_bind_ret)
    obtain xs where xs: "logged s1 s2 xs" "phases ?p xs = Some (if e2 = 0 then ?p else Refused)"
      "e2 = 0 \<Longrightarrow> \<exists>blocks. xs = downloads 0 blocks \<and> map Some (concat blocks) = comp_data c \<and> [] \<notin> set blocks"
      using downloaded_phases [OF download_result [OF d ok]] by blast
    obtain ys where ys: "logged s2 st' ys" "err = 0 \<Longrightarrow> e2 = 0 \<and> ys = [Verify (comp_index c) 0]"
      "err \<noteq> 0 \<Longrightarrow> \<exists>mid. ys = mid @ [Cancel] \<and> phases ?p (xs @ mid) \<in> {Some Refused, Some Verified}"
      using verify_part_result [OF v xs(2)] by blast
    have log: "logged st st' (xs @ ys)" using logged_trans [OF log1 logged_trans [OF xs(1) ys(1)]] by simp
    show ?thesis
    proof (rule that [OF log])
      assume "err = 0"
      then show "\<exists>blocks. xs @ ys = downloads 0 blocks @ [Verify (comp_index c) 0]
          \<and> map Some (concat blocks) = comp_data c \<and> [] \<notin> set blocks" using xs(3) ys(2) by auto
    next
      assume "err \<noteq> 0"
      then obtain mid where "ys = mid @ [Cancel]" "phases ?p (xs @ mid) \<in> {Some Refused, Some Verified}"
        using ys(3) by blast
      then show "\<exists>mid. xs @ ys = mid @ [Cancel] \<and> phases ?p mid \<in> {Some ?p, Some Refused, Some Verified}"
        by (intro exI [of _ "xs @ mid"]) auto
    qed
  qed
qed

lemma flash_component_result:
  assumes run: "flash_component dops h c st = ret (err, st')" and typed: "ops_typed dops"
    and len: "length (comp_data c) = comp_data_size c"
  shows "\<exists>new. logged st st' new \<and> component_log c err new"
proof -
  obtain e ms bits mw d where q: "component_query dops (dev_state st) (comp_index c) = ((e, ms, bits, mw), d)"
    by (metis prod.exhaust)
  obtain e1 d1 where u: "fsm_component_update dops d h (comp_index c) (comp_data_size c) = (e1, d1)" by fastforce
  let ?u = "Update (comp_index c) (comp_data_size c)"
  let ?s1 = "log_call (?u e1) d1 (st\<lparr>dev_state := d\<rparr>)"
  note parts = run [unfolded flash_component_parts [OF q u] Let_def]
  have log1: "logged st ?s1 [?u e1]" by (simp add: logged_def log_call_def)
  have mw: "mw < 65536" using typed q unfolding ops_typed_def by blast
  show ?thesis
  proof (cases "e \<noteq> 0 \<or> comp_data_size c > min ms MAX_COMPONENT_SIZE")
    case True
    then have "logged st st' []" and "err \<noteq> 0"
      using parts by (auto simp: EINVAL_def logged_def split: if_splits)
    then show ?thesis by (auto simp: component_log_def)
  next
    case False
    then have bits: "bits < 31" using parts by (simp split: if_splits)
    show ?thesis
    proof (cases "e1 = 0")
      case refused: False
      then have "err = e1 \<and> st' = ?s1" using parts False bits by (auto split: if_splits)
      then show ?thesis using log1 refused by (auto simp: component_log_def)
    next
      case True
      have ok: "download_ok c bits (align_down mw bits) (align_up (comp_data_size c) bits)"
        using False len bits mw align_down_le [of mw bits] align_down_dvd [of bits mw]
        by (auto simp: download_ok_def)
      have run': "download_part dops h c (align_down mw bits) (align_up (comp_data_size c) bits) ?s1 = ret (err, st')"
        using parts False bits True by (simp split: if_splits)
      obtain new where log: "logged ?s1 st' new"
        and good: "err = 0 \<Longrightarrow> \<exists>blocks. new = downloads 0 blocks @ [Verify (comp_index c) 0]
          \<and> map Some (concat blocks) = comp_data c \<and> [] \<notin> set blocks"
        and bad: "err \<noteq> 0 \<Longrightarrow> \<exists>mid. new = mid @ [Cancel] \<and> phases (Updating (comp_index c)) mid
          \<in> {Some (Updating (comp_index c)), Some Refused, Some Verified}"
        by (rule download_part_result [OF run' ok]) blast+
      have "component_log c err (?u 0 # new)"
        unfolding component_log_def flashes_def list.inject using good bad by presburger
      moreover have "logged st st' (?u 0 # new)" using logged_trans [OF log1 log] True by simp
      ultimately show ?thesis by blast
    qed
  qed
qed

end
