(* ===== verification/Mfa2Facts.thy ===== *)
theory Mfa2Facts
  imports Mfa2Component
begin

text \<open>
  The parser of firmware packages: no run reads behind the memory if four bytes behind the file can be
  read (the length check of a TLV forgets its header of four bytes); the loops over the children of a
  TLV are list functions on the walk of the children; they return unless 65536 children are announced.
\<close>

section \<open>Runs that stay in memory\<close>

definition in_memory :: "'a run \<Rightarrow> bool" where
  "in_memory m \<longleftrightarrow> m \<noteq> crash OutOfBounds"

lemma in_memory_ret [simp]: "in_memory (ret x)" "in_memory None" "in_memory (crash NullDeref)"
  by (simp_all add: in_memory_def)

lemma in_memory_bind [intro?]:
  "in_memory m \<Longrightarrow> (\<And>x. m = ret x \<Longrightarrow> in_memory (f x)) \<Longrightarrow> in_memory (run_bind m f)"
  by (cases m rule: run_cases) (auto simp: in_memory_def)

text \<open>Four bytes behind the file are readable.\<close>

definition memory_ok :: "mfa2_fw \<Rightarrow> bool" where
  "memory_ok fw \<longleftrightarrow> fw_size fw + 4 \<le> length (fw_data fw)"

definition header_ok :: "mfa2_fw \<Rightarrow> int \<Rightarrow> bool" where
  "header_ok fw p \<longleftrightarrow> 0 < p \<and> p + 4 < int (fw_size fw)"

definition pointer_ok :: "mfa2_fw \<Rightarrow> int option \<Rightarrow> bool" where
  "pointer_ok fw tlv \<longleftrightarrow> (\<forall>p. tlv = Some p \<longrightarrow> header_ok fw p)"

lemma tlv_get_ok [simp]: "pointer_ok fw (tlv_get fw p)"
  by (simp add: pointer_ok_def tlv_get_def header_ok_def valid_ptr_def)

lemma pointer_ok_simps [simp]: "pointer_ok fw None" "pointer_ok fw (Some p) \<longleftrightarrow> header_ok fw p"
  by (simp_all add: pointer_ok_def)

lemma rd8_in_memory: "memory_ok fw \<Longrightarrow> 0 \<le> p \<Longrightarrow> p < int (fw_size fw) + 4 \<Longrightarrow> in_memory (rd8 fw p)"
  by (auto simp: rd8_def memory_ok_def)

lemma be16_in_memory: "memory_ok fw \<Longrightarrow> 0 \<le> p \<Longrightarrow> p + 1 < int (fw_size fw) + 4 \<Longrightarrow> in_memory (be16 fw p)"
  unfolding be16_def by (intro in_memory_bind rd8_in_memory) auto

lemma be32_in_memory: "memory_ok fw \<Longrightarrow> 0 \<le> p \<Longrightarrow> p + 3 < int (fw_size fw) + 4 \<Longrightarrow> in_memory (be32 fw p)"
  unfolding be32_def by (intro in_memory_bind be16_in_memory) auto

lemma type_in_memory: "memory_ok fw \<Longrightarrow> header_ok fw p \<Longrightarrow> in_memory (tlv_type fw p)"
  unfolding tlv_type_def by (intro rd8_in_memory) (auto simp: header_ok_def)

lemma len_in_memory: "memory_ok fw \<Longrightarrow> header_ok fw p \<Longrightarrow> in_memory (tlv_len fw p)"
  unfolding tlv_len_def by (intro be16_in_memory) (auto simp: header_ok_def)

lemma payload_in_memory: "memory_ok fw \<Longrightarrow> header_ok fw p \<Longrightarrow> in_memory (payload_get fw p t n v)"
  unfolding payload_get_def
  by (auto simp: Let_def intro!: in_memory_bind len_in_memory type_in_memory)

text \<open>What a payload getter returns lies behind the header, with its size at most four bytes behind the
  file.\<close>

lemma payload_bounds:
  assumes "payload_get fw p t n v = ret (Some m)"
  obtains len where "tlv_len fw p = ret len" and "tlv_type fw p = ret t" and "m = p + 4" and "0 < p"
    and "p + int len \<le> int (fw_size fw)" and "n \<le> len" and "\<not> v \<Longrightarrow> len = n"
proof -
  obtain len where l: "tlv_len fw p = ret len" using assms by (auto simp: payload_get_def run_bind_ret)
  moreover obtain ty where t: "tlv_type fw p = ret ty"
    using assms l by (auto simp: payload_get_def run_bind_ret Let_def split: if_splits)
  ultimately show ?thesis
    using assms that [of len] by (auto simp: payload_get_def valid_ptr_def Let_def split: if_splits)
qed

lemma multi_in_memory: "memory_ok fw \<Longrightarrow> header_ok fw p \<Longrightarrow> in_memory (multi_get fw p)"
  by (simp add: multi_get_def payload_in_memory)

definition multi_ok :: "mfa2_fw \<Rightarrow> int \<Rightarrow> bool" where
  "multi_ok fw m \<longleftrightarrow> 4 < m \<and> m \<le> int (fw_size fw)"

lemma multi_get_ok: "multi_get fw p = ret (Some m) \<Longrightarrow> multi_ok fw m"
  unfolding multi_get_def by (elim payload_bounds) (auto simp: multi_ok_def)

lemma multi_fields_in_memory:
  "memory_ok fw \<Longrightarrow> multi_ok fw m \<Longrightarrow> in_memory (num_extensions fw m) \<and> in_memory (total_len fw m)"
  unfolding num_extensions_def total_len_def by (auto simp: multi_ok_def intro!: be16_in_memory)

lemma next_in_memory:
  assumes "memory_ok fw" and "pointer_ok fw tlv"
  shows "in_memory (tlv_next fw tlv)"
proof (cases tlv)
  case (Some p)
  have h: "header_ok fw p" using assms(2) Some by simp
  show ?thesis unfolding tlv_next_def Some option.case Let_def
    using assms(1) h multi_get_ok multi_fields_in_memory
    by (auto intro!: in_memory_bind len_in_memory type_in_memory multi_in_memory split: option.splits)
qed (simp add: tlv_next_def)

lemma next_pointer_ok: "tlv_next fw tlv = ret tlv' \<Longrightarrow> pointer_ok fw tlv'"
  by (cases tlv) (auto simp: tlv_next_def run_bind_ret Let_def split: if_splits option.splits)

text \<open>The loop, for every body that stays in memory.\<close>

text \<open>Induction on the rounds of a loop that returns.\<close>

lemma foreach_induct [consumes 1, case_names finish body_crash return next_crash step]:
  assumes run: "tlv_foreach fw wrap count body idx tlv s = Some y"
    and finish: "\<And>idx tlv s. \<not> idx < count \<Longrightarrow> P idx tlv s (Inr (Inr (tlv, s)))"
    and body_crash: "\<And>idx tlv s e. idx < count \<Longrightarrow> body tlv s = crash e \<Longrightarrow> P idx tlv s (Inl e)"
    and return: "\<And>idx tlv s r. idx < count \<Longrightarrow> body tlv s = ret (Inl r) \<Longrightarrow> P idx tlv s (Inr (Inl r))"
    and next_crash: "\<And>idx tlv s s' e. idx < count \<Longrightarrow> body tlv s = ret (Inr s') \<Longrightarrow>
      tlv_next fw tlv = crash e \<Longrightarrow> P idx tlv s (Inl e)"
    and step: "\<And>idx tlv s s' tlv' y. idx < count \<Longrightarrow> body tlv s = ret (Inr s') \<Longrightarrow>
      tlv_next fw tlv = ret tlv' \<Longrightarrow> P ((idx + 1) mod wrap) tlv' s' y \<Longrightarrow> P idx tlv s y"
  shows "P idx tlv s y"
proof -
  have "f = fw \<longrightarrow> w = wrap \<longrightarrow> c = count \<longrightarrow> b = body \<longrightarrow> P idx tlv s y"
    if "tlv_foreach f w c b idx tlv s = Some y" for f w c b idx tlv s y
  proof (rule tlv_foreach.raw_induct [OF _ that, where P =
        "\<lambda>f w c b idx tlv s y. f = fw \<longrightarrow> w = wrap \<longrightarrow> c = count \<longrightarrow> b = body \<longrightarrow> P idx tlv s y"], intro impI)
    fix rec and f :: mfa2_fw and w c b i and t :: "int option" and s y
    assume IH: "\<And>f w c b i t s y. rec f w c b i t s = Some y \<Longrightarrow>
        f = fw \<longrightarrow> w = wrap \<longrightarrow> c = count \<longrightarrow> b = body \<longrightarrow> P i t s y"
      and r: "(if i < c then run_bind (b t s) (\<lambda>x. case x of
               Inl r \<Rightarrow> ret (Inl r)
             | Inr s \<Rightarrow> run_bind (tlv_next f t) (\<lambda>t. rec f w c b ((i + 1) mod w) t s))
           else ret (Inr (t, s))) = Some y"
      and eq: "f = fw" "w = wrap" "c = count" "b = body"
    show "P i t s y"
    proof (cases "i < count")
      case False
      then show ?thesis using finish r eq by (auto simp: ret_def)
    next
      case lt: True
      show ?thesis
      proof (cases "body t s" rule: run_cases)
        case None
        then show ?thesis using r eq lt by simp
      next
        case (crash e)
        then show ?thesis using r eq lt body_crash [OF lt crash] by (auto simp: crash_def)
      next
        case (ret x)
        show ?thesis
        proof (cases x)
          case (Inl v)
          then show ?thesis using r eq lt ret return [OF lt, of t s v] by (auto simp: ret_def)
        next
          case x: (Inr s')
          show ?thesis
          proof (cases "tlv_next fw t" rule: run_cases)
            case None
            then show ?thesis using r eq lt ret x by simp
          next
            case (crash e)
            then show ?thesis using r eq lt ret x next_crash [OF lt _ crash] by (auto simp: crash_def)
          next
            case nx: (ret t')
            then have "rec f w c b ((i + 1) mod wrap) t' s' = Some y" using r eq lt ret x by simp
            then show ?thesis using IH eq step [OF lt _ nx] ret x by blast
          qed
        qed
      qed
    qed
  qed
  then show ?thesis using run by blast
qed

lemma in_memory_iff: "in_memory m \<longleftrightarrow> (\<forall>y. m = Some y \<longrightarrow> y \<noteq> Inl OutOfBounds)"
  by (auto simp: in_memory_def crash_def)

lemma foreach_in_memory:
  assumes mem: "memory_ok fw" and tlv: "pointer_ok fw tlv"
    and body: "\<And>tlv s. pointer_ok fw tlv \<Longrightarrow> in_memory (body tlv s)"
  shows "in_memory (tlv_foreach fw wrap count body idx tlv s)"
  unfolding in_memory_iff
proof (intro allI impI)
  fix y assume "tlv_foreach fw wrap count body idx tlv s = Some y"
  then show "y \<noteq> Inl OutOfBounds"
    using tlv
  proof (induction rule: foreach_induct)
    case (body_crash idx tlv s e)
    then show ?case using body [of tlv s] by (auto simp: in_memory_def)
  next
    case (next_crash idx tlv s s' e)
    then show ?case using next_in_memory [OF mem, of tlv] by (auto simp: in_memory_def)
  next
    case (step idx tlv s s' tlv' y)
    then show ?case using next_pointer_ok by blast
  qed simp_all
qed

lemma foreach_pointer_ok:
  assumes "tlv_foreach fw wrap count body idx tlv s = ret (Inr (t, s'))" and "pointer_ok fw tlv"
  shows "pointer_ok fw t"
proof -
  have "tlv_foreach fw wrap count body idx tlv s = Some y \<Longrightarrow> pointer_ok fw tlv \<Longrightarrow>
      y = Inr (Inr (t, s')) \<longrightarrow> pointer_ok fw t" for y
  proof (induction rule: foreach_induct)
    case (step idx tlv s s' tlv' y)
    then show ?case using next_pointer_ok by blast
  qed auto
  then show ?thesis using assms by (simp add: ret_def)
qed

lemma advance_in_memory: "memory_ok fw \<Longrightarrow> pointer_ok fw tlv \<Longrightarrow> in_memory (tlv_advance fw tlv n)"
  unfolding tlv_advance_def
  by (intro in_memory_bind foreach_in_memory) (auto split: sum.splits)

lemma advance_pointer_ok:
  assumes "tlv_advance fw tlv n = ret t" and "pointer_ok fw tlv"
  shows "pointer_ok fw t"
proof -
  obtain b where b: "tlv_foreach fw 65536 n (\<lambda>tlv s. ret (if tlv = None then Inl None else Inr s)) 0 tlv ()
      = ret b" and t: "(case b of Inl r \<Rightarrow> ret r | Inr (tlv, s) \<Rightarrow> ret tlv) = ret t"
    using assms(1) by (auto simp: tlv_advance_def run_bind_ret)
  have "tlv_foreach fw 65536 n (\<lambda>tlv s. ret (if tlv = None then Inl None else Inr s)) 0 tlv ()
      = Some y \<Longrightarrow> \<forall>r. y = Inr (Inl r) \<longrightarrow> r = None" for y
    by (induction rule: foreach_induct) (auto split: if_splits)
  then have "r = None" if "b = Inl r" for r using b that by (auto simp: ret_def)
  then show ?thesis using t foreach_pointer_ok [OF _ assms(2)] b
    by (cases b) (auto split: prod.splits)
qed

section \<open>The functions over the children\<close>

lemma multi_foreach_in_memory:
  assumes "memory_ok fw" and "multi_ok fw multi"
    and "\<And>tlv s. pointer_ok fw tlv \<Longrightarrow> in_memory (body tlv s)"
  shows "in_memory (multi_foreach fw multi body s)"
  unfolding multi_foreach_def multi_child_def
  using assms multi_fields_in_memory by (auto intro!: in_memory_bind foreach_in_memory)

lemma find_in_memory:
  "memory_ok fw \<Longrightarrow> multi_ok fw multi \<Longrightarrow> in_memory (multi_child_find fw multi type i)"
  unfolding multi_child_find_def
  by (auto intro!: in_memory_bind multi_foreach_in_memory type_in_memory
      simp: find_body_def split: option.splits sum.splits)

lemma count_in_memory:
  "memory_ok fw \<Longrightarrow> multi_ok fw multi \<Longrightarrow> in_memory (multi_child_count fw multi type)"
  unfolding multi_child_count_def
  by (auto intro!: in_memory_bind multi_foreach_in_memory type_in_memory
      simp: count_body_def split: option.splits sum.splits)

lemma validate_in_memory:
  "memory_ok fw \<Longrightarrow> multi_ok fw multi \<Longrightarrow> in_memory (multi_validate fw multi)"
  unfolding multi_validate_def
  by (auto intro!: in_memory_bind multi_foreach_in_memory simp: validate_body_def split: sum.splits)

text \<open>A child that is found is a TLV of its type.\<close>

lemma find_result:
  assumes "multi_child_find fw multi type i = ret (Some p)"
  shows "header_ok fw p \<and> tlv_type fw p = ret type"
proof -
  obtain n b where b: "tlv_foreach fw 65536 (n + 1) (find_body fw type i) 0 (multi_child fw multi) 0 = ret b"
    and r: "(case b of Inl r \<Rightarrow> ret r | Inr s \<Rightarrow> ret None) = ret (Some p)"
    using assms by (auto simp: multi_child_find_def multi_foreach_def run_bind_ret)
  have "tlv_foreach fw 65536 (n + 1) (find_body fw type i) 0 (multi_child fw multi) 0 = Some y \<Longrightarrow>
      pointer_ok fw (multi_child fw multi) \<Longrightarrow>
      \<forall>p. y = Inr (Inl (Some p)) \<longrightarrow> header_ok fw p \<and> tlv_type fw p = ret type" for y
  proof (induction rule: foreach_induct)
    case (return idx tlv s r)
    then show ?case by (auto simp: find_body_def run_bind_ret split: option.splits if_splits)
  next
    case (step idx tlv s s' tlv' y)
    then show ?case using next_pointer_ok by blast
  qed simp_all
  moreover have "b = Inl (Some p)" using r by (auto split: sum.splits)
  ultimately show ?thesis using b by (simp add: ret_def multi_child_def)
qed

lemma cptr_loop_in_memory:
  "memory_ok fw \<Longrightarrow> multi_ok fw multi \<Longrightarrow> in_memory (cptr_loop fw multi n i)"
proof (induction n arbitrary: i)
  case (Suc n)
  then show ?case
    using find_result
    by (auto intro!: in_memory_bind find_in_memory payload_in_memory simp: component_ptr_get_def
        split: option.splits)
qed simp

lemma dev_validate_in_memory: "memory_ok fw \<Longrightarrow> header_ok fw p \<Longrightarrow> in_memory (dev_validate fw p)"
  unfolding dev_validate_def
  using multi_get_ok find_result
  by (auto intro!: in_memory_bind multi_in_memory validate_in_memory find_in_memory count_in_memory
      payload_in_memory cptr_loop_in_memory simp: psid_get_def split: option.splits sum.splits)

lemma child_header_ok: "multi_child fw multi = Some p \<Longrightarrow> header_ok fw p"
  using tlv_get_ok [of fw "multi + int (NLA_ALIGN 4)"] by (simp add: multi_child_def)

lemma comp_validate_in_memory: "memory_ok fw \<Longrightarrow> header_ok fw p \<Longrightarrow> in_memory (comp_validate fw p)"
  unfolding comp_validate_def
  using multi_get_ok child_header_ok
  by (auto intro!: in_memory_bind multi_in_memory validate_in_memory payload_in_memory
      simp: component_descriptor_get_def split: option.splits)

lemma file_validate_in_memory:
  "memory_ok (mfa2_fw file) \<Longrightarrow> pointer_ok (mfa2_fw file) (first_dev file) \<Longrightarrow>
     pointer_ok (mfa2_fw file) (first_component file) \<Longrightarrow> in_memory (file_validate file)"
  unfolding file_validate_def
  by (auto intro!: in_memory_bind foreach_in_memory dev_validate_in_memory comp_validate_in_memory
      simp: each_body_def split: option.splits sum.splits)

text \<open>The file that the parser returns points to headers in the file.\<close>

definition file_ok :: "mfa2_file \<Rightarrow> bool" where
  "file_ok file \<longleftrightarrow> pointer_ok (mfa2_fw file) (first_dev file)
     \<and> pointer_ok (mfa2_fw file) (first_component file) \<and> 0 < cb file
     \<and> cb file < int (fw_size (mfa2_fw file))
     \<and> cb file + int (cb_archive_size file) \<le> int (fw_size (mfa2_fw file))"

lemma package_fields_in_memory:
  assumes "memory_ok fw" and "package_descriptor_get fw p = ret (Some pd)"
  shows "in_memory (be16 fw pd)" "in_memory (be16 fw (pd + 2))" "in_memory (be32 fw (pd + 4))"
    "in_memory (be32 fw (pd + 8))"
proof -
  have "pd = p + 4" "0 < p" "p + 28 \<le> int (fw_size fw)"
    using assms(2) unfolding package_descriptor_get_def by (auto elim!: payload_bounds)
  then show "in_memory (be16 fw pd)" "in_memory (be16 fw (pd + 2))" "in_memory (be32 fw (pd + 4))"
    "in_memory (be32 fw (pd + 8))"
    using assms(1) by (auto intro!: be16_in_memory be32_in_memory)
qed

lemma file_init_in_memory:
  assumes mem: "memory_ok fw"
  shows "in_memory (file_init ok fw)"
proof -
  have first: "header_ok fw p" if "tlv_get fw q = Some p" for p q
    using tlv_get_ok [of fw q] that by simp
  have nx: "header_ok fw y" if "tlv_next fw t = ret (Some y)" for t y
    using next_pointer_ok [OF that] by simp
  have adv: "pointer_ok fw t" if "tlv_advance fw (Some y) n = ret t" and "header_ok fw y" for y n t
    using advance_pointer_ok [OF that(1)] that(2) by simp
  note facts = nx adv first multi_get_ok child_header_ok package_fields_in_memory [OF mem]
  show ?thesis
    unfolding file_init_def Let_def
    using mem facts
    by (auto intro!: in_memory_bind multi_in_memory payload_in_memory next_in_memory advance_in_memory
        file_validate_in_memory simp: package_descriptor_get_def split: option.splits)
qed

text \<open>What the parser did when it returned a file.\<close>

lemma file_init_parts:
  assumes "file_init ok fw = ret (Inr file)"
  shows "\<exists>t pd dev comp n m cb_ptr sz. file = \<lparr>mfa2_fw = fw, first_dev = dev, dev_count = n,
      first_component = comp, component_count = m, cb = cb_ptr, cb_archive_size = sz\<rparr>
    \<and> tlv_next fw t = ret dev \<and> tlv_advance fw dev n = ret comp
    \<and> valid_ptr fw cb_ptr \<and> valid_ptr fw (cb_ptr + int sz - 1)
    \<and> be16 fw (pd + 2) = ret n \<and> be16 fw pd = ret m \<and> file_validate file = ret True"
  using assms
  unfolding file_init_def
  by (auto simp: Let_def elim!: run_bind_retE split: if_split_asm option.split_asm)
    ((rule exI, assumption) | (rule exI, rule conjI, assumption+))+

lemma file_init_file:
  assumes "file_init ok fw = ret (Inr file)"
  shows "mfa2_fw file = fw" and "file_ok file"
proof -
  obtain t dev comp cb_ptr n m sz where f: "file = \<lparr>mfa2_fw = fw, first_dev = dev, dev_count = n,
      first_component = comp, component_count = m, cb = cb_ptr, cb_archive_size = sz\<rparr>"
    and dev: "tlv_next fw t = ret dev" and comp: "tlv_advance fw dev n = ret comp"
    and ptr: "valid_ptr fw cb_ptr" "valid_ptr fw (cb_ptr + int sz - 1)"
    using file_init_parts [OF assms] by blast
  show "mfa2_fw file = fw" by (simp add: f)
  have "pointer_ok fw dev" using dev next_pointer_ok by blast
  moreover from comp this have "pointer_ok fw comp" by (rule advance_pointer_ok)
  ultimately show "file_ok file" using ptr by (simp add: f file_ok_def valid_ptr_def)
qed

lemma bytes_equal_in_memory:
  "memory_ok fw \<Longrightarrow> 0 \<le> p \<Longrightarrow> p + int (length bs) \<le> int (fw_size fw) + 4 \<Longrightarrow>
     in_memory (fw_bytes_equal fw p bs)"
  by (auto simp: fw_bytes_equal_def memory_ok_def)

lemma dev_body_in_memory:
  assumes mem: "memory_ok fw" and tlv: "pointer_ok fw tlv"
  shows "in_memory (dev_body fw psid n tlv s)"
proof -
  have compare: "in_memory (fw_bytes_equal fw m (take n psid))"
    if "psid_get fw p = ret (Some m)" and "tlv_len fw p = ret n" for p m
  proof -
    have "m = p + 4 \<and> 0 < p \<and> p + int n \<le> int (fw_size fw)"
      using that unfolding psid_get_def by (auto elim!: payload_bounds)
    then show ?thesis using mem by (intro bytes_equal_in_memory) auto
  qed
  show ?thesis
    unfolding dev_body_def using mem tlv multi_get_ok find_result compare
    by (auto intro!: in_memory_bind multi_in_memory find_in_memory len_in_memory payload_in_memory
        simp: psid_get_def split: option.splits)
qed

lemma dev_get_in_memory:
  "memory_ok (mfa2_fw file) \<Longrightarrow> file_ok file \<Longrightarrow> in_memory (dev_get file psid n)"
  unfolding dev_get_def
  by (auto intro!: in_memory_bind foreach_in_memory dev_body_in_memory simp: file_ok_def split: sum.splits)

lemma dev_get_multi_ok:
  assumes "dev_get file psid n = ret (Some multi)"
  shows "multi_ok (mfa2_fw file) multi"
proof -
  let ?fw = "mfa2_fw file"
  obtain b where b: "tlv_foreach ?fw (2 ^ 32) (dev_count file) (dev_body ?fw psid n) 0 (first_dev file) ()
      = ret b" and r: "(case b of Inl r \<Rightarrow> ret r | Inr s \<Rightarrow> ret None) = ret (Some multi)"
    using assms by (auto simp: dev_get_def run_bind_ret)
  have "tlv_foreach ?fw (2 ^ 32) (dev_count file) (dev_body ?fw psid n) 0 (first_dev file) () = Some y \<Longrightarrow>
      \<forall>m. y = Inr (Inl (Some m)) \<longrightarrow> multi_ok ?fw m" for y
  proof (induction rule: foreach_induct)
    case (return idx tlv s r)
    then show ?case
      by (auto simp: dev_body_def run_bind_ret multi_get_ok split: option.splits if_splits)
  qed simp_all
  moreover have "b = Inl (Some multi)" using r by (auto split: sum.splits)
  ultimately show ?thesis using b by (simp add: ret_def)
qed

lemma component_count_in_memory:
  "memory_ok (mfa2_fw file) \<Longrightarrow> file_ok file \<Longrightarrow> in_memory (file_component_count file psid n)"
  unfolding file_component_count_def
  using dev_get_multi_ok
  by (auto intro!: in_memory_bind dev_get_in_memory count_in_memory split: option.splits)

lemma component_tlv_in_memory:
  assumes mem: "memory_ok (mfa2_fw file)" and fok: "file_ok file"
  shows "in_memory (component_tlv_get file i)"
proof -
  have adv: "header_ok (mfa2_fw file) p"
    if "tlv_advance (mfa2_fw file) (first_component file) i = ret (Some p)" for p
    using advance_pointer_ok [OF that] fok by (simp add: file_ok_def)
  show ?thesis
    unfolding component_tlv_get_def using assms adv child_header_ok
    by (auto intro!: in_memory_bind advance_in_memory multi_in_memory payload_in_memory
        simp: component_descriptor_get_def file_ok_def split: option.splits)
qed

lemma component_find_in_memory:
  assumes mem: "memory_ok (mfa2_fw file)" and fok: "file_ok file"
  shows "in_memory (component_find file psid n i)"
proof -
  have index: "in_memory (be16 (mfa2_fw file) (c + 2))"
    if "component_ptr_get (mfa2_fw file) p = ret (Some c)" for p c
  proof -
    have "c = p + 4 \<and> 0 < p \<and> p + 8 \<le> int (fw_size (mfa2_fw file))"
      using that unfolding component_ptr_get_def by (auto elim!: payload_bounds)
    then show ?thesis using mem by (intro be16_in_memory) auto
  qed
  show ?thesis
    unfolding component_find_def using assms dev_get_multi_ok find_result index
    by (auto intro!: in_memory_bind dev_get_in_memory find_in_memory payload_in_memory
        component_tlv_in_memory simp: component_ptr_get_def split: option.splits)
qed

section \<open>Termination\<close>

definition run_returns :: "'a run \<Rightarrow> bool" where
  "run_returns m \<longleftrightarrow> m \<noteq> None"

lemma returns_simps [simp]: "run_returns (ret x)" "run_returns (crash e)" "\<not> run_returns None"
  by (simp_all add: run_returns_def)

lemma returns_bind:
  "run_returns m \<Longrightarrow> (\<And>x. m = ret x \<Longrightarrow> run_returns (f x)) \<Longrightarrow> run_returns (run_bind m f)"
  by (cases m rule: run_cases) auto

lemma fields_return [simp]:
  "run_returns (rd8 fw p)" "run_returns (be16 fw p)" "run_returns (be32 fw p)"
  "run_returns (tlv_len fw p)" "run_returns (tlv_type fw p)" "run_returns (total_len fw p)"
  "run_returns (num_extensions fw p)" "run_returns (payload_get fw p t n v)" "run_returns (multi_get fw p)"
proof -
  show rd: "run_returns (rd8 fw p)" for p by (simp add: rd8_def)
  show be: "run_returns (be16 fw p)" for p unfolding be16_def by (intro returns_bind rd returns_simps)
  show "run_returns (be32 fw p)" unfolding be32_def by (intro returns_bind be returns_simps)
  show len: "run_returns (tlv_len fw p)" and ty: "run_returns (tlv_type fw p)"
    and "run_returns (total_len fw p)" "run_returns (num_extensions fw p)" for p
    by (simp_all add: tlv_len_def tlv_type_def total_len_def num_extensions_def be rd)
  show pay: "run_returns (payload_get fw p t n v)" for t n v
    unfolding payload_get_def by (auto simp: Let_def intro!: returns_bind len ty)
  show "run_returns (multi_get fw p)" unfolding multi_get_def by (rule pay)
qed

lemma next_returns [simp]: "run_returns (tlv_next fw tlv)"
  by (auto simp: tlv_next_def Let_def intro!: returns_bind split: option.splits)

text \<open>A loop whose count fits its counter returns.\<close>

lemma foreach_returns:
  assumes "count < wrap" and "\<And>tlv s. run_returns (body tlv s)"
  shows "idx \<le> count \<Longrightarrow> run_returns (tlv_foreach fw wrap count body idx tlv s)"
proof (induction "count - idx" arbitrary: idx tlv s)
  case 0
  then show ?case by (subst tlv_foreach.simps) simp
next
  case (Suc n)
  then have m: "(idx + 1) mod wrap = idx + 1" using assms(1) by simp
  have "run_returns (tlv_foreach fw wrap count body (idx + 1) tlv' s')" for tlv' s'
    using Suc by simp
  then show ?case
    using assms(2) m by (subst tlv_foreach.simps) (auto intro!: returns_bind split: sum.splits)
qed

text \<open>A TLV that is its own successor keeps a loop with 65536 rounds going for ever.\<close>

lemma foreach_hangs:
  assumes count: "wrap \<le> count" and pos: "0 < wrap" and self: "tlv_next fw tlv = ret tlv"
    and body: "\<And>s. \<exists>s'. body tlv s = ret (Inr s')" and idx: "idx < count"
  shows "tlv_foreach fw wrap count body idx tlv s = None"
proof -
  have "tlv_foreach fw wrap count body idx t s = Some y \<Longrightarrow> t = tlv \<longrightarrow> idx < count \<longrightarrow> False"
    for idx t s y
  proof (induction rule: foreach_induct)
    case (body_crash idx t s e)
    then show ?case using body [of s] by auto
  next
    case (return idx t s r)
    then show ?case using body [of s] by auto
  next
    case (step idx t s s' t' y)
    have "(idx + 1) mod wrap < count"
      by (rule less_le_trans [OF mod_less_divisor [OF pos] count])
    then show ?case using step self by auto
  qed (use self in auto)
  then show ?thesis using idx by (cases "tlv_foreach fw wrap count body idx tlv s") auto
qed

section \<open>The children as a list\<close>

text \<open>The walk of \<open>n\<close> TLVs from a first one, when all are there.\<close>

fun walk :: "mfa2_fw \<Rightarrow> nat \<Rightarrow> int option \<Rightarrow> int list option" where
  "walk fw 0 tlv = Some []"
| "walk fw (Suc n) tlv = (case tlv of
     None \<Rightarrow> None
   | Some p \<Rightarrow> (case tlv_next fw tlv of
       Some (Inr tlv') \<Rightarrow> map_option (\<lambda>ps. p # ps) (walk fw n tlv')
     | _ \<Rightarrow> None))"

fun behind :: "mfa2_fw \<Rightarrow> nat \<Rightarrow> int option \<Rightarrow> int option" where
  "behind fw 0 tlv = tlv"
| "behind fw (Suc n) tlv = (case tlv_next fw tlv of Some (Inr tlv') \<Rightarrow> behind fw n tlv' | _ \<Rightarrow> None)"

fun list_loop :: "('a \<Rightarrow> 's \<Rightarrow> 'r + 's) \<Rightarrow> 'a list \<Rightarrow> 's \<Rightarrow> 'r + 's" where
  "list_loop f [] s = Inr s"
| "list_loop f (p # ps) s = (case f p s of Inl r \<Rightarrow> Inl r | Inr s' \<Rightarrow> list_loop f ps s')"

lemma walk_Suc: "walk fw (Suc n) tlv = Some ps \<longleftrightarrow>
    (\<exists>p t ps'. tlv = Some p \<and> tlv_next fw tlv = ret t \<and> walk fw n t = Some ps' \<and> ps = p # ps')"
  by (auto simp: ret_def split: option.splits sum.splits)

declare walk.simps(2) [simp del]

lemma walk_length: "walk fw n tlv = Some ps \<Longrightarrow> length ps = n"
  by (induction n arbitrary: tlv ps) (auto simp: walk_Suc)

lemma walk_header_ok: "walk fw n tlv = Some ps \<Longrightarrow> pointer_ok fw tlv \<Longrightarrow> p \<in> set ps \<Longrightarrow> header_ok fw p"
proof (induction n arbitrary: tlv ps)
  case (Suc n)
  then show ?case using next_pointer_ok by (fastforce simp: walk_Suc)
qed simp

text \<open>A loop over a walk is the loop over the list.\<close>

lemma foreach_walk:
  assumes "walk fw n tlv = Some ps" and "count < wrap" and "idx + n = count"
    and "\<forall>p\<in>set ps. \<forall>s. body (Some p) s = ret (f p s)"
  shows "tlv_foreach fw wrap count body idx tlv s
    = ret (case list_loop f ps s of Inl r \<Rightarrow> Inl r | Inr s' \<Rightarrow> Inr (behind fw n tlv, s'))"
  using assms
proof (induction n arbitrary: idx tlv ps s)
  case 0
  then show ?case by (subst tlv_foreach.simps) simp
next
  case (Suc n)
  then obtain p t ps' where w: "tlv = Some p" "tlv_next fw tlv = ret t" "walk fw n t = Some ps'" "ps = p # ps'"
    by (auto simp: walk_Suc)
  have m: "(idx + 1) mod wrap = idx + 1" using Suc.prems by simp
  have b: "body tlv s = ret (f p s)" using Suc.prems(4) w by simp
  have beh: "behind fw (Suc n) tlv = behind fw n t" using w by (simp add: ret_def)
  have "tlv_foreach fw wrap count body (idx + 1) t s'
    = ret (case list_loop f ps' s' of Inl r \<Rightarrow> Inl r | Inr s' \<Rightarrow> Inr (behind fw n t, s'))" for s'
    using Suc w by simp
  then show ?case
    using Suc.prems(3) b w m beh
    by (subst tlv_foreach.simps) (auto simp del: behind.simps split: sum.splits)
qed

text \<open>A loop that goes on over every TLV and ends has a walk.\<close>

lemma foreach_has_walk:
  assumes run: "tlv_foreach fw wrap count body idx tlv s = ret (Inr (t, s'))" and "count < wrap"
    and idx: "idx \<le> count" and null: "\<And>s s'. body None s \<noteq> ret (Inr s')"
  shows "\<exists>ps. walk fw (count - idx) tlv = Some ps
    \<and> (\<forall>p\<in>set ps. \<exists>s s'. body (Some p) s = ret (Inr s'))"
proof -
  have "tlv_foreach fw wrap count body idx tlv s = Some y \<Longrightarrow> idx \<le> count \<longrightarrow> (\<forall>t s'. y = Inr (Inr (t, s')) \<longrightarrow>
      (\<exists>ps. walk fw (count - idx) tlv = Some ps \<and> (\<forall>p\<in>set ps. \<exists>s s'. body (Some p) s = ret (Inr s'))))" for y
  proof (induction rule: foreach_induct)
    case (step idx tlv s s' tlv' y)
    show ?case
    proof (intro impI allI)
      fix t s2 assume le: "idx \<le> count" and y: "y = Inr (Inr (t, s2))"
      have "(idx + 1) mod wrap = idx + 1" using step(1) assms(2) by simp
      then obtain ps where ps: "walk fw (count - (idx + 1)) tlv' = Some ps"
        "\<forall>p\<in>set ps. \<exists>s s'. body (Some p) s = ret (Inr s')" using step y by auto
      obtain p where p: "tlv = Some p" using step(2) null by (cases tlv) auto
      have "count - idx = Suc (count - (idx + 1))" using step(1) by simp
      then show "\<exists>ps. walk fw (count - idx) tlv = Some ps
          \<and> (\<forall>p\<in>set ps. \<exists>s s'. body (Some p) s = ret (Inr s'))"
        using ps p step(2,3) by (intro exI [of _ "p # ps"]) (auto simp: walk_Suc)
    qed
  qed simp_all
  then show ?thesis using run idx by (simp add: ret_def)
qed

section \<open>Lookups among the children\<close>

definition of_type :: "mfa2_fw \<Rightarrow> nat \<Rightarrow> int \<Rightarrow> bool" where
  "of_type fw ty p \<longleftrightarrow> tlv_type fw p = ret ty"

text \<open>The children of a multi-part TLV, when all can be walked.\<close>

definition children :: "mfa2_fw \<Rightarrow> int \<Rightarrow> int list option" where
  "children fw multi = (case num_extensions fw multi of
     Some (Inr n) \<Rightarrow> if n < 65535 then walk fw (n + 1) (multi_child fw multi) else None
   | _ \<Rightarrow> None)"

lemma children_walk:
  "children fw multi = Some ps \<longleftrightarrow> (\<exists>n<65535. num_extensions fw multi = ret n
     \<and> walk fw (n + 1) (multi_child fw multi) = Some ps)"
  by (auto simp: children_def ret_def split: option.splits sum.splits)

lemma children_header_ok: "children fw multi = Some ps \<Longrightarrow> p \<in> set ps \<Longrightarrow> header_ok fw p"
  using walk_header_ok by (fastforce simp: children_walk multi_child_def)

lemma children_length: "children fw multi = Some ps \<Longrightarrow> 0 < length ps \<and> length ps \<le> 65535"
  using walk_length by (fastforce simp: children_walk)

text \<open>The type of a header in the file can be read.\<close>

lemma rd8_value: "0 \<le> p \<Longrightarrow> p < int (length (fw_data fw)) \<Longrightarrow> rd8 fw p = ret (unat (fw_data fw ! nat p))"
  by (simp add: rd8_def)

lemma be16_value:
  "memory_ok fw \<Longrightarrow> 0 \<le> p \<Longrightarrow> p + 1 < int (fw_size fw) + 4 \<Longrightarrow> \<exists>n. be16 fw p = ret n"
  by (auto simp: be16_def rd8_value memory_ok_def)

lemma be16_range:
  assumes "be16 fw p = ret n"
  shows "n < 65536"
proof -
  have b: "unat (w :: u8) < 256" for w using unsigned_less [of w] by simp
  have "n = unat (fw_data fw ! nat p) * 256 + unat (fw_data fw ! nat (p + 1))"
    using assms by (auto simp: be16_def rd8_def run_bind_ret split: if_splits)
  then show ?thesis using b [of "fw_data fw ! nat p"] b [of "fw_data fw ! nat (p + 1)"] by linarith
qed

lemma header_values:
  "memory_ok fw \<Longrightarrow> header_ok fw p \<Longrightarrow> (\<exists>ty. tlv_type fw p = ret ty) \<and> (\<exists>n. tlv_len fw p = ret n)"
  using be16_value [of fw "p + 2"]
  by (auto simp: tlv_type_def tlv_len_def rd8_value memory_ok_def header_ok_def)

lemma multi_foreach_children:
  assumes "children fw multi = Some ps" and "\<forall>p\<in>set ps. \<forall>s. body (Some p) s = ret (f p s)"
  shows "\<exists>t. multi_foreach fw multi body s = ret (case list_loop f ps s of Inl r \<Rightarrow> Inl r | Inr s' \<Rightarrow> Inr (t, s'))"
proof -
  obtain n where "n < 65535" "num_extensions fw multi = ret n" "walk fw (n + 1) (multi_child fw multi) = Some ps"
    using assms(1) children_walk by blast
  then show ?thesis
    using foreach_walk [of fw "n + 1" "multi_child fw multi" ps "n + 1" 65536 0 body f s] assms(2)
    by (auto simp: multi_foreach_def)
qed

lemma find_loop:
  "skip + length ps < 65536 \<Longrightarrow> skip \<le> i \<Longrightarrow>
   list_loop (\<lambda>p skip. if of_type fw ty p
       then (if skip = i then Inl (Some p) else Inr ((skip + 1) mod 65536)) else Inr skip) ps skip
   = (let qs = filter (of_type fw ty) ps in
      if i - skip < length qs then Inl (Some (qs ! (i - skip))) else Inr (skip + length qs))"
proof (induction ps arbitrary: skip)
  case (Cons p ps)
  show ?case
  proof (cases "of_type fw ty p \<and> skip \<noteq> i")
    case True
    then have "i - skip = Suc (i - (skip + 1))"
      using Cons.prems(2) conjunct2 [OF True] by arith
    then show ?thesis using True Cons.IH [of "skip + 1"] Cons.prems by (simp add: Let_def)
  next
    case False
    then show ?thesis using Cons.IH [of skip] Cons.prems by (auto simp: Let_def)
  qed
qed simp

lemma find_children:
  assumes mem: "memory_ok fw" and ps: "children fw multi = Some ps"
  shows "multi_child_find fw multi ty i = ret (let qs = filter (of_type fw ty) ps in
    if i < length qs then Some (qs ! i) else None)"
proof -
  let ?f = "\<lambda>p skip. if of_type fw ty p
    then (if skip = i then Inl (Some p) else Inr ((skip + 1) mod 65536)) else Inr skip"
  have "\<forall>p\<in>set ps. \<forall>s. find_body fw ty i (Some p) s = ret (?f p s)"
    using header_values [OF mem] children_header_ok [OF ps] by (fastforce simp: find_body_def of_type_def)
  from multi_foreach_children [OF ps this, of 0] find_loop [of 0 ps i fw ty] children_length [OF ps]
  show ?thesis by (auto simp: multi_child_find_def Let_def)
qed

lemma count_loop:
  "n + length ps < 65536 \<Longrightarrow>
   list_loop (\<lambda>p n. Inr (if of_type fw ty p then (n + 1) mod 65536 else n) :: unit + nat) ps n
   = Inr (n + length (filter (of_type fw ty) ps))"
  by (induction ps arbitrary: n) auto

lemma count_children:
  assumes mem: "memory_ok fw" and ps: "children fw multi = Some ps"
  shows "multi_child_count fw multi ty = ret (Inr (length (filter (of_type fw ty) ps)))"
proof -
  let ?f = "\<lambda>p n. Inr (if of_type fw ty p then (n + 1) mod 65536 else n) :: unit + nat"
  have "\<forall>p\<in>set ps. \<forall>s. count_body fw ty (Some p) s = ret (?f p s)"
    using header_values [OF mem] children_header_ok [OF ps] by (fastforce simp: count_body_def of_type_def)
  from multi_foreach_children [OF ps this, of 0] count_loop [of 0 ps fw ty] children_length [OF ps]
  show ?thesis by (auto simp: multi_child_count_def)
qed

lemma loop_goes_on [simp]: "list_loop (\<lambda>p. Inr) ps s = Inr s"
  by (induction ps arbitrary: s) auto

lemma validate_children:
  assumes mem: "memory_ok fw" and multi: "multi_ok fw multi"
  shows "multi_validate fw multi = ret True \<longleftrightarrow> children fw multi \<noteq> None"
proof
  assume "children fw multi \<noteq> None"
  then obtain ps where ps: "children fw multi = Some ps" by blast
  have "\<forall>p\<in>set ps. \<forall>s. validate_body (Some p) s = ret (Inr () :: unit + unit)"
    by (simp add: validate_body_def)
  then show "multi_validate fw multi = ret True"
    using multi_foreach_children [OF ps, of validate_body "\<lambda>p s. Inr ()" "()"]
    by (auto simp: multi_validate_def)
next
  assume v: "multi_validate fw multi = ret True"
  obtain b where b: "multi_foreach fw multi validate_body () = ret b"
    and r: "(case b of Inl r \<Rightarrow> ret False | Inr s \<Rightarrow> ret True) = ret True"
    using v unfolding multi_validate_def run_bind_ret by blast
  obtain t where t: "b = Inr (t, ())" using r by (cases b) auto
  obtain n where n: "num_extensions fw multi = ret n"
    and run: "tlv_foreach fw 65536 (n + 1) validate_body 0 (multi_child fw multi) () = ret (Inr (t, ()))"
    using b unfolding multi_foreach_def run_bind_ret t by blast
  have "n < 65536" using n be16_range by (simp add: num_extensions_def)
  have "n \<noteq> 65535"
  proof
    assume "n = 65535"
    have "tlv_foreach fw 65536 65536 validate_body idx tlv s = Some y \<Longrightarrow>
      idx < 65536 \<longrightarrow> (\<forall>t. y \<noteq> Inr (Inr t))" for idx tlv s y
      by (induction rule: foreach_induct) auto
    from this [of 0 "multi_child fw multi" "()" "Inr (Inr (t, ()))"] show False
      using run \<open>n = 65535\<close> by (simp add: ret_def)
  qed
  then have lt: "n + 1 < 65536" using \<open>n < 65536\<close> by simp
  have "\<exists>ps. walk fw (n + 1) (multi_child fw multi) = Some ps"
    using foreach_has_walk [OF run lt] by (auto simp: validate_body_def)
  then show "children fw multi \<noteq> None" using n lt by (auto simp: children_def ret_def)
qed

end
