(* ===== verification/Mfa2Properties.thy ===== *)
theory Mfa2Properties
  imports Mfa2Facts
begin

text \<open>
  What a validated firmware package guarantees: the walks over its devices, components and their
  children succeed, so the lookups that follow neither crash nor loop, and they find the device with the
  given PSID. And the packages that crash the parser or keep it busy for ever.
\<close>

section \<open>What validation establishes\<close>

definition device_ok :: "mfa2_fw \<Rightarrow> int \<Rightarrow> bool" where
  "device_ok fw d \<longleftrightarrow> (\<exists>m ps p c. multi_get fw d = ret (Some m) \<and> children fw m = Some ps
     \<and> filter (of_type fw PSID) ps \<noteq> [] \<and> p = hd (filter (of_type fw PSID) ps)
     \<and> psid_get fw p = ret (Some c))"

lemma payload_total:
  "memory_ok fw \<Longrightarrow> header_ok fw p \<Longrightarrow> \<exists>r. payload_get fw p t n v = ret r"
  using header_values [of fw p] by (auto simp: payload_get_def Let_def)

lemma multi_total: "memory_ok fw \<Longrightarrow> header_ok fw p \<Longrightarrow> \<exists>r. multi_get fw p = ret r"
  unfolding multi_get_def by (rule payload_total)

lemma dev_validate_ok:
  assumes mem: "memory_ok fw" and v: "dev_validate fw d = ret True"
  shows "device_ok fw d"
proof -
  obtain m where m: "multi_get fw d = ret (Some m)" and valid: "multi_validate fw m = ret True"
    and rest: "\<exists>p c. multi_child_find fw m PSID 0 = ret (Some p) \<and> psid_get fw p = ret (Some c)"
    using v by (auto simp: dev_validate_def run_bind_ret split: option.splits if_splits)
  obtain ps where ps: "children fw m = Some ps"
    using validate_children [OF mem multi_get_ok [OF m]] valid by auto
  from rest find_children [OF mem ps, of PSID 0]
  have "filter (of_type fw PSID) ps \<noteq> []"
    and "\<exists>c. psid_get fw (hd (filter (of_type fw PSID) ps)) = ret (Some c)"
    by (auto simp: Let_def hd_conv_nth split: if_splits)
  then show ?thesis using m ps unfolding device_ok_def by blast
qed

definition validated :: "mfa2_file \<Rightarrow> int list \<Rightarrow> int list \<Rightarrow> bool" where
  "validated file ds cs \<longleftrightarrow> walk (mfa2_fw file) (dev_count file) (first_dev file) = Some ds
     \<and> walk (mfa2_fw file) (component_count file) (first_component file) = Some cs
     \<and> dev_count file < 65536 \<and> component_count file < 65536
     \<and> (\<forall>d\<in>set ds. device_ok (mfa2_fw file) d)"

lemma each_body_goes_on:
  "each_body check fw None s \<noteq> ret (Inr s')"
  "each_body check fw (Some p) s = ret (Inr s') \<Longrightarrow> check fw p = ret True"
  by (auto simp: each_body_def run_bind_ret split: if_splits)

lemma file_init_validated:
  assumes mem: "memory_ok fw" and init: "file_init ok fw = ret (Inr file)"
  shows "\<exists>ds cs. validated file ds cs"
proof -
  have fw: "mfa2_fw file = fw" by (rule file_init_file(1) [OF init])
  have v: "file_validate file = ret True" and n: "\<exists>p. be16 fw p = ret (dev_count file)"
    and m: "\<exists>p. be16 fw p = ret (component_count file)"
    using file_init_parts [OF init] by auto
  have counts: "dev_count file < 65536" "component_count file < 65536" using n m be16_range by blast+
  obtain t s u r where d: "tlv_foreach fw 65536 (dev_count file) (each_body dev_validate fw) 0 (first_dev file) ()
      = ret (Inr (t, s))"
    and c: "tlv_foreach fw 65536 (component_count file) (each_body comp_validate fw) 0 (first_component file) ()
      = ret (Inr (u, r))"
    using v unfolding file_validate_def fw by (auto elim!: run_bind_retE split: sum.split_asm)
  obtain ds where ds: "walk fw (dev_count file) (first_dev file) = Some ds"
    "\<forall>p\<in>set ds. \<exists>s s'. each_body dev_validate fw (Some p) s = ret (Inr s')"
    using foreach_has_walk [OF d counts(1)] each_body_goes_on(1) by auto
  obtain cs where cs: "walk fw (component_count file) (first_component file) = Some cs"
    using foreach_has_walk [OF c counts(2)] each_body_goes_on(1) by auto
  have "\<forall>d\<in>set ds. device_ok fw d" using ds(2) each_body_goes_on(2) dev_validate_ok [OF mem] by blast
  then show ?thesis using ds(1) cs counts fw unfolding validated_def by blast
qed

section \<open>Lookups in a validated package\<close>

text \<open>The PSID of a device: the payload of its first child of that type.\<close>

definition payload :: "mfa2_fw \<Rightarrow> int \<Rightarrow> u8 list" where
  "payload fw p = (case tlv_len fw p of
     Some (Inr len) \<Rightarrow> take len (drop (nat (p + 4)) (fw_data fw)) | _ \<Rightarrow> [])"

definition device_multi :: "mfa2_fw \<Rightarrow> int \<Rightarrow> int" where
  "device_multi fw d = (case multi_get fw d of Some (Inr (Some m)) \<Rightarrow> m | _ \<Rightarrow> 0)"

definition device_children :: "mfa2_fw \<Rightarrow> nat \<Rightarrow> int \<Rightarrow> int list" where
  "device_children fw ty d = filter (of_type fw ty) (the (children fw (device_multi fw d)))"

definition device_psid :: "mfa2_fw \<Rightarrow> int \<Rightarrow> u8 list" where
  "device_psid fw d = payload fw (hd (device_children fw PSID d))"

lemma device_facts:
  assumes "device_ok fw d"
  obtains ps c where "multi_get fw d = ret (Some (device_multi fw d))"
    and "children fw (device_multi fw d) = Some ps" and "device_children fw PSID d \<noteq> []"
    and "\<And>ty. device_children fw ty d = filter (of_type fw ty) ps"
    and "psid_get fw (hd (device_children fw PSID d)) = ret (Some c)"
  using assms that unfolding device_ok_def device_multi_def device_children_def
  by (auto simp: ret_def)

lemma psid_compare:
  assumes mem: "memory_ok fw" and get: "psid_get fw p = ret (Some c)" and len: "tlv_len fw p = ret (length psid)"
  shows "fw_bytes_equal fw c psid = ret (payload fw p = psid)"
proof -
  have "c = p + 4 \<and> 0 < p \<and> p + int (length psid) \<le> int (fw_size fw)"
    using get len unfolding psid_get_def by (auto elim!: payload_bounds)
  then show ?thesis using mem len
    by (auto simp: fw_bytes_equal_def payload_def memory_ok_def ret_def [of "length psid"])
qed

lemma payload_length:
  assumes mem: "memory_ok fw" and get: "psid_get fw p = ret (Some c)"
  shows "tlv_len fw p = ret (length (payload fw p))"
proof -
  obtain len where l: "tlv_len fw p = ret len" "0 < p" "p + int len \<le> int (fw_size fw)"
    using get unfolding psid_get_def by (auto elim!: payload_bounds)
  then have "length (payload fw p) = len" using mem by (auto simp: payload_def memory_ok_def ret_def)
  then show ?thesis using l by simp
qed

lemma dev_body_device:
  assumes mem: "memory_ok fw" and d: "device_ok fw d"
  shows "dev_body fw psid (length psid) (Some d) s
    = ret (if device_psid fw d = psid then Inl (Some (device_multi fw d)) else Inr ())"
proof -
  obtain ps c where m: "multi_get fw d = ret (Some (device_multi fw d))"
    and ps: "children fw (device_multi fw d) = Some ps" and ne: "device_children fw PSID d \<noteq> []"
    and qs: "device_children fw PSID d = filter (of_type fw PSID) ps"
    and psid_ok: "psid_get fw (hd (device_children fw PSID d)) = ret (Some c)"
    using device_facts [OF d] by metis
  define p where "p = hd (device_children fw PSID d)"
  have found: "multi_child_find fw (device_multi fw d) PSID 0 = ret (Some p)"
    using find_children [OF mem ps, of PSID 0] ne qs by (simp add: Let_def p_def hd_conv_nth)
  have get: "psid_get fw p = ret (Some c)" using psid_ok by (simp add: p_def)
  note len = payload_length [OF mem get]
  have "device_psid fw d = payload fw p" by (simp add: device_psid_def p_def)
  moreover have "fw_bytes_equal fw c psid = ret (payload fw p = psid)" if "length (payload fw p) = length psid"
    using psid_compare [OF mem get] len that by simp
  ultimately show ?thesis
    using m found get len by (auto simp: dev_body_def)
qed

lemma dev_get_find:
  assumes mem: "memory_ok (mfa2_fw file)" and v: "validated file ds cs"
  shows "dev_get file psid (length psid)
    = ret (map_option (device_multi (mfa2_fw file)) (find (\<lambda>d. device_psid (mfa2_fw file) d = psid) ds))"
proof -
  let ?fw = "mfa2_fw file"
  let ?f = "\<lambda>d s. if device_psid ?fw d = psid then Inl (Some (device_multi ?fw d)) else Inr ()"
  have w: "walk ?fw (dev_count file) (first_dev file) = Some ds" and n: "dev_count file < 2 ^ 32"
    and "\<forall>d\<in>set ds. device_ok ?fw d" using v by (simp_all add: validated_def)
  then have "\<forall>d\<in>set ds. \<forall>s. dev_body ?fw psid (length psid) (Some d) s = ret (?f d s)"
    using dev_body_device [OF mem] by simp
  note run = foreach_walk [OF w n _ this, of 0 "()"]
  have "list_loop ?f xs s = (case find (\<lambda>d. device_psid ?fw d = psid) xs of
      None \<Rightarrow> Inr s | Some d \<Rightarrow> Inl (Some (device_multi ?fw d)))" for xs s
    by (induction xs) auto
  from this [of ds "()"] run show ?thesis
    by (cases "find (\<lambda>d. device_psid ?fw d = psid) ds") (simp_all add: dev_get_def)
qed

lemma find_ok: "find P xs = Some x \<Longrightarrow> x \<in> set xs \<and> P x"
  by (auto simp: find_Some_iff)

lemma walk_prefix: "walk fw n tlv = Some ps \<Longrightarrow> i \<le> n \<Longrightarrow> walk fw i tlv = Some (take i ps)"
proof (induction n arbitrary: tlv ps i)
  case (Suc n)
  then obtain p t ps' where "tlv = Some p" "tlv_next fw tlv = ret t" "walk fw n t = Some ps'" "ps = p # ps'"
    by (auto simp: walk_Suc)
  with Suc show ?case by (cases i) (auto simp: walk_Suc)
qed simp

lemma advance_total:
  assumes "walk fw n tlv = Some ps" and "i \<le> n" and "n < 65536"
  shows "tlv_advance fw tlv i = ret (behind fw i tlv)"
proof -
  have w: "walk fw i tlv = Some (take i ps)" by (rule walk_prefix [OF assms(1,2)])
  show ?thesis
    using foreach_walk [OF w, of i 65536 0
        "\<lambda>tlv s. ret (if tlv = None then Inl None else Inr s) :: (int option + unit) run" "\<lambda>p. Inr" "()"]
      assms by (simp add: tlv_advance_def)
qed

lemma component_tlv_total:
  assumes mem: "memory_ok (mfa2_fw file)" and fok: "file_ok file" and v: "validated file ds cs"
  shows "\<exists>r. component_tlv_get file i = ret r"
proof (cases "component_count file < i")
  case True
  then show ?thesis by (simp add: component_tlv_get_def)
next
  case False
  let ?fw = "mfa2_fw file"
  have adv: "tlv_advance ?fw (first_component file) i = ret (behind ?fw i (first_component file))"
    using v False by (intro advance_total) (auto simp: validated_def)
  show ?thesis
  proof (cases "behind ?fw i (first_component file)")
    case None
    then show ?thesis using adv False by (simp add: component_tlv_get_def)
  next
    case (Some p)
    then have "header_ok ?fw p"
      using advance_pointer_ok [OF adv] fok by (simp add: file_ok_def)
    then obtain m where m: "multi_get ?fw p = ret m" using multi_total [OF mem] by blast
    have "\<exists>r. component_descriptor_get ?fw q = ret r" if "multi_child ?fw x = Some q" for x q
      unfolding component_descriptor_get_def by (rule payload_total [OF mem child_header_ok [OF that]])
    then show ?thesis using adv Some m False
      by (auto simp: component_tlv_get_def split: option.splits)
  qed
qed

lemma component_find_total:
  assumes mem: "memory_ok (mfa2_fw file)" and fok: "file_ok file" and v: "validated file ds cs"
    and small: "length psid < 65536"
  shows "\<exists>r. component_find file psid (length psid) i = ret r"
proof (cases "find (\<lambda>d. device_psid (mfa2_fw file) d = psid) ds")
  case None
  then show ?thesis using dev_get_find [OF mem v, of psid] small by (simp add: component_find_def)
next
  case (Some d)
  let ?fw = "mfa2_fw file"
  have "device_ok ?fw d" using v find_ok [OF Some] by (simp add: validated_def)
  then obtain ps where ps: "children ?fw (device_multi ?fw d) = Some ps" using device_facts by metis
  note find = find_children [OF mem ps, of COMPONENT_PTR "i mod 65536"]
  have ptr: "\<exists>r. component_ptr_get ?fw p = ret r" if "header_ok ?fw p" for p
    unfolding component_ptr_get_def by (rule payload_total [OF mem that])
  have index: "\<exists>n. be16 ?fw (c + 2) = ret n" if "component_ptr_get ?fw p = ret (Some c)" for p c
  proof -
    have "c = p + 4 \<and> 0 < p \<and> p + 8 \<le> int (fw_size ?fw)"
      using that unfolding component_ptr_get_def by (auto elim!: payload_bounds)
    then show ?thesis using mem by (intro be16_value) auto
  qed
  show ?thesis
  proof (cases "i mod 65536 < length (filter (of_type ?fw COMPONENT_PTR) ps)")
    case False
    then show ?thesis using dev_get_find [OF mem v, of psid] small Some find
      by (simp add: component_find_def Let_def)
  next
    case True
    let ?p = "filter (of_type ?fw COMPONENT_PTR) ps ! (i mod 65536)"
    have "?p \<in> set ps" using nth_mem [OF True] by simp
    then obtain r where r: "component_ptr_get ?fw ?p = ret r" using ptr children_header_ok [OF ps] by blast
    show ?thesis
    proof (cases r)
      case None
      then show ?thesis using True dev_get_find [OF mem v, of psid] small Some find r
        by (simp add: component_find_def Let_def)
    next
      case c: (Some c)
      then obtain n where "be16 ?fw (c + 2) = ret n" using index r by blast
      then show ?thesis using True dev_get_find [OF mem v, of psid] small Some find r c
          component_tlv_total [OF mem fok v, of n]
        by (simp add: component_find_def Let_def)
    qed
  qed
qed

section \<open>Properties\<close>

text \<open>C23. If four bytes behind the file can be read, no run of the parser reads behind the memory: neither the
  initialisation nor, for the file it returns, the lookups of a device, its number of components and a
  component. (The length check of a TLV forgets its header, so up to four bytes behind the file are read.)\<close>

theorem parser_stays_in_memory:
  assumes "memory_ok fw"
  shows "file_init alloc_ok fw \<noteq> crash OutOfBounds
    \<and> (\<forall>file psid n i. file_init alloc_ok fw = ret (Inr file) \<longrightarrow>
         dev_get file psid n \<noteq> crash OutOfBounds \<and> file_component_count file psid n \<noteq> crash OutOfBounds
         \<and> component_find file psid n i \<noteq> crash OutOfBounds)"
  using file_init_in_memory [OF assms] file_init_file dev_get_in_memory component_count_in_memory
    component_find_in_memory assms
  unfolding in_memory_def by metis

text \<open>C24. The file that the initialisation returns is well formed: counts of 16 bits, the compressed block inside
  the file, and every device walked, each with its children and a PSID.\<close>

theorem initialised_file_well_formed:
  assumes "memory_ok fw" and "file_init alloc_ok fw = ret (Inr file)"
  shows "mfa2_fw file = fw \<and> dev_count file < 65536 \<and> component_count file < 65536
    \<and> 0 < cb file \<and> cb file + int (cb_archive_size file) \<le> int (fw_size fw)
    \<and> length (archive file) = cb_archive_size file
    \<and> (\<exists>ds cs. walk fw (dev_count file) (first_dev file) = Some ds
         \<and> walk fw (component_count file) (first_component file) = Some cs \<and> (\<forall>d\<in>set ds. device_ok fw d))"
proof -
  have fw: "mfa2_fw file = fw" and fok: "file_ok file" using file_init_file [OF assms(2)] by simp_all
  have cb: "0 < cb file" "cb file + int (cb_archive_size file) \<le> int (fw_size fw)"
    using fok fw by (simp_all add: file_ok_def)
  then have "length (archive file) = cb_archive_size file"
    using assms(1) fw by (simp add: archive_def memory_ok_def)
  then show ?thesis using file_init_validated [OF assms] fw cb unfolding validated_def by auto
qed

text \<open>C21. After a successful initialisation every lookup returns, for every PSID of fewer than 65536 bytes
  and every index, when four bytes behind the file can be read: it neither crashes nor goes on for
  ever. (Without these bytes a lookup that compares a PSID can read behind the memory, as
  \<^verbatim>\<open>mlxfw_mfa2_tlv_payload_get\<close> does not count the header of the TLV.)\<close>

theorem validated_lookups_return:
  assumes "memory_ok fw" and "file_init alloc_ok fw = ret (Inr file)" and "length psid < 65536"
  shows "(\<exists>r. file_component_count file psid (length psid) = ret r)
    \<and> (\<exists>r. component_find file psid (length psid) i = ret r)"
proof -
  have fw: "mfa2_fw file = fw" and fok: "file_ok file" using file_init_file [OF assms(2)] by simp_all
  then have mem: "memory_ok (mfa2_fw file)" using assms(1) by simp
  obtain ds cs where v: "validated file ds cs" using file_init_validated [OF assms(1,2)] by blast
  have "\<exists>r. file_component_count file psid (length psid) = ret r"
  proof (cases "find (\<lambda>d. device_psid (mfa2_fw file) d = psid) ds")
    case None
    then show ?thesis using dev_get_find [OF mem v, of psid] assms(3) by (simp add: file_component_count_def)
  next
    case (Some d)
    have "device_ok (mfa2_fw file) d" using v find_ok [OF Some] by (simp add: validated_def)
    then obtain ps where "children (mfa2_fw file) (device_multi (mfa2_fw file) d) = Some ps"
      using device_facts by metis
    then show ?thesis using dev_get_find [OF mem v, of psid] assms(3) Some count_children [OF mem]
      by (simp add: file_component_count_def)
  qed
  then show ?thesis using component_find_total [OF mem fok v assms(3)] by blast
qed

text \<open>C22. In a validated package the number of components of a PSID is the number of component pointers of
  the first device with exactly this PSID, and an error when there is none.\<close>

theorem component_count_exact:
  assumes "memory_ok fw" and "file_init alloc_ok fw = ret (Inr file)" and "length psid < 65536"
  shows "\<exists>ds. walk fw (dev_count file) (first_dev file) = Some ds
    \<and> file_component_count file psid (length psid)
        = ret (case find (\<lambda>d. device_psid fw d = psid) ds of
                 None \<Rightarrow> Inl (- EINVAL)
               | Some d \<Rightarrow> Inr (length (device_children fw COMPONENT_PTR d)))"
proof -
  have fw: "mfa2_fw file = fw" using file_init_file [OF assms(2)] by simp
  then have mem: "memory_ok (mfa2_fw file)" using assms(1) by simp
  obtain ds cs where v: "validated file ds cs" using file_init_validated [OF assms(1,2)] by blast
  have "file_component_count file psid (length psid)
        = ret (case find (\<lambda>d. device_psid fw d = psid) ds of
                 None \<Rightarrow> Inl (- EINVAL)
               | Some d \<Rightarrow> Inr (length (device_children fw COMPONENT_PTR d)))"
  proof (cases "find (\<lambda>d. device_psid fw d = psid) ds")
    case None
    then show ?thesis using dev_get_find [OF mem v, of psid] assms(3) fw by (simp add: file_component_count_def)
  next
    case (Some d)
    have "device_ok fw d" using v find_ok [OF Some] fw by (simp add: validated_def)
    then obtain ps where "children fw (device_multi fw d) = Some ps"
      and "device_children fw COMPONENT_PTR d = filter (of_type fw COMPONENT_PTR) ps"
      using device_facts by metis
    then show ?thesis
      using dev_get_find [OF mem v, of psid] assms(3) Some count_children [OF assms(1)] fw
      by (simp add: file_component_count_def)
  qed
  then show ?thesis using v fw unfolding validated_def by blast
qed

text \<open>The loops over the children of a TLV return unless 65536 children are announced: the 16-bit counter
  reaches every smaller count.\<close>

theorem children_loops_return:
  assumes "num_extensions fw multi \<noteq> ret 65535"
  shows "multi_child_find fw multi type i \<noteq> None \<and> multi_child_count fw multi type \<noteq> None
    \<and> multi_validate fw multi \<noteq> None"
proof -
  have loop: "run_returns (multi_foreach fw multi body s)" if b: "\<And>tlv s. run_returns (body tlv s)"
    for body :: "int option \<Rightarrow> 's \<Rightarrow> ('r + 's) run" and s
  proof (unfold multi_foreach_def, rule returns_bind)
    fix n assume n: "num_extensions fw multi = ret n"
    then have "n < 65536" using be16_range by (simp add: num_extensions_def)
    moreover have "n \<noteq> 65535" using assms n by simp
    ultimately have "n + 1 < 65536" by simp
    then show "run_returns (tlv_foreach fw 65536 (n + 1) body 0 (multi_child fw multi) s)"
      by (rule foreach_returns) (simp_all add: b)
  qed simp
  have "run_returns (multi_child_find fw multi type i)" unfolding multi_child_find_def
    by (intro returns_bind loop) (auto simp: find_body_def intro!: returns_bind split: option.splits sum.splits)
  moreover have "run_returns (multi_child_count fw multi type)" unfolding multi_child_count_def
    by (intro returns_bind loop) (auto simp: count_body_def intro!: returns_bind split: option.splits sum.splits)
  moreover have "run_returns (multi_validate fw multi)" unfolding multi_validate_def
    by (intro returns_bind loop) (auto simp: validate_body_def split: sum.splits)
  ultimately show ?thesis by (simp add: run_returns_def)
qed

text \<open>When the 16-bit number of extensions is 65535 and the first child is not a multi-part TLV and has a
  length that wraps its successor to itself, the loops over the children never end.\<close>

theorem validation_hangs:
  assumes "num_extensions fw multi = ret 65535" and "multi_child fw multi = Some p"
    and "tlv_len fw p = ret len" and "65529 \<le> len" and "len \<le> 65532" and "tlv_type fw p = ret ty" and "ty \<noteq> MULTI_PART"
    and "header_ok fw p"
  shows "multi_validate fw multi = None \<and> multi_child_count fw multi type = None"
proof -
  have "(4 + len + 3) div 4 = 16384" using assms(4,5) by linarith
  then have "NLA_ALIGN (4 + len) mod 65536 = 0" by (simp add: NLA_ALIGN_def add.assoc)
  then have self: "tlv_next fw (Some p) = ret (Some p)"
    using assms(3,6,7,8) by (simp add: tlv_next_def tlv_get_def valid_ptr_def header_ok_def)
  have hang: "multi_foreach fw multi body s = None" if "\<And>s. \<exists>s'. body (Some p) s = ret (Inr s')"
    for body :: "int option \<Rightarrow> 's \<Rightarrow> ('r + 's) run" and s
  proof -
    have "tlv_foreach fw 65536 65536 body 0 (Some p) s = None"
      using self that by (intro foreach_hangs) simp_all
    then show ?thesis using assms(1,2) by (simp add: multi_foreach_def)
  qed
  have "multi_foreach fw multi validate_body () = None" by (rule hang) (simp add: validate_body_def)
  moreover have "multi_foreach fw multi (count_body fw type) 0 = None"
    by (rule hang) (simp add: count_body_def assms(6))
  ultimately show ?thesis by (simp add: multi_validate_def multi_child_count_def)
qed

text \<open>C38. A child that claims to be a multi-part TLV without the length of one crashes the loop over the
  children: the step to the next child does not test the pointer that it follows.\<close>

theorem malformed_multi_crashes:
  assumes "num_extensions fw multi = ret n" and "multi_child fw multi = Some p"
    and "tlv_type fw p = ret MULTI_PART" and "tlv_len fw p = ret len" and "len \<noteq> 4"
  shows "multi_validate fw multi = crash NullDeref"
proof -
  have "multi_get fw p = ret None"
    using assms(3-5) by (simp add: multi_get_def payload_get_def Let_def)
  then have "tlv_next fw (Some p) = crash NullDeref"
    using assms(3,4) by (simp add: tlv_next_def Let_def)
  then have "tlv_foreach fw 65536 (n + 1) validate_body 0 (Some p) () = crash NullDeref"
    by (subst tlv_foreach.simps) (simp add: validate_body_def)
  then show ?thesis using assms(1,2) by (simp add: multi_validate_def multi_foreach_def)
qed

end
