(* ===== verification/MlxfwProperties.thy ===== *)
theory MlxfwProperties
  imports MlxfwFacts Mfa2Properties
begin

text \<open>
  The whole flash of a Mellanox device: its calls follow the protocol of the device, and a flash that
  succeeds has downloaded every byte of every component of the package before it activated the image.
\<close>

section \<open>The component that is extracted\<close>



lemma write_prefix_length: "length bytes \<le> length buf \<Longrightarrow> length (write_prefix bytes buf) = length buf"
  by (simp add: write_prefix_def)









lemma be32_range:
  assumes "be32 fw p = ret n"
  shows "n < 2 ^ 32"
proof -
  obtain h l where "n = h * 65536 + l" "h < 65536" "l < 65536"
    using assms be16_range unfolding be32_def by (force elim!: run_bind_retE)
  then show ?thesis by simp
qed


section \<open>All components\<close>



text \<open>The components \<open>i, i + 1, \<dots>\<close> of a package and what is logged for them.\<close>

definition extracted :: "'x flash_host \<Rightarrow> 'd mlxfw_dev \<Rightarrow> mfa2_file \<Rightarrow> nat \<Rightarrow> mfa2_component list \<Rightarrow> bool" where
  "extracted host dev file i cs \<longleftrightarrow> (\<forall>k<length cs.
     component_get (xz host) (have_component host (i + k)) file (psid dev) (psid_size dev) (i + k) = ret (Inr (cs ! k)))"

lemma extracted_Cons [simp]:
  "extracted host dev file i (c # cs) \<longleftrightarrow>
     component_get (xz host) (have_component host i) file (psid dev) (psid_size dev) i = ret (Inr c)
     \<and> extracted host dev file (Suc i) cs"
  by (simp add: extracted_def All_less_Suc2)


section \<open>The whole flash\<close>





lemma release_result [simp]:
  "release dops h err st = ret (err', st') \<longleftrightarrow>
     err' = err \<and> st' = log_call Release (fsm_release dops (dev_state st) h) st"
  by (auto simp: release_def)



section \<open>Devices and packages that the code does not expect\<close>

text \<open>A device whose largest write is smaller than its alignment, and which accepts empty blocks, is sent the
  same empty block for ever.\<close>

theorem small_writes_hang:
  assumes "component_query (ops dev) d (comp_index c) = ((0, max_size, bits, max_write), d1)"
    and "fsm_component_update (ops dev) d1 h (comp_index c) (comp_data_size c) = (0, d2)"
    and "fsm_query_state (ops dev) d2 h = ((0, FSM_DOWNLOAD, ERR_OK), d3)"
    and "\<And>d. fst (fsm_block_download (ops dev) d h [] 0) = 0"
    and "max_write < 2 ^ bits" and "bits < 31"
    and "0 < comp_data_size c" and "comp_data_size c \<le> max_size" and "comp_data_size c \<le> MAX_COMPONENT_SIZE"
    and "dev_state st = d"
  shows "flash_component (ops dev) h c st = None"
proof -
  let ?st = "log_call (Update (comp_index c) (comp_data_size c) 0) d2 (st\<lparr>dev_state := d1\<rparr>)"
  have w: "align_down max_write bits = 0" using assms(5) by (simp add: align_down_def)
  have "(2::nat) ^ bits \<le> 2 ^ 30" using assms(6) by (intro power_increasing) auto
  moreover have "comp_data_size c \<le> 10485760" using assms(9) by (simp add: MAX_COMPONENT_SIZE_def)
  ultimately have "comp_data_size c + (2 ^ bits - 1) < 2 ^ 32" by simp
  from align_up_less [OF this, of 0] have limit: "0 < align_up (comp_data_size c) bits" using assms(7) by simp
  have wait: "fsm_state_wait (ops dev) h FSM_DOWNLOAD ?st = (0, ?st\<lparr>dev_state := d3\<rparr>)"
    using assms(3) by (intro wait_reached) (simp add: log_call_def)
  have "download_part (ops dev) h c 0 (align_up (comp_data_size c) bits) ?st = None"
    using wait download_zero_hangs [OF assms(4) limit] by (simp add: download_part_def)
  then show ?thesis
    using flash_component_parts [of "ops dev" st c, OF _ assms(2)] assms(1,6,8,9,10) w by (simp add: Let_def)
qed

text \<open>A component at the start of the block, as it is extracted.\<close>

lemma magic_length [simp]: "length mfa2_comp_magic = 16"
  by (simp add: mfa2_comp_magic_def)

lemma component_get_fields:
  assumes "component_find file name n i = ret (Some desc)"
    and "be32 (mfa2_fw file) (desc + 4) = ret 0" and "be32 (mfa2_fw file) (desc + 8) = ret 0"
    and "be32 (mfa2_fw file) (desc + 12) = ret sz" and "be16 (mfa2_fw file) (desc + 2) = ret index"
  shows "component_get lib True file name n i =
    run_bind (cb_offset_xz lib file 0 ((sz + 16) mod 2 ^ 32) (replicate ((sz + 16) mod 2 ^ 32) None)) (\<lambda>b.
      case b of
        Inl err \<Rightarrow> ret (Inl err)
      | Inr buf \<Rightarrow> run_bind (buffer_starts buf mfa2_comp_magic) (\<lambda>ok.
          ret (if ok then Inr \<lparr>comp_index = index, comp_data_size = sz, comp_data = drop 16 buf\<rparr>
               else Inl (- EINVAL))))"
  unfolding component_get_def magic_length using assms by (simp add: to_off_t_def Let_def)

lemma cb_offset_start:
  assumes "xz_init lib (archive file) = Some x" and "xz_run lib x sz = (XZ_OK, bytes, x')"
  shows "cb_offset_xz lib file 0 sz buf = ret (Inr (write_prefix bytes buf))"
proof -
  have "skip_loop lib 0 sz 0 x buf = ret (Inr (x, buf))" by (subst skip_loop.simps) simp
  then show ?thesis using assms by (simp add: cb_offset_xz_def mfa2_xz_dec_run_def xz_status_def)
qed

text \<open>If the size of a component is within 16 of 2^32 the size of its buffer wraps: it is smaller than the
  magic and the comparison reads behind it.\<close>

theorem huge_component_reads_behind:
  assumes "component_find file name n i = ret (Some desc)"
    and "be32 (mfa2_fw file) (desc + 4) = ret 0" and "be32 (mfa2_fw file) (desc + 8) = ret 0"
    and "be32 (mfa2_fw file) (desc + 12) = ret sz" and "be16 (mfa2_fw file) (desc + 2) = ret index"
    and "2 ^ 32 - 16 \<le> sz" and "xz_init lib (archive file) = Some x"
    and "xz_run lib x (sz - (2 ^ 32 - 16)) = (XZ_OK, bytes, x')" and "length bytes \<le> sz - (2 ^ 32 - 16)"
  shows "component_get lib True file name n i = crash OutOfBounds"
proof -
  have "sz < 2 ^ 32" by (rule be32_range [OF assms(4)])
  then have m: "(sz + 16) mod 2 ^ 32 = sz - (2 ^ 32 - 16)" and lt: "sz - (2 ^ 32 - 16) < 16"
    using assms(6) by (simp_all add: mod_if)
  have "length (write_prefix bytes (replicate (sz - (2 ^ 32 - 16)) None)) < 16"
    using write_prefix_length [of bytes "replicate (sz - (2 ^ 32 - 16)) None"] assms(9) lt by simp
  then show ?thesis
    using component_get_fields [OF assms(1-5), of lib] cb_offset_start [OF assms(7,8)] m
    by (simp add: buffer_starts_def)
qed

text \<open>If the decoder returns less than the component, the rest of the buffer stays uninitialised and the
  component is accepted.\<close>

theorem short_decode_accepted:
  assumes "component_find file name n i = ret (Some desc)"
    and "be32 (mfa2_fw file) (desc + 4) = ret 0" and "be32 (mfa2_fw file) (desc + 8) = ret 0"
    and "be32 (mfa2_fw file) (desc + 12) = ret sz" and "be16 (mfa2_fw file) (desc + 2) = ret index"
    and "sz < 2 ^ 32 - 16" and "xz_init lib (archive file) = Some x"
    and "xz_run lib x (sz + 16) = (XZ_OK, mfa2_comp_magic, x')"
  shows "component_get lib True file name n i
    = ret (Inr \<lparr>comp_index = index, comp_data_size = sz, comp_data = replicate sz None\<rparr>)"
proof -
  have m: "(sz + 16) mod 2 ^ 32 = sz + 16" using assms(6) by simp
  have "write_prefix mfa2_comp_magic (replicate (sz + 16) None) = map Some mfa2_comp_magic @ replicate sz None"
    by (simp add: write_prefix_def)
  moreover have "buffer_starts (map Some mfa2_comp_magic @ buf) mfa2_comp_magic = ret True" for buf
    by (auto simp: buffer_starts_def)
  ultimately show ?thesis
    using component_get_fields [OF assms(1-5), of lib] cb_offset_start [OF assms(7,8)] m by simp
qed

end
