(* ===== verification/Mfa2Example.thy ===== *)
theory Mfa2Example
  imports MlxfwProperties
begin

text \<open>
  A firmware package with one device and one component, a device and a decoder: the properties of the
  parser and of the flash applied to them.
\<close>

section \<open>The package\<close>

text \<open>The last number of the component is its size, as four bytes.\<close>

definition package_bytes :: "u8 \<Rightarrow> u8 \<Rightarrow> u8 list" where
  "package_bytes hi lo = mfa2_fingerprint
     @ [0, 1, 0, 4, 0, 0, 0, 32, 0, 2, 0, 28, 0, 1, 0, 1, 0, 0, 0, 112, 0, 0, 0, 4,
        0, 0, 0, 0, 0, 0, 0, 0, 0, 0, 0, 0, 0, 0, 0, 0,
        0, 1, 0, 4, 0, 1, 0, 20, 0, 0x2A, 0, 4, 65, 66, 67, 68, 0, 0x22, 0, 8, 0, 0, 0, 0, 0, 0, 0, 0,
        0, 1, 0, 4, 0, 0, 0, 20, 0, 4, 0, 16, 0, 0, 0, 7, 0, 0, 0, 0, 0, 0, 0, 0, hi, hi, hi, lo,
        1, 2, 3, 4, 0, 0, 0, 0]"

definition package :: "u8 \<Rightarrow> u8 \<Rightarrow> mfa2_fw" where
  "package hi lo = \<lparr>fw_data = package_bytes hi lo, fw_size = 116\<rparr>"

lemma run_weak_cong: "m = m' \<Longrightarrow> run_bind m f = run_bind m' f"
  by simp

lemmas package_bytes_list = package_bytes_def [unfolded mfa2_fingerprint_def, simplified]

lemmas parser_defs = file_init_def tlv_get_def valid_ptr_def multi_get_def payload_get_def
  tlv_len_def tlv_type_def be16_def be32_def rd8_def multi_child_def package_descriptor_get_def
  tlv_next_def total_len_def num_extensions_def NLA_ALIGN_def NLA_ALIGN32_def
  MULTI_PART_def PACKAGE_DESCRIPTOR_def COMPONENT_DESCRIPTOR_def COMPONENT_PTR_def PSID_def
  tlv_advance_def file_validate_def each_body_def dev_validate_def comp_validate_def
  multi_validate_def multi_foreach_def validate_body_def multi_child_find_def find_body_def
  psid_get_def component_ptr_get_def component_descriptor_get_def multi_child_count_def count_body_def

definition package_file :: "u8 \<Rightarrow> u8 \<Rightarrow> mfa2_file" where
  "package_file hi lo = \<lparr>mfa2_fw = package hi lo, first_dev = Some 56, dev_count = 1, first_component = Some 84,
     component_count = 1, cb = 112, cb_archive_size = 4\<rparr>"

lemma fingerprint_length [simp]: "length mfa2_fingerprint = 16"
  by (simp add: mfa2_fingerprint_def)

lemma package_memory: "memory_ok (package hi lo)"
  by (simp add: memory_ok_def package_def package_bytes_def)

lemma init_package: "file_init True (package hi lo) = ret (Inr (package_file hi lo))"
  by (simp add: parser_defs package_def package_bytes_list package_file_def Let_def
      tlv_foreach.simps cong: run_weak_cong)

section \<open>The parser\<close>

definition name :: "u8 list" where
  "name = [65, 66, 67, 68]"

lemma name_length [simp]: "length name = 4"
  by (simp add: name_def)

lemma package_fw [simp]: "mfa2_fw (package_file hi lo) = package hi lo"
  by (simp add: package_file_def)

theorem parser_stays_in_memory_witness: "file_init True (package 0 3) \<noteq> crash OutOfBounds"
  using parser_stays_in_memory [OF package_memory, of True 0 3] by blast

theorem initialised_file_well_formed_witness:
  "length (archive (package_file 0 3)) = 4 \<and> (\<exists>ds. walk (package 0 3) 1 (Some 56) = Some ds
    \<and> (\<forall>d\<in>set ds. device_ok (package 0 3) d))"
  using initialised_file_well_formed [OF package_memory init_package, of 0 3] by (auto simp: package_file_def)

theorem validated_lookups_return_witness:
  "(\<exists>r. file_component_count (package_file 0 3) name 4 = ret r)
    \<and> (\<exists>r. component_find (package_file 0 3) name 4 0 = ret r)"
  using validated_lookups_return [OF package_memory init_package, of name 0] by simp

lemma package_component: "component_find (package_file hi lo) name 4 0 = ret (Some 96)"
  by (simp add: component_find_def dev_get_def dev_body_def component_tlv_get_def fw_bytes_equal_def
      parser_defs package_def package_bytes_list package_file_def name_def Let_def
      tlv_foreach.simps cong: run_weak_cong)

lemma package_count: "file_component_count (package_file hi lo) name 4 = ret (Inr 1)"
  by (simp add: file_component_count_def dev_get_def dev_body_def fw_bytes_equal_def
      parser_defs package_def package_bytes_list package_file_def name_def Let_def
      tlv_foreach.simps cong: run_weak_cong)

theorem component_count_exact_witness:
  "\<exists>ds. walk (package 0 3) 1 (Some 56) = Some ds
    \<and> file_component_count (package_file 0 3) name 4
        = ret (case find (\<lambda>d. device_psid (package 0 3) d = name) ds of
                 None \<Rightarrow> Inl (- EINVAL) | Some d \<Rightarrow> Inr (length (device_children (package 0 3) COMPONENT_PTR d)))
    \<and> file_component_count (package_file 0 3) name 4 = ret (Inr 1)"
proof -
  have "dev_count (package_file 0 3) = 1" "first_dev (package_file 0 3) = Some 56" by (simp_all add: package_file_def)
  then show ?thesis using component_count_exact [OF package_memory init_package, of name 0 3] package_count [of 0 3] by simp
qed

section \<open>Malformed packages\<close>

text \<open>\<open>children_bytes n type len\<close> has a multi-part payload at 4 that announces \<open>n\<close> children, with a child at 8.\<close>

definition bad_package :: "u8 \<Rightarrow> u8 \<Rightarrow> u8 \<Rightarrow> mfa2_fw" where
  "bad_package n type len = \<lparr>fw_data = [0, 1, 0, 4, n, n, 0, 0, 0, type, n, len, 0, 0, 0, 0, 0, 0, 0, 0], fw_size = 16\<rparr>"

theorem children_loops_return_witness:
  "multi_child_find (bad_package 0 9 0) 4 9 0 \<noteq> None \<and> multi_child_count (bad_package 0 9 0) 4 9 \<noteq> None
    \<and> multi_validate (bad_package 0 9 0) 4 \<noteq> None"
  by (rule children_loops_return) (simp add: bad_package_def parser_defs)

theorem validation_hangs_witness:
  "multi_validate (bad_package 255 9 252) 4 = None \<and> multi_child_count (bad_package 255 9 252) 4 9 = None"
  by (rule validation_hangs [of _ _ 8 65532 9]) (simp_all add: bad_package_def parser_defs header_ok_def)

theorem malformed_multi_crashes_witness: "multi_validate (bad_package 0 1 0) 4 = crash NullDeref"
  by (rule malformed_multi_crashes [of _ _ 0 8 0]) (simp_all add: bad_package_def parser_defs)

section \<open>The flash\<close>

text \<open>A decoder of the fixed data, whose state is the position; a device that accepts blocks of at most 3
  bytes with the alignment 2, whose state is the state of its machine.\<close>

definition stored_bytes :: "u8 list" where
  "stored_bytes = mfa2_comp_magic @ [9, 8, 7]"

definition decoder :: "nat xz_lib" where
  "decoder = \<lparr>xz_init = \<lambda>archive. Some 0,
     xz_run = \<lambda>x n. (XZ_OK, take n (drop x stored_bytes), x + n)\<rparr>"

definition device_ops :: "fsm_state mlxfw_dev_ops" where
  "device_ops = \<lparr>component_query = \<lambda>d i. ((0, 100, 1, 3), d), fsm_lock = \<lambda>d. ((0, 5), FSM_LOCKED),
     fsm_component_update = \<lambda>d h i n. (0, FSM_DOWNLOAD), fsm_block_download = \<lambda>d h b n. (0, d),
     fsm_component_verify = \<lambda>d h i. (0, FSM_LOCKED), fsm_activate = \<lambda>d h. (0, FSM_LOCKED),
     fsm_query_state = \<lambda>d h. ((0, d, ERR_OK), d), fsm_cancel = \<lambda>d h. FSM_IDLE, fsm_release = \<lambda>d h. FSM_IDLE\<rparr>"

definition device :: "fsm_state mlxfw_dev" where
  "device = \<lparr>ops = device_ops, psid = name, psid_size = 4\<rparr>"


definition idle :: "fsm_state flash" where
  "idle = \<lparr>dev_state = FSM_IDLE, calls = []\<rparr>"





lemma package_descriptor:
  "be32 (package hi lo) 100 = ret 0" "be32 (package hi lo) 104 = ret 0" "be16 (package hi lo) 98 = ret 7"
  "be32 (package hi lo) 108 = ret ((unat hi * 256 + unat hi) * 65536 + (unat hi * 256 + unat lo))"
  by (simp_all add: be32_def be16_def rd8_def package_def package_bytes_list)



definition stored :: mfa2_component where
  "stored = \<lparr>comp_index = 7, comp_data_size = 3, comp_data = [Some 9, Some 8, Some 7]\<rparr>"





text \<open>A device that writes at most one byte at a time, with the alignment 2.\<close>

theorem small_writes_hang_witness:
  "flash_component (device_ops\<lparr>component_query := \<lambda>d i. ((0, 100, 1, 1), d)\<rparr>) 5 stored idle = None"
  using small_writes_hang [of "device\<lparr>ops := device_ops\<lparr>component_query := \<lambda>d i. ((0, 100, 1, 1), d)\<rparr>\<rparr>"
      FSM_IDLE stored 100 1 1 FSM_IDLE 5 FSM_DOWNLOAD FSM_DOWNLOAD idle]
  by (simp add: device_ops_def stored_def idle_def MAX_COMPONENT_SIZE_def)

theorem huge_component_reads_behind_witness:
  "component_get decoder True (package_file 255 250) name 4 0 = crash OutOfBounds"
  using huge_component_reads_behind [OF package_component, of 255 250 4294967290 7 decoder 0 "take 10 stored_bytes" 10]
    package_descriptor [of 255 250]
  by (simp add: decoder_def stored_bytes_def)

theorem short_decode_accepted_witness:
  "component_get (decoder\<lparr>xz_run := \<lambda>x n. (XZ_OK, mfa2_comp_magic, x)\<rparr>) True (package_file 0 3) name 4 0
    = ret (Inr \<lparr>comp_index = 7, comp_data_size = 3, comp_data = [None, None, None]\<rparr>)"
proof -
  have "replicate 3 None = [None, None, None :: u8 option]" by (simp add: numeral_3_eq_3)
  then show ?thesis
    using short_decode_accepted [OF package_component, of 0 3 3 7 "decoder\<lparr>xz_run := \<lambda>x n. (XZ_OK, mfa2_comp_magic, x)\<rparr>" 0 0]
      package_descriptor [of 0 3]
    by (simp add: decoder_def)
qed

end
