(* ===== verification/MetaTypes.thy ===== *)
theory MetaTypes
  imports StubObject SaiIp "HOL-Library.AList" "HOL-Library.Multiset"
begin

text \<open>
  The object database of the sairedis metadata layer (\<^verbatim>\<open>meta/sai_meta.cpp\<close>): attribute values, keys of
  objects, the generated metadata and what else the layer is linked with (record \<open>meta_env\<close>), and its
  state (record \<open>meta_db\<close>).

  \<^verbatim>\<open>SWSS_LOG_THROW\<close> raises an exception that nothing in the layer catches: it is the fault \<open>Thrown\<close>. The
  iteration order of the unordered maps is that of the association lists here.
\<close>

section \<open>Values\<close>

datatype attr_value_type =
    AV_BOOL | AV_CHARDATA | AV_UINT8 | AV_INT8 | AV_UINT16 | AV_INT16 | AV_UINT32 | AV_INT32 | AV_UINT64
  | AV_INT64 | AV_POINTER | AV_MAC | AV_IPV4 | AV_IPV6 | AV_IP_ADDRESS | AV_IP_PREFIX | AV_OBJECT_ID
  | AV_OBJECT_LIST | AV_UINT8_LIST | AV_INT8_LIST | AV_UINT16_LIST | AV_INT16_LIST | AV_UINT32_LIST
  | AV_INT32_LIST | AV_UINT32_RANGE | AV_INT32_RANGE
  | AV_ACL_FIELD_DATA_BOOL | AV_ACL_FIELD_DATA_UINT8 | AV_ACL_FIELD_DATA_INT8 | AV_ACL_FIELD_DATA_UINT16
  | AV_ACL_FIELD_DATA_INT16 | AV_ACL_FIELD_DATA_UINT32 | AV_ACL_FIELD_DATA_INT32 | AV_ACL_FIELD_DATA_MAC
  | AV_ACL_FIELD_DATA_IPV4 | AV_ACL_FIELD_DATA_IPV6 | AV_ACL_FIELD_DATA_OBJECT_ID
  | AV_ACL_FIELD_DATA_OBJECT_LIST | AV_ACL_FIELD_DATA_UINT8_LIST
  | AV_ACL_ACTION_DATA_BOOL | AV_ACL_ACTION_DATA_UINT8 | AV_ACL_ACTION_DATA_INT8 | AV_ACL_ACTION_DATA_UINT16
  | AV_ACL_ACTION_DATA_INT16 | AV_ACL_ACTION_DATA_UINT32 | AV_ACL_ACTION_DATA_INT32 | AV_ACL_ACTION_DATA_MAC
  | AV_ACL_ACTION_DATA_IPV4 | AV_ACL_ACTION_DATA_IPV6 | AV_ACL_ACTION_DATA_IP_ADDRESS
  | AV_ACL_ACTION_DATA_OBJECT_ID | AV_ACL_ACTION_DATA_OBJECT_LIST | AV_ACL_CAPABILITY | AV_ACL_RESOURCE_LIST
  | AV_MAP_LIST | AV_VLAN_LIST | AV_QOS_MAP_LIST | AV_TLV_LIST | AV_SEGMENT_LIST | AV_IP_ADDRESS_LIST
  | AV_PORT_EYE_VALUES_LIST | AV_TIMESPEC | AV_NAT_ENTRY_DATA

text \<open>
  The members of the value union that the layer reads, which one depends on the type of the attribute. An
  object list is a count and a pointer (\<open>mv_objlist\<close>); of the other lists only the count, whether the pointer
  is NULL, for the port lanes the elements (\<open>mv_u32list\<close>) and for addresses their families (\<open>mv_families\<close>)
  matter; of a prefix the family and the mask (\<open>mv_mask\<close>, 16 bytes). The members of \<^verbatim>\<open>aclfield\<close> and \<^verbatim>\<open>aclaction\<close>
  are laid out alike: \<open>mv_enable\<close> with \<open>mv_data_s32\<close>, \<open>mv_data_oid\<close> or \<open>mv_data_objlist\<close>.
\<close>

type_synonym object_list = "u32 \<times> u64 list option"

record meta_value =
  mv_booldata :: bool
  mv_chardata :: "u8 list"
  mv_s32 :: int
  mv_num :: nat
  mv_oid :: u64
  mv_objlist :: object_list
  mv_list_count :: u32
  mv_list_null :: bool
  mv_u32list :: "nat list"
  mv_families :: "int list"
  mv_range :: "int \<times> int"
  mv_addr_family :: int
  mv_mask :: "u8 list"
  mv_enable :: bool
  mv_data_s32 :: int
  mv_data_oid :: u64
  mv_data_objlist :: object_list

record meta_attribute =
  at_id :: u32
  at_value :: meta_value

section \<open>Keys of objects\<close>

text \<open>An object is named by an id, or by an entry whose first member is the switch.\<close>

record meta_fdb_entry =
  fdb_switch_id :: u64
  fdb_mac_address :: "u8 list"
  fdb_bv_id :: u64

record meta_mcast_fdb_entry =
  mcast_switch_id :: u64
  mcast_mac_address :: "u8 list"
  mcast_bv_id :: u64

record meta_neighbor_entry =
  neighbor_switch_id :: u64
  neighbor_rif_id :: u64
  neighbor_ip_address :: sai_ip_address

record meta_route_entry =
  route_switch_id :: u64
  route_vr_id :: u64
  route_destination :: sai_ip_prefix

record meta_l2mc_entry =
  l2mc_switch_id :: u64
  l2mc_bv_id :: u64
  l2mc_type :: int
  l2mc_destination :: sai_ip_address
  l2mc_source :: sai_ip_address

record meta_ipmc_entry =
  ipmc_switch_id :: u64
  ipmc_vr_id :: u64
  ipmc_type :: int
  ipmc_destination :: sai_ip_address
  ipmc_source :: sai_ip_address

record meta_inseg_entry =
  inseg_switch_id :: u64
  inseg_label :: u32

datatype sai_object_key =
    KeyOid u64
  | KeyFdb meta_fdb_entry
  | KeyMcastFdb meta_mcast_fdb_entry
  | KeyNeighbor meta_neighbor_entry
  | KeyRoute meta_route_entry
  | KeyL2mc meta_l2mc_entry
  | KeyIpmc meta_ipmc_entry
  | KeyInseg meta_inseg_entry

record sai_object_meta_key =
  mk_objecttype :: nat
  mk_objectkey :: sai_object_key

text \<open>\<^verbatim>\<open>objectkey.key.object_id\<close>: of an entry it is the switch, which lies at the same address.\<close>

fun key_object_id :: "sai_object_key \<Rightarrow> u64" where
  "key_object_id (KeyOid oid) = oid"
| "key_object_id (KeyFdb e) = fdb_switch_id e"
| "key_object_id (KeyMcastFdb e) = mcast_switch_id e"
| "key_object_id (KeyNeighbor e) = neighbor_switch_id e"
| "key_object_id (KeyRoute e) = route_switch_id e"
| "key_object_id (KeyL2mc e) = l2mc_switch_id e"
| "key_object_id (KeyIpmc e) = ipmc_switch_id e"
| "key_object_id (KeyInseg e) = inseg_switch_id e"

definition mk_oid :: "sai_object_meta_key \<Rightarrow> u64" where
  "mk_oid mk = key_object_id (mk_objectkey mk)"

definition oid_key :: "nat \<Rightarrow> u64 \<Rightarrow> sai_object_meta_key" where
  "oid_key ot oid = \<lparr>mk_objecttype = ot, mk_objectkey = KeyOid oid\<rparr>"

section \<open>Metadata\<close>

record meta_attr =
  ma_objecttype :: nat
  ma_attrid :: u32
  ma_attridname :: string
  ma_attrvaluetype :: attr_value_type
  ma_flags :: u32
  ma_allowedobjecttypes :: "nat list"
  ma_allownullobjectid :: bool
  ma_isenum :: bool
  ma_isenumlist :: bool
  ma_enumvalues :: "int list"
  ma_isconditional :: bool
  ma_conditions :: "(u32 \<times> meta_value) list"
  ma_defaultvalue :: "meta_value option"
  ma_isreadonly :: bool
  ma_isoidattribute :: bool
  ma_isvlan :: bool
  ma_validonlylength :: nat

definition has_flag :: "nat \<Rightarrow> meta_attr \<Rightarrow> bool" where
  "has_flag n md \<longleftrightarrow> bit (ma_flags md) n"

definition HAS_FLAG_MANDATORY_ON_CREATE :: "meta_attr \<Rightarrow> bool" where "HAS_FLAG_MANDATORY_ON_CREATE = has_flag 0"
definition HAS_FLAG_CREATE_ONLY :: "meta_attr \<Rightarrow> bool" where "HAS_FLAG_CREATE_ONLY = has_flag 1"
definition HAS_FLAG_READ_ONLY :: "meta_attr \<Rightarrow> bool" where "HAS_FLAG_READ_ONLY = has_flag 3"
definition HAS_FLAG_KEY :: "meta_attr \<Rightarrow> bool" where "HAS_FLAG_KEY = has_flag 4"
definition ATTR_FLAGS_CREATE_ONLY :: u32 where "ATTR_FLAGS_CREATE_ONLY = 2"

text \<open>A member of the structure of an entry; \<open>sm_getoid\<close> is the generated accessor.\<close>

record struct_member =
  sm_is_oid :: bool
  sm_allowedobjecttypes :: "nat list"
  sm_getoid :: "sai_object_meta_key \<Rightarrow> u64"

record object_info =
  info_isnonobjectid :: bool
  info_structmembers :: "struct_member list"
  info_attrmetadata :: "meta_attr list"

text \<open>
  What the layer is linked with: the generated object type infos (\<open>None\<close> for an invalid type); the two
  queries on object ids that the client library answers; the text of a key, whose type \<open>'k\<close> is left open,
  with its deserialization and the search for \<^verbatim>\<open>bvid\<close> in it (\<^verbatim>\<open>saiserialize.cpp\<close> makes the text with a JSON
  library).
\<close>

record 'k meta_env =
  object_infos :: "nat \<Rightarrow> object_info option"
  object_type_query :: "u64 \<Rightarrow> nat"
  switch_id_query :: "u64 \<Rightarrow> u64"
  meta_key_text :: "sai_object_meta_key \<Rightarrow> 'k"
  deserialize_meta_key :: "'k \<Rightarrow> sai_object_meta_key"
  text_has_bvid :: "'k \<Rightarrow> bool"

text \<open>The lookup of the metadata of an attribute; that the code's lookups are this search is a property of
  the metadata library (theory \<open>SaiMetaSearch\<close>).\<close>

fun find_attr :: "meta_attr list \<Rightarrow> u32 \<Rightarrow> meta_attr option" where
  "find_attr [] i = None"
| "find_attr (m # ms) i = (if ma_attrid m = i then Some m else find_attr ms i)"

definition get_attr_metadata :: "'k meta_env \<Rightarrow> nat \<Rightarrow> u32 \<Rightarrow> meta_attr option" where
  "get_attr_metadata env ot i =
     (case object_infos env ot of None \<Rightarrow> None | Some info \<Rightarrow> find_attr (info_attrmetadata info) i)"

fun get_attr_by_id :: "u32 \<Rightarrow> meta_attribute list \<Rightarrow> meta_attribute option" where
  "get_attr_by_id i [] = None"
| "get_attr_by_id i (a # attrs) = (if at_id a = i then Some a else get_attr_by_id i attrs)"

definition is_allowed_object_type :: "meta_attr \<Rightarrow> nat \<Rightarrow> bool" where
  "is_allowed_object_type md ot \<longleftrightarrow> ot \<in> set (ma_allowedobjecttypes md)"

definition is_allowed_enum_value :: "meta_attr \<Rightarrow> int \<Rightarrow> bool" where
  "is_allowed_enum_value md x \<longleftrightarrow> x \<in> set (ma_enumvalues md)"

section \<open>State\<close>

text \<open>
  The stored attributes keep the metadata they were stored with. The count of references is an \<^verbatim>\<open>int32_t\<close>; it
  is at most the number of stored references, which do not fit into memory before it overflows.
\<close>

record 'k meta_db =
  ObjectReferences :: "u64 \<Rightarrow> int option"
  AttributeKeys :: "('k \<times> string) list"
  ObjectAttrHash :: "('k \<times> (u32 \<times> (meta_attr \<times> meta_value)) list) list"
  map_port_to_related_set :: "u64 \<Rightarrow> u64 list option"
  warmBoot :: bool
  unittests_enabled :: bool
  unittests_set_readonly_set :: "string list"

section \<open>Numbers\<close>

definition MAX_LIST_COUNT :: nat where "MAX_LIST_COUNT = 4096"
definition MAXIMUM_VLAN_NUMBER :: nat where "MAXIMUM_VLAN_NUMBER = 4094"
definition SAI_HOSTIF_NAME_SIZE :: nat where "SAI_HOSTIF_NAME_SIZE = 16"
definition SAI_NULL_OBJECT_ID :: u64 where "SAI_NULL_OBJECT_ID = 0"
definition OT_PORT :: nat where "OT_PORT = 1"
definition OT_VIRTUAL_ROUTER :: nat where "OT_VIRTUAL_ROUTER = 3"
definition OT_ROUTER_INTERFACE :: nat where "OT_ROUTER_INTERFACE = 6"
definition OT_ACL_TABLE :: nat where "OT_ACL_TABLE = 7"
definition OT_SCHEDULER_GROUP :: nat where "OT_SCHEDULER_GROUP = 23"
definition OT_BUFFER_POOL :: nat where "OT_BUFFER_POOL = 24"
definition OT_BUFFER_PROFILE :: nat where "OT_BUFFER_PROFILE = 25"
definition OT_FDB_ENTRY :: nat where "OT_FDB_ENTRY = 32"
definition OT_SWITCH :: nat where "OT_SWITCH = 33"
definition OT_NEIGHBOR_ENTRY :: nat where "OT_NEIGHBOR_ENTRY = 36"
definition OT_ROUTE_ENTRY :: nat where "OT_ROUTE_ENTRY = 37"
definition OT_VLAN :: nat where "OT_VLAN = 38"
definition OT_FDB_FLUSH :: nat where "OT_FDB_FLUSH = 44"
definition OT_L2MC_ENTRY :: nat where "OT_L2MC_ENTRY = 53"
definition OT_IPMC_ENTRY :: nat where "OT_IPMC_ENTRY = 54"
definition OT_MCAST_FDB_ENTRY :: nat where "OT_MCAST_FDB_ENTRY = 55"
definition OT_BRIDGE :: nat where "OT_BRIDGE = 57"
definition OT_INSEG_ENTRY :: nat where "OT_INSEG_ENTRY = 63"
definition BUFFER_PROFILE_ATTR_POOL_ID :: u32 where "BUFFER_PROFILE_ATTR_POOL_ID = 0"
definition BUFFER_PROFILE_ATTR_SHARED_DYNAMIC_TH :: u32 where "BUFFER_PROFILE_ATTR_SHARED_DYNAMIC_TH = 3"
definition BUFFER_PROFILE_ATTR_SHARED_STATIC_TH :: u32 where "BUFFER_PROFILE_ATTR_SHARED_STATIC_TH = 4"
definition BUFFER_POOL_ATTR_THRESHOLD_MODE :: u32 where "BUFFER_POOL_ATTR_THRESHOLD_MODE = 3"
definition BUFFER_POOL_THRESHOLD_MODE_STATIC :: int where "BUFFER_POOL_THRESHOLD_MODE_STATIC = 0"
definition BUFFER_POOL_THRESHOLD_MODE_DYNAMIC :: int where "BUFFER_POOL_THRESHOLD_MODE_DYNAMIC = 1"
definition ACL_TABLE_ATTR_FIELD_ACL_RANGE_TYPE :: u32 where "ACL_TABLE_ATTR_FIELD_ACL_RANGE_TYPE = 4409"
definition SCHEDULER_GROUP_ATTR_SCHEDULER_PROFILE_ID :: u32 where "SCHEDULER_GROUP_ATTR_SCHEDULER_PROFILE_ID = 5"
definition PORT_ATTR_QOS_QUEUE_LIST :: u32 where "PORT_ATTR_QOS_QUEUE_LIST = 5"
definition PORT_ATTR_QOS_SCHEDULER_GROUP_LIST :: u32 where "PORT_ATTR_QOS_SCHEDULER_GROUP_LIST = 7"
definition PORT_ATTR_INGRESS_PRIORITY_GROUP_LIST :: u32 where "PORT_ATTR_INGRESS_PRIORITY_GROUP_LIST = 24"
definition FDB_ENTRY_ATTR_TYPE :: u32 where "FDB_ENTRY_ATTR_TYPE = 0"
definition FDB_ENTRY_ATTR_BRIDGE_PORT_ID :: u32 where "FDB_ENTRY_ATTR_BRIDGE_PORT_ID = 3"
definition FDB_ENTRY_TYPE_DYNAMIC :: int where "FDB_ENTRY_TYPE_DYNAMIC = 0"

end
