(* ===== verification/MetaKeys.thy ===== *)
theory MetaKeys
  imports MetaTypes
begin

text \<open>
  The text of the key of an object (\<^verbatim>\<open>meta/saiserialize.cpp\<close>), which is the key of the maps of the metadata
  layer: which keys have one, and which throw. The text itself is made by a JSON library and is a parameter;
  whether a mask can be written as a prefix length is decided here. The first section is the early exit of
  the layer as combinators on results.
\<close>

section \<open>Results\<close>

text \<open>\<open>chk_bind\<close> goes on with a result that is not a fault, \<open>and_then\<close> goes on when moreover the status is
  success.\<close>

definition and_then :: "sai_status checked \<Rightarrow> sai_status checked \<Rightarrow> sai_status checked" where
  "and_then r k = chk_bind r (\<lambda>status. if status \<noteq> SAI_STATUS_SUCCESS then Inr status else k)"

lemma and_then_eq_Inr:
  "and_then r k = Inr status \<longleftrightarrow>
     r = Inr status \<and> status \<noteq> SAI_STATUS_SUCCESS \<or> r = Inr SAI_STATUS_SUCCESS \<and> k = Inr status"
  by (auto simp: and_then_def chk_bind_eq_Inr)

lemma and_then_success: "and_then r k = Inr SAI_STATUS_SUCCESS \<longleftrightarrow> r = Inr SAI_STATUS_SUCCESS \<and> k = Inr SAI_STATUS_SUCCESS"
  by (auto simp: and_then_eq_Inr)

lemma and_then_fault: "and_then r k = Inl e \<longleftrightarrow> r = Inl e \<or> r = Inr SAI_STATUS_SUCCESS \<and> k = Inl e"
  by (cases r) (auto simp: and_then_def)

text \<open>
  The elements \<open>list[0]\<close>, \<dots>, \<open>list[n - 1]\<close> as a loop over them meets them: reading through NULL or beyond the
  end of the array is a fault, at the element where it happens.
\<close>

fun array_items :: "nat \<Rightarrow> 'a list option \<Rightarrow> 'a checked list" where
  "array_items n None = replicate n (Inl NullDeref)"
| "array_items n (Some xs) = map (\<lambda>i. if i < length xs then Inr (xs ! i) else Inl OutOfBounds) [0..<n]"

definition list_items :: "object_list \<Rightarrow> u64 checked list" where
  "list_items l = array_items (unat (fst l)) (snd l)"

fun for_each :: "('a \<Rightarrow> 's \<Rightarrow> 's checked) \<Rightarrow> 'a checked list \<Rightarrow> 's \<Rightarrow> 's checked" where
  "for_each f [] s = Inr s"
| "for_each f (x # xs) s = chk_bind x (\<lambda>a. chk_bind (f a s) (for_each f xs))"

lemma array_items_readable: "n \<le> length xs \<Longrightarrow> array_items n (Some xs) = map Inr (take n xs)"
  by (rule nth_equalityI) auto

section \<open>Masks\<close>

text \<open>
  The bits of a mask, most significant of each byte first. Both loops stop at a set bit after a clear one:
  \<open>is_ipv6_mask_valid\<close> answers false, \<open>get_ip_mask\<close> throws; the latter counts the ones.
\<close>

definition mask_bit :: "u8 list \<Rightarrow> nat \<Rightarrow> bool" where
  "mask_bit m i = bit (m ! (i div 8)) (7 - i mod 8)"

fun ipv6_mask_loop :: "u8 list \<Rightarrow> nat list \<Rightarrow> bool \<Rightarrow> bool" where
  "ipv6_mask_loop m [] zeros = True"
| "ipv6_mask_loop m (i # is) zeros =
     (if zeros \<and> mask_bit m i then False else ipv6_mask_loop m is (zeros \<or> \<not> mask_bit m i))"

definition is_ipv6_mask_valid :: "u8 list option \<Rightarrow> bool" where
  "is_ipv6_mask_valid m = (case m of None \<Rightarrow> False | Some m \<Rightarrow> ipv6_mask_loop m [0..<128] False)"

fun ip_mask_loop :: "u8 list \<Rightarrow> nat list \<Rightarrow> bool \<Rightarrow> u8 \<Rightarrow> u8 checked" where
  "ip_mask_loop m [] zeros n = Inr n"
| "ip_mask_loop m (i # is) zeros n =
     (if zeros \<and> mask_bit m i then Inl Thrown
      else ip_mask_loop m is (zeros \<or> \<not> mask_bit m i) (if mask_bit m i then n + 1 else n))"

definition get_ip_mask :: "u8 list \<Rightarrow> bool \<Rightarrow> u8 checked" where
  "get_ip_mask m ipv6 = ip_mask_loop m [0..<(if ipv6 then 128 else 32)] False 0"

text \<open>An IPv4 mask is a word in network order: its bytes as they lie in memory.\<close>

definition get_ipv4_mask :: "u32 \<Rightarrow> u8 checked" where
  "get_ipv4_mask m = get_ip_mask (le_bytes 4 m) False"

definition get_ipv6_mask :: "u8 list \<Rightarrow> u8 checked" where
  "get_ipv6_mask m = get_ip_mask m True"

text \<open>The mask of a prefix length: whole bytes of ones, then the byte with the rest.\<close>

definition sai_populate_ip_mask :: "u8 \<Rightarrow> bool \<Rightarrow> u8 list checked" where
  "sai_populate_ip_mask bits ipv6 =
     (if ipv6 \<and> bits > 128 \<or> \<not> ipv6 \<and> bits > 32 then Inl Thrown
      else
        (let n = (if ipv6 then 16 else 4);
             full = unat bits div 8;
             m = replicate full 0xFF @ replicate (n - full) 0;
             r = unat bits mod 8
         in Inr (if r \<noteq> 0 then m[full := push_bit (8 - r) 0xFF] else m)))"

section \<open>Keys\<close>

text \<open>The text of an address or a prefix exists when its family is known and its mask has no holes.\<close>

fun ip_address_text :: "sai_ip_address \<Rightarrow> unit checked" where
  "ip_address_text (IpFamily f) = Inl Thrown"
| "ip_address_text a = Inr ()"

fun ip_prefix_text :: "sai_ip_prefix \<Rightarrow> unit checked" where
  "ip_prefix_text (PrefixV4 a m) = chk_bind (get_ipv4_mask m) (\<lambda>_. Inr ())"
| "ip_prefix_text (PrefixV6 a m) = chk_bind (get_ipv6_mask m) (\<lambda>_. Inr ())"
| "ip_prefix_text (PrefixFamily f) = Inl Thrown"

fun entry_text :: "sai_object_key \<Rightarrow> unit checked" where
  "entry_text (KeyNeighbor e) = ip_address_text (neighbor_ip_address e)"
| "entry_text (KeyRoute e) = ip_prefix_text (route_destination e)"
| "entry_text k = Inr ()"

definition serialize_object_meta_key :: "'k meta_env \<Rightarrow> sai_object_meta_key \<Rightarrow> 'k checked" where
  "serialize_object_meta_key env mk =
     (let text = Inr (meta_key_text env mk) in
      case object_infos env (mk_objecttype mk) of
        None \<Rightarrow> Inl Thrown
      | Some info \<Rightarrow>
          if mk_objecttype mk = OT_FDB_ENTRY then text
          else if mk_objecttype mk = OT_ROUTE_ENTRY then chk_bind (entry_text (mk_objectkey mk)) (\<lambda>_. text)
          else if mk_objecttype mk = OT_NEIGHBOR_ENTRY then chk_bind (entry_text (mk_objectkey mk)) (\<lambda>_. text)
          else if info_isnonobjectid info then Inl Thrown
          else text)"

section \<open>Facts about masks\<close>

text \<open>Both loops accept the masks whose ones come first.\<close>

lemma ipv6_mask_loop_iff:
  assumes "sorted is" and "distinct is"
  shows "ipv6_mask_loop m is zeros \<longleftrightarrow>
    (\<forall>j \<in> set is. mask_bit m j \<longrightarrow> \<not> zeros \<and> (\<forall>i \<in> set is. i < j \<longrightarrow> mask_bit m i))"
  using assms
proof (induction "is" arbitrary: zeros)
  case (Cons i "is")
  have lt: "i < j" if "j \<in> set is" for j using Cons.prems that by (auto simp: le_less)
  show ?case
  proof (cases "zeros \<and> mask_bit m i")
    case False
    then have "ipv6_mask_loop m (i # is) zeros \<longleftrightarrow> ipv6_mask_loop m is (zeros \<or> \<not> mask_bit m i)"
      using False by auto
    also have "\<dots> \<longleftrightarrow> (\<forall>j \<in> set is. mask_bit m j \<longrightarrow> \<not> (zeros \<or> \<not> mask_bit m i)
        \<and> (\<forall>i \<in> set is. i < j \<longrightarrow> mask_bit m i))"
      using Cons by auto
    finally show ?thesis using False lt by (auto dest: less_asym)
  qed simp
qed simp

lemma ip_mask_loop_iff:
  "(\<exists>n'. ip_mask_loop m is zeros n = Inr n') \<longleftrightarrow> ipv6_mask_loop m is zeros"
  by (induction m "is" zeros arbitrary: n rule: ipv6_mask_loop.induct) auto

lemma ip_mask_loop_count:
  "ip_mask_loop m is zeros n = Inr n' \<Longrightarrow> n' = n + of_nat (length (filter (mask_bit m) is))"
  by (induction m "is" zeros n rule: ip_mask_loop.induct) (auto split: if_splits simp: algebra_simps)

definition leading_ones :: "nat \<Rightarrow> u8 list \<Rightarrow> nat \<Rightarrow> bool" where
  "leading_ones n m k \<longleftrightarrow> k \<le> n \<and> (\<forall>i < n. mask_bit m i \<longleftrightarrow> i < k)"

lemma downward_closed_initial:
  fixes n :: nat
  assumes "\<forall>j < n. P j \<longrightarrow> (\<forall>i < j. P i)"
  shows "\<exists>k \<le> n. \<forall>i < n. P i \<longleftrightarrow> i < k"
  using assms
proof (induction n)
  case (Suc n)
  then have "\<exists>k \<le> n. \<forall>i < n. P i \<longleftrightarrow> i < k" by (meson less_SucI)
  then obtain k where k: "k \<le> n" "\<forall>i < n. P i \<longleftrightarrow> i < k" by blast
  show ?case
  proof (cases "P n")
    case True
    then have "\<forall>i < n. P i" using Suc.prems by blast
    then show ?thesis using True by (intro exI [of _ "Suc n"]) (auto simp: less_Suc_eq)
  next
    case False
    then show ?thesis using k by (intro exI [of _ k]) (auto simp: less_Suc_eq)
  qed
qed simp

lemma ipv6_mask_loop_upt: "ipv6_mask_loop m [0..<n] False \<longleftrightarrow> (\<exists>k. leading_ones n m k)"
proof
  assume "ipv6_mask_loop m [0..<n] False"
  then have "\<forall>j < n. mask_bit m j \<longrightarrow> (\<forall>i < j. mask_bit m i)"
    using ipv6_mask_loop_iff [of "[0..<n]" m False] by auto
  then show "\<exists>k. leading_ones n m k"
    using downward_closed_initial [of n "mask_bit m"] by (auto simp: leading_ones_def)
next
  assume "\<exists>k. leading_ones n m k"
  then show "ipv6_mask_loop m [0..<n] False"
    using ipv6_mask_loop_iff [of "[0..<n]" m False] by (auto simp: leading_ones_def)
qed

lemma leading_ones_count:
  assumes "leading_ones n m k"
  shows "length (filter (mask_bit m) [0..<n]) = k"
proof -
  have "filter (mask_bit m) [0..<n] = filter (\<lambda>i. i < k) [0..<n]"
    using assms by (intro filter_cong) (auto simp: leading_ones_def)
  also have "\<dots> = filter (\<lambda>i. i < k) ([0..<k] @ [k..<n])"
    using assms upt_add_eq_append [of 0 k "n - k"] by (simp add: leading_ones_def)
  also have "\<dots> = [0..<k]" by (simp add: filter_empty_conv)
  finally show ?thesis by simp
qed

lemma leading_ones_unique: "leading_ones n m k \<Longrightarrow> leading_ones n m k' \<Longrightarrow> k = k'"
  using leading_ones_count by metis

text \<open>The length of a mask is found exactly when its ones come first, and then it is their number.\<close>

lemma ip_mask_loop_upt:
  assumes "n < 256"
  shows "ip_mask_loop m [0..<n] False 0 = Inr b \<longleftrightarrow> leading_ones n m (unat b)"
proof
  assume r: "ip_mask_loop m [0..<n] False 0 = Inr b"
  then obtain k where k: "leading_ones n m k"
    using ip_mask_loop_iff [of m "[0..<n]" False 0] ipv6_mask_loop_upt by auto
  have "b = of_nat k" using ip_mask_loop_count [OF r] leading_ones_count [OF k] by simp
  moreover have "k < 256" using k assms by (simp add: leading_ones_def)
  ultimately have "unat b = k" by (simp add: unat_of_nat_small)
  then show "leading_ones n m (unat b)" using k by simp
next
  assume l: "leading_ones n m (unat b)"
  then obtain b' where b': "ip_mask_loop m [0..<n] False 0 = Inr b'"
    using ip_mask_loop_iff [of m "[0..<n]" False 0] ipv6_mask_loop_upt by auto
  then have "b' = b" using ip_mask_loop_count [OF b'] leading_ones_count [OF l] by simp
  then show "ip_mask_loop m [0..<n] False 0 = Inr b" using b' by simp
qed

text \<open>The bytes that \<open>sai_populate_ip_mask\<close> leaves, and that their bits determine them.\<close>

definition mask_bytes :: "nat \<Rightarrow> nat \<Rightarrow> u8 list" where
  "mask_bytes n k = map (\<lambda>q. if q < k div 8 then 0xFF else if q = k div 8 \<and> k mod 8 \<noteq> 0
     then push_bit (8 - k mod 8) 0xFF else 0) [0..<n]"

lemma length_mask_bytes [simp]: "length (mask_bytes n k) = n"
  by (simp add: mask_bytes_def)

lemma populated_bytes:
  assumes "k \<le> 8 * n"
  shows "(let m = replicate (k div 8) 0xFF @ replicate (n - k div 8) 0; r = k mod 8
      in if r \<noteq> 0 then m[k div 8 := push_bit (8 - r) 0xFF] else m) = mask_bytes n k" (is "?l = _")
proof (rule nth_equalityI)
  have le: "k div 8 \<le> n" using assms by auto
  show "length ?l = length (mask_bytes n k)" using le by (simp add: Let_def)
  fix q assume "q < length ?l"
  then have q: "q < n" using le by (simp add: Let_def split: if_splits)
  consider "q < k div 8" | "q = k div 8" | "q > k div 8" by linarith
  then show "?l ! q = mask_bytes n k ! q"
    by cases (use q le in \<open>simp_all add: mask_bytes_def Let_def nth_append nth_list_update\<close>)
qed

lemma populate_mask_bytes:
  "sai_populate_ip_mask b v6 = (if unat b \<le> (if v6 then 128 else 32)
     then Inr (mask_bytes (if v6 then 16 else 4) (unat b)) else Inl Thrown)"
proof -
  have le: "b > 128 \<longleftrightarrow> unat b > 128" "b > 32 \<longleftrightarrow> unat b > 32"
    by (simp_all add: word_less_nat_alt)
  show ?thesis
    using populated_bytes [of "unat b" 16] populated_bytes [of "unat b" 4]
    by (cases v6) (simp_all add: sai_populate_ip_mask_def le Let_def)
qed

lemma bit_full_byte: "bit (0xFF :: u8) j \<longleftrightarrow> j < 8"
proof -
  have "(0xFF :: u8) = - 1" by simp
  then show ?thesis by (simp only: bit_minus_1_iff) simp
qed

lemma mask_bit_mask_bytes:
  assumes "i < 8 * n"
  shows "mask_bit (mask_bytes n k) i \<longleftrightarrow> i < k"
proof -
  have q: "i div 8 < n" using assms by auto
  have b: "mask_bytes n k ! (i div 8) = (if i div 8 < k div 8 then 0xFF
      else if i div 8 = k div 8 \<and> k mod 8 \<noteq> 0 then push_bit (8 - k mod 8) 0xFF else 0)"
    using q by (simp add: mask_bytes_def)
  have m: "7 - i mod 8 < 8" "i mod 8 < 8" "k mod 8 < 8" by simp_all
  have e: "8 * (i div 8) + i mod 8 = i" "8 * (k div 8) + k mod 8 = k" by simp_all
  consider "i div 8 < k div 8" | "i div 8 = k div 8" "k mod 8 \<noteq> 0" | "i div 8 = k div 8" "k mod 8 = 0"
    | "i div 8 > k div 8" by linarith
  then show ?thesis
  proof cases
    case 1
    then have "i < k" using e m(2) by linarith
    then show ?thesis unfolding mask_bit_def b using 1 m(1) bit_full_byte by (simp only: if_True simp_thms)
  next
    case 2
    have "mask_bit (mask_bytes n k) i \<longleftrightarrow> 8 - k mod 8 \<le> 7 - i mod 8"
      using 2 m unfolding mask_bit_def b by (simp only: less_irrefl if_True if_False simp_thms
          bit_push_bit_iff bit_full_byte less_imp_diff_less possible_bit_word) auto
    also have "\<dots> \<longleftrightarrow> i mod 8 < k mod 8" using m 2(2) by linarith
    also have "\<dots> \<longleftrightarrow> i < k" using 2(1) e by linarith
    finally show ?thesis .
  next
    case 3
    then have "\<not> i < k" using e by linarith
    then show ?thesis using b 3 by (simp add: mask_bit_def)
  next
    case 4
    then have "\<not> i < k" using e m(3) by linarith
    then show ?thesis using b 4 by (simp add: mask_bit_def)
  qed
qed

lemma mask_bit_inj:
  assumes "length m = n" and "length m' = n" and "\<And>i. i < 8 * n \<Longrightarrow> mask_bit m i = mask_bit m' i"
  shows "m = m'"
proof (rule nth_equalityI)
  fix q assume q: "q < length m"
  show "m ! q = m' ! q"
  proof (rule bit_word_eqI)
    fix j assume "j < LENGTH(8)"
    then have j: "j < 8" by simp
    have r: "7 - j < 8" by simp
    have "(8 * q + (7 - j)) div 8 = q" using r by simp
    moreover have "(8 * q + (7 - j)) mod 8 = 7 - j" using r by simp
    then have "7 - (8 * q + (7 - j)) mod 8 = j" using j by linarith
    moreover have "8 * q + (7 - j) < 8 * n" using q assms(1) by linarith
    ultimately show "bit (m ! q) j = bit (m' ! q) j"
      using assms(3) [of "8 * q + (7 - j)"] by (simp only: mask_bit_def)
  qed
qed (use assms in simp)

lemma leading_ones_mask_bytes:
  assumes "length m = n"
  shows "leading_ones (8 * n) m k \<longleftrightarrow> k \<le> 8 * n \<and> m = mask_bytes n k"
proof
  assume "leading_ones (8 * n) m k"
  then show "k \<le> 8 * n \<and> m = mask_bytes n k"
    using mask_bit_inj [of m n "mask_bytes n k"] assms
    by (simp add: leading_ones_def mask_bit_mask_bytes)
next
  assume "k \<le> 8 * n \<and> m = mask_bytes n k"
  then show "leading_ones (8 * n) m k" by (auto simp: leading_ones_def mask_bit_mask_bytes)
qed

lemma get_ip_mask_exact:
  assumes "length m = (if v6 then 16 else 4)"
  shows "get_ip_mask m v6 = Inr b \<longleftrightarrow> sai_populate_ip_mask b v6 = Inr m"
  using assms leading_ones_mask_bytes [of m 16 "unat b"] leading_ones_mask_bytes [of m 4 "unat b"]
  by (auto simp: get_ip_mask_def ip_mask_loop_upt populate_mask_bytes)

lemma ipv6_mask_valid_exact:
  assumes "length m = 16"
  shows "is_ipv6_mask_valid (Some m) \<longleftrightarrow> (\<exists>b. sai_populate_ip_mask b True = Inr m)"
  using assms get_ip_mask_exact [of m True] ip_mask_loop_iff [of m "[0..<128]" False 0]
  by (simp add: is_ipv6_mask_valid_def get_ip_mask_def)

end
