(* ===== verification/MetaCopy.thy ===== *)
theory MetaCopy
  imports MetaKeys
begin

text \<open>
  The copy of a value that the metadata layer keeps (class \<^verbatim>\<open>SaiAttrWrapper\<close> of \<^verbatim>\<open>meta/sai_meta.cpp\<close>): the value
  is written as text and the text is read into memory filled with zeros (\<^verbatim>\<open>sai_serialize_attr_value\<close> and
  \<^verbatim>\<open>sai_deserialize_attr_value\<close> of \<^verbatim>\<open>meta/saiserialize.cpp\<close>). What the round through the text changes is
  modelled: only the member of the type survives, character data ends at the first NUL, the mask of a
  prefix becomes a length, a list is cut to its count and an empty one loses its pointer, the data of a
  disabled ACL field or action is dropped; and so is what it throws for. Numbers, object ids, MAC and IP
  addresses, pointers and the names of enumerations are read back as they were written (decimal and
  hexadecimal numbers, \<^verbatim>\<open>inet_ntop\<close> with \<^verbatim>\<open>inet_pton\<close>, distinct names).
\<close>

section \<open>Character data\<close>

definition strnlen :: "u8 list \<Rightarrow> nat \<Rightarrow> nat" where
  "strnlen s n = length (takeWhile (\<lambda>c. c \<noteq> 0) (take n s))"

definition CHAR_LEN :: nat where "CHAR_LEN = 32"

definition char_to_int :: "u8 \<Rightarrow> u8 checked" where
  "char_to_int c =
     (if 48 \<le> c \<and> c \<le> 57 then Inr (c - 48)
      else if 65 \<le> c \<and> c \<le> 70 then Inr (c - 65 + 10)
      else if 97 \<le> c \<and> c \<le> 102 then Inr (c - 97 + 10)
      else Inl Thrown)"

text \<open>The digit that \<^verbatim>\<open>%02X\<close> prints, and what is written for a character; 92 is the backslash, 120 an x.\<close>

definition hex_char :: "u8 \<Rightarrow> u8" where
  "hex_char n = (if n < 10 then 48 + n else 55 + n)"

definition char_text :: "u8 \<Rightarrow> u8 list" where
  "char_text c =
     (if 48 \<le> c \<and> c \<le> 57 \<or> 97 \<le> c \<and> c \<le> 122 \<or> 65 \<le> c \<and> c \<le> 90 then [c]
      else if c = 92 then [92, 92]
      else [92, 120, hex_char (drop_bit 4 c), hex_char (c AND 15)])"

definition chardata_text :: "u8 list \<Rightarrow> u8 list" where
  "chardata_text data = concat (map char_text (take (strnlen data CHAR_LEN) data))"

fun text_chars :: "u8 list \<Rightarrow> u8 list checked" where
  "text_chars [] = Inr []"
| "text_chars (c # s) =
     (if c \<noteq> 92 then chk_bind (text_chars s) (\<lambda>d. Inr (c # d))
      else
        (case s of
           [] \<Rightarrow> Inl Thrown
         | e # s' \<Rightarrow>
             if e = 92 then chk_bind (text_chars s') (\<lambda>d. Inr (92 # d))
             else if e \<noteq> 120 then Inl Thrown
             else
               (case s' of
                  h # l # rest \<Rightarrow>
                    chk_bind (char_to_int h) (\<lambda>h. chk_bind (char_to_int l) (\<lambda>l.
                      chk_bind (text_chars rest) (\<lambda>d. Inr ((push_bit 4 h OR l) # d))))
                | _ \<Rightarrow> Inl Thrown)))"

definition text_chardata :: "u8 list \<Rightarrow> u8 list checked" where
  "text_chardata s =
     chk_bind (text_chars s) (\<lambda>d.
       if CHAR_LEN < length d then Inl Thrown else Inr (d @ replicate (CHAR_LEN - length d) 0))"

section \<open>Values\<close>

text \<open>Memory filled with zeros.\<close>

definition zero_value :: meta_value where
  "zero_value = \<lparr>mv_booldata = False, mv_chardata = replicate CHAR_LEN 0, mv_s32 = 0, mv_num = 0, mv_oid = 0,
     mv_objlist = (0, None), mv_list_count = 0, mv_list_null = True, mv_u32list = [], mv_families = [],
     mv_range = (0, 0), mv_addr_family = 0, mv_mask = replicate 16 0, mv_enable = False, mv_data_s32 = 0,
     mv_data_oid = 0, mv_data_objlist = (0, None)\<rparr>"

text \<open>
  A list is written as its count and its elements, or \<^verbatim>\<open>null\<close> when it has none or no pointer; the elements
  are read from the array. JSON lists (\<open>json_list\<close>) are \<^verbatim>\<open>null\<close> only without a pointer.
\<close>

definition copied_list :: "u32 \<Rightarrow> 'a list option \<Rightarrow> (u32 \<times> 'a list option) checked" where
  "copied_list n xs =
     (case xs of
        None \<Rightarrow> Inr (n, None)
      | Some l \<Rightarrow>
          if n = 0 then Inr (n, None)
          else if length l < unat n then Inl OutOfBounds
          else Inr (n, Some (take (unat n) l)))"

definition list_pointer :: "'a list \<Rightarrow> meta_value \<Rightarrow> 'a list option" where
  "list_pointer xs v = (if mv_list_null v then None else Some xs)"

definition copied_count :: "bool \<Rightarrow> meta_value \<Rightarrow> meta_value" where
  "copied_count json_list v = zero_value\<lparr>mv_list_count := mv_list_count v,
     mv_list_null := mv_list_null v \<or> \<not> json_list \<and> mv_list_count v = 0\<rparr>"

text \<open>The mask is an array of 16 bytes, of which an IPv4 mask uses the first four.\<close>

definition copied_prefix :: "meta_value \<Rightarrow> meta_value checked" where
  "copied_prefix v =
     (let v6 = (mv_addr_family v = 1) in
      if mv_addr_family v \<noteq> 0 \<and> \<not> v6 then Inl Thrown
      else
        chk_bind (get_ip_mask (take (if v6 then 16 else 4) (mv_mask v)) v6) (\<lambda>bits.
        chk_bind (sai_populate_ip_mask bits v6) (\<lambda>mask.
          Inr (zero_value\<lparr>mv_addr_family := mv_addr_family v, mv_mask := mask @ replicate (16 - length mask) 0\<rparr>))))"

definition acl_field_types :: "attr_value_type list" where
  "acl_field_types = [AV_ACL_FIELD_DATA_BOOL, AV_ACL_FIELD_DATA_UINT8, AV_ACL_FIELD_DATA_INT8,
     AV_ACL_FIELD_DATA_UINT16, AV_ACL_FIELD_DATA_INT16, AV_ACL_FIELD_DATA_UINT32, AV_ACL_FIELD_DATA_INT32,
     AV_ACL_FIELD_DATA_MAC, AV_ACL_FIELD_DATA_IPV4, AV_ACL_FIELD_DATA_IPV6, AV_ACL_FIELD_DATA_OBJECT_ID,
     AV_ACL_FIELD_DATA_OBJECT_LIST, AV_ACL_FIELD_DATA_UINT8_LIST]"

definition acl_action_types :: "attr_value_type list" where
  "acl_action_types = [AV_ACL_ACTION_DATA_BOOL, AV_ACL_ACTION_DATA_UINT8, AV_ACL_ACTION_DATA_INT8,
     AV_ACL_ACTION_DATA_UINT16, AV_ACL_ACTION_DATA_INT16, AV_ACL_ACTION_DATA_UINT32, AV_ACL_ACTION_DATA_INT32,
     AV_ACL_ACTION_DATA_MAC, AV_ACL_ACTION_DATA_IPV4, AV_ACL_ACTION_DATA_IPV6, AV_ACL_ACTION_DATA_OBJECT_ID,
     AV_ACL_ACTION_DATA_OBJECT_LIST]"

text \<open>
  A disabled field or action is the text \<^verbatim>\<open>disabled\<close>; reading the text of an enabled list of bytes has no
  case and throws.
\<close>

definition copied_acl :: "attr_value_type \<Rightarrow> meta_value \<Rightarrow> meta_value checked" where
  "copied_acl vt v =
     (let z = zero_value\<lparr>mv_enable := True\<rparr> in
      if \<not> mv_enable v then Inr zero_value
      else if vt = AV_ACL_FIELD_DATA_UINT8_LIST then Inl Thrown
      else if vt = AV_ACL_FIELD_DATA_OBJECT_LIST \<or> vt = AV_ACL_ACTION_DATA_OBJECT_LIST then
        chk_bind (copied_list (fst (mv_data_objlist v)) (snd (mv_data_objlist v)))
          (\<lambda>l. Inr (z\<lparr>mv_data_objlist := l\<rparr>))
      else if vt = AV_ACL_FIELD_DATA_OBJECT_ID \<or> vt = AV_ACL_ACTION_DATA_OBJECT_ID then
        Inr (z\<lparr>mv_data_oid := mv_data_oid v\<rparr>)
      else if vt = AV_ACL_FIELD_DATA_INT32 \<or> vt = AV_ACL_ACTION_DATA_INT32 then
        Inr (z\<lparr>mv_data_s32 := mv_data_s32 v\<rparr>)
      else Inr z)"

definition copied_value :: "meta_attr \<Rightarrow> meta_value \<Rightarrow> meta_value checked" where
  "copied_value md v =
     (let vt = ma_attrvaluetype md; z = zero_value in
      if vt = AV_BOOL then Inr (z\<lparr>mv_booldata := mv_booldata v\<rparr>)
      else if vt = AV_CHARDATA then
        chk_bind (text_chardata (chardata_text (mv_chardata v))) (\<lambda>d. Inr (z\<lparr>mv_chardata := d\<rparr>))
      else if vt \<in> set [AV_UINT8, AV_INT8, AV_UINT16, AV_INT16, AV_UINT32, AV_UINT64, AV_INT64] then
        Inr (z\<lparr>mv_num := mv_num v\<rparr>)
      else if vt = AV_INT32 then Inr (z\<lparr>mv_s32 := mv_s32 v\<rparr>)
      else if vt \<in> set [AV_MAC, AV_IPV4, AV_IPV6, AV_POINTER] then Inr z
      else if vt = AV_IP_ADDRESS then
        (if mv_addr_family v \<noteq> 0 \<and> mv_addr_family v \<noteq> 1 then Inl Thrown
         else Inr (z\<lparr>mv_addr_family := mv_addr_family v\<rparr>))
      else if vt = AV_IP_PREFIX then copied_prefix v
      else if vt = AV_OBJECT_ID then Inr (z\<lparr>mv_oid := mv_oid v\<rparr>)
      else if vt = AV_OBJECT_LIST then
        chk_bind (copied_list (fst (mv_objlist v)) (snd (mv_objlist v))) (\<lambda>l. Inr (z\<lparr>mv_objlist := l\<rparr>))
      else if vt = AV_UINT32_LIST then
        chk_bind (copied_list (mv_list_count v) (list_pointer (mv_u32list v) v)) (\<lambda>l.
          Inr ((copied_count False v)\<lparr>mv_u32list := the_default [] (snd l)\<rparr>))
      else if vt = AV_IP_ADDRESS_LIST then
        chk_bind (copied_list (mv_list_count v) (list_pointer (mv_families v) v)) (\<lambda>l.
          if \<exists>f \<in> set (the_default [] (snd l)). f \<noteq> 0 \<and> f \<noteq> 1 then Inl Thrown
          else Inr ((copied_count False v)\<lparr>mv_families := the_default [] (snd l)\<rparr>))
      else if vt \<in> set [AV_UINT8_LIST, AV_INT8_LIST, AV_UINT16_LIST, AV_INT16_LIST, AV_INT32_LIST, AV_VLAN_LIST,
          AV_ACL_CAPABILITY] then Inr (copied_count False v)
      else if vt = AV_QOS_MAP_LIST \<or> vt = AV_ACL_RESOURCE_LIST then Inr (copied_count True v)
      else if vt = AV_UINT32_RANGE \<or> vt = AV_INT32_RANGE then Inr (z\<lparr>mv_range := mv_range v\<rparr>)
      else if vt \<in> set acl_field_types \<or> vt \<in> set acl_action_types then copied_acl vt v
      else Inl Thrown)"

section \<open>Facts\<close>

text \<open>Character data is read back up to its end.\<close>

lemma char_to_int_hex:
  assumes "n < 16"
  shows "char_to_int (hex_char n) = Inr n"
proof -
  have all: "list_all (\<lambda>k. char_to_int (hex_char (of_nat k)) = Inr (of_nat k)) [0..<16]"
    by code_simp
  have "unat n < 16" using assms by (simp add: word_less_nat_alt)
  then have "char_to_int (hex_char (of_nat (unat n))) = Inr (of_nat (unat n))"
    using all unfolding list_all_iff by (metis atLeastLessThan_iff less_eq_nat.simps(1) set_upt)
  then show ?thesis by simp
qed

lemma nibbles: "drop_bit 4 (c :: u8) < 16" "(c :: u8) AND 15 < 16" "push_bit 4 (drop_bit 4 c) OR (c AND 15) = c"
proof -
  show "drop_bit 4 c < 16" using unsigned_less [of c, where ?'a = nat]
    by (simp add: word_less_nat_alt drop_bit_eq_div unat_div less_mult_imp_div_less)
  show "c AND 15 < 16" using word_and_le1 [of c 15] by (simp add: le_less_trans)
  show "push_bit 4 (drop_bit 4 c) OR (c AND 15) = c"
  proof -
    have mask: "(15 :: u8) = mask 4" by (simp add: mask_eq_exp_minus_1)
    show ?thesis unfolding mask by (rule bit_word_eqI) (auto simp: bit_simps)
  qed
qed

lemma text_chars_char: "text_chars (char_text c @ s) = chk_bind (text_chars s) (\<lambda>d. Inr (c # d))"
  by (auto simp: char_text_def char_to_int_hex nibbles)

lemma text_chars_data: "text_chars (concat (map char_text data)) = Inr data"
  by (induction data) (simp_all add: text_chars_char)

lemma copied_chardata:
  "text_chardata (chardata_text data) = Inr (take (strnlen data CHAR_LEN) data
     @ replicate (CHAR_LEN - length (take (strnlen data CHAR_LEN) data)) 0)"
proof -
  have "strnlen data CHAR_LEN \<le> CHAR_LEN"
    unfolding strnlen_def by (rule le_trans [OF length_takeWhile_le]) simp
  then show ?thesis by (simp add: text_chardata_def chardata_text_def text_chars_data)
qed

text \<open>Copying a copy gives it back.\<close>

lemma take_up_to_zero: "take (strnlen d n) d = takeWhile (\<lambda>c. c \<noteq> 0) (take n d)"
proof -
  have "takeWhile (\<lambda>c. c \<noteq> 0) (take n d) = take (strnlen d n) (take n d)"
    unfolding strnlen_def by (rule takeWhile_eq_take)
  moreover have "strnlen d n \<le> n"
    unfolding strnlen_def by (rule le_trans [OF length_takeWhile_le]) simp
  ultimately show ?thesis by (simp add: min_absorb1)
qed

lemma copied_chardata_again:
  assumes "text_chardata (chardata_text d) = Inr c"
  shows "text_chardata (chardata_text c) = Inr c"
proof -
  let ?s = "takeWhile (\<lambda>x. x \<noteq> 0) (take CHAR_LEN d)"
  have le: "length ?s \<le> CHAR_LEN" by (rule le_trans [OF length_takeWhile_le]) simp
  have c: "c = ?s @ replicate (CHAR_LEN - length ?s) 0"
    using assms by (simp add: copied_chardata take_up_to_zero)
  have "takeWhile (\<lambda>x. x \<noteq> 0) (take CHAR_LEN c) = ?s"
  proof -
    have "\<forall>x \<in> set ?s. x \<noteq> 0" by (auto dest: set_takeWhileD)
    then show ?thesis using le by (cases "CHAR_LEN - length ?s") (simp_all add: c takeWhile_append2)
  qed
  then show ?thesis by (simp add: copied_chardata take_up_to_zero) (simp add: c)
qed

lemma copied_prefix_again:
  assumes "copied_prefix v = Inr w"
  shows "copied_prefix w = Inr w"
proof -
  let ?n = "if mv_addr_family v = 1 then 16 else 4 :: nat"
  obtain bits mask where mask: "sai_populate_ip_mask bits (mv_addr_family v = 1) = Inr mask"
    and fam: "mv_addr_family v = 0 \<or> mv_addr_family v = 1"
    and w: "w = zero_value\<lparr>mv_addr_family := mv_addr_family v, mv_mask := mask @ replicate (16 - length mask) 0\<rparr>"
    using assms by (auto simp: copied_prefix_def chk_bind_eq_Inr Let_def split: if_splits)
  have len: "length mask = ?n"
    using mask by (auto simp: populate_mask_bytes mask_bytes_def split: if_splits)
  then have "get_ip_mask mask (mv_addr_family v = 1) = Inr bits"
    using mask get_ip_mask_exact [of mask "mv_addr_family v = 1" bits] by auto
  then show ?thesis using fam mask len by (auto simp: copied_prefix_def w)
qed

lemma copied_list_again: "copied_list n xs = Inr l \<Longrightarrow> copied_list (fst l) (snd l) = Inr l"
  by (auto simp: copied_list_def split: option.splits if_splits)

lemma copied_elements_again:
  "copied_list (mv_list_count v) (list_pointer xs v) = Inr l \<Longrightarrow>
    copied_list (mv_list_count v) (if mv_list_null v \<or> mv_list_count v = 0 then None else Some (the_default [] (snd l)))
      = Inr l"
  by (auto simp: copied_list_def list_pointer_def split: option.splits if_splits)

lemma copied_acl_again: "copied_acl vt v = Inr w \<Longrightarrow> copied_acl vt w = Inr w"
  using copied_list_again [of "fst (mv_data_objlist v)" "snd (mv_data_objlist v)"]
  by (auto simp: copied_acl_def zero_value_def chk_bind_eq_Inr Let_def split: if_splits)

lemmas copied_value_defs = copied_value_def copied_count_def zero_value_def acl_field_types_def
  acl_action_types_def Let_def

lemma copied_value_again:
  assumes "copied_value md v = Inr w"
  shows "copied_value md w = Inr w"
proof -
  let ?vt = "ma_attrvaluetype md"
  consider (chars) "?vt = AV_CHARDATA" | (prefix) "?vt = AV_IP_PREFIX" | (objects) "?vt = AV_OBJECT_LIST"
    | (numbers) "?vt = AV_UINT32_LIST" | (addresses) "?vt = AV_IP_ADDRESS_LIST"
    | (acl) "?vt \<in> set acl_field_types \<or> ?vt \<in> set acl_action_types"
    | (plain) "?vt \<notin> set acl_field_types" "?vt \<notin> set acl_action_types"
        "?vt \<notin> {AV_CHARDATA, AV_IP_PREFIX, AV_OBJECT_LIST, AV_UINT32_LIST, AV_IP_ADDRESS_LIST}" by blast
  then show ?thesis
  proof cases
    case chars
    then show ?thesis using assms copied_chardata_again [of "mv_chardata v"]
      by (auto simp: copied_value_defs chk_bind_eq_Inr)
  next
    case prefix
    then show ?thesis using assms copied_prefix_again [of v w] by (simp add: copied_value_defs)
  next
    case objects
    then show ?thesis using assms copied_list_again [of "fst (mv_objlist v)" "snd (mv_objlist v)"]
      by (auto simp: copied_value_defs chk_bind_eq_Inr)
  next
    case numbers
    then show ?thesis using assms copied_elements_again [of v "mv_u32list v"]
      by (auto simp: copied_value_defs list_pointer_def chk_bind_eq_Inr)
  next
    case addresses
    then obtain l where l: "copied_list (mv_list_count v) (list_pointer (mv_families v) v) = Inr l"
      and ok: "\<not> (\<exists>f \<in> set (the_default [] (snd l)). f \<noteq> 0 \<and> f \<noteq> 1)"
      and w: "w = (copied_count False v)\<lparr>mv_families := the_default [] (snd l)\<rparr>"
      using assms by (auto simp: copied_value_def chk_bind_eq_Inr split: if_splits)
    have "copied_list (mv_list_count w) (list_pointer (mv_families w) w) = Inr l"
      using copied_elements_again [OF l] by (simp add: w copied_count_def zero_value_def list_pointer_def)
    moreover have "(copied_count False w)\<lparr>mv_families := the_default [] (snd l)\<rparr> = w"
      by (simp add: w copied_count_def zero_value_def)
    ultimately show ?thesis using addresses ok by (simp add: copied_value_def)
  next
    case acl
    then have "copied_value md x = copied_acl ?vt x" for x
      by (auto simp: copied_value_def acl_field_types_def acl_action_types_def)
    then show ?thesis using assms copied_acl_again by simp
  next
    case plain
    then show ?thesis using assms
      by (cases "?vt") (auto simp: copied_value_defs split: if_splits)
  qed
qed

end
