(* ===== verification/MetaRefs.thy ===== *)
theory MetaRefs
  imports MetaCopy
begin

text \<open>
  The reference counts and the object table of the metadata layer (\<^verbatim>\<open>meta/sai_meta.cpp\<close>, first part): the
  primitive operations on the three maps of the state that everything else is built from, with the switches
  that the unit tests flip.
\<close>

section \<open>Unit tests\<close>

definition meta_unittests_enable :: "bool \<Rightarrow> 'k meta_db \<Rightarrow> 'k meta_db" where
  "meta_unittests_enable enable db = db\<lparr>unittests_enabled := enable\<rparr>"

definition meta_unittests_allow_readonly_set_once ::
  "'k meta_env \<Rightarrow> nat \<Rightarrow> u32 \<Rightarrow> 'k meta_db \<Rightarrow> sai_status \<times> 'k meta_db" where
  "meta_unittests_allow_readonly_set_once env ot i db =
     (if \<not> unittests_enabled db then (SAI_STATUS_FAILURE, db)
      else case get_attr_metadata env ot i of
        None \<Rightarrow> (SAI_STATUS_FAILURE, db)
      | Some md \<Rightarrow>
          if \<not> HAS_FLAG_READ_ONLY md then (SAI_STATUS_FAILURE, db)
          else (SAI_STATUS_SUCCESS,
            db\<lparr>unittests_set_readonly_set := List.insert (ma_attridname md) (unittests_set_readonly_set db)\<rparr>))"

definition meta_unittests_get_and_erase_set_readonly_flag ::
  "meta_attr \<Rightarrow> 'k meta_db \<Rightarrow> bool \<times> 'k meta_db" where
  "meta_unittests_get_and_erase_set_readonly_flag md db =
     (if \<not> unittests_enabled db then (False, db)
      else if ma_attridname md \<notin> set (unittests_set_readonly_set db) then (False, db)
      else (True, db\<lparr>unittests_set_readonly_set := removeAll (ma_attridname md) (unittests_set_readonly_set db)\<rparr>))"

definition get_attributes_metadata :: "'k meta_env \<Rightarrow> nat \<Rightarrow> meta_attr list checked" where
  "get_attributes_metadata env ot =
     (case object_infos env ot of None \<Rightarrow> Inl NullDeref | Some info \<Rightarrow> Inr (info_attrmetadata info))"

section \<open>Reference counts\<close>

definition object_reference_exists :: "u64 \<Rightarrow> 'k meta_db \<Rightarrow> bool" where
  "object_reference_exists oid db \<longleftrightarrow> ObjectReferences db oid \<noteq> None"

definition object_reference_inc :: "u64 \<Rightarrow> 'k meta_db \<Rightarrow> 'k meta_db checked" where
  "object_reference_inc oid db =
     (if oid = SAI_NULL_OBJECT_ID then Inr db
      else case ObjectReferences db oid of
        None \<Rightarrow> Inl Thrown
      | Some n \<Rightarrow> Inr (db\<lparr>ObjectReferences := (ObjectReferences db)(oid \<mapsto> n + 1)\<rparr>))"

definition object_reference_dec :: "u64 \<Rightarrow> 'k meta_db \<Rightarrow> 'k meta_db checked" where
  "object_reference_dec oid db =
     (if oid = SAI_NULL_OBJECT_ID then Inr db
      else case ObjectReferences db oid of
        None \<Rightarrow> Inl Thrown
      | Some n \<Rightarrow>
          if n - 1 < 0 then Inl Thrown
          else Inr (db\<lparr>ObjectReferences := (ObjectReferences db)(oid \<mapsto> n - 1)\<rparr>))"

definition object_reference_dec_list :: "object_list \<Rightarrow> 'k meta_db \<Rightarrow> 'k meta_db checked" where
  "object_reference_dec_list l = for_each object_reference_dec (list_items l)"

definition object_reference_inc_list :: "object_list \<Rightarrow> 'k meta_db \<Rightarrow> 'k meta_db checked" where
  "object_reference_inc_list l = for_each object_reference_inc (list_items l)"

definition object_reference_insert :: "u64 \<Rightarrow> 'k meta_db \<Rightarrow> 'k meta_db checked" where
  "object_reference_insert oid db =
     (if object_reference_exists oid db then Inl Thrown
      else Inr (db\<lparr>ObjectReferences := (ObjectReferences db)(oid \<mapsto> 0)\<rparr>))"

definition object_reference_count :: "u64 \<Rightarrow> 'k meta_db \<Rightarrow> int checked" where
  "object_reference_count oid db =
     (case ObjectReferences db oid of Some n \<Rightarrow> Inr n | None \<Rightarrow> Inl Thrown)"

definition object_reference_remove :: "u64 \<Rightarrow> 'k meta_db \<Rightarrow> 'k meta_db checked" where
  "object_reference_remove oid db =
     (case ObjectReferences db oid of
        Some n \<Rightarrow> if n > 0 then Inl Thrown
                  else Inr (db\<lparr>ObjectReferences := (ObjectReferences db)(oid := None)\<rparr>)
      | None \<Rightarrow> Inr (db\<lparr>ObjectReferences := (ObjectReferences db)(oid := None)\<rparr>))"

section \<open>Objects\<close>

definition object_key_exists :: "'k \<Rightarrow> 'k meta_db \<Rightarrow> bool" where
  "object_key_exists key db \<longleftrightarrow> map_of (ObjectAttrHash db) key \<noteq> None"

definition object_exists :: "'k meta_env \<Rightarrow> sai_object_meta_key \<Rightarrow> 'k meta_db \<Rightarrow> bool checked" where
  "object_exists env mk db =
     chk_bind (serialize_object_meta_key env mk) (\<lambda>key. Inr (object_key_exists key db))"

definition meta_init_db :: "'k meta_db \<Rightarrow> 'k meta_db" where
  "meta_init_db db = db\<lparr>ObjectReferences := Map.empty, ObjectAttrHash := [], AttributeKeys := [],
     map_port_to_related_set := Map.empty\<rparr>"

definition get_object_previous_attr ::
  "'k meta_env \<Rightarrow> sai_object_meta_key \<Rightarrow> meta_attr \<Rightarrow> 'k meta_db \<Rightarrow> meta_value option checked" where
  "get_object_previous_attr env mk md db =
     chk_bind (serialize_object_meta_key env mk) (\<lambda>key.
       case map_of (ObjectAttrHash db) key of
         None \<Rightarrow> Inr None
       | Some attrs \<Rightarrow> Inr (map_option snd (map_of attrs (ma_attrid md))))"

text \<open>
  The attribute is stored as the copy that \<^verbatim>\<open>SaiAttrWrapper\<close> makes of it (\<open>copied_value\<close>); making it may throw.
\<close>

definition set_object ::
  "'k meta_env \<Rightarrow> sai_object_meta_key \<Rightarrow> meta_attr \<Rightarrow> meta_attribute \<Rightarrow> 'k meta_db \<Rightarrow> 'k meta_db checked" where
  "set_object env mk md a db =
     chk_bind (serialize_object_meta_key env mk) (\<lambda>key.
       case map_of (ObjectAttrHash db) key of
         None \<Rightarrow> Inl Thrown
       | Some attrs \<Rightarrow>
           chk_bind (copied_value md (at_value a)) (\<lambda>v. Inr (db\<lparr>ObjectAttrHash :=
             AList.update key (AList.update (at_id a) (md, v) attrs) (ObjectAttrHash db)\<rparr>)))"

type_synonym object_attrs = "(u32 \<times> (meta_attr \<times> meta_value)) list"

definition get_object_attributes ::
  "'k meta_env \<Rightarrow> sai_object_meta_key \<Rightarrow> 'k meta_db \<Rightarrow> object_attrs checked" where
  "get_object_attributes env mk db =
     chk_bind (serialize_object_meta_key env mk) (\<lambda>key.
       case map_of (ObjectAttrHash db) key of None \<Rightarrow> Inl Thrown | Some attrs \<Rightarrow> Inr attrs)"

definition remove_object :: "'k meta_env \<Rightarrow> sai_object_meta_key \<Rightarrow> 'k meta_db \<Rightarrow> 'k meta_db checked" where
  "remove_object env mk db =
     chk_bind (serialize_object_meta_key env mk) (\<lambda>key.
       if \<not> object_key_exists key db then Inl Thrown
       else Inr (db\<lparr>ObjectAttrHash := AList.delete key (ObjectAttrHash db)\<rparr>))"

definition create_object :: "'k meta_env \<Rightarrow> sai_object_meta_key \<Rightarrow> 'k meta_db \<Rightarrow> 'k meta_db checked" where
  "create_object env mk db =
     chk_bind (serialize_object_meta_key env mk) (\<lambda>key.
       if object_key_exists key db then Inl Thrown
       else Inr (db\<lparr>ObjectAttrHash := AList.update key [] (ObjectAttrHash db)\<rparr>))"

end
