(* ===== verification/MetaValidation.thy ===== *)
theory MetaValidation
  imports MetaRefs
begin

text \<open>
  The checks that precede a call of the vendor's function (\<^verbatim>\<open>meta/sai_meta.cpp\<close>, \<open>meta_generic_validation_*\<close>).
  They answer a status and leave the object table as it is, with two exceptions: a read-only attribute that
  the unit tests allowed once is forgotten, and removing a switch that is in use clears the database.
  A loop that returns early on an error answers \<open>Inl\<close> of the status, and \<open>Inr\<close> of its result otherwise.
\<close>

section \<open>Types of values\<close>

text \<open>The cases of the switch statements that are handled alike in all of them.\<close>

definition primitive_types :: "attr_value_type list" where
  "primitive_types = [AV_BOOL, AV_UINT8, AV_INT8, AV_UINT16, AV_INT16, AV_UINT32, AV_INT32, AV_UINT64, AV_INT64,
     AV_MAC, AV_IPV4, AV_IPV6, AV_POINTER]"

definition acl_primitive_types :: "attr_value_type list" where
  "acl_primitive_types = [
     AV_ACL_FIELD_DATA_BOOL, AV_ACL_FIELD_DATA_UINT8, AV_ACL_FIELD_DATA_INT8, AV_ACL_FIELD_DATA_UINT16,
     AV_ACL_FIELD_DATA_INT16, AV_ACL_FIELD_DATA_INT32, AV_ACL_FIELD_DATA_UINT32, AV_ACL_FIELD_DATA_MAC,
     AV_ACL_FIELD_DATA_IPV4, AV_ACL_FIELD_DATA_IPV6,
     AV_ACL_ACTION_DATA_BOOL, AV_ACL_ACTION_DATA_UINT8, AV_ACL_ACTION_DATA_INT8, AV_ACL_ACTION_DATA_UINT16,
     AV_ACL_ACTION_DATA_INT16, AV_ACL_ACTION_DATA_UINT32, AV_ACL_ACTION_DATA_INT32, AV_ACL_ACTION_DATA_MAC,
     AV_ACL_ACTION_DATA_IPV4, AV_ACL_ACTION_DATA_IPV6]"

definition plain_list_types :: "attr_value_type list" where
  "plain_list_types = [AV_UINT8_LIST, AV_INT8_LIST, AV_UINT16_LIST, AV_INT16_LIST, AV_UINT32_LIST, AV_INT32_LIST,
     AV_QOS_MAP_LIST, AV_ACL_RESOURCE_LIST, AV_IP_ADDRESS_LIST]"

abbreviation success :: "sai_status checked" where "success \<equiv> Inr SAI_STATUS_SUCCESS"
abbreviation invalid_parameter :: "sai_status checked" where
  "invalid_parameter \<equiv> Inr SAI_STATUS_INVALID_PARAMETER"

section \<open>Lists\<close>

text \<open>\<open>oids\<close> are the ids seen so far, \<open>object_type\<close> the type of the last one that was not NULL.\<close>

fun objlist_loop ::
  "'k meta_env \<Rightarrow> 'k meta_db \<Rightarrow> meta_attr \<Rightarrow> u64 \<Rightarrow> u64 checked list \<Rightarrow> nat \<Rightarrow> u64 list \<Rightarrow> nat
     \<Rightarrow> sai_status checked" where
  "objlist_loop env db md switch_id [] i oids object_type = success"
| "objlist_loop env db md switch_id (x # xs) i oids object_type =
     chk_bind x (\<lambda>oid.
       if oid \<in> set oids then invalid_parameter
       else if oid = SAI_NULL_OBJECT_ID then
         (if ma_allownullobjectid md then objlist_loop env db md switch_id xs (Suc i) oids object_type
          else invalid_parameter)
       else
         (let ot = object_type_query env oid; query_switch_id = switch_id_query env oid in
          if ot = 0 then invalid_parameter
          else if \<not> is_allowed_object_type md ot then invalid_parameter
          else if \<not> object_reference_exists oid db then invalid_parameter
          else if i > 1 \<and> object_type \<noteq> ot then invalid_parameter
          else if \<not> object_reference_exists query_switch_id db then invalid_parameter
          else if query_switch_id \<noteq> switch_id then invalid_parameter
          else objlist_loop env db md switch_id xs (Suc i) (oid # oids) ot))"

definition meta_generic_validation_objlist ::
  "'k meta_env \<Rightarrow> 'k meta_db \<Rightarrow> meta_attr \<Rightarrow> u64 \<Rightarrow> object_list \<Rightarrow> sai_status checked" where
  "meta_generic_validation_objlist env db md switch_id l =
     (if unat (fst l) > MAX_LIST_COUNT then invalid_parameter
      else if snd l = None then (if fst l = 0 then success else invalid_parameter)
      else objlist_loop env db md switch_id (list_items l) 0 [] 0)"

definition one_oid :: "u64 \<Rightarrow> object_list" where
  "one_oid oid = (1, Some [oid])"

definition meta_genetic_validation_list :: "u32 \<Rightarrow> bool \<Rightarrow> sai_status checked" where
  "meta_genetic_validation_list n null =
     (if unat n > MAX_LIST_COUNT then invalid_parameter
      else if n = 0 \<and> \<not> null then invalid_parameter
      else if null then (if n = 0 then success else invalid_parameter)
      else success)"

section \<open>Keys of attributes\<close>

text \<open>The map from attribute ids to texts, in the order of the ids.\<close>

fun key_put :: "int \<Rightarrow> string \<Rightarrow> (int \<times> string) list \<Rightarrow> (int \<times> string) list" where
  "key_put i s [] = [(i, s)]"
| "key_put i s ((j, t) # keys) =
     (if i < j then (i, s) # (j, t) # keys else if i = j then (i, s) # keys else (j, t) # key_put i s keys)"

fun comma_separated :: "nat list \<Rightarrow> string" where
  "comma_separated [] = []"
| "comma_separated [n] = print_unsigned n"
| "comma_separated (n # ns) = print_unsigned n @ '','' @ comma_separated ns"

definition key_value_text :: "attr_value_type \<Rightarrow> meta_value \<Rightarrow> string checked" where
  "key_value_text vt v =
     (case vt of
        AV_UINT32_LIST \<Rightarrow> Inr (comma_separated (mv_u32list v))
      | AV_INT32 \<Rightarrow> Inr (print_signed (mv_s32 v))
      | AV_UINT32 \<Rightarrow> Inr (print_unsigned (mv_num v))
      | AV_UINT8 \<Rightarrow> Inr (print_unsigned (mv_num v))
      | AV_UINT16 \<Rightarrow> Inr (print_unsigned (mv_num v))
      | AV_OBJECT_ID \<Rightarrow> Inr (sai_serialize_object_id (mv_oid v))
      | _ \<Rightarrow> Inl Thrown)"

fun construct_key_loop ::
  "'k meta_env \<Rightarrow> sai_object_meta_key \<Rightarrow> meta_attribute list \<Rightarrow> (int \<times> string) list
     \<Rightarrow> (int \<times> string) list checked" where
  "construct_key_loop env mk [] keys = Inr keys"
| "construct_key_loop env mk (a # attrs) keys =
     (case get_attr_metadata env (mk_objecttype mk) (at_id a) of
        None \<Rightarrow> Inl NullDeref
      | Some md \<Rightarrow>
          if \<not> HAS_FLAG_KEY md then construct_key_loop env mk attrs keys
          else chk_bind (key_value_text (ma_attrvaluetype md) (at_value a)) (\<lambda>s.
            construct_key_loop env mk attrs
              (key_put (sint (ma_attrid md)) (ma_attridname md @ '':'' @ s) keys)))"

definition construct_key :: "'k meta_env \<Rightarrow> sai_object_meta_key \<Rightarrow> meta_attribute list \<Rightarrow> string checked" where
  "construct_key env mk attrs =
     chk_bind (construct_key_loop env mk attrs []) (\<lambda>keys. Inr (concat (map (\<lambda>(i, s). s @ '';'') keys)))"

section \<open>The switch of an object\<close>

fun switch_member :: "struct_member list \<Rightarrow> sai_object_meta_key \<Rightarrow> u64" where
  "switch_member [] mk = SAI_NULL_OBJECT_ID"
| "switch_member (m # ms) mk =
     (if sm_is_oid m \<and> OT_SWITCH \<in> set (sm_allowedobjecttypes m) then sm_getoid m mk else switch_member ms mk)"

definition meta_extract_switch_id :: "'k meta_env \<Rightarrow> sai_object_meta_key \<Rightarrow> u64 \<Rightarrow> u64 checked" where
  "meta_extract_switch_id env mk switch_id =
     (case object_infos env (mk_objecttype mk) of
        None \<Rightarrow> Inl NullDeref
      | Some info \<Rightarrow>
          if info_isnonobjectid info then Inr (switch_member (info_structmembers info) mk) else Inr switch_id)"

fun non_object_loop ::
  "'k meta_env \<Rightarrow> 'k meta_db \<Rightarrow> sai_object_meta_key \<Rightarrow> u64 \<Rightarrow> struct_member list \<Rightarrow> sai_status checked" where
  "non_object_loop env db mk switch_id [] = success"
| "non_object_loop env db mk switch_id (m # ms) =
     (if \<not> sm_is_oid m then non_object_loop env db mk switch_id ms
      else
        (let oid = sm_getoid m mk in
         if oid = SAI_NULL_OBJECT_ID then
           (if mk_objecttype mk = OT_FDB_ENTRY then non_object_loop env db mk switch_id ms else invalid_parameter)
         else if \<not> object_reference_exists oid db then invalid_parameter
         else if object_type_query env oid \<notin> set (sm_allowedobjecttypes m) then invalid_parameter
         else if \<not> object_reference_exists (switch_id_query env oid) db then invalid_parameter
         else if switch_id \<noteq> switch_id_query env oid then invalid_parameter
         else non_object_loop env db mk switch_id ms))"

definition meta_generic_validate_non_object_on_create ::
  "'k meta_env \<Rightarrow> 'k meta_db \<Rightarrow> sai_object_meta_key \<Rightarrow> u64 \<Rightarrow> sai_status checked" where
  "meta_generic_validate_non_object_on_create env db mk switch_id =
     (case object_infos env (mk_objecttype mk) of
        None \<Rightarrow> Inl NullDeref
      | Some info \<Rightarrow>
          if \<not> info_isnonobjectid info then success
          else non_object_loop env db mk switch_id (info_structmembers info))"

text \<open>The switch that a create is for; a switch is created on no switch.\<close>

definition create_switch_id ::
  "'k meta_env \<Rightarrow> 'k meta_db \<Rightarrow> sai_object_meta_key \<Rightarrow> u64 \<Rightarrow> (sai_status + u64) checked" where
  "create_switch_id env db mk switch_id =
     (if mk_objecttype mk = OT_SWITCH then Inr (Inr SAI_NULL_OBJECT_ID)
      else chk_bind (meta_extract_switch_id env mk switch_id) (\<lambda>switch_id.
        if switch_id = SAI_NULL_OBJECT_ID then Inr (Inl SAI_STATUS_INVALID_PARAMETER)
        else if object_type_query env switch_id \<noteq> OT_SWITCH then Inr (Inl SAI_STATUS_INVALID_PARAMETER)
        else chk_bind (object_exists env (oid_key OT_SWITCH switch_id) db) (\<lambda>ex.
          if \<not> ex then Inr (Inl SAI_STATUS_INVALID_PARAMETER)
          else if \<not> object_reference_exists switch_id db then Inr (Inl SAI_STATUS_INVALID_PARAMETER)
          else Inr (Inr switch_id))))"

end
