(* ===== verification/MetaChecks.thy ===== *)
theory MetaChecks
  imports MetaValidation
begin

text \<open>
  The four checks \<open>meta_generic_validation_create\<close>, \<open>_remove\<close>, \<open>_set\<close> and \<open>_get\<close> of \<^verbatim>\<open>meta/sai_meta.cpp\<close>,
  composed of the parts in \<open>MetaValidation\<close>; the long loops of the create are one definition each. An
  attribute array of the caller has \<open>attr_count\<close> elements, or is NULL.
\<close>

definition meta_attr_array :: "nat \<Rightarrow> meta_attribute list option \<Rightarrow> meta_attribute list" where
  "meta_attr_array attr_count attr_list = take attr_count (the_default [] attr_list)"

section \<open>Create\<close>

definition chardata_check :: "u8 list \<Rightarrow> sai_status checked" where
  "chardata_check chardata =
     (let len = strnlen chardata SAI_HOSTIF_NAME_SIZE in
      if len = SAI_HOSTIF_NAME_SIZE then invalid_parameter
      else if len = 0 then invalid_parameter
      else if \<exists>c \<in> set (take len chardata). c < 0x20 \<or> c > 0x7e then invalid_parameter
      else success)"

definition addr_family_check :: "int \<Rightarrow> sai_status checked" where
  "addr_family_check family = (if family \<noteq> 0 \<and> family \<noteq> 1 then invalid_parameter else success)"

definition range_check :: "int \<times> int \<Rightarrow> sai_status checked" where
  "range_check r = (if fst r > snd r then invalid_parameter else success)"

text \<open>ACL fields and actions: \<open>objlist\<close> checks a list of ids, when the field or action is enabled.\<close>

definition acl_types :: "attr_value_type list" where
  "acl_types = acl_primitive_types @ [AV_ACL_FIELD_DATA_OBJECT_ID, AV_ACL_ACTION_DATA_OBJECT_ID,
     AV_ACL_FIELD_DATA_OBJECT_LIST, AV_ACL_ACTION_DATA_OBJECT_LIST]"

definition acl_value_check ::
  "attr_value_type \<Rightarrow> (object_list \<Rightarrow> sai_status checked) \<Rightarrow> meta_value \<Rightarrow> sai_status checked" where
  "acl_value_check vt objlist v =
     (if vt \<in> set acl_primitive_types then success
      else if \<not> mv_enable v then success
      else if vt = AV_ACL_FIELD_DATA_OBJECT_ID \<or> vt = AV_ACL_ACTION_DATA_OBJECT_ID
      then objlist (one_oid (mv_data_oid v))
      else objlist (mv_data_objlist v))"

text \<open>What a value must be, by the type of the attribute, when an object is created.\<close>

definition create_value_check ::
  "'k meta_env \<Rightarrow> 'k meta_db \<Rightarrow> meta_attr \<Rightarrow> u64 \<Rightarrow> meta_value \<Rightarrow> sai_status checked" where
  "create_value_check env db md switch_id v =
     (let vt = ma_attrvaluetype md; objlist = meta_generic_validation_objlist env db md switch_id in
      if vt = AV_CHARDATA then chardata_check (mv_chardata v)
      else if vt \<in> set primitive_types then success
      else if vt = AV_IP_ADDRESS then addr_family_check (mv_addr_family v)
      else if vt = AV_OBJECT_ID then objlist (one_oid (mv_oid v))
      else if vt = AV_OBJECT_LIST then objlist (mv_objlist v)
      else if vt \<in> set acl_types then acl_value_check vt objlist v
      else if vt \<in> set plain_list_types then meta_genetic_validation_list (mv_list_count v) (mv_list_null v)
      else if vt = AV_UINT32_RANGE \<or> vt = AV_INT32_RANGE then range_check (mv_range v)
      else if vt = AV_IP_PREFIX then addr_family_check (mv_addr_family v)
      else Inl Thrown)"

definition enum_value :: "attr_value_type \<Rightarrow> meta_value \<Rightarrow> int" where
  "enum_value vt v =
     (if vt = AV_ACL_FIELD_DATA_INT32 \<or> vt = AV_ACL_ACTION_DATA_INT32 then mv_data_s32 v else mv_s32 v)"

text \<open>
  The values of an enumeration list are not looked at: the loop over them starts at the count. Only a
  missing array is found.
\<close>

definition enum_check :: "meta_attr \<Rightarrow> meta_value \<Rightarrow> sai_status checked" where
  "enum_check md v =
     (if ma_isenum md \<and> \<not> is_allowed_enum_value md (enum_value (ma_attrvaluetype md) v) then invalid_parameter
      else if ma_isenumlist md \<and> mv_list_count v \<noteq> 0 \<and> mv_list_null v then invalid_parameter
      else success)"

fun create_attr_loop ::
  "'k meta_env \<Rightarrow> 'k meta_db \<Rightarrow> sai_object_meta_key \<Rightarrow> u64 \<Rightarrow> meta_attribute list \<Rightarrow> u32 list \<Rightarrow> bool
     \<Rightarrow> (sai_status + bool) checked" where
  "create_attr_loop env db mk switch_id [] seen haskeys = Inr (Inr haskeys)"
| "create_attr_loop env db mk switch_id (a # attrs) seen haskeys =
     (case get_attr_metadata env (mk_objecttype mk) (at_id a) of
        None \<Rightarrow> Inr (Inl SAI_STATUS_FAILURE)
      | Some md \<Rightarrow>
          if at_id a \<in> set seen then Inr (Inl SAI_STATUS_INVALID_PARAMETER)
          else if HAS_FLAG_READ_ONLY md then Inr (Inl SAI_STATUS_INVALID_PARAMETER)
          else chk_bind (and_then (create_value_check env db md switch_id (at_value a)) (enum_check md (at_value a)))
            (\<lambda>status. if status \<noteq> SAI_STATUS_SUCCESS then Inr (Inl status)
              else create_attr_loop env db mk switch_id attrs (at_id a # seen) (haskeys \<or> HAS_FLAG_KEY md)))"

text \<open>
  The thresholds of a buffer profile are mandatory when the mode of its pool asks for them: \<open>Inl\<close> of the
  status to return, \<open>Inr False\<close> when the attribute may be missing.
\<close>

definition buffer_profile_mandatory ::
  "'k meta_env \<Rightarrow> 'k meta_db \<Rightarrow> meta_attribute list \<Rightarrow> meta_attr \<Rightarrow> (sai_status + bool) checked" where
  "buffer_profile_mandatory env db attrs md =
     (case get_attr_by_id BUFFER_PROFILE_ATTR_POOL_ID attrs of
        None \<Rightarrow> Inr (Inl SAI_STATUS_MANDATORY_ATTRIBUTE_MISSING)
      | Some pool_id_attr \<Rightarrow>
          let pool_id = mv_oid (at_value pool_id_attr) in
          if pool_id = SAI_NULL_OBJECT_ID then Inr (Inr False)
          else case get_attr_metadata env OT_BUFFER_POOL BUFFER_POOL_ATTR_THRESHOLD_MODE of
            None \<Rightarrow> Inl NullDeref
          | Some pool_md \<Rightarrow>
              chk_bind (get_object_previous_attr env (oid_key OT_BUFFER_POOL pool_id) pool_md db) (\<lambda>prev.
                case (case prev of None \<Rightarrow> ma_defaultvalue pool_md | Some v \<Rightarrow> Some v) of
                  None \<Rightarrow> Inl NullDeref
                | Some v \<Rightarrow> Inr (Inr
                    (mv_s32 v = BUFFER_POOL_THRESHOLD_MODE_DYNAMIC
                       \<and> ma_attrid md = BUFFER_PROFILE_ATTR_SHARED_DYNAMIC_TH
                     \<or> mv_s32 v = BUFFER_POOL_THRESHOLD_MODE_STATIC
                       \<and> ma_attrid md = BUFFER_PROFILE_ATTR_SHARED_STATIC_TH))))"

fun mandatory_loop ::
  "'k meta_env \<Rightarrow> 'k meta_db \<Rightarrow> meta_attribute list \<Rightarrow> meta_attr list \<Rightarrow> sai_status checked" where
  "mandatory_loop env db attrs [] = success"
| "mandatory_loop env db attrs (md # mds) =
     (if \<not> HAS_FLAG_MANDATORY_ON_CREATE md \<or> ma_isconditional md \<or> ma_attrid md \<in> at_id ` set attrs
      then mandatory_loop env db attrs mds
      else chk_bind
        (if ma_objecttype md = OT_BUFFER_PROFILE
            \<and> (ma_attrid md = BUFFER_PROFILE_ATTR_SHARED_DYNAMIC_TH
               \<or> ma_attrid md = BUFFER_PROFILE_ATTR_SHARED_STATIC_TH)
         then buffer_profile_mandatory env db attrs md else Inr (Inr True))
        (\<lambda>r. case r of
           Inl status \<Rightarrow> Inr status
         | Inr needed \<Rightarrow>
             if \<not> needed then mandatory_loop env db attrs mds
             else if ma_attrid md = ACL_TABLE_ATTR_FIELD_ACL_RANGE_TYPE \<and> ma_objecttype md = OT_ACL_TABLE
             then mandatory_loop env db attrs mds
             else Inr SAI_STATUS_MANDATORY_ATTRIBUTE_MISSING))"

text \<open>A condition compares the value passed, or else the default value, which may be missing.\<close>

fun any_condition ::
  "'k meta_env \<Rightarrow> nat \<Rightarrow> meta_attribute list \<Rightarrow> (u32 \<times> meta_value) list \<Rightarrow> bool checked" where
  "any_condition env ot attrs [] = Inr False"
| "any_condition env ot attrs ((attrid, condition) # cs) =
     (case get_attr_metadata env ot attrid of
        None \<Rightarrow> Inl NullDeref
      | Some cmd \<Rightarrow>
          (case (case get_attr_by_id attrid attrs of
                   None \<Rightarrow> ma_defaultvalue cmd | Some cattr \<Rightarrow> Some (at_value cattr)) of
             None \<Rightarrow> Inl NullDeref
           | Some cvalue \<Rightarrow>
               if ma_attrvaluetype cmd = AV_BOOL
               then (if mv_booldata condition = mv_booldata cvalue then Inr True
                     else any_condition env ot attrs cs)
               else if mv_s32 condition = enum_value (ma_attrvaluetype cmd) cvalue then Inr True
               else any_condition env ot attrs cs))"

fun conditional_loop ::
  "'k meta_env \<Rightarrow> nat \<Rightarrow> meta_attribute list \<Rightarrow> meta_attr list \<Rightarrow> sai_status checked" where
  "conditional_loop env ot attrs [] = success"
| "conditional_loop env ot attrs (md # mds) =
     (if \<not> ma_isconditional md then conditional_loop env ot attrs mds
      else chk_bind (any_condition env ot attrs (ma_conditions md)) (\<lambda>any.
        let passed = ma_attrid md \<in> at_id ` set attrs in
        if \<not> any then (if passed then invalid_parameter else conditional_loop env ot attrs mds)
        else if \<not> passed then Inr SAI_STATUS_MANDATORY_ATTRIBUTE_MISSING
        else conditional_loop env ot attrs mds))"

definition create_exists_check ::
  "'k meta_env \<Rightarrow> 'k meta_db \<Rightarrow> sai_object_meta_key \<Rightarrow> sai_status checked" where
  "create_exists_check env db mk =
     (case object_infos env (mk_objecttype mk) of
        None \<Rightarrow> Inl NullDeref
      | Some info \<Rightarrow>
          if info_isnonobjectid info
          then chk_bind (object_exists env mk db) (\<lambda>ex. if ex then Inr SAI_STATUS_ITEM_ALREADY_EXISTS else success)
          else success)"

definition attribute_key_check ::
  "'k meta_env \<Rightarrow> 'k meta_db \<Rightarrow> sai_object_meta_key \<Rightarrow> meta_attribute list \<Rightarrow> bool \<Rightarrow> sai_status checked" where
  "attribute_key_check env db mk attrs haskeys =
     (if \<not> haskeys then success
      else chk_bind (construct_key env mk attrs) (\<lambda>key.
        if key \<in> snd ` set (AttributeKeys db) then invalid_parameter else success))"

definition meta_generic_validation_create ::
  "'k meta_env \<Rightarrow> sai_object_meta_key \<Rightarrow> u64 \<Rightarrow> nat \<Rightarrow> meta_attribute list option \<Rightarrow> 'k meta_db
     \<Rightarrow> sai_status checked" where
  "meta_generic_validation_create env mk switch_id attr_count attr_list db =
     (if attr_count > MAX_LIST_COUNT then invalid_parameter
      else if attr_count > 0 \<and> attr_list = None then invalid_parameter
      else chk_bind (create_switch_id env db mk switch_id) (\<lambda>r. case r of
          Inl status \<Rightarrow> Inr status
        | Inr switch_id \<Rightarrow>
            let attrs = meta_attr_array attr_count attr_list in
            and_then (meta_generic_validate_non_object_on_create env db mk switch_id)
              (chk_bind (create_attr_loop env db mk switch_id attrs [] False) (\<lambda>r. case r of
                 Inl status \<Rightarrow> Inr status
               | Inr haskeys \<Rightarrow>
                   and_then (create_exists_check env db mk)
                     (chk_bind (get_attributes_metadata env (mk_objecttype mk)) (\<lambda>mds.
                       if mds = [] then Inr SAI_STATUS_FAILURE
                       else and_then (mandatory_loop env db attrs mds)
                         (and_then (conditional_loop env (mk_objecttype mk) attrs mds)
                           (attribute_key_check env db mk attrs haskeys))))))))"

section \<open>Remove\<close>

fun null_items :: "u64 checked list \<Rightarrow> bool checked" where
  "null_items [] = Inr True"
| "null_items (x # xs) = chk_bind x (\<lambda>oid. if oid \<noteq> SAI_NULL_OBJECT_ID then Inr False else null_items xs)"

fun default_state_loop :: "object_attrs \<Rightarrow> bool checked" where
  "default_state_loop [] = Inr True"
| "default_state_loop ((i, md, v) # attrs) =
     (if ma_isreadonly md then default_state_loop attrs
      else if \<not> ma_isoidattribute md then default_state_loop attrs
      else if ma_attrvaluetype md = AV_OBJECT_ID
      then (if mv_oid v \<noteq> SAI_NULL_OBJECT_ID then Inr False else default_state_loop attrs)
      else if ma_attrvaluetype md = AV_OBJECT_LIST
      then chk_bind (null_items (list_items (mv_objlist v)))
        (\<lambda>null. if null then default_state_loop attrs else Inr False)
      else Inr False)"

definition meta_is_object_in_default_state :: "'k meta_env \<Rightarrow> 'k meta_db \<Rightarrow> u64 \<Rightarrow> bool checked" where
  "meta_is_object_in_default_state env db oid =
     (if oid = SAI_NULL_OBJECT_ID then Inl Thrown
      else if \<not> object_reference_exists oid db then Inr False
      else chk_bind (serialize_object_meta_key env (oid_key (object_type_query env oid) oid)) (\<lambda>key.
        case map_of (ObjectAttrHash db) key of
          None \<Rightarrow> Inr False
        | Some attrs \<Rightarrow> default_state_loop attrs))"

text \<open>One object must have no references and be in its default state, the port first, then what it brought.\<close>

definition removable :: "'k meta_env \<Rightarrow> 'k meta_db \<Rightarrow> u64 \<Rightarrow> sai_status checked" where
  "removable env db oid =
     chk_bind (object_reference_count oid db) (\<lambda>n.
       if n \<noteq> 0 then Inr SAI_STATUS_FAILURE
       else chk_bind (meta_is_object_in_default_state env db oid) (\<lambda>ok.
         if ok then success else Inr SAI_STATUS_FAILURE))"

fun related_loop :: "'k meta_env \<Rightarrow> 'k meta_db \<Rightarrow> u64 list \<Rightarrow> sai_status checked" where
  "related_loop env db [] = success"
| "related_loop env db (oid # oids) = and_then (removable env db oid) (related_loop env db oids)"

definition meta_port_remove_validation ::
  "'k meta_env \<Rightarrow> 'k meta_db \<Rightarrow> sai_object_meta_key \<Rightarrow> sai_status checked" where
  "meta_port_remove_validation env db mk =
     (case map_port_to_related_set db (mk_oid mk) of
        None \<Rightarrow> success
      | Some oids \<Rightarrow> and_then (removable env db (mk_oid mk)) (related_loop env db oids))"

definition meta_generic_validation_remove ::
  "'k meta_env \<Rightarrow> sai_object_meta_key \<Rightarrow> 'k meta_db \<Rightarrow> (sai_status \<times> 'k meta_db) checked" where
  "meta_generic_validation_remove env mk db =
     (let keep = (\<lambda>status. (status, db)); ot = object_type_query env (mk_oid mk) in
      chk_bind (object_exists env mk db) (\<lambda>ex.
        if \<not> ex then Inr (keep SAI_STATUS_INVALID_PARAMETER)
        else case object_infos env (mk_objecttype mk) of
          None \<Rightarrow> Inl NullDeref
        | Some info \<Rightarrow>
            if info_isnonobjectid info then Inr (keep SAI_STATUS_SUCCESS)
            else if mk_oid mk = SAI_NULL_OBJECT_ID then Inr (keep SAI_STATUS_INVALID_PARAMETER)
            else if ot = 0 then Inr (keep SAI_STATUS_INVALID_PARAMETER)
            else if ot \<noteq> mk_objecttype mk then Inr (keep SAI_STATUS_INVALID_PARAMETER)
            else case ObjectReferences db (mk_oid mk) of
              None \<Rightarrow> Inr (keep SAI_STATUS_INVALID_PARAMETER)
            | Some n \<Rightarrow>
                if n \<noteq> 0 then
                  (if ot = OT_SWITCH then Inr (SAI_STATUS_SUCCESS, meta_init_db db)
                   else Inr (keep SAI_STATUS_INVALID_PARAMETER))
                else if mk_objecttype mk = OT_PORT
                then chk_bind (meta_port_remove_validation env db mk) (\<lambda>status. Inr (keep status))
                else Inr (keep SAI_STATUS_SUCCESS)))"

section \<open>Set\<close>

text \<open>
  As at creation, but without character data, with the capability list, and with a null scheduler profile
  let through.
\<close>

definition set_value_check ::
  "'k meta_env \<Rightarrow> 'k meta_db \<Rightarrow> meta_attr \<Rightarrow> u64 \<Rightarrow> meta_value \<Rightarrow> sai_status checked" where
  "set_value_check env db md switch_id v =
     (let vt = ma_attrvaluetype md; objlist = meta_generic_validation_objlist env db md switch_id in
      if vt \<in> set primitive_types then success
      else if vt = AV_IP_ADDRESS then addr_family_check (mv_addr_family v)
      else if vt = AV_OBJECT_ID
      then (if ma_objecttype md = OT_SCHEDULER_GROUP \<and> ma_attrid md = SCHEDULER_GROUP_ATTR_SCHEDULER_PROFILE_ID
              \<and> mv_oid v = SAI_NULL_OBJECT_ID then success
            else objlist (one_oid (mv_oid v)))
      else if vt = AV_OBJECT_LIST then objlist (mv_objlist v)
      else if vt \<in> set acl_types then acl_value_check vt objlist v
      else if vt \<in> set plain_list_types then meta_genetic_validation_list (mv_list_count v) (mv_list_null v)
      else if vt = AV_UINT32_RANGE \<or> vt = AV_INT32_RANGE then range_check (mv_range v)
      else if vt = AV_IP_PREFIX then addr_family_check (mv_addr_family v)
      else if vt = AV_ACL_CAPABILITY then meta_genetic_validation_list (mv_list_count v) (mv_list_null v)
      else Inl Thrown)"

text \<open>The switch of the object, with its existence checked for an object named by an id.\<close>

definition set_switch_id ::
  "'k meta_env \<Rightarrow> 'k meta_db \<Rightarrow> sai_object_meta_key \<Rightarrow> (sai_status + u64) checked" where
  "set_switch_id env db mk =
     (case object_infos env (mk_objecttype mk) of
        None \<Rightarrow> Inl NullDeref
      | Some info \<Rightarrow>
          let switch_id = (if info_isnonobjectid info then SAI_NULL_OBJECT_ID
                           else switch_id_query env (mk_oid mk)) in
          if \<not> info_isnonobjectid info \<and> \<not> object_reference_exists switch_id db
          then Inr (Inl SAI_STATUS_INVALID_PARAMETER)
          else chk_bind (meta_extract_switch_id env mk switch_id) (\<lambda>switch_id. Inr (Inr switch_id)))"

text \<open>The object exists, and one named by an id is of the type it is addressed as.\<close>

definition exists_as_type ::
  "'k meta_env \<Rightarrow> 'k meta_db \<Rightarrow> sai_object_meta_key \<Rightarrow> sai_status checked" where
  "exists_as_type env db mk =
     chk_bind (object_exists env mk db) (\<lambda>ex.
       if \<not> ex then invalid_parameter
       else case object_infos env (mk_objecttype mk) of
         None \<Rightarrow> Inl NullDeref
       | Some info \<Rightarrow>
           if info_isnonobjectid info then success
           else if object_type_query env (mk_oid mk) = 0 then invalid_parameter
           else if object_type_query env (mk_oid mk) \<noteq> mk_objecttype mk then invalid_parameter
           else success)"

definition set_checks ::
  "'k meta_env \<Rightarrow> 'k meta_db \<Rightarrow> sai_object_meta_key \<Rightarrow> meta_attr \<Rightarrow> meta_value \<Rightarrow> sai_status checked" where
  "set_checks env db mk md v =
     (if HAS_FLAG_CREATE_ONLY md then invalid_parameter
      else if HAS_FLAG_KEY md then invalid_parameter
      else chk_bind (set_switch_id env db mk) (\<lambda>r. case r of
          Inl status \<Rightarrow> Inr status
        | Inr switch_id \<Rightarrow>
            and_then (set_value_check env db md switch_id v)
              (and_then (enum_check md v)
                (chk_bind (if ma_isconditional md then get_object_previous_attr env mk md db else Inr None) (\<lambda>_.
                  exists_as_type env db mk)))))"

definition meta_generic_validation_set ::
  "'k meta_env \<Rightarrow> sai_object_meta_key \<Rightarrow> meta_attribute option \<Rightarrow> 'k meta_db \<Rightarrow> (sai_status \<times> 'k meta_db) checked"
where
  "meta_generic_validation_set env mk attr db =
     (case attr of
        None \<Rightarrow> Inr (SAI_STATUS_INVALID_PARAMETER, db)
      | Some a \<Rightarrow>
          (case get_attr_metadata env (mk_objecttype mk) (at_id a) of
             None \<Rightarrow> Inr (SAI_STATUS_FAILURE, db)
           | Some md \<Rightarrow>
               let (allowed_once, db') = meta_unittests_get_and_erase_set_readonly_flag md db in
               if HAS_FLAG_READ_ONLY md \<and> \<not> allowed_once then Inr (SAI_STATUS_INVALID_PARAMETER, db)
               else (let db = (if HAS_FLAG_READ_ONLY md then db' else db) in
                 chk_bind (set_checks env db mk md (at_value a)) (\<lambda>status. Inr (status, db)))))"

section \<open>Get\<close>

text \<open>
  The caller's enumeration values are set to zero before the call: the \<^verbatim>\<open>s32\<close> of the union, which lies over
  the enable flag of ACL data.
\<close>

definition clear_enum :: "meta_attr \<Rightarrow> meta_attribute \<Rightarrow> meta_attribute" where
  "clear_enum md a = (if ma_isenum md then a\<lparr>at_value := (at_value a)\<lparr>mv_s32 := 0, mv_enable := False\<rparr>\<rparr> else a)"

definition vlan_list_check :: "u32 \<Rightarrow> bool \<Rightarrow> sai_status checked" where
  "vlan_list_check n null =
     (if n = 0 \<and> \<not> null then invalid_parameter
      else if n \<noteq> 0 \<and> null then invalid_parameter
      else if unat n > MAXIMUM_VLAN_NUMBER then invalid_parameter
      else success)"

definition objlist_buffer_check :: "object_list \<Rightarrow> sai_status checked" where
  "objlist_buffer_check l = meta_genetic_validation_list (fst l) (snd l = None)"

definition get_value_check :: "meta_attr \<Rightarrow> meta_value \<Rightarrow> sai_status checked" where
  "get_value_check md v =
     (let vt = ma_attrvaluetype md in
      if vt \<in> set primitive_types \<or> vt = AV_CHARDATA \<or> vt = AV_IP_ADDRESS then success
      else if vt = AV_OBJECT_ID then success
      else if vt = AV_OBJECT_LIST then objlist_buffer_check (mv_objlist v)
      else if vt = AV_VLAN_LIST then vlan_list_check (mv_list_count v) (mv_list_null v)
      else if vt \<in> set acl_primitive_types then success
      else if vt = AV_ACL_FIELD_DATA_OBJECT_ID \<or> vt = AV_ACL_ACTION_DATA_OBJECT_ID then success
      else if vt = AV_ACL_FIELD_DATA_OBJECT_LIST \<or> vt = AV_ACL_ACTION_DATA_OBJECT_LIST
      then objlist_buffer_check (mv_data_objlist v)
      else if vt \<in> set plain_list_types then meta_genetic_validation_list (mv_list_count v) (mv_list_null v)
      else if vt = AV_UINT32_RANGE \<or> vt = AV_INT32_RANGE then success
      else if vt = AV_ACL_CAPABILITY then meta_genetic_validation_list (mv_list_count v) (mv_list_null v)
      else Inl Thrown)"

fun get_attr_loop ::
  "'k meta_env \<Rightarrow> 'k meta_db \<Rightarrow> sai_object_meta_key \<Rightarrow> meta_attribute list
     \<Rightarrow> (sai_status \<times> meta_attribute list) checked" where
  "get_attr_loop env db mk [] = Inr (SAI_STATUS_SUCCESS, [])"
| "get_attr_loop env db mk (a # attrs) =
     (case get_attr_metadata env (mk_objecttype mk) (at_id a) of
        None \<Rightarrow> Inr (SAI_STATUS_FAILURE, a # attrs)
      | Some md \<Rightarrow>
          chk_bind (if ma_isconditional md then get_object_previous_attr env mk md db else Inr None) (\<lambda>_.
            let a' = clear_enum md a in
            chk_bind (get_value_check md (at_value a')) (\<lambda>status.
              if status \<noteq> SAI_STATUS_SUCCESS then Inr (status, a' # attrs)
              else chk_bind (get_attr_loop env db mk attrs) (\<lambda>(status, attrs'). Inr (status, a' # attrs')))))"

definition meta_generic_validation_get ::
  "'k meta_env \<Rightarrow> sai_object_meta_key \<Rightarrow> nat \<Rightarrow> meta_attribute list option \<Rightarrow> 'k meta_db
     \<Rightarrow> (sai_status \<times> meta_attribute list) checked" where
  "meta_generic_validation_get env mk attr_count attr_list db =
     (let attrs = meta_attr_array attr_count attr_list in
      if attr_count < 1 then Inr (SAI_STATUS_INVALID_PARAMETER, attrs)
      else if attr_count > MAX_LIST_COUNT then Inr (SAI_STATUS_INVALID_PARAMETER, attrs)
      else if attr_list = None then Inr (SAI_STATUS_INVALID_PARAMETER, attrs)
      else chk_bind (get_attr_loop env db mk attrs) (\<lambda>(status, attrs).
        if status \<noteq> SAI_STATUS_SUCCESS then Inr (status, attrs)
        else chk_bind (exists_as_type env db mk) (\<lambda>status. Inr (status, attrs))))"

definition meta_warm_boot_notify :: "'k meta_db \<Rightarrow> 'k meta_db" where
  "meta_warm_boot_notify db = db\<lparr>warmBoot := True\<rparr>"

end
