(* ===== verification/MetaPost.thy ===== *)
theory MetaPost
  imports MetaChecks
begin

text \<open>
  What the metadata layer records after the vendor's function succeeded (\<^verbatim>\<open>meta/sai_meta.cpp\<close>,
  \<open>meta_generic_validation_post_*\<close>): objects, their attributes, the reference counts of the objects that
  attributes and entries name, the attribute keys, and the objects that go with a port.
\<close>

section \<open>Create\<close>

fun inc_members :: "sai_object_meta_key \<Rightarrow> struct_member list \<Rightarrow> 'k meta_db \<Rightarrow> 'k meta_db checked" where
  "inc_members mk [] db = Inr db"
| "inc_members mk (m # ms) db =
     (if \<not> sm_is_oid m then inc_members mk ms db
      else chk_bind (object_reference_inc (sm_getoid m mk) db) (inc_members mk ms))"

text \<open>
  The reference of a created object. The id is checked first; where the code reports a bug of the vendor and
  leaves the block, the state is as it was.
\<close>

definition insert_created ::
  "'k meta_env \<Rightarrow> sai_object_meta_key \<Rightarrow> u64 \<Rightarrow> 'k meta_db \<Rightarrow> 'k meta_db checked" where
  "insert_created env mk switch_id db =
     (let oid = mk_oid mk; ot = object_type_query env oid; query_switch_id = switch_id_query env oid in
      if oid = SAI_NULL_OBJECT_ID then Inr db
      else if ot = 0 then Inr db
      else if ot \<noteq> mk_objecttype mk then Inr db
      else if mk_objecttype mk \<noteq> OT_SWITCH
           \<and> (\<not> object_reference_exists query_switch_id db \<or> switch_id \<noteq> query_switch_id) then Inr db
      else if warmBoot db \<and> mk_objecttype mk = OT_SWITCH then Inr db
      else object_reference_insert oid db)"

definition register_created ::
  "'k meta_env \<Rightarrow> sai_object_meta_key \<Rightarrow> u64 \<Rightarrow> 'k meta_db \<Rightarrow> 'k meta_db checked" where
  "register_created env mk switch_id db =
     chk_bind (if warmBoot db \<and> mk_objecttype mk = OT_SWITCH then Inr db else create_object env mk db) (\<lambda>db.
       case object_infos env (mk_objecttype mk) of
         None \<Rightarrow> Inl NullDeref
       | Some info \<Rightarrow>
           if info_isnonobjectid info then inc_members mk (info_structmembers info) db
           else insert_created env mk switch_id db)"

definition create_references :: "meta_attr \<Rightarrow> meta_value \<Rightarrow> 'k meta_db \<Rightarrow> 'k meta_db checked" where
  "create_references md v db =
     (let vt = ma_attrvaluetype md in
      if vt \<in> set primitive_types \<or> vt = AV_CHARDATA \<or> vt = AV_IP_ADDRESS \<or> vt = AV_IP_PREFIX then Inr db
      else if vt = AV_OBJECT_ID then object_reference_inc (mv_oid v) db
      else if vt = AV_OBJECT_LIST then object_reference_inc_list (mv_objlist v) db
      else if vt = AV_VLAN_LIST then Inr db
      else if vt \<in> set acl_primitive_types then Inr db
      else if vt = AV_ACL_FIELD_DATA_OBJECT_ID \<or> vt = AV_ACL_ACTION_DATA_OBJECT_ID
      then (if mv_enable v then object_reference_inc (mv_data_oid v) db else Inr db)
      else if vt = AV_ACL_FIELD_DATA_OBJECT_LIST \<or> vt = AV_ACL_ACTION_DATA_OBJECT_LIST
      then (if mv_enable v then object_reference_inc_list (mv_data_objlist v) db else Inr db)
      else if vt \<in> set plain_list_types \<or> vt = AV_UINT32_RANGE \<or> vt = AV_INT32_RANGE then Inr db
      else Inl Thrown)"

text \<open>The answer has the flag \<open>haskeys\<close>.\<close>

fun post_create_loop ::
  "'k meta_env \<Rightarrow> sai_object_meta_key \<Rightarrow> meta_attribute list \<Rightarrow> bool \<Rightarrow> 'k meta_db
     \<Rightarrow> (bool \<times> 'k meta_db) checked" where
  "post_create_loop env mk [] haskeys db = Inr (haskeys, db)"
| "post_create_loop env mk (a # attrs) haskeys db =
     (case get_attr_metadata env (mk_objecttype mk) (at_id a) of
        None \<Rightarrow> Inl NullDeref
      | Some md \<Rightarrow>
          chk_bind (create_references md (at_value a) db) (\<lambda>db.
          chk_bind (set_object env mk md a db)
            (post_create_loop env mk attrs (haskeys \<or> HAS_FLAG_KEY md))))"

text \<open>
  The local \<open>haskeys\<close> is not initialised: \<open>garbage\<close> is the value it happens to have. An object that exists
  already is only reported, and then \<open>create_object\<close> throws.
\<close>

definition meta_generic_validation_post_create ::
  "'k meta_env \<Rightarrow> bool \<Rightarrow> sai_object_meta_key \<Rightarrow> u64 \<Rightarrow> nat \<Rightarrow> meta_attribute list option \<Rightarrow> 'k meta_db
     \<Rightarrow> 'k meta_db checked" where
  "meta_generic_validation_post_create env garbage mk switch_id attr_count attr_list db =
     (let attrs = meta_attr_array attr_count attr_list in
      chk_bind (serialize_object_meta_key env mk) (\<lambda>key.
      chk_bind (register_created env mk switch_id db) (\<lambda>db.
      chk_bind (post_create_loop env mk attrs garbage (db\<lparr>warmBoot := False\<rparr>)) (\<lambda>(haskeys, db).
        if haskeys
        then chk_bind (construct_key env mk attrs) (\<lambda>s.
          Inr (db\<lparr>AttributeKeys := AList.update key s (AttributeKeys db)\<rparr>))
        else Inr db))))"

section \<open>Remove\<close>

definition remove_references :: "meta_attr \<Rightarrow> meta_value \<Rightarrow> 'k meta_db \<Rightarrow> 'k meta_db checked" where
  "remove_references md v db =
     (let vt = ma_attrvaluetype md in
      if vt \<in> set primitive_types \<or> vt = AV_CHARDATA \<or> vt = AV_IP_ADDRESS \<or> vt = AV_IP_PREFIX then Inr db
      else if vt = AV_OBJECT_ID then object_reference_dec (mv_oid v) db
      else if vt = AV_OBJECT_LIST then object_reference_dec_list (mv_objlist v) db
      else if vt \<in> set acl_primitive_types then Inr db
      else if vt = AV_ACL_FIELD_DATA_OBJECT_ID \<or> vt = AV_ACL_ACTION_DATA_OBJECT_ID
      then (if mv_enable v then object_reference_dec (mv_data_oid v) db else Inr db)
      else if vt = AV_ACL_FIELD_DATA_OBJECT_LIST \<or> vt = AV_ACL_ACTION_DATA_OBJECT_LIST
      then (if mv_enable v then object_reference_dec_list (mv_data_objlist v) db else Inr db)
      else if vt \<in> set plain_list_types \<or> vt = AV_UINT32_RANGE \<or> vt = AV_INT32_RANGE then Inr db
      else Inl Thrown)"

fun post_remove_loop ::
  "'k meta_env \<Rightarrow> sai_object_meta_key \<Rightarrow> object_attrs \<Rightarrow> 'k meta_db \<Rightarrow> 'k meta_db checked" where
  "post_remove_loop env mk [] db = Inr db"
| "post_remove_loop env mk ((i, stored) # attrs) db =
     (case get_attr_metadata env (mk_objecttype mk) i of
        None \<Rightarrow> Inl NullDeref
      | Some md \<Rightarrow> chk_bind (remove_references md (snd stored) db) (post_remove_loop env mk attrs))"

fun dec_members :: "sai_object_meta_key \<Rightarrow> struct_member list \<Rightarrow> 'k meta_db \<Rightarrow> 'k meta_db checked" where
  "dec_members mk [] db = Inr db"
| "dec_members mk (m # ms) db =
     (if \<not> sm_is_oid m then dec_members mk ms db
      else chk_bind (object_reference_dec (sm_getoid m mk) db) (dec_members mk ms))"

definition remove_keyed_object ::
  "'k meta_env \<Rightarrow> sai_object_meta_key \<Rightarrow> 'k meta_db \<Rightarrow> 'k meta_db checked" where
  "remove_keyed_object env mk db =
     chk_bind (case object_infos env (mk_objecttype mk) of
         None \<Rightarrow> Inl NullDeref
       | Some info \<Rightarrow>
           if info_isnonobjectid info then dec_members mk (info_structmembers info) db
           else object_reference_remove (mk_oid mk) db) (\<lambda>db.
     chk_bind (remove_object env mk db) (\<lambda>db.
     chk_bind (serialize_object_meta_key env mk) (\<lambda>key.
       Inr (db\<lparr>AttributeKeys := AList.delete key (AttributeKeys db)\<rparr>))))"

text \<open>
  Removing a port removes what goes with it by the same function, \<open>remove\<close>; afterwards nothing goes with the
  port.
\<close>

definition post_port_remove ::
  "'k meta_env \<Rightarrow> (sai_object_meta_key \<Rightarrow> 'k meta_db \<Rightarrow> 'k meta_db checked) \<Rightarrow> sai_object_meta_key \<Rightarrow> 'k meta_db
     \<Rightarrow> 'k meta_db checked" where
  "post_port_remove env remove mk db =
     (case map_port_to_related_set db (mk_oid mk) of
        None \<Rightarrow> Inr db
      | Some oids \<Rightarrow>
          chk_bind (for_each (\<lambda>oid. remove (oid_key (object_type_query env oid) oid)) (map Inr oids) db) (\<lambda>db.
            Inr (db\<lparr>map_port_to_related_set := (map_port_to_related_set db)(mk_oid mk \<mapsto> [])\<rparr>)))"

text \<open>
  The recursion ends because every level removes an object before it goes on, and throws when it does not
  find one. Its depth is bounded by the number of objects: \<open>fuel\<close> is at least that, so at \<open>0\<close> no object is
  left and throwing is what the code does.
\<close>

fun post_remove_fuel :: "nat \<Rightarrow> 'k meta_env \<Rightarrow> sai_object_meta_key \<Rightarrow> 'k meta_db \<Rightarrow> 'k meta_db checked" where
  "post_remove_fuel 0 env mk db = (if mk_objecttype mk = OT_SWITCH then Inr db else Inl Thrown)"
| "post_remove_fuel (Suc fuel) env mk db =
     (if mk_objecttype mk = OT_SWITCH then Inr db
      else chk_bind (get_object_attributes env mk db) (\<lambda>attrs.
        chk_bind (post_remove_loop env mk attrs db) (\<lambda>db.
        chk_bind (remove_keyed_object env mk db) (\<lambda>db.
          if mk_objecttype mk = OT_PORT then post_port_remove env (post_remove_fuel fuel env) mk db
          else Inr db))))"

definition meta_generic_validation_post_remove ::
  "'k meta_env \<Rightarrow> sai_object_meta_key \<Rightarrow> 'k meta_db \<Rightarrow> 'k meta_db checked" where
  "meta_generic_validation_post_remove env mk db = post_remove_fuel (length (ObjectAttrHash db)) env mk db"

section \<open>Set\<close>

text \<open>The references of the value stored before, when there is one, are given back first.\<close>

definition set_references ::
  "meta_attr \<Rightarrow> meta_value option \<Rightarrow> meta_value \<Rightarrow> 'k meta_db \<Rightarrow> 'k meta_db checked" where
  "set_references md previous v db =
     (let vt = ma_attrvaluetype md;
          previously = (\<lambda>dec. case previous of None \<Rightarrow> Inr db | Some p \<Rightarrow> dec p) in
      if vt \<in> set primitive_types \<or> vt = AV_CHARDATA \<or> vt = AV_IP_ADDRESS \<or> vt = AV_IP_PREFIX then Inr db
      else if vt = AV_OBJECT_ID
      then chk_bind (previously (\<lambda>p. object_reference_dec (mv_oid p) db)) (object_reference_inc (mv_oid v))
      else if vt = AV_OBJECT_LIST
      then chk_bind (previously (\<lambda>p. object_reference_dec_list (mv_objlist p) db))
        (object_reference_inc_list (mv_objlist v))
      else if vt \<in> set acl_primitive_types then Inr db
      else if vt = AV_ACL_FIELD_DATA_OBJECT_ID \<or> vt = AV_ACL_ACTION_DATA_OBJECT_ID
      then chk_bind (previously (\<lambda>p. if mv_enable p then object_reference_dec (mv_data_oid p) db else Inr db))
        (\<lambda>db. if mv_enable v then object_reference_inc (mv_data_oid v) db else Inr db)
      else if vt = AV_ACL_FIELD_DATA_OBJECT_LIST \<or> vt = AV_ACL_ACTION_DATA_OBJECT_LIST
      then chk_bind (previously (\<lambda>p. if mv_enable p then object_reference_dec_list (mv_data_objlist p) db
                                     else Inr db))
        (\<lambda>db. if mv_enable v then object_reference_inc_list (mv_data_objlist v) db else Inr db)
      else if vt \<in> set plain_list_types \<or> vt = AV_UINT32_RANGE \<or> vt = AV_INT32_RANGE \<or> vt = AV_ACL_CAPABILITY
      then Inr db
      else Inl Thrown)"

definition meta_generic_validation_post_set ::
  "'k meta_env \<Rightarrow> sai_object_meta_key \<Rightarrow> meta_attribute \<Rightarrow> 'k meta_db \<Rightarrow> 'k meta_db checked" where
  "meta_generic_validation_post_set env mk a db =
     (case get_attr_metadata env (mk_objecttype mk) (at_id a) of
        None \<Rightarrow> Inl NullDeref
      | Some md \<Rightarrow>
          chk_bind (get_object_previous_attr env mk md db) (\<lambda>previous.
          chk_bind (set_references md previous (at_value a) db) (set_object env mk md a)))"

section \<open>Get\<close>

text \<open>
  Objects that the vendor returns and the database does not have are put into it. Everything else that is
  wrong with the returned ids is only logged; \<open>oids\<close> are the ids seen so far.
\<close>

fun snoop_loop ::
  "'k meta_env \<Rightarrow> u64 checked list \<Rightarrow> u64 list \<Rightarrow> 'k meta_db \<Rightarrow> 'k meta_db checked" where
  "snoop_loop env [] oids db = Inr db"
| "snoop_loop env (x # xs) oids db =
     chk_bind x (\<lambda>oid.
       if oid \<in> set oids then snoop_loop env xs oids db
       else if oid = SAI_NULL_OBJECT_ID then snoop_loop env xs (oid # oids) db
       else
         (let ot = object_type_query env oid in
          if ot = 0 then snoop_loop env xs (oid # oids) db
          else if object_reference_exists oid db then snoop_loop env xs (oid # oids) db
          else chk_bind (object_reference_insert oid db) (\<lambda>db.
            chk_bind (object_exists env (oid_key ot oid) db) (\<lambda>ex.
            chk_bind (if ex then Inr db else create_object env (oid_key ot oid) db)
              (snoop_loop env xs (oid # oids))))))"

definition meta_generic_validation_post_get_objlist ::
  "'k meta_env \<Rightarrow> object_list \<Rightarrow> 'k meta_db \<Rightarrow> 'k meta_db checked" where
  "meta_generic_validation_post_get_objlist env l db =
     (if snd l = None then Inr db else snoop_loop env (list_items l) [] db)"

fun set_insert :: "u64 \<Rightarrow> u64 list \<Rightarrow> u64 list" where
  "set_insert x [] = [x]"
| "set_insert x (y # ys) = (if x < y then x # y # ys else if x = y then y # ys else y # set_insert x ys)"

definition meta_add_port_to_related_map :: "u64 \<Rightarrow> object_list \<Rightarrow> 'k meta_db \<Rightarrow> 'k meta_db checked" where
  "meta_add_port_to_related_map port_id l =
     for_each (\<lambda>rel db.
       if rel = SAI_NULL_OBJECT_ID then Inl Thrown
       else Inr (db\<lparr>map_port_to_related_set := (map_port_to_related_set db)
         (port_id \<mapsto> set_insert rel (the_default [] (map_port_to_related_set db port_id)))\<rparr>))
       (list_items l)"

fun meta_post_port_get ::
  "'k meta_env \<Rightarrow> sai_object_meta_key \<Rightarrow> meta_attribute list \<Rightarrow> 'k meta_db \<Rightarrow> 'k meta_db checked" where
  "meta_post_port_get env mk [] db = Inr db"
| "meta_post_port_get env mk (a # attrs) db =
     (case get_attr_metadata env (mk_objecttype mk) (at_id a) of
        None \<Rightarrow> Inl NullDeref
      | Some md \<Rightarrow>
          chk_bind
            (if ma_attrid md \<in> {PORT_ATTR_QOS_QUEUE_LIST, PORT_ATTR_QOS_SCHEDULER_GROUP_LIST,
                                PORT_ATTR_INGRESS_PRIORITY_GROUP_LIST}
             then meta_add_port_to_related_map (mk_oid mk) (mv_objlist (at_value a)) db
             else Inr db)
            (meta_post_port_get env mk attrs))"

definition get_references :: "'k meta_env \<Rightarrow> meta_attr \<Rightarrow> meta_value \<Rightarrow> 'k meta_db \<Rightarrow> 'k meta_db checked" where
  "get_references env md v db =
     (let vt = ma_attrvaluetype md; snoop = (\<lambda>l. meta_generic_validation_post_get_objlist env l db) in
      if vt \<in> set primitive_types \<or> vt = AV_CHARDATA \<or> vt = AV_IP_ADDRESS \<or> vt = AV_IP_PREFIX then Inr db
      else if vt = AV_OBJECT_ID then snoop (one_oid (mv_oid v))
      else if vt = AV_OBJECT_LIST then snoop (mv_objlist v)
      else if vt = AV_VLAN_LIST then Inr db
      else if vt \<in> set acl_primitive_types then Inr db
      else if vt = AV_ACL_FIELD_DATA_OBJECT_ID \<or> vt = AV_ACL_ACTION_DATA_OBJECT_ID
      then (if mv_enable v then snoop (one_oid (mv_data_oid v)) else Inr db)
      else if vt = AV_ACL_FIELD_DATA_OBJECT_LIST \<or> vt = AV_ACL_ACTION_DATA_OBJECT_LIST
      then (if mv_enable v then snoop (mv_data_objlist v) else Inr db)
      else if vt = AV_ACL_CAPABILITY then Inr db
      else if vt \<in> set plain_list_types \<or> vt = AV_UINT32_RANGE \<or> vt = AV_INT32_RANGE then Inr db
      else Inl Thrown)"

text \<open>What is wrong with VLAN lists, ranges, counts and enumerations is only logged.\<close>

fun post_get_loop ::
  "'k meta_env \<Rightarrow> sai_object_meta_key \<Rightarrow> meta_attribute list \<Rightarrow> 'k meta_db \<Rightarrow> 'k meta_db checked" where
  "post_get_loop env mk [] db = Inr db"
| "post_get_loop env mk (a # attrs) db =
     (case get_attr_metadata env (mk_objecttype mk) (at_id a) of
        None \<Rightarrow> Inl NullDeref
      | Some md \<Rightarrow> chk_bind (get_references env md (at_value a) db) (post_get_loop env mk attrs))"

definition meta_generic_validation_post_get ::
  "'k meta_env \<Rightarrow> sai_object_meta_key \<Rightarrow> u64 \<Rightarrow> meta_attribute list \<Rightarrow> 'k meta_db \<Rightarrow> 'k meta_db checked" where
  "meta_generic_validation_post_get env mk switch_id attrs db =
     chk_bind (meta_extract_switch_id env mk switch_id) (\<lambda>_.
     chk_bind (post_get_loop env mk attrs db) (\<lambda>db.
       if mk_objecttype mk = OT_PORT then meta_post_port_get env mk attrs db else Inr db))"

end
