(* ===== verification/MetaApi.thy ===== *)
theory MetaApi
  imports MetaPost
begin

text \<open>
  The calls of the metadata layer (\<^verbatim>\<open>meta/sai_meta.cpp\<close>): for the seven kinds of entries and for objects named
  by an id, the create, remove, set and get, which check, call the vendor's function and record its success;
  the statistics; the flush of FDB entries. The function of the vendor is an argument, NULL (\<open>None\<close>) included;
  the entry and id arguments it gets are fixed by the call, so it is a function of the attributes alone.
\<close>

section \<open>Common course\<close>

text \<open>
  The bodies of the create, remove, set and get functions of the entries differ in the key only. \<open>validated\<close>
  is the result of the check of the entry that comes first.
\<close>

definition create_entry ::
  "'k meta_env \<Rightarrow> bool \<Rightarrow> sai_status checked \<Rightarrow> sai_object_meta_key \<Rightarrow> u64 \<Rightarrow> nat \<Rightarrow> meta_attribute list option
     \<Rightarrow> (meta_attribute list \<Rightarrow> sai_status) option \<Rightarrow> 'k meta_db \<Rightarrow> (sai_status \<times> 'k meta_db) checked" where
  "create_entry env garbage validated mk switch_id attr_count attr_list create db =
     chk_bind (and_then validated (meta_generic_validation_create env mk switch_id attr_count attr_list db))
       (\<lambda>status.
          if status \<noteq> SAI_STATUS_SUCCESS then Inr (status, db)
          else case create of
            None \<Rightarrow> Inr (SAI_STATUS_FAILURE, db)
          | Some vendor \<Rightarrow>
              let status = vendor (meta_attr_array attr_count attr_list) in
              if status = SAI_STATUS_SUCCESS
              then chk_bind (meta_generic_validation_post_create env garbage mk switch_id attr_count attr_list db)
                (\<lambda>db. Inr (status, db))
              else Inr (status, db))"

definition remove_entry ::
  "'k meta_env \<Rightarrow> sai_status checked \<Rightarrow> sai_object_meta_key \<Rightarrow> sai_status option \<Rightarrow> 'k meta_db
     \<Rightarrow> (sai_status \<times> 'k meta_db) checked" where
  "remove_entry env validated mk remove db =
     chk_bind validated (\<lambda>status.
       if status \<noteq> SAI_STATUS_SUCCESS then Inr (status, db)
       else chk_bind (meta_generic_validation_remove env mk db) (\<lambda>(status, db).
         if status \<noteq> SAI_STATUS_SUCCESS then Inr (status, db)
         else case remove of
           None \<Rightarrow> Inr (SAI_STATUS_FAILURE, db)
         | Some status \<Rightarrow>
             if status = SAI_STATUS_SUCCESS
             then chk_bind (meta_generic_validation_post_remove env mk db) (\<lambda>db. Inr (status, db))
             else Inr (status, db)))"

definition set_entry ::
  "'k meta_env \<Rightarrow> sai_status checked \<Rightarrow> sai_object_meta_key \<Rightarrow> meta_attribute option
     \<Rightarrow> (meta_attribute \<Rightarrow> sai_status) option \<Rightarrow> 'k meta_db \<Rightarrow> (sai_status \<times> 'k meta_db) checked" where
  "set_entry env validated mk attr setf db =
     chk_bind validated (\<lambda>status.
       if status \<noteq> SAI_STATUS_SUCCESS then Inr (status, db)
       else chk_bind (meta_generic_validation_set env mk attr db) (\<lambda>(status, db).
         if status \<noteq> SAI_STATUS_SUCCESS then Inr (status, db)
         else case (setf, attr) of
           (None, _) \<Rightarrow> Inr (SAI_STATUS_FAILURE, db)
         | (Some vendor, None) \<Rightarrow> Inl NullDeref
         | (Some vendor, Some a) \<Rightarrow>
             let status = vendor a in
             if status = SAI_STATUS_SUCCESS
             then chk_bind (meta_generic_validation_post_set env mk a db) (\<lambda>db. Inr (status, db))
             else Inr (status, db)))"

type_synonym 'k get_result = "(sai_status \<times> meta_attribute list \<times> 'k meta_db) checked"

definition get_entry ::
  "'k meta_env \<Rightarrow> sai_status checked \<Rightarrow> sai_object_meta_key \<Rightarrow> u64 \<Rightarrow> nat \<Rightarrow> meta_attribute list option
     \<Rightarrow> (meta_attribute list \<Rightarrow> sai_status \<times> meta_attribute list) option \<Rightarrow> 'k meta_db \<Rightarrow> 'k get_result" where
  "get_entry env validated mk switch_id attr_count attr_list get db =
     chk_bind validated (\<lambda>status.
       if status \<noteq> SAI_STATUS_SUCCESS then Inr (status, meta_attr_array attr_count attr_list, db)
       else chk_bind (meta_generic_validation_get env mk attr_count attr_list db) (\<lambda>(status, attrs).
         if status \<noteq> SAI_STATUS_SUCCESS then Inr (status, attrs, db)
         else case get of
           None \<Rightarrow> Inr (SAI_STATUS_FAILURE, attrs, db)
         | Some vendor \<Rightarrow>
             let (status, attrs) = vendor attrs in
             if status = SAI_STATUS_SUCCESS
             then chk_bind (meta_generic_validation_post_get env mk switch_id attrs db)
               (\<lambda>db. Inr (status, attrs, db))
             else Inr (status, attrs, db)))"

text \<open>
  The end of the check of an entry: a create must not find it, the others must, unless \<open>get\<close> is set. And the
  check of the object that an entry names: its id is not NULL, of one of the types, and in the table.
\<close>

definition entry_exists_check ::
  "'k meta_env \<Rightarrow> sai_object_meta_key \<Rightarrow> bool \<Rightarrow> bool \<Rightarrow> 'k meta_db \<Rightarrow> sai_status checked" where
  "entry_exists_check env mk create get db =
     chk_bind (object_exists env mk db) (\<lambda>ex.
       if create then (if ex then Inr SAI_STATUS_ITEM_ALREADY_EXISTS else success)
       else if \<not> ex \<and> \<not> get then invalid_parameter
       else success)"

definition member_check ::
  "'k meta_env \<Rightarrow> nat list \<Rightarrow> u64 \<Rightarrow> 'k meta_db \<Rightarrow> sai_status checked" where
  "member_check env types oid db =
     (let ot = object_type_query env oid in
      if oid = SAI_NULL_OBJECT_ID then invalid_parameter
      else if ot = 0 then invalid_parameter
      else if ot \<notin> set types then invalid_parameter
      else chk_bind (object_exists env (oid_key ot oid) db) (\<lambda>ex.
        if ex then success else invalid_parameter))"

fun ip_family_check :: "sai_ip_address \<Rightarrow> sai_status checked" where
  "ip_family_check (IpFamily f) = invalid_parameter"
| "ip_family_check a = success"

section \<open>FDB entries\<close>

definition fdb_key :: "meta_fdb_entry \<Rightarrow> sai_object_meta_key" where
  "fdb_key e = \<lparr>mk_objecttype = OT_FDB_ENTRY, mk_objectkey = KeyFdb e\<rparr>"

definition meta_sai_validate_fdb_entry ::
  "'k meta_env \<Rightarrow> meta_fdb_entry option \<Rightarrow> bool \<Rightarrow> bool \<Rightarrow> 'k meta_db \<Rightarrow> sai_status checked" where
  "meta_sai_validate_fdb_entry env entry create get db =
     (case entry of None \<Rightarrow> invalid_parameter
      | Some e \<Rightarrow>
          entry_exists_check env (fdb_key e) create get db)"

definition meta_sai_create_fdb_entry ::
  "'k meta_env \<Rightarrow> bool \<Rightarrow> meta_fdb_entry option \<Rightarrow> nat \<Rightarrow> meta_attribute list option
     \<Rightarrow> (meta_attribute list \<Rightarrow> sai_status) option \<Rightarrow> 'k meta_db \<Rightarrow> (sai_status \<times> 'k meta_db) checked" where
  "meta_sai_create_fdb_entry env garbage entry attr_count attr_list create db =
     (case entry of None \<Rightarrow> Inr (SAI_STATUS_INVALID_PARAMETER, db)
      | Some e \<Rightarrow> create_entry env garbage (meta_sai_validate_fdb_entry env entry True False db) (fdb_key e)
          (fdb_switch_id e) attr_count attr_list create db)"

definition meta_sai_remove_fdb_entry ::
  "'k meta_env \<Rightarrow> meta_fdb_entry option \<Rightarrow> sai_status option \<Rightarrow> 'k meta_db \<Rightarrow> (sai_status \<times> 'k meta_db) checked" where
  "meta_sai_remove_fdb_entry env entry remove db =
     (case entry of None \<Rightarrow> Inr (SAI_STATUS_INVALID_PARAMETER, db)
      | Some e \<Rightarrow> remove_entry env (meta_sai_validate_fdb_entry env entry False False db) (fdb_key e) remove db)"

definition meta_sai_set_fdb_entry ::
  "'k meta_env \<Rightarrow> meta_fdb_entry option \<Rightarrow> meta_attribute option \<Rightarrow> (meta_attribute \<Rightarrow> sai_status) option
     \<Rightarrow> 'k meta_db \<Rightarrow> (sai_status \<times> 'k meta_db) checked" where
  "meta_sai_set_fdb_entry env entry attr setf db =
     (case entry of None \<Rightarrow> Inr (SAI_STATUS_INVALID_PARAMETER, db)
      | Some e \<Rightarrow> set_entry env (meta_sai_validate_fdb_entry env entry False False db) (fdb_key e) attr setf db)"

definition meta_sai_get_fdb_entry ::
  "'k meta_env \<Rightarrow> meta_fdb_entry option \<Rightarrow> nat \<Rightarrow> meta_attribute list option
     \<Rightarrow> (meta_attribute list \<Rightarrow> sai_status \<times> meta_attribute list) option \<Rightarrow> 'k meta_db \<Rightarrow> 'k get_result" where
  "meta_sai_get_fdb_entry env entry attr_count attr_list get db =
     (case entry of None \<Rightarrow> Inr (SAI_STATUS_INVALID_PARAMETER, meta_attr_array attr_count attr_list, db)
      | Some e \<Rightarrow> get_entry env (meta_sai_validate_fdb_entry env entry False True db) (fdb_key e)
          (fdb_switch_id e) attr_count attr_list get db)"

section \<open>Multicast FDB entries\<close>

definition mcast_fdb_key :: "meta_mcast_fdb_entry \<Rightarrow> sai_object_meta_key" where
  "mcast_fdb_key e = \<lparr>mk_objecttype = OT_MCAST_FDB_ENTRY, mk_objectkey = KeyMcastFdb e\<rparr>"

definition meta_sai_validate_mcast_fdb_entry ::
  "'k meta_env \<Rightarrow> meta_mcast_fdb_entry option \<Rightarrow> bool \<Rightarrow> bool \<Rightarrow> 'k meta_db \<Rightarrow> sai_status checked" where
  "meta_sai_validate_mcast_fdb_entry env entry create get db =
     (case entry of None \<Rightarrow> invalid_parameter
      | Some e \<Rightarrow>
          and_then (member_check env [OT_BRIDGE, OT_VLAN] (mcast_bv_id e) db)
            (entry_exists_check env (mcast_fdb_key e) create get db))"

definition meta_sai_create_mcast_fdb_entry ::
  "'k meta_env \<Rightarrow> bool \<Rightarrow> meta_mcast_fdb_entry option \<Rightarrow> nat \<Rightarrow> meta_attribute list option
     \<Rightarrow> (meta_attribute list \<Rightarrow> sai_status) option \<Rightarrow> 'k meta_db \<Rightarrow> (sai_status \<times> 'k meta_db) checked" where
  "meta_sai_create_mcast_fdb_entry env garbage entry attr_count attr_list create db =
     (case entry of None \<Rightarrow> Inr (SAI_STATUS_INVALID_PARAMETER, db)
      | Some e \<Rightarrow> create_entry env garbage (meta_sai_validate_mcast_fdb_entry env entry True False db) (mcast_fdb_key e)
          (mcast_switch_id e) attr_count attr_list create db)"

definition meta_sai_remove_mcast_fdb_entry ::
  "'k meta_env \<Rightarrow> meta_mcast_fdb_entry option \<Rightarrow> sai_status option \<Rightarrow> 'k meta_db \<Rightarrow> (sai_status \<times> 'k meta_db) checked" where
  "meta_sai_remove_mcast_fdb_entry env entry remove db =
     (case entry of None \<Rightarrow> Inr (SAI_STATUS_INVALID_PARAMETER, db)
      | Some e \<Rightarrow> remove_entry env (meta_sai_validate_mcast_fdb_entry env entry False False db) (mcast_fdb_key e) remove db)"

definition meta_sai_set_mcast_fdb_entry ::
  "'k meta_env \<Rightarrow> meta_mcast_fdb_entry option \<Rightarrow> meta_attribute option \<Rightarrow> (meta_attribute \<Rightarrow> sai_status) option
     \<Rightarrow> 'k meta_db \<Rightarrow> (sai_status \<times> 'k meta_db) checked" where
  "meta_sai_set_mcast_fdb_entry env entry attr setf db =
     (case entry of None \<Rightarrow> Inr (SAI_STATUS_INVALID_PARAMETER, db)
      | Some e \<Rightarrow> set_entry env (meta_sai_validate_mcast_fdb_entry env entry False False db) (mcast_fdb_key e) attr setf db)"

definition meta_sai_get_mcast_fdb_entry ::
  "'k meta_env \<Rightarrow> meta_mcast_fdb_entry option \<Rightarrow> nat \<Rightarrow> meta_attribute list option
     \<Rightarrow> (meta_attribute list \<Rightarrow> sai_status \<times> meta_attribute list) option \<Rightarrow> 'k meta_db \<Rightarrow> 'k get_result" where
  "meta_sai_get_mcast_fdb_entry env entry attr_count attr_list get db =
     (case entry of None \<Rightarrow> Inr (SAI_STATUS_INVALID_PARAMETER, meta_attr_array attr_count attr_list, db)
      | Some e \<Rightarrow> get_entry env (meta_sai_validate_mcast_fdb_entry env entry False True db) (mcast_fdb_key e)
          (mcast_switch_id e) attr_count attr_list get db)"

section \<open>Neighbor entries\<close>

definition neighbor_key :: "meta_neighbor_entry \<Rightarrow> sai_object_meta_key" where
  "neighbor_key e = \<lparr>mk_objecttype = OT_NEIGHBOR_ENTRY, mk_objectkey = KeyNeighbor e\<rparr>"

definition meta_sai_validate_neighbor_entry ::
  "'k meta_env \<Rightarrow> meta_neighbor_entry option \<Rightarrow> bool \<Rightarrow> 'k meta_db \<Rightarrow> sai_status checked" where
  "meta_sai_validate_neighbor_entry env entry create db =
     (case entry of None \<Rightarrow> invalid_parameter
      | Some e \<Rightarrow>
          and_then (ip_family_check (neighbor_ip_address e))
            (and_then (member_check env [OT_ROUTER_INTERFACE] (neighbor_rif_id e) db)
              (entry_exists_check env (neighbor_key e) create False db)))"

definition meta_sai_create_neighbor_entry ::
  "'k meta_env \<Rightarrow> bool \<Rightarrow> meta_neighbor_entry option \<Rightarrow> nat \<Rightarrow> meta_attribute list option
     \<Rightarrow> (meta_attribute list \<Rightarrow> sai_status) option \<Rightarrow> 'k meta_db \<Rightarrow> (sai_status \<times> 'k meta_db) checked" where
  "meta_sai_create_neighbor_entry env garbage entry attr_count attr_list create db =
     (case entry of None \<Rightarrow> Inr (SAI_STATUS_INVALID_PARAMETER, db)
      | Some e \<Rightarrow> create_entry env garbage (meta_sai_validate_neighbor_entry env entry True db) (neighbor_key e)
          (neighbor_switch_id e) attr_count attr_list create db)"

definition meta_sai_remove_neighbor_entry ::
  "'k meta_env \<Rightarrow> meta_neighbor_entry option \<Rightarrow> sai_status option \<Rightarrow> 'k meta_db \<Rightarrow> (sai_status \<times> 'k meta_db) checked" where
  "meta_sai_remove_neighbor_entry env entry remove db =
     (case entry of None \<Rightarrow> Inr (SAI_STATUS_INVALID_PARAMETER, db)
      | Some e \<Rightarrow> remove_entry env (meta_sai_validate_neighbor_entry env entry False db) (neighbor_key e) remove db)"

definition meta_sai_set_neighbor_entry ::
  "'k meta_env \<Rightarrow> meta_neighbor_entry option \<Rightarrow> meta_attribute option \<Rightarrow> (meta_attribute \<Rightarrow> sai_status) option
     \<Rightarrow> 'k meta_db \<Rightarrow> (sai_status \<times> 'k meta_db) checked" where
  "meta_sai_set_neighbor_entry env entry attr setf db =
     (case entry of None \<Rightarrow> Inr (SAI_STATUS_INVALID_PARAMETER, db)
      | Some e \<Rightarrow> set_entry env (meta_sai_validate_neighbor_entry env entry False db) (neighbor_key e) attr setf db)"

definition meta_sai_get_neighbor_entry ::
  "'k meta_env \<Rightarrow> meta_neighbor_entry option \<Rightarrow> nat \<Rightarrow> meta_attribute list option
     \<Rightarrow> (meta_attribute list \<Rightarrow> sai_status \<times> meta_attribute list) option \<Rightarrow> 'k meta_db \<Rightarrow> 'k get_result" where
  "meta_sai_get_neighbor_entry env entry attr_count attr_list get db =
     (case entry of None \<Rightarrow> Inr (SAI_STATUS_INVALID_PARAMETER, meta_attr_array attr_count attr_list, db)
      | Some e \<Rightarrow> get_entry env (meta_sai_validate_neighbor_entry env entry False db) (neighbor_key e)
          (neighbor_switch_id e) attr_count attr_list get db)"

section \<open>Route entries\<close>

definition route_key :: "meta_route_entry \<Rightarrow> sai_object_meta_key" where
  "route_key e = \<lparr>mk_objecttype = OT_ROUTE_ENTRY, mk_objectkey = KeyRoute e\<rparr>"

text \<open>The mask of an IPv4 prefix is not looked at.\<close>

fun route_prefix_check :: "sai_ip_prefix \<Rightarrow> sai_status checked" where
  "route_prefix_check (PrefixV4 a m) = success"
| "route_prefix_check (PrefixV6 a m) = (if is_ipv6_mask_valid (Some m) then success else invalid_parameter)"
| "route_prefix_check (PrefixFamily f) = invalid_parameter"

definition meta_sai_validate_route_entry ::
  "'k meta_env \<Rightarrow> meta_route_entry option \<Rightarrow> bool \<Rightarrow> 'k meta_db \<Rightarrow> sai_status checked" where
  "meta_sai_validate_route_entry env entry create db =
     (case entry of None \<Rightarrow> invalid_parameter
      | Some e \<Rightarrow>
          and_then (route_prefix_check (route_destination e))
            (and_then (member_check env [OT_VIRTUAL_ROUTER] (route_vr_id e) db)
              (entry_exists_check env (route_key e) create False db)))"

definition meta_sai_create_route_entry ::
  "'k meta_env \<Rightarrow> bool \<Rightarrow> meta_route_entry option \<Rightarrow> nat \<Rightarrow> meta_attribute list option
     \<Rightarrow> (meta_attribute list \<Rightarrow> sai_status) option \<Rightarrow> 'k meta_db \<Rightarrow> (sai_status \<times> 'k meta_db) checked" where
  "meta_sai_create_route_entry env garbage entry attr_count attr_list create db =
     (case entry of None \<Rightarrow> Inr (SAI_STATUS_INVALID_PARAMETER, db)
      | Some e \<Rightarrow> create_entry env garbage (meta_sai_validate_route_entry env entry True db) (route_key e)
          (route_switch_id e) attr_count attr_list create db)"

definition meta_sai_remove_route_entry ::
  "'k meta_env \<Rightarrow> meta_route_entry option \<Rightarrow> sai_status option \<Rightarrow> 'k meta_db \<Rightarrow> (sai_status \<times> 'k meta_db) checked" where
  "meta_sai_remove_route_entry env entry remove db =
     (case entry of None \<Rightarrow> Inr (SAI_STATUS_INVALID_PARAMETER, db)
      | Some e \<Rightarrow> remove_entry env (meta_sai_validate_route_entry env entry False db) (route_key e) remove db)"

definition meta_sai_set_route_entry ::
  "'k meta_env \<Rightarrow> meta_route_entry option \<Rightarrow> meta_attribute option \<Rightarrow> (meta_attribute \<Rightarrow> sai_status) option
     \<Rightarrow> 'k meta_db \<Rightarrow> (sai_status \<times> 'k meta_db) checked" where
  "meta_sai_set_route_entry env entry attr setf db =
     (case entry of None \<Rightarrow> Inr (SAI_STATUS_INVALID_PARAMETER, db)
      | Some e \<Rightarrow> set_entry env (meta_sai_validate_route_entry env entry False db) (route_key e) attr setf db)"

definition meta_sai_get_route_entry ::
  "'k meta_env \<Rightarrow> meta_route_entry option \<Rightarrow> nat \<Rightarrow> meta_attribute list option
     \<Rightarrow> (meta_attribute list \<Rightarrow> sai_status \<times> meta_attribute list) option \<Rightarrow> 'k meta_db \<Rightarrow> 'k get_result" where
  "meta_sai_get_route_entry env entry attr_count attr_list get db =
     (case entry of None \<Rightarrow> Inr (SAI_STATUS_INVALID_PARAMETER, meta_attr_array attr_count attr_list, db)
      | Some e \<Rightarrow> get_entry env (meta_sai_validate_route_entry env entry False db) (route_key e)
          (route_switch_id e) attr_count attr_list get db)"

section \<open>L2MC entries\<close>

definition l2mc_key :: "meta_l2mc_entry \<Rightarrow> sai_object_meta_key" where
  "l2mc_key e = \<lparr>mk_objecttype = OT_L2MC_ENTRY, mk_objectkey = KeyL2mc e\<rparr>"

definition meta_sai_validate_l2mc_entry ::
  "'k meta_env \<Rightarrow> meta_l2mc_entry option \<Rightarrow> bool \<Rightarrow> 'k meta_db \<Rightarrow> sai_status checked" where
  "meta_sai_validate_l2mc_entry env entry create db =
     (case entry of None \<Rightarrow> invalid_parameter
      | Some e \<Rightarrow>
          and_then (if l2mc_type e \<noteq> 0 \<and> l2mc_type e \<noteq> 1 then invalid_parameter else success)
            (and_then (ip_family_check (l2mc_destination e))
              (and_then (ip_family_check (l2mc_source e))
                (and_then (member_check env [OT_BRIDGE, OT_VLAN] (l2mc_bv_id e) db)
                  (entry_exists_check env (l2mc_key e) create False db)))))"

definition meta_sai_create_l2mc_entry ::
  "'k meta_env \<Rightarrow> bool \<Rightarrow> meta_l2mc_entry option \<Rightarrow> nat \<Rightarrow> meta_attribute list option
     \<Rightarrow> (meta_attribute list \<Rightarrow> sai_status) option \<Rightarrow> 'k meta_db \<Rightarrow> (sai_status \<times> 'k meta_db) checked" where
  "meta_sai_create_l2mc_entry env garbage entry attr_count attr_list create db =
     (case entry of None \<Rightarrow> Inr (SAI_STATUS_INVALID_PARAMETER, db)
      | Some e \<Rightarrow> create_entry env garbage (meta_sai_validate_l2mc_entry env entry True db) (l2mc_key e)
          (l2mc_switch_id e) attr_count attr_list create db)"

definition meta_sai_remove_l2mc_entry ::
  "'k meta_env \<Rightarrow> meta_l2mc_entry option \<Rightarrow> sai_status option \<Rightarrow> 'k meta_db \<Rightarrow> (sai_status \<times> 'k meta_db) checked" where
  "meta_sai_remove_l2mc_entry env entry remove db =
     (case entry of None \<Rightarrow> Inr (SAI_STATUS_INVALID_PARAMETER, db)
      | Some e \<Rightarrow> remove_entry env (meta_sai_validate_l2mc_entry env entry False db) (l2mc_key e) remove db)"

definition meta_sai_set_l2mc_entry ::
  "'k meta_env \<Rightarrow> meta_l2mc_entry option \<Rightarrow> meta_attribute option \<Rightarrow> (meta_attribute \<Rightarrow> sai_status) option
     \<Rightarrow> 'k meta_db \<Rightarrow> (sai_status \<times> 'k meta_db) checked" where
  "meta_sai_set_l2mc_entry env entry attr setf db =
     (case entry of None \<Rightarrow> Inr (SAI_STATUS_INVALID_PARAMETER, db)
      | Some e \<Rightarrow> set_entry env (meta_sai_validate_l2mc_entry env entry False db) (l2mc_key e) attr setf db)"

definition meta_sai_get_l2mc_entry ::
  "'k meta_env \<Rightarrow> meta_l2mc_entry option \<Rightarrow> nat \<Rightarrow> meta_attribute list option
     \<Rightarrow> (meta_attribute list \<Rightarrow> sai_status \<times> meta_attribute list) option \<Rightarrow> 'k meta_db \<Rightarrow> 'k get_result" where
  "meta_sai_get_l2mc_entry env entry attr_count attr_list get db =
     (case entry of None \<Rightarrow> Inr (SAI_STATUS_INVALID_PARAMETER, meta_attr_array attr_count attr_list, db)
      | Some e \<Rightarrow> get_entry env (meta_sai_validate_l2mc_entry env entry False db) (l2mc_key e)
          (l2mc_switch_id e) attr_count attr_list get db)"

section \<open>IPMC entries\<close>

definition ipmc_key :: "meta_ipmc_entry \<Rightarrow> sai_object_meta_key" where
  "ipmc_key e = \<lparr>mk_objecttype = OT_IPMC_ENTRY, mk_objectkey = KeyIpmc e\<rparr>"

definition meta_sai_validate_ipmc_entry ::
  "'k meta_env \<Rightarrow> meta_ipmc_entry option \<Rightarrow> bool \<Rightarrow> 'k meta_db \<Rightarrow> sai_status checked" where
  "meta_sai_validate_ipmc_entry env entry create db =
     (case entry of None \<Rightarrow> invalid_parameter
      | Some e \<Rightarrow>
          and_then (if ipmc_type e \<noteq> 0 \<and> ipmc_type e \<noteq> 1 then invalid_parameter else success)
            (and_then (ip_family_check (ipmc_destination e))
              (and_then (ip_family_check (ipmc_source e))
                (and_then (member_check env [OT_VIRTUAL_ROUTER] (ipmc_vr_id e) db)
                  (entry_exists_check env (ipmc_key e) create False db)))))"

definition meta_sai_create_ipmc_entry ::
  "'k meta_env \<Rightarrow> bool \<Rightarrow> meta_ipmc_entry option \<Rightarrow> nat \<Rightarrow> meta_attribute list option
     \<Rightarrow> (meta_attribute list \<Rightarrow> sai_status) option \<Rightarrow> 'k meta_db \<Rightarrow> (sai_status \<times> 'k meta_db) checked" where
  "meta_sai_create_ipmc_entry env garbage entry attr_count attr_list create db =
     (case entry of None \<Rightarrow> Inr (SAI_STATUS_INVALID_PARAMETER, db)
      | Some e \<Rightarrow> create_entry env garbage (meta_sai_validate_ipmc_entry env entry True db) (ipmc_key e)
          (ipmc_switch_id e) attr_count attr_list create db)"

definition meta_sai_remove_ipmc_entry ::
  "'k meta_env \<Rightarrow> meta_ipmc_entry option \<Rightarrow> sai_status option \<Rightarrow> 'k meta_db \<Rightarrow> (sai_status \<times> 'k meta_db) checked" where
  "meta_sai_remove_ipmc_entry env entry remove db =
     (case entry of None \<Rightarrow> Inr (SAI_STATUS_INVALID_PARAMETER, db)
      | Some e \<Rightarrow> remove_entry env (meta_sai_validate_ipmc_entry env entry False db) (ipmc_key e) remove db)"

definition meta_sai_set_ipmc_entry ::
  "'k meta_env \<Rightarrow> meta_ipmc_entry option \<Rightarrow> meta_attribute option \<Rightarrow> (meta_attribute \<Rightarrow> sai_status) option
     \<Rightarrow> 'k meta_db \<Rightarrow> (sai_status \<times> 'k meta_db) checked" where
  "meta_sai_set_ipmc_entry env entry attr setf db =
     (case entry of None \<Rightarrow> Inr (SAI_STATUS_INVALID_PARAMETER, db)
      | Some e \<Rightarrow> set_entry env (meta_sai_validate_ipmc_entry env entry False db) (ipmc_key e) attr setf db)"

definition meta_sai_get_ipmc_entry ::
  "'k meta_env \<Rightarrow> meta_ipmc_entry option \<Rightarrow> nat \<Rightarrow> meta_attribute list option
     \<Rightarrow> (meta_attribute list \<Rightarrow> sai_status \<times> meta_attribute list) option \<Rightarrow> 'k meta_db \<Rightarrow> 'k get_result" where
  "meta_sai_get_ipmc_entry env entry attr_count attr_list get db =
     (case entry of None \<Rightarrow> Inr (SAI_STATUS_INVALID_PARAMETER, meta_attr_array attr_count attr_list, db)
      | Some e \<Rightarrow> get_entry env (meta_sai_validate_ipmc_entry env entry False db) (ipmc_key e)
          (ipmc_switch_id e) attr_count attr_list get db)"

section \<open>Inseg entries\<close>

definition inseg_key :: "meta_inseg_entry \<Rightarrow> sai_object_meta_key" where
  "inseg_key e = \<lparr>mk_objecttype = OT_INSEG_ENTRY, mk_objectkey = KeyInseg e\<rparr>"

definition meta_sai_validate_inseg_entry ::
  "'k meta_env \<Rightarrow> meta_inseg_entry option \<Rightarrow> bool \<Rightarrow> 'k meta_db \<Rightarrow> sai_status checked" where
  "meta_sai_validate_inseg_entry env entry create db =
     (case entry of None \<Rightarrow> invalid_parameter
      | Some e \<Rightarrow>
          success)"

definition meta_sai_create_inseg_entry ::
  "'k meta_env \<Rightarrow> bool \<Rightarrow> meta_inseg_entry option \<Rightarrow> nat \<Rightarrow> meta_attribute list option
     \<Rightarrow> (meta_attribute list \<Rightarrow> sai_status) option \<Rightarrow> 'k meta_db \<Rightarrow> (sai_status \<times> 'k meta_db) checked" where
  "meta_sai_create_inseg_entry env garbage entry attr_count attr_list create db =
     (case entry of None \<Rightarrow> Inr (SAI_STATUS_INVALID_PARAMETER, db)
      | Some e \<Rightarrow> create_entry env garbage (meta_sai_validate_inseg_entry env entry True db) (inseg_key e)
          (inseg_switch_id e) attr_count attr_list create db)"

definition meta_sai_remove_inseg_entry ::
  "'k meta_env \<Rightarrow> meta_inseg_entry option \<Rightarrow> sai_status option \<Rightarrow> 'k meta_db \<Rightarrow> (sai_status \<times> 'k meta_db) checked" where
  "meta_sai_remove_inseg_entry env entry remove db =
     (case entry of None \<Rightarrow> Inr (SAI_STATUS_INVALID_PARAMETER, db)
      | Some e \<Rightarrow> remove_entry env (meta_sai_validate_inseg_entry env entry False db) (inseg_key e) remove db)"

definition meta_sai_set_inseg_entry ::
  "'k meta_env \<Rightarrow> meta_inseg_entry option \<Rightarrow> meta_attribute option \<Rightarrow> (meta_attribute \<Rightarrow> sai_status) option
     \<Rightarrow> 'k meta_db \<Rightarrow> (sai_status \<times> 'k meta_db) checked" where
  "meta_sai_set_inseg_entry env entry attr setf db =
     (case entry of None \<Rightarrow> Inr (SAI_STATUS_INVALID_PARAMETER, db)
      | Some e \<Rightarrow> set_entry env (meta_sai_validate_inseg_entry env entry False db) (inseg_key e) attr setf db)"

definition meta_sai_get_inseg_entry ::
  "'k meta_env \<Rightarrow> meta_inseg_entry option \<Rightarrow> nat \<Rightarrow> meta_attribute list option
     \<Rightarrow> (meta_attribute list \<Rightarrow> sai_status \<times> meta_attribute list) option \<Rightarrow> 'k meta_db \<Rightarrow> 'k get_result" where
  "meta_sai_get_inseg_entry env entry attr_count attr_list get db =
     (case entry of None \<Rightarrow> Inr (SAI_STATUS_INVALID_PARAMETER, meta_attr_array attr_count attr_list, db)
      | Some e \<Rightarrow> get_entry env (meta_sai_validate_inseg_entry env entry False db) (inseg_key e)
          (inseg_switch_id e) attr_count attr_list get db)"

section \<open>Objects named by an id\<close>

definition meta_sai_validate_oid ::
  "'k meta_env \<Rightarrow> nat \<Rightarrow> u64 option \<Rightarrow> bool \<Rightarrow> 'k meta_db \<Rightarrow> sai_status checked" where
  "meta_sai_validate_oid env object_type object_id create db =
     (case object_infos env object_type of
        None \<Rightarrow> invalid_parameter
      | Some info \<Rightarrow>
          if info_isnonobjectid info then Inl Thrown
          else case object_id of
            None \<Rightarrow> invalid_parameter
          | Some oid \<Rightarrow> if create then success else member_check env [object_type] oid db)"

text \<open>
  The create function answers a status and, on success, has written the id; \<open>object_id\<close> is the pointer it
  writes to. The result has the id when there is one.
\<close>

definition meta_sai_create_oid ::
  "'k meta_env \<Rightarrow> bool \<Rightarrow> nat \<Rightarrow> u64 option \<Rightarrow> u64 \<Rightarrow> nat \<Rightarrow> meta_attribute list option
     \<Rightarrow> (meta_attribute list \<Rightarrow> sai_status \<times> u64) option \<Rightarrow> 'k meta_db
     \<Rightarrow> (sai_status \<times> u64 option \<times> 'k meta_db) checked" where
  "meta_sai_create_oid env garbage object_type object_id switch_id attr_count attr_list create db =
     chk_bind (and_then (meta_sai_validate_oid env object_type object_id True db)
       (meta_generic_validation_create env (oid_key object_type SAI_NULL_OBJECT_ID) switch_id attr_count attr_list db))
       (\<lambda>status.
          if status \<noteq> SAI_STATUS_SUCCESS then Inr (status, object_id, db)
          else case create of
            None \<Rightarrow> Inr (SAI_STATUS_FAILURE, object_id, db)
          | Some vendor \<Rightarrow>
              let (status, oid) = vendor (meta_attr_array attr_count attr_list) in
              if status = SAI_STATUS_SUCCESS
              then chk_bind (meta_generic_validation_post_create env garbage (oid_key object_type oid)
                  (if object_type = OT_SWITCH then oid else switch_id) attr_count attr_list db)
                (\<lambda>db. Inr (status, Some oid, db))
              else Inr (status, Some oid, db))"

definition meta_sai_remove_oid ::
  "'k meta_env \<Rightarrow> nat \<Rightarrow> u64 \<Rightarrow> sai_status option \<Rightarrow> 'k meta_db \<Rightarrow> (sai_status \<times> 'k meta_db) checked" where
  "meta_sai_remove_oid env object_type object_id remove db =
     remove_entry env (meta_sai_validate_oid env object_type (Some object_id) False db)
       (oid_key object_type object_id) remove db"

definition meta_sai_set_oid ::
  "'k meta_env \<Rightarrow> nat \<Rightarrow> u64 \<Rightarrow> meta_attribute option \<Rightarrow> (meta_attribute \<Rightarrow> sai_status) option \<Rightarrow> 'k meta_db
     \<Rightarrow> (sai_status \<times> 'k meta_db) checked" where
  "meta_sai_set_oid env object_type object_id attr setf db =
     set_entry env (meta_sai_validate_oid env object_type (Some object_id) False db)
       (oid_key object_type object_id) attr setf db"

definition meta_sai_get_oid ::
  "'k meta_env \<Rightarrow> nat \<Rightarrow> u64 \<Rightarrow> nat \<Rightarrow> meta_attribute list option
     \<Rightarrow> (meta_attribute list \<Rightarrow> sai_status \<times> meta_attribute list) option \<Rightarrow> 'k meta_db \<Rightarrow> 'k get_result" where
  "meta_sai_get_oid env object_type object_id attr_count attr_list get db =
     get_entry env (meta_sai_validate_oid env object_type (Some object_id) False db)
       (oid_key object_type object_id) (switch_id_query env object_id) attr_count attr_list get db"

section \<open>Statistics\<close>

text \<open>
  \<open>stats_enum\<close> gives the values of the enumeration that have a name. The top bit of the count is masked out
  when the unit tests are enabled; the lists of ids are read up to the count.
\<close>

fun stats_loop :: "int list \<Rightarrow> int checked list \<Rightarrow> sai_status checked" where
  "stats_loop stats_enum [] = success"
| "stats_loop stats_enum (x # xs) =
     chk_bind x (\<lambda>i. if i \<notin> set stats_enum then invalid_parameter else stats_loop stats_enum xs)"

definition stats_count :: "'k meta_db \<Rightarrow> u32 \<Rightarrow> u32" where
  "stats_count db n = (if unittests_enabled db \<and> n AND 0x80000000 \<noteq> 0 then n AND NOT 0x80000000 else n)"

definition meta_generic_validation_get_stats ::
  "'k meta_db \<Rightarrow> int list option \<Rightarrow> u32 \<Rightarrow> int list option \<Rightarrow> u64 list option \<Rightarrow> sai_status checked" where
  "meta_generic_validation_get_stats db stats_enum n counter_id_list counter_list =
     (let n = stats_count db n in
      if n < 1 then invalid_parameter
      else if unat n > MAX_LIST_COUNT then invalid_parameter
      else if counter_id_list = None then invalid_parameter
      else if counter_list = None then invalid_parameter
      else case stats_enum of
        None \<Rightarrow> Inr SAI_STATUS_FAILURE
      | Some ids \<Rightarrow> stats_loop ids (array_items (unat n) counter_id_list))"

definition meta_sai_get_stats_oid ::
  "'k meta_env \<Rightarrow> nat \<Rightarrow> u64 \<Rightarrow> int list option \<Rightarrow> u32 \<Rightarrow> int list option \<Rightarrow> u64 list option
     \<Rightarrow> (u64 list \<Rightarrow> sai_status \<times> u64 list) option \<Rightarrow> 'k meta_db \<Rightarrow> (sai_status \<times> u64 list option) checked" where
  "meta_sai_get_stats_oid env object_type object_id stats_enum n counter_id_list counter_list get_stats db =
     chk_bind (and_then (meta_sai_validate_oid env object_type (Some object_id) False db)
       (meta_generic_validation_get_stats db stats_enum n counter_id_list counter_list))
       (\<lambda>status.
          if status \<noteq> SAI_STATUS_SUCCESS then Inr (status, counter_list)
          else case get_stats of
            None \<Rightarrow> Inr (SAI_STATUS_INVALID_PARAMETER, counter_list)
          | Some vendor \<Rightarrow>
              let (status, counters) = vendor (the_default [] counter_list) in Inr (status, Some counters))"

definition meta_generic_validation_clear_stats ::
  "'k meta_db \<Rightarrow> int list option \<Rightarrow> u32 \<Rightarrow> int list option \<Rightarrow> sai_status checked" where
  "meta_generic_validation_clear_stats db stats_enum n counter_id_list =
     (let n = stats_count db n in
      if n < 1 then invalid_parameter
      else if unat n > MAX_LIST_COUNT then invalid_parameter
      else if counter_id_list = None then invalid_parameter
      else case stats_enum of
        None \<Rightarrow> Inr SAI_STATUS_FAILURE
      | Some ids \<Rightarrow> stats_loop ids (array_items (unat n) counter_id_list))"

definition meta_sai_clear_stats_oid ::
  "'k meta_env \<Rightarrow> nat \<Rightarrow> u64 \<Rightarrow> int list option \<Rightarrow> u32 \<Rightarrow> int list option \<Rightarrow> sai_status option \<Rightarrow> 'k meta_db
     \<Rightarrow> sai_status checked" where
  "meta_sai_clear_stats_oid env object_type object_id stats_enum n counter_id_list clear_stats db =
     and_then (meta_sai_validate_oid env object_type (Some object_id) False db)
       (and_then (meta_generic_validation_clear_stats db stats_enum n counter_id_list)
         (case clear_stats of None \<Rightarrow> invalid_parameter | Some status \<Rightarrow> Inr status))"

section \<open>Flush\<close>

definition flush_value_check ::
  "'k meta_env \<Rightarrow> 'k meta_db \<Rightarrow> meta_attr \<Rightarrow> u64 \<Rightarrow> meta_value \<Rightarrow> sai_status checked" where
  "flush_value_check env db md switch_id v =
     (case ma_attrvaluetype md of
        AV_UINT16 \<Rightarrow> if ma_isvlan md \<and> (mv_num v \<ge> 0xFFF \<or> mv_num v = 0) then invalid_parameter else success
      | AV_INT32 \<Rightarrow> if ma_isenum md \<and> \<not> is_allowed_enum_value md (mv_s32 v) then invalid_parameter else success
      | AV_OBJECT_ID \<Rightarrow> meta_generic_validation_objlist env db md switch_id (one_oid (mv_oid v))
      | _ \<Rightarrow> Inl Thrown)"

fun flush_attr_loop ::
  "'k meta_env \<Rightarrow> 'k meta_db \<Rightarrow> u64 \<Rightarrow> meta_attribute list \<Rightarrow> u32 list \<Rightarrow> sai_status checked" where
  "flush_attr_loop env db switch_id [] seen = success"
| "flush_attr_loop env db switch_id (a # attrs) seen =
     (case get_attr_metadata env OT_FDB_FLUSH (at_id a) of
        None \<Rightarrow> invalid_parameter
      | Some md \<Rightarrow>
          if at_id a \<in> set seen then invalid_parameter
          else if ma_flags md \<noteq> ATTR_FLAGS_CREATE_ONLY then invalid_parameter
          else if ma_isconditional md \<or> ma_validonlylength md > 0 then invalid_parameter
          else and_then (flush_value_check env db md switch_id (at_value a))
            (flush_attr_loop env db switch_id attrs (at_id a # seen)))"

definition meta_sai_flush_fdb_entries ::
  "'k meta_env \<Rightarrow> u64 \<Rightarrow> nat \<Rightarrow> meta_attribute list option \<Rightarrow> (meta_attribute list \<Rightarrow> sai_status) option
     \<Rightarrow> 'k meta_db \<Rightarrow> sai_status checked" where
  "meta_sai_flush_fdb_entries env switch_id attr_count attr_list flush_fdb_entries db =
     (case flush_fdb_entries of
        None \<Rightarrow> invalid_parameter
      | Some vendor \<Rightarrow>
          let attrs = meta_attr_array attr_count attr_list in
          if attr_count > MAX_LIST_COUNT then invalid_parameter
          else if attr_count \<noteq> 0 \<and> attr_list = None then invalid_parameter
          else if object_type_query env switch_id \<noteq> OT_SWITCH then invalid_parameter
          else if \<not> object_reference_exists switch_id db then invalid_parameter
          else and_then (flush_attr_loop env db switch_id attrs []) (Inr (vendor attrs)))"

end
