(* ===== verification/MetaEvents.thy ===== *)
theory MetaEvents
  imports MetaApi
begin

text \<open>
  The notifications of the switch about FDB entries (\<^verbatim>\<open>meta/sai_meta.cpp\<close>, \<open>meta_sai_on_fdb_*\<close>), which change the
  database without a call: entries are learned, aged, moved and flushed. The attributes of a notification
  are as many as its count says.
\<close>

record fdb_event =
  ev_type :: int
  ev_entry :: meta_fdb_entry
  ev_attrs :: "meta_attribute list"

definition FDB_EVENT_LEARNED :: int where "FDB_EVENT_LEARNED = 0"
definition FDB_EVENT_AGED :: int where "FDB_EVENT_AGED = 1"
definition FDB_EVENT_MOVE :: int where "FDB_EVENT_MOVE = 2"
definition FDB_EVENT_FLUSHED :: int where "FDB_EVENT_FLUSHED = 3"

definition zero_mac :: "u8 list" where "zero_mac = [0, 0, 0, 0, 0, 0]"

section \<open>Consolidated flush\<close>

text \<open>
  Whether the entry with this key and these attributes is flushed: by its type, its bridge port and its VLAN
  or bridge. An entry without a type makes \<^verbatim>\<open>at\<close> throw.
\<close>

definition flush_matches ::
  "fdb_event \<Rightarrow> int \<Rightarrow> u64 \<Rightarrow> sai_object_meta_key \<Rightarrow> object_attrs \<Rightarrow> bool checked" where
  "flush_matches ev type bpid mk attrs =
     (case map_of attrs FDB_ENTRY_ATTR_TYPE of
        None \<Rightarrow> Inl Thrown
      | Some (md, v) \<Rightarrow>
          if mv_s32 v \<noteq> type then Inr False
          else if bpid \<noteq> SAI_NULL_OBJECT_ID
               \<and> (case map_of attrs FDB_ENTRY_ATTR_BRIDGE_PORT_ID of
                    None \<Rightarrow> True | Some (md, p) \<Rightarrow> mv_oid p \<noteq> bpid)
          then Inr False
          else if fdb_bv_id (ev_entry ev) \<noteq> SAI_NULL_OBJECT_ID
               \<and> (case mk_objectkey mk of KeyFdb e \<Rightarrow> fdb_bv_id (ev_entry ev) \<noteq> fdb_bv_id e | _ \<Rightarrow> True)
          then Inr False
          else Inr True)"

fun flush_scan ::
  "'k meta_env \<Rightarrow> fdb_event \<Rightarrow> int \<Rightarrow> u64 \<Rightarrow> ('k \<times> object_attrs) list \<Rightarrow> sai_object_meta_key list checked" where
  "flush_scan env ev type bpid [] = Inr []"
| "flush_scan env ev type bpid ((key, attrs) # objects) =
     (if \<not> text_has_bvid env key then flush_scan env ev type bpid objects
      else
        (let mk = deserialize_meta_key env key in
         chk_bind (flush_matches ev type bpid mk attrs) (\<lambda>matches.
         chk_bind (flush_scan env ev type bpid objects) (\<lambda>toremove.
           Inr (if matches then mk # toremove else toremove)))))"

definition meta_sai_on_fdb_flush_event_consolidated ::
  "'k meta_env \<Rightarrow> fdb_event \<Rightarrow> 'k meta_db \<Rightarrow> 'k meta_db checked" where
  "meta_sai_on_fdb_flush_event_consolidated env ev db =
     (case get_attr_by_id FDB_ENTRY_ATTR_TYPE (ev_attrs ev) of
        None \<Rightarrow> Inl NullDeref
      | Some type \<Rightarrow>
          let bpid = (case get_attr_by_id FDB_ENTRY_ATTR_BRIDGE_PORT_ID (ev_attrs ev) of
                        None \<Rightarrow> SAI_NULL_OBJECT_ID | Some a \<Rightarrow> mv_oid (at_value a)) in
          chk_bind (flush_scan env ev (mv_s32 (at_value type)) bpid (ObjectAttrHash db)) (\<lambda>toremove.
            for_each (meta_generic_validation_post_remove env) (map Inr toremove) db))"

section \<open>Single events\<close>

definition meta_fdb_event_snoop_oid :: "'k meta_env \<Rightarrow> u64 \<Rightarrow> 'k meta_db \<Rightarrow> 'k meta_db checked" where
  "meta_fdb_event_snoop_oid env oid db =
     (let ot = object_type_query env oid in
      if oid = SAI_NULL_OBJECT_ID then Inr db
      else if object_reference_exists oid db then Inr db
      else if ot = 0 then Inr db
      else chk_bind (object_reference_insert oid db) (\<lambda>db.
        chk_bind (object_exists env (oid_key ot oid) db) (\<lambda>ex.
          if ex then Inr db else create_object env (oid_key ot oid) db)))"

fun snoop_attrs :: "'k meta_env \<Rightarrow> meta_attribute list \<Rightarrow> 'k meta_db \<Rightarrow> 'k meta_db checked" where
  "snoop_attrs env [] db = Inr db"
| "snoop_attrs env (a # attrs) db =
     (case get_attr_metadata env OT_FDB_ENTRY (at_id a) of
        None \<Rightarrow> snoop_attrs env attrs db
      | Some md \<Rightarrow>
          chk_bind (if ma_attrvaluetype md = AV_OBJECT_ID
                    then meta_fdb_event_snoop_oid env (mv_oid (at_value a)) db else Inr db)
            (snoop_attrs env attrs))"

text \<open>A notification with one attribute lacks the type: a learned entry is dynamic.\<close>

definition dynamic_value :: meta_value where
  "dynamic_value = \<lparr>mv_booldata = False, mv_chardata = [], mv_s32 = FDB_ENTRY_TYPE_DYNAMIC, mv_num = 0, mv_oid = 0,
     mv_objlist = (0, None), mv_list_count = 0, mv_list_null = True, mv_u32list = [], mv_families = [],
     mv_range = (0, 0), mv_addr_family = 0, mv_mask = replicate 16 0, mv_enable = False, mv_data_s32 = 0, mv_data_oid = 0, mv_data_objlist = (0, None)\<rparr>"

definition learned_attrs :: "meta_attribute list \<Rightarrow> meta_attribute list" where
  "learned_attrs attrs =
     (if length attrs = 1 then attrs @ [\<lparr>at_id = FDB_ENTRY_ATTR_TYPE, at_value = dynamic_value\<rparr>] else attrs)"

definition fdb_learned :: "'k meta_env \<Rightarrow> bool \<Rightarrow> fdb_event \<Rightarrow> 'k meta_db \<Rightarrow> 'k meta_db checked" where
  "fdb_learned env garbage ev db =
     (let mk = fdb_key (ev_entry ev); attrs = learned_attrs (ev_attrs ev); n = length attrs;
          sw = fdb_switch_id (ev_entry ev) in
      chk_bind (object_exists env mk db) (\<lambda>ex.
        if ex then Inr db
        else chk_bind (meta_generic_validation_create env mk sw n (Some attrs) db) (\<lambda>status.
          if status = SAI_STATUS_SUCCESS
          then meta_generic_validation_post_create env garbage mk sw n (Some attrs) db
          else Inr db)))"

definition fdb_forgotten :: "'k meta_env \<Rightarrow> fdb_event \<Rightarrow> 'k meta_db \<Rightarrow> 'k meta_db checked" where
  "fdb_forgotten env ev db =
     chk_bind (object_exists env (fdb_key (ev_entry ev)) db) (\<lambda>ex.
       if ex then meta_generic_validation_post_remove env (fdb_key (ev_entry ev)) db else Inr db)"

fun fdb_move_loop :: "'k meta_env \<Rightarrow> sai_object_meta_key \<Rightarrow> meta_attribute list \<Rightarrow> 'k meta_db \<Rightarrow> 'k meta_db checked" where
  "fdb_move_loop env mk [] db = Inr db"
| "fdb_move_loop env mk (a # attrs) db =
     chk_bind (meta_generic_validation_set env mk (Some a) db) (\<lambda>(status, db).
     chk_bind (if status \<noteq> SAI_STATUS_SUCCESS then Inr db else meta_generic_validation_post_set env mk a db)
       (fdb_move_loop env mk attrs))"

definition meta_sai_on_fdb_event_single ::
  "'k meta_env \<Rightarrow> bool \<Rightarrow> fdb_event \<Rightarrow> 'k meta_db \<Rightarrow> 'k meta_db checked" where
  "meta_sai_on_fdb_event_single env garbage ev db =
     (let mk = fdb_key (ev_entry ev) in
      chk_bind (meta_fdb_event_snoop_oid env (fdb_bv_id (ev_entry ev)) db) (\<lambda>db.
      chk_bind (snoop_attrs env (ev_attrs ev) db) (\<lambda>db.
        if ev_type ev = FDB_EVENT_LEARNED then fdb_learned env garbage ev db
        else if ev_type ev = FDB_EVENT_AGED then fdb_forgotten env ev db
        else if ev_type ev = FDB_EVENT_FLUSHED
        then (if fdb_mac_address (ev_entry ev) = zero_mac
              then meta_sai_on_fdb_flush_event_consolidated env ev db else fdb_forgotten env ev db)
        else if ev_type ev = FDB_EVENT_MOVE
        then chk_bind (object_exists env mk db) (\<lambda>ex.
          if ex then fdb_move_loop env mk (ev_attrs ev) db else Inr db)
        else Inr db)))"

definition meta_sai_on_fdb_event ::
  "'k meta_env \<Rightarrow> bool \<Rightarrow> fdb_event list \<Rightarrow> 'k meta_db \<Rightarrow> 'k meta_db checked" where
  "meta_sai_on_fdb_event env garbage evs = for_each (meta_sai_on_fdb_event_single env garbage) (map Inr evs)"

end
