(* ===== verification/MetaFacts.thy ===== *)
theory MetaFacts
  imports MetaEvents
begin

text \<open>
  The database of the metadata layer as a table of objects: what the stored values and keys refer to as a
  multiset of ids, and the reference map that belongs to a table. The operations on reference counts are
  addition and subtraction of multisets; the value types are reduced to the one object list a value holds.
\<close>

section \<open>Association lists and sums\<close>

lemma sum_list_delete:
  fixes f :: "'k \<times> 'v \<Rightarrow> 'a::comm_monoid_add"
  assumes "distinct (map fst al)" and "map_of al k = Some v"
  shows "sum_list (map f al) = f (k, v) + sum_list (map f (AList.delete k al))"
  using assms
proof (induction al)
  case (Cons p al)
  show ?case
  proof (cases "fst p = k")
    case True
    then have "AList.delete k al = al" using Cons.prems by (intro delete_id) auto
    then show ?thesis using True Cons.prems by (cases p) auto
  next
    case False
    then show ?thesis using Cons by (cases p) (auto simp: ac_simps)
  qed
qed simp

lemma sum_list_update:
  fixes f :: "'k \<times> 'v \<Rightarrow> 'a::comm_monoid_add"
  assumes "distinct (map fst al)"
  shows "sum_list (map f (AList.update k v al)) = f (k, v) + sum_list (map f (AList.delete k al))"
  using sum_list_delete [of "AList.update k v al" k v f] assms
  by (simp add: distinct_update update_conv' delete_update_same)

section \<open>Multisets of references\<close>

type_synonym references = "u64 \<Rightarrow> int option"

text \<open>The references in a map with the ids \<open>D\<close>, when the references themselves are \<open>M\<close>.\<close>

definition counts :: "u64 set \<Rightarrow> u64 multiset \<Rightarrow> references" where
  "counts D M = (\<lambda>oid. if oid \<in> D then Some (int (count M oid)) else None)"

definition not_null :: "u64 list \<Rightarrow> u64 multiset" where
  "not_null oids = mset (filter (\<lambda>oid. oid \<noteq> SAI_NULL_OBJECT_ID) oids)"

abbreviation with_refs :: "references \<Rightarrow> 'k meta_db \<Rightarrow> 'k meta_db" where
  "with_refs R db \<equiv> db\<lparr>ObjectReferences := R\<rparr>"

lemma counts_exists [simp]:
  "ObjectReferences db = counts D M \<Longrightarrow> object_reference_exists oid db \<longleftrightarrow> oid \<in> D"
  by (simp add: object_reference_exists_def counts_def)

lemma dom_counts [simp]: "dom (counts D M) = D"
  by (auto simp: counts_def split: if_splits)

lemma not_null_simps [simp]:
  "not_null [] = {#}"
  "not_null (oid # oids) = (if oid = SAI_NULL_OBJECT_ID then not_null oids else add_mset oid (not_null oids))"
  by (simp_all add: not_null_def)

lemma not_null_append [simp]: "not_null (xs @ ys) = not_null xs + not_null ys"
  by (simp add: not_null_def)

lemma inc_counts:
  assumes "set_mset (not_null [oid]) \<subseteq> D"
  shows "object_reference_inc oid (with_refs (counts D M) db) = Inr (with_refs (counts D (M + not_null [oid])) db)"
  using assms by (auto simp: object_reference_inc_def counts_def intro!: arg_cong2 [where f = "\<lambda>R db. with_refs R db"])

lemma dec_counts:
  assumes "set_mset M \<subseteq> D" and "not_null [oid] \<subseteq># M"
  shows "object_reference_dec oid (with_refs (counts D M) db) = Inr (with_refs (counts D (M - not_null [oid])) db)"
proof (cases "oid = SAI_NULL_OBJECT_ID")
  case False
  then have m: "oid \<in># M" using assms(2) by simp
  then have "count M oid \<ge> 1" by simp
  then show ?thesis using False m assms(1)
    by (auto simp: object_reference_dec_def counts_def of_nat_diff
        intro!: arg_cong2 [where f = "\<lambda>R db. with_refs R db"])
qed (simp add: object_reference_dec_def)

lemma inc_counts_each:
  assumes "set_mset (not_null oids) \<subseteq> D"
  shows "for_each object_reference_inc (map Inr oids) (with_refs (counts D M) db)
    = Inr (with_refs (counts D (M + not_null oids)) db)"
  using assms
proof (induction oids arbitrary: M)
  case (Cons oid oids)
  have "set_mset (not_null [oid]) \<subseteq> D" "set_mset (not_null oids) \<subseteq> D"
    using Cons.prems by (auto split: if_splits)
  then show ?case using Cons.IH [of "M + not_null [oid]"] by (auto simp: inc_counts)
qed simp

lemma dec_counts_each:
  assumes "set_mset M \<subseteq> D" and "not_null oids \<subseteq># M"
  shows "for_each object_reference_dec (map Inr oids) (with_refs (counts D M) db)
    = Inr (with_refs (counts D (M - not_null oids)) db)"
  using assms
proof (induction oids arbitrary: M)
  case (Cons oid oids)
  have m: "not_null (oid # oids) = not_null [oid] + not_null oids" by simp
  have "not_null [oid] \<subseteq># M" "not_null oids \<subseteq># M - not_null [oid]"
    using Cons.prems(2) unfolding m by (auto simp: mset_subset_eq_exists_conv)
  moreover have "set_mset (M - not_null [oid]) \<subseteq> D" using Cons.prems(1) by (meson in_diffD subset_iff)
  ultimately show ?case using Cons.IH [of "M - not_null [oid]"] Cons.prems(1) unfolding m
    by (simp add: dec_counts diff_diff_add del: not_null_simps)
qed simp

section \<open>The list a value holds\<close>

definition value_list :: "attr_value_type \<Rightarrow> meta_value \<Rightarrow> object_list" where
  "value_list vt v =
     (if vt = AV_OBJECT_ID then one_oid (mv_oid v)
      else if vt = AV_OBJECT_LIST then mv_objlist v
      else if (vt = AV_ACL_FIELD_DATA_OBJECT_ID \<or> vt = AV_ACL_ACTION_DATA_OBJECT_ID) \<and> mv_enable v
      then one_oid (mv_data_oid v)
      else if (vt = AV_ACL_FIELD_DATA_OBJECT_LIST \<or> vt = AV_ACL_ACTION_DATA_OBJECT_LIST) \<and> mv_enable v
      then mv_data_objlist v
      else (0, None))"

definition list_oids :: "object_list \<Rightarrow> u64 list" where
  "list_oids l = take (unat (fst l)) (the_default [] (snd l))"

definition readable :: "object_list \<Rightarrow> bool" where
  "readable l \<longleftrightarrow> fst l = 0 \<or> (\<exists>xs. snd l = Some xs \<and> unat (fst l) \<le> length xs)"

lemma items_readable: "readable l \<Longrightarrow> list_items l = map Inr (list_oids l)"
  using array_items_readable [of "unat (fst l)"]
  by (cases "snd l") (auto simp: readable_def list_items_def list_oids_def simp del: array_items.simps(2))

lemma items_one [simp]: "list_items (one_oid oid) = [Inr oid]" "list_oids (one_oid oid) = [oid]"
  "readable (one_oid oid)" "snd (one_oid oid) \<noteq> None" "fst (one_oid oid) = 1"
  by (simp_all add: one_oid_def list_items_def list_oids_def readable_def)

lemma items_none [simp]: "list_items (0, x) = []" "list_oids (0, x) = []" "readable (0, x)"
  by (cases x; simp add: list_items_def list_oids_def readable_def)+

text \<open>The copy that is stored holds the same list, and reading the list of the value is reading that of the copy.\<close>

lemma copied_list_items:
  "copied_list (fst l) (snd l) = Inr l' \<Longrightarrow> list_items l' = list_items l"
  by (cases l; cases "snd l")
    (auto simp: copied_list_def list_items_def split: if_splits intro!: nth_equalityI)

lemma copied_value_items:
  assumes "copied_value md v = Inr w"
  shows "list_items (value_list (ma_attrvaluetype md) w) = list_items (value_list (ma_attrvaluetype md) v)"
  using assms copied_list_items [of "mv_objlist v"] copied_list_items [of "mv_data_objlist v"]
  by (cases "ma_attrvaluetype md"; cases "mv_enable v")
    (auto simp: copied_value_def value_list_def copied_acl_def zero_value_def acl_field_types_def
      acl_action_types_def chk_bind_eq_Inr Let_def)

definition value_refs :: "attr_value_type \<Rightarrow> meta_value \<Rightarrow> u64 multiset" where
  "value_refs vt v = not_null (list_oids (value_list vt v))"

text \<open>The types whose values are recorded without a look at them, and all that can be stored.\<close>

definition stored_types :: "attr_value_type list" where
  "stored_types = primitive_types @ acl_types @ plain_list_types
     @ [AV_CHARDATA, AV_IP_ADDRESS, AV_IP_PREFIX, AV_OBJECT_ID, AV_OBJECT_LIST, AV_UINT32_RANGE, AV_INT32_RANGE]"

lemmas type_lists =
  stored_types_def primitive_types_def acl_types_def acl_primitive_types_def plain_list_types_def

lemma create_references_list:
  "create_references md v db = Inr db' \<Longrightarrow>
    for_each object_reference_inc (list_items (value_list (ma_attrvaluetype md) v)) db = Inr db'"
  by (cases "ma_attrvaluetype md")
    (auto simp: create_references_def value_list_def type_lists object_reference_inc_list_def
      chk_bind_eq_Inr split: if_splits)

lemma remove_references_list:
  "remove_references md v db = Inr db' \<Longrightarrow>
    for_each object_reference_dec (list_items (value_list (ma_attrvaluetype md) v)) db = Inr db'"
  by (cases "ma_attrvaluetype md")
    (auto simp: remove_references_def value_list_def type_lists object_reference_dec_list_def
      chk_bind_eq_Inr split: if_splits)

lemma remove_references_stored:
  "ma_attrvaluetype md \<in> set stored_types \<Longrightarrow>
    remove_references md v db = for_each object_reference_dec (list_items (value_list (ma_attrvaluetype md) v)) db"
  by (cases "ma_attrvaluetype md")
    (auto simp: remove_references_def value_list_def type_lists object_reference_dec_list_def chk_bind_def
      split: sum.splits)

lemma set_references_list:
  "set_references md previous v db = Inr db' \<Longrightarrow>
    \<exists>db1. (case previous of None \<Rightarrow> Inr db
        | Some p \<Rightarrow> for_each object_reference_dec (list_items (value_list (ma_attrvaluetype md) p)) db) = Inr db1
      \<and> for_each object_reference_inc (list_items (value_list (ma_attrvaluetype md) v)) db1 = Inr db'"
  by (cases "ma_attrvaluetype md"; cases previous)
    (auto simp: set_references_def value_list_def type_lists object_reference_inc_list_def
      object_reference_dec_list_def Let_def chk_bind_eq_Inr split: if_splits)

end
