(* ===== verification/MetaTable.thy ===== *)
theory MetaTable
  imports MetaFacts
begin

text \<open>
  The database of the metadata layer as a table of objects, which determines the reference map: the
  invariant of the database, the assumptions on what the layer is linked with, and what the primitive
  operations (references of one list of ids, storing an attribute, inserting and removing an object) do to
  the table. The facts have the form that an operation that returns keeps the invariant.
\<close>

section \<open>Loops over references\<close>

lemma with_refs_refl [simp]: "ObjectReferences db = R \<Longrightarrow> with_refs R db = db"
  by auto

lemma items_Inr: "list_items l = map Inr oids \<Longrightarrow> readable l \<and> list_oids l = oids"
proof -
  assume l: "list_items l = map Inr oids"
  then have n: "unat (fst l) = length oids"
    by (cases "snd l") (auto simp: list_items_def dest!: arg_cong [where f = length])
  show ?thesis
  proof (cases "snd l")
    case None
    have "oids = []"
    proof (rule ccontr)
      assume "oids \<noteq> []"
      then have "list_items l ! 0 = Inl NullDeref" using n None by (simp add: list_items_def)
      then show False using l \<open>oids \<noteq> []\<close> by (cases oids) auto
    qed
    then show ?thesis using n None by (auto simp: readable_def list_oids_def unat_eq_0)
  next
    case (Some xs)
    have "length oids \<le> length xs"
    proof (rule ccontr)
      assume "\<not> length oids \<le> length xs"
      then have lt: "length xs < length oids" by simp
      then have "list_items l ! length xs = Inl OutOfBounds" using n Some by (simp add: list_items_def)
      then show False using l lt by simp
    qed
    then have r: "readable l" using n Some by (simp add: readable_def)
    then have "map Inr (list_oids l) = (map Inr oids :: u64 checked list)" using l items_readable by metis
    then have "list_oids l = oids" by (simp add: inj_map_eq_map inj_def)
    then show ?thesis using r by simp
  qed
qed

lemma for_each_Inr: "for_each f xs s = Inr s' \<Longrightarrow> \<exists>ys. xs = map Inr ys"
proof (induction xs arbitrary: s)
  case (Cons x xs)
  then obtain y s1 where "x = Inr y" "for_each f xs s1 = Inr s'" by (auto simp: chk_bind_eq_Inr)
  then show ?case using Cons.IH by (metis list.simps(9))
qed simp

lemma inc_one_Inr:
  assumes "object_reference_inc oid (with_refs (counts D M) db) = Inr db'"
  shows "set_mset (not_null [oid]) \<subseteq> D \<and> db' = with_refs (counts D (M + not_null [oid])) db"
  using assms inc_counts [of oid D M db]
  by (auto simp: object_reference_inc_def counts_def split: if_splits option.splits)

lemma dec_one_Inr:
  assumes "set_mset M \<subseteq> D" and "object_reference_dec oid (with_refs (counts D M) db) = Inr db'"
  shows "not_null [oid] \<subseteq># M \<and> db' = with_refs (counts D (M - not_null [oid])) db"
proof -
  have m: "not_null [oid] \<subseteq># M"
    using assms(2) by (auto simp: object_reference_dec_def counts_def count_greater_zero_iff
        split: if_splits option.splits)
  show ?thesis using m dec_counts [OF assms(1) m, of db] assms(2) by simp
qed

lemma inc_each_Inr:
  assumes "for_each object_reference_inc (map Inr oids) (with_refs (counts D M) db) = Inr db'"
  shows "set_mset (not_null oids) \<subseteq> D \<and> db' = with_refs (counts D (M + not_null oids)) db"
  using assms
proof (induction oids arbitrary: M)
  case (Cons oid oids)
  then obtain db1 where db1: "object_reference_inc oid (with_refs (counts D M) db) = Inr db1"
    "for_each object_reference_inc (map Inr oids) db1 = Inr db'" by (auto simp: chk_bind_eq_Inr)
  note one = inc_one_Inr [OF db1(1)]
  then have "for_each object_reference_inc (map Inr oids) (with_refs (counts D (M + not_null [oid])) db) = Inr db'"
    using db1(2) by simp
  from Cons.IH [OF this] one show ?case by (auto simp: ac_simps)
qed simp

lemma dec_each_Inr:
  assumes "set_mset M \<subseteq> D"
    and "for_each object_reference_dec (map Inr oids) (with_refs (counts D M) db) = Inr db'"
  shows "not_null oids \<subseteq># M \<and> db' = with_refs (counts D (M - not_null oids)) db"
  using assms
proof (induction oids arbitrary: M)
  case (Cons oid oids)
  have m: "not_null (oid # oids) = not_null [oid] + not_null oids" by simp
  from Cons.prems(2) obtain db1 where db1: "object_reference_dec oid (with_refs (counts D M) db) = Inr db1"
    "for_each object_reference_dec (map Inr oids) db1 = Inr db'" by (auto simp: chk_bind_eq_Inr)
  note one = dec_one_Inr [OF Cons.prems(1) db1(1)]
  have "set_mset (M - not_null [oid]) \<subseteq> D" using Cons.prems(1) by (meson in_diffD subset_iff)
  from Cons.IH [OF this] one db1(2)
  have "not_null oids \<subseteq># M - not_null [oid]"
    "db' = with_refs (counts D (M - not_null [oid] - not_null oids)) db" by simp_all
  then show ?case using one unfolding m by (auto simp: mset_subset_eq_exists_conv diff_diff_add)
qed simp

text \<open>The same for the list that a value holds, and for the members of a key.\<close>

lemma inc_list_Inr:
  assumes "for_each object_reference_inc (list_items l) (with_refs (counts D M) db) = Inr db'"
  shows "readable l \<and> set_mset (not_null (list_oids l)) \<subseteq> D
    \<and> db' = with_refs (counts D (M + not_null (list_oids l))) db"
proof -
  from for_each_Inr [OF assms] obtain oids where l: "list_items l = map Inr oids" by blast
  then show ?thesis using items_Inr [OF l] inc_each_Inr [of oids D M db db'] assms by simp
qed

lemma dec_list_Inr:
  assumes "set_mset M \<subseteq> D" and "for_each object_reference_dec (list_items l) (with_refs (counts D M) db) = Inr db'"
  shows "not_null (list_oids l) \<subseteq># M \<and> db' = with_refs (counts D (M - not_null (list_oids l))) db"
proof -
  from for_each_Inr [OF assms(2)] obtain oids where l: "list_items l = map Inr oids" by blast
  then show ?thesis using items_Inr [OF l] dec_each_Inr [OF assms(1), of oids db db'] assms(2) by simp
qed

definition oid_members :: "sai_object_meta_key \<Rightarrow> struct_member list \<Rightarrow> u64 list" where
  "oid_members mk ms = map (\<lambda>m. sm_getoid m mk) (filter sm_is_oid ms)"

lemma inc_members_each: "inc_members mk ms db = for_each object_reference_inc (map Inr (oid_members mk ms)) db"
  by (induction mk ms db rule: inc_members.induct) (auto simp: oid_members_def chk_bind_def split: sum.splits)

lemma dec_members_each: "dec_members mk ms db = for_each object_reference_dec (map Inr (oid_members mk ms)) db"
  by (induction mk ms db rule: dec_members.induct) (auto simp: oid_members_def chk_bind_def split: sum.splits)

section \<open>Tables\<close>

text \<open>The references of the attributes of an object, and those of the members of its key.\<close>

definition attr_refs :: "object_attrs \<Rightarrow> u64 multiset" where
  "attr_refs attrs = sum_list (map (\<lambda>(i, md, v). value_refs (ma_attrvaluetype md) v) attrs)"

definition member_oids :: "'k meta_env \<Rightarrow> sai_object_meta_key \<Rightarrow> u64 list" where
  "member_oids env mk =
     (case object_infos env (mk_objecttype mk) of
        Some info \<Rightarrow> if info_isnonobjectid info then oid_members mk (info_structmembers info) else []
      | None \<Rightarrow> [])"

definition object_refs :: "'k meta_env \<Rightarrow> 'k \<times> object_attrs \<Rightarrow> u64 multiset" where
  "object_refs env p = not_null (member_oids env (deserialize_meta_key env (fst p))) + attr_refs (snd p)"

type_synonym 'k object_table = "('k \<times> object_attrs) list"

definition table_refs :: "'k meta_env \<Rightarrow> 'k object_table \<Rightarrow> u64 multiset" where
  "table_refs env h = sum_list (map (object_refs env) h)"

definition table_oids :: "'k meta_env \<Rightarrow> 'k object_table \<Rightarrow> u64 set" where
  "table_oids env h = {oid. \<exists>k \<in> fst ` set h. mk_objectkey (deserialize_meta_key env k) = KeyOid oid}"

text \<open>The reference map that belongs to a table.\<close>

definition table_counts :: "'k meta_env \<Rightarrow> 'k object_table \<Rightarrow> references" where
  "table_counts env h = counts (table_oids env h) (table_refs env h)"

lemma attr_refs_update:
  assumes "distinct (map fst attrs)"
  shows "attr_refs (AList.update i (md, v) attrs)
      = value_refs (ma_attrvaluetype md) v + attr_refs (AList.delete i attrs)"
  using sum_list_update [OF assms, of "\<lambda>(i, md, v). value_refs (ma_attrvaluetype md) v" i "(md, v)"]
  by (simp add: attr_refs_def)

lemma attr_refs_delete:
  assumes "distinct (map fst attrs)" and "map_of attrs i = Some (md, v)"
  shows "attr_refs attrs = value_refs (ma_attrvaluetype md) v + attr_refs (AList.delete i attrs)"
  using sum_list_delete [OF assms, of "\<lambda>(i, md, v). value_refs (ma_attrvaluetype md) v"]
  by (simp add: attr_refs_def)

lemma table_refs_update:
  assumes "distinct (map fst h)" and "map_of h k = Some attrs"
  shows "table_refs env (AList.update k attrs' h) + attr_refs attrs = table_refs env h + attr_refs attrs'"
  using sum_list_update [OF assms(1), of "object_refs env" k attrs'] sum_list_delete [OF assms, of "object_refs env"]
  by (simp add: table_refs_def object_refs_def ac_simps)

lemma delete_absent: "map_of h k = None \<Longrightarrow> AList.delete k h = h"
  by (simp add: map_of_eq_None_iff delete_id)

lemma table_refs_insert:
  assumes "distinct (map fst h)" and "map_of h k = None"
  shows "table_refs env (AList.update k attrs h) = table_refs env h + object_refs env (k, attrs)"
  using sum_list_update [OF assms(1), of "object_refs env" k attrs] delete_absent [OF assms(2)]
  by (simp add: table_refs_def ac_simps)

lemma table_refs_delete:
  assumes "distinct (map fst h)" and "map_of h k = Some attrs"
  shows "table_refs env h = object_refs env (k, attrs) + table_refs env (AList.delete k h)"
  using sum_list_delete [OF assms, of "object_refs env"] by (simp add: table_refs_def)

lemma table_oids_update:
  "table_oids env (AList.update k attrs h) =
    {oid. mk_objectkey (deserialize_meta_key env k) = KeyOid oid} \<union> table_oids env h"
  by (auto simp: table_oids_def dom_update)

lemma table_oids_present:
  assumes "map_of h k = Some attrs'"
  shows "table_oids env (AList.update k attrs h) = table_oids env h"
proof -
  have "k \<in> fst ` set h" using assms by (metis dom_map_of_conv_image_fst domI)
  then have "{oid. mk_objectkey (deserialize_meta_key env k) = KeyOid oid} \<subseteq> table_oids env h"
    unfolding table_oids_def by blast
  then show ?thesis by (auto simp: table_oids_update)
qed

section \<open>What the layer is linked with\<close>

definition oid_type :: "'k meta_env \<Rightarrow> nat \<Rightarrow> bool" where
  "oid_type env ot \<longleftrightarrow> (\<exists>info. object_infos env ot = Some info \<and> \<not> info_isnonobjectid info)"

definition entry_type :: "'k meta_env \<Rightarrow> nat \<Rightarrow> bool" where
  "entry_type env ot \<longleftrightarrow> (\<exists>info. object_infos env ot = Some info \<and> info_isnonobjectid info)"

text \<open>A key whose entry is of its type, and an object id that has the type the client library gives it.\<close>

fun key_matches :: "'k meta_env \<Rightarrow> sai_object_key \<Rightarrow> nat \<Rightarrow> bool" where
  "key_matches env (KeyOid oid) ot \<longleftrightarrow> oid \<noteq> SAI_NULL_OBJECT_ID \<and> ot \<noteq> 0 \<and> object_type_query env oid = ot"
| "key_matches env (KeyFdb e) ot \<longleftrightarrow> ot = OT_FDB_ENTRY"
| "key_matches env (KeyNeighbor e) ot \<longleftrightarrow> ot = OT_NEIGHBOR_ENTRY"
| "key_matches env (KeyRoute e) ot \<longleftrightarrow> ot = OT_ROUTE_ENTRY"
| "key_matches env _ ot \<longleftrightarrow> False"

definition matching :: "'k meta_env \<Rightarrow> sai_object_meta_key \<Rightarrow> bool" where
  "matching env mk \<longleftrightarrow> key_matches env (mk_objectkey mk) (mk_objecttype mk)"

text \<open>
  What is documented of the generated metadata and of the text of keys: the seven entry types are no object
  id types, type zero is invalid, the query on object ids answers object id types, and the text of a key
  gives back the key.
\<close>

definition entry_types :: "nat list" where
  "entry_types = [OT_FDB_ENTRY, OT_NEIGHBOR_ENTRY, OT_ROUTE_ENTRY, OT_MCAST_FDB_ENTRY, OT_L2MC_ENTRY,
     OT_IPMC_ENTRY, OT_INSEG_ENTRY]"

definition meta_env_ok :: "'k meta_env \<Rightarrow> bool" where
  "meta_env_ok env \<longleftrightarrow>
     (\<forall>ot \<in> set entry_types. entry_type env ot)
   \<and> object_infos env 0 = None
   \<and> (\<forall>oid. object_type_query env oid \<noteq> 0 \<longrightarrow> oid_type env (object_type_query env oid))
   \<and> (\<forall>mk k. matching env mk \<longrightarrow> serialize_object_meta_key env mk = Inr k \<longrightarrow> deserialize_meta_key env k = mk)"

lemma entry_not_oid: "entry_type env ot \<Longrightarrow> \<not> oid_type env ot"
  by (auto simp: entry_type_def oid_type_def)

lemma serialize_text: "serialize_object_meta_key env mk = Inr k \<Longrightarrow> k = meta_key_text env mk"
  by (auto simp: serialize_object_meta_key_def Let_def chk_bind_eq_Inr split: option.splits if_splits)

lemma serialize_oid_type:
  assumes "meta_env_ok env" and "oid_type env ot"
  shows "serialize_object_meta_key env (oid_key ot oid) = Inr (meta_key_text env (oid_key ot oid))"
proof -
  from assms(2) obtain info where "object_infos env ot = Some info" "\<not> info_isnonobjectid info"
    by (auto simp: oid_type_def)
  moreover have "ot \<notin> set entry_types" using assms entry_not_oid by (auto simp: meta_env_ok_def)
  ultimately show ?thesis
    by (simp add: serialize_object_meta_key_def oid_key_def Let_def entry_types_def)
qed

lemma find_attr_id: "find_attr ms i = Some md \<Longrightarrow> ma_attrid md = i"
  by (induction ms) (auto split: if_splits)

lemma metadata_id: "get_attr_metadata env ot i = Some md \<Longrightarrow> ma_attrid md = i"
  by (auto simp: get_attr_metadata_def find_attr_id split: option.splits)

lemma query_oid_type:
  "meta_env_ok env \<Longrightarrow> object_type_query env oid \<noteq> 0 \<Longrightarrow> oid_type env (object_type_query env oid)"
  unfolding meta_env_ok_def by blast

lemma matching_oid_type:
  "meta_env_ok env \<Longrightarrow> matching env mk \<Longrightarrow> mk_objectkey mk = KeyOid oid \<Longrightarrow> oid_type env (mk_objecttype mk)"
  using query_oid_type [of env oid] by (auto simp: matching_def)

lemma matching_entry_type:
  assumes "meta_env_ok env" and "matching env mk" and "\<And>oid. mk_objectkey mk \<noteq> KeyOid oid"
  shows "entry_type env (mk_objecttype mk)"
  using assms by (cases "mk_objectkey mk") (auto simp: meta_env_ok_def matching_def entry_types_def)

section \<open>The invariant\<close>

text \<open>
  Every stored attribute is kept with its metadata, and its list of ids can be read; every key is the text
  of a key; every reference is to an object id of the table; the reference map is that of the table. No
  object that goes with a port is NULL.
\<close>

definition writable_types :: "attr_value_type list" where
  "writable_types = AV_ACL_CAPABILITY # AV_VLAN_LIST # stored_types"

definition stored_ok :: "'k meta_env \<Rightarrow> nat \<Rightarrow> u32 \<times> meta_attr \<times> meta_value \<Rightarrow> bool" where
  "stored_ok env ot = (\<lambda>(i, md, v). get_attr_metadata env ot i = Some md
     \<and> ma_attrvaluetype md \<in> set writable_types \<and> readable (value_list (ma_attrvaluetype md) v))"

definition object_ok :: "'k meta_env \<Rightarrow> 'k \<times> object_attrs \<Rightarrow> bool" where
  "object_ok env = (\<lambda>(k, attrs). matching env (deserialize_meta_key env k)
     \<and> serialize_object_meta_key env (deserialize_meta_key env k) = Inr k
     \<and> distinct (map fst attrs)
     \<and> (\<forall>p \<in> set attrs. stored_ok env (mk_objecttype (deserialize_meta_key env k)) p))"

definition table_ok :: "'k meta_env \<Rightarrow> 'k object_table \<Rightarrow> bool" where
  "table_ok env h \<longleftrightarrow> distinct (map fst h) \<and> (\<forall>p \<in> set h. object_ok env p)
     \<and> set_mset (table_refs env h) \<subseteq> table_oids env h"

definition db_ok :: "'k meta_env \<Rightarrow> 'k meta_db \<Rightarrow> bool" where
  "db_ok env db \<longleftrightarrow> table_ok env (ObjectAttrHash db)
     \<and> ObjectReferences db = table_counts env (ObjectAttrHash db)
     \<and> \<not> warmBoot db
     \<and> (\<forall>port oids. map_port_to_related_set db port = Some oids \<longrightarrow> SAI_NULL_OBJECT_ID \<notin> set oids)"

definition with_table :: "'k meta_env \<Rightarrow> 'k object_table \<Rightarrow> 'k meta_db \<Rightarrow> 'k meta_db" where
  "with_table env h db = db\<lparr>ObjectReferences := table_counts env h, ObjectAttrHash := h\<rparr>"

lemma with_table_ok: "db_ok env db \<Longrightarrow> table_ok env h \<Longrightarrow> db_ok env (with_table env h db)"
  by (simp add: db_ok_def with_table_def)

lemma with_table_hash [simp]: "ObjectAttrHash (with_table env h db) = h"
  by (simp add: with_table_def)

lemma update_in_set:
  "p \<in> set (AList.update k v al) \<Longrightarrow> distinct (map fst al) \<Longrightarrow> p = (k, v) \<or> p \<in> set al \<and> fst p \<noteq> k"
  by (induction al) (auto split: if_splits)

lemma all_update:
  "distinct (map fst al) \<Longrightarrow> \<forall>p \<in> set al. P p \<Longrightarrow> P (k, v) \<Longrightarrow> \<forall>p \<in> set (AList.update k v al). P p"
  using update_in_set by metis

text \<open>The key of a matching object is in the table when the object is, and the other way round.\<close>

lemma deserialize_key:
  "meta_env_ok env \<Longrightarrow> matching env mk \<Longrightarrow> serialize_object_meta_key env mk = Inr k \<Longrightarrow>
    deserialize_meta_key env k = mk"
  by (auto simp: meta_env_ok_def)

lemma present_oid:
  assumes "meta_env_ok env" and "table_ok env h" and "matching env mk"
    and "serialize_object_meta_key env mk = Inr k" and "mk_objectkey mk = KeyOid oid"
  shows "oid \<in> table_oids env h \<longleftrightarrow> map_of h k \<noteq> None"
proof
  assume "oid \<in> table_oids env h"
  then obtain k' attrs where k': "(k', attrs) \<in> set h" "mk_objectkey (deserialize_meta_key env k') = KeyOid oid"
    by (auto simp: table_oids_def)
  have m: "matching env (deserialize_meta_key env k')"
    and s: "serialize_object_meta_key env (deserialize_meta_key env k') = Inr k'"
    using assms(2) k'(1) by (auto simp: table_ok_def object_ok_def)
  have "deserialize_meta_key env k' = mk"
    using m assms(3,5) k'(2) by (cases mk; cases "deserialize_meta_key env k'") (auto simp: matching_def)
  then have "k' = k" using s assms(4) by simp
  then show "map_of h k \<noteq> None" using k'(1) by (auto simp: map_of_eq_None_iff rev_image_eqI)
next
  assume "map_of h k \<noteq> None"
  then have "k \<in> fst ` set h" by (simp add: map_of_eq_None_iff)
  then show "oid \<in> table_oids env h"
    using deserialize_key [OF assms(1,3,4)] assms(5) unfolding table_oids_def by blast
qed

lemma table_ok_objects: "table_ok env h \<Longrightarrow> \<forall>p \<in> set h. object_ok env p"
  by (simp add: table_ok_def)

subsection \<open>Storing an attribute\<close>

lemma table_store:
  assumes "table_ok env h" and "map_of h k = Some attrs"
    and "stored_ok env (mk_objecttype (deserialize_meta_key env k)) (i, md, v)"
    and "set_mset (table_refs env (AList.update k (AList.update i (md, v) attrs) h)) \<subseteq> table_oids env h"
  shows "table_ok env (AList.update k (AList.update i (md, v) attrs) h)"
proof -
  have d: "distinct (map fst h)" using assms(1) by (simp add: table_ok_def)
  have o: "object_ok env (k, attrs)" using assms(1,2) map_of_SomeD by (fastforce simp: table_ok_def)
  have "object_ok env (k, AList.update i (md, v) attrs)"
    using o assms(3) all_update [of attrs "stored_ok env (mk_objecttype (deserialize_meta_key env k))"]
    by (simp add: object_ok_def distinct_update)
  then have "\<forall>p \<in> set (AList.update k (AList.update i (md, v) attrs) h). object_ok env p"
    using table_ok_objects [OF assms(1)] by (intro all_update [OF d])
  then show ?thesis
    using d assms(4) table_oids_present [OF assms(2)] by (simp add: table_ok_def distinct_update)
qed

text \<open>
  An attribute whose references are taken, those of the value before given back, and which is stored: the
  database is that of the new table.
\<close>

definition stored_table :: "'k \<Rightarrow> u32 \<Rightarrow> meta_attr \<Rightarrow> meta_value \<Rightarrow> 'k object_table \<Rightarrow> 'k object_table" where
  "stored_table k i md v h =
     (case map_of h k of None \<Rightarrow> h | Some attrs \<Rightarrow> AList.update k (AList.update i (md, v) attrs) h)"

lemma mset_shift: "A + P = M + V \<Longrightarrow> P \<subseteq># M \<Longrightarrow> A = M - P + V"
  by (auto simp: mset_subset_eq_exists_conv ac_simps)

lemma store_keeps:
  assumes db: "db_ok env db" and env: "meta_env_ok env" and mk: "matching env mk"
    and md: "get_attr_metadata env (mk_objecttype mk) i = Some md"
    and vt: "ma_attrvaluetype md \<in> set writable_types"
    and k: "serialize_object_meta_key env mk = Inr k"
    and attrs: "map_of (ObjectAttrHash db) k = Some attrs"
    and dec: "(case map_option snd (map_of attrs i) of None \<Rightarrow> Inr db
        | Some p \<Rightarrow> for_each object_reference_dec (list_items (value_list (ma_attrvaluetype md) p)) db) = Inr db1"
    and inc: "for_each object_reference_inc (list_items (value_list (ma_attrvaluetype md) v)) db1 = Inr db2"
  shows "db_ok env (with_table env (stored_table k i md v (ObjectAttrHash db)) db)
    \<and> db2\<lparr>ObjectAttrHash := stored_table k i md v (ObjectAttrHash db)\<rparr>
      = with_table env (stored_table k i md v (ObjectAttrHash db)) db
    \<and> ObjectAttrHash db2 = ObjectAttrHash db"
proof -
  let ?h = "ObjectAttrHash db"
  let ?h' = "AList.update k (AList.update i (md, v) attrs) ?h"
  let ?D = "table_oids env ?h" and ?M = "table_refs env ?h"
  have h: "table_ok env ?h" "with_refs (counts ?D ?M) db = db"
    using db by (simp_all add: db_ok_def table_counts_def)
  then have d: "distinct (map fst ?h)" and sub: "set_mset ?M \<subseteq> ?D" by (simp_all add: table_ok_def)
  have "object_ok env (k, attrs)" using h(1) attrs map_of_SomeD by (fastforce simp: table_ok_def)
  then have da: "distinct (map fst attrs)" and st: "\<forall>p \<in> set attrs. stored_ok env (mk_objecttype mk) p"
    using deserialize_key [OF env mk k] by (simp_all add: object_ok_def)
  let ?P = "case map_of attrs i of None \<Rightarrow> {#} | Some q \<Rightarrow> value_refs (ma_attrvaluetype md) (snd q)"
  have a1: "attr_refs attrs = ?P + attr_refs (AList.delete i attrs)"
  proof (cases "map_of attrs i")
    case (Some q)
    then have "stored_ok env (mk_objecttype mk) (i, q)" using st map_of_SomeD by fastforce
    then have "fst q = md" using md by (cases q) (simp add: stored_ok_def)
    then show ?thesis using attr_refs_delete [OF da, of i md "snd q"] Some by (cases q) simp
  qed (simp add: delete_absent)
  have p: "?P \<subseteq># ?M \<and> db1 = with_refs (counts ?D (?M - ?P)) db"
  proof (cases "map_of attrs i")
    case None
    then show ?thesis using dec h(2) by simp
  next
    case (Some q)
    then show ?thesis
      using dec dec_list_Inr [OF sub, of "value_list (ma_attrvaluetype md) (snd q)" db db1] h(2)
      by (simp add: value_refs_def)
  qed
  have v: "readable (value_list (ma_attrvaluetype md) v)" "set_mset (value_refs (ma_attrvaluetype md) v) \<subseteq> ?D"
    "db2 = with_refs (counts ?D (?M - ?P + value_refs (ma_attrvaluetype md) v)) db"
    using inc_list_Inr [of "value_list (ma_attrvaluetype md) v" ?D "?M - ?P" db db2] inc p
    by (simp_all add: value_refs_def)
  have "table_refs env ?h' + attr_refs attrs = ?M + attr_refs (AList.update i (md, v) attrs)"
    by (rule table_refs_update [OF d attrs])
  then have "table_refs env ?h' + ?P = ?M + value_refs (ma_attrvaluetype md) v"
    using a1 attr_refs_update [OF da, of i md v] by (simp add: ac_simps)
  then have r: "table_refs env ?h' = ?M - ?P + value_refs (ma_attrvaluetype md) v"
    using mset_shift p by blast
  have o: "table_oids env ?h' = ?D" by (rule table_oids_present [OF attrs])
  have "set_mset (table_refs env ?h') \<subseteq> ?D"
    using sub v(2) unfolding r by (auto dest: in_diffD)
  moreover have "stored_ok env (mk_objecttype (deserialize_meta_key env k)) (i, md, v)"
    using deserialize_key [OF env mk k] md vt v(1) by (simp add: stored_ok_def)
  ultimately have "table_ok env ?h'" by (intro table_store [OF h(1) attrs])
  moreover have "db2\<lparr>ObjectAttrHash := ?h'\<rparr> = with_table env ?h' db"
    using v(3) r o by (simp add: with_table_def table_counts_def)
  ultimately show ?thesis using with_table_ok [OF db] attrs v(3) by (simp add: stored_table_def)
qed

subsection \<open>Inserting an object\<close>

lemma no_attr_refs [simp]: "attr_refs [] = {#}"
  by (simp add: attr_refs_def)

lemma table_insert:
  assumes env: "meta_env_ok env" and h: "table_ok env h" and mk: "matching env mk"
    and k: "serialize_object_meta_key env mk = Inr k" and new: "map_of h k = None"
    and sub: "set_mset (not_null (member_oids env mk)) \<subseteq> table_oids env h"
  shows "table_ok env (AList.update k [] h)"
    and "table_refs env (AList.update k [] h) = table_refs env h + not_null (member_oids env mk)"
    and "table_oids env (AList.update k [] h) = {oid. mk_objectkey mk = KeyOid oid} \<union> table_oids env h"
proof -
  have d: "distinct (map fst h)" using h by (simp add: table_ok_def)
  note des = deserialize_key [OF env mk k]
  show r: "table_refs env (AList.update k [] h) = table_refs env h + not_null (member_oids env mk)"
    using table_refs_insert [OF d new] des by (simp add: object_refs_def)
  show o: "table_oids env (AList.update k [] h) = {oid. mk_objectkey mk = KeyOid oid} \<union> table_oids env h"
    by (simp add: table_oids_update des)
  have "object_ok env (k, [])" using mk k des by (simp add: object_ok_def)
  then have "\<forall>p \<in> set (AList.update k [] h). object_ok env p"
    using table_ok_objects [OF h] by (intro all_update [OF d])
  then show "table_ok env (AList.update k [] h)"
    using d sub h unfolding table_ok_def r o by (auto simp: distinct_update)
qed

lemma member_oids_oid:
  "meta_env_ok env \<Longrightarrow> matching env mk \<Longrightarrow> mk_objectkey mk = KeyOid oid \<Longrightarrow> member_oids env mk = []"
  using matching_oid_type by (fastforce simp: member_oids_def oid_type_def)

lemma create_object_Inr:
  "create_object env mk db = Inr db' \<Longrightarrow> \<exists>k. serialize_object_meta_key env mk = Inr k
    \<and> map_of (ObjectAttrHash db) k = None
    \<and> db' = db\<lparr>ObjectAttrHash := AList.update k [] (ObjectAttrHash db)\<rparr>"
  by (auto simp: create_object_def chk_bind_eq_Inr object_key_exists_def split: if_splits)

text \<open>An object named by an id: its reference and its entry, in either order.\<close>

lemma insert_oid_keeps:
  assumes env: "meta_env_ok env" and db: "db_ok env db" and mk: "matching env mk" "mk_objectkey mk = KeyOid oid"
    and k: "serialize_object_meta_key env mk = Inr k" and new: "map_of (ObjectAttrHash db) k = None"
  shows "db_ok env (with_table env (AList.update k [] (ObjectAttrHash db)) db)"
    and "(ObjectReferences db)(oid \<mapsto> 0) = table_counts env (AList.update k [] (ObjectAttrHash db))"
proof -
  let ?h = "ObjectAttrHash db"
  have h: "table_ok env ?h" using db by (simp add: db_ok_def)
  have "set_mset (not_null (member_oids env mk)) \<subseteq> table_oids env ?h"
    using member_oids_oid [OF env mk] by simp
  note ins = table_insert [OF env h mk(1) k new this]
  show "db_ok env (with_table env (AList.update k [] ?h) db)" by (rule with_table_ok [OF db ins(1)])
  have "oid \<notin> table_oids env ?h" using present_oid [OF env h mk(1) k mk(2)] new by simp
  then have "count (table_refs env ?h) oid = 0" using h by (auto simp: table_ok_def count_eq_zero_iff)
  then show "(ObjectReferences db)(oid \<mapsto> 0) = table_counts env (AList.update k [] ?h)"
    using db mk(2) ins(2,3) member_oids_oid [OF env mk] by (auto simp: db_ok_def table_counts_def counts_def)
qed

text \<open>An entry: it is inserted, and the references of its members are taken.\<close>

lemma insert_entry_keeps:
  assumes env: "meta_env_ok env" and db: "db_ok env db" and mk: "matching env mk" "\<And>oid. mk_objectkey mk \<noteq> KeyOid oid"
    and k: "serialize_object_meta_key env mk = Inr k" and new: "map_of (ObjectAttrHash db) k = None"
    and info: "object_infos env (mk_objecttype mk) = Some info"
    and inc: "inc_members mk (info_structmembers info)
      (db\<lparr>ObjectAttrHash := AList.update k [] (ObjectAttrHash db)\<rparr>) = Inr db'"
  shows "db_ok env db' \<and> db' = with_table env (AList.update k [] (ObjectAttrHash db)) db"
proof -
  let ?h = "ObjectAttrHash db"
  let ?oids = "member_oids env mk"
  have h: "table_ok env ?h" and c: "with_refs (table_counts env ?h) db = db" using db by (simp_all add: db_ok_def)
  have "info_isnonobjectid info" using matching_entry_type [OF env mk] info by (simp add: entry_type_def)
  then have "for_each object_reference_inc (map Inr ?oids)
      (with_refs (counts (table_oids env ?h) (table_refs env ?h)) (db\<lparr>ObjectAttrHash := AList.update k [] ?h\<rparr>))
      = Inr db'"
    using inc info c db by (simp add: inc_members_each member_oids_def db_ok_def table_counts_def)
  from inc_each_Inr [OF this] have sub: "set_mset (not_null ?oids) \<subseteq> table_oids env ?h"
    and db': "db' = with_refs (counts (table_oids env ?h) (table_refs env ?h + not_null ?oids))
      (db\<lparr>ObjectAttrHash := AList.update k [] ?h\<rparr>)" by simp_all
  note ins = table_insert [OF env h mk(1) k new sub]
  have "db' = with_table env (AList.update k [] ?h) db"
    using db' ins(2,3) mk(2) by (simp add: with_table_def table_counts_def)
  then show ?thesis using with_table_ok [OF db ins(1)] by simp
qed

subsection \<open>Removing an object\<close>

lemma delete_in_set: "p \<in> set (AList.delete k h) \<longleftrightarrow> p \<in> set h \<and> fst p \<noteq> k"
  by (induction h) auto

lemma table_oids_delete:
  assumes "meta_env_ok env" and "table_ok env h" and "matching env mk"
    and "serialize_object_meta_key env mk = Inr k"
  shows "table_oids env (AList.delete k h) = table_oids env h - {oid. mk_objectkey mk = KeyOid oid}"
proof -
  have "oid \<notin> table_oids env (AList.delete k h)" if "mk_objectkey mk = KeyOid oid" for oid
  proof
    assume "oid \<in> table_oids env (AList.delete k h)"
    then obtain k' attrs where k': "(k', attrs) \<in> set h" "k' \<noteq> k" "mk_objectkey (deserialize_meta_key env k') = KeyOid oid"
      by (auto simp: table_oids_def delete_in_set)
    then have o: "matching env (deserialize_meta_key env k')"
      "serialize_object_meta_key env (deserialize_meta_key env k') = Inr k'"
      using table_ok_objects [OF assms(2)] by (auto simp: object_ok_def)
    have "deserialize_meta_key env k' = mk"
      using o(1) assms(3) k'(3) that by (cases mk; cases "deserialize_meta_key env k'") (auto simp: matching_def)
    then show False using o(2) assms(4) k'(2) by simp
  qed
  moreover have "oid \<in> table_oids env (AList.delete k h)"
    if "oid \<in> table_oids env h" "mk_objectkey mk \<noteq> KeyOid oid" for oid
    using that deserialize_key [OF assms(1,3,4)] by (force simp: table_oids_def delete_in_set)
  moreover have "table_oids env (AList.delete k h) \<subseteq> table_oids env h"
    by (auto simp: table_oids_def delete_in_set)
  ultimately show ?thesis by blast
qed

lemma table_delete:
  assumes env: "meta_env_ok env" and h: "table_ok env h" and mk: "matching env mk"
    and k: "serialize_object_meta_key env mk = Inr k" and attrs: "map_of h k = Some attrs"
    and unused: "\<And>oid. mk_objectkey mk = KeyOid oid \<Longrightarrow> oid \<notin># table_refs env h - attr_refs attrs"
  shows "table_ok env (AList.delete k h)"
    and "table_refs env (AList.delete k h) = table_refs env h - attr_refs attrs - not_null (member_oids env mk)"
    and "attr_refs attrs + not_null (member_oids env mk) \<subseteq># table_refs env h"
proof -
  have d: "distinct (map fst h)" using h by (simp add: table_ok_def)
  have r: "table_refs env h = not_null (member_oids env mk) + attr_refs attrs + table_refs env (AList.delete k h)"
    using table_refs_delete [OF d attrs] deserialize_key [OF env mk k] by (simp add: object_refs_def)
  show e: "table_refs env (AList.delete k h) = table_refs env h - attr_refs attrs - not_null (member_oids env mk)"
    unfolding r by (simp add: ac_simps)
  show "attr_refs attrs + not_null (member_oids env mk) \<subseteq># table_refs env h"
    unfolding r by (simp add: ac_simps)
  have "set_mset (table_refs env (AList.delete k h)) \<subseteq> set_mset (table_refs env h - attr_refs attrs)"
    unfolding e using in_diffD by fast
  also have "\<dots> \<subseteq> table_oids env h - {oid. mk_objectkey mk = KeyOid oid}"
    using h unused by (auto simp: table_ok_def dest: in_diffD)
  finally have "set_mset (table_refs env (AList.delete k h)) \<subseteq> table_oids env (AList.delete k h)"
    unfolding table_oids_delete [OF env h mk k] .
  moreover have "\<forall>p \<in> set (AList.delete k h). object_ok env p"
    using table_ok_objects [OF h] by (simp add: delete_in_set)
  ultimately show "table_ok env (AList.delete k h)"
    using d by (simp add: table_ok_def distinct_delete)
qed

text \<open>Giving back the references of the stored attributes, when it returns and that it returns.\<close>

lemma attr_refs_Cons: "attr_refs ((i, md, v) # attrs) = value_refs (ma_attrvaluetype md) v + attr_refs attrs"
  by (simp add: attr_refs_def)

lemma post_remove_loop_Inr:
  assumes "set_mset M \<subseteq> D" and "\<forall>p \<in> set attrs. stored_ok env (mk_objecttype mk) p"
    and "post_remove_loop env mk attrs (with_refs (counts D M) db) = Inr db'"
  shows "attr_refs attrs \<subseteq># M \<and> db' = with_refs (counts D (M - attr_refs attrs)) db"
  using assms
proof (induction attrs arbitrary: M)
  case (Cons p attrs)
  obtain i md v where p: "p = (i, md, v)" by (cases p) auto
  let ?V = "value_refs (ma_attrvaluetype md) v"
  have "get_attr_metadata env (mk_objecttype mk) i = Some md" using Cons.prems(2) p by (simp add: stored_ok_def)
  then obtain db1 where db1: "remove_references md v (with_refs (counts D M) db) = Inr db1"
    "post_remove_loop env mk attrs db1 = Inr db'" using Cons.prems(3) p by (auto simp: chk_bind_eq_Inr)
  have one: "?V \<subseteq># M \<and> db1 = with_refs (counts D (M - ?V)) db"
    using dec_list_Inr [OF Cons.prems(1) remove_references_list [OF db1(1)]] by (simp add: value_refs_def)
  have "set_mset (M - ?V) \<subseteq> D" using Cons.prems(1) by (meson in_diffD subset_iff)
  from Cons.IH [OF this] Cons.prems(2) db1(2) one
  have rest: "attr_refs attrs \<subseteq># M - ?V" "db' = with_refs (counts D (M - ?V - attr_refs attrs)) db" by simp_all
  then show ?case using one unfolding p attr_refs_Cons by (auto simp: mset_subset_eq_exists_conv diff_diff_add)
qed simp

lemma post_remove_loop_returns:
  assumes "set_mset M \<subseteq> D" and "\<forall>p \<in> set attrs. stored_ok env (mk_objecttype mk) p"
    and "\<forall>(i, md, v) \<in> set attrs. ma_attrvaluetype md \<in> set stored_types" and "attr_refs attrs \<subseteq># M"
  shows "post_remove_loop env mk attrs (with_refs (counts D M) db)
    = Inr (with_refs (counts D (M - attr_refs attrs)) db)"
  using assms
proof (induction attrs arbitrary: M)
  case (Cons p attrs)
  obtain i md v where p: "p = (i, md, v)" by (cases p) auto
  let ?V = "value_refs (ma_attrvaluetype md) v"
  have md: "get_attr_metadata env (mk_objecttype mk) i = Some md" "readable (value_list (ma_attrvaluetype md) v)"
    using Cons.prems(2) p by (simp_all add: stored_ok_def)
  have sub: "?V \<subseteq># M" "attr_refs attrs \<subseteq># M - ?V"
    using Cons.prems(4) unfolding p attr_refs_Cons by (auto simp: mset_subset_eq_exists_conv)
  have "remove_references md v (with_refs (counts D M) db) = Inr (with_refs (counts D (M - ?V)) db)"
    using remove_references_stored [of md v "with_refs (counts D M) db"] items_readable [OF md(2)] Cons.prems(3) p
      dec_counts_each [OF Cons.prems(1), of _ db] sub(1) by (simp add: value_refs_def)
  moreover have "set_mset (M - ?V) \<subseteq> D" using Cons.prems(1) by (meson in_diffD subset_iff)
  ultimately show ?case using Cons.IH [of "M - ?V"] Cons.prems(2,3) sub(2) md(1) unfolding p attr_refs_Cons
    by (simp add: diff_diff_add)
qed simp

end
