(* ===== verification/MetaInvariant.thy ===== *)
theory MetaInvariant
  imports MetaTable
begin

text \<open>
  The operations of the metadata layer keep the invariant of the database (\<open>db_ok\<close>): what is recorded after
  a create, a remove, a set and a get, and the objects taken over from what the vendor answers and reports.
\<close>

section \<open>Remove\<close>

lemma keys_irrelevant [simp]: "db_ok env (db\<lparr>AttributeKeys := ks\<rparr>) = db_ok env db"
  by (simp add: db_ok_def)

lemma related_irrelevant:
  "db_ok env db \<Longrightarrow> SAI_NULL_OBJECT_ID \<notin> set oids \<Longrightarrow>
    db_ok env (db\<lparr>map_port_to_related_set := (map_port_to_related_set db)(port \<mapsto> oids)\<rparr>)"
  by (auto simp: db_ok_def)

lemma get_object_attributes_Inr:
  "get_object_attributes env mk db = Inr attrs \<longleftrightarrow>
    (\<exists>k. serialize_object_meta_key env mk = Inr k \<and> map_of (ObjectAttrHash db) k = Some attrs)"
  by (auto simp: get_object_attributes_def chk_bind_eq_Inr split: option.splits)

definition removed :: "'k meta_env \<Rightarrow> 'k \<Rightarrow> 'k meta_db \<Rightarrow> 'k meta_db" where
  "removed env k db = (with_table env (AList.delete k (ObjectAttrHash db)) db)
     \<lparr>AttributeKeys := AList.delete k (AttributeKeys db)\<rparr>"

lemma stored_attrs:
  assumes "meta_env_ok env" and "db_ok env db" and "matching env mk"
    and "serialize_object_meta_key env mk = Inr k" and "map_of (ObjectAttrHash db) k = Some attrs"
  shows "\<forall>p \<in> set attrs. stored_ok env (mk_objecttype mk) p" and "distinct (map fst attrs)"
proof -
  have "object_ok env (k, attrs)" using assms(2,5) map_of_SomeD by (fastforce simp: db_ok_def table_ok_def)
  then show "\<forall>p \<in> set attrs. stored_ok env (mk_objecttype mk) p" "distinct (map fst attrs)"
    using deserialize_key [OF assms(1,3,4)] by (simp_all add: object_ok_def)
qed

text \<open>The removal of the object itself, after its references were given back.\<close>

lemma remove_keyed_object_table:
  assumes env: "meta_env_ok env" and db: "db_ok env db" and mk: "matching env mk"
    and k: "serialize_object_meta_key env mk = Inr k" and attrs: "map_of (ObjectAttrHash db) k = Some attrs"
  defines "M \<equiv> table_refs env (ObjectAttrHash db) - attr_refs attrs"
    and "D \<equiv> table_oids env (ObjectAttrHash db)"
  shows "remove_keyed_object env mk (with_refs (counts D M) db) =
    (if \<exists>oid \<in># M. mk_objectkey mk = KeyOid oid then Inl Thrown else Inr (removed env k db))"
proof -
  let ?h = "ObjectAttrHash db"
  have h: "table_ok env ?h" using db by (simp add: db_ok_def)
  have sub: "set_mset M \<subseteq> D" using h by (auto simp: table_ok_def M_def D_def dest: in_diffD)
  have ex: "object_key_exists k (db\<lparr>ObjectReferences := R\<rparr>)" for R using attrs by (simp add: object_key_exists_def)
  show ?thesis
  proof (cases "\<exists>oid. mk_objectkey mk = KeyOid oid")
    case True
    then obtain oid where KeyOid: "mk_objectkey mk = KeyOid oid" by blast
    obtain info where info: "object_infos env (mk_objecttype mk) = Some info" "\<not> info_isnonobjectid info"
      using matching_oid_type [OF env mk KeyOid] by (auto simp: oid_type_def)
    have o: "mk_oid mk = oid" using KeyOid by (simp add: mk_oid_def)
    show ?thesis
    proof (cases "oid \<in># M")
      case True
      then have "oid \<in> D" "0 < count M oid" using sub by auto
      then show ?thesis using True info o KeyOid
        by (simp add: remove_keyed_object_def object_reference_remove_def counts_def)
    next
      case False
      have "oid \<in> D" using present_oid [OF env h mk k KeyOid] attrs by (simp add: D_def)
      have unused: "\<And>oid'. mk_objectkey mk = KeyOid oid' \<Longrightarrow> oid' \<notin># table_refs env ?h - attr_refs attrs"
        using False KeyOid by (simp add: M_def)
      note del = table_delete [OF env h mk k attrs unused]
      have r: "table_refs env (AList.delete k ?h) = M"
        using del(2) member_oids_oid [OF env mk KeyOid] by (simp add: M_def)
      have c: "(counts D M)(oid := None) = table_counts env (AList.delete k ?h)"
        unfolding table_counts_def r table_oids_delete [OF env h mk k] KeyOid
        by (rule ext) (simp add: counts_def D_def)
      have "counts D M oid = Some 0" using False \<open>oid \<in> D\<close> by (simp add: counts_def not_in_iff)
      then have "object_reference_remove oid (with_refs (counts D M) db)
          = Inr (with_refs (table_counts env (AList.delete k ?h)) db)"
        using c by (simp add: object_reference_remove_def)
      then have "remove_keyed_object env mk (with_refs (counts D M) db) = Inr (removed env k db)"
        using info o k ex by (simp add: remove_keyed_object_def remove_object_def removed_def with_table_def)
      then show ?thesis using False KeyOid by simp
    qed
  next
    case False
    let ?oids = "member_oids env mk"
    obtain info where info: "object_infos env (mk_objecttype mk) = Some info" "info_isnonobjectid info"
      using matching_entry_type [OF env mk] False by (auto simp: entry_type_def)
    have unused: "\<And>oid'. mk_objectkey mk = KeyOid oid' \<Longrightarrow> oid' \<notin># table_refs env ?h - attr_refs attrs"
      using False by simp
    note del = table_delete [OF env h mk k attrs unused]
    have "not_null ?oids \<subseteq># M" using del(3) by (auto simp: M_def mset_subset_eq_exists_conv ac_simps)
    then have "dec_members mk (info_structmembers info) (with_refs (counts D M) db)
        = Inr (with_refs (counts D (M - not_null ?oids)) db)"
      using dec_counts_each [OF sub, of ?oids db] info by (simp add: dec_members_each member_oids_def)
    moreover have "counts D (M - not_null ?oids) = table_counts env (AList.delete k ?h)"
      using False table_oids_delete [OF env h mk k] del(2) by (simp add: table_counts_def M_def D_def diff_diff_add)
    ultimately have "remove_keyed_object env mk (with_refs (counts D M) db) = Inr (removed env k db)"
      using info k ex by (simp add: remove_keyed_object_def remove_object_def removed_def with_table_def)
    then show ?thesis using False by auto
  qed
qed

lemma removed_ok:
  assumes env: "meta_env_ok env" and db: "db_ok env db" and mk: "matching env mk"
    and k: "serialize_object_meta_key env mk = Inr k" and attrs: "map_of (ObjectAttrHash db) k = Some attrs"
    and unused: "\<And>oid. mk_objectkey mk = KeyOid oid \<Longrightarrow>
      oid \<notin># table_refs env (ObjectAttrHash db) - attr_refs attrs"
  shows "db_ok env (removed env k db)"
proof -
  have "table_ok env (ObjectAttrHash db)" using db by (simp add: db_ok_def)
  from table_delete(1) [OF env this mk k attrs unused] show ?thesis
    using with_table_ok [OF db] by (simp add: removed_def)
qed

text \<open>One object is removed.\<close>

lemma remove_one:
  assumes env: "meta_env_ok env" and db: "db_ok env db" and mk: "matching env mk"
    and attrs: "get_object_attributes env mk db = Inr attrs"
    and loop: "post_remove_loop env mk attrs db = Inr db1" and rem: "remove_keyed_object env mk db1 = Inr db2"
  shows "\<exists>k. serialize_object_meta_key env mk = Inr k \<and> db2 = removed env k db \<and> db_ok env db2
    \<and> (\<forall>oid. mk_objectkey mk = KeyOid oid \<longrightarrow> oid \<notin># table_refs env (ObjectAttrHash db) - attr_refs attrs)"
proof -
  let ?h = "ObjectAttrHash db"
  obtain k where k: "serialize_object_meta_key env mk = Inr k" and a: "map_of ?h k = Some attrs"
    using attrs by (auto simp: get_object_attributes_Inr)
  have sub: "set_mset (table_refs env ?h) \<subseteq> table_oids env ?h"
    and db': "with_refs (counts (table_oids env ?h) (table_refs env ?h)) db = db"
    using db by (simp_all add: db_ok_def table_ok_def table_counts_def)
  have "db1 = with_refs (counts (table_oids env ?h) (table_refs env ?h - attr_refs attrs)) db"
    using post_remove_loop_Inr [OF sub stored_attrs(1) [OF env db mk k a], of db db1] loop db' by simp
  then have r: "(if \<exists>oid \<in># table_refs env ?h - attr_refs attrs. mk_objectkey mk = KeyOid oid then Inl Thrown
      else Inr (removed env k db)) = Inr db2"
    using remove_keyed_object_table [OF env db mk k a] rem by simp
  then have u: "\<forall>oid. mk_objectkey mk = KeyOid oid \<longrightarrow> oid \<notin># table_refs env ?h - attr_refs attrs"
    and db2: "db2 = removed env k db" by (auto split: if_splits)
  have "db_ok env db2" unfolding db2 by (rule removed_ok [OF env db mk k a]) (use u in blast)
  then show ?thesis using k u db2 by blast
qed

lemma for_each_keeps:
  assumes "\<And>x s s'. x \<in> set xs \<Longrightarrow> P s \<Longrightarrow> f x s = Inr s' \<Longrightarrow> P s'" and "P s"
    and "for_each f (map Inr xs) s = Inr s'"
  shows "P s'"
  using assms
proof (induction xs arbitrary: s)
  case (Cons x xs)
  then obtain s1 where "f x s = Inr s1" "for_each f (map Inr xs) s1 = Inr s'" by (auto simp: chk_bind_eq_Inr)
  then show ?case using Cons.IH [of s1] Cons.prems(1,2) by (metis list.set_intros)
qed simp

text \<open>
  The removal with what goes with a port. An object that goes with it is looked up under the type its id has
  and is not NULL.
\<close>

lemma post_remove_keeps:
  assumes env: "meta_env_ok env"
  shows "matching env mk \<Longrightarrow> db_ok env db \<Longrightarrow> post_remove_fuel fuel env mk db = Inr db' \<Longrightarrow> db_ok env db'"
proof (induction fuel arbitrary: mk db db')
  case (Suc fuel)
  show ?case
  proof (cases "mk_objecttype mk = OT_SWITCH")
    case False
    with Suc.prems(3) obtain attrs db1 db2 where attrs: "get_object_attributes env mk db = Inr attrs"
      and db1: "post_remove_loop env mk attrs db = Inr db1" and db2: "remove_keyed_object env mk db1 = Inr db2"
      and db': "(if mk_objecttype mk = OT_PORT then post_port_remove env (post_remove_fuel fuel env) mk db2
        else Inr db2) = Inr db'"
      by (auto simp: chk_bind_eq_Inr)
    have ok2: "db_ok env db2" using remove_one [OF env Suc.prems(2,1) attrs db1 db2] by blast
    show ?thesis
    proof (cases "mk_objecttype mk = OT_PORT")
      case True
      show ?thesis
      proof (cases "map_port_to_related_set db2 (mk_oid mk)")
        case None
        then show ?thesis using True db' ok2 by (simp add: post_port_remove_def)
      next
        case (Some oids)
        let ?f = "\<lambda>oid. post_remove_fuel fuel env (oid_key (object_type_query env oid) oid)"
        obtain db3 where each: "for_each ?f (map Inr oids) db2 = Inr db3"
          and db'': "db' = db3\<lparr>map_port_to_related_set := (map_port_to_related_set db3)(mk_oid mk \<mapsto> [])\<rparr>"
          using True Some db' by (auto simp: post_port_remove_def chk_bind_eq_Inr)
        have "db_ok env s'" if "oid \<in> set oids" "db_ok env s" "?f oid s = Inr s'" for oid s s'
        proof (cases "object_type_query env oid = 0")
          case zero: True
          have "object_infos env 0 = None" using env by (simp add: meta_env_ok_def)
          then have "serialize_object_meta_key env (oid_key 0 oid) = Inl Thrown"
            by (simp add: serialize_object_meta_key_def oid_key_def)
          then have "get_object_attributes env (oid_key 0 oid) s = Inl Thrown" by (simp add: get_object_attributes_def)
          then have False using that(3) zero by (cases fuel) (simp_all add: oid_key_def OT_SWITCH_def)
          then show ?thesis by simp
        next
          case nonzero: False
          have "oid \<noteq> SAI_NULL_OBJECT_ID" using that(1) ok2 Some by (auto simp: db_ok_def)
          then have "matching env (oid_key (object_type_query env oid) oid)"
            using nonzero by (simp add: matching_def oid_key_def)
          then show ?thesis using Suc.IH that(2,3) by blast
        qed
        then have "db_ok env db3" using for_each_keeps [of oids "db_ok env" ?f db2 db3] ok2 each by blast
        then show ?thesis unfolding db'' by (rule related_irrelevant) simp
      qed
    qed (use db' ok2 in simp)
  qed (use Suc.prems in simp)
qed (simp split: if_splits)

section \<open>Create\<close>

lemma set_object_Inr:
  "set_object env mk md a db = Inr db' \<Longrightarrow> \<exists>k attrs v. serialize_object_meta_key env mk = Inr k
    \<and> map_of (ObjectAttrHash db) k = Some attrs \<and> copied_value md (at_value a) = Inr v
    \<and> db' = db\<lparr>ObjectAttrHash := stored_table k (at_id a) md v (ObjectAttrHash db)\<rparr>"
  by (auto simp: set_object_def chk_bind_eq_Inr stored_table_def split: option.splits)

lemma create_writable: "create_references md v db = Inr db' \<Longrightarrow> ma_attrvaluetype md \<in> set writable_types"
  by (cases "ma_attrvaluetype md") (auto simp: create_references_def writable_types_def type_lists)

lemma set_writable: "set_references md p v db = Inr db' \<Longrightarrow> ma_attrvaluetype md \<in> set writable_types"
  by (cases "ma_attrvaluetype md") (auto simp: set_references_def writable_types_def type_lists Let_def)

text \<open>An object has been entered whose id is on the switch the create is for.\<close>

definition on_switch :: "'k meta_env \<Rightarrow> sai_object_meta_key \<Rightarrow> u64 \<Rightarrow> 'k meta_db \<Rightarrow> bool" where
  "on_switch env mk switch_id db \<longleftrightarrow>
     (\<forall>oid. mk_objectkey mk = KeyOid oid \<longrightarrow> mk_objecttype mk \<noteq> OT_SWITCH \<longrightarrow>
        switch_id_query env oid = switch_id \<and> object_reference_exists switch_id db)"

lemma insert_created_oid:
  assumes "matching env mk" and "mk_objectkey mk = KeyOid oid" and "\<not> warmBoot db"
    and "on_switch env mk switch_id db"
  shows "insert_created env mk switch_id db = object_reference_insert oid db"
  using assms by (auto simp: insert_created_def mk_oid_def matching_def on_switch_def Let_def)

lemma register_created_keeps:
  assumes env: "meta_env_ok env" and db: "db_ok env db" and mk: "matching env mk"
    and sw: "on_switch env mk switch_id db" and reg: "register_created env mk switch_id db = Inr db'"
  shows "\<exists>k. serialize_object_meta_key env mk = Inr k \<and> map_of (ObjectAttrHash db) k = None
    \<and> db' = with_table env (AList.update k [] (ObjectAttrHash db)) db \<and> db_ok env db'"
proof -
  have w: "\<not> warmBoot db" using db by (simp add: db_ok_def)
  then obtain db1 info where db1: "create_object env mk db = Inr db1"
    and info: "object_infos env (mk_objecttype mk) = Some info"
    and rest: "(if info_isnonobjectid info then inc_members mk (info_structmembers info) db1
      else insert_created env mk switch_id db1) = Inr db'"
    using reg by (auto simp: register_created_def chk_bind_eq_Inr split: option.splits)
  obtain k where k: "serialize_object_meta_key env mk = Inr k" and new: "map_of (ObjectAttrHash db) k = None"
    and db1': "db1 = db\<lparr>ObjectAttrHash := AList.update k [] (ObjectAttrHash db)\<rparr>"
    using create_object_Inr [OF db1] by blast
  show ?thesis
  proof (cases "\<exists>oid. mk_objectkey mk = KeyOid oid")
    case True
    then obtain oid where oid: "mk_objectkey mk = KeyOid oid" by blast
    note ins = insert_oid_keeps [OF env db mk oid k new]
    have "\<not> info_isnonobjectid info" using matching_oid_type [OF env mk oid] info by (simp add: oid_type_def)
    moreover have "on_switch env mk switch_id db1" "\<not> warmBoot db1"
      using sw w by (simp_all add: on_switch_def db1' object_reference_exists_def)
    ultimately have "object_reference_insert oid db1 = Inr db'"
      using rest insert_created_oid [OF mk oid] by simp
    then have "db' = db1\<lparr>ObjectReferences := (ObjectReferences db)(oid \<mapsto> 0)\<rparr>"
      by (simp add: object_reference_insert_def db1' split: if_splits)
    then have "db' = with_table env (AList.update k [] (ObjectAttrHash db)) db"
      using ins(2) by (simp add: db1' with_table_def)
    then show ?thesis using k new ins(1) by blast
  next
    case False
    then have entry: "\<And>oid. mk_objectkey mk \<noteq> KeyOid oid" by blast
    have "info_isnonobjectid info" using matching_entry_type [OF env mk entry] info by (simp add: entry_type_def)
    then have "inc_members mk (info_structmembers info)
        (db\<lparr>ObjectAttrHash := AList.update k [] (ObjectAttrHash db)\<rparr>) = Inr db'" using rest db1' by simp
    from insert_entry_keeps [OF env db mk entry k new info this] show ?thesis using k new by blast
  qed
qed

text \<open>
  What is stored of the attributes of a create, which have distinct ids and are none of those stored before:
  the copies of their values.
\<close>

definition passed :: "'k meta_env \<Rightarrow> nat \<Rightarrow> meta_attribute list \<Rightarrow> u32 \<Rightarrow> (meta_attr \<times> meta_value) option" where
  "passed env ot attrs i =
     (case get_attr_by_id i attrs of None \<Rightarrow> None
      | Some a \<Rightarrow>
          (case get_attr_metadata env ot i of None \<Rightarrow> None
           | Some md \<Rightarrow> (case copied_value md (at_value a) of Inl e \<Rightarrow> None | Inr v \<Rightarrow> Some (md, v))))"

lemma passed_Nil [simp]: "passed env ot [] = Map.empty"
  by (rule ext) (simp add: passed_def)

lemma passed_Cons:
  "get_attr_metadata env ot (at_id a) = Some md \<Longrightarrow> copied_value md (at_value a) = Inr v \<Longrightarrow>
    passed env ot (a # attrs) = (passed env ot attrs)(at_id a \<mapsto> (md, v))"
  by (rule ext) (simp add: passed_def)

lemma passed_absent: "at_id a \<notin> at_id ` set attrs \<Longrightarrow> at_id a \<notin> dom (passed env ot attrs)"
proof -
  assume "at_id a \<notin> at_id ` set attrs"
  then have "get_attr_by_id (at_id a) attrs = None" by (induction attrs) auto
  then show ?thesis by (simp add: passed_def domIff)
qed

lemma post_create_loop_keeps:
  assumes env: "meta_env_ok env" and mk: "matching env mk" and k: "serialize_object_meta_key env mk = Inr k"
  shows "db_ok env db \<Longrightarrow> map_of (ObjectAttrHash db) k = Some stored \<Longrightarrow>
    distinct (map at_id attrs) \<Longrightarrow> at_id ` set attrs \<inter> fst ` set stored = {} \<Longrightarrow>
    post_create_loop env mk attrs haskeys db = Inr (haskeys', db') \<Longrightarrow> db_ok env db'
    \<and> (\<exists>stored'. map_of (ObjectAttrHash db') = (map_of (ObjectAttrHash db))(k \<mapsto> stored')
      \<and> map_of stored' = map_of stored ++ passed env (mk_objecttype mk) attrs)"
proof (induction attrs arbitrary: stored haskeys db)
  case (Cons a attrs)
  obtain md db1 db2 where md: "get_attr_metadata env (mk_objecttype mk) (at_id a) = Some md"
    and db1: "create_references md (at_value a) db = Inr db1" and db2: "set_object env mk md a db1 = Inr db2"
    and rest: "post_create_loop env mk attrs (haskeys \<or> HAS_FLAG_KEY md) db2 = Inr (haskeys', db')"
    using Cons.prems(5) by (auto simp: chk_bind_eq_Inr split: option.splits)
  obtain v where v: "copied_value md (at_value a) = Inr v" using set_object_Inr [OF db2] by blast
  have "map_of stored (at_id a) = None" using Cons.prems(4) by (auto simp: map_of_eq_None_iff)
  then have dec: "(case map_option snd (map_of stored (at_id a)) of None \<Rightarrow> Inr db
      | Some p \<Rightarrow> for_each object_reference_dec (list_items (value_list (ma_attrvaluetype md) p)) db) = Inr db"
    by simp
  note st = store_keeps [OF Cons.prems(1) env mk md create_writable [OF db1] k Cons.prems(2) dec
      create_references_list [OF db1, folded copied_value_items [OF v]]]
  have db2': "db2 = with_table env (stored_table k (at_id a) md v (ObjectAttrHash db)) db"
    using set_object_Inr [OF db2] st k v by auto
  let ?stored = "AList.update (at_id a) (md, v) stored"
  have h2: "map_of (ObjectAttrHash db2) = (map_of (ObjectAttrHash db))(k \<mapsto> ?stored)"
    using Cons.prems(2) by (simp add: db2' stored_table_def update_conv')
  have new: "map_of ?stored ++ passed env (mk_objecttype mk) attrs
      = map_of stored ++ passed env (mk_objecttype mk) (a # attrs)"
    using passed_absent [of a attrs env "mk_objecttype mk"] Cons.prems(3)
    by (simp add: passed_Cons [OF md v] update_conv' map_add_upd_left)
  have "db_ok env db' \<and> (\<exists>stored'. map_of (ObjectAttrHash db') = (map_of (ObjectAttrHash db2))(k \<mapsto> stored')
      \<and> map_of stored' = map_of ?stored ++ passed env (mk_objecttype mk) attrs)"
  proof (rule Cons.IH [OF _ _ _ _ rest])
    show "db_ok env db2" using st db2' by simp
    show "map_of (ObjectAttrHash db2) k = Some ?stored" using h2 by simp
    show "at_id ` set attrs \<inter> fst ` set ?stored = {}" using Cons.prems(3,4) by (auto simp: dom_update)
  qed (use Cons.prems(3) in simp)
  then show ?case unfolding new h2 fun_upd_upd .
next
  case Nil
  then have "db' = db" by simp
  then show ?case using Nil by (auto intro!: exI [of _ stored])
qed

lemma post_create_table:
  assumes env: "meta_env_ok env" and db: "db_ok env db" and mk: "matching env mk"
    and sw: "on_switch env mk switch_id db" and ids: "distinct (map at_id (meta_attr_array n attr_list))"
    and post: "meta_generic_validation_post_create env garbage mk switch_id n attr_list db = Inr db'"
  shows "\<exists>k stored. db_ok env db' \<and> serialize_object_meta_key env mk = Inr k
    \<and> map_of (ObjectAttrHash db) k = None
    \<and> map_of (ObjectAttrHash db') = (map_of (ObjectAttrHash db))(k \<mapsto> stored)
    \<and> map_of stored = passed env (mk_objecttype mk) (meta_attr_array n attr_list)"
proof -
  obtain db1 haskeys db2 where reg: "register_created env mk switch_id db = Inr db1"
    and loop: "post_create_loop env mk (meta_attr_array n attr_list) garbage (db1\<lparr>warmBoot := False\<rparr>)
      = Inr (haskeys, db2)" and db': "db' = db2 \<or> (\<exists>ks. db' = db2\<lparr>AttributeKeys := ks\<rparr>)"
    using post by (auto simp: meta_generic_validation_post_create_def chk_bind_eq_Inr Let_def split: if_splits)
  obtain k where k: "serialize_object_meta_key env mk = Inr k" and new: "map_of (ObjectAttrHash db) k = None"
    and db1: "db1 = with_table env (AList.update k [] (ObjectAttrHash db)) db" "db_ok env db1"
    using register_created_keeps [OF env db mk sw reg] by blast
  have "db_ok env (db1\<lparr>warmBoot := False\<rparr>)" using db1(2) by (simp add: db_ok_def)
  moreover have "map_of (ObjectAttrHash (db1\<lparr>warmBoot := False\<rparr>)) k = Some []" by (simp add: db1(1) update_conv')
  ultimately obtain stored where db2: "db_ok env db2"
    "map_of (ObjectAttrHash db2) = (map_of (ObjectAttrHash db))(k \<mapsto> stored)"
    "map_of stored = passed env (mk_objecttype mk) (meta_attr_array n attr_list)"
    using post_create_loop_keeps [OF env mk k _ _ ids _ loop, of "[]"] by (auto simp: db1(1) update_conv')
  have "db_ok env db'" "ObjectAttrHash db' = ObjectAttrHash db2" using db' db2(1) by auto
  then show ?thesis using k new db2(2,3) by auto
qed

lemma post_create_keeps:
  "meta_env_ok env \<Longrightarrow> db_ok env db \<Longrightarrow> matching env mk \<Longrightarrow> on_switch env mk switch_id db \<Longrightarrow>
    distinct (map at_id (meta_attr_array n attr_list)) \<Longrightarrow>
    meta_generic_validation_post_create env garbage mk switch_id n attr_list db = Inr db' \<Longrightarrow> db_ok env db'"
  using post_create_table by blast

text \<open>What the check before it makes sure of.\<close>

lemma create_attr_loop_distinct:
  "create_attr_loop env db mk sw attrs seen haskeys = Inr (Inr haskeys') \<Longrightarrow>
    distinct (map at_id attrs) \<and> at_id ` set attrs \<inter> set seen = {}"
proof (induction attrs arbitrary: seen haskeys)
  case (Cons a attrs)
  then obtain haskeys1 where "at_id a \<notin> set seen"
    "create_attr_loop env db mk sw attrs (at_id a # seen) haskeys1 = Inr (Inr haskeys')"
    by (auto simp: chk_bind_eq_Inr split: option.splits if_splits)
  then show ?case using Cons.IH by fastforce
qed simp

lemma create_switch_id_exists:
  assumes "create_switch_id env db mk switch_id = Inr (Inr sw)" and "mk_objecttype mk \<noteq> OT_SWITCH"
  shows "meta_extract_switch_id env mk switch_id = Inr sw \<and> object_reference_exists sw db"
  using assms by (auto simp: create_switch_id_def chk_bind_eq_Inr split: if_splits)

text \<open>An early return of the two parts is no success.\<close>

lemma create_switch_id_error: "create_switch_id env db mk switch_id = Inr (Inl status) \<Longrightarrow> status \<noteq> SAI_STATUS_SUCCESS"
  by (auto simp: create_switch_id_def chk_bind_eq_Inr status_defs split: if_splits)

lemma create_attr_loop_error:
  "create_attr_loop env db mk sw attrs seen haskeys = Inr (Inl status) \<Longrightarrow> status \<noteq> SAI_STATUS_SUCCESS"
proof (induction attrs arbitrary: seen haskeys)
  case (Cons a attrs)
  then show ?case
    by (auto simp: chk_bind_eq_Inr split: option.splits if_splits) (simp_all add: status_defs)
qed simp

lemma bind_sum_success:
  "chk_bind r (case_sum Inr f) = success \<Longrightarrow>
    r = Inr (Inl SAI_STATUS_SUCCESS) \<or> (\<exists>x. r = Inr (Inr x) \<and> f x = success)"
  by (cases r) (auto split: sum.splits)

lemma validation_create_success:
  assumes "meta_generic_validation_create env mk switch_id n attr_list db = Inr SAI_STATUS_SUCCESS"
  shows "distinct (map at_id (meta_attr_array n attr_list))"
    and "mk_objecttype mk \<noteq> OT_SWITCH \<Longrightarrow>
      \<exists>sw. meta_extract_switch_id env mk switch_id = Inr sw \<and> object_reference_exists sw db"
proof -
  let ?attrs = "meta_attr_array n attr_list"
  have le: "n \<le> MAX_LIST_COUNT" "\<not> (n > 0 \<and> attr_list = None)"
    using assms by (auto simp: meta_generic_validation_create_def status_defs split: if_splits)
  obtain sw haskeys where sw: "create_switch_id env db mk switch_id = Inr (Inr sw)"
    and loop: "create_attr_loop env db mk sw ?attrs [] False = Inr (Inr haskeys)"
    using assms le by (auto simp: meta_generic_validation_create_def and_then_success Let_def
        dest!: bind_sum_success dest: create_switch_id_error create_attr_loop_error)
  show "distinct (map at_id (meta_attr_array n attr_list))" using create_attr_loop_distinct [OF loop] by simp
  show "\<exists>sw. meta_extract_switch_id env mk switch_id = Inr sw \<and> object_reference_exists sw db"
    if "mk_objecttype mk \<noteq> OT_SWITCH" using create_switch_id_exists [OF sw that] by blast
qed

section \<open>Set\<close>

lemma refs_keep_hash:
  assumes "\<And>x s s'. f x s = Inr s' \<Longrightarrow> ObjectAttrHash s' = ObjectAttrHash s" and "for_each f xs s = Inr s'"
  shows "ObjectAttrHash s' = ObjectAttrHash s"
  using assms(2)
proof (induction xs arbitrary: s)
  case (Cons x xs)
  then show ?case using assms(1) by (fastforce simp: chk_bind_eq_Inr)
qed simp

lemma inc_keeps_hash: "object_reference_inc oid s = Inr s' \<Longrightarrow> ObjectAttrHash s' = ObjectAttrHash s"
  by (auto simp: object_reference_inc_def split: if_splits option.splits)

lemma dec_keeps_hash: "object_reference_dec oid s = Inr s' \<Longrightarrow> ObjectAttrHash s' = ObjectAttrHash s"
  by (auto simp: object_reference_dec_def split: if_splits option.splits)

lemma post_set_table:
  assumes env: "meta_env_ok env" and db: "db_ok env db" and mk: "matching env mk"
    and post: "meta_generic_validation_post_set env mk a db = Inr db'"
  shows "\<exists>md k v. get_attr_metadata env (mk_objecttype mk) (at_id a) = Some md
    \<and> serialize_object_meta_key env mk = Inr k \<and> map_of (ObjectAttrHash db) k \<noteq> None
    \<and> copied_value md (at_value a) = Inr v
    \<and> db' = with_table env (stored_table k (at_id a) md v (ObjectAttrHash db)) db \<and> db_ok env db'"
proof -
  obtain md previous db1 where md: "get_attr_metadata env (mk_objecttype mk) (at_id a) = Some md"
    and prev: "get_object_previous_attr env mk md db = Inr previous"
    and refs: "set_references md previous (at_value a) db = Inr db1" and st: "set_object env mk md a db1 = Inr db'"
    using post by (auto simp: meta_generic_validation_post_set_def chk_bind_eq_Inr split: option.splits)
  obtain k attrs v where k: "serialize_object_meta_key env mk = Inr k" and attrs: "map_of (ObjectAttrHash db1) k = Some attrs"
    and v: "copied_value md (at_value a) = Inr v"
    and db': "db' = db1\<lparr>ObjectAttrHash := stored_table k (at_id a) md v (ObjectAttrHash db1)\<rparr>"
    using set_object_Inr [OF st] by blast
  obtain db2 where dec: "(case previous of None \<Rightarrow> Inr db
      | Some p \<Rightarrow> for_each object_reference_dec (list_items (value_list (ma_attrvaluetype md) p)) db) = Inr db2"
    and inc: "for_each object_reference_inc (list_items (value_list (ma_attrvaluetype md) (at_value a))) db2 = Inr db1"
    using set_references_list [OF refs] by blast
  have id: "ma_attrid md = at_id a" by (rule metadata_id [OF md])
  show ?thesis
  proof (cases "map_of (ObjectAttrHash db) k")
    case None
    have "ObjectAttrHash db1 = ObjectAttrHash db2" using refs_keep_hash [OF inc_keeps_hash inc] .
    also have "\<dots> = ObjectAttrHash db"
      using dec refs_keep_hash [OF dec_keeps_hash] by (cases previous) auto
    finally show ?thesis using None attrs by simp
  next
    case (Some attrs0)
    then have "previous = map_option snd (map_of attrs0 (at_id a))"
      using prev k id by (simp add: get_object_previous_attr_def)
    note keeps = store_keeps [OF db env mk md set_writable [OF refs] k Some dec [unfolded this]
        inc [folded copied_value_items [OF v]]]
    then have "db' = with_table env (stored_table k (at_id a) md v (ObjectAttrHash db)) db"
      using db' by simp
    then show ?thesis using keeps md k v Some by auto
  qed
qed

lemma post_set_keeps:
  "meta_env_ok env \<Longrightarrow> db_ok env db \<Longrightarrow> matching env mk \<Longrightarrow>
    meta_generic_validation_post_set env mk a db = Inr db' \<Longrightarrow> db_ok env db'"
  using post_set_table by blast

section \<open>Objects taken over\<close>

text \<open>An id that the database does not know is given a reference and an entry.\<close>

lemma take_over_keeps:
  assumes env: "meta_env_ok env" and db: "db_ok env db"
    and oid: "oid \<noteq> SAI_NULL_OBJECT_ID" "object_type_query env oid \<noteq> 0"
    and ins: "object_reference_insert oid db = Inr db1"
    and ex: "object_exists env (oid_key (object_type_query env oid) oid) db1 = Inr ex"
    and cr: "(if ex then Inr db1 else create_object env (oid_key (object_type_query env oid) oid) db1) = Inr db2"
  shows "db_ok env db2"
proof -
  let ?mk = "oid_key (object_type_query env oid) oid"
  have mk: "matching env ?mk" "mk_objectkey ?mk = KeyOid oid" using oid by (simp_all add: matching_def oid_key_def)
  have unknown: "ObjectReferences db oid = None" and db1: "db1 = db\<lparr>ObjectReferences := (ObjectReferences db)(oid \<mapsto> 0)\<rparr>"
    using ins by (auto simp: object_reference_insert_def object_reference_exists_def split: if_splits)
  obtain k where k: "serialize_object_meta_key env ?mk = Inr k" and ex': "ex = object_key_exists k db1"
    using ex by (auto simp: object_exists_def chk_bind_eq_Inr)
  have h: "table_ok env (ObjectAttrHash db)" using db by (simp add: db_ok_def)
  have "oid \<notin> table_oids env (ObjectAttrHash db)"
    using unknown db by (auto simp: db_ok_def table_counts_def counts_def split: if_splits)
  then have new: "map_of (ObjectAttrHash db) k = None" using present_oid [OF env h mk(1) k mk(2)] by simp
  then have "db2 = db1\<lparr>ObjectAttrHash := AList.update k [] (ObjectAttrHash db)\<rparr>"
    using cr ex' k by (simp add: create_object_def object_key_exists_def db1)
  also have "\<dots> = with_table env (AList.update k [] (ObjectAttrHash db)) db"
    using insert_oid_keeps(2) [OF env db mk k new] by (simp add: db1 with_table_def)
  finally show ?thesis using insert_oid_keeps(1) [OF env db mk k new] by simp
qed

lemma snoop_loop_keeps:
  assumes env: "meta_env_ok env"
  shows "db_ok env db \<Longrightarrow> snoop_loop env xs oids db = Inr db' \<Longrightarrow> db_ok env db'"
proof (induction xs arbitrary: oids db)
  case (Cons x xs)
  then obtain oid where x: "x = Inr oid" by (auto simp: chk_bind_eq_Inr)
  show ?case
  proof (cases "oid \<in> set oids \<or> oid = SAI_NULL_OBJECT_ID \<or> object_type_query env oid = 0
      \<or> object_reference_exists oid db")
    case True
    then show ?thesis using Cons x by (auto simp: Let_def split: if_splits)
  next
    case False
    then obtain db1 ex db2 where "object_reference_insert oid db = Inr db1"
      "object_exists env (oid_key (object_type_query env oid) oid) db1 = Inr ex"
      "(if ex then Inr db1 else create_object env (oid_key (object_type_query env oid) oid) db1) = Inr db2"
      and rest: "snoop_loop env xs (oid # oids) db2 = Inr db'"
      using Cons.prems(2) x by (auto simp: chk_bind_eq_Inr Let_def)
    then have "db_ok env db2" using take_over_keeps [OF env Cons.prems(1)] False by blast
    then show ?thesis using Cons.IH rest by blast
  qed
qed simp

lemma set_insert_members: "set (set_insert x ys) = insert x (set ys)"
  by (induction ys) auto

lemma related_keeps:
  assumes "db_ok env db" and "meta_add_port_to_related_map port l db = Inr db'"
  shows "db_ok env db'"
proof -
  obtain oids where l: "list_items l = map Inr oids"
    using assms(2) for_each_Inr by (fastforce simp: meta_add_port_to_related_map_def)
  show ?thesis
  proof (rule for_each_keeps [of oids "db_ok env" _ db, OF _ assms(1)])
    fix x s s'
    assume s: "db_ok env s"
      "(if x = SAI_NULL_OBJECT_ID then Inl Thrown else Inr (s\<lparr>map_port_to_related_set := (map_port_to_related_set s)
         (port \<mapsto> set_insert x (the_default [] (map_port_to_related_set s port)))\<rparr>)) = Inr s'"
    then have "SAI_NULL_OBJECT_ID \<notin> set (set_insert x (the_default [] (map_port_to_related_set s port)))"
      by (cases "map_port_to_related_set s port") (auto simp: set_insert_members db_ok_def split: if_splits)
    from related_irrelevant [OF s(1) this] show "db_ok env s'" using s(2) by (auto split: if_splits)
  qed (use assms(2) l in \<open>simp add: meta_add_port_to_related_map_def\<close>)
qed

lemma meta_post_port_get_keeps:
  "db_ok env db \<Longrightarrow> meta_post_port_get env mk attrs db = Inr db' \<Longrightarrow> db_ok env db'"
proof (induction attrs arbitrary: db)
  case (Cons a attrs)
  then obtain db1 where "db_ok env db1" "meta_post_port_get env mk attrs db1 = Inr db'"
    using related_keeps [OF Cons.prems(1)] by (fastforce simp: chk_bind_eq_Inr split: option.splits if_splits)
  then show ?case using Cons.IH by blast
qed simp

lemma get_references_keeps:
  assumes "meta_env_ok env" and "db_ok env db" and "get_references env md v db = Inr db'"
  shows "db_ok env db'"
proof -
  have "db_ok env db'" if "meta_generic_validation_post_get_objlist env l db = Inr db'" for l
    using that snoop_loop_keeps [OF assms(1,2), of "list_items l" "[]"] assms(2)
    by (simp add: meta_generic_validation_post_get_objlist_def del: snoop_loop.simps split: if_splits)
  then show ?thesis using assms(2,3) by (auto simp: get_references_def Let_def split: if_splits)
qed

lemma post_get_loop_keeps:
  assumes env: "meta_env_ok env"
  shows "db_ok env db \<Longrightarrow> post_get_loop env mk attrs db = Inr db' \<Longrightarrow> db_ok env db'"
proof (induction attrs arbitrary: db)
  case (Cons a attrs)
  then obtain md db1 where "get_references env md (at_value a) db = Inr db1" "post_get_loop env mk attrs db1 = Inr db'"
    by (auto simp: chk_bind_eq_Inr split: option.splits)
  then show ?case using Cons.IH get_references_keeps [OF env Cons.prems(1)] by blast
qed simp

lemma post_get_keeps:
  assumes "meta_env_ok env" and "db_ok env db"
    and "meta_generic_validation_post_get env mk switch_id attrs db = Inr db'"
  shows "db_ok env db'"
  using assms(3) by (auto dest!: post_get_loop_keeps [OF assms(1,2)] meta_post_port_get_keeps [rotated] simp: meta_generic_validation_post_get_def chk_bind_eq_Inr split: if_splits)

end
