(* ===== verification/MetaMachine.thy ===== *)
theory MetaMachine
  imports MetaInvariant Machine
begin

text \<open>
  Every call of the metadata layer and every notification keeps the invariant of the database (\<open>db_ok\<close>); the
  layer as a machine that is driven by them, in the states it reaches before an exception ends the process.
\<close>

section \<open>The common course of the calls\<close>

text \<open>A key either is one the table can hold, or it has no text.\<close>

definition proper :: "'k meta_env \<Rightarrow> sai_object_meta_key \<Rightarrow> bool" where
  "proper env mk \<longleftrightarrow> matching env mk \<or> serialize_object_meta_key env mk = Inl Thrown"

lemma proper_matching: "proper env mk \<Longrightarrow> \<exists>k. serialize_object_meta_key env mk = Inr k \<Longrightarrow> matching env mk"
  by (auto simp: proper_def)

lemma post_create_text:
  "meta_generic_validation_post_create env garbage mk sw n attrs db = Inr db' \<Longrightarrow>
    \<exists>k. serialize_object_meta_key env mk = Inr k"
  by (auto simp: meta_generic_validation_post_create_def chk_bind_eq_Inr Let_def)

lemma validation_remove_text:
  "meta_generic_validation_remove env mk db = Inr r \<Longrightarrow> \<exists>k. serialize_object_meta_key env mk = Inr k"
  by (auto simp: meta_generic_validation_remove_def object_exists_def chk_bind_eq_Inr Let_def)

lemma post_set_text:
  "meta_generic_validation_post_set env mk a db = Inr db' \<Longrightarrow> \<exists>k. serialize_object_meta_key env mk = Inr k"
  by (auto simp: meta_generic_validation_post_set_def get_object_previous_attr_def chk_bind_eq_Inr
      split: option.splits)

lemma create_entry_keeps:
  assumes env: "meta_env_ok env" and db: "db_ok env db" and mk: "proper env mk"
    and entry: "\<And>oid. mk_objectkey mk \<noteq> KeyOid oid"
    and call: "create_entry env garbage validated mk sw n attrs create db = Inr (status, db')"
  shows "db_ok env db'"
proof (cases "meta_generic_validation_create env mk sw n attrs db = success
    \<and> meta_generic_validation_post_create env garbage mk sw n attrs db = Inr db'")
  case True
  then have "matching env mk" using proper_matching [OF mk post_create_text] by blast
  moreover have "on_switch env mk sw db" using entry by (simp add: on_switch_def)
  ultimately show ?thesis
    using post_create_keeps [OF env db _ _ validation_create_success(1)] True by blast
next
  case False
  then have "db' = db" using call
    by (auto simp: create_entry_def chk_bind_eq_Inr and_then_eq_Inr Let_def split: if_splits option.splits)
  then show ?thesis using db by simp
qed

lemma init_db_ok: "\<not> warmBoot db \<Longrightarrow> db_ok env (meta_init_db db)"
  by (auto simp: db_ok_def meta_init_db_def table_ok_def table_counts_def table_refs_def table_oids_def counts_def)

lemma validation_remove_keeps:
  assumes "db_ok env db" and "meta_generic_validation_remove env mk db = Inr (status, db')"
  shows "db_ok env db'"
proof -
  have "db' = db \<or> db' = meta_init_db db"
    using assms(2) by (auto simp: meta_generic_validation_remove_def chk_bind_eq_Inr Let_def
        split: if_splits option.splits)
  then show ?thesis using assms(1) init_db_ok [of db] by (auto simp: db_ok_def)
qed

lemma remove_entry_keeps:
  assumes env: "meta_env_ok env" and db: "db_ok env db" and mk: "validated = success \<Longrightarrow> proper env mk"
    and call: "remove_entry env validated mk remove db = Inr (status, db')"
  shows "db_ok env db'"
proof (cases "validated = success")
  case True
  then obtain status1 db1 where val: "meta_generic_validation_remove env mk db = Inr (status1, db1)"
    and rest: "db' = db1 \<or> meta_generic_validation_post_remove env mk db1 = Inr db'"
    using call by (auto simp: remove_entry_def chk_bind_eq_Inr split: if_splits option.splits)
  have "matching env mk" by (rule proper_matching [OF mk [OF True] validation_remove_text [OF val]])
  then show ?thesis
    using rest validation_remove_keeps [OF db val] post_remove_keeps [OF env]
    by (auto simp: meta_generic_validation_post_remove_def)
qed (use call db in \<open>auto simp: remove_entry_def chk_bind_eq_Inr split: if_splits\<close>)

lemma validation_set_keeps:
  assumes "db_ok env db" and "meta_generic_validation_set env mk a db = Inr (status, db')"
  shows "db_ok env db'"
proof -
  have "\<exists>names. db' = db \<or> db' = db\<lparr>unittests_set_readonly_set := names\<rparr>"
    using assms(2) by (auto simp: meta_generic_validation_set_def chk_bind_eq_Inr Let_def
        meta_unittests_get_and_erase_set_readonly_flag_def split: if_splits option.splits)
  then show ?thesis using assms(1) by (auto simp: db_ok_def)
qed

lemma set_entry_keeps:
  assumes env: "meta_env_ok env" and db: "db_ok env db" and mk: "validated = success \<Longrightarrow> proper env mk"
    and call: "set_entry env validated mk attr setf db = Inr (status, db')"
  shows "db_ok env db'"
proof (cases "validated = success")
  case True
  then obtain status1 db1 where val: "meta_generic_validation_set env mk attr db = Inr (status1, db1)"
    and rest: "db' = db1 \<or> (\<exists>a. meta_generic_validation_post_set env mk a db1 = Inr db')"
    using call by (auto simp: set_entry_def chk_bind_eq_Inr Let_def split: if_splits option.splits)
  have "db_ok env db1" by (rule validation_set_keeps [OF db val])
  moreover have "matching env mk" if "meta_generic_validation_post_set env mk a db1 = Inr db'" for a
    by (rule proper_matching [OF mk [OF True] post_set_text [OF that]])
  ultimately show ?thesis using rest post_set_keeps [OF env] by blast
qed (use call db in \<open>auto simp: set_entry_def chk_bind_eq_Inr split: if_splits\<close>)

lemma get_entry_keeps:
  assumes env: "meta_env_ok env" and db: "db_ok env db"
    and call: "get_entry env validated mk sw n attrs get db = Inr (status, values, db')"
  shows "db_ok env db'"
proof -
  have "db' = db \<or> (\<exists>vs. meta_generic_validation_post_get env mk sw vs db = Inr db')"
    using call by (auto simp: get_entry_def chk_bind_eq_Inr case_prod_beta Let_def split: if_splits option.splits)
  then show ?thesis using db post_get_keeps [OF env db] by blast
qed

section \<open>Objects named by an id\<close>

lemma validate_oid_matching:
  assumes "meta_sai_validate_oid env ot (Some oid) False db = success"
  shows "matching env (oid_key ot oid)"
  using assms by (auto simp: meta_sai_validate_oid_def member_check_def chk_bind_eq_Inr status_defs Let_def
      matching_def oid_key_def split: option.splits if_splits)

text \<open>The vendor's promise about an id it has created.\<close>

definition created_ok :: "'k meta_env \<Rightarrow> nat \<Rightarrow> u64 \<Rightarrow> u64 \<Rightarrow> bool" where
  "created_ok env ot sw oid \<longleftrightarrow> oid \<noteq> SAI_NULL_OBJECT_ID \<and> object_type_query env oid = ot \<and> ot \<noteq> 0
     \<and> (ot \<noteq> OT_SWITCH \<longrightarrow> switch_id_query env oid = sw)"

lemma created_matching: "created_ok env ot sw oid \<Longrightarrow> matching env (oid_key ot oid)"
  by (simp add: created_ok_def matching_def oid_key_def)

lemma created_on_switch:
  assumes created: "created_ok env ot sw oid" and val: "meta_sai_validate_oid env ot object_id True db = success"
    "meta_generic_validation_create env (oid_key ot SAI_NULL_OBJECT_ID) sw n attrs db = success"
  shows "on_switch env (oid_key ot oid) (if ot = OT_SWITCH then oid else sw) db"
proof (cases "ot = OT_SWITCH")
  case False
  obtain info where info: "object_infos env ot = Some info" "\<not> info_isnonobjectid info"
    using val(1) by (auto simp: meta_sai_validate_oid_def status_defs split: option.splits if_splits)
  obtain s where "meta_extract_switch_id env (oid_key ot SAI_NULL_OBJECT_ID) sw = Inr s"
    "object_reference_exists s db" using validation_create_success(2) [OF val(2)] False by (auto simp: oid_key_def)
  then show ?thesis using False info created
    by (simp add: meta_extract_switch_id_def oid_key_def on_switch_def created_ok_def)
qed (simp add: on_switch_def oid_key_def)

lemma create_oid_keeps:
  assumes env: "meta_env_ok env" and db: "db_ok env db"
    and vendor: "\<And>vendor oid. create = Some vendor \<Longrightarrow> vendor (meta_attr_array n attrs) = (SAI_STATUS_SUCCESS, oid) \<Longrightarrow>
      created_ok env ot sw oid"
    and call: "meta_sai_create_oid env garbage ot object_id sw n attrs create db = Inr (status, result, db')"
  shows "db_ok env db'"
proof (cases "db' = db")
  case False
  then obtain vendor oid where v: "create = Some vendor" "vendor (meta_attr_array n attrs) = (SAI_STATUS_SUCCESS, oid)"
    and val: "meta_sai_validate_oid env ot object_id True db = success"
      "meta_generic_validation_create env (oid_key ot SAI_NULL_OBJECT_ID) sw n attrs db = success"
    and post: "meta_generic_validation_post_create env garbage (oid_key ot oid)
      (if ot = OT_SWITCH then oid else sw) n attrs db = Inr db'"
    using call by (auto simp: meta_sai_create_oid_def chk_bind_eq_Inr and_then_eq_Inr Let_def
        split: if_splits option.splits prod.splits)
  note created = vendor [OF v]
  show ?thesis
    by (rule post_create_keeps [OF env db created_matching [OF created] created_on_switch [OF created val]
          validation_create_success(1) [OF val(2)] post])
qed (use db in simp)

section \<open>Notifications\<close>

lemma fdb_matching [simp]: "matching env (fdb_key e)"
  by (simp add: matching_def fdb_key_def)

lemma event_snoop_keeps:
  assumes env: "meta_env_ok env" and db: "db_ok env db" and call: "meta_fdb_event_snoop_oid env oid db = Inr db'"
  shows "db_ok env db'"
proof (cases "db' = db")
  case False
  then obtain db1 ex where "oid \<noteq> SAI_NULL_OBJECT_ID" "object_type_query env oid \<noteq> 0"
    "object_reference_insert oid db = Inr db1"
    "object_exists env (oid_key (object_type_query env oid) oid) db1 = Inr ex"
    "(if ex then Inr db1 else create_object env (oid_key (object_type_query env oid) oid) db1) = Inr db'"
    using call by (auto simp: meta_fdb_event_snoop_oid_def chk_bind_eq_Inr Let_def split: if_splits)
  then show ?thesis by (rule take_over_keeps [OF env db])
qed (use db in simp)

lemma snoop_attrs_keeps:
  assumes env: "meta_env_ok env"
  shows "db_ok env db \<Longrightarrow> snoop_attrs env attrs db = Inr db' \<Longrightarrow> db_ok env db'"
proof (induction attrs arbitrary: db)
  case (Cons a attrs)
  then obtain db1 where "db1 = db \<or> meta_fdb_event_snoop_oid env (mv_oid (at_value a)) db = Inr db1"
    "snoop_attrs env attrs db1 = Inr db'" by (fastforce simp: chk_bind_eq_Inr split: option.splits if_splits)
  then show ?case using Cons.IH Cons.prems(1) event_snoop_keeps [OF env Cons.prems(1)] by blast
qed simp

lemma fdb_learned_keeps:
  assumes env: "meta_env_ok env" and db: "db_ok env db" and call: "fdb_learned env garbage ev db = Inr db'"
  shows "db_ok env db'"
proof (cases "db' = db")
  case False
  let ?mk = "fdb_key (ev_entry ev)" and ?attrs = "learned_attrs (ev_attrs ev)"
  let ?sw = "fdb_switch_id (ev_entry ev)"
  have val: "meta_generic_validation_create env ?mk ?sw (length ?attrs) (Some ?attrs) db = success"
    and post: "meta_generic_validation_post_create env garbage ?mk ?sw (length ?attrs) (Some ?attrs) db = Inr db'"
    using False call by (auto simp: fdb_learned_def chk_bind_eq_Inr Let_def split: if_splits)
  have "on_switch env ?mk ?sw db" by (simp add: on_switch_def fdb_key_def)
  then show ?thesis by (rule post_create_keeps [OF env db fdb_matching _ validation_create_success(1) [OF val] post])
qed (use db in simp)

lemma fdb_forgotten_keeps:
  assumes env: "meta_env_ok env" and db: "db_ok env db" and call: "fdb_forgotten env ev db = Inr db'"
  shows "db_ok env db'"
  using call db post_remove_keeps [OF env fdb_matching db]
  by (auto simp: fdb_forgotten_def meta_generic_validation_post_remove_def chk_bind_eq_Inr split: if_splits)

lemma flush_scan_keys:
  "flush_scan env ev type bpid h = Inr toremove \<Longrightarrow> set toremove \<subseteq> (deserialize_meta_key env \<circ> fst) ` set h"
proof (induction h arbitrary: toremove)
  case (Cons p h)
  then obtain rest where "flush_scan env ev type bpid h = Inr rest"
    "toremove = rest \<or> toremove = deserialize_meta_key env (fst p) # rest"
    by (cases p) (auto simp: chk_bind_eq_Inr Let_def split: if_splits)
  then show ?case using Cons.IH by fastforce
qed simp

lemma flush_consolidated_keeps:
  assumes env: "meta_env_ok env" and db: "db_ok env db"
    and call: "meta_sai_on_fdb_flush_event_consolidated env ev db = Inr db'"
  shows "db_ok env db'"
proof -
  obtain type bpid toremove where scan: "flush_scan env ev type bpid (ObjectAttrHash db) = Inr toremove"
    and each: "for_each (meta_generic_validation_post_remove env) (map Inr toremove) db = Inr db'"
    using call by (auto simp: meta_sai_on_fdb_flush_event_consolidated_def chk_bind_eq_Inr Let_def
        split: option.splits)
  have "table_ok env (ObjectAttrHash db)" using db by (simp add: db_ok_def)
  then have m: "matching env mk" if "mk \<in> set toremove" for mk
    using flush_scan_keys [OF scan] that by (fastforce simp: table_ok_def object_ok_def)
  have "db_ok env s'" if "mk \<in> set toremove" "db_ok env s" "meta_generic_validation_post_remove env mk s = Inr s'"
    for mk s s'
    using post_remove_keeps [OF env m [OF that(1)] that(2)] that(3)
    by (simp add: meta_generic_validation_post_remove_def)
  then show ?thesis using for_each_keeps [of toremove "db_ok env" _ db db'] db each by blast
qed

lemma fdb_move_loop_keeps:
  assumes env: "meta_env_ok env" and mk: "matching env mk"
  shows "db_ok env db \<Longrightarrow> fdb_move_loop env mk attrs db = Inr db' \<Longrightarrow> db_ok env db'"
proof (induction attrs arbitrary: db)
  case (Cons a attrs)
  then obtain status db1 db2 where val: "meta_generic_validation_set env mk (Some a) db = Inr (status, db1)"
    and "db2 = db1 \<or> meta_generic_validation_post_set env mk a db1 = Inr db2"
    and rest: "fdb_move_loop env mk attrs db2 = Inr db'"
    by (fastforce simp: chk_bind_eq_Inr split: if_splits)
  then have "db_ok env db2" using validation_set_keeps [OF Cons.prems(1) val] post_set_keeps [OF env _ mk] by blast
  then show ?case using Cons.IH rest by blast
qed simp

lemma event_single_keeps:
  assumes env: "meta_env_ok env" and db: "db_ok env db"
    and call: "meta_sai_on_fdb_event_single env garbage ev db = Inr db'"
  shows "db_ok env db'"
proof -
  obtain db1 db2 where db1: "meta_fdb_event_snoop_oid env (fdb_bv_id (ev_entry ev)) db = Inr db1"
    and db2: "snoop_attrs env (ev_attrs ev) db1 = Inr db2"
    and step: "db' = db2 \<or> fdb_learned env garbage ev db2 = Inr db' \<or> fdb_forgotten env ev db2 = Inr db'
      \<or> meta_sai_on_fdb_flush_event_consolidated env ev db2 = Inr db'
      \<or> fdb_move_loop env (fdb_key (ev_entry ev)) (ev_attrs ev) db2 = Inr db'"
    using call by (auto simp: meta_sai_on_fdb_event_single_def chk_bind_eq_Inr Let_def split: if_splits)
  have "db_ok env db2" using snoop_attrs_keeps [OF env event_snoop_keeps [OF env db db1] db2] .
  then show ?thesis
    using step fdb_learned_keeps [OF env] fdb_forgotten_keeps [OF env] flush_consolidated_keeps [OF env]
      fdb_move_loop_keeps [OF env fdb_matching] by blast
qed

lemma events_keep:
  assumes "meta_env_ok env" and "db_ok env db" and "meta_sai_on_fdb_event env garbage evs db = Inr db'"
  shows "db_ok env db'"
  using for_each_keeps [of evs "db_ok env" "meta_sai_on_fdb_event_single env garbage" db db']
    event_single_keeps [OF assms(1)] assms(2,3) by (auto simp: meta_sai_on_fdb_event_def)

section \<open>The layer as a machine\<close>

text \<open>
  The calls with their arguments and the function of the vendor, the notifications of FDB entries, and the
  calls of the unit tests. Statistics and flushes do not change the database.
\<close>

datatype entry_argument =
    Fdb "meta_fdb_entry option"
  | Mcast_fdb "meta_mcast_fdb_entry option"
  | Neighbor "meta_neighbor_entry option"
  | Route "meta_route_entry option"
  | L2mc "meta_l2mc_entry option"
  | Ipmc "meta_ipmc_entry option"
  | Inseg "meta_inseg_entry option"

datatype meta_call =
    CreateEntry bool entry_argument nat "meta_attribute list option" "(meta_attribute list \<Rightarrow> sai_status) option"
  | RemoveEntry entry_argument "sai_status option"
  | SetEntry entry_argument "meta_attribute option" "(meta_attribute \<Rightarrow> sai_status) option"
  | GetEntry entry_argument nat "meta_attribute list option"
      "(meta_attribute list \<Rightarrow> sai_status \<times> meta_attribute list) option"
  | CreateOid bool nat "u64 option" u64 nat "meta_attribute list option"
      "(meta_attribute list \<Rightarrow> sai_status \<times> u64) option"
  | RemoveOid nat u64 "sai_status option"
  | SetOid nat u64 "meta_attribute option" "(meta_attribute \<Rightarrow> sai_status) option"
  | GetOid nat u64 nat "meta_attribute list option"
      "(meta_attribute list \<Rightarrow> sai_status \<times> meta_attribute list) option"
  | FdbEvents bool "fdb_event list"
  | InitDb
  | UnittestsEnable bool
  | AllowReadonlySetOnce nat u32

datatype meta_answer = Status sai_status | Created sai_status "u64 option" | Values sai_status "meta_attribute list" | Quiet

type_synonym 'k meta_step = "'k meta_db \<Rightarrow> (meta_answer \<times> 'k meta_db) checked"

definition answer_status :: "(sai_status \<times> 'k meta_db) checked \<Rightarrow> (meta_answer \<times> 'k meta_db) checked" where
  "answer_status r = chk_bind r (\<lambda>(status, db). Inr (Status status, db))"

definition answer_values :: "'k get_result \<Rightarrow> (meta_answer \<times> 'k meta_db) checked" where
  "answer_values r = chk_bind r (\<lambda>(status, values, db). Inr (Values status values, db))"

fun create_call ::
  "'k meta_env \<Rightarrow> bool \<Rightarrow> entry_argument \<Rightarrow> nat \<Rightarrow> meta_attribute list option
     \<Rightarrow> (meta_attribute list \<Rightarrow> sai_status) option \<Rightarrow> 'k meta_db \<Rightarrow> (sai_status \<times> 'k meta_db) checked" where
  "create_call env garbage (Fdb e) = meta_sai_create_fdb_entry env garbage e"
| "create_call env garbage (Mcast_fdb e) = meta_sai_create_mcast_fdb_entry env garbage e"
| "create_call env garbage (Neighbor e) = meta_sai_create_neighbor_entry env garbage e"
| "create_call env garbage (Route e) = meta_sai_create_route_entry env garbage e"
| "create_call env garbage (L2mc e) = meta_sai_create_l2mc_entry env garbage e"
| "create_call env garbage (Ipmc e) = meta_sai_create_ipmc_entry env garbage e"
| "create_call env garbage (Inseg e) = meta_sai_create_inseg_entry env garbage e"

fun remove_call ::
  "'k meta_env \<Rightarrow> entry_argument \<Rightarrow> sai_status option \<Rightarrow> 'k meta_db \<Rightarrow> (sai_status \<times> 'k meta_db) checked" where
  "remove_call env (Fdb e) = meta_sai_remove_fdb_entry env e"
| "remove_call env (Mcast_fdb e) = meta_sai_remove_mcast_fdb_entry env e"
| "remove_call env (Neighbor e) = meta_sai_remove_neighbor_entry env e"
| "remove_call env (Route e) = meta_sai_remove_route_entry env e"
| "remove_call env (L2mc e) = meta_sai_remove_l2mc_entry env e"
| "remove_call env (Ipmc e) = meta_sai_remove_ipmc_entry env e"
| "remove_call env (Inseg e) = meta_sai_remove_inseg_entry env e"

fun set_call ::
  "'k meta_env \<Rightarrow> entry_argument \<Rightarrow> meta_attribute option \<Rightarrow> (meta_attribute \<Rightarrow> sai_status) option
     \<Rightarrow> 'k meta_db \<Rightarrow> (sai_status \<times> 'k meta_db) checked" where
  "set_call env (Fdb e) = meta_sai_set_fdb_entry env e"
| "set_call env (Mcast_fdb e) = meta_sai_set_mcast_fdb_entry env e"
| "set_call env (Neighbor e) = meta_sai_set_neighbor_entry env e"
| "set_call env (Route e) = meta_sai_set_route_entry env e"
| "set_call env (L2mc e) = meta_sai_set_l2mc_entry env e"
| "set_call env (Ipmc e) = meta_sai_set_ipmc_entry env e"
| "set_call env (Inseg e) = meta_sai_set_inseg_entry env e"

fun get_call ::
  "'k meta_env \<Rightarrow> entry_argument \<Rightarrow> nat \<Rightarrow> meta_attribute list option
     \<Rightarrow> (meta_attribute list \<Rightarrow> sai_status \<times> meta_attribute list) option \<Rightarrow> 'k meta_db \<Rightarrow> 'k get_result" where
  "get_call env (Fdb e) = meta_sai_get_fdb_entry env e"
| "get_call env (Mcast_fdb e) = meta_sai_get_mcast_fdb_entry env e"
| "get_call env (Neighbor e) = meta_sai_get_neighbor_entry env e"
| "get_call env (Route e) = meta_sai_get_route_entry env e"
| "get_call env (L2mc e) = meta_sai_get_l2mc_entry env e"
| "get_call env (Ipmc e) = meta_sai_get_ipmc_entry env e"
| "get_call env (Inseg e) = meta_sai_get_inseg_entry env e"

fun meta_exec :: "'k meta_env \<Rightarrow> meta_call \<Rightarrow> 'k meta_step" where
  "meta_exec env (CreateEntry garbage e n attrs create) db = answer_status (create_call env garbage e n attrs create db)"
| "meta_exec env (RemoveEntry e remove) db = answer_status (remove_call env e remove db)"
| "meta_exec env (SetEntry e attr setf) db = answer_status (set_call env e attr setf db)"
| "meta_exec env (GetEntry e n attrs get) db = answer_values (get_call env e n attrs get db)"
| "meta_exec env (CreateOid garbage ot oid sw n attrs create) db =
     chk_bind (meta_sai_create_oid env garbage ot oid sw n attrs create db)
       (\<lambda>(status, result, db). Inr (Created status result, db))"
| "meta_exec env (RemoveOid ot oid remove) db = answer_status (meta_sai_remove_oid env ot oid remove db)"
| "meta_exec env (SetOid ot oid attr setf) db = answer_status (meta_sai_set_oid env ot oid attr setf db)"
| "meta_exec env (GetOid ot oid n attrs get) db = answer_values (meta_sai_get_oid env ot oid n attrs get db)"
| "meta_exec env (FdbEvents garbage evs) db =
     chk_bind (meta_sai_on_fdb_event env garbage evs db) (\<lambda>db. Inr (Quiet, db))"
| "meta_exec env InitDb db = Inr (Quiet, meta_init_db db)"
| "meta_exec env (UnittestsEnable enable) db = Inr (Quiet, meta_unittests_enable enable db)"
| "meta_exec env (AllowReadonlySetOnce ot i) db =
     answer_status (Inr (meta_unittests_allow_readonly_set_once env ot i db))"

text \<open>The vendor keeps its promise about new ids; nothing is assumed of the arguments.\<close>

fun meta_call_ok :: "'k meta_env \<Rightarrow> meta_call \<Rightarrow> 'k meta_db \<Rightarrow> bool" where
  "meta_call_ok env (CreateOid garbage ot oid sw n attrs (Some vendor)) db \<longleftrightarrow>
     (fst (vendor (meta_attr_array n attrs)) = SAI_STATUS_SUCCESS \<longrightarrow>
       created_ok env ot sw (snd (vendor (meta_attr_array n attrs))))"
| "meta_call_ok env _ db \<longleftrightarrow> True"

text \<open>The database after \<open>meta_init_db\<close>, when the process starts without a warm boot.\<close>

definition meta_start :: "'k meta_db \<Rightarrow> bool" where
  "meta_start db \<longleftrightarrow> meta_init_db db = db \<and> \<not> warmBoot db"

lemmas entry_keys = fdb_key_def mcast_fdb_key_def neighbor_key_def route_key_def l2mc_key_def ipmc_key_def inseg_key_def

lemmas entry_calls =
  meta_sai_create_fdb_entry_def meta_sai_create_mcast_fdb_entry_def meta_sai_create_neighbor_entry_def
  meta_sai_create_route_entry_def meta_sai_create_l2mc_entry_def meta_sai_create_ipmc_entry_def
  meta_sai_create_inseg_entry_def
  meta_sai_remove_fdb_entry_def meta_sai_remove_mcast_fdb_entry_def meta_sai_remove_neighbor_entry_def
  meta_sai_remove_route_entry_def meta_sai_remove_l2mc_entry_def meta_sai_remove_ipmc_entry_def
  meta_sai_remove_inseg_entry_def
  meta_sai_set_fdb_entry_def meta_sai_set_mcast_fdb_entry_def meta_sai_set_neighbor_entry_def
  meta_sai_set_route_entry_def meta_sai_set_l2mc_entry_def meta_sai_set_ipmc_entry_def meta_sai_set_inseg_entry_def
  meta_sai_get_fdb_entry_def meta_sai_get_mcast_fdb_entry_def meta_sai_get_neighbor_entry_def
  meta_sai_get_route_entry_def meta_sai_get_l2mc_entry_def meta_sai_get_ipmc_entry_def meta_sai_get_inseg_entry_def

text \<open>Four of the seven kinds of entries have no text: every key of theirs makes the serialization throw.\<close>

lemma unsupported_text:
  assumes "meta_env_ok env"
    and "mk_objecttype mk \<in> {OT_MCAST_FDB_ENTRY, OT_L2MC_ENTRY, OT_IPMC_ENTRY, OT_INSEG_ENTRY}"
  shows "serialize_object_meta_key env mk = Inl Thrown"
proof -
  have "entry_type env (mk_objecttype mk)" using assms by (auto simp: meta_env_ok_def entry_types_def)
  then obtain info where "object_infos env (mk_objecttype mk) = Some info" "info_isnonobjectid info"
    by (auto simp: entry_type_def)
  then show ?thesis using assms(2)
    by (auto simp: serialize_object_meta_key_def Let_def OT_MCAST_FDB_ENTRY_def OT_L2MC_ENTRY_def OT_IPMC_ENTRY_def
        OT_INSEG_ENTRY_def OT_FDB_ENTRY_def OT_ROUTE_ENTRY_def OT_NEIGHBOR_ENTRY_def)
qed

lemma proper_keys:
  assumes "meta_env_ok env"
  shows "proper env (fdb_key e1)" "proper env (mcast_fdb_key e2)" "proper env (neighbor_key e3)"
    "proper env (route_key e4)" "proper env (l2mc_key e5)" "proper env (ipmc_key e6)" "proper env (inseg_key e7)"
  using unsupported_text [OF assms] by (simp_all add: proper_def matching_def entry_keys)

lemma entry_not_KeyOid:
  "mk_objectkey (fdb_key e1) \<noteq> KeyOid oid" "mk_objectkey (mcast_fdb_key e2) \<noteq> KeyOid oid"
  "mk_objectkey (neighbor_key e3) \<noteq> KeyOid oid" "mk_objectkey (route_key e4) \<noteq> KeyOid oid"
  "mk_objectkey (l2mc_key e5) \<noteq> KeyOid oid" "mk_objectkey (ipmc_key e6) \<noteq> KeyOid oid"
  "mk_objectkey (inseg_key e7) \<noteq> KeyOid oid"
  by (simp_all add: entry_keys)

lemma create_call_keeps:
  assumes "meta_env_ok env" and "db_ok env db" and "create_call env garbage e n attrs create db = Inr (status, db')"
  shows "db_ok env db'"
  using assms by (cases e) (auto simp: entry_calls proper_keys [OF assms(1)] entry_not_KeyOid split: option.splits
      elim!: create_entry_keeps [OF assms(1,2), rotated 2])

lemma remove_call_keeps:
  assumes "meta_env_ok env" and "db_ok env db" and "remove_call env e remove db = Inr (status, db')"
  shows "db_ok env db'"
  using assms by (cases e) (auto simp: entry_calls proper_keys [OF assms(1)] split: option.splits
      elim!: remove_entry_keeps [OF assms(1,2), rotated])

lemma set_call_keeps:
  assumes "meta_env_ok env" and "db_ok env db" and "set_call env e attr setf db = Inr (status, db')"
  shows "db_ok env db'"
  using assms by (cases e) (auto simp: entry_calls proper_keys [OF assms(1)] split: option.splits
      elim!: set_entry_keeps [OF assms(1,2), rotated])

lemma get_call_keeps:
  assumes "meta_env_ok env" and "db_ok env db" and "get_call env e n attrs get db = Inr (status, values, db')"
  shows "db_ok env db'"
  using assms by (cases e) (auto simp: entry_calls split: option.splits elim!: get_entry_keeps [OF assms(1,2)])

lemma oid_calls_keep:
  assumes "meta_env_ok env" and "db_ok env db"
  shows "meta_sai_remove_oid env ot oid remove db = Inr (status, db') \<Longrightarrow> db_ok env db'"
    and "meta_sai_set_oid env ot oid attr setf db = Inr (status, db') \<Longrightarrow> db_ok env db'"
    and "meta_sai_get_oid env ot oid n attrs get db = Inr (status, values, db') \<Longrightarrow> db_ok env db'"
proof -
  have p: "meta_sai_validate_oid env ot (Some oid) False db = success \<Longrightarrow> proper env (oid_key ot oid)"
    using validate_oid_matching by (auto simp: proper_def)
  show "meta_sai_remove_oid env ot oid remove db = Inr (status, db') \<Longrightarrow> db_ok env db'"
    unfolding meta_sai_remove_oid_def by (rule remove_entry_keeps [OF assms p])
  show "meta_sai_set_oid env ot oid attr setf db = Inr (status, db') \<Longrightarrow> db_ok env db'"
    unfolding meta_sai_set_oid_def by (rule set_entry_keeps [OF assms p])
  show "meta_sai_get_oid env ot oid n attrs get db = Inr (status, values, db') \<Longrightarrow> db_ok env db'"
    unfolding meta_sai_get_oid_def by (rule get_entry_keeps [OF assms])
qed

lemma create_oid_call_keeps:
  assumes "meta_env_ok env" and "db_ok env db" and "meta_call_ok env (CreateOid garbage ot object_id sw n attrs create) db"
    and "meta_sai_create_oid env garbage ot object_id sw n attrs create db = Inr (status, result, db')"
  shows "db_ok env db'"
proof (rule create_oid_keeps [OF assms(1,2) _ assms(4)])
  fix vendor oid
  assume "create = Some vendor" "vendor (meta_attr_array n attrs) = (SAI_STATUS_SUCCESS, oid)"
  then show "created_ok env ot sw oid" using assms(3) by simp
qed

lemma meta_exec_keeps:
  assumes env: "meta_env_ok env" and db: "db_ok env db" and ok: "meta_call_ok env c db"
    and exec: "meta_exec env c db = Inr (r, db')"
  shows "db_ok env db'"
proof (cases c)
  case (CreateEntry garbage e n attrs create)
  then show ?thesis using exec create_call_keeps [OF env db] by (auto simp: answer_status_def chk_bind_eq_Inr)
next
  case (RemoveEntry e remove)
  then show ?thesis using exec remove_call_keeps [OF env db] by (auto simp: answer_status_def chk_bind_eq_Inr)
next
  case (SetEntry e attr setf)
  then show ?thesis using exec set_call_keeps [OF env db] by (auto simp: answer_status_def chk_bind_eq_Inr)
next
  case (GetEntry e n attrs get)
  then show ?thesis using exec get_call_keeps [OF env db] by (auto simp: answer_values_def chk_bind_eq_Inr)
next
  case (CreateOid garbage ot oid sw n attrs create)
  then show ?thesis using exec create_oid_call_keeps [OF env db] ok by (auto simp: chk_bind_eq_Inr)
next
  case (RemoveOid ot oid remove)
  then show ?thesis using exec oid_calls_keep [OF env db] by (auto simp: answer_status_def chk_bind_eq_Inr)
next
  case (SetOid ot oid attr setf)
  then show ?thesis using exec oid_calls_keep [OF env db] by (auto simp: answer_status_def chk_bind_eq_Inr)
next
  case (GetOid ot oid n attrs get)
  then show ?thesis using exec oid_calls_keep [OF env db] by (auto simp: answer_values_def chk_bind_eq_Inr)
next
  case (FdbEvents garbage evs)
  then show ?thesis using exec events_keep [OF env db] by (auto simp: chk_bind_eq_Inr)
next
  case InitDb
  then show ?thesis using exec db init_db_ok [of db env] by (auto simp: db_ok_def)
next
  case (UnittestsEnable enable)
  then show ?thesis using exec db by (auto simp: db_ok_def meta_unittests_enable_def)
next
  case (AllowReadonlySetOnce ot i)
  then show ?thesis using exec db
    by (auto simp: db_ok_def answer_status_def meta_unittests_allow_readonly_set_once_def
        split: if_splits option.splits)
qed

lemma meta_start_ok: "meta_start db \<Longrightarrow> db_ok env db"
  using init_db_ok [of db env] by (simp add: meta_start_def)

text \<open>The layer keeps its invariant, whatever it is linked with, when that is as documented.\<close>

interpretation meta: keeping meta_start "\<lambda>c db. meta_env_ok env \<and> meta_call_ok env c db" "meta_exec env" "db_ok env"
  for env :: "'k meta_env"
  by unfold_locales (use meta_start_ok meta_exec_keeps in blast)+

lemma reachable_db_ok:
  assumes "meta_env_ok env" and "reachable meta_start (meta_call_ok env) (meta_exec env) db"
  shows "db_ok env db"
proof -
  have "reachable meta_start (\<lambda>c db. meta_env_ok env \<and> meta_call_ok env c db) (meta_exec env) db"
    using assms(2) by induction (use assms(1) in \<open>auto intro: reachable.intros\<close>)
  then show ?thesis by (rule meta.reachable_inv)
qed

end
