(* ===== verification/MetaLists.thy ===== *)
theory MetaLists
  imports MetaMachine
begin

text \<open>
  Facts about single checks of the metadata layer: which lists of object ids are accepted, and what becomes of
  calls whose keys have no text.
\<close>

section \<open>Lists of ids\<close>

text \<open>An id that an attribute may name: of an allowed type, in the database, on the switch.\<close>

definition nameable :: "'k meta_env \<Rightarrow> 'k meta_db \<Rightarrow> meta_attr \<Rightarrow> u64 \<Rightarrow> u64 \<Rightarrow> bool" where
  "nameable env db md sw oid \<longleftrightarrow>
     (if oid = SAI_NULL_OBJECT_ID then ma_allownullobjectid md
      else object_type_query env oid \<noteq> 0 \<and> is_allowed_object_type md (object_type_query env oid)
        \<and> object_reference_exists oid db \<and> object_reference_exists sw db \<and> switch_id_query env oid = sw)"

definition nonnull :: "u64 list \<Rightarrow> u64 list" where
  "nonnull = filter (\<lambda>oid. oid \<noteq> SAI_NULL_OBJECT_ID)"

lemma nonnull_simps [simp]:
  "nonnull [] = []" "nonnull (oid # oids) = (if oid = SAI_NULL_OBJECT_ID then nonnull oids else oid # nonnull oids)"
  "set (nonnull oids) = set oids - {SAI_NULL_OBJECT_ID}"
  by (auto simp: nonnull_def)

lemma objlist_loop_sound:
  assumes "objlist_loop env db md sw (map Inr xs) i oids t = success" and "SAI_NULL_OBJECT_ID \<notin> set oids"
  shows "(\<forall>oid \<in> set xs. nameable env db md sw oid) \<and> distinct (nonnull xs) \<and> set (nonnull xs) \<inter> set oids = {}"
  using assms
proof (induction xs arbitrary: i oids t)
  case (Cons oid xs)
  show ?case
  proof (cases "oid = SAI_NULL_OBJECT_ID")
    case True
    then have a: "ma_allownullobjectid md" and rest: "objlist_loop env db md sw (map Inr xs) (Suc i) oids t = success"
      using Cons.prems by (auto simp: status_defs split: if_splits)
    from Cons.IH [OF rest Cons.prems(2)] show ?thesis using a True Cons.prems(2) by (auto simp: nameable_def)
  next
    case False
    then have n: "nameable env db md sw oid" "oid \<notin> set oids"
      and rest: "objlist_loop env db md sw (map Inr xs) (Suc i) (oid # oids) (object_type_query env oid) = success"
      using Cons.prems by (auto simp: nameable_def Let_def status_defs split: if_splits)
    have "SAI_NULL_OBJECT_ID \<notin> set (oid # oids)" using False Cons.prems(2) by simp
    from Cons.IH [OF rest this] show ?thesis using n False by auto
  qed
qed simp

lemma objlist_loop_complete:
  assumes "\<forall>oid \<in> set xs. nameable env db md sw oid \<and> oid \<noteq> SAI_NULL_OBJECT_ID" and "distinct xs"
    and "set xs \<inter> set oids = {}"
    and "i + length xs \<le> 2 \<or> (\<forall>oid \<in> set xs. object_type_query env oid = ot) \<and> (i \<le> 1 \<or> t = ot)"
  shows "objlist_loop env db md sw (map Inr xs) i oids t = success"
  using assms
proof (induction xs arbitrary: i oids t)
  case (Cons oid xs)
  have "nameable env db md sw oid" "oid \<noteq> SAI_NULL_OBJECT_ID" "oid \<notin> set oids" using Cons.prems(1,3) by auto
  moreover have "i \<le> 1 \<or> t = object_type_query env oid" using Cons.prems(4) by auto
  moreover have "objlist_loop env db md sw (map Inr xs) (Suc i) (oid # oids) (object_type_query env oid) = success"
    using Cons.prems by (intro Cons.IH) auto
  ultimately show ?case by (auto simp: nameable_def Let_def)
qed simp

lemma list_oids_length: "readable l \<Longrightarrow> length (list_oids l) = unat (fst l)"
  by (cases "snd l") (auto simp: readable_def list_oids_def)

section \<open>Masks and keys without text\<close>

lemma ip_mask_loop_thrown: "ip_mask_loop m is zeros n = Inl e \<Longrightarrow> e = Thrown"
  by (induction m "is" zeros n rule: ip_mask_loop.induct) (auto split: if_splits)

lemma get_ip_mask_thrown:
  assumes "length m = (if v6 then 16 else 4)" and "\<nexists>b. sai_populate_ip_mask b v6 = Inr m"
  shows "get_ip_mask m v6 = Inl Thrown"
proof (cases "get_ip_mask m v6")
  case (Inl e)
  then show ?thesis using ip_mask_loop_thrown by (simp add: get_ip_mask_def split: if_splits)
next
  case (Inr b)
  then show ?thesis using get_ip_mask_exact [OF assms(1)] assms(2) by blast
qed

lemma hole_has_no_text:
  assumes "meta_env_ok env" and "route_destination e = PrefixV4 a m"
    and "\<nexists>b. sai_populate_ip_mask b False = Inr (le_bytes 4 m)"
  shows "serialize_object_meta_key env (route_key e) = Inl Thrown"
proof -
  have "get_ipv4_mask m = Inl Thrown"
    using get_ip_mask_thrown [of "le_bytes 4 m" False] assms(3) by (simp add: get_ipv4_mask_def le_bytes_def)
  moreover have "object_infos env OT_ROUTE_ENTRY \<noteq> None"
    using assms(1) by (auto simp: meta_env_ok_def entry_types_def entry_type_def)
  ultimately show ?thesis using assms(2)
    by (auto simp: serialize_object_meta_key_def route_key_def Let_def OT_ROUTE_ENTRY_def OT_FDB_ENTRY_def)
qed

text \<open>An entry whose key has no text is not created, removed or set.\<close>

lemma no_text_no_success:
  assumes "serialize_object_meta_key env mk = Inl Thrown"
  shows "create_entry env garbage validated mk sw n attrs create db \<noteq> Inr (SAI_STATUS_SUCCESS, db')"
    and "remove_entry env validated mk remove db \<noteq> Inr (SAI_STATUS_SUCCESS, db')"
    and "set_entry env validated mk attr setf db \<noteq> Inr (SAI_STATUS_SUCCESS, db')"
proof -
  have c: "meta_generic_validation_post_create env garbage mk sw n attrs db \<noteq> Inr r" for r
    using post_create_text [of env garbage mk sw n attrs db r] assms by auto
  have r: "meta_generic_validation_remove env mk db \<noteq> Inr r" for r
    using validation_remove_text [of env mk db r] assms by auto
  have s: "meta_generic_validation_post_set env mk a db \<noteq> Inr r" for a db r
    using post_set_text [of env mk a db r] assms by auto
  show "create_entry env garbage validated mk sw n attrs create db \<noteq> Inr (SAI_STATUS_SUCCESS, db')"
    using c by (auto simp: create_entry_def chk_bind_eq_Inr Let_def status_defs split: option.splits if_splits)
  show "remove_entry env validated mk remove db \<noteq> Inr (SAI_STATUS_SUCCESS, db')"
    using r by (auto simp: remove_entry_def chk_bind_eq_Inr status_defs split: if_splits)
  show "set_entry env validated mk attr setf db \<noteq> Inr (SAI_STATUS_SUCCESS, db')"
    using s by (auto simp: set_entry_def chk_bind_eq_Inr Let_def status_defs split: option.splits if_splits)
qed

fun unsupported :: "entry_argument \<Rightarrow> bool" where
  "unsupported (Mcast_fdb e) \<longleftrightarrow> True"
| "unsupported (L2mc e) \<longleftrightarrow> True"
| "unsupported (Ipmc e) \<longleftrightarrow> True"
| "unsupported (Inseg e) \<longleftrightarrow> True"
| "unsupported _ \<longleftrightarrow> False"

lemma unsupported_keys:
  assumes "meta_env_ok env"
  shows "serialize_object_meta_key env (mcast_fdb_key e1) = Inl Thrown"
    "serialize_object_meta_key env (l2mc_key e2) = Inl Thrown"
    "serialize_object_meta_key env (ipmc_key e3) = Inl Thrown"
    "serialize_object_meta_key env (inseg_key e4) = Inl Thrown"
  by (rule unsupported_text [OF assms]; simp add: entry_keys)+

end
