(* ===== verification/MetaExample.thy ===== *)
theory MetaExample
  imports MetaLists
begin

text \<open>
  A small instance of what the metadata layer is linked with, and a database that calls reach: a switch, a
  virtual router, a router interface on it and a route. The text of a key is the key itself.
\<close>

definition example_value :: meta_value where
  "example_value = dynamic_value"

definition oid_value :: "u64 \<Rightarrow> meta_value" where
  "oid_value oid = example_value\<lparr>mv_oid := oid\<rparr>"

definition example_attr :: "nat \<Rightarrow> u32 \<Rightarrow> attr_value_type \<Rightarrow> u32 \<Rightarrow> nat list \<Rightarrow> meta_attr" where
  "example_attr ot i vt flags ots = \<lparr>ma_objecttype = ot, ma_attrid = i, ma_attridname = ''attr'',
     ma_attrvaluetype = vt, ma_flags = flags, ma_allowedobjecttypes = ots, ma_allownullobjectid = True,
     ma_isenum = False, ma_isenumlist = False, ma_enumvalues = [], ma_isconditional = False, ma_conditions = [],
     ma_defaultvalue = None, ma_isreadonly = False, ma_isoidattribute = ots \<noteq> [], ma_isvlan = False,
     ma_validonlylength = 0\<rparr>"

definition switch_of :: "sai_object_meta_key \<Rightarrow> u64" where
  "switch_of mk = key_object_id (mk_objectkey mk)"

fun router_of :: "sai_object_meta_key \<Rightarrow> u64" where
  "router_of mk = (case mk_objectkey mk of KeyRoute e \<Rightarrow> route_vr_id e | _ \<Rightarrow> 0)"

definition entry_info :: "struct_member list \<Rightarrow> object_info" where
  "entry_info ms = \<lparr>info_isnonobjectid = True, info_structmembers = ms,
     info_attrmetadata = [example_attr OT_ROUTE_ENTRY 0 AV_BOOL 4 []]\<rparr>"

definition id_info :: "nat \<Rightarrow> object_info" where
  "id_info ot = \<lparr>info_isnonobjectid = False, info_structmembers = [],
     info_attrmetadata = [example_attr ot 0 AV_OBJECT_ID 3 [OT_VIRTUAL_ROUTER],
       example_attr ot 1 AV_OBJECT_ID 4 [OT_VIRTUAL_ROUTER, OT_ROUTER_INTERFACE]]\<rparr>"

definition plain_info :: "nat \<Rightarrow> object_info" where
  "plain_info ot = \<lparr>info_isnonobjectid = False, info_structmembers = [],
     info_attrmetadata = [example_attr ot 0 AV_BOOL 4 []]\<rparr>"

definition switch_member_info :: struct_member where
  "switch_member_info = \<lparr>sm_is_oid = True, sm_allowedobjecttypes = [OT_SWITCH], sm_getoid = switch_of\<rparr>"

definition router_member_info :: struct_member where
  "router_member_info = \<lparr>sm_is_oid = True, sm_allowedobjecttypes = [OT_VIRTUAL_ROUTER], sm_getoid = router_of\<rparr>"

definition example_infos :: "nat \<Rightarrow> object_info option" where
  "example_infos ot =
     (if ot = OT_ROUTE_ENTRY then Some (entry_info [switch_member_info, router_member_info])
      else if ot \<in> set entry_types then Some (entry_info [switch_member_info])
      else if ot = OT_ROUTER_INTERFACE then Some (id_info ot)
      else if ot = OT_SWITCH \<or> ot = OT_VIRTUAL_ROUTER then Some (plain_info ot)
      else None)"

definition example_type :: "u64 \<Rightarrow> nat" where
  "example_type oid = (if oid = 1 then OT_SWITCH else if oid = 2 then OT_VIRTUAL_ROUTER
     else if oid = 3 \<or> oid = 4 then OT_ROUTER_INTERFACE else 0)"

definition example_env :: "sai_object_meta_key meta_env" where
  "example_env = \<lparr>object_infos = example_infos, object_type_query = example_type, switch_id_query = (\<lambda>oid. 1),
     meta_key_text = (\<lambda>mk. mk), deserialize_meta_key = (\<lambda>mk. mk),
     text_has_bvid = (\<lambda>mk. mk_objecttype mk = OT_FDB_ENTRY)\<rparr>"

lemmas object_type_numbers =
  OT_FDB_ENTRY_def OT_NEIGHBOR_ENTRY_def OT_ROUTE_ENTRY_def OT_MCAST_FDB_ENTRY_def OT_L2MC_ENTRY_def
  OT_IPMC_ENTRY_def OT_INSEG_ENTRY_def OT_SWITCH_def OT_VIRTUAL_ROUTER_def OT_ROUTER_INTERFACE_def OT_PORT_def

lemma example_env_ok: "meta_env_ok example_env"
proof -
  have entries: "\<forall>ot \<in> set entry_types. entry_type example_env ot"
    by (simp add: entry_types_def entry_type_def example_env_def example_infos_def entry_info_def object_type_numbers)
  have oids: "\<forall>oid. object_type_query example_env oid \<noteq> 0 \<longrightarrow> oid_type example_env (object_type_query example_env oid)"
    by (simp add: oid_type_def example_env_def example_type_def example_infos_def entry_types_def id_info_def
        plain_info_def object_type_numbers)
  have keys: "deserialize_meta_key example_env k = mk" if "serialize_object_meta_key example_env mk = Inr k" for mk k
    using serialize_text [OF that] by (simp add: example_env_def)
  have "object_infos example_env 0 = None"
    by (simp add: example_env_def example_infos_def entry_types_def object_type_numbers)
  then show ?thesis using entries oids keys by (simp add: meta_env_ok_def)
qed

text \<open>The state after a call, which is the old one when the call throws.\<close>

definition after :: "'k meta_env \<Rightarrow> meta_call \<Rightarrow> 'k meta_db \<Rightarrow> 'k meta_db" where
  "after env c db = (case meta_exec env c db of Inl e \<Rightarrow> db | Inr (r, db') \<Rightarrow> db')"

lemma after_reachable:
  "reachable meta_start (meta_call_ok env) (meta_exec env) db \<Longrightarrow> meta_call_ok env c db \<Longrightarrow>
    reachable meta_start (meta_call_ok env) (meta_exec env) (after env c db)"
  by (cases "meta_exec env c db") (auto simp: after_def intro: reachable_call)

definition empty_db :: "'k meta_db" where
  "empty_db = \<lparr>ObjectReferences = Map.empty, AttributeKeys = [], ObjectAttrHash = [],
     map_port_to_related_set = Map.empty, warmBoot = False, unittests_enabled = False,
     unittests_set_readonly_set = []\<rparr>"

definition create_with :: "nat \<Rightarrow> u64 \<Rightarrow> u64 \<Rightarrow> meta_attribute list \<Rightarrow> meta_call" where
  "create_with ot oid sw attrs =
     CreateOid False ot (Some 0) sw (length attrs) (Some attrs) (Some (\<lambda>_. (SAI_STATUS_SUCCESS, oid)))"

definition example_route :: meta_route_entry where
  "example_route = \<lparr>route_switch_id = 1, route_vr_id = 2, route_destination = PrefixV4 10 255\<rparr>"

definition rif_attrs :: "meta_attribute list" where
  "rif_attrs = [\<lparr>at_id = 0, at_value = oid_value 2\<rparr>]"

definition example_calls :: "meta_call list" where
  "example_calls = [create_with OT_SWITCH 1 0 [], create_with OT_VIRTUAL_ROUTER 2 1 [],
     create_with OT_ROUTER_INTERFACE 3 1 rif_attrs,
     CreateEntry False (Route (Some example_route)) 0 None (Some (\<lambda>_. SAI_STATUS_SUCCESS))]"

definition example_db :: "sai_object_meta_key meta_db" where
  "example_db = fold (after example_env) example_calls empty_db"

lemma created_examples:
  "created_ok example_env OT_SWITCH 0 1" "created_ok example_env OT_VIRTUAL_ROUTER 1 2"
  "created_ok example_env OT_ROUTER_INTERFACE 1 3" "created_ok example_env OT_ROUTER_INTERFACE 1 4"
  by (simp_all add: created_ok_def example_env_def example_type_def SAI_NULL_OBJECT_ID_def object_type_numbers)

lemma example_reachable: "reachable meta_start (meta_call_ok example_env) (meta_exec example_env) example_db"
proof -
  have "meta_start (empty_db :: sai_object_meta_key meta_db)"
    by (simp add: meta_start_def meta_init_db_def empty_db_def)
  then have start: "reachable meta_start (meta_call_ok example_env) (meta_exec example_env) empty_db"
    by (rule reachable_start)
  show ?thesis unfolding example_db_def example_calls_def create_with_def
    by (simp add: after_reachable start created_examples)
qed

lemma example_references: "map (ObjectReferences example_db) [1, 2, 3, 4] = [Some 1, Some 2, Some 0, None]"
  by code_simp

end
