(* ===== verification/MetaProperties.thy ===== *)
theory MetaProperties
  imports MetaExample
begin

text \<open>
  The properties of the metadata layer: its reference counts are those of its table, no reference dangles, an
  object in use is not removed and an unused one is; what a create and a set store; what becomes of a switch;
  masks; the calls that always throw.
\<close>

section \<open>Removal returns\<close>

lemma post_remove_returns:
  assumes env: "meta_env_ok env" and db: "db_ok env db" and mk: "matching env mk"
    and k: "serialize_object_meta_key env mk = Inr k" and attrs: "map_of (ObjectAttrHash db) k = Some attrs"
    and types: "\<forall>(i, md, v) \<in> set attrs. ma_attrvaluetype md \<in> set stored_types"
    and unused: "\<And>oid. mk_objectkey mk = KeyOid oid \<Longrightarrow> oid \<notin># table_refs env (ObjectAttrHash db)"
    and ot: "mk_objecttype mk \<noteq> OT_SWITCH"
    and port: "mk_objecttype mk = OT_PORT \<Longrightarrow> map_port_to_related_set db (mk_oid mk) = None"
  shows "meta_generic_validation_post_remove env mk db = Inr (removed env k db)"
proof -
  let ?h = "ObjectAttrHash db"
  have h: "table_ok env ?h" using db by (simp add: db_ok_def)
  have sub: "set_mset (table_refs env ?h) \<subseteq> table_oids env ?h"
    and db': "with_refs (counts (table_oids env ?h) (table_refs env ?h)) db = db"
    using db by (simp_all add: db_ok_def table_ok_def table_counts_def)
  have unused': "oid \<notin># table_refs env ?h - attr_refs attrs" if "mk_objectkey mk = KeyOid oid" for oid
    using unused [OF that] by (meson in_diffD)
  have "attr_refs attrs \<subseteq># table_refs env ?h"
    using table_delete(3) [OF env h mk k attrs unused'] by (meson subset_mset.dual_order.trans mset_subset_eq_add_left)
  then have loop: "post_remove_loop env mk attrs db
      = Inr (with_refs (counts (table_oids env ?h) (table_refs env ?h - attr_refs attrs)) db)"
    using post_remove_loop_returns [OF sub stored_attrs(1) [OF env db mk k attrs] types, of db] db' by simp
  have rem: "remove_keyed_object env mk (with_refs (counts (table_oids env ?h) (table_refs env ?h - attr_refs attrs)) db)
      = Inr (removed env k db)"
    unfolding remove_keyed_object_table [OF env db mk k attrs] using unused' by auto
  have "?h \<noteq> []" using attrs by auto
  then obtain n where n: "length ?h = Suc n" by (cases ?h) auto
  have "map_port_to_related_set (removed env k db) (mk_oid mk) = map_port_to_related_set db (mk_oid mk)"
    by (simp add: removed_def with_table_def)
  then have "(if mk_objecttype mk = OT_PORT then post_port_remove env (post_remove_fuel n env) mk (removed env k db)
      else Inr (removed env k db)) = Inr (removed env k db)"
    using port by (simp add: post_port_remove_def)
  then show ?thesis using n ot loop rem k attrs
    by (simp add: meta_generic_validation_post_remove_def get_object_attributes_def)
qed

section \<open>The table\<close>

definition has_object :: "'k meta_env \<Rightarrow> u64 \<Rightarrow> 'k meta_db \<Rightarrow> bool" where
  "has_object env oid db \<longleftrightarrow>
     map_of (ObjectAttrHash db) (meta_key_text env (oid_key (object_type_query env oid) oid)) \<noteq> None"

text \<open>The value stored for an attribute of the object with this key.\<close>

definition stored_value :: "'k meta_db \<Rightarrow> 'k \<Rightarrow> u32 \<Rightarrow> meta_value option" where
  "stored_value db k i = (case map_of (ObjectAttrHash db) k of None \<Rightarrow> None
     | Some attrs \<Rightarrow> map_option snd (map_of attrs i))"

lemma has_object_table:
  assumes env: "meta_env_ok env" and db: "db_ok env db"
    and oid: "oid \<noteq> SAI_NULL_OBJECT_ID" "object_type_query env oid \<noteq> 0"
  shows "has_object env oid db \<longleftrightarrow> oid \<in> table_oids env (ObjectAttrHash db)"
proof -
  let ?mk = "oid_key (object_type_query env oid) oid"
  have "serialize_object_meta_key env ?mk = Inr (meta_key_text env ?mk)"
    by (rule serialize_oid_type [OF env query_oid_type [OF env oid(2)]])
  moreover have "matching env ?mk" "mk_objectkey ?mk = KeyOid oid" "table_ok env (ObjectAttrHash db)"
    using oid db by (simp_all add: matching_def oid_key_def db_ok_def)
  ultimately show ?thesis using present_oid [OF env] by (simp add: has_object_def)
qed

lemma table_oid_valid:
  assumes "table_ok env h" and "oid \<in> table_oids env h"
  shows "oid \<noteq> SAI_NULL_OBJECT_ID \<and> object_type_query env oid \<noteq> 0"
proof -
  obtain k attrs where "(k, attrs) \<in> set h" "mk_objectkey (deserialize_meta_key env k) = KeyOid oid"
    using assms(2) by (auto simp: table_oids_def)
  then show ?thesis using table_ok_objects [OF assms(1)] by (fastforce simp: object_ok_def matching_def)
qed

lemma create_attr_loop_metadata:
  "create_attr_loop env db mk sw attrs seen haskeys = Inr (Inr haskeys') \<Longrightarrow> a \<in> set attrs \<Longrightarrow>
    get_attr_metadata env (mk_objecttype mk) (at_id a) \<noteq> None"
proof (induction attrs arbitrary: seen haskeys)
  case (Cons b attrs)
  then obtain md haskeys1 where "get_attr_metadata env (mk_objecttype mk) (at_id b) = Some md"
    "create_attr_loop env db mk sw attrs (at_id b # seen) haskeys1 = Inr (Inr haskeys')"
    by (auto simp: chk_bind_eq_Inr split: option.splits if_splits)
  then show ?case using Cons.IH Cons.prems(2) by auto
qed simp

lemma get_attr_by_id_member: "get_attr_by_id i attrs = Some a \<Longrightarrow> a \<in> set attrs \<and> at_id a = i"
  by (induction attrs) (auto split: if_splits)



text \<open>What the table keeps of an attribute of an object of a type: the copy of its value, if it can be made.\<close>

definition stored_copy :: "'k meta_env \<Rightarrow> nat \<Rightarrow> meta_attribute \<Rightarrow> meta_value option" where
  "stored_copy env ot a =
     (case get_attr_metadata env ot (at_id a) of
        None \<Rightarrow> None
      | Some md \<Rightarrow> (case copied_value md (at_value a) of Inl e \<Rightarrow> None | Inr v \<Rightarrow> Some v))"

lemma stored_copy_Some:
  "stored_copy env ot a = Some v \<longleftrightarrow>
    (\<exists>md. get_attr_metadata env ot (at_id a) = Some md \<and> copied_value md (at_value a) = Inr v)"
  by (auto simp: stored_copy_def split: option.splits sum.splits)

lemma passed_values:
  "map_option snd (passed env ot attrs i) = Option.bind (get_attr_by_id i attrs) (stored_copy env ot)"
  using get_attr_by_id_member [of i attrs]
  by (auto simp: passed_def stored_copy_def split: option.splits sum.splits)

lemma post_create_copies:
  assumes "post_create_loop env mk attrs haskeys db = Inr r" and "a \<in> set attrs"
  shows "stored_copy env (mk_objecttype mk) a \<noteq> None"
  using assms
proof (induction attrs arbitrary: haskeys db)
  case (Cons b attrs)
  then obtain md db1 db2 where "get_attr_metadata env (mk_objecttype mk) (at_id b) = Some md"
    "set_object env mk md b db1 = Inr db2"
    "post_create_loop env mk attrs (haskeys \<or> HAS_FLAG_KEY md) db2 = Inr r"
    by (auto simp: chk_bind_eq_Inr split: option.splits)
  then show ?case using Cons.IH Cons.prems(2) set_object_Inr [of env mk md b db1 db2]
    by (auto simp: stored_copy_def)
qed simp

text \<open>What is known of a set, a removal and a creation that answered success.\<close>

lemma set_oid_success:
  assumes "meta_sai_set_oid env ot oid attr setf db = Inr (SAI_STATUS_SUCCESS, db')"
  shows "\<exists>a db1. attr = Some a \<and> matching env (oid_key ot oid)
    \<and> meta_generic_validation_set env (oid_key ot oid) attr db = Inr (SAI_STATUS_SUCCESS, db1)
    \<and> meta_generic_validation_post_set env (oid_key ot oid) a db1 = Inr db'"
proof -
  have val: "meta_sai_validate_oid env ot (Some oid) False db = success"
    using assms by (auto simp: meta_sai_set_oid_def set_entry_def chk_bind_eq_Inr split: if_splits)
  obtain db1 where "meta_generic_validation_set env (oid_key ot oid) attr db = Inr (SAI_STATUS_SUCCESS, db1)"
    "\<exists>a. attr = Some a \<and> meta_generic_validation_post_set env (oid_key ot oid) a db1 = Inr db'"
    using assms val
    by (auto simp: meta_sai_set_oid_def set_entry_def chk_bind_eq_Inr Let_def status_defs
        split: if_splits option.splits)
  then show ?thesis using validate_oid_matching [OF val] by blast
qed

lemma remove_oid_success:
  assumes "meta_sai_remove_oid env ot oid remove db = Inr (SAI_STATUS_SUCCESS, db')"
  shows "\<exists>db1. matching env (oid_key ot oid)
    \<and> meta_generic_validation_remove env (oid_key ot oid) db = Inr (SAI_STATUS_SUCCESS, db1)
    \<and> meta_generic_validation_post_remove env (oid_key ot oid) db1 = Inr db'"
proof -
  have val: "meta_sai_validate_oid env ot (Some oid) False db = success"
    using assms by (auto simp: meta_sai_remove_oid_def remove_entry_def chk_bind_eq_Inr split: if_splits)
  obtain db1 where "meta_generic_validation_remove env (oid_key ot oid) db = Inr (SAI_STATUS_SUCCESS, db1)"
    "meta_generic_validation_post_remove env (oid_key ot oid) db1 = Inr db'"
    using assms val
    by (auto simp: meta_sai_remove_oid_def remove_entry_def chk_bind_eq_Inr Let_def status_defs
        split: if_splits option.splits)
  then show ?thesis using validate_oid_matching [OF val] by blast
qed

text \<open>A check of a removal that succeeds keeps the database, for anything but a switch, and found no reference.\<close>

lemma validation_remove_success:
  assumes env: "meta_env_ok env" and db: "db_ok env db" and ot: "ot \<noteq> OT_SWITCH"
    and val: "meta_generic_validation_remove env (oid_key ot oid) db = Inr (SAI_STATUS_SUCCESS, db')"
    and mk: "matching env (oid_key ot oid)"
  shows "db' = db \<and> oid \<notin># table_refs env (ObjectAttrHash db)"
proof -
  have o: "oid_type env ot" "object_type_query env oid = ot"
    using matching_oid_type [OF env mk, of oid] mk by (simp_all add: oid_key_def matching_def)
  then have "ObjectReferences db oid = Some 0 \<and> db' = db"
    using val ot by (auto simp: meta_generic_validation_remove_def chk_bind_eq_Inr Let_def oid_type_def oid_key_def
        mk_oid_def status_defs split: if_splits option.splits)
  then show ?thesis using db
    by (auto simp: db_ok_def table_counts_def counts_def not_in_iff split: if_splits)
qed

section \<open>The properties\<close>

text \<open>C4. In every state that calls and notifications reach, the reference count of an object id is there exactly
  when the object is in the table, and is the number of references that stored attributes and keys hold to
  it.\<close>

theorem meta_counts_exact:
  assumes "meta_env_ok env" and "reachable meta_start (meta_call_ok env) (meta_exec env) db"
  shows "ObjectReferences db oid = (if oid \<in> table_oids env (ObjectAttrHash db)
    then Some (int (count (table_refs env (ObjectAttrHash db)) oid)) else None)"
  using reachable_db_ok [OF assms] by (simp add: db_ok_def table_counts_def counts_def)

theorem meta_counts_exact_witness:
  "2 \<in> table_oids example_env (ObjectAttrHash example_db)
    \<and> int (count (table_refs example_env (ObjectAttrHash example_db)) 2) = 2
    \<and> 4 \<notin> table_oids example_env (ObjectAttrHash example_db)"
  using meta_counts_exact [OF example_env_ok example_reachable, of 2]
    meta_counts_exact [OF example_env_ok example_reachable, of 4] example_references
  by (simp split: if_splits)

text \<open>C6. No reference dangles: every object id that a stored attribute or a key of the table holds is the id of
  an object of the table, found under the type that the id has.\<close>

theorem meta_references_resolved:
  assumes "meta_env_ok env" and "reachable meta_start (meta_call_ok env) (meta_exec env) db"
    and "oid \<in># table_refs env (ObjectAttrHash db)"
  shows "object_type_query env oid \<noteq> 0 \<and> has_object env oid db"
proof -
  have db: "db_ok env db" by (rule reachable_db_ok [OF assms(1,2)])
  then have h: "table_ok env (ObjectAttrHash db)" by (simp add: db_ok_def)
  then have o: "oid \<in> table_oids env (ObjectAttrHash db)" using assms(3) by (auto simp: table_ok_def)
  from table_oid_valid [OF h o] show ?thesis using has_object_table [OF assms(1) db] o by blast
qed

theorem meta_references_resolved_witness: "has_object example_env 2 example_db"
proof -
  have "2 \<in># table_refs example_env (ObjectAttrHash example_db)" by code_simp
  from meta_references_resolved [OF example_env_ok example_reachable this] show ?thesis by simp
qed

text \<open>C5. An object that something refers to is not removed: when the removal of an object, other than the
  switch or a port, succeeds, nothing in the table referred to it, and the table is the old one without
  it.\<close>

theorem used_object_stays:
  assumes "meta_env_ok env" and "reachable meta_start (meta_call_ok env) (meta_exec env) db"
    and "ot \<notin> {OT_SWITCH, OT_PORT}"
    and "meta_sai_remove_oid env ot oid remove db = Inr (SAI_STATUS_SUCCESS, db')"
  shows "oid \<notin># table_refs env (ObjectAttrHash db)
    \<and> ObjectAttrHash db' = AList.delete (meta_key_text env (oid_key ot oid)) (ObjectAttrHash db)"
proof -
  have db: "db_ok env db" by (rule reachable_db_ok [OF assms(1,2)])
  obtain db1 where mk: "matching env (oid_key ot oid)"
    and val: "meta_generic_validation_remove env (oid_key ot oid) db = Inr (SAI_STATUS_SUCCESS, db1)"
    and post: "meta_generic_validation_post_remove env (oid_key ot oid) db1 = Inr db'"
    using remove_oid_success [OF assms(4)] by blast
  have ok: "db1 = db" "oid \<notin># table_refs env (ObjectAttrHash db)"
    using validation_remove_success [OF assms(1) db _ val mk] assms(3) by simp_all
  have ot: "mk_objecttype (oid_key ot oid) \<noteq> OT_SWITCH" "mk_objecttype (oid_key ot oid) \<noteq> OT_PORT"
    using assms(3) by (simp_all add: oid_key_def)
  then obtain attrs db2 where "get_object_attributes env (oid_key ot oid) db = Inr attrs"
    "post_remove_loop env (oid_key ot oid) attrs db = Inr db2"
    "remove_keyed_object env (oid_key ot oid) db2 = Inr db'"
    using post ok(1) by (cases "length (ObjectAttrHash db)")
      (auto simp: meta_generic_validation_post_remove_def chk_bind_eq_Inr)
  from remove_one [OF assms(1) db mk this] obtain k where
    "serialize_object_meta_key env (oid_key ot oid) = Inr k" "db' = removed env k db" by blast
  then show ?thesis using ok(2) serialize_text by (fastforce simp: removed_def)
qed

theorem used_object_stays_witness:
  "3 \<notin># table_refs example_env (ObjectAttrHash example_db)"
proof -
  have "(case meta_sai_remove_oid example_env OT_ROUTER_INTERFACE 3 (Some SAI_STATUS_SUCCESS) example_db of
      Inr (status, db') \<Rightarrow> status = SAI_STATUS_SUCCESS | Inl e \<Rightarrow> False)" by code_simp
  then obtain db' where "meta_sai_remove_oid example_env OT_ROUTER_INTERFACE 3 (Some SAI_STATUS_SUCCESS) example_db
      = Inr (SAI_STATUS_SUCCESS, db')" by (auto split: sum.splits)
  then show ?thesis
    using used_object_stays [OF example_env_ok example_reachable, of OT_ROUTER_INTERFACE 3]
    by (simp add: object_type_numbers)
qed

text \<open>C7. An object that nothing refers to can be removed: the call returns, whatever the object refers to, and
  leaves the table without the object. The object must not be the switch or a port with other objects to
  remove, and must have no attribute of a type that the removal does not support.\<close>

theorem unused_object_removed:
  assumes "meta_env_ok env" and "reachable meta_start (meta_call_ok env) (meta_exec env) db"
    and "object_type_query env oid = ot" and "ot \<notin> {0, OT_SWITCH}" and "oid \<noteq> SAI_NULL_OBJECT_ID"
    and "map_of (ObjectAttrHash db) (meta_key_text env (oid_key ot oid)) = Some attrs"
    and "\<forall>(i, md, v) \<in> set attrs. ma_attrvaluetype md \<notin> {AV_VLAN_LIST, AV_ACL_CAPABILITY}"
    and "oid \<notin># table_refs env (ObjectAttrHash db)"
    and "map_port_to_related_set db oid = None"
  shows "meta_sai_remove_oid env ot oid (Some SAI_STATUS_SUCCESS) db
    = Inr (SAI_STATUS_SUCCESS, removed env (meta_key_text env (oid_key ot oid)) db)"
proof -
  let ?mk = "oid_key ot oid"
  let ?k = "meta_key_text env ?mk"
  have db: "db_ok env db" by (rule reachable_db_ok [OF assms(1,2)])
  have mk: "matching env ?mk" "mk_objectkey ?mk = KeyOid oid" "mk_oid ?mk = oid" "mk_objecttype ?mk = ot"
    using assms(3-5) by (simp_all add: matching_def oid_key_def mk_oid_def)
  have ot: "oid_type env ot" using matching_oid_type [OF assms(1) mk(1,2)] mk(4) by simp
  then obtain info where info: "object_infos env ot = Some info" "\<not> info_isnonobjectid info"
    by (auto simp: oid_type_def)
  have k: "serialize_object_meta_key env ?mk = Inr ?k" by (rule serialize_oid_type [OF assms(1) ot])
  have ex: "object_exists env ?mk db = Inr True" using k assms(6) by (simp add: object_exists_def object_key_exists_def)
  have h: "table_ok env (ObjectAttrHash db)" using db by (simp add: db_ok_def)
  have "oid \<in> table_oids env (ObjectAttrHash db)" using present_oid [OF assms(1) h mk(1) k mk(2)] assms(6) by simp
  then have n: "ObjectReferences db oid = Some 0"
    using db assms(8) by (simp add: db_ok_def table_counts_def counts_def not_in_iff)
  have val: "meta_generic_validation_remove env ?mk db = Inr (SAI_STATUS_SUCCESS, db)"
    using ex info n assms(3-5,9) mk(3,4)
    by (simp add: meta_generic_validation_remove_def meta_port_remove_validation_def mk_oid_def oid_key_def)
  have types: "\<forall>(i, md, v) \<in> set attrs. ma_attrvaluetype md \<in> set stored_types"
    using assms(7) stored_attrs(1) [OF assms(1) db mk(1) k assms(6)]
    by (fastforce simp: stored_ok_def writable_types_def)
  have "meta_generic_validation_post_remove env ?mk db = Inr (removed env ?k db)"
    using assms(4,8,9) mk by (intro post_remove_returns [OF assms(1) db mk(1) k assms(6) types]) auto
  moreover have "meta_sai_validate_oid env ot (Some oid) False db = success"
    using info ex assms(3-5) by (simp add: meta_sai_validate_oid_def member_check_def Let_def)
  ultimately show ?thesis using val by (simp add: meta_sai_remove_oid_def remove_entry_def)
qed

theorem unused_object_removed_witness:
  "meta_sai_remove_oid example_env OT_ROUTER_INTERFACE 3 (Some SAI_STATUS_SUCCESS) example_db
    = Inr (SAI_STATUS_SUCCESS, removed example_env (oid_key OT_ROUTER_INTERFACE 3) example_db)"
proof -
  let ?k = "oid_key OT_ROUTER_INTERFACE 3"
  have "(case map_of (ObjectAttrHash example_db) ?k of None \<Rightarrow> False
      | Some attrs \<Rightarrow> list_all (\<lambda>(i, md, v). ma_attrvaluetype md \<notin> {AV_VLAN_LIST, AV_ACL_CAPABILITY}) attrs)"
    by code_simp
  then obtain attrs where attrs: "map_of (ObjectAttrHash example_db) ?k = Some attrs"
    "\<forall>(i, md, v) \<in> set attrs. ma_attrvaluetype md \<notin> {AV_VLAN_LIST, AV_ACL_CAPABILITY}"
    by (auto simp: list_all_iff split: option.splits)
  have "3 \<notin># table_refs example_env (ObjectAttrHash example_db)" "map_port_to_related_set example_db 3 = None"
    by code_simp+
  moreover have "meta_key_text example_env ?k = ?k" "object_type_query example_env 3 = OT_ROUTER_INTERFACE"
    by (simp_all add: example_env_def example_type_def)
  ultimately show ?thesis
    using unused_object_removed [OF example_env_ok example_reachable, of 3 OT_ROUTER_INTERFACE attrs] attrs
    by (simp add: object_type_numbers SAI_NULL_OBJECT_ID_def)
qed

text \<open>C11. A set that succeeds stores the value for the attribute of the object, as the copy that goes through
  its text (character data up to its end, lists cut to their count, nothing of a disabled ACL field or
  action), and changes no other attribute of any object.\<close>

theorem set_stores_value:
  assumes "meta_env_ok env" and "reachable meta_start (meta_call_ok env) (meta_exec env) db"
    and "meta_sai_set_oid env ot oid (Some a) setf db = Inr (SAI_STATUS_SUCCESS, db')"
  shows "\<exists>v. stored_copy env ot a = Some v
    \<and> (\<forall>k i. stored_value db' k i = (if k = meta_key_text env (oid_key ot oid) \<and> i = at_id a
         then Some v else stored_value db k i))"
proof -
  have db: "db_ok env db" by (rule reachable_db_ok [OF assms(1,2)])
  obtain db1 where mk: "matching env (oid_key ot oid)"
    and val: "meta_generic_validation_set env (oid_key ot oid) (Some a) db = Inr (SAI_STATUS_SUCCESS, db1)"
    and post: "meta_generic_validation_post_set env (oid_key ot oid) a db1 = Inr db'"
    using set_oid_success [OF assms(3)] by blast
  have db1: "db_ok env db1" by (rule validation_set_keeps [OF db val])
  have "ObjectAttrHash db1 = ObjectAttrHash db"
    using val by (auto simp: meta_generic_validation_set_def chk_bind_eq_Inr Let_def
        meta_unittests_get_and_erase_set_readonly_flag_def split: if_splits option.splits)
  moreover obtain md k0 v where "serialize_object_meta_key env (oid_key ot oid) = Inr k0"
    and "map_of (ObjectAttrHash db1) k0 \<noteq> None"
    and "get_attr_metadata env ot (at_id a) = Some md" and "copied_value md (at_value a) = Inr v"
    and "ObjectAttrHash db' = stored_table k0 (at_id a) md v (ObjectAttrHash db1)"
    using post_set_table [OF assms(1) db1 mk post] by (auto simp: oid_key_def)
  moreover have "k0 = meta_key_text env (oid_key ot oid)"
    if "serialize_object_meta_key env (oid_key ot oid) = Inr k0" for k0 by (rule serialize_text [OF that])
  ultimately show ?thesis
    by (intro exI [of _ v])
      (auto simp: stored_value_def stored_table_def update_conv' stored_copy_def split: option.splits)
qed

theorem set_stores_value_witness:
  "\<exists>db'. meta_sai_set_oid example_env OT_ROUTER_INTERFACE 3 (Some \<lparr>at_id = 1, at_value = oid_value 2\<rparr>)
      (Some (\<lambda>_. SAI_STATUS_SUCCESS)) example_db = Inr (SAI_STATUS_SUCCESS, db')
    \<and> stored_value db' (oid_key OT_ROUTER_INTERFACE 3) 1 = Some (zero_value\<lparr>mv_oid := 2\<rparr>)
    \<and> stored_value db' (oid_key OT_ROUTER_INTERFACE 3) 0 = stored_value example_db (oid_key OT_ROUTER_INTERFACE 3) 0"
proof -
  let ?call = "meta_sai_set_oid example_env OT_ROUTER_INTERFACE 3 (Some \<lparr>at_id = 1, at_value = oid_value 2\<rparr>)
      (Some (\<lambda>_. SAI_STATUS_SUCCESS)) example_db"
  have "(case ?call of Inr (status, db') \<Rightarrow> status = SAI_STATUS_SUCCESS | Inl e \<Rightarrow> False)" by code_simp
  then obtain db' where call: "?call = Inr (SAI_STATUS_SUCCESS, db')" by (auto split: sum.splits)
  have "meta_key_text example_env (oid_key OT_ROUTER_INTERFACE 3) = oid_key OT_ROUTER_INTERFACE 3"
    by (simp add: example_env_def)
  moreover have "stored_copy example_env OT_ROUTER_INTERFACE \<lparr>at_id = 1, at_value = oid_value 2\<rparr>
      = Some (zero_value\<lparr>mv_oid := 2\<rparr>)" by code_simp
  ultimately show ?thesis using call set_stores_value [OF example_env_ok example_reachable call] by auto
qed

text \<open>C10. A creation that succeeds enters a new object with exactly the attributes passed, each with the copy of
  its value that goes through its text, and changes no other object.\<close>

theorem create_stores_attributes:
  assumes "meta_env_ok env" and "reachable meta_start (meta_call_ok env) (meta_exec env) db"
    and "meta_call_ok env (CreateOid garbage ot object_id sw n attrs create) db"
    and "meta_sai_create_oid env garbage ot object_id sw n attrs create db = Inr (SAI_STATUS_SUCCESS, Some oid, db')"
  shows "\<not> has_object env oid db \<and> has_object env oid db'
    \<and> (\<forall>a \<in> set (meta_attr_array n attrs). stored_copy env ot a \<noteq> None)
    \<and> (\<forall>k i. stored_value db' k i = (if k = meta_key_text env (oid_key ot oid)
         then Option.bind (get_attr_by_id i (meta_attr_array n attrs)) (stored_copy env ot)
         else stored_value db k i))"
proof -
  have db: "db_ok env db" by (rule reachable_db_ok [OF assms(1,2)])
  obtain vendor where v: "create = Some vendor" "vendor (meta_attr_array n attrs) = (SAI_STATUS_SUCCESS, oid)"
    and val: "meta_sai_validate_oid env ot object_id True db = success"
      "meta_generic_validation_create env (oid_key ot SAI_NULL_OBJECT_ID) sw n attrs db = success"
    and post: "meta_generic_validation_post_create env garbage (oid_key ot oid)
      (if ot = OT_SWITCH then oid else sw) n attrs db = Inr db'"
    using assms(4) by (auto simp: meta_sai_create_oid_def chk_bind_eq_Inr and_then_eq_Inr Let_def status_defs
        split: if_splits option.splits prod.splits)
  have created: "created_ok env ot sw oid" using assms(3) v by simp
  note mk = created_matching [OF created] and sw = created_on_switch [OF created val]
  note ids = validation_create_success(1) [OF val(2)]
  obtain k stored where k: "serialize_object_meta_key env (oid_key ot oid) = Inr k"
    and new: "map_of (ObjectAttrHash db) k = None"
    and h: "map_of (ObjectAttrHash db') = (map_of (ObjectAttrHash db))(k \<mapsto> stored)"
    and stored: "map_of stored = passed env ot (meta_attr_array n attrs)"
    using post_create_table [OF assms(1) db mk sw ids post] by (auto simp: oid_key_def)
  have copies: "stored_copy env ot a \<noteq> None" if "a \<in> set (meta_attr_array n attrs)" for a
    using that post post_create_copies
    by (fastforce simp: meta_generic_validation_post_create_def chk_bind_eq_Inr Let_def oid_key_def)
  note vals = passed_values [of env ot "meta_attr_array n attrs"]
  have "k = meta_key_text env (oid_key ot oid)" by (rule serialize_text [OF k])
  moreover have "object_type_query env oid = ot" using created by (simp add: created_ok_def)
  ultimately show ?thesis using new h stored vals copies by (simp add: has_object_def stored_value_def)
qed

theorem create_stores_attributes_witness:
  "\<exists>db'. meta_sai_create_oid example_env False OT_ROUTER_INTERFACE (Some 0) 1 1 (Some rif_attrs)
      (Some (\<lambda>_. (SAI_STATUS_SUCCESS, 4))) example_db = Inr (SAI_STATUS_SUCCESS, Some 4, db')
    \<and> has_object example_env 4 db' \<and> stored_value db' (oid_key OT_ROUTER_INTERFACE 4) 0 = Some (zero_value\<lparr>mv_oid := 2\<rparr>)"
proof -
  let ?call = "meta_sai_create_oid example_env False OT_ROUTER_INTERFACE (Some 0) 1 1 (Some rif_attrs)
      (Some (\<lambda>_. (SAI_STATUS_SUCCESS, 4))) example_db"
  have "(case ?call of Inr (status, oid, db') \<Rightarrow> status = SAI_STATUS_SUCCESS \<and> oid = Some 4 | Inl e \<Rightarrow> False)"
    by code_simp
  then obtain db' where call: "?call = Inr (SAI_STATUS_SUCCESS, Some 4, db')" by (auto split: sum.splits)
  have "meta_key_text example_env (oid_key OT_ROUTER_INTERFACE 4) = oid_key OT_ROUTER_INTERFACE 4"
    by (simp add: example_env_def)
  moreover have "Option.bind (get_attr_by_id 0 (meta_attr_array 1 (Some rif_attrs)))
      (stored_copy example_env OT_ROUTER_INTERFACE) = Some (zero_value\<lparr>mv_oid := 2\<rparr>)" by code_simp
  ultimately show ?thesis
    using call create_stores_attributes [OF example_env_ok example_reachable _ call] created_examples(4)
    by simp
qed

text \<open>C27. Removing the switch succeeds whenever it is in the table: a switch that something refers to clears the
  whole database, one that nothing refers to stays in it.\<close>

theorem switch_removal:
  assumes "meta_env_ok env" and "reachable meta_start (meta_call_ok env) (meta_exec env) db"
    and "object_type_query env oid = OT_SWITCH" and "oid \<noteq> SAI_NULL_OBJECT_ID" and "has_object env oid db"
  shows "meta_sai_remove_oid env OT_SWITCH oid (Some SAI_STATUS_SUCCESS) db
    = Inr (SAI_STATUS_SUCCESS, if oid \<in># table_refs env (ObjectAttrHash db) then meta_init_db db else db)"
proof -
  let ?mk = "oid_key OT_SWITCH oid"
  have db: "db_ok env db" by (rule reachable_db_ok [OF assms(1,2)])
  have sw: "OT_SWITCH \<noteq> 0" "OT_SWITCH \<noteq> OT_PORT" by (simp_all add: OT_SWITCH_def OT_PORT_def)
  have "oid_type env OT_SWITCH" using query_oid_type [OF assms(1), of oid] assms(3) sw by simp
  then obtain info where info: "object_infos env OT_SWITCH = Some info" "\<not> info_isnonobjectid info"
    by (auto simp: oid_type_def)
  have "serialize_object_meta_key env ?mk = Inr (meta_key_text env ?mk)"
    by (rule serialize_oid_type [OF assms(1) \<open>oid_type env OT_SWITCH\<close>])
  then have ex: "object_exists env ?mk db = Inr True"
    using assms(3,5) by (simp add: object_exists_def object_key_exists_def has_object_def)
  have "oid \<in> table_oids env (ObjectAttrHash db)" using has_object_table [OF assms(1) db] assms(3-5) sw by simp
  then have n: "ObjectReferences db oid = Some (int (count (table_refs env (ObjectAttrHash db)) oid))"
    using db by (simp add: db_ok_def table_counts_def counts_def)
  have "meta_generic_validation_remove env ?mk db = Inr (SAI_STATUS_SUCCESS,
      if oid \<in># table_refs env (ObjectAttrHash db) then meta_init_db db else db)"
    using ex info n assms(3,4) sw
    by (simp add: meta_generic_validation_remove_def mk_oid_def oid_key_def count_eq_zero_iff)
  moreover have "meta_generic_validation_post_remove env ?mk db' = Inr db'" for db'
    by (cases "length (ObjectAttrHash db')") (simp_all add: meta_generic_validation_post_remove_def oid_key_def)
  moreover have "meta_sai_validate_oid env OT_SWITCH (Some oid) False db = success"
    using info ex assms(3,4) sw by (simp add: meta_sai_validate_oid_def member_check_def Let_def)
  ultimately show ?thesis by (simp add: meta_sai_remove_oid_def remove_entry_def)
qed

theorem switch_removal_witness:
  "meta_sai_remove_oid example_env OT_SWITCH 1 (Some SAI_STATUS_SUCCESS) example_db
    = Inr (SAI_STATUS_SUCCESS, meta_init_db example_db)"
proof -
  have "1 \<in># table_refs example_env (ObjectAttrHash example_db)" "has_object example_env 1 example_db"
    by code_simp+
  then show ?thesis using switch_removal [OF example_env_ok example_reachable, of 1]
    by (simp add: example_env_def example_type_def SAI_NULL_OBJECT_ID_def)
qed

text \<open>C26. The check of a list of object ids, for lists the caller's array holds and that are not too long: a list
  is accepted only if each id in it is one the attribute may name and none but NULL comes twice. Such a
  list without NULL is accepted when its objects are of one type, and also when there are two objects of
  different types.\<close>

theorem objlist_checked:
  assumes "readable l" and "snd l \<noteq> None" and "unat (fst l) \<le> MAX_LIST_COUNT"
  shows "(meta_generic_validation_objlist env db md sw l = success \<longrightarrow>
      (\<forall>oid \<in> set (list_oids l). nameable env db md sw oid) \<and> distinct (nonnull (list_oids l)))
    \<and> ((\<forall>oid \<in> set (list_oids l). nameable env db md sw oid \<and> oid \<noteq> SAI_NULL_OBJECT_ID)
      \<and> distinct (list_oids l)
      \<and> (length (list_oids l) \<le> 2 \<or> (\<exists>ot. \<forall>oid \<in> set (list_oids l). object_type_query env oid = ot))
      \<longrightarrow> meta_generic_validation_objlist env db md sw l = success)"
proof -
  have "meta_generic_validation_objlist env db md sw l = objlist_loop env db md sw (map Inr (list_oids l)) 0 [] 0"
    using assms items_readable [OF assms(1)] by (cases "snd l") (simp_all add: meta_generic_validation_objlist_def)
  then show ?thesis
    using objlist_loop_sound [of env db md sw "list_oids l" 0 "[]" 0]
      objlist_loop_complete [of "list_oids l" env db md sw "[]" 0 _ 0] by auto
qed

theorem objlist_checked_witness:
  "meta_generic_validation_objlist example_env example_db
     (example_attr OT_ROUTER_INTERFACE 1 AV_OBJECT_LIST 4 [OT_VIRTUAL_ROUTER, OT_ROUTER_INTERFACE]) 1
     (2, Some [2, 3]) = success"
proof -
  let ?md = "example_attr OT_ROUTER_INTERFACE 1 AV_OBJECT_LIST 4 [OT_VIRTUAL_ROUTER, OT_ROUTER_INTERFACE]"
  have "nameable example_env example_db ?md 1 2" "nameable example_env example_db ?md 1 3" by code_simp+
  then have ids: "(\<forall>oid \<in> set [2, 3]. nameable example_env example_db ?md 1 oid \<and> oid \<noteq> SAI_NULL_OBJECT_ID)
      \<and> distinct [2, 3 :: u64] \<and> (length [2, 3 :: u64] \<le> 2
        \<or> (\<exists>ot. \<forall>oid \<in> set [2, 3]. object_type_query example_env oid = ot))"
    by (simp add: SAI_NULL_OBJECT_ID_def)
  have l: "list_oids (2, Some [2, 3]) = [2, 3]" by (simp add: list_oids_def)
  show ?thesis
    using ids by (intro objlist_checked [THEN conjunct2, THEN mp, unfolded l])
      (simp_all only: l, simp_all add: readable_def MAX_LIST_COUNT_def)
qed

text \<open>C25. The length found for a mask is the prefix length whose mask it is: it is found for exactly the masks
  that a prefix length up to the size of the address makes, and throws for the others.\<close>

theorem ip_mask_exact:
  assumes "length m = (if v6 then 16 else 4)"
  shows "(get_ip_mask m v6 = Inr b \<longleftrightarrow> sai_populate_ip_mask b v6 = Inr m)
    \<and> (get_ip_mask m v6 = Inl Thrown \<longleftrightarrow> (\<nexists>b. sai_populate_ip_mask b v6 = Inr m))"
  using get_ip_mask_exact [OF assms] get_ip_mask_thrown [OF assms] by fastforce

theorem ip_mask_exact_witness: "get_ip_mask [255, 255, 240, 0] False = Inr 20 \<and> get_ip_mask [255, 0, 255, 0] False = Inl Thrown
    \<and> (\<nexists>b. sai_populate_ip_mask b False = Inr [255, 0, 255, 0])"
proof -
  have "sai_populate_ip_mask 20 False = Inr [255, 255, 240, 0]" "get_ip_mask [255, 0, 255, 0] False = Inl Thrown"
    by code_simp+
  then show ?thesis
    using ip_mask_exact [of "[255, 255, 240, 0]" False 20] ip_mask_exact [of "[255, 0, 255, 0]" False] by simp
qed

text \<open>C39. Entries of four of the seven kinds are never created, removed or set, since their keys have no text:
  the calls throw or answer a failure.\<close>

theorem unsupported_entries_refused:
  assumes "meta_env_ok env" and "unsupported e"
  shows "create_call env garbage e n attrs create db \<noteq> Inr (SAI_STATUS_SUCCESS, db')
    \<and> remove_call env e remove db \<noteq> Inr (SAI_STATUS_SUCCESS, db')
    \<and> set_call env e attr setf db \<noteq> Inr (SAI_STATUS_SUCCESS, db')"
proof -
  have "SAI_STATUS_INVALID_PARAMETER \<noteq> SAI_STATUS_SUCCESS" by (simp add: status_defs)
  then show ?thesis using assms(2) unsupported_keys [OF assms(1)]
    by (cases e) (auto simp: entry_calls no_text_no_success split: option.splits)
qed

theorem unsupported_entries_refused_witness:
  "\<forall>db'. meta_sai_create_inseg_entry example_env False (Some \<lparr>inseg_switch_id = 1, inseg_label = 100\<rparr>) 0 None
     (Some (\<lambda>_. SAI_STATUS_SUCCESS)) example_db \<noteq> Inr (SAI_STATUS_SUCCESS, db')"
  using unsupported_entries_refused [OF example_env_ok, of "Inseg (Some \<lparr>inseg_switch_id = 1, inseg_label = 100\<rparr>)"]
  by simp

text \<open>C40. A route whose IPv4 mask has holes is not refused: the call, once it has found the virtual router,
  throws, because the check of the prefix looks at the mask of an IPv6 prefix only.\<close>

theorem route_mask_throws:
  assumes "meta_env_ok env" and "route_destination e = PrefixV4 a m"
    and "\<nexists>b. sai_populate_ip_mask b False = Inr (le_bytes 4 m)"
    and "member_check env [OT_VIRTUAL_ROUTER] (route_vr_id e) db = success"
  shows "meta_sai_create_route_entry env garbage (Some e) n attrs create db = Inl Thrown"
  using hole_has_no_text [OF assms(1-3)] assms(2,4)
  by (simp add: meta_sai_create_route_entry_def create_entry_def meta_sai_validate_route_entry_def
      entry_exists_check_def object_exists_def and_then_def)

theorem route_mask_throws_witness:
  "meta_sai_create_route_entry example_env False
     (Some \<lparr>route_switch_id = 1, route_vr_id = 2, route_destination = PrefixV4 10 0x00FF00FF\<rparr>) 0 None
     (Some (\<lambda>_. SAI_STATUS_SUCCESS)) example_db = Inl Thrown"
proof -
  have "get_ip_mask (le_bytes 4 (0x00FF00FF :: u32)) False = Inl Thrown" by code_simp
  moreover have "length (le_bytes 4 (0x00FF00FF :: u32)) = 4" by code_simp
  ultimately have "\<nexists>b. sai_populate_ip_mask b False = Inr (le_bytes 4 (0x00FF00FF :: u32))"
    using get_ip_mask_exact [of "le_bytes 4 (0x00FF00FF :: u32)" False] by auto
  moreover have "member_check example_env [OT_VIRTUAL_ROUTER] 2 example_db = success" by code_simp
  ultimately show ?thesis by (intro route_mask_throws [OF example_env_ok, where a = 10]) simp_all
qed

end
