(* ===== verification/MetaRecord.thy ===== *)
theory MetaRecord
  imports MetaProperties
begin

text \<open>
  The checks before a call are enough for the recording after it: once the check has answered success and the
  vendor has done the work, taking the references and storing the attributes throws no exception.
\<close>

section \<open>Checked values\<close>

text \<open>A list whose ids can be read, and are NULL or known.\<close>

definition known_items :: "'k meta_db \<Rightarrow> object_list \<Rightarrow> bool" where
  "known_items db l \<longleftrightarrow> (\<exists>oids. list_items l = map Inr oids
     \<and> (\<forall>oid \<in> set oids. oid \<noteq> SAI_NULL_OBJECT_ID \<longrightarrow> object_reference_exists oid db))"

lemma known_none [simp]: "known_items db (0, x)"
  by (simp add: known_items_def)

lemma known_null [simp]: "known_items db (one_oid SAI_NULL_OBJECT_ID)"
  unfolding known_items_def by (intro exI [of _ "[SAI_NULL_OBJECT_ID]"]) simp

lemma objlist_loop_known:
  "objlist_loop env db md sw xs i oids t = success \<Longrightarrow> \<exists>ys. xs = map Inr ys
    \<and> (\<forall>oid \<in> set ys. oid \<noteq> SAI_NULL_OBJECT_ID \<longrightarrow> object_reference_exists oid db)"
proof (induction xs arbitrary: i oids t)
  case (Cons x xs)
  then obtain oid where x: "x = Inr oid" by (auto simp: chk_bind_eq_Inr)
  with Cons.prems obtain i' oids' t' where "objlist_loop env db md sw xs i' oids' t' = success"
    and o: "oid \<noteq> SAI_NULL_OBJECT_ID \<longrightarrow> object_reference_exists oid db"
    by (auto simp: status_defs Let_def split: if_splits)
  with Cons.IH obtain ys where "xs = map Inr ys"
    "\<forall>oid \<in> set ys. oid \<noteq> SAI_NULL_OBJECT_ID \<longrightarrow> object_reference_exists oid db" by blast
  then show ?case using x o by (intro exI [of _ "oid # ys"]) simp
qed simp

lemma objlist_known: "meta_generic_validation_objlist env db md sw l = success \<Longrightarrow> known_items db l"
  using objlist_loop_known [of env db md sw "list_items l" 0 "[]" 0]
  by (cases "snd l") (auto simp: meta_generic_validation_objlist_def known_items_def list_items_def status_defs
      split: if_splits)

definition setable_types :: "attr_value_type list" where
  "setable_types = AV_ACL_CAPABILITY # stored_types"

lemma set_value_known:
  assumes "set_value_check env db md sw v = success"
  shows "ma_attrvaluetype md \<in> set setable_types" "known_items db (value_list (ma_attrvaluetype md) v)"
  using assms objlist_known [of env db md sw]
  by (cases "ma_attrvaluetype md"; auto simp: set_value_check_def value_list_def acl_value_check_def acl_types_def
      type_lists setable_types_def Let_def split: if_splits)+

lemma create_value_known:
  assumes "create_value_check env db md sw v = success"
  shows "ma_attrvaluetype md \<in> set stored_types" "known_items db (value_list (ma_attrvaluetype md) v)"
  using assms objlist_known [of env db md sw]
  by (cases "ma_attrvaluetype md"; auto simp: create_value_check_def value_list_def acl_value_check_def acl_types_def
      type_lists Let_def split: if_splits)+

section \<open>Taking and giving back references\<close>

lemma known_taken:
  assumes "known_items db l" and "ObjectReferences db = counts D M'"
  shows "\<exists>db'. for_each object_reference_inc (list_items l) (with_refs (counts D M) db) = Inr db'"
proof -
  from assms obtain oids where l: "list_items l = map Inr oids"
    "\<forall>oid \<in> set oids. oid \<noteq> SAI_NULL_OBJECT_ID \<longrightarrow> oid \<in> D" by (auto simp: known_items_def)
  then have "set_mset (not_null oids) \<subseteq> D" by (auto simp: not_null_def)
  from inc_counts_each [OF this, of M db] show ?thesis using l by simp
qed

lemma set_references_both:
  fixes db :: "'k meta_db"
  assumes "ma_attrvaluetype md \<in> set setable_types"
    and "(case previous of None \<Rightarrow> Inr db
      | Some p \<Rightarrow> for_each object_reference_dec (list_items (value_list (ma_attrvaluetype md) p)) db) = Inr db1"
    and "for_each object_reference_inc (list_items (value_list (ma_attrvaluetype md) v)) db1 = Inr db'"
  shows "set_references md previous v db = Inr db'"
proof -
  have nil: "for_each f [] = Inr" for f :: "u64 \<Rightarrow> 'k meta_db \<Rightarrow> 'k meta_db checked" by (rule ext) simp
  have one: "chk_bind r Inr = r" for r :: "'k meta_db checked" by (cases r) simp_all
  let ?vt = "ma_attrvaluetype md"
  consider (oid) "?vt = AV_OBJECT_ID" | (list) "?vt = AV_OBJECT_LIST"
    | (data) "?vt \<in> {AV_ACL_FIELD_DATA_OBJECT_ID, AV_ACL_ACTION_DATA_OBJECT_ID}"
    | (data_list) "?vt \<in> {AV_ACL_FIELD_DATA_OBJECT_LIST, AV_ACL_ACTION_DATA_OBJECT_LIST}"
    | (none) "?vt \<notin> {AV_OBJECT_ID, AV_OBJECT_LIST, AV_ACL_FIELD_DATA_OBJECT_ID, AV_ACL_ACTION_DATA_OBJECT_ID,
        AV_ACL_FIELD_DATA_OBJECT_LIST, AV_ACL_ACTION_DATA_OBJECT_LIST}" by blast
  then show ?thesis
  proof cases
    case none
    then have "set_references md previous v db = Inr db"
      using assms(1) by (auto simp: set_references_def setable_types_def type_lists)
    moreover have "value_list ?vt w = (0, None)" for w using none by (auto simp: value_list_def)
    ultimately show ?thesis using assms(2,3) by (cases previous) auto
  next
    case data
    then show ?thesis using assms(2,3)
      by (cases previous; cases "mv_enable v"; cases "mv_enable (the previous)")
        (auto simp: set_references_def value_list_def type_lists nil one)
  next
    case data_list
    then show ?thesis using assms(2,3)
      by (cases previous; cases "mv_enable v"; cases "mv_enable (the previous)")
        (auto simp: set_references_def value_list_def type_lists object_reference_inc_list_def
          object_reference_dec_list_def)
  qed (use assms(2,3) in \<open>cases previous; simp add: set_references_def value_list_def type_lists
      object_reference_inc_list_def object_reference_dec_list_def nil one\<close>)+
qed

lemma create_references_stored:
  "ma_attrvaluetype md \<in> set stored_types \<Longrightarrow>
    create_references md v db = for_each object_reference_inc (list_items (value_list (ma_attrvaluetype md) v)) db"
  by (cases "ma_attrvaluetype md")
    (auto simp: create_references_def value_list_def type_lists object_reference_inc_list_def chk_bind_def
      split: sum.splits)

section \<open>Set\<close>

lemma value_refs_stored:
  assumes env: "meta_env_ok env" and db: "db_ok env db" and mk: "matching env mk"
    and k: "serialize_object_meta_key env mk = Inr k" and attrs: "map_of (ObjectAttrHash db) k = Some attrs"
    and i: "map_of attrs i = Some (md, p)"
  shows "readable (value_list (ma_attrvaluetype md) p)"
    and "value_refs (ma_attrvaluetype md) p \<subseteq># table_refs env (ObjectAttrHash db)"
proof -
  note st = stored_attrs [OF env db mk k attrs]
  show "readable (value_list (ma_attrvaluetype md) p)"
    using st(1) map_of_SomeD [OF i] by (fastforce simp: stored_ok_def)
  have "distinct (map fst (ObjectAttrHash db))" using db by (simp add: db_ok_def table_ok_def)
  from table_refs_delete [OF this attrs, of env]
  show "value_refs (ma_attrvaluetype md) p \<subseteq># table_refs env (ObjectAttrHash db)"
    using attr_refs_delete [OF st(2) i] by (simp add: object_refs_def ac_simps)
qed

lemma post_set_returns:
  assumes env: "meta_env_ok env" and db: "db_ok env db" and mk: "matching env mk"
    and md: "get_attr_metadata env (mk_objecttype mk) (at_id a) = Some md"
    and ex: "object_exists env mk db = Inr True"
    and vt: "ma_attrvaluetype md \<in> set setable_types" and v: "known_items db (value_list (ma_attrvaluetype md) (at_value a))"
    and ser: "copied_value md (at_value a) = Inr w"
  shows "\<exists>db'. meta_generic_validation_post_set env mk a db = Inr db'"
proof -
  let ?h = "ObjectAttrHash db"
  let ?vt = "ma_attrvaluetype md" and ?D = "table_oids env ?h" and ?M = "table_refs env ?h"
  obtain k attrs where k: "serialize_object_meta_key env mk = Inr k" and attrs: "map_of ?h k = Some attrs"
    using ex by (auto simp: object_exists_def object_key_exists_def chk_bind_eq_Inr)
  have c: "ObjectReferences db = counts ?D ?M" and sub: "set_mset ?M \<subseteq> ?D"
    using db by (simp_all add: db_ok_def table_ok_def table_counts_def)
  let ?previous = "map_option snd (map_of attrs (at_id a))"
  have prev: "get_object_previous_attr env mk md db = Inr ?previous"
    using k attrs metadata_id [OF md] by (simp add: get_object_previous_attr_def)
  obtain M where dec: "(case ?previous of None \<Rightarrow> Inr db
      | Some p \<Rightarrow> for_each object_reference_dec (list_items (value_list ?vt p)) db) = Inr (with_refs (counts ?D M) db)"
  proof (cases "map_of attrs (at_id a)")
    case None
    then show thesis using that [of ?M] c by simp
  next
    case (Some q)
    then have "get_attr_metadata env (mk_objecttype mk) (at_id a) = Some (fst q)"
      using stored_attrs(1) [OF env db mk k attrs] map_of_SomeD by (fastforce simp: stored_ok_def)
    then have i: "map_of attrs (at_id a) = Some (md, snd q)" using md Some by (cases q) simp
    note p = value_refs_stored [OF env db mk k attrs i]
    show thesis
      using that [of "?M - value_refs ?vt (snd q)"] dec_counts_each [OF sub, of "list_oids (value_list ?vt (snd q))" db]
        p(2) items_readable [OF p(1)] i c by (simp add: value_refs_def)
  qed
  obtain db' where inc: "for_each object_reference_inc (list_items (value_list ?vt (at_value a)))
      (with_refs (counts ?D M) db) = Inr db'" using known_taken [OF v c] by blast
  have "ObjectAttrHash db' = ?h" using refs_keep_hash [OF inc_keeps_hash inc] by simp
  then have "\<exists>db''. set_object env mk md a db' = Inr db''" using k attrs ser by (simp add: set_object_def)
  then show ?thesis using md prev set_references_both [OF vt dec inc]
    by (auto simp: meta_generic_validation_post_set_def)
qed

lemma set_checks_success:
  assumes "set_checks env db mk md v = success"
  shows "(\<exists>sw. set_value_check env db md sw v = success) \<and> object_exists env mk db = Inr True"
proof -
  have "\<not> HAS_FLAG_CREATE_ONLY md" "\<not> HAS_FLAG_KEY md"
    using assms by (auto simp: set_checks_def status_defs split: if_splits)
  with assms have f: "chk_bind (set_switch_id env db mk) (case_sum Inr (\<lambda>sw. and_then (set_value_check env db md sw v)
      (and_then (enum_check md v)
        (chk_bind (if ma_isconditional md then get_object_previous_attr env mk md db else Inr None)
          (\<lambda>_. exists_as_type env db mk))))) = success"
    by (simp only: set_checks_def if_False)
  have "set_switch_id env db mk \<noteq> Inr (Inl SAI_STATUS_SUCCESS)"
    by (auto simp: set_switch_id_def chk_bind_eq_Inr status_defs Let_def split: option.splits if_splits)
  then obtain sw where "set_value_check env db md sw v = success" "exists_as_type env db mk = success"
    using bind_sum_success [OF f] by (auto simp: and_then_success chk_bind_eq_Inr)
  then show ?thesis by (auto simp: exists_as_type_def chk_bind_eq_Inr status_defs split: if_splits)
qed

lemma validation_set_success:
  assumes "meta_generic_validation_set env mk (Some a) db = Inr (SAI_STATUS_SUCCESS, db1)"
  shows "\<exists>md. get_attr_metadata env (mk_objecttype mk) (at_id a) = Some md
    \<and> set_checks env db1 mk md (at_value a) = success"
  using assms by (auto simp: meta_generic_validation_set_def chk_bind_eq_Inr Let_def status_defs
      split: option.splits if_splits prod.splits)

section \<open>Create\<close>

lemma post_create_loop_returns:
  assumes env: "meta_env_ok env" and mk: "matching env mk" and k: "serialize_object_meta_key env mk = Inr k"
  shows "db_ok env db \<Longrightarrow> map_of (ObjectAttrHash db) k = Some stored \<Longrightarrow>
    distinct (map at_id attrs) \<Longrightarrow> at_id ` set attrs \<inter> fst ` set stored = {} \<Longrightarrow>
    (\<And>a. a \<in> set attrs \<Longrightarrow> \<exists>md. get_attr_metadata env (mk_objecttype mk) (at_id a) = Some md
       \<and> ma_attrvaluetype md \<in> set stored_types \<and> known_items db (value_list (ma_attrvaluetype md) (at_value a))
       \<and> (\<exists>w. copied_value md (at_value a) = Inr w)) \<Longrightarrow>
    \<exists>r. post_create_loop env mk attrs haskeys db = Inr r"
proof (induction attrs arbitrary: stored haskeys db)
  case (Cons a attrs)
  let ?h = "ObjectAttrHash db"
  obtain md w where md: "get_attr_metadata env (mk_objecttype mk) (at_id a) = Some md"
    and vt: "ma_attrvaluetype md \<in> set stored_types" and v: "known_items db (value_list (ma_attrvaluetype md) (at_value a))"
    and ser: "copied_value md (at_value a) = Inr w" using Cons.prems(5) [of a] by auto
  have c: "ObjectReferences db = counts (table_oids env ?h) (table_refs env ?h)"
    using Cons.prems(1) by (simp add: db_ok_def table_counts_def)
  obtain db1 where inc: "for_each object_reference_inc (list_items (value_list (ma_attrvaluetype md) (at_value a))) db
      = Inr db1" using known_taken [OF v c, of "table_refs env ?h"] c by auto
  have refs: "create_references md (at_value a) db = Inr db1" using create_references_stored [OF vt, of "at_value a" db] inc by simp
  have "map_of stored (at_id a) = None" using Cons.prems(4) by (auto simp: map_of_eq_None_iff)
  then have dec: "(case map_option snd (map_of stored (at_id a)) of None \<Rightarrow> Inr db
      | Some p \<Rightarrow> for_each object_reference_dec (list_items (value_list (ma_attrvaluetype md) p)) db) = Inr db"
    by simp
  let ?h1 = "stored_table k (at_id a) md w ?h"
  note st = store_keeps [OF Cons.prems(1) env mk md create_writable [OF refs] k Cons.prems(2) dec
      inc [folded copied_value_items [OF ser]]]
  have set: "set_object env mk md a db1 = Inr (with_table env ?h1 db)"
    using st k Cons.prems(2) ser by (auto simp: set_object_def stored_table_def)
  have oids: "table_oids env ?h1 = table_oids env ?h"
    using table_oids_present [OF Cons.prems(2)] Cons.prems(2) by (simp add: stored_table_def)
  have known: "known_items (with_table env ?h1 db) l = known_items db l" for l
    using oids c by (simp add: known_items_def with_table_def table_counts_def object_reference_exists_def counts_def)
  have "\<exists>r. post_create_loop env mk attrs (haskeys \<or> HAS_FLAG_KEY md) (with_table env ?h1 db) = Inr r"
  proof (rule Cons.IH)
    show "db_ok env (with_table env ?h1 db)" using st by simp
    show "map_of (ObjectAttrHash (with_table env ?h1 db)) k = Some (AList.update (at_id a) (md, w) stored)"
      using Cons.prems(2) by (simp add: stored_table_def update_conv')
    show "at_id ` set attrs \<inter> fst ` set (AList.update (at_id a) (md, w) stored) = {}"
      using Cons.prems(3,4) by (auto simp: dom_update)
  qed (use Cons.prems(3,5) known in auto)
  then show ?case using md refs set by simp
qed simp

text \<open>The key of the attributes can be made again, and without key attributes it is empty.\<close>

lemma create_attr_loop_keys:
  "create_attr_loop env db mk sw attrs seen haskeys = Inr (Inr haskeys') \<Longrightarrow>
    haskeys' \<longleftrightarrow> haskeys \<or> (\<exists>a \<in> set attrs. \<exists>md. get_attr_metadata env (mk_objecttype mk) (at_id a) = Some md \<and> HAS_FLAG_KEY md)"
proof (induction attrs arbitrary: seen haskeys)
  case (Cons a attrs)
  then obtain md where md: "get_attr_metadata env (mk_objecttype mk) (at_id a) = Some md"
    and rest: "create_attr_loop env db mk sw attrs (at_id a # seen) (haskeys \<or> HAS_FLAG_KEY md) = Inr (Inr haskeys')"
    by (auto simp: chk_bind_eq_Inr split: option.splits if_splits)
  from Cons.IH [OF rest] show ?case using md by auto
qed simp

lemma construct_key_loop_keyless:
  assumes "\<And>a. a \<in> set attrs \<Longrightarrow> \<exists>md. get_attr_metadata env (mk_objecttype mk) (at_id a) = Some md \<and> \<not> HAS_FLAG_KEY md"
  shows "construct_key_loop env mk attrs keys = Inr keys"
  using assms
proof (induction attrs)
  case (Cons a attrs)
  obtain md where "get_attr_metadata env (mk_objecttype mk) (at_id a) = Some md" "\<not> HAS_FLAG_KEY md"
    using Cons.prems [of a] by auto
  then show ?case using Cons by simp
qed simp

lemma create_attr_loop_values:
  "create_attr_loop env db mk sw attrs seen haskeys = Inr (Inr haskeys') \<Longrightarrow> a \<in> set attrs \<Longrightarrow>
    \<exists>md. get_attr_metadata env (mk_objecttype mk) (at_id a) = Some md \<and> create_value_check env db md sw (at_value a) = success"
proof (induction attrs arbitrary: seen haskeys)
  case (Cons b attrs)
  then obtain md haskeys1 where md: "get_attr_metadata env (mk_objecttype mk) (at_id b) = Some md"
    and c: "create_value_check env db md sw (at_value b) = success"
    and rest: "create_attr_loop env db mk sw attrs (at_id b # seen) haskeys1 = Inr (Inr haskeys')"
    by (auto simp: chk_bind_eq_Inr and_then_eq_Inr split: option.splits if_splits)
  show ?case using Cons.IH [OF rest] Cons.prems(2) md c by auto
qed simp

lemma validation_create_parts:
  assumes "meta_generic_validation_create env mk switch_id n attr_list db = success"
  shows "\<exists>sw haskeys. create_attr_loop env db mk sw (meta_attr_array n attr_list) [] False = Inr (Inr haskeys)
    \<and> attribute_key_check env db mk (meta_attr_array n attr_list) haskeys = success"
proof -
  let ?attrs = "meta_attr_array n attr_list"
  have le: "n \<le> MAX_LIST_COUNT" "\<not> (n > 0 \<and> attr_list = None)"
    using assms by (auto simp: meta_generic_validation_create_def status_defs split: if_splits)
  obtain sw haskeys where "create_attr_loop env db mk sw ?attrs [] False = Inr (Inr haskeys)"
    and k: "chk_bind (get_attributes_metadata env (mk_objecttype mk)) (\<lambda>mds. if mds = [] then Inr SAI_STATUS_FAILURE
      else and_then (mandatory_loop env db ?attrs mds) (and_then (conditional_loop env (mk_objecttype mk) ?attrs mds)
        (attribute_key_check env db mk ?attrs haskeys))) = success"
    using assms le by (auto simp: meta_generic_validation_create_def and_then_success Let_def
        dest!: bind_sum_success dest: create_switch_id_error create_attr_loop_error)
  moreover have "attribute_key_check env db mk ?attrs haskeys = success"
  proof -
    have "SAI_STATUS_FAILURE \<noteq> SAI_STATUS_SUCCESS" by (simp add: status_defs)
    then show ?thesis using k by (auto simp: chk_bind_eq_Inr and_then_success split: if_splits)
  qed
  ultimately show ?thesis by blast
qed

lemma construct_key_returns:
  assumes "meta_generic_validation_create env mk switch_id n attr_list db = success"
  shows "\<exists>s. construct_key env mk (meta_attr_array n attr_list) = Inr s"
proof -
  let ?attrs = "meta_attr_array n attr_list"
  obtain sw haskeys where loop: "create_attr_loop env db mk sw ?attrs [] False = Inr (Inr haskeys)"
    and keys: "attribute_key_check env db mk ?attrs haskeys = success" using validation_create_parts [OF assms] by blast
  show ?thesis
  proof (cases haskeys)
    case True
    then show ?thesis using keys by (auto simp: attribute_key_check_def chk_bind_eq_Inr)
  next
    case False
    then have "\<exists>md. get_attr_metadata env (mk_objecttype mk) (at_id a) = Some md \<and> \<not> HAS_FLAG_KEY md"
      if "a \<in> set ?attrs" for a
      using create_attr_loop_keys [OF loop] create_attr_loop_metadata [OF loop that] that by auto
    then show ?thesis using construct_key_loop_keyless [of ?attrs env mk "[]"] by (simp add: construct_key_def)
  qed
qed

lemma construct_key_type:
  "mk_objecttype mk = mk_objecttype mk' \<Longrightarrow> construct_key env mk attrs = construct_key env mk' attrs"
proof -
  assume t: "mk_objecttype mk = mk_objecttype mk'"
  have "construct_key_loop env mk attrs keys = construct_key_loop env mk' attrs keys" for keys
    by (induction attrs arbitrary: keys) (use t in \<open>simp_all split: option.split\<close>)
  then show ?thesis by (simp add: construct_key_def)
qed

lemma post_create_returns:
  assumes env: "meta_env_ok env" and db: "db_ok env db" and created: "created_ok env ot sw oid"
    and fresh: "\<not> object_reference_exists oid db"
    and val: "meta_sai_validate_oid env ot object_id True db = success"
      "meta_generic_validation_create env (oid_key ot SAI_NULL_OBJECT_ID) sw n attrs db = success"
    and ser: "\<And>a. a \<in> set (meta_attr_array n attrs) \<Longrightarrow> stored_copy env ot a \<noteq> None"
  shows "\<exists>db'. meta_generic_validation_post_create env garbage (oid_key ot oid)
    (if ot = OT_SWITCH then oid else sw) n attrs db = Inr db'"
proof -
  let ?mk = "oid_key ot oid" and ?null = "oid_key ot SAI_NULL_OBJECT_ID"
  let ?attrs = "meta_attr_array n attrs" and ?sw = "if ot = OT_SWITCH then oid else sw" and ?h = "ObjectAttrHash db"
  note mk = created_matching [OF created] and on = created_on_switch [OF created val]
  have key: "mk_objectkey ?mk = KeyOid oid" "mk_objecttype ?mk = ot" "mk_objecttype ?null = ot"
    by (simp_all add: oid_key_def)
  have "oid_type env ot" using matching_oid_type [OF env mk key(1)] key(2) by simp
  then obtain info where info: "object_infos env ot = Some info" "\<not> info_isnonobjectid info"
    by (auto simp: oid_type_def)
  obtain k where k: "serialize_object_meta_key env ?mk = Inr k"
    using serialize_oid_type [OF env \<open>oid_type env ot\<close>] by blast
  have h: "table_ok env ?h" and w: "\<not> warmBoot db" and c: "ObjectReferences db = table_counts env ?h"
    using db by (simp_all add: db_ok_def)
  have "oid \<notin> table_oids env ?h"
    using fresh c by (auto simp: object_reference_exists_def table_counts_def counts_def split: if_splits)
  then have new: "map_of ?h k = None" using present_oid [OF env h mk k key(1)] by simp
  let ?db1 = "with_table env (AList.update k [] ?h) db"
  note ins = insert_oid_keeps [OF env db mk key(1) k new]
  have reg: "register_created env ?mk ?sw db = Inr ?db1"
  proof -
    let ?dbc = "db\<lparr>ObjectAttrHash := AList.update k [] ?h\<rparr>"
    have "create_object env ?mk db = Inr ?dbc" using k new by (simp add: create_object_def object_key_exists_def)
    moreover have "on_switch env ?mk ?sw ?dbc" using on by (simp add: on_switch_def object_reference_exists_def)
    then have "insert_created env ?mk ?sw ?dbc = object_reference_insert oid ?dbc"
      using insert_created_oid [OF mk key(1), of ?dbc ?sw] w by simp
    moreover have "object_reference_insert oid ?dbc = Inr ?db1"
      using fresh ins(2) by (simp add: object_reference_insert_def object_reference_exists_def with_table_def)
    ultimately show ?thesis using info w key(2) by (simp add: register_created_def)
  qed
  have same: "?db1\<lparr>warmBoot := False\<rparr> = ?db1" using w by (simp add: with_table_def)
  obtain sw' haskeys where loop: "create_attr_loop env db ?null sw' ?attrs [] False = Inr (Inr haskeys)"
    using validation_create_parts [OF val(2)] by blast
  have "\<exists>r. post_create_loop env ?mk ?attrs garbage ?db1 = Inr r"
  proof (rule post_create_loop_returns [OF env mk k ins(1), where stored = "[]"])
    show "map_of (ObjectAttrHash ?db1) k = Some []" by (simp add: update_conv')
    show "distinct (map at_id ?attrs)" using create_attr_loop_distinct [OF loop] by simp
    fix a assume a: "a \<in> set ?attrs"
    obtain md where md: "get_attr_metadata env ot (at_id a) = Some md"
      and v: "create_value_check env db md sw' (at_value a) = success"
      using create_attr_loop_values [OF loop a] key(3) by auto
    have "known_items ?db1 l" if "known_items db l" for l
      using that c by (auto simp: known_items_def with_table_def object_reference_exists_def table_counts_def counts_def
          table_oids_update split: if_splits)
    then show "\<exists>md. get_attr_metadata env (mk_objecttype ?mk) (at_id a) = Some md
        \<and> ma_attrvaluetype md \<in> set stored_types \<and> known_items ?db1 (value_list (ma_attrvaluetype md) (at_value a))
        \<and> (\<exists>w. copied_value md (at_value a) = Inr w)"
      using md key(2) create_value_known [OF v] ser [OF a] by (auto simp: stored_copy_Some)
  qed simp
  moreover have "\<exists>s. construct_key env ?mk ?attrs = Inr s"
    using construct_key_returns [OF val(2)] construct_key_type [of ?mk ?null env ?attrs] key(2,3) by simp
  ultimately show ?thesis using k reg same
    by (auto simp: meta_generic_validation_post_create_def Let_def split: prod.splits)
qed

section \<open>The properties\<close>

text \<open>C9. The check of a set is enough: once it has answered success and the vendor has set the value, recording it
  throws no exception, whatever the value stored before, provided the copy of the value that the table keeps
  can be made (no exception and no read outside an array while its text is written and read).\<close>

theorem checked_set_recorded:
  assumes "meta_env_ok env" and "reachable meta_start (meta_call_ok env) (meta_exec env) db"
    and "meta_sai_validate_oid env ot (Some oid) False db = success"
    and "meta_generic_validation_set env (oid_key ot oid) (Some a) db = Inr (SAI_STATUS_SUCCESS, db1)"
    and "vendor a = SAI_STATUS_SUCCESS" and "stored_copy env ot a \<noteq> None"
  shows "\<exists>db'. meta_sai_set_oid env ot oid (Some a) (Some vendor) db = Inr (SAI_STATUS_SUCCESS, db')"
proof -
  let ?mk = "oid_key ot oid"
  have db1: "db_ok env db1" by (rule validation_set_keeps [OF reachable_db_ok [OF assms(1,2)] assms(4)])
  obtain md where md: "get_attr_metadata env (mk_objecttype ?mk) (at_id a) = Some md"
    and c: "set_checks env db1 ?mk md (at_value a) = success" using validation_set_success [OF assms(4)] by blast
  then obtain sw where "set_value_check env db1 md sw (at_value a) = success"
    and ex: "object_exists env ?mk db1 = Inr True" using set_checks_success by blast
  note v = set_value_known [OF this(1)]
  obtain w where "copied_value md (at_value a) = Inr w"
    using assms(6) md by (auto simp: stored_copy_Some oid_key_def)
  then obtain db' where "meta_generic_validation_post_set env ?mk a db1 = Inr db'"
    using post_set_returns [OF assms(1) db1 validate_oid_matching [OF assms(3)] md ex v] by blast
  then show ?thesis using assms(3-5) by (simp add: meta_sai_set_oid_def set_entry_def)
qed

text \<open>C8. The check of a creation is enough: once it has answered success and the vendor has created the object
  under a new id of the right type on the right switch, recording it throws no exception and the call
  answers success, whatever the uninitialised local holds, provided the copy of each value passed that the
  table keeps can be made.\<close>

theorem checked_create_recorded:
  assumes "meta_env_ok env" and "reachable meta_start (meta_call_ok env) (meta_exec env) db"
    and "meta_sai_validate_oid env ot object_id True db = success"
    and "meta_generic_validation_create env (oid_key ot SAI_NULL_OBJECT_ID) sw n attrs db = success"
    and "vendor (meta_attr_array n attrs) = (SAI_STATUS_SUCCESS, oid)" and "created_ok env ot sw oid"
    and "\<not> object_reference_exists oid db"
    and "\<forall>a \<in> set (meta_attr_array n attrs). stored_copy env ot a \<noteq> None"
  shows "\<exists>db'. meta_sai_create_oid env garbage ot object_id sw n attrs (Some vendor) db
    = Inr (SAI_STATUS_SUCCESS, Some oid, db')"
proof -
  obtain db' where "meta_generic_validation_post_create env garbage (oid_key ot oid)
      (if ot = OT_SWITCH then oid else sw) n attrs db = Inr db'"
    using post_create_returns [OF assms(1) reachable_db_ok [OF assms(1,2)] assms(6,7,3,4)] assms(8) by blast
  then show ?thesis using assms(3-5) by (simp add: meta_sai_create_oid_def and_then_def)
qed

theorem checked_set_recorded_witness:
  "\<exists>db'. meta_sai_set_oid example_env OT_ROUTER_INTERFACE 3 (Some \<lparr>at_id = 1, at_value = oid_value 2\<rparr>)
      (Some (\<lambda>_. SAI_STATUS_SUCCESS)) example_db = Inr (SAI_STATUS_SUCCESS, db')"
proof -
  let ?a = "\<lparr>at_id = 1, at_value = oid_value 2\<rparr>"
  have v: "meta_sai_validate_oid example_env OT_ROUTER_INTERFACE (Some 3) False example_db = success" by code_simp
  have "(case meta_generic_validation_set example_env (oid_key OT_ROUTER_INTERFACE 3) (Some ?a) example_db of
      Inr (status, db1) \<Rightarrow> status = SAI_STATUS_SUCCESS | Inl e \<Rightarrow> False)" by code_simp
  then obtain db1 where "meta_generic_validation_set example_env (oid_key OT_ROUTER_INTERFACE 3) (Some ?a) example_db
      = Inr (SAI_STATUS_SUCCESS, db1)" by (auto split: sum.splits)
  note recorded = checked_set_recorded [OF example_env_ok example_reachable v this, of "\<lambda>_. SAI_STATUS_SUCCESS"]
  have "stored_copy example_env OT_ROUTER_INTERFACE ?a \<noteq> None" by code_simp
  then show ?thesis using recorded by simp
qed

theorem checked_create_recorded_witness:
  "\<exists>db'. meta_sai_create_oid example_env True OT_ROUTER_INTERFACE (Some 0) 1 1 (Some rif_attrs)
      (Some (\<lambda>_. (SAI_STATUS_SUCCESS, 4))) example_db = Inr (SAI_STATUS_SUCCESS, Some 4, db')"
proof -
  have "meta_sai_validate_oid example_env OT_ROUTER_INTERFACE (Some 0) True example_db = success"
    "meta_generic_validation_create example_env (oid_key OT_ROUTER_INTERFACE SAI_NULL_OBJECT_ID) 1 1 (Some rif_attrs)
       example_db = success"
    "\<not> object_reference_exists 4 example_db"
    "list_all (\<lambda>a. stored_copy example_env OT_ROUTER_INTERFACE a \<noteq> None) (meta_attr_array 1 (Some rif_attrs))"
    by code_simp+
  then show ?thesis
    using checked_create_recorded [OF example_env_ok example_reachable, of OT_ROUTER_INTERFACE "Some 0" 1 1
        "Some rif_attrs" "\<lambda>_. (SAI_STATUS_SUCCESS, 4)" 4 True] created_examples(4)
    by (simp add: list_all_iff)
qed

end
