(* ===== verification/Spec2Isabelle.thy ===== *)
theory Spec2Isabelle
  imports SaiProperties SaiMetaSearch StubProperties TextProperties PoolProperties
    GeneratorProperties GraphProperties StubL3Properties StubApi StubSwitchProperties
    StubKeys DmaMachine Mfa2Example MetaRecord
begin

text \<open>
  Verification development for C and C++ components of the SONiC build repository.

  The repository builds a network operating system image. Most of it is build recipes, device data,
  C++ and Python services and vendor drivers. Modelled here is code with logic of its own, in seven
  groups that do not call each other: the Switch Abstraction Interface (SAI) library functions that
  every SAI user links against, the SAI stub implementation (a switch without hardware), the DMA memory
  allocators of switch drivers, the generator that installs the systemd units, the firmware flash of the
  Mellanox drivers, and the metadata layer of sairedis, which checks every SAI call and keeps the table of
  objects and their references.

  Conventions (\<^verbatim>\<open>Prelude\<close>). Machine integers are words of their width; C \<^verbatim>\<open>int\<close> arithmetic that may leave
  its range is written with \<open>wrap32\<close>. A C string is the list of its bytes before the NUL. A NULL
  pointer is \<open>None\<close>. What C leaves undefined is a value: an operation that may dereference NULL, leave
  an array, fail an assert, use freed or uninitialised memory or take a lock twice returns
  \<open>fault + 'a\<close>, and the properties prove that no fault happens or exactly when it does. Lines written
  to a log are left out, except where building them can fault. The outcome of \<^verbatim>\<open>malloc\<close> is an argument
  where the code tests it.

  1. Serialization (\<^verbatim>\<open>SAI/meta/saiserialize.c\<close>). \<^verbatim>\<open>SaiCodec\<close>: booleans, character arrays, and the
  locale \<open>codec\<close> of a serializer with its deserializer; \<^verbatim>\<open>SaiNumbers\<close>: all integer widths, with the
  overflow test of the 64-bit parser; \<^verbatim>\<open>SaiScan\<close>: object ids, MAC addresses and pointers, read by
  \<^verbatim>\<open>sscanf\<close>; \<^verbatim>\<open>SaiEnum\<close>: enumerations, enumeration lists, attribute ids; \<^verbatim>\<open>SaiMask\<close>: IP masks as
  prefix lengths; \<^verbatim>\<open>SaiIp\<close>: addresses and prefixes, over \<^verbatim>\<open>inet_ntop\<close> and \<^verbatim>\<open>inet_pton\<close>, which are a
  parameter (\<open>inet_lib\<close>) with the laws \<open>inet_lib_ok\<close>; \<^verbatim>\<open>InetText\<close> gives a concrete instance. Deserializers
  return the number of characters read with the value. \<^verbatim>\<open>SaiProperties\<close> states the round trips, the exact
  set of texts the 64-bit parser accepts, and the texts that are read or written wrongly.

  2. Metadata (\<^verbatim>\<open>SAI/meta/saimetadatautils.c\<close>, part of \<^verbatim>\<open>saisanitycheck.c\<close>). The generated tables are
  the record \<open>sai_metadata\<close>. \<^verbatim>\<open>SaiMeta\<close>: the value union, the lookups; \<^verbatim>\<open>SaiMetaSearch\<close>: the binary
  search by name, the sanity check that makes it correct, and the evaluation of the conditions of an
  attribute. The optimised lookups are proved equal to linear searches, and a condition to its meaning
  over them. \<^verbatim>\<open>SaiGraph\<close>: the two recursive checks of the graph of object types, with a visited list and
  a level array as in the code; \<^verbatim>\<open>SaiGraphFacts\<close> defines the edges of the graph independently of them, and
  \<^verbatim>\<open>GraphProperties\<close> shows that one accepts exactly the graphs without a loop and the other exactly the
  connected ones, on enough fuel: the number of types.

  3. SAI stub (\<^verbatim>\<open>SAI/stub\<close>). \<^verbatim>\<open>StubObject\<close>: status codes, object ids, filling of list values;
  \<^verbatim>\<open>StubAttrib\<close>: the attribute tables, \<^verbatim>\<open>check_attribs_metadata\<close> and the dispatch to getters and setters
  (\<^verbatim>\<open>stub_sai_utils.c\<close>); \<^verbatim>\<open>StubText\<close>: the text of values and attribute lists in bounded buffers;
  \<^verbatim>\<open>StubNextHopGroup\<close> (\<^verbatim>\<open>stub_sai_nexthopgroup.c\<close>) and \<^verbatim>\<open>StubVlan\<close> (\<^verbatim>\<open>stub_sai_vlan.c\<close>): the two
  databases with every operation and API function. The identifiers of the attributes come from headers
  of another SAI version and are a parameter (\<open>next_hop_group_ids\<close>, \<open>vlan_attr_ids\<close>). \<^verbatim>\<open>NextHopGroupFacts\<close>
  and \<^verbatim>\<open>VlanFacts\<close> give each database an invariant and an abstract map (\<open>groups\<close>: group id to next hops;
  \<open>vlan_map\<close>: VLAN id to ports) and prove what each operation does to the map. \<^verbatim>\<open>Machine\<close> is the contract
  of a component that answers calls (the states that well-formed calls reach, the invariant, a step
  relation on an abstract view); \<^verbatim>\<open>NextHopMachine\<close> and \<^verbatim>\<open>VlanMachine\<close> interpret it: every call in every
  reachable state is a step of the specification. \<^verbatim>\<open>StubL3\<close> (virtual routers, next hops, router and host
  interfaces), \<^verbatim>\<open>StubEntries\<close> (routes, neighbors, FDB entries) and \<^verbatim>\<open>StubApi\<close> (initialisation) are the
  objects that store at most a counter of ids; \<^verbatim>\<open>StubL3Facts\<close> and \<^verbatim>\<open>StubL3Properties\<close> show that their getters and
  setters cannot fault, that ids are distinct, and which router interfaces are accepted.
  \<^verbatim>\<open>StubPort\<close> and \<^verbatim>\<open>StubSwitch\<close> are the ports and the switch object, with the calls that start, stop, connect
  and disconnect the library on its globals (\<open>stub_globals\<close>); \<^verbatim>\<open>StubMachine\<close> puts these calls, the VLAN calls and
  the next hop group calls together into one machine and derives its contract from those of the parts;
  \<^verbatim>\<open>StubSwitchProperties\<close> states it from the loaded library on, with the port list, the port statistics and
  the totality of the port and switch attributes. \<^verbatim>\<open>StubKeys\<close>: the names of objects in the log, which fit their
  buffers. \<^verbatim>\<open>StubProperties\<close> has the properties of the attribute machinery and the object ids;
  \<^verbatim>\<open>TextProperties\<close> shows that printing truncates and never leaves its buffer.

  4. DMA memory. \<^verbatim>\<open>BlockPool\<close>: the contract of an allocator of blocks in a region (locale
  \<open>block_pool\<close>), with what follows from it for every sequence of calls, and lemmas on chains of nodes;
  \<^verbatim>\<open>BcmMpool\<close> (\<^verbatim>\<open>mpool.c\<close> of the Broadcom BDE module) and \<^verbatim>\<open>DalMpool\<close> (\<^verbatim>\<open>dal_mpool.c\<close> of Centec)
  interpret it with their operations. \<^verbatim>\<open>PoolProperties\<close> states it for the pools that their create
  functions make, and shows the error paths that leave a lock or a dangling pool behind.
  \<^verbatim>\<open>DmaSegment\<close> (\<^verbatim>\<open>linux_dma.c\<close>): the allocator that assembles large segments from blocks of the page
  allocator, whose answers are a parameter; \<^verbatim>\<open>DmaSegmentFacts\<close> proves the search for the largest segment,
  \<^verbatim>\<open>DmaMachine\<close> that in every reachable state each block is given back once or held by one segment.

  5. Unit generator (\<^verbatim>\<open>systemd-sonic-generator.c\<close>). \<^verbatim>\<open>UnitGenerator\<close>: lines, tokens, targets, and the
  links, over a file system that is a map from paths to nodes; \<^verbatim>\<open>GeneratorProperties\<close>: the targets of a
  unit, the bounds of the arrays, the effect of an installation and its repetition. \<open>stat\<close> follows at most
  40 links, the kernel's own limit.

  6. Firmware flash (\<^verbatim>\<open>mlxfw\<close> of the Mellanox drivers). \<^verbatim>\<open>Mfa2Tlv\<close>, \<^verbatim>\<open>Mfa2File\<close> and \<^verbatim>\<open>Mfa2Component\<close>
  (\<^verbatim>\<open>mlxfw_mfa2*.c\<close>): the parser of a firmware package, which reads the bytes of the file by address, and
  the extraction of a component with the XZ decoder, which is a parameter; \<^verbatim>\<open>MlxfwFsm\<close> (\<^verbatim>\<open>mlxfw_fsm.c\<close>): the
  flash, over the operations of a device driver, which are a parameter, with a log of the calls to them. A
  run of this code is a value, a fault, or nothing (\<open>None\<close>) when it does not end, since the loops over the
  parts of a package count with 16 bits: type \<open>run\<close>. \<^verbatim>\<open>Mfa2Facts\<close> and \<^verbatim>\<open>Mfa2Properties\<close> show that the parser
  stays in memory, that every lookup in a validated package returns and finds the device with the given
  PSID, and which packages crash the parser or keep it busy for ever; \<^verbatim>\<open>MlxfwFacts\<close> and
  \<^verbatim>\<open>MlxfwProperties\<close> that the calls to the device follow the automaton \<open>phases\<close> and that a successful flash
  has downloaded every byte of every component; \<^verbatim>\<open>Mfa2Example\<close> applies all this to a concrete package.

  7. Object metadata of sairedis (\<^verbatim>\<open>sairedis/meta/sai_meta.cpp\<close>, in C++; the text of keys from
  \<^verbatim>\<open>saiserialize.cpp\<close>). \<^verbatim>\<open>MetaTypes\<close>: values, keys, metadata, the state (\<open>meta_db\<close>: the reference counts, the
  table of objects, the attribute keys, the objects that go with a port), and what the layer is linked with
  (\<open>meta_env\<close>: the generated metadata, the queries on object ids, the JSON text of keys). \<^verbatim>\<open>MetaKeys\<close>: which
  keys have a text, and the masks. \<^verbatim>\<open>MetaCopy\<close>: the copy of a value that the table keeps, which goes through
  the text of the value and back, and that copying it again changes nothing. \<^verbatim>\<open>MetaRefs\<close>: the primitive operations on the state; \<^verbatim>\<open>MetaValidation\<close> and
  \<^verbatim>\<open>MetaChecks\<close>: the checks before a call; \<^verbatim>\<open>MetaPost\<close>: what is recorded after it; \<^verbatim>\<open>MetaApi\<close>: the calls on the
  seven kinds of entries and on objects named by an id, with statistics and the flush, the vendor's function
  being an argument; \<^verbatim>\<open>MetaEvents\<close>: the notifications of FDB entries. An exception of the code is the fault
  \<open>Thrown\<close>. The uninitialised local \<open>haskeys\<close> is an argument (\<open>garbage\<close>), so that the properties hold for every
  value of it; the recursion of a removal has the number of objects as fuel, since every level removes one.
  \<^verbatim>\<open>MetaFacts\<close> reduces the reference counts to multisets and a value to the one list of ids it holds;
  \<^verbatim>\<open>MetaTable\<close> defines the references of a table and the invariant \<open>db_ok\<close>, that the counts are those of the
  table; \<^verbatim>\<open>MetaInvariant\<close> and \<^verbatim>\<open>MetaMachine\<close> show that every call and notification that returns keeps it
  (locale \<open>keeping\<close>), for arbitrary arguments, when the vendor's new ids are not NULL and have the type and
  the switch asked for. A warm boot is left out of these states. \<^verbatim>\<open>MetaProperties\<close>: references resolve,
  objects in use stay, unused ones can be removed, what create and set store, the switch, the masks, the
  calls that throw; \<^verbatim>\<open>MetaRecord\<close>: a creation or a set whose check has passed is recorded without an
  exception; \<^verbatim>\<open>MetaLists\<close> has facts about single checks, and \<^verbatim>\<open>MetaExample\<close> is the instance of the witnesses.

  Loops are structural recursions, or functions with a termination proof (the digit parser, the binary
  search, the mask loop, the removal of group members, the growth of a DMA segment, the allocation of its
  blocks), or partial functions where they need not end (the parser and the download); fuel is used for the
  recursion over the object graph (the number of types is enough) and for the links that \<open>stat\<close> follows. The bounds used in properties are the code's: 65536 attributes (indices are
  added to status codes), 64 next hops per group, 1000 groups, sizes that do not overflow when rounded to
  a cache line of the pools, and less than 2^28 pages of memory for the DMA segments (beyond it the size
  of the block array can wrap).

  Not modelled: the remaining checks of \<^verbatim>\<open>saisanitycheck.c\<close> over the generated tables, the other parts of
  the kernel drivers (hardware access), generated code, the other C++ programs (services over redis and
  threads), and the Python and Perl programs.
\<close>

end
